(* ===== verification/Prelude.thy ===== *)
theory Prelude
  imports Main "HOL-Library.Char_ord" "HOL-Library.List_Lexorder" "HOL-Library.Sublist"
begin

text \<open>
  Shared vocabulary of the development: the fact collections, Python exceptions as values,
  insertion-ordered dictionaries, and the string and integer routines of the Python standard
  library that the modelled code calls.

  A Python string is a list of code points below 256 (Isabelle's \<^typ>\<open>char\<close>); a code
  point above that is outside the model. Python's unbounded integers are \<^typ>\<open>int\<close>.
\<close>

named_theorems py_simps "unfolding rules for the modelled library routines"
named_theorems inv_intros "preservation rules of component invariants"

subsection \<open>Exceptions\<close>

text \<open>A raised exception is a value: \<open>Inl e\<close> is \<open>raise e\<close>, \<open>Inr v\<close> a normal return.\<close>

datatype py_exc =
    KeyError string
  | ValueError string
  | TypeError string
  | RuntimeError string
  | UnsupportedSchemaVersion
  | BusClosedError
  | BackpressureError
  | OutboxFullError
  | OtherError string

type_synonym 'a result = "py_exc + 'a"

definition bind_r :: "'a result \<Rightarrow> ('a \<Rightarrow> 'b result) \<Rightarrow> 'b result" where
  "bind_r m f = (case m of Inl e \<Rightarrow> Inl e | Inr a \<Rightarrow> f a)"

definition of_opt :: "py_exc \<Rightarrow> 'a option \<Rightarrow> 'a result" where
  "of_opt e x = (case x of None \<Rightarrow> Inl e | Some a \<Rightarrow> Inr a)"

lemma bind_r_simps [simp]: "bind_r (Inl e) f = Inl e" "bind_r (Inr a) f = f a"
  by (simp_all add: bind_r_def)

lemma of_opt_simps [simp]: "of_opt e None = Inl e" "of_opt e (Some a) = Inr a"
  by (simp_all add: of_opt_def)

lemma bind_r_Inr_iff: "bind_r m f = Inr b \<longleftrightarrow> (\<exists>a. m = Inr a \<and> f a = Inr b)"
  by (cases m) auto

subsection \<open>Insertion-ordered dictionaries\<close>

text \<open>
  A \<open>dict\<close> (and an \<open>OrderedDict\<close>) keeps insertion order: assigning an existing key keeps its
  position, a new key goes last.
\<close>

abbreviation dict_get :: "('k \<times> 'v) list \<Rightarrow> 'k \<Rightarrow> 'v option" where
  "dict_get \<equiv> map_of"

fun dict_set :: "'k \<Rightarrow> 'v \<Rightarrow> ('k \<times> 'v) list \<Rightarrow> ('k \<times> 'v) list" where
  "dict_set k v [] = [(k, v)]"
| "dict_set k v ((a, b) # d) = (if a = k then (a, v) # d else (a, b) # dict_set k v d)"

definition dict_del :: "'k \<Rightarrow> ('k \<times> 'v) list \<Rightarrow> ('k \<times> 'v) list" where
  "dict_del k d = filter (\<lambda>(a, _). a \<noteq> k) d"

definition dict_setdefault :: "'k \<Rightarrow> 'v \<Rightarrow> ('k \<times> 'v) list \<Rightarrow> ('k \<times> 'v) list" where
  "dict_setdefault k v d = (case dict_get d k of None \<Rightarrow> d @ [(k, v)] | Some _ \<Rightarrow> d)"

lemma dict_get_set [simp]: "dict_get (dict_set k v d) x = (if x = k then Some v else dict_get d x)"
  by (induction k v d rule: dict_set.induct) auto

lemma dict_get_del [simp]: "dict_get (dict_del k d) x = (if x = k then None else dict_get d x)"
  by (induction d) (auto simp: dict_del_def)

lemma dict_get_setdefault [simp]:
  "dict_get (dict_setdefault k v d) x = (if x = k \<and> dict_get d k = None then Some v else dict_get d x)"
  by (auto simp: dict_setdefault_def map_add_def split: option.splits)

lemma keys_dict_set: "fst ` set (dict_set k v d) = insert k (fst ` set d)"
  by (induction k v d rule: dict_set.induct) auto

lemma distinct_dict_set [simp]: "distinct (map fst (dict_set k v d)) = distinct (map fst d)"
  by (induction k v d rule: dict_set.induct) (auto simp: keys_dict_set)

lemma distinct_dict_del: "distinct (map fst d) \<Longrightarrow> distinct (map fst (dict_del k d))"
  unfolding dict_del_def by (induction d) auto

lemma dict_set_values: "(a, b) \<in> set (dict_set k v d) \<Longrightarrow> (a, b) = (k, v) \<or> (a, b) \<in> set d"
  by (induction k v d rule: dict_set.induct) (auto split: if_splits)

subsection \<open>Strings\<close>

definition is_space :: "char \<Rightarrow> bool" where
  "is_space c = (let n = (of_char c :: nat) in n \<in> {9, 10, 11, 12, 13, 28, 29, 30, 31, 32, 133, 160})"

definition lower_char :: "char \<Rightarrow> char" where
  "lower_char c =
     (let n = (of_char c :: nat)
      in if 65 \<le> n \<and> n \<le> 90 \<or> 192 \<le> n \<and> n \<le> 222 \<and> n \<noteq> 215 then char_of (n + 32) else c)"

definition py_lower :: "string \<Rightarrow> string" where
  "py_lower s = map lower_char s"

definition py_lstrip :: "string \<Rightarrow> string" where
  "py_lstrip s = dropWhile is_space s"

definition py_strip :: "string \<Rightarrow> string" where
  "py_strip s = rev (dropWhile is_space (rev (py_lstrip s)))"

abbreviation py_startswith :: "string \<Rightarrow> string \<Rightarrow> bool" where
  "py_startswith s p \<equiv> prefix p s"

text \<open>\<open>s.split(c)\<close> for a one-character separator: always at least one part.\<close>

fun py_split :: "char \<Rightarrow> string \<Rightarrow> string list" where
  "py_split c [] = [[]]"
| "py_split c (x # xs) =
     (if x = c then [] # py_split c xs
      else (case py_split c xs of [] \<Rightarrow> [[x]] | p # ps \<Rightarrow> (x # p) # ps))"

text \<open>\<open>s.partition(c)\<close>: head, whether the separator occurs, tail.\<close>

fun py_partition :: "char \<Rightarrow> string \<Rightarrow> string \<times> bool \<times> string" where
  "py_partition c [] = ([], False, [])"
| "py_partition c (x # xs) =
     (if x = c then ([], True, xs)
      else (case py_partition c xs of (a, sep, b) \<Rightarrow> (x # a, sep, b)))"

fun py_join :: "string \<Rightarrow> string list \<Rightarrow> string" where
  "py_join sep [] = []"
| "py_join sep [p] = p"
| "py_join sep (p # ps) = p @ sep @ py_join sep ps"

lemma py_split_nonempty [simp]: "py_split c s \<noteq> []"
  by (induction c s rule: py_split.induct) (auto split: list.splits)

lemma py_split_no_sep: "c \<notin> set s \<Longrightarrow> py_split c s = [s]"
  by (induction c s rule: py_split.induct) auto

lemma py_split_append: "c \<notin> set p \<Longrightarrow> py_split c (p @ c # s) = p # py_split c s"
  by (induction p) auto

lemma py_partition_sep: "c \<notin> set p \<Longrightarrow> py_partition c (p @ c # s) = (p, True, s)"
  by (induction p) auto

lemma py_partition_no_sep: "c \<notin> set p \<Longrightarrow> py_partition c p = (p, False, [])"
  by (induction p) auto

lemma hd_py_split: "c \<notin> set (hd (py_split c s))"
  by (induction c s rule: py_split.induct) (auto split: list.splits)

lemma py_strip_id:
  assumes "\<forall>c \<in> set s. \<not> is_space c"
  shows "py_strip s = s"
proof -
  have "dropWhile is_space t = t" if "\<forall>c \<in> set t. \<not> is_space c" for t
    using that by (cases t) auto
  from this[OF assms] this[of "rev s"] assms show ?thesis
    by (simp add: py_strip_def py_lstrip_def)
qed

subsection \<open>Digits and integers\<close>

definition digit_char :: "nat \<Rightarrow> char" where
  "digit_char d = (if d < 10 then char_of (48 + d) else char_of (87 + d))"

definition digit_val :: "char \<Rightarrow> nat option" where
  "digit_val c =
     (let n = (of_char c :: nat)
      in if 48 \<le> n \<and> n \<le> 57 then Some (n - 48)
         else if 97 \<le> n \<and> n \<le> 122 then Some (n - 87)
         else if 65 \<le> n \<and> n \<le> 90 then Some (n - 55)
         else None)"

text \<open>Fixed-width rendering, most significant digit first (\<open>{n:02x}\<close>, \<open>{n:04d}\<close> and the like).\<close>

fun fixed_digits :: "nat \<Rightarrow> nat \<Rightarrow> nat \<Rightarrow> string" where
  "fixed_digits base 0 n = []"
| "fixed_digits base (Suc w) n = fixed_digits base w (n div base) @ [digit_char (n mod base)]"

text \<open>Shortest rendering, as \<open>str(n)\<close> (base 10) or \<open>format(n, 'x')\<close> (base 16).\<close>

function nat_digits :: "nat \<Rightarrow> nat \<Rightarrow> string" where
  "nat_digits base n =
     (if base < 2 \<or> n < base then [digit_char n]
      else nat_digits base (n div base) @ [digit_char (n mod base)])"
  by pat_completeness auto
termination by (relation "measure (\<lambda>(b, n). n)") auto

declare nat_digits.simps [simp del]

definition int_str :: "int \<Rightarrow> string" where
  "int_str i = (if i < 0 then CHR ''-'' # nat_digits 10 (nat (- i)) else nat_digits 10 (nat i))"

text \<open>Left-to-right value of a run of digits; \<^const>\<open>None\<close> on a character that is not one.\<close>

fun digits_val :: "nat \<Rightarrow> nat \<Rightarrow> string \<Rightarrow> nat option" where
  "digits_val base acc [] = Some acc"
| "digits_val base acc (c # cs) =
     (case digit_val c of
        None \<Rightarrow> None
      | Some d \<Rightarrow> if d < base then digits_val base (acc * base + d) cs else None)"

text \<open>
  \<open>int(s, base)\<close>: surrounding white space, one sign, for base 16 an optional \<open>0x\<close> prefix, then
  digits in which single underscores may separate two digits (or follow the prefix).
\<close>

fun drop_underscores :: "bool \<Rightarrow> string \<Rightarrow> string option" where
  "drop_underscores after_digit [] = (if after_digit then Some [] else None)"
| "drop_underscores after_digit (c # cs) =
     (if c = CHR ''_'' then (if after_digit then drop_underscores False cs else None)
      else map_option (Cons c) (drop_underscores True cs))"

definition py_int_magnitude :: "nat \<Rightarrow> string \<Rightarrow> nat option" where
  "py_int_magnitude base s =
     (let has_prefix = (base = 16 \<and> (prefix ''0x'' s \<or> prefix ''0X'' s));
          t = (if has_prefix then drop 2 s else s)
      in case drop_underscores has_prefix t of
           None \<Rightarrow> None
         | Some ds \<Rightarrow> if ds = [] then None else digits_val base 0 ds)"

definition py_int :: "nat \<Rightarrow> string \<Rightarrow> int option" where
  "py_int base s =
     (case py_strip s of
        [] \<Rightarrow> None
      | c # cs \<Rightarrow>
          if c = CHR ''-'' then map_option (\<lambda>n. - int n) (py_int_magnitude base cs)
          else if c = CHR ''+'' then map_option int (py_int_magnitude base cs)
          else map_option int (py_int_magnitude base (c # cs)))"


subsection \<open>Rendering and reading back\<close>

lemma of_char_digit_char: "d < 36 \<Longrightarrow> (of_char (digit_char d) :: nat) = (if d < 10 then 48 + d else 87 + d)"
  by (simp add: digit_char_def)

lemma digit_val_digit_char [simp]: "d < 36 \<Longrightarrow> digit_val (digit_char d) = Some d"
  by (simp add: digit_val_def of_char_digit_char)

lemma digits_val_append:
  "digits_val base acc (xs @ ys) =
     (case digits_val base acc xs of None \<Rightarrow> None | Some a \<Rightarrow> digits_val base a ys)"
  by (induction xs arbitrary: acc) (auto split: option.splits)

lemma length_fixed_digits [simp]: "length (fixed_digits base w n) = w"
  by (induction w arbitrary: n) auto

lemma digits_val_fixed:
  assumes "1 < base" "base \<le> 36"
  shows "digits_val base 0 (fixed_digits base w n) = Some (n mod base ^ w)"
proof (induction w arbitrary: n)
  case (Suc w)
  have "n mod base < 36" using assms by (meson less_le_trans mod_less_divisor order.strict_trans zero_less_one)
  moreover have "n div base mod base ^ w * base + n mod base = n mod (base * base ^ w)"
    using mod_mult2_eq[of n base "base ^ w"] by (simp add: mult.commute)
  ultimately show ?case using assms by (simp add: digits_val_append Suc.IH)
qed simp

corollary digits_val_fixed_id:
  "1 < base \<Longrightarrow> base \<le> 36 \<Longrightarrow> n < base ^ w \<Longrightarrow> digits_val base 0 (fixed_digits base w n) = Some n"
  by (simp add: digits_val_fixed)

lemma digits_val_nat_digits:
  assumes "1 < base" "base \<le> 36"
  shows "digits_val base 0 (nat_digits base n) = Some n"
proof (induction n rule: less_induct)
  case (less n)
  show ?case
  proof (cases "n < base")
    case True
    then show ?thesis using assms by (simp add: nat_digits.simps[of base n])
  next
    case False
    have "n div base < n" using False assms by (simp add: div_less_dividend)
    moreover have "n mod base < 36" using assms by (meson less_le_trans mod_less_divisor order.strict_trans zero_less_one)
    ultimately show ?thesis
      using less False assms by (simp add: nat_digits.simps[of base n] digits_val_append)
  qed
qed

lemma set_fixed_digits:
  "0 < base \<Longrightarrow> set (fixed_digits base w n) \<subseteq> digit_char ` {..<base}"
  by (induction w arbitrary: n) auto

lemma set_nat_digits:
  assumes "1 < base"
  shows "set (nat_digits base n) \<subseteq> digit_char ` {..<base}"
proof (induction n rule: less_induct)
  case (less n)
  show ?case
    using less[of "n div base"] assms
    by (subst nat_digits.simps) (auto simp: div_less_dividend)
qed

lemma nat_digits_nonempty [simp]: "nat_digits base n \<noteq> []"
  by (subst nat_digits.simps) simp

text \<open>What the characters of a rendering are not: separators, signs, white space.\<close>

lemma digit_char_neq:
  assumes "d < 36" "(of_char c :: nat) < 48 \<or> 57 < (of_char c :: nat) \<and> (of_char c :: nat) < 97"
  shows "digit_char d \<noteq> c"
  using assms of_char_digit_char[OF assms(1)] by (auto split: if_splits)

lemma digit_char_not_space: "d < 36 \<Longrightarrow> \<not> is_space (digit_char d)"
  by (auto simp: is_space_def of_char_digit_char)

lemma lower_digit_char [simp]: "d < 36 \<Longrightarrow> lower_char (digit_char d) = digit_char d"
  by (simp add: lower_char_def of_char_digit_char)

lemma drop_underscores_plain:
  "CHR ''_'' \<notin> set s \<Longrightarrow> s \<noteq> [] \<or> b \<Longrightarrow> drop_underscores b s = Some s"
proof (induction s arbitrary: b)
  case (Cons c cs)
  then show ?case by (cases cs) auto
qed simp

definition plain_digits :: "nat \<Rightarrow> string \<Rightarrow> bool" where
  "plain_digits base s \<longleftrightarrow> s \<noteq> [] \<and> set s \<subseteq> digit_char ` {..<base}"

lemma plain_digits_nat [simp]: "1 < base \<Longrightarrow> plain_digits base (nat_digits base n)"
  by (simp add: plain_digits_def set_nat_digits)

lemma plain_digits_fixed [simp]: "0 < base \<Longrightarrow> 0 < w \<Longrightarrow> plain_digits base (fixed_digits base w n)"
  using set_fixed_digits[of base w n] length_fixed_digits[of base w n]
  by (auto simp: plain_digits_def simp del: length_fixed_digits)

lemma plain_digits_notin:
  assumes "plain_digits base s" "base \<le> 36"
    and c: "(of_char c :: nat) < 48 \<or> 57 < (of_char c :: nat) \<and> (of_char c :: nat) < 97"
  shows "c \<notin> set s"
proof
  assume "c \<in> set s"
  then obtain d where "d < base" "c = digit_char d"
    using assms by (auto simp: plain_digits_def)
  with assms digit_char_neq[of d c] show False by simp
qed

lemma plain_digits_not_space: "plain_digits base s \<Longrightarrow> base \<le> 36 \<Longrightarrow> \<forall>c \<in> set s. \<not> is_space c"
  using digit_char_not_space by (fastforce simp: plain_digits_def)

lemma plain_digits_facts:
  assumes "plain_digits base s" "base \<le> 36"
  shows "\<forall>c \<in> set s. \<not> is_space c" "CHR ''_'' \<notin> set s" "CHR ''-'' \<notin> set s" "CHR ''+'' \<notin> set s"
    "CHR ''='' \<notin> set s" "CHR '','' \<notin> set s" "CHR ''.'' \<notin> set s" "CHR ''X'' \<notin> set s" "CHR '':'' \<notin> set s"
  by (rule plain_digits_not_space[OF assms], (rule plain_digits_notin[OF assms], simp)+)

lemma plain_digits_no_x:
  assumes "plain_digits base s" "base \<le> 33"
  shows "CHR ''x'' \<notin> set s"
proof
  assume "CHR ''x'' \<in> set s"
  then obtain d where d: "d < base" "CHR ''x'' = digit_char d"
    using assms by (force simp: plain_digits_def)
  have "(120 :: nat) = of_char (digit_char d)" using arg_cong[OF d(2), of "of_char :: char \<Rightarrow> nat"] by simp
  with d(1) assms show False by (simp add: of_char_digit_char split: if_splits)
qed

lemma py_int_plain:
  assumes s: "plain_digits base s" and b: "base \<le> 33"
  shows "py_int base s = map_option int (digits_val base 0 s)"
proof -
  note f = plain_digits_facts[OF s] plain_digits_no_x[OF s b]
  obtain c cs where cs: "s = c # cs" using s by (cases s) (auto simp: plain_digits_def)
  have np: "\<not> prefix ''0x'' s" "\<not> prefix ''0X'' s"
    using f b by (auto simp: prefix_def)
  have "c \<noteq> CHR ''-''" "c \<noteq> CHR ''+''" using f b cs by auto
  moreover have "py_int_magnitude base s = digits_val base 0 s"
    using np f b s drop_underscores_plain[of s False]
    by (simp add: py_int_magnitude_def plain_digits_def)
  ultimately show ?thesis using cs f b by (simp add: py_int_def py_strip_id)
qed

lemma py_int_nat_digits: "py_int 10 (nat_digits 10 n) = Some (int n)"
  by (simp add: py_int_plain digits_val_nat_digits)

lemma py_int_int_str: "py_int 10 (int_str i) = Some i"
proof (cases "i < 0")
  case True
  let ?d = "nat_digits 10 (nat (- i))"
  note f = plain_digits_facts[of 10 ?d]
  have nsp: "\<forall>c \<in> set (CHR ''-'' # ?d). \<not> is_space c"
    using f(1) by (auto simp: is_space_def)
  have "py_int_magnitude 10 ?d = Some (nat (- i))"
    using f(2) drop_underscores_plain[of ?d False]
    by (simp add: py_int_magnitude_def digits_val_nat_digits)
  then show ?thesis using True nsp by (simp add: int_str_def py_int_def py_strip_id)
next
  case False
  then show ?thesis by (simp add: int_str_def py_int_nat_digits)
qed

end
