(* ===== verification/Glob.thy ===== *)
theory Glob
  imports Prelude
begin

text \<open>
  Topic patterns: \<open>fnmatch.fnmatch\<close> on a case-sensitive file system, as BusCore and the
  subscribers call it.  A pattern is first cut into tokens (\<open>*\<close>, \<open>?\<close>, \<open>[...]\<close>, \<open>[!...]\<close>, literals;
  a \<open>[\<close> without its \<open>]\<close> is a literal), then matched against the whole topic.
\<close>

datatype glob_tok = GStar | GAny | GLit char | GSet bool "(char \<times> char) list"

text \<open>The body of a class after \<open>[\<close> and the rest after its \<open>]\<close>: a \<open>]\<close> in first place (after
  an optional \<open>!\<close>) belongs to the body.\<close>

definition class_split :: "string \<Rightarrow> (string \<times> string) option" where
  "class_split s =
     (let p1 = (if prefix ''!'' s then ''!'' else []);
          s1 = drop (length p1) s;
          p2 = (if prefix '']'' s1 then '']'' else []);
          s2 = drop (length p2) s1;
          rest = dropWhile (\<lambda>c. c \<noteq> CHR '']'') s2
      in if rest = [] then None
         else Some (p1 @ p2 @ takeWhile (\<lambda>c. c \<noteq> CHR '']'') s2, tl rest))"

fun class_ranges :: "string \<Rightarrow> (char \<times> char) list" where
  "class_ranges (a # m # b # r) =
     (if m = CHR ''-'' then (a, b) # class_ranges r else (a, a) # class_ranges (m # b # r))"
| "class_ranges (a # r) = (a, a) # class_ranges r"
| "class_ranges [] = []"

definition class_token :: "string \<Rightarrow> glob_tok" where
  "class_token body =
     (if prefix ''!'' body then GSet True (class_ranges (tl body)) else GSet False (class_ranges body))"

lemma class_split_shorter: "class_split s = Some (b, r) \<Longrightarrow> length r < length s"
proof -
  assume a: "class_split s = Some (b, r)"
  have dw: "length (dropWhile P xs) \<le> length xs" for P and xs :: string
    by (rule length_dropWhile_le)
  define s1 where "s1 = drop (length (if prefix ''!'' s then ''!'' else [])) s"
  define s2 where "s2 = drop (length (if prefix '']'' s1 then '']'' else [])) s1"
  define rest where "rest = dropWhile (\<lambda>c. c \<noteq> CHR '']'') s2"
  have "rest \<noteq> []" "r = tl rest"
    using a by (auto simp: class_split_def Let_def s1_def s2_def rest_def split: if_splits)
  moreover have "length rest \<le> length s"
    using dw[of "\<lambda>c. c \<noteq> CHR '']''" s2] by (simp add: rest_def s2_def s1_def)
  ultimately show ?thesis by (cases rest) auto
qed

function glob_tokens :: "string \<Rightarrow> glob_tok list" where
  "glob_tokens [] = []"
| "glob_tokens (c # cs) =
     (if c = CHR ''*'' then GStar # glob_tokens cs
      else if c = CHR ''?'' then GAny # glob_tokens cs
      else if c = CHR ''['' then
        (case class_split cs of
           None \<Rightarrow> GLit c # glob_tokens cs
         | Some (body, rest) \<Rightarrow> class_token body # glob_tokens rest)
      else GLit c # glob_tokens cs)"
  by pat_completeness auto
termination
  by (relation "measure length") (auto dest: class_split_shorter intro: less_SucI)

fun tok_matches :: "glob_tok \<Rightarrow> char \<Rightarrow> bool" where
  "tok_matches GStar c = False"
| "tok_matches GAny c = True"
| "tok_matches (GLit a) c = (a = c)"
| "tok_matches (GSet neg rs) c = (list_ex (\<lambda>(a, b). a \<le> c \<and> c \<le> b) rs \<noteq> neg)"

fun glob_match :: "glob_tok list \<Rightarrow> string \<Rightarrow> bool" where
  "glob_match [] s = (s = [])"
| "glob_match (GStar # ts) [] = glob_match ts []"
| "glob_match (GStar # ts) (c # cs) = (glob_match ts (c # cs) \<or> glob_match (GStar # ts) cs)"
| "glob_match (t # ts) [] = False"
| "glob_match (t # ts) (c # cs) = (tok_matches t c \<and> glob_match ts cs)"

definition fnmatch :: "string \<Rightarrow> string \<Rightarrow> bool" where
  "fnmatch name pat = glob_match (glob_tokens pat) name"

subsection \<open>What patterns match\<close>

definition is_meta_char :: "char \<Rightarrow> bool" where
  "is_meta_char c \<longleftrightarrow> c = CHR ''*'' \<or> c = CHR ''?'' \<or> c = CHR ''[''"

lemma glob_tokens_literal:
  "\<forall>c \<in> set p. \<not> is_meta_char c \<Longrightarrow> glob_tokens (p @ q) = map GLit p @ glob_tokens q"
  by (induction p) (auto simp: is_meta_char_def)

lemma glob_match_star: "glob_match (GStar # ts) s \<longleftrightarrow> (\<exists>a b. s = a @ b \<and> glob_match ts b)"
proof (induction s)
  case (Cons c cs)
  have "(\<exists>a b. c # cs = a @ b \<and> glob_match ts b) \<longleftrightarrow>
        glob_match ts (c # cs) \<or> (\<exists>a b. cs = a @ b \<and> glob_match ts b)"
    by (auto simp: Cons_eq_append_conv)
  with Cons show ?case by simp
qed simp

lemma glob_match_lits: "glob_match (map GLit p @ ts) s \<longleftrightarrow> (\<exists>r. s = p @ r \<and> glob_match ts r)"
proof (induction p arbitrary: s)
  case (Cons a p)
  then show ?case by (cases s) auto
qed simp

lemma fnmatch_literal:
  assumes "\<forall>c \<in> set p. \<not> is_meta_char c"
  shows "fnmatch s p \<longleftrightarrow> s = p"
  using glob_tokens_literal[OF assms, of "[]"] glob_match_lits[of p "[]" s]
  by (simp add: fnmatch_def)

lemma fnmatch_prefix_star:
  assumes "\<forall>c \<in> set p. \<not> is_meta_char c"
  shows "fnmatch s (p @ ''*'') \<longleftrightarrow> prefix p s"
  using glob_tokens_literal[OF assms, of "''*''"] glob_match_lits[of p "[GStar]" s]
  by (auto simp: fnmatch_def glob_match_star prefix_def)

lemma fnmatch_any: "fnmatch s ''*''"
  using fnmatch_prefix_star[of "[]" s] by simp

end
