(* ===== verification/Datetime.thy ===== *)
theory Datetime
  imports Prelude
begin

text \<open>
  The \<open>datetime\<close> values the envelopes carry: calendar fields plus the UTC offset in seconds
  (\<^const>\<open>None\<close> for a naive value: no \<open>tzinfo\<close>, or one without an offset), with \<open>isoformat\<close> and
  \<open>fromisoformat\<close>.  \<open>fromisoformat\<close> is modelled on the extended ISO 8601 forms (dashes and
  colons, optional fraction, \<open>Z\<close> or a signed offset); the compact and week-date forms and
  offsets with a fraction of a second are outside the model and read as a \<open>ValueError\<close>.
\<close>

record py_datetime =
  dt_year :: nat
  dt_month :: nat
  dt_day :: nat
  dt_hour :: nat
  dt_minute :: nat
  dt_second :: nat
  dt_micro :: nat
  dt_utcoff :: "int option"

definition days_in_month :: "nat \<Rightarrow> nat \<Rightarrow> nat" where
  "days_in_month y m =
     (if m = 2 then (if 4 dvd y \<and> (\<not> 100 dvd y \<or> 400 dvd y) then 29 else 28)
      else if m \<in> {4, 6, 9, 11} then 30 else 31)"

definition valid_dt :: "py_datetime \<Rightarrow> bool" where
  "valid_dt d \<longleftrightarrow>
     1 \<le> dt_year d \<and> dt_year d \<le> 9999 \<and> 1 \<le> dt_month d \<and> dt_month d \<le> 12 \<and>
     1 \<le> dt_day d \<and> dt_day d \<le> days_in_month (dt_year d) (dt_month d) \<and>
     dt_hour d < 24 \<and> dt_minute d < 60 \<and> dt_second d < 60 \<and> dt_micro d < 1000000 \<and>
     (case dt_utcoff d of None \<Rightarrow> True | Some z \<Rightarrow> \<bar>z\<bar> < 86400)"

definition dt_aware :: "py_datetime \<Rightarrow> bool" where
  "dt_aware d \<longleftrightarrow> dt_utcoff d \<noteq> None"

subsection \<open>isoformat\<close>

definition iso_offset :: "int \<Rightarrow> string" where
  "iso_offset z =
     (let n = nat \<bar>z\<bar>
      in (if z < 0 then CHR ''-'' else CHR ''+'') #
         fixed_digits 10 2 (n div 3600) @ CHR '':'' # fixed_digits 10 2 (n div 60 mod 60) @
         (if n mod 60 = 0 then [] else CHR '':'' # fixed_digits 10 2 (n mod 60)))"

definition iso_time :: "py_datetime \<Rightarrow> string" where
  "iso_time d =
     fixed_digits 10 2 (dt_hour d) @ CHR '':'' # fixed_digits 10 2 (dt_minute d) @
     CHR '':'' # fixed_digits 10 2 (dt_second d) @
     (if dt_micro d = 0 then [] else CHR ''.'' # fixed_digits 10 6 (dt_micro d))"

definition isoformat :: "py_datetime \<Rightarrow> string" where
  "isoformat d =
     fixed_digits 10 4 (dt_year d) @ CHR ''-'' # fixed_digits 10 2 (dt_month d) @
     CHR ''-'' # fixed_digits 10 2 (dt_day d) @ CHR ''T'' # iso_time d @
     (case dt_utcoff d of None \<Rightarrow> [] | Some z \<Rightarrow> iso_offset z)"

subsection \<open>fromisoformat\<close>

definition read_num :: "nat \<Rightarrow> string \<Rightarrow> (nat \<times> string) option" where
  "read_num w s =
     (if length s < w then None
      else map_option (\<lambda>v. (v, drop w s)) (digits_val 10 0 (take w s)))"

definition read_frac :: "string \<Rightarrow> nat option" where
  "read_frac s =
     (case s of
        [] \<Rightarrow> Some 0
      | c # fr \<Rightarrow>
          if c \<noteq> CHR ''.'' \<and> c \<noteq> CHR '','' \<or> fr = [] \<or> digits_val 10 0 fr = None then None
          else digits_val 10 0 (take 6 (fr @ ''000000'')))"

text \<open>\<open>HH[:MM[:SS[.ffffff]]]\<close>.\<close>

definition parse_hms :: "string \<Rightarrow> (nat \<times> nat \<times> nat \<times> nat) option" where
  "parse_hms s =
     (case read_num 2 s of
        None \<Rightarrow> None
      | Some (h, []) \<Rightarrow> Some (h, 0, 0, 0)
      | Some (h, c # r) \<Rightarrow>
          if c \<noteq> CHR '':'' then None
          else (case read_num 2 r of
             None \<Rightarrow> None
           | Some (m, []) \<Rightarrow> Some (h, m, 0, 0)
           | Some (m, c' # r') \<Rightarrow>
               if c' \<noteq> CHR '':'' then None
               else (case read_num 2 r' of
                  None \<Rightarrow> None
                | Some (sec, fr) \<Rightarrow> map_option (\<lambda>us. (h, m, sec, us)) (read_frac fr))))"

text \<open>The offset field: \<^const>\<open>None\<close> is an error, \<open>Some None\<close> no offset at all.\<close>

definition parse_offset :: "string \<Rightarrow> int option option" where
  "parse_offset s =
     (case s of
        [] \<Rightarrow> Some None
      | c # r \<Rightarrow>
          if c = CHR ''Z'' then (if r = [] then Some (Some 0) else None)
          else (case parse_hms r of
             None \<Rightarrow> None
           | Some (h, m, sec, us) \<Rightarrow>
               if us \<noteq> 0 \<or> h * 3600 + m * 60 + sec \<ge> 86400 then None
               else Some (Some ((if c = CHR ''-'' then -1 else 1) * int (h * 3600 + m * 60 + sec)))))"

definition is_tz_start :: "char \<Rightarrow> bool" where
  "is_tz_start c \<longleftrightarrow> c = CHR ''+'' \<or> c = CHR ''-'' \<or> c = CHR ''Z''"

definition parse_date :: "string \<Rightarrow> (nat \<times> nat \<times> nat) option" where
  "parse_date s =
     (case read_num 4 s of
        Some (y, c # r) \<Rightarrow>
          if c \<noteq> CHR ''-'' then None
          else (case read_num 2 r of
             Some (m, c' # r') \<Rightarrow>
               if c' \<noteq> CHR ''-'' then None
               else (case read_num 2 r' of Some (d, []) \<Rightarrow> Some (y, m, d) | _ \<Rightarrow> None)
           | _ \<Rightarrow> None)
      | _ \<Rightarrow> None)"

definition fromisoformat :: "string \<Rightarrow> py_datetime option" where
  "fromisoformat s =
     (case parse_date (take 10 s) of
        None \<Rightarrow> None
      | Some (y, mo, da) \<Rightarrow>
          (let rest = drop 10 s; ts = tl rest;
               hms = (if rest = [] then Some (0, 0, 0, 0)
                      else parse_hms (takeWhile (\<lambda>c. \<not> is_tz_start c) ts));
               off = (if rest = [] then Some None
                      else parse_offset (dropWhile (\<lambda>c. \<not> is_tz_start c) ts))
           in case hms of
                None \<Rightarrow> None
              | Some (h, mi, sec, us) \<Rightarrow>
                  (case off of
                     None \<Rightarrow> None
                   | Some z \<Rightarrow>
                       (let d = \<lparr>dt_year = y, dt_month = mo, dt_day = da, dt_hour = h, dt_minute = mi,
                                 dt_second = sec, dt_micro = us, dt_utcoff = z\<rparr>
                        in if valid_dt d then Some d else None))))"

subsection \<open>Round trip\<close>

lemma read_num_fixed [simp]:
  "n < 10 ^ w \<Longrightarrow> read_num w (fixed_digits 10 w n @ r) = Some (n, r)"
  by (simp add: read_num_def digits_val_fixed_id)

lemma read_frac_fixed [simp]:
  "n < 1000000 \<Longrightarrow> read_frac (CHR ''.'' # fixed_digits 10 6 n) = Some n"
  by (auto simp: read_frac_def digits_val_fixed_id simp flip: length_0_conv)

lemma parse_hms_iso_time:
  assumes "dt_hour d < 24" "dt_minute d < 60" "dt_second d < 60" "dt_micro d < 1000000"
  shows "parse_hms (iso_time d) = Some (dt_hour d, dt_minute d, dt_second d, dt_micro d)"
proof -
  have s: "read_num 2 (fixed_digits 10 2 (dt_second d)) = Some (dt_second d, [])"
    using read_num_fixed[of "dt_second d" 2 "[]"] assms by simp
  show ?thesis
    using assms s by (auto simp: parse_hms_def iso_time_def read_frac_def[of "[]"])
qed

lemma fixed_digits_no_tz: "c \<in> set (fixed_digits 10 w n) \<Longrightarrow> \<not> is_tz_start c"
proof -
  assume c: "c \<in> set (fixed_digits 10 w n)"
  then obtain d where d: "d < 10" "c = digit_char d"
    using set_fixed_digits[of 10 w n] by auto
  then have "(of_char c :: nat) = 48 + d" by (simp add: of_char_digit_char)
  with d show ?thesis by (auto simp: is_tz_start_def)
qed

lemma list_all_iso_time: "list_all (\<lambda>c. \<not> is_tz_start c) (iso_time d)"
proof -
  have f: "list_all (\<lambda>c. \<not> is_tz_start c) (fixed_digits 10 w n)" for w n
    using fixed_digits_no_tz by (auto simp: list_all_iff)
  have p: "is_tz_start (CHR '':'') = False" "is_tz_start (CHR ''.'') = False"
    by (simp_all add: is_tz_start_def)
  show ?thesis
    unfolding iso_time_def list_all_append list.pred_inject p by (simp add: f p)
qed

lemma iso_time_no_tz: "c \<in> set (iso_time d) \<Longrightarrow> \<not> is_tz_start c"
  using list_all_iso_time[of d] by (simp add: list_all_iff)

lemma parse_offset_iso:
  assumes "\<bar>z\<bar> < 86400"
  shows "parse_offset (iso_offset z) = Some (Some z)"
proof -
  define n where "n = nat \<bar>z\<bar>"
  have n: "n < 86400" using assms by (simp add: n_def)
  then have h: "n div 3600 < 100" by (simp add: div_less_iff_less_mult)
  have sec: "read_num 2 (fixed_digits 10 2 (n mod 60)) = Some (n mod 60, [])"
    "read_num 2 (fixed_digits 10 2 (n div 60 mod 60)) = Some (n div 60 mod 60, [])"
    using read_num_fixed[of "n mod 60" 2 "[]"] read_num_fixed[of "n div 60 mod 60" 2 "[]"] by auto
  have split: "n div 3600 * 3600 + n div 60 mod 60 * 60 + n mod 60 = n"
  proof -
    have "n div 3600 = n div 60 div 60" by (simp flip: div_mult2_eq)
    moreover have "n div 60 div 60 * 60 + n div 60 mod 60 = n div 60" "n div 60 * 60 + n mod 60 = n"
      by (rule div_mult_mod_eq)+
    ultimately show ?thesis by linarith
  qed
  have hms: "parse_hms (fixed_digits 10 2 (n div 3600) @ CHR '':'' # fixed_digits 10 2 (n div 60 mod 60) @
         (if n mod 60 = 0 then [] else CHR '':'' # fixed_digits 10 2 (n mod 60)))
      = Some (n div 3600, n div 60 mod 60, n mod 60, 0)"
    using h sec by (auto simp: parse_hms_def read_frac_def)
  have "parse_offset (iso_offset z) =
     Some (Some ((if z < 0 then -1 else 1) * int (n div 3600 * 3600 + n div 60 mod 60 * 60 + n mod 60)))"
    using n hms split by (simp add: parse_offset_def iso_offset_def Let_def flip: n_def)
  then show ?thesis unfolding split by (auto simp: n_def)
qed

lemma parse_date_iso:
  assumes "y \<le> 9999" "m \<le> 12" "d \<le> 31"
  shows "parse_date (fixed_digits 10 4 y @ CHR ''-'' # fixed_digits 10 2 m @ CHR ''-'' # fixed_digits 10 2 d) = Some (y, m, d)"
  using assms read_num_fixed[of d 2 "[]"] by (simp add: parse_date_def)

lemma days_in_month_le: "days_in_month y m \<le> 31"
  by (simp add: days_in_month_def)

theorem fromisoformat_isoformat:
  assumes v: "valid_dt d"
  shows "fromisoformat (isoformat d) = Some d"
proof -
  have le: "dt_year d \<le> 9999" "dt_month d \<le> 12" "dt_day d \<le> 31"
    using v days_in_month_le[of "dt_year d" "dt_month d"] by (auto simp: valid_dt_def)
  let ?off = "case dt_utcoff d of None \<Rightarrow> [] | Some z \<Rightarrow> iso_offset z"
  have off_hd: "?off = [] \<or> is_tz_start (hd ?off)"
    by (auto simp: iso_offset_def is_tz_start_def Let_def split: option.splits)
  have tw: "takeWhile (\<lambda>c. \<not> is_tz_start c) (iso_time d @ ?off) = iso_time d"
    "dropWhile (\<lambda>c. \<not> is_tz_start c) (iso_time d @ ?off) = ?off"
    using iso_time_no_tz[of _ d] off_hd
    by (cases ?off; auto simp: takeWhile_append dropWhile_append)+
  have po: "parse_offset ?off = Some (dt_utcoff d)"
    using v parse_offset_iso by (auto simp: valid_dt_def parse_offset_def[of "[]"] split: option.splits)
  have hms: "parse_hms (iso_time d) = Some (dt_hour d, dt_minute d, dt_second d, dt_micro d)"
    using v by (intro parse_hms_iso_time) (auto simp: valid_dt_def)
  have td: "take 10 (isoformat d) = fixed_digits 10 4 (dt_year d) @ CHR ''-'' # fixed_digits 10 2 (dt_month d) @ CHR ''-'' # fixed_digits 10 2 (dt_day d)"
    "drop 10 (isoformat d) = CHR ''T'' # iso_time d @ ?off"
    by (auto simp: isoformat_def)
  have eta: "\<lparr>dt_year = dt_year d, dt_month = dt_month d, dt_day = dt_day d, dt_hour = dt_hour d,
      dt_minute = dt_minute d, dt_second = dt_second d, dt_micro = dt_micro d, dt_utcoff = dt_utcoff d\<rparr> = d"
    by (rule py_datetime.equality) simp_all
  show ?thesis
    unfolding fromisoformat_def td parse_date_iso[OF le]
    using v tw po hms by (simp add: Let_def eta)
qed

end
