(* ===== verification/PyValues.thy ===== *)
theory PyValues
  imports Datetime Complex_Main
begin

text \<open>
  The values the code keeps in payloads, metadata and wire dictionaries, and typed reads of a
  dictionary: \<open>data[k]\<close>, \<open>data.get(k)\<close> and \<open>data.get(k, default)\<close>.  Where the code stores a
  value without looking at its type and the model's record has a type for it, a value of another
  type is outside the model and reads as a \<^const>\<open>TypeError\<close>.
\<close>

datatype pyval =
    PNone
  | PBool bool
  | PInt int
  | PFloat real
  | PStr string
  | PDate py_datetime
  | PList "pyval list"
  | PDict "(string \<times> pyval) list"

type_synonym pydict = "(string \<times> pyval) list"

fun truthy_val :: "pyval \<Rightarrow> bool" where
  "truthy_val PNone = False"
| "truthy_val (PBool b) = b"
| "truthy_val (PInt i) = (i \<noteq> 0)"
| "truthy_val (PFloat x) = (x \<noteq> 0)"
| "truthy_val (PStr s) = (s \<noteq> [])"
| "truthy_val (PDate d) = True"
| "truthy_val (PList xs) = (xs \<noteq> [])"
| "truthy_val (PDict d) = (d \<noteq> [])"

definition opt_str :: "string option \<Rightarrow> pyval" where
  "opt_str x = (case x of None \<Rightarrow> PNone | Some s \<Rightarrow> PStr s)"

fun as_str :: "string \<Rightarrow> pyval \<Rightarrow> string result" where
  "as_str k (PStr s) = Inr s"
| "as_str k v = Inl (TypeError k)"

fun as_opt_str :: "string \<Rightarrow> pyval \<Rightarrow> string option result" where
  "as_opt_str k PNone = Inr None"
| "as_opt_str k (PStr s) = Inr (Some s)"
| "as_opt_str k v = Inl (TypeError k)"

text \<open>\<open>data[k]\<close> and \<open>data.get(k, dflt)\<close>.\<close>

definition item :: "pydict \<Rightarrow> string \<Rightarrow> pyval result" where
  "item d k = of_opt (KeyError k) (dict_get d k)"

definition get_or :: "pydict \<Rightarrow> string \<Rightarrow> pyval \<Rightarrow> pyval" where
  "get_or d k dflt = (case dict_get d k of None \<Rightarrow> dflt | Some v \<Rightarrow> v)"

lemma as_opt_str_opt_str [simp]: "as_opt_str k (opt_str x) = Inr x"
  by (cases x) (auto simp: opt_str_def)

end
