(* ===== verification/Envelope.thy ===== *)
theory Envelope
  imports PyValues
begin

text \<open>
  The event contract: \<open>EventPriority\<close> and the legacy \<open>Event\<close> (evb.py), \<open>Severity\<close> and the frozen
  \<open>EventEnvelope\<close> with its wire form (envelope.py), and the converters between the two shapes and
  from lifecycle dictionaries and hook events (converters.py).  A fresh \<open>uuid4\<close> string and the
  current time are arguments (\<open>u\<close>, \<open>now\<close>) of the definitions that draw one.
\<close>

subsection \<open>Severity and priority\<close>

datatype severity = DEBUG | INFO | WARNING | ERROR | CRITICAL_SEV

datatype event_priority = LOW | NORMAL | HIGH | CRITICAL

fun severity_value :: "severity \<Rightarrow> int" where
  "severity_value DEBUG = 10"
| "severity_value INFO = 20"
| "severity_value WARNING = 30"
| "severity_value ERROR = 40"
| "severity_value CRITICAL_SEV = 50"

fun priority_value :: "event_priority \<Rightarrow> int" where
  "priority_value LOW = 0"
| "priority_value NORMAL = 5"
| "priority_value HIGH = 10"
| "priority_value CRITICAL = 15"

lemma severity_value_inj [simp]: "severity_value a = severity_value b \<longleftrightarrow> a = b"
  by (cases a; cases b; simp)

lemma priority_value_inj [simp]: "priority_value a = priority_value b \<longleftrightarrow> a = b"
  by (cases a; cases b; simp)

text \<open>\<open>Severity\<close> is an \<open>IntEnum\<close>: its order is the order of the values; priorities likewise.\<close>

instantiation severity :: linorder
begin

definition less_eq_severity :: "severity \<Rightarrow> severity \<Rightarrow> bool" where
  "less_eq_severity a b \<longleftrightarrow> severity_value a \<le> severity_value b"

definition less_severity :: "severity \<Rightarrow> severity \<Rightarrow> bool" where
  "less_severity a b \<longleftrightarrow> severity_value a < severity_value b"

instance
  by standard (auto simp: less_eq_severity_def less_severity_def)

end

instantiation event_priority :: linorder
begin

definition less_eq_event_priority :: "event_priority \<Rightarrow> event_priority \<Rightarrow> bool" where
  "less_eq_event_priority a b \<longleftrightarrow> priority_value a \<le> priority_value b"

definition less_event_priority :: "event_priority \<Rightarrow> event_priority \<Rightarrow> bool" where
  "less_event_priority a b \<longleftrightarrow> priority_value a < priority_value b"

instance
  by standard (auto simp: less_eq_event_priority_def less_event_priority_def)

end

definition severity_of_int :: "int \<Rightarrow> severity result" where
  "severity_of_int n =
     of_opt (ValueError ''Severity'') (find (\<lambda>s. severity_value s = n) [DEBUG, INFO, WARNING, ERROR, CRITICAL_SEV])"

definition priority_of_int :: "int \<Rightarrow> event_priority result" where
  "priority_of_int n =
     of_opt (ValueError ''EventPriority'') (find (\<lambda>p. priority_value p = n) [LOW, NORMAL, HIGH, CRITICAL])"

text \<open>An enum is looked up by equality, so a float equal to a member's value finds it.\<close>

fun severity_of_val :: "pyval \<Rightarrow> severity result" where
  "severity_of_val (PInt n) = severity_of_int n"
| "severity_of_val (PFloat x) = (if x = of_int \<lfloor>x\<rfloor> then severity_of_int \<lfloor>x\<rfloor> else Inl (ValueError ''Severity''))"
| "severity_of_val v = Inl (ValueError ''Severity'')"

text \<open>\<open>False == 0\<close> in Python, so \<open>EventPriority(False)\<close> is \<open>LOW\<close>.\<close>

fun priority_of_val :: "pyval \<Rightarrow> event_priority result" where
  "priority_of_val (PInt n) = priority_of_int n"
| "priority_of_val (PFloat x) = (if x = of_int \<lfloor>x\<rfloor> then priority_of_int \<lfloor>x\<rfloor> else Inl (ValueError ''EventPriority''))"
| "priority_of_val (PBool b) = priority_of_int (of_bool b)"
| "priority_of_val v = Inl (ValueError ''EventPriority'')"

lemma severity_of_value [simp]: "severity_of_int (severity_value s) = Inr s"
  by (cases s) (auto simp: severity_of_int_def)

lemma priority_of_value [simp]: "priority_of_int (priority_value p) = Inr p"
  by (cases p) (auto simp: priority_of_int_def)

subsection \<open>EventEnvelope\<close>

record envelope =
  topic :: string
  payload :: pyval
  event_id :: string
  timestamp :: py_datetime
  source :: "string option"
  severity :: severity
  priority :: event_priority
  correlation_id :: "string option"
  trace_context :: pyval
  metadata :: pyval
  schema_version :: int

definition ENVELOPE_SCHEMA_VERSION :: int where
  "ENVELOPE_SCHEMA_VERSION = 1"

text \<open>The dataclass constructor: \<open>__post_init__\<close> rejects a naive timestamp.\<close>

definition post_init :: "envelope \<Rightarrow> envelope result" where
  "post_init e =
     (if dt_aware (timestamp e) then Inr e
      else Inl (ValueError ''EventEnvelope.timestamp must be tz-aware''))"

fun validate_schema_version :: "pyval \<Rightarrow> int result" where
  "validate_schema_version (PInt n) =
     (if n < 1 then Inl UnsupportedSchemaVersion
      else if n > ENVELOPE_SCHEMA_VERSION then Inl UnsupportedSchemaVersion
      else Inr n)"
| "validate_schema_version v = Inl UnsupportedSchemaVersion"

definition to_dict :: "envelope \<Rightarrow> pydict" where
  "to_dict e =
     [(''topic'', PStr (topic e)),
      (''payload'', payload e),
      (''event_id'', PStr (event_id e)),
      (''timestamp'', PStr (isoformat (timestamp e))),
      (''source'', opt_str (source e)),
      (''severity'', PInt (severity_value (severity e))),
      (''priority'', PInt (priority_value (priority e))),
      (''correlation_id'', opt_str (correlation_id e)),
      (''trace_context'', trace_context e),
      (''metadata'', metadata e),
      (''schema_version'', PInt (schema_version e))]"

definition parse_ts :: "pyval \<Rightarrow> py_datetime result" where
  "parse_ts v =
     bind_r (as_str ''fromisoformat'' v) (\<lambda>s. of_opt (ValueError ''isoformat'') (fromisoformat s))"

definition from_dict :: "string \<Rightarrow> pydict \<Rightarrow> envelope result" where
  "from_dict u data =
     bind_r (validate_schema_version (get_or data ''schema_version'' (PInt 1))) (\<lambda>ver.
     bind_r (bind_r (item data ''topic'') (as_str ''topic'')) (\<lambda>tp.
     bind_r (as_str ''event_id'' (get_or data ''event_id'' (PStr u))) (\<lambda>eid.
     bind_r (bind_r (item data ''timestamp'') parse_ts) (\<lambda>ts.
     bind_r (as_opt_str ''source'' (get_or data ''source'' PNone)) (\<lambda>src.
     bind_r (severity_of_val (get_or data ''severity'' (PInt (severity_value INFO)))) (\<lambda>sev.
     bind_r (priority_of_val (get_or data ''priority'' (PInt (priority_value NORMAL)))) (\<lambda>prio.
     bind_r (as_opt_str ''correlation_id'' (get_or data ''correlation_id'' PNone)) (\<lambda>cid.
     post_init
       \<lparr>topic = tp, payload = get_or data ''payload'' (PDict []), event_id = eid, timestamp = ts,
        source = src, severity = sev, priority = prio, correlation_id = cid,
        trace_context = get_or data ''trace_context'' PNone,
        metadata = get_or data ''metadata'' (PDict []), schema_version = ver\<rparr>))))))))"

text \<open>What every constructed envelope satisfies, and so what the bus may rely on.\<close>

definition wf_envelope :: "envelope \<Rightarrow> bool" where
  "wf_envelope e \<longleftrightarrow> valid_dt (timestamp e) \<and> dt_aware (timestamp e)"

lemma fromisoformat_valid: "fromisoformat s = Some d \<Longrightarrow> valid_dt d"
  unfolding fromisoformat_def by (auto simp: Let_def split: option.splits prod.splits if_splits)

lemma from_dict_wf_schema:
  "from_dict u data = Inr e \<Longrightarrow> wf_envelope e \<and> schema_version e = ENVELOPE_SCHEMA_VERSION"
  unfolding from_dict_def
  by (cases "get_or data ''schema_version'' (PInt 1)")
    (auto simp: bind_r_Inr_iff post_init_def wf_envelope_def parse_ts_def of_opt_def
       ENVELOPE_SCHEMA_VERSION_def dest: fromisoformat_valid split: if_splits option.splits)


subsection \<open>The legacy Event\<close>

record legacy_event =
  event_type :: string
  ev_payload :: pyval
  ev_id :: string
  ev_timestamp :: py_datetime
  ev_source :: "string option"
  ev_priority :: event_priority
  ev_correlation_id :: "string option"
  ev_metadata :: pyval

definition event_to_dict :: "legacy_event \<Rightarrow> pydict" where
  "event_to_dict e =
     [(''event_id'', PStr (ev_id e)),
      (''event_type'', PStr (event_type e)),
      (''payload'', ev_payload e),
      (''timestamp'', PStr (isoformat (ev_timestamp e))),
      (''source'', opt_str (ev_source e)),
      (''priority'', PInt (priority_value (ev_priority e))),
      (''correlation_id'', opt_str (ev_correlation_id e)),
      (''metadata'', ev_metadata e)]"

definition event_from_dict :: "string \<Rightarrow> py_datetime \<Rightarrow> pydict \<Rightarrow> legacy_event result" where
  "event_from_dict u now data =
     bind_r (as_str ''event_id'' (get_or data ''event_id'' (PStr u))) (\<lambda>eid.
     bind_r (bind_r (item data ''event_type'') (as_str ''event_type'')) (\<lambda>et.
     bind_r (let v = get_or data ''timestamp'' PNone
             in if truthy_val v then parse_ts v else Inr now) (\<lambda>ts.
     bind_r (as_opt_str ''source'' (get_or data ''source'' PNone)) (\<lambda>src.
     bind_r (priority_of_val (get_or data ''priority'' (PInt 5))) (\<lambda>prio.
     bind_r (as_opt_str ''correlation_id'' (get_or data ''correlation_id'' PNone)) (\<lambda>cid.
     Inr \<lparr>event_type = et, ev_payload = get_or data ''payload'' (PDict []), ev_id = eid,
          ev_timestamp = ts, ev_source = src, ev_priority = prio, ev_correlation_id = cid,
          ev_metadata = get_or data ''metadata'' (PDict [])\<rparr>))))))"

subsection \<open>Converters\<close>

definition ensure_aware_utc :: "py_datetime \<Rightarrow> py_datetime" where
  "ensure_aware_utc ts = (if \<not> dt_aware ts then ts\<lparr>dt_utcoff := Some 0\<rparr> else ts)"

fun dict_copy :: "pyval \<Rightarrow> pydict result" where
  "dict_copy (PDict d) = Inr d"
| "dict_copy v = Inl (TypeError ''dict'')"

definition from_legacy_event :: "legacy_event \<Rightarrow> severity \<Rightarrow> envelope result" where
  "from_legacy_event ev sev =
     bind_r (dict_copy (ev_metadata ev)) (\<lambda>md.
     post_init
       \<lparr>topic = event_type ev, payload = ev_payload ev, event_id = ev_id ev,
        timestamp = ensure_aware_utc (ev_timestamp ev), source = ev_source ev, severity = sev,
        priority = ev_priority ev, correlation_id = ev_correlation_id ev, trace_context = PNone,
        metadata = PDict md, schema_version = ENVELOPE_SCHEMA_VERSION\<rparr>)"

definition envelope_to_event :: "envelope \<Rightarrow> legacy_event" where
  "envelope_to_event e =
     \<lparr>event_type = topic e, ev_payload = payload e, ev_id = event_id e, ev_timestamp = timestamp e,
      ev_source = source e, ev_priority = priority e, ev_correlation_id = correlation_id e,
      ev_metadata = metadata e\<rparr>"

text \<open>\<open>data.get(k) or ""\<close>, then joined: a truthy non-string makes \<open>str.join\<close> raise.\<close>

definition str_or_empty :: "pydict \<Rightarrow> string \<Rightarrow> string result" where
  "str_or_empty data k =
     (let v = get_or data k PNone in if truthy_val v then as_str k v else Inr [])"

definition from_lifecycle_dict ::
    "string \<Rightarrow> py_datetime \<Rightarrow> pydict \<Rightarrow> severity \<Rightarrow> envelope result" where
  "from_lifecycle_dict u now data sev =
     bind_r (as_str ''event_class'' (get_or data ''event_class'' (PStr ''unknown''))) (\<lambda>cls.
     bind_r (case get_or data ''timestamp'' PNone of
               PStr s \<Rightarrow> map_sum id ensure_aware_utc (of_opt (ValueError ''isoformat'') (fromisoformat s))
             | PDate d \<Rightarrow> Inr (ensure_aware_utc d)
             | _ \<Rightarrow> Inr now) (\<lambda>ts.
     bind_r (str_or_empty data ''source_type'') (\<lambda>st.
     bind_r (str_or_empty data ''source_name'') (\<lambda>sn.
     bind_r (as_str ''event_id'' (get_or data ''event_id'' (PStr u))) (\<lambda>eid.
     let joined = py_join '':'' (filter (\<lambda>p. p \<noteq> []) [st, sn]) in
     post_init
       \<lparr>topic = ''lifecycle.'' @ cls,
        payload = PDict (filter (\<lambda>(k, _). k \<notin> {''event_id'', ''timestamp'', ''trace_context''}) data),
        event_id = eid, timestamp = ts,
        source = (if joined = [] then None else Some joined), severity = sev, priority = NORMAL,
        correlation_id = None, trace_context = get_or data ''trace_context'' PNone,
        metadata = PDict [(''event_class'', PStr cls)], schema_version = ENVELOPE_SCHEMA_VERSION\<rparr>)))))"

record hook_event =
  he_hook_id :: string
  he_hook_type :: string
  he_event_type :: string
  he_payload :: pydict
  he_metadata :: pydict
  he_timestamp :: py_datetime
  he_target_type :: "string option"
  he_target_id :: "string option"
  he_task :: "string option"

definition setdefault_opt :: "string \<Rightarrow> string option \<Rightarrow> pydict \<Rightarrow> pydict" where
  "setdefault_opt k x d = (case x of None \<Rightarrow> d | Some s \<Rightarrow> dict_setdefault k (PStr s) d)"

definition from_hook_event :: "string \<Rightarrow> hook_event \<Rightarrow> severity \<Rightarrow> envelope result" where
  "from_hook_event u ev sev =
     (let m1 = dict_setdefault ''hook_id'' (PStr (he_hook_id ev)) (he_metadata ev);
          m2 = setdefault_opt ''target_type'' (he_target_type ev) m1;
          m3 = setdefault_opt ''target_id'' (he_target_id ev) m2;
          m4 = setdefault_opt ''task'' (he_task ev) m3
      in post_init
           \<lparr>topic = ''hooks.'' @ he_hook_type ev @ ''.'' @ he_event_type ev,
            payload = PDict (he_payload ev), event_id = u,
            timestamp = ensure_aware_utc (he_timestamp ev), source = Some (he_hook_id ev),
            severity = sev, priority = NORMAL, correlation_id = None, trace_context = PNone,
            metadata = PDict m4, schema_version = ENVELOPE_SCHEMA_VERSION\<rparr>)"

subsection \<open>Facts\<close>

lemma ensure_aware_utc_aware [simp]: "dt_aware (ensure_aware_utc ts)"
  by (simp add: ensure_aware_utc_def dt_aware_def)

lemma ensure_aware_utc_id [simp]: "dt_aware ts \<Longrightarrow> ensure_aware_utc ts = ts"
  by (simp add: ensure_aware_utc_def)

lemma valid_ensure_aware_utc: "valid_dt ts \<Longrightarrow> valid_dt (ensure_aware_utc ts)"
  by (auto simp: ensure_aware_utc_def valid_dt_def dt_aware_def)

lemma post_init_aware [simp]: "dt_aware (timestamp e) \<Longrightarrow> post_init e = Inr e"
  by (simp add: post_init_def)

lemma parse_ts_iso [simp]: "valid_dt d \<Longrightarrow> parse_ts (PStr (isoformat d)) = Inr d"
  by (simp add: parse_ts_def fromisoformat_isoformat)

lemma to_dict_keys:
  "get_or (to_dict e) ''schema_version'' dv = PInt (schema_version e)"
  "item (to_dict e) ''topic'' = Inr (PStr (topic e))"
  "item (to_dict e) ''timestamp'' = Inr (PStr (isoformat (timestamp e)))"
  "get_or (to_dict e) ''payload'' dv = payload e"
  "get_or (to_dict e) ''event_id'' dv = PStr (event_id e)"
  "get_or (to_dict e) ''source'' dv = opt_str (source e)"
  "get_or (to_dict e) ''severity'' dv = PInt (severity_value (severity e))"
  "get_or (to_dict e) ''priority'' dv = PInt (priority_value (priority e))"
  "get_or (to_dict e) ''correlation_id'' dv = opt_str (correlation_id e)"
  "get_or (to_dict e) ''trace_context'' dv = trace_context e"
  "get_or (to_dict e) ''metadata'' dv = metadata e"
  by (simp_all add: to_dict_def get_or_def item_def)

lemma event_to_dict_keys:
  "item (event_to_dict e) ''event_type'' = Inr (PStr (event_type e))"
  "get_or (event_to_dict e) ''timestamp'' dv = PStr (isoformat (ev_timestamp e))"
  "get_or (event_to_dict e) ''payload'' dv = ev_payload e"
  "get_or (event_to_dict e) ''event_id'' dv = PStr (ev_id e)"
  "get_or (event_to_dict e) ''source'' dv = opt_str (ev_source e)"
  "get_or (event_to_dict e) ''priority'' dv = PInt (priority_value (ev_priority e))"
  "get_or (event_to_dict e) ''correlation_id'' dv = opt_str (ev_correlation_id e)"
  "get_or (event_to_dict e) ''metadata'' dv = ev_metadata e"
  by (simp_all add: event_to_dict_def get_or_def item_def)

lemma envelope_eta [simp]:
  "\<lparr>topic = topic e, payload = payload e, event_id = event_id e, timestamp = timestamp e,
    source = source e, severity = severity e, priority = priority e,
    correlation_id = correlation_id e, trace_context = trace_context e, metadata = metadata e,
    schema_version = schema_version e\<rparr> = e"
  by (rule envelope.equality) simp_all

lemma legacy_event_eta [simp]:
  "\<lparr>event_type = event_type e, ev_payload = ev_payload e, ev_id = ev_id e,
    ev_timestamp = ev_timestamp e, ev_source = ev_source e, ev_priority = ev_priority e,
    ev_correlation_id = ev_correlation_id e, ev_metadata = ev_metadata e\<rparr> = e"
  by (rule legacy_event.equality) simp_all

lemma isoformat_nonempty [simp]: "isoformat d \<noteq> []"
  by (simp add: isoformat_def)

lemma from_dict_to_dict:
  assumes "wf_envelope e"
  shows "from_dict u (to_dict e) =
    (if schema_version e = ENVELOPE_SCHEMA_VERSION then Inr e else Inl UnsupportedSchemaVersion)"
  using assms
  by (auto simp: from_dict_def to_dict_keys wf_envelope_def ENVELOPE_SCHEMA_VERSION_def)

lemma event_from_dict_to_dict:
  assumes "valid_dt (ev_timestamp e)"
  shows "event_from_dict u now (event_to_dict e) = Inr e"
  using assms by (simp add: event_from_dict_def event_to_dict_keys)

text \<open>
  The facade converts every published event to an envelope and every delivered envelope back.
\<close>

lemma legacy_roundtrip:
  assumes "ev_metadata ev = PDict md"
  obtains e where "from_legacy_event ev sev = Inr e"
    and "envelope_to_event e = ev\<lparr>ev_timestamp := ensure_aware_utc (ev_timestamp ev)\<rparr>"
    and "severity e = sev" and "topic e = event_type ev"
  using assms by (auto simp: from_legacy_event_def envelope_to_event_def)

definition hook_metadata :: "hook_event \<Rightarrow> pydict" where
  "hook_metadata ev =
     setdefault_opt ''task'' (he_task ev)
       (setdefault_opt ''target_id'' (he_target_id ev)
         (setdefault_opt ''target_type'' (he_target_type ev)
           (dict_setdefault ''hook_id'' (PStr (he_hook_id ev)) (he_metadata ev))))"

lemma setdefault_mono: "dict_get d k' = Some v \<Longrightarrow> dict_get (dict_setdefault k x d) k' = Some v"
  by auto

lemma setdefault_opt_mono: "dict_get d k' = Some v \<Longrightarrow> dict_get (setdefault_opt k x d) k' = Some v"
  by (cases x) (auto simp: setdefault_opt_def)

lemma from_hook_event_metadata:
  "from_hook_event u ev sev = Inr e \<Longrightarrow> metadata e = PDict (hook_metadata ev)"
  by (auto simp: from_hook_event_def hook_metadata_def Let_def)

lemma hook_metadata_keeps:
  "dict_get (he_metadata ev) k = Some v \<Longrightarrow> dict_get (hook_metadata ev) k = Some v"
  unfolding hook_metadata_def by (intro setdefault_opt_mono setdefault_mono)

lemma hook_metadata_hook_id: "dict_get (hook_metadata ev) ''hook_id'' \<noteq> None"
proof -
  have "\<exists>v. dict_get (dict_setdefault ''hook_id'' (PStr (he_hook_id ev)) (he_metadata ev)) ''hook_id'' = Some v"
    by auto
  then obtain v where
    "dict_get (dict_setdefault ''hook_id'' (PStr (he_hook_id ev)) (he_metadata ev)) ''hook_id'' = Some v" ..
  then show ?thesis
    unfolding hook_metadata_def by (simp add: setdefault_opt_mono)
qed

lemmas envelope_defs = from_dict_def to_dict_def from_legacy_event_def from_lifecycle_dict_def
  from_hook_event_def post_init_def

end
