(* ===== verification/OutboxStore.thy ===== *)
theory OutboxStore
  imports Envelope
begin

text \<open>
  The \<open>OutboxStore\<close> protocol of outbox.py: the operations the bus calls on a durable store, as a
  record of functions over the store's state, and the contract the bus relies on, as a locale.
  A call either raises (\<open>Some e\<close>, \<open>Inl e\<close>) or succeeds; times are seconds (\<^typ>\<open>real\<close>).
\<close>

record 'o outbox_ops =
  ob_append :: "real \<Rightarrow> envelope \<Rightarrow> 'o \<Rightarrow> py_exc option \<times> 'o"
  ob_ack :: "string \<Rightarrow> 'o \<Rightarrow> py_exc option \<times> 'o"
  ob_nack :: "string \<Rightarrow> string \<Rightarrow> real \<Rightarrow> 'o \<Rightarrow> py_exc option \<times> 'o"
  ob_due :: "real \<Rightarrow> nat \<Rightarrow> 'o \<Rightarrow> envelope list result \<times> 'o"
  ob_pending :: "'o \<Rightarrow> nat result \<times> 'o"
  ob_close :: "'o \<Rightarrow> 'o"

text \<open>
  \<open>ids\<close> abstracts a store to the event ids it holds; \<open>inv\<close> is the store's own invariant.  An
  append that succeeds makes the envelope durable; only an ack, the purge inside \<open>due\<close>, or the
  overflow policy inside \<open>append\<close> ever removes a row; a refused append removes none.
\<close>

locale outbox_store =
  fixes ops :: "'o outbox_ops"
    and ids :: "'o \<Rightarrow> string set"
    and inv :: "'o \<Rightarrow> bool"
  assumes inv_append: "inv s \<Longrightarrow> inv (snd (ob_append ops now e s))"
    and inv_ack: "inv s \<Longrightarrow> inv (snd (ob_ack ops i s))"
    and inv_nack: "inv s \<Longrightarrow> inv (snd (ob_nack ops i err t s))"
    and inv_due: "inv s \<Longrightarrow> inv (snd (ob_due ops now n s))"
    and inv_pending: "inv s \<Longrightarrow> inv (snd (ob_pending ops s))"
    and append_ok: "inv s \<Longrightarrow> fst (ob_append ops now e s) = None \<Longrightarrow>
       event_id e \<in> ids (snd (ob_append ops now e s))"
    and append_sub: "inv s \<Longrightarrow> ids (snd (ob_append ops now e s)) \<subseteq> insert (event_id e) (ids s)"
    and append_full: "inv s \<Longrightarrow> fst (ob_append ops now e s) = Some OutboxFullError \<Longrightarrow>
       ids (snd (ob_append ops now e s)) = ids s"
    and ack_ok: "inv s \<Longrightarrow> fst (ob_ack ops i s) = None \<Longrightarrow> ids (snd (ob_ack ops i s)) = ids s - {i}"
    and ack_fail: "inv s \<Longrightarrow> fst (ob_ack ops i s) \<noteq> None \<Longrightarrow> ids (snd (ob_ack ops i s)) = ids s"
    and nack_ids: "inv s \<Longrightarrow> ids (snd (ob_nack ops i err t s)) = ids s"
    and due_sub: "inv s \<Longrightarrow> ids (snd (ob_due ops now n s)) \<subseteq> ids s"
    and due_ids: "inv s \<Longrightarrow> fst (ob_due ops now n s) = Inr es \<Longrightarrow>
       event_id ` set es \<subseteq> ids (snd (ob_due ops now n s))"
    and due_distinct: "inv s \<Longrightarrow> fst (ob_due ops now n s) = Inr es \<Longrightarrow> distinct (map event_id es)"
    and due_limit: "inv s \<Longrightarrow> fst (ob_due ops now n s) = Inr es \<Longrightarrow> length es \<le> n"
    and pending_ids: "inv s \<Longrightarrow> ids (snd (ob_pending ops s)) = ids s"
    and pending_count: "inv s \<Longrightarrow> fst (ob_pending ops s) = Inr k \<Longrightarrow> k = card (ids s)"
    and inv_close: "inv s \<Longrightarrow> inv (ob_close ops s)"
    and close_ids: "ids (ob_close ops s) = ids s"
begin

lemmas inv_ops = inv_append inv_ack inv_nack inv_due inv_pending inv_close

lemma ack_sub: "inv s \<Longrightarrow> ids (snd (ob_ack ops i s)) \<subseteq> ids s"
  using ack_ok ack_fail by blast

end

end
