(* ===== verification/BusCore.thy ===== *)
theory BusCore
  imports Glob OutboxStore
begin

text \<open>
  \<open>BusCore\<close> of core.py: subscriptions and topic matching, the four bounded priority queues with
  their semaphore, backpressure policies, worker pops, dispatch with retry, meta-events.
  Coroutines become state transformers cut at their awaits; a coroutine waiting in
  \<open>queue.put\<close> is an entry of \<open>b_putters\<close>.  Handlers and filters are functions inside the
  subscription: a handler maps the attempt number and the envelope to \<^const>\<open>None\<close> (returned) or
  the exception it raised (a timeout raises \<open>TimeoutError\<close>); a filter yields \<^const>\<open>None\<close> when it raises.
\<close>

subsection \<open>State\<close>

text \<open>An exception a handler raised: its type's name and its message.\<close>

type_synonym exn = "string \<times> string"

record subscription =
  sub_pattern :: string
  sub_id :: string
  sub_priority :: int
  sub_filter :: "(envelope \<Rightarrow> bool option) option"
  sub_min_severity :: "severity option"
  sub_handler :: "nat \<Rightarrow> envelope \<Rightarrow> exn option"

record bus_config =
  cfg_workers :: int
  cfg_queue_size :: int
  cfg_retry_attempts :: int
  cfg_retry_base_delay :: real
  cfg_backpressure :: "(string \<times> string) list"
  cfg_default_backpressure :: string
  cfg_on_dlq :: bool
  cfg_relay_interval :: real
  cfg_relay_batch :: int
  cfg_relay_max_backoff :: real

record bus_stats =
  outbox_pending :: nat
  outbox_acked :: nat
  outbox_retried :: nat
  outbox_rejected :: nat
  outbox_append_failed :: nat
  backend_failures :: nat

text \<open>\<open>b_draws\<close> counts the uuid4 draws and clock reads made so far (see \<open>gen\<close> below).\<close>

record 'o bus =
  b_workers :: nat
  b_queue_size :: int
  b_retry_attempts :: nat
  b_retry_base_delay :: real
  b_backpressure :: "(string \<times> string) list"
  b_default_backpressure :: string
  b_on_dlq :: bool
  b_has_backend :: bool
  b_outbox :: "'o option"
  b_relay_interval :: real
  b_relay_batch :: nat
  b_relay_max_backoff :: real
  b_publish_only :: bool
  b_outbox_inflight :: "string list"
  b_outbox_attempts :: "(string \<times> nat) list"
  b_stats :: bus_stats
  b_fanned_out :: "string list"
  b_queues :: "event_priority \<Rightarrow> envelope list"
  b_putters :: "event_priority \<Rightarrow> envelope list"
  b_items :: nat
  b_subscriptions :: "(string \<times> subscription list) list"
  b_pattern_subscriptions :: "subscription list"
  b_started :: bool
  b_closing :: bool
  b_stopping :: bool
  b_in_flight :: nat
  b_tasks :: "envelope list"
  b_consuming :: bool
  b_dropped_on_close :: nat
  b_draws :: nat

text \<open>The n-th uuid4 string and the n-th clock reading of a run.\<close>

record gen =
  uuid4 :: "nat \<Rightarrow> string"
  utcnow :: "nat \<Rightarrow> py_datetime"

definition POLICY_BLOCK :: string where "POLICY_BLOCK = ''block''"
definition POLICY_DROP_OLDEST :: string where "POLICY_DROP_OLDEST = ''drop_oldest''"
definition POLICY_REJECT :: string where "POLICY_REJECT = ''reject''"

definition VALID_POLICIES :: "string list" where
  "VALID_POLICIES = [POLICY_BLOCK, POLICY_DROP_OLDEST, POLICY_REJECT]"

definition FANOUT_ECHO_CAP :: nat where "FANOUT_ECHO_CAP = 2048"

definition initial_stats :: bus_stats where
  "initial_stats =
     \<lparr>outbox_pending = 0, outbox_acked = 0, outbox_retried = 0, outbox_rejected = 0,
      outbox_append_failed = 0, backend_failures = 0\<rparr>"

text \<open>\<open>BusCore(...)\<close>: unknown policy names are rejected; an outbox without a backend is ignored.\<close>

definition bus_new :: "bus_config \<Rightarrow> bool \<Rightarrow> 'o option \<Rightarrow> bool \<Rightarrow> 'o bus result" where
  "bus_new c has_backend outbox publish_only =
     (if \<exists>p \<in> set (cfg_default_backpressure c # map snd (cfg_backpressure c)). p \<notin> set VALID_POLICIES
      then Inl (ValueError ''Unknown backpressure policy'')
      else Inr
        \<lparr>b_workers = nat (max 1 (cfg_workers c)), b_queue_size = cfg_queue_size c,
         b_retry_attempts = nat (max 1 (cfg_retry_attempts c)),
         b_retry_base_delay = cfg_retry_base_delay c, b_backpressure = cfg_backpressure c,
         b_default_backpressure = cfg_default_backpressure c, b_on_dlq = cfg_on_dlq c,
         b_has_backend = has_backend, b_outbox = (if has_backend then outbox else None),
         b_relay_interval = cfg_relay_interval c, b_relay_batch = nat (max 1 (cfg_relay_batch c)),
         b_relay_max_backoff = cfg_relay_max_backoff c, b_publish_only = publish_only,
         b_outbox_inflight = [], b_outbox_attempts = [], b_stats = initial_stats,
         b_fanned_out = [], b_queues = (\<lambda>_. []), b_putters = (\<lambda>_. []), b_items = 0,
         b_subscriptions = [], b_pattern_subscriptions = [], b_started = False, b_closing = False,
         b_stopping = False, b_in_flight = 0, b_tasks = [], b_consuming = False,
         b_dropped_on_close = 0, b_draws = 0\<rparr>)"

definition priority_order :: "event_priority list" where
  "priority_order = rev (sort [LOW, NORMAL, HIGH, CRITICAL])"

subsection \<open>Subscriptions\<close>

text \<open>\<open>asyncio.Queue.full\<close>: a maxsize of 0 or less means unbounded.\<close>

definition q_full :: "'o bus \<Rightarrow> event_priority \<Rightarrow> bool" where
  "q_full b p \<longleftrightarrow> b_queue_size b > 0 \<and> int (length (b_queues b p)) \<ge> b_queue_size b"

abbreviation by_priority :: "subscription list \<Rightarrow> subscription list" where
  "by_priority \<equiv> sort_key (\<lambda>s. - sub_priority s)"

definition is_wildcard :: "string \<Rightarrow> bool" where
  "is_wildcard pattern \<longleftrightarrow> CHR ''*'' \<in> set pattern \<or> CHR ''?'' \<in> set pattern"

definition exact_subs :: "'o bus \<Rightarrow> string \<Rightarrow> subscription list" where
  "exact_subs b t = (case dict_get (b_subscriptions b) t of None \<Rightarrow> [] | Some ss \<Rightarrow> ss)"

definition subscribe :: "subscription \<Rightarrow> 'o bus \<Rightarrow> string \<times> 'o bus" where
  "subscribe s b =
     (sub_id s,
      if is_wildcard (sub_pattern s)
      then b\<lparr>b_pattern_subscriptions := by_priority (b_pattern_subscriptions b @ [s])\<rparr>
      else b\<lparr>b_subscriptions :=
             dict_set (sub_pattern s) (by_priority (exact_subs b (sub_pattern s) @ [s])) (b_subscriptions b)\<rparr>)"

definition pattern_matches :: "string \<Rightarrow> subscription \<Rightarrow> bool" where
  "pattern_matches t s \<longleftrightarrow> fnmatch t (sub_pattern s)"

definition match_count :: "'o bus \<Rightarrow> string \<Rightarrow> nat" where
  "match_count b t =
     length (exact_subs b t) + length (filter (pattern_matches t) (b_pattern_subscriptions b))"

definition matching_subscriptions :: "'o bus \<Rightarrow> string \<Rightarrow> subscription list" where
  "matching_subscriptions b t =
     by_priority (exact_subs b t @ filter (pattern_matches t) (b_pattern_subscriptions b))"

text \<open>\<open>subs.remove(sub)\<close> on the first subscription with the id.\<close>

fun remove_id :: "string \<Rightarrow> subscription list \<Rightarrow> subscription list option" where
  "remove_id i [] = None"
| "remove_id i (s # ss) = (if sub_id s = i then Some ss else map_option (Cons s) (remove_id i ss))"

fun remove_id_dict ::
    "string \<Rightarrow> (string \<times> subscription list) list \<Rightarrow> (string \<times> subscription list) list option" where
  "remove_id_dict i [] = None"
| "remove_id_dict i ((k, ss) # d) =
     (case remove_id i ss of
        Some ss' \<Rightarrow> Some ((k, ss') # d)
      | None \<Rightarrow> map_option (Cons (k, ss)) (remove_id_dict i d))"

definition unsubscribe :: "string \<Rightarrow> 'o bus \<Rightarrow> bool \<times> 'o bus" where
  "unsubscribe i b =
     (case remove_id_dict i (b_subscriptions b) of
        Some d \<Rightarrow> (True, b\<lparr>b_subscriptions := d\<rparr>)
      | None \<Rightarrow>
          (case remove_id i (b_pattern_subscriptions b) of
             Some ss \<Rightarrow> (True, b\<lparr>b_pattern_subscriptions := ss\<rparr>)
           | None \<Rightarrow> (False, b)))"

subsection \<open>Meta-events and backpressure\<close>

definition enqueue :: "envelope \<Rightarrow> 'o bus \<Rightarrow> 'o bus" where
  "enqueue e b =
     b\<lparr>b_queues := (b_queues b)(priority e := b_queues b (priority e) @ [e]), b_items := Suc (b_items b)\<rparr>"

definition publish_meta :: "gen \<Rightarrow> string \<Rightarrow> pydict \<Rightarrow> 'o bus \<Rightarrow> 'o bus" where
  "publish_meta G t pl b =
     (let meta = \<lparr>topic = t, payload = PDict pl, event_id = uuid4 G (b_draws b),
                  timestamp = utcnow G (b_draws b), source = Some ''bus-core'', severity = INFO,
                  priority = HIGH, correlation_id = None, trace_context = PNone,
                  metadata = PDict [], schema_version = ENVELOPE_SCHEMA_VERSION\<rparr>;
          b1 = b\<lparr>b_draws := Suc (b_draws b)\<rparr>
      in if q_full b1 HIGH then b1 else enqueue meta b1)"

definition policy_for :: "'o bus \<Rightarrow> string \<Rightarrow> string" where
  "policy_for b t =
     (case dict_get (b_backpressure b) t of
        Some p \<Rightarrow> p
      | None \<Rightarrow>
          (case dict_get (b_backpressure b) (hd (py_split (CHR ''.'') t)) of
             Some p \<Rightarrow> p
           | None \<Rightarrow> b_default_backpressure b))"

fun priority_name :: "event_priority \<Rightarrow> string" where
  "priority_name LOW = ''LOW''"
| "priority_name NORMAL = ''NORMAL''"
| "priority_name HIGH = ''HIGH''"
| "priority_name CRITICAL = ''CRITICAL''"

definition emit_backpressure_meta :: "gen \<Rightarrow> bool \<Rightarrow> envelope \<Rightarrow> string \<Rightarrow> 'o bus \<Rightarrow> 'o bus" where
  "emit_backpressure_meta G in_meta e policy b =
     (if in_meta then b
      else publish_meta G ''bus.backpressure''
        [(''topic'', PStr (topic e)), (''event_id'', PStr (event_id e)),
         (''priority'', PStr (priority_name (priority e))), (''policy'', PStr policy),
         (''queue_size'', PInt (b_queue_size b))] b)"

text \<open>What \<open>await self._enqueue_local(e)\<close> did by the time it returned, raised or suspended.\<close>

datatype enq_outcome = Enqueued | Dropped envelope | Suspended | Rejected

definition enqueue_local :: "gen \<Rightarrow> bool \<Rightarrow> envelope \<Rightarrow> 'o bus \<Rightarrow> enq_outcome \<times> 'o bus" where
  "enqueue_local G in_meta e b =
     (if q_full b (priority e) then
        (let policy = policy_for b (topic e); b1 = emit_backpressure_meta G in_meta e policy b
         in if policy = POLICY_REJECT then (Rejected, b1)
            else if policy = POLICY_DROP_OLDEST then
              (case b_queues b1 (priority e) of
                 [] \<Rightarrow> (Enqueued, enqueue e b1)
               | old # q \<Rightarrow>
                   (Dropped old, enqueue e (b1\<lparr>b_queues := (b_queues b1)(priority e := q)\<rparr>)))
            else (Suspended,
                  b1\<lparr>b_putters := (b_putters b1)(priority e := b_putters b1 (priority e) @ [e])\<rparr>))
      else (Enqueued, enqueue e b))"

text \<open>A suspended \<open>put\<close> goes on once the queue has room: the i-th waiter of the queue.\<close>

definition resume_put :: "event_priority \<Rightarrow> nat \<Rightarrow> 'o bus \<Rightarrow> 'o bus" where
  "resume_put p i b =
     (if i < length (b_putters b p) \<and> \<not> q_full b p then
        (let e = b_putters b p ! i; rest = take i (b_putters b p) @ drop (Suc i) (b_putters b p)
         in b\<lparr>b_putters := (b_putters b)(p := rest),
              b_queues := (b_queues b)(p := b_queues b p @ [e]), b_items := Suc (b_items b)\<rparr>)
      else b)"

subsection \<open>Worker pops\<close>

fun pop_from :: "event_priority list \<Rightarrow> 'o bus \<Rightarrow> envelope option \<times> 'o bus" where
  "pop_from [] b = (None, b)"
| "pop_from (p # ps) b =
     (case b_queues b p of
        [] \<Rightarrow> pop_from ps b
      | e # q \<Rightarrow> (Some e, b\<lparr>b_queues := (b_queues b)(p := q)\<rparr>))"

definition pop_next :: "'o bus \<Rightarrow> envelope option \<times> 'o bus" where
  "pop_next b = pop_from priority_order b"

text \<open>
  One turn of \<open>_worker\<close>: \<^const>\<open>None\<close> while no permit is there (the worker sleeps in
  \<open>acquire\<close>); otherwise it takes a permit and exits, waits again, or starts a dispatch.
\<close>

datatype worker_turn = Exit | Again | Start envelope

definition worker_step :: "'o bus \<Rightarrow> (worker_turn \<times> 'o bus) option" where
  "worker_step b =
     (if b_items b = 0 then None
      else (case pop_next (b\<lparr>b_items := b_items b - 1\<rparr>) of
              (None, b1) \<Rightarrow> Some (if b_stopping b then Exit else Again, b1)
            | (Some e, b1) \<Rightarrow> Some (Start e, b1\<lparr>b_in_flight := Suc (b_in_flight b1)\<rparr>)))"

definition dispatch_done :: "'o bus \<Rightarrow> 'o bus" where
  "dispatch_done b = b\<lparr>b_in_flight := b_in_flight b - 1\<rparr>"

subsection \<open>Dispatch\<close>

text \<open>What a dispatch did, in order.\<close>

datatype effect =
    Invoke string nat
  | Backoff real
  | Dlq envelope nat exn string

definition is_meta_topic :: "string \<Rightarrow> bool" where
  "is_meta_topic t \<longleftrightarrow> py_startswith t ''bus.''"

definition emit_subscriber_error ::
    "gen \<Rightarrow> bool \<Rightarrow> envelope \<Rightarrow> subscription \<Rightarrow> exn \<Rightarrow> 'o bus \<Rightarrow> 'o bus" where
  "emit_subscriber_error G in_meta e s exc b =
     (if in_meta then b
      else publish_meta G ''bus.subscriber_error''
        [(''original_topic'', PStr (topic e)), (''original_event_id'', PStr (event_id e)),
         (''subscriber_id'', PStr (sub_id s)), (''pattern'', PStr (sub_pattern s)),
         (''error_type'', PStr (fst exc)), (''error_message'', PStr (snd exc)),
         (''attempts'', PInt (int (b_retry_attempts b)))] b)"

definition invoke_dlq :: "envelope \<Rightarrow> subscription \<Rightarrow> exn \<Rightarrow> 'o bus \<Rightarrow> effect list" where
  "invoke_dlq e s exc b =
     (if \<not> b_on_dlq b \<or> is_meta_topic (topic e) then []
      else [Dlq e (b_retry_attempts b) exc (sub_id s)])"

text \<open>The retry loop from attempt \<open>a\<close> on, with \<open>k\<close> attempts left; the last exception when all failed.\<close>

fun retry_loop :: "real \<Rightarrow> subscription \<Rightarrow> envelope \<Rightarrow> nat \<Rightarrow> nat \<Rightarrow> effect list \<times> exn option" where
  "retry_loop base s e a 0 = ([], None)"
| "retry_loop base s e a (Suc k) =
     (case sub_handler s a e of
        None \<Rightarrow> ([Invoke (sub_id s) a], None)
      | Some exc \<Rightarrow>
          (if k = 0 then ([Invoke (sub_id s) a], Some exc)
           else (case retry_loop base s e (Suc a) k of
                   (effs, r) \<Rightarrow> (Invoke (sub_id s) a # Backoff (base * 2 ^ (a - 1)) # effs, r))))"

definition invoke_with_retry ::
    "gen \<Rightarrow> bool \<Rightarrow> subscription \<Rightarrow> envelope \<Rightarrow> 'o bus \<Rightarrow> effect list \<times> 'o bus" where
  "invoke_with_retry G in_meta s e b =
     (case retry_loop (b_retry_base_delay b) s e 1 (b_retry_attempts b) of
        (effs, None) \<Rightarrow> (effs, b)
      | (effs, Some exc) \<Rightarrow>
          (effs @ invoke_dlq e s exc b, emit_subscriber_error G in_meta e s exc b))"

text \<open>The severity floor, then the filter; a filter that raises skips the subscription.\<close>

definition accepts :: "subscription \<Rightarrow> envelope \<Rightarrow> bool" where
  "accepts s e \<longleftrightarrow>
     (case sub_min_severity s of Some m \<Rightarrow> \<not> severity e < m | None \<Rightarrow> True) \<and>
     (case sub_filter s of None \<Rightarrow> True | Some f \<Rightarrow> f e = Some True)"

fun dispatch_to ::
    "gen \<Rightarrow> bool \<Rightarrow> subscription list \<Rightarrow> envelope \<Rightarrow> 'o bus \<Rightarrow> effect list \<times> 'o bus" where
  "dispatch_to G in_meta [] e b = ([], b)"
| "dispatch_to G in_meta (s # ss) e b =
     (if accepts s e then
        (case invoke_with_retry G in_meta s e b of
           (effs, b1) \<Rightarrow> (case dispatch_to G in_meta ss e b1 of (effs', b2) \<Rightarrow> (effs @ effs', b2)))
      else dispatch_to G in_meta ss e b)"

definition dispatch :: "gen \<Rightarrow> bool \<Rightarrow> envelope \<Rightarrow> 'o bus \<Rightarrow> effect list \<times> 'o bus" where
  "dispatch G in_meta e b =
     dispatch_to G (in_meta \<or> is_meta_topic (topic e)) (matching_subscriptions b (topic e)) e b"


subsection \<open>Facts: subscriptions\<close>

lemma priority_order_eq [simp]: "priority_order = [CRITICAL, HIGH, NORMAL, LOW]"
  by (simp add: priority_order_def insort_key.simps less_eq_event_priority_def)

definition applies_to :: "subscription \<Rightarrow> string \<Rightarrow> bool" where
  "applies_to s t \<longleftrightarrow> (if is_wildcard (sub_pattern s) then pattern_matches t s else t = sub_pattern s)"

lemma match_count_matching: "match_count b t = length (matching_subscriptions b t)"
  by (simp add: match_count_def matching_subscriptions_def)

lemma set_matching:
  "set (matching_subscriptions b t) =
     set (exact_subs b t) \<union> {s \<in> set (b_pattern_subscriptions b). pattern_matches t s}"
  by (auto simp: matching_subscriptions_def)

lemma sorted_matching: "sorted (map (\<lambda>s. - sub_priority s) (matching_subscriptions b t))"
  by (simp add: matching_subscriptions_def)

lemma matching_subscribe:
  "set (matching_subscriptions (snd (subscribe s b)) t) =
     set (matching_subscriptions b t) \<union> (if applies_to s t then {s} else {})"
  by (auto simp: set_matching subscribe_def applies_to_def exact_subs_def split: option.splits if_splits)

text \<open>The subscription tables are kept sorted, so registering and removing a subscription is the identity.\<close>

definition subs_sorted :: "'o bus \<Rightarrow> bool" where
  "subs_sorted b \<longleftrightarrow>
     sorted (map (\<lambda>s. - sub_priority s) (b_pattern_subscriptions b)) \<and>
     (\<forall>(k, ss) \<in> set (b_subscriptions b). sorted (map (\<lambda>s. - sub_priority s) ss))"

definition sub_ids :: "'o bus \<Rightarrow> string set" where
  "sub_ids b =
     sub_id ` (set (b_pattern_subscriptions b) \<union> (\<Union>(k, ss) \<in> set (b_subscriptions b). set ss))"

lemma remove_id_None: "remove_id i ss = None \<longleftrightarrow> i \<notin> sub_id ` set ss"
  by (induction i ss rule: remove_id.induct) auto

lemma remove_id_fresh_last:
  "i \<notin> sub_id ` set xs \<Longrightarrow> sub_id s = i \<Longrightarrow> sorted (map (\<lambda>s. - sub_priority s) xs) \<Longrightarrow>
   remove_id i (by_priority (xs @ [s])) = Some xs"
proof -
  assume i: "i \<notin> sub_id ` set xs" and s: "sub_id s = i"
    and srt: "sorted (map (\<lambda>s. - sub_priority s) xs)"
  have one: "length (filter (\<lambda>t. sub_id t = i) (xs @ [s])) = 1"
    using i s by (auto simp: filter_empty_conv image_iff)
  have rm: "remove_id i ys = Some (filter (\<lambda>t. sub_id t \<noteq> i) ys)"
    if "length (filter (\<lambda>t. sub_id t = i) ys) = 1" for ys
    using that
  proof (induction ys)
    case (Cons y ys)
    have "filter (\<lambda>t. sub_id t \<noteq> i) ys = ys" if "filter (\<lambda>t. sub_id t = i) ys = []"
      using that by (simp add: filter_empty_conv filter_id_conv)
    with Cons show ?case by auto
  qed simp
  have "remove_id i (by_priority (xs @ [s])) =
      Some (filter (\<lambda>t. sub_id t \<noteq> i) (by_priority (xs @ [s])))"
    by (rule rm) (use one in \<open>simp add: filter_sort\<close>)
  also have "\<dots> = Some (by_priority (filter (\<lambda>t. sub_id t \<noteq> i) (xs @ [s])))"
    by (simp only: filter_sort)
  also have "filter (\<lambda>t. sub_id t \<noteq> i) (xs @ [s]) = xs"
    using i s by (auto simp: filter_id_conv image_iff)
  also have "by_priority xs = xs" using srt by (rule sort_key_id_if_sorted)
  finally show ?thesis .
qed

lemma remove_id_dict_None:
  "remove_id_dict i d = None \<longleftrightarrow> (\<forall>(k, ss) \<in> set d. i \<notin> sub_id ` set ss)"
  by (induction i d rule: remove_id_dict.induct)
    (auto split: option.splits simp: remove_id_None simp flip: not_None_eq)

lemma remove_id_dict_set:
  assumes "\<forall>(k, ss) \<in> set d. i \<notin> sub_id ` set ss" and "remove_id i ss' = Some ss0"
  shows "\<exists>d'. remove_id_dict i (dict_set k ss' d) = Some d' \<and> dict_get d' = (dict_get d)(k \<mapsto> ss0)"
  using assms
proof (induction k ss' d rule: dict_set.induct)
  case (2 k v a b d)
  have "remove_id i b = None" using 2(2) by (auto simp: remove_id_None)
  with 2 show ?case by (fastforce simp: fun_eq_iff)
qed auto


text \<open>
  Registering a subscription under a fresh id and unsubscribing that id leaves every topic with
  the handlers it had, in the order it had them.
\<close>

lemma unsubscribe_subscribe:
  assumes srt: "subs_sorted b" and fresh: "sub_id s \<notin> sub_ids b"
  shows "fst (unsubscribe (sub_id s) (snd (subscribe s b)))"
    and "matching_subscriptions (snd (unsubscribe (sub_id s) (snd (subscribe s b)))) t =
         matching_subscriptions b t"
proof -
  let ?i = "sub_id s" and ?k = "sub_pattern s"
  have pat_fresh: "?i \<notin> sub_id ` set (b_pattern_subscriptions b)"
    and dict_fresh: "\<forall>(k, ss) \<in> set (b_subscriptions b). ?i \<notin> sub_id ` set ss"
    using fresh by (auto simp: sub_ids_def)
  have none: "remove_id_dict ?i (b_subscriptions b) = None"
    using dict_fresh by (simp add: remove_id_dict_None)
  have pat: "remove_id ?i (by_priority (b_pattern_subscriptions b @ [s])) = Some (b_pattern_subscriptions b)"
    using pat_fresh srt by (intro remove_id_fresh_last) (auto simp: subs_sorted_def)
  have ex_in: "exact_subs b ?k = [] \<or> (?k, exact_subs b ?k) \<in> set (b_subscriptions b)"
    by (auto simp: exact_subs_def split: option.splits dest: map_of_SomeD)
  have "remove_id ?i (by_priority (exact_subs b ?k @ [s])) = Some (exact_subs b ?k)"
    using ex_in dict_fresh srt by (intro remove_id_fresh_last) (auto simp: subs_sorted_def)
  from remove_id_dict_set[OF dict_fresh this] obtain d' where d':
    "remove_id_dict ?i (dict_set ?k (by_priority (exact_subs b ?k @ [s])) (b_subscriptions b)) = Some d'"
    "dict_get d' = (dict_get (b_subscriptions b))(?k \<mapsto> exact_subs b ?k)" by blast
  have same: "exact_subs (b\<lparr>b_subscriptions := d'\<rparr>) t = exact_subs b t"
    using d'(2) by (auto simp: exact_subs_def split: option.splits)
  show "fst (unsubscribe ?i (snd (subscribe s b)))"
    using none pat d' by (simp add: subscribe_def unsubscribe_def)
  show "matching_subscriptions (snd (unsubscribe ?i (snd (subscribe s b)))) t = matching_subscriptions b t"
    using none pat d' same by (simp add: subscribe_def unsubscribe_def matching_subscriptions_def exact_subs_def)
qed

subsection \<open>Facts: queues\<close>

lemma pop_next_Some:
  assumes "pop_next b = (Some e, b')"
  shows "\<exists>p q. b_queues b p = e # q \<and> b' = b\<lparr>b_queues := (b_queues b)(p := q)\<rparr> \<and>
     (\<forall>p'. p < p' \<longrightarrow> b_queues b p' = [])"
proof -
  have gt: "p < p' \<Longrightarrow> (p, p') \<in> {(LOW, NORMAL), (LOW, HIGH), (LOW, CRITICAL), (NORMAL, HIGH), (NORMAL, CRITICAL), (HIGH, CRITICAL)}" for p p'
    by (cases p; cases p'; simp add: less_event_priority_def)
  show ?thesis
    using assms unfolding pop_next_def priority_order_eq
    by (auto split: list.splits dest!: gt)
qed

lemma pop_next_None: "fst (pop_next b) = None \<longleftrightarrow> (\<forall>p. b_queues b p = [])"
proof -
  have "(\<forall>p. b_queues b p = []) \<longleftrightarrow> b_queues b CRITICAL = [] \<and> b_queues b HIGH = [] \<and> b_queues b NORMAL = [] \<and> b_queues b LOW = []"
    by (metis event_priority.exhaust)
  then show ?thesis unfolding pop_next_def by (auto split: list.splits)
qed

lemma pop_next_None_state: "pop_next b = (None, b') \<Longrightarrow> b' = b"
  unfolding pop_next_def by (auto split: list.splits)

definition queued :: "'o bus \<Rightarrow> nat" where
  "queued b = (\<Sum>p \<leftarrow> priority_order. length (b_queues b p))"

lemma queued_alt:
  "queued b = length (b_queues b CRITICAL) + length (b_queues b HIGH) + length (b_queues b NORMAL) + length (b_queues b LOW)"
  by (simp add: queued_def)

lemma queued_enqueue [simp]: "queued (enqueue e b) = Suc (queued b)"
  by (cases "priority e") (simp_all add: queued_alt enqueue_def)

lemma queued_upd:
  "queued (b\<lparr>b_queues := (b_queues b)(p := q)\<rparr>) + length (b_queues b p) = queued b + length q"
  by (cases p) (simp_all add: queued_alt)

subsection \<open>Facts: retry\<close>

definition attempts_of :: "effect list \<Rightarrow> nat list" where
  "attempts_of effs = concat (map (\<lambda>x. case x of Invoke i a \<Rightarrow> [a] | _ \<Rightarrow> []) effs)"

definition total_backoff :: "effect list \<Rightarrow> real" where
  "total_backoff effs = sum_list (map (\<lambda>x. case x of Backoff d \<Rightarrow> d | _ \<Rightarrow> 0) effs)"

lemma attempts_of_simps [simp]:
  "attempts_of [] = []" "attempts_of (Invoke i a # es) = a # attempts_of es"
  "attempts_of (Backoff d # es) = attempts_of es" "attempts_of (Dlq e n x i # es) = attempts_of es"
  "attempts_of (xs @ ys) = attempts_of xs @ attempts_of ys"
  by (simp_all add: attempts_of_def)

lemma total_backoff_simps [simp]:
  "total_backoff [] = 0" "total_backoff (Invoke i a # es) = total_backoff es"
  "total_backoff (Backoff d # es) = d + total_backoff es" "total_backoff (Dlq e n x i # es) = total_backoff es"
  by (simp_all add: total_backoff_def)

text \<open>
  The loop calls the handler on attempts \<open>a, a + 1, \<dots>\<close>, stops at the first that returns, and
  fails exactly when all \<open>k\<close> attempts raised.
\<close>

lemma retry_loop_spec:
  assumes "retry_loop base s e a k = (effs, r)"
  shows "\<exists>n \<le> k. attempts_of effs = [a ..< a + n] \<and>
     (\<forall>i \<in> {a ..< a + n - 1}. sub_handler s i e \<noteq> None) \<and>
     (r = None \<longrightarrow> k = 0 \<or> 0 < n \<and> sub_handler s (a + n - 1) e = None) \<and>
     (\<forall>exc. r = Some exc \<longrightarrow> n = k \<and> 0 < k \<and> sub_handler s (a + k - 1) e = Some exc)"
  using assms
proof (induction k arbitrary: a effs r)
  case 0
  then show ?case by simp
next
  case (Suc k)
  show ?case
  proof (cases "sub_handler s a e")
    case None
    with Suc.prems show ?thesis by (intro exI[of _ 1]) auto
  next
    case (Some exc)
    show ?thesis
    proof (cases "k = 0")
      case True
      with Some Suc.prems show ?thesis by (intro exI[of _ 1]) auto
    next
      case False
      obtain effs' r' where rec: "retry_loop base s e (Suc a) k = (effs', r')" by force
      with Suc.prems Some False have eq: "effs = Invoke (sub_id s) a # Backoff (base * 2 ^ (a - 1)) # effs'" "r = r'"
        by auto
      from Suc.IH[OF rec] obtain n where n: "n \<le> k" "attempts_of effs' = [Suc a ..< Suc a + n]"
        "\<forall>i \<in> {Suc a ..< Suc a + n - 1}. sub_handler s i e \<noteq> None"
        "r' = None \<longrightarrow> k = 0 \<or> 0 < n \<and> sub_handler s (Suc a + n - 1) e = None"
        "\<forall>exc. r' = Some exc \<longrightarrow> n = k \<and> 0 < k \<and> sub_handler s (Suc a + k - 1) e = Some exc" by blast
      have "attempts_of effs = [a ..< a + Suc n]"
        using n(2) eq by (simp add: upt_conv_Cons)
      moreover have "\<forall>i \<in> {a ..< a + Suc n - 1}. sub_handler s i e \<noteq> None"
      proof
        fix i assume "i \<in> {a ..< a + Suc n - 1}"
        then have "i = a \<or> i \<in> {Suc a ..< Suc a + n - 1}" by auto
        with Some n(3) show "sub_handler s i e \<noteq> None" by auto
      qed
      ultimately show ?thesis using n(1,4,5) eq False by (intro exI[of _ "Suc n"]) auto
    qed
  qed
qed

lemma retry_loop_backoff:
  "retry_loop base s e a k = (effs, Some exc) \<Longrightarrow> 0 < a \<Longrightarrow>
   total_backoff effs = base * 2 ^ (a - 1) * (2 ^ (k - 1) - 1)"
proof (induction k arbitrary: a effs)
  case (Suc k)
  show ?case
  proof (cases "k = 0")
    case True
    with Suc.prems show ?thesis by (auto split: option.splits)
  next
    case False
    with Suc.prems obtain effs' where rec: "retry_loop base s e (Suc a) k = (effs', Some exc)"
      and eq: "effs = Invoke (sub_id s) a # Backoff (base * 2 ^ (a - 1)) # effs'"
      by (auto split: option.splits prod.splits)
    have "total_backoff effs' = base * 2 ^ a * (2 ^ (k - 1) - 1)"
      using Suc.IH[OF rec] by simp
    moreover obtain j where "a = Suc j" using Suc.prems(2) by (cases a) auto
    moreover obtain m where "k = Suc m" using False by (cases k) auto
    ultimately show ?thesis using eq by (simp add: algebra_simps)
  qed
qed simp


subsection \<open>Facts: dispatch\<close>

text \<open>A dispatch changes nothing of the bus but queues, permits and draws.\<close>

definition frame_meta :: "'o bus \<Rightarrow> 'o bus \<Rightarrow> bool" where
  "frame_meta b b' \<longleftrightarrow>
     (\<exists>q i d. b' = b\<lparr>b_queues := q, b_items := i, b_draws := d\<rparr>)"

lemma frame_metaI: "b' = b\<lparr>b_queues := q, b_items := i, b_draws := d\<rparr> \<Longrightarrow> frame_meta b b'"
  unfolding frame_meta_def by blast

lemma frame_meta_refl [simp]: "frame_meta b b"
proof -
  have "b = b\<lparr>b_queues := b_queues b, b_items := b_items b, b_draws := b_draws b\<rparr>" by simp
  then show ?thesis unfolding frame_meta_def by blast
qed

lemma frame_meta_trans: "frame_meta a b \<Longrightarrow> frame_meta b c \<Longrightarrow> frame_meta a c"
proof -
  assume "frame_meta a b" "frame_meta b c"
  then obtain q i d q' i' d' where
    "b = a\<lparr>b_queues := q, b_items := i, b_draws := d\<rparr>"
    "c = b\<lparr>b_queues := q', b_items := i', b_draws := d'\<rparr>"
    unfolding frame_meta_def by blast
  then have "c = a\<lparr>b_queues := q', b_items := i', b_draws := d'\<rparr>" by simp
  then show ?thesis by (rule frame_metaI)
qed

lemma publish_meta_frame [simp]: "frame_meta b (publish_meta G t pl b)"
proof -
  have "frame_meta b (b\<lparr>b_draws := d\<rparr>)" for d
    by (rule frame_metaI[where q = "b_queues b" and i = "b_items b" and d = d]) simp
  moreover have "frame_meta b (enqueue e (b\<lparr>b_draws := d\<rparr>))" for e d
    by (rule frame_metaI[where q = "(b_queues b)(priority e := b_queues b (priority e) @ [e])"
          and i = "Suc (b_items b)" and d = d])
      (simp add: enqueue_def)
  ultimately show ?thesis by (simp add: publish_meta_def Let_def)
qed

lemma emit_error_frame [simp]: "frame_meta b (emit_subscriber_error G m e s exc b)"
  by (simp add: emit_subscriber_error_def)

lemma invoke_with_retry_frame [simp]: "frame_meta b (snd (invoke_with_retry G m s e b))"
  by (simp add: invoke_with_retry_def split: prod.splits option.splits)

lemma frame_meta_fields:
  assumes "frame_meta b b'"
  shows "b_retry_attempts b' = b_retry_attempts b" "b_retry_base_delay b' = b_retry_base_delay b"
    "b_on_dlq b' = b_on_dlq b" "b_subscriptions b' = b_subscriptions b"
    "b_pattern_subscriptions b' = b_pattern_subscriptions b" "b_queue_size b' = b_queue_size b"
    "b_putters b' = b_putters b" "b_fanned_out b' = b_fanned_out b" "b_closing b' = b_closing b"
    "b_in_flight b' = b_in_flight b" "b_tasks b' = b_tasks b" "b_outbox b' = b_outbox b"
  using assms by (auto simp: frame_meta_def)

lemma dispatch_to_frame [simp]: "frame_meta b (snd (dispatch_to G m ss e b))"
proof (induction ss arbitrary: b)
  case (Cons s ss)
  then show ?case
    using frame_meta_trans[OF invoke_with_retry_frame[of b G m s e]]
    by (auto split: prod.splits) (metis snd_conv)
qed simp

text \<open>What one subscription does is read off the bus configuration alone.\<close>

lemma invoke_effects_frame:
  "frame_meta b b' \<Longrightarrow> fst (invoke_with_retry G m s e b') = fst (invoke_with_retry G m s e b)"
  by (auto simp: invoke_with_retry_def invoke_dlq_def frame_meta_fields split: prod.splits option.splits)

lemma dispatch_to_effects:
  "fst (dispatch_to G m ss e b) =
     concat (map (\<lambda>s. if accepts s e then fst (invoke_with_retry G m s e b) else []) ss)"
proof (induction ss arbitrary: b)
  case (Cons s ss)
  obtain effs b1 where i: "invoke_with_retry G m s e b = (effs, b1)" by force
  have fr: "frame_meta b b1" using invoke_with_retry_frame[of b G m s e] i by simp
  have "fst (dispatch_to G m ss e b1) =
      concat (map (\<lambda>s. if accepts s e then fst (invoke_with_retry G m s e b) else []) ss)"
    unfolding Cons.IH using invoke_effects_frame[OF fr] by (metis (no_types, lifting))
  with i Cons.IH[of b] show ?case by (simp split: prod.splits) (metis fst_conv)
qed simp

lemma dispatch_to_guarded: "snd (dispatch_to G True ss e b) = b"
proof (induction ss arbitrary: b)
  case (Cons s ss)
  have "snd (invoke_with_retry G True s e b) = b" for b :: "'a bus"
    by (simp add: invoke_with_retry_def emit_subscriber_error_def split: prod.splits option.splits)
  with Cons show ?case by (auto split: prod.splits) (metis snd_conv)+
qed simp

definition exhausted :: "'o bus \<Rightarrow> envelope \<Rightarrow> subscription \<Rightarrow> bool" where
  "exhausted b e s \<longleftrightarrow> accepts s e \<and> (\<forall>i \<in> {1..b_retry_attempts b}. sub_handler s i e \<noteq> None)"

lemma exhausted_accepts: "exhausted b e s \<Longrightarrow> accepts s e"
  unfolding exhausted_def by blast

lemma invoke_exhausted_iff:
  assumes "0 < b_retry_attempts b"
  shows "snd (retry_loop (b_retry_base_delay b) s e 1 (b_retry_attempts b)) = None \<longleftrightarrow>
     (\<exists>i \<in> {1..b_retry_attempts b}. sub_handler s i e = None)"
proof -
  let ?k = "b_retry_attempts b"
  obtain effs r where rl: "retry_loop (b_retry_base_delay b) s e 1 ?k = (effs, r)" by force
  from retry_loop_spec[OF rl] obtain n where n: "n \<le> ?k"
    "\<forall>i \<in> {1 ..< 1 + n - 1}. sub_handler s i e \<noteq> None"
    "r = None \<longrightarrow> ?k = 0 \<or> 0 < n \<and> sub_handler s (1 + n - 1) e = None"
    "\<forall>exc. r = Some exc \<longrightarrow> n = ?k \<and> 0 < ?k \<and> sub_handler s (1 + ?k - 1) e = Some exc" by blast
  show ?thesis
  proof (cases r)
    case None
    with n assms have "sub_handler s n e = None" "n \<in> {1..?k}" by auto
    with None rl show ?thesis by auto
  next
    case (Some exc)
    with n have nk: "n = ?k" "sub_handler s ?k e = Some exc" by auto
    have "sub_handler s i e \<noteq> None" if "i \<in> {1..?k}" for i
    proof (cases "i = ?k")
      case False
      with that n(2) nk(1) show ?thesis by auto
    qed (use nk in simp)
    with Some rl show ?thesis by auto
  qed
qed

definition dlqs_of :: "effect list \<Rightarrow> effect list" where
  "dlqs_of effs = filter (\<lambda>x. case x of Dlq _ _ _ _ \<Rightarrow> True | _ \<Rightarrow> False) effs"

lemma dlqs_of_retry: "dlqs_of (fst (retry_loop base s e a k)) = []"
  by (induction base s e a k rule: retry_loop.induct)
    (auto simp: dlqs_of_def split: option.splits prod.splits)

lemma dlqs_of_append [simp]: "dlqs_of (xs @ ys) = dlqs_of xs @ dlqs_of ys"
  by (simp add: dlqs_of_def)

lemma dlqs_of_invoke:
  assumes "0 < b_retry_attempts b" "accepts s e"
  shows "length (dlqs_of (fst (invoke_with_retry G m s e b))) =
    (if exhausted b e s \<and> b_on_dlq b \<and> \<not> is_meta_topic (topic e) then 1 else 0)"
proof -
  obtain effs r where rl: "retry_loop (b_retry_base_delay b) s e 1 (b_retry_attempts b) = (effs, r)" by force
  have "dlqs_of effs = []" using dlqs_of_retry[of "b_retry_base_delay b" s e 1 "b_retry_attempts b"] rl by simp
  moreover have "r = None \<longleftrightarrow> \<not> exhausted b e s"
    using invoke_exhausted_iff[OF assms(1), of s e, unfolded rl snd_conv] assms(2)
    unfolding exhausted_def by metis
  ultimately show ?thesis
    using rl by (cases r) (auto simp: invoke_with_retry_def invoke_dlq_def dlqs_of_def)
qed

text \<open>
  Exactly the matching, accepting subscriptions that failed every attempt reach the DLQ callback,
  once each, and none for a meta topic.
\<close>

lemma dispatch_dlq_count:
  assumes "0 < b_retry_attempts b"
  shows "length (dlqs_of (fst (dispatch G m e b))) =
    (if b_on_dlq b \<and> \<not> is_meta_topic (topic e)
     then length (filter (exhausted b e) (matching_subscriptions b (topic e))) else 0)"
proof -
  have "length (dlqs_of (fst (dispatch_to G m' ss e b))) =
      (if b_on_dlq b \<and> \<not> is_meta_topic (topic e) then length (filter (exhausted b e) ss) else 0)" for m' ss
    unfolding dispatch_to_effects
  proof (induction ss)
    case (Cons s ss)
    show ?case
      using Cons dlqs_of_invoke[OF assms, of s e G m'] exhausted_accepts[of b e s]
      by (cases "accepts s e") auto
  qed (simp add: dlqs_of_def)
  then show ?thesis by (simp add: dispatch_def)
qed

lemmas bus_queue_defs = enqueue_def publish_meta_def emit_backpressure_meta_def enqueue_local_def
  resume_put_def worker_step_def dispatch_done_def

end
