(* ===== verification/BusOps.thy ===== *)
theory BusOps
  imports BusCore
begin

text \<open>
  The asynchronous operations of \<open>BusCore\<close>: publish with its write-ahead append and fan-out task,
  the completion of a fan-out (ack or nack of the outbox row), the relay pass, envelopes coming
  back from the transport, start and close.

  Each definition is what runs between two awaits, or a call whose awaits suspend only itself.
  The result of an awaited backend publish (\<^const>\<open>None\<close> or the exception's type name) and the
  wall clock \<open>now\<close> are arguments.
\<close>

subsection \<open>Publish\<close>

definition remember_fanout :: "string \<Rightarrow> 'o bus \<Rightarrow> 'o bus" where
  "remember_fanout i b =
     (let ids = (if i \<in> set (b_fanned_out b) then b_fanned_out b else b_fanned_out b @ [i])
      in b\<lparr>b_fanned_out := drop (length ids - FANOUT_ECHO_CAP) ids\<rparr>)"

definition inflight_add :: "string \<Rightarrow> 'o bus \<Rightarrow> 'o bus" where
  "inflight_add i b =
     (if i \<in> set (b_outbox_inflight b) then b
      else b\<lparr>b_outbox_inflight := b_outbox_inflight b @ [i]\<rparr>)"

definition inflight_discard :: "string \<Rightarrow> 'o bus \<Rightarrow> 'o bus" where
  "inflight_discard i b = b\<lparr>b_outbox_inflight := removeAll i (b_outbox_inflight b)\<rparr>"

text \<open>Up to the outbox append: \<open>Some e\<close> when publish raises \<open>e\<close> here.\<close>

definition publish_prepare ::
    "'o outbox_ops \<Rightarrow> real \<Rightarrow> envelope \<Rightarrow> 'o bus \<Rightarrow> py_exc option \<times> 'o bus" where
  "publish_prepare ops now e b =
     (if b_closing b then (Some BusClosedError, b)
      else if \<not> b_has_backend b then (None, b)
      else (case b_outbox b of
              None \<Rightarrow> (None, b)
            | Some ob \<Rightarrow>
                (case ob_append ops now e ob of
                   (r, ob') \<Rightarrow>
                     (let b1 = b\<lparr>b_outbox := Some ob'\<rparr>
                      in case r of
                           None \<Rightarrow> (None, inflight_add (event_id e) b1)
                         | Some OutboxFullError \<Rightarrow>
                             (Some OutboxFullError,
                              b1\<lparr>b_stats := (b_stats b1)\<lparr>outbox_rejected := Suc (outbox_rejected (b_stats b1))\<rparr>\<rparr>)
                         | Some _ \<Rightarrow>
                             (None,
                              b1\<lparr>b_stats := (b_stats b1)\<lparr>outbox_append_failed := Suc (outbox_append_failed (b_stats b1))\<rparr>\<rparr>)))))"

text \<open>From there on: remember the id, spawn the fan-out task, enqueue locally.\<close>

definition publish_commit ::
    "gen \<Rightarrow> bool \<Rightarrow> envelope \<Rightarrow> 'o bus \<Rightarrow> enq_outcome result \<times> 'o bus" where
  "publish_commit G in_meta e b =
     (let b1 = (if b_has_backend b
                then (remember_fanout (event_id e) b)\<lparr>b_tasks := b_tasks b @ [e]\<rparr> else b)
      in case enqueue_local G in_meta e b1 of
           (Rejected, b2) \<Rightarrow> (Inl BackpressureError, b2)
         | (r, b2) \<Rightarrow> (Inr r, b2))"

definition publish ::
    "gen \<Rightarrow> 'o outbox_ops \<Rightarrow> bool \<Rightarrow> real \<Rightarrow> envelope \<Rightarrow> 'o bus \<Rightarrow> enq_outcome result \<times> 'o bus" where
  "publish G ops in_meta now e b =
     (case publish_prepare ops now e b of
        (Some x, b1) \<Rightarrow> (Inl x, b1)
      | (None, b1) \<Rightarrow> publish_commit G in_meta e b1)"

subsection \<open>Fan-out and relay\<close>

text \<open>
  The interval is a float, so Python converts the power to one: from \<open>2 ** 1024\<close> on that raises
  \<open>OverflowError\<close>, before \<open>min\<close> sees it.
\<close>

definition backoff :: "'o bus \<Rightarrow> nat \<Rightarrow> real option" where
  "backoff b attempts =
     (if 1024 < attempts then None
      else Some (min (b_relay_max_backoff b) (b_relay_interval b * 2 ^ (attempts - 1))))"

definition outbox_ack :: "'o outbox_ops \<Rightarrow> envelope \<Rightarrow> 'o bus \<Rightarrow> 'o bus" where
  "outbox_ack ops e b =
     (case b_outbox b of
        None \<Rightarrow> b
      | Some ob \<Rightarrow>
          (if event_id e \<notin> set (b_outbox_inflight b) then b
           else (case ob_ack ops (event_id e) ob of
                   (Some _, ob') \<Rightarrow> b\<lparr>b_outbox := Some ob'\<rparr>
                 | (None, ob') \<Rightarrow>
                     b\<lparr>b_outbox := Some ob',
                       b_outbox_attempts := dict_del (event_id e) (b_outbox_attempts b),
                       b_stats := (b_stats b)\<lparr>outbox_acked := Suc (outbox_acked (b_stats b))\<rparr>\<rparr>)))"

definition outbox_nack :: "'o outbox_ops \<Rightarrow> real \<Rightarrow> envelope \<Rightarrow> string \<Rightarrow> 'o bus \<Rightarrow> 'o bus" where
  "outbox_nack ops now e exc b =
     (case b_outbox b of
        None \<Rightarrow> b
      | Some ob \<Rightarrow>
          (if event_id e \<notin> set (b_outbox_inflight b) then b
           else
             (let attempts = (case dict_get (b_outbox_attempts b) (event_id e) of None \<Rightarrow> 0 | Some n \<Rightarrow> n) + 1;
                  b1 = b\<lparr>b_outbox_attempts := dict_set (event_id e) attempts (b_outbox_attempts b)\<rparr>
              in case backoff b attempts of
                   None \<Rightarrow> b1
                 | Some d \<Rightarrow> b1\<lparr>b_outbox := Some (snd (ob_nack ops (event_id e) exc (now + d) ob))\<rparr>)))"

definition backend_publish ::
    "'o outbox_ops \<Rightarrow> real \<Rightarrow> string option \<Rightarrow> envelope \<Rightarrow> 'o bus \<Rightarrow> bool \<times> 'o bus" where
  "backend_publish ops now res e b =
     (case res of
        Some exc \<Rightarrow>
          (False, inflight_discard (event_id e)
             (outbox_nack ops now e exc
               (b\<lparr>b_stats := (b_stats b)\<lparr>backend_failures := Suc (backend_failures (b_stats b))\<rparr>\<rparr>)))
      | None \<Rightarrow> (True, inflight_discard (event_id e) (outbox_ack ops e b)))"

text \<open>The loop of a relay pass: the envelopes attempted, in order, and the state after.\<close>

fun relay_rows ::
    "'o outbox_ops \<Rightarrow> real \<Rightarrow> (envelope \<Rightarrow> string option) \<Rightarrow> envelope list \<Rightarrow> 'o bus \<Rightarrow> envelope list \<times> 'o bus" where
  "relay_rows ops now res [] b = ([], b)"
| "relay_rows ops now res (e # es) b =
     (if event_id e \<in> set (b_outbox_inflight b) then relay_rows ops now res es b
      else
        (let b1 = remember_fanout (event_id e) (inflight_add (event_id e) b);
             b2 = b1\<lparr>b_stats := (b_stats b1)\<lparr>outbox_retried := Suc (outbox_retried (b_stats b1))\<rparr>\<rparr>
         in case backend_publish ops now (res e) e b2 of
              (False, b3) \<Rightarrow> ([e], b3)
            | (True, b3) \<Rightarrow> (case relay_rows ops now res es b3 of (tried, b4) \<Rightarrow> (e # tried, b4))))"

definition refresh_pending :: "'o outbox_ops \<Rightarrow> 'o bus \<Rightarrow> 'o bus" where
  "refresh_pending ops b =
     (case b_outbox b of
        None \<Rightarrow> b
      | Some ob \<Rightarrow>
          (case ob_pending ops ob of
             (Inl _, ob') \<Rightarrow> b\<lparr>b_outbox := Some ob'\<rparr>
           | (Inr k, ob') \<Rightarrow>
               b\<lparr>b_outbox := Some ob', b_stats := (b_stats b)\<lparr>outbox_pending := k\<rparr>,
                 b_outbox_attempts := (if k = 0 then [] else b_outbox_attempts b)\<rparr>))"

definition relay_once ::
    "'o outbox_ops \<Rightarrow> real \<Rightarrow> (envelope \<Rightarrow> string option) \<Rightarrow> 'o bus \<Rightarrow> envelope list \<times> 'o bus" where
  "relay_once ops now res b =
     (case b_outbox b of
        None \<Rightarrow> ([], b)
      | Some ob \<Rightarrow>
          (if \<not> b_has_backend b then ([], b)
           else
             (case ob_due ops now (b_relay_batch b) ob of
                (Inl _, ob') \<Rightarrow> ([], refresh_pending ops (b\<lparr>b_outbox := Some ob'\<rparr>))
              | (Inr rows, ob') \<Rightarrow>
                  (case relay_rows ops now res rows (b\<lparr>b_outbox := Some ob'\<rparr>) of
                     (tried, b1) \<Rightarrow> (tried, refresh_pending ops b1)))))"

subsection \<open>Envelopes from the transport\<close>

datatype transport_outcome = Echo | DroppedClosing | Dispatched "effect list"

definition on_transport_envelope ::
    "gen \<Rightarrow> bool \<Rightarrow> envelope \<Rightarrow> 'o bus \<Rightarrow> transport_outcome \<times> 'o bus" where
  "on_transport_envelope G in_meta e b =
     (if event_id e \<in> set (b_fanned_out b) then
        (Echo, b\<lparr>b_fanned_out := removeAll (event_id e) (b_fanned_out b)\<rparr>)
      else if b_closing b then (DroppedClosing, b)
      else (case dispatch G in_meta e (b\<lparr>b_in_flight := Suc (b_in_flight b)\<rparr>) of
              (effs, b1) \<Rightarrow> (Dispatched effs, dispatch_done b1)))"

subsection \<open>Start and close\<close>

definition start :: "'o bus \<Rightarrow> 'o bus" where
  "start b =
     (if b_started b then b
      else b\<lparr>b_started := True, b_closing := False, b_stopping := False,
             b_consuming := b_has_backend b \<and> \<not> b_publish_only b\<rparr>)"

definition drained :: "'o bus \<Rightarrow> bool" where
  "drained b \<longleftrightarrow> (\<forall>p \<in> set priority_order. b_queues b p = []) \<and> b_in_flight b = 0"

definition close_begin :: "'o bus \<Rightarrow> 'o bus" where
  "close_begin b = b\<lparr>b_closing := True\<rparr>"

text \<open>The drain deadline passed: what is still queued is abandoned and reported.\<close>

definition close_timeout :: "gen \<Rightarrow> real \<Rightarrow> 'o bus \<Rightarrow> 'o bus" where
  "close_timeout G deadline b =
     publish_meta G ''bus.shutdown_incomplete''
       [(''pending'', PInt (int (queued b))), (''drain_timeout'', PFloat deadline)]
       (b\<lparr>b_dropped_on_close := b_dropped_on_close b + queued b\<rparr>)"

definition close_stop :: "'o bus \<Rightarrow> 'o bus" where
  "close_stop b = b\<lparr>b_stopping := True, b_items := b_items b + b_workers b\<rparr>"

text \<open>
  \<open>_stop_relay\<close>, after the fan-out tasks were awaited: one last pass, then the store is closed.
\<close>

definition stop_relay ::
    "'o outbox_ops \<Rightarrow> real \<Rightarrow> (envelope \<Rightarrow> string option) \<Rightarrow> 'o bus \<Rightarrow> envelope list \<times> 'o bus" where
  "stop_relay ops now res b =
     (case b_outbox b of
        None \<Rightarrow> ([], b)
      | Some _ \<Rightarrow>
          (case relay_once ops now res b of
             (tried, b1) \<Rightarrow> (tried, b1\<lparr>b_outbox := map_option (ob_close ops) (b_outbox b1)\<rparr>)))"

definition close_end :: "'o bus \<Rightarrow> 'o bus" where
  "close_end b = b\<lparr>b_started := False\<rparr>"

text \<open>
  \<open>close\<close> as one call.  \<open>drain\<close> is what the rest of the bus did until the drain ended, \<open>stop\<close>
  what it did while the workers and the fan-out tasks wound down, \<open>timed_out\<close> whether the
  deadline ended the drain.
\<close>

definition close ::
    "gen \<Rightarrow> 'o outbox_ops \<Rightarrow> real \<Rightarrow> ('o bus \<Rightarrow> 'o bus) \<Rightarrow> bool \<Rightarrow> ('o bus \<Rightarrow> 'o bus) \<Rightarrow> real \<Rightarrow>
     (envelope \<Rightarrow> string option) \<Rightarrow> 'o bus \<Rightarrow> 'o bus" where
  "close G ops deadline drain timed_out stop now res b =
     (if b_closing b then b
      else
        (let b1 = drain (close_begin b);
             b2 = (if timed_out then close_timeout G deadline b1 else b1);
             b3 = stop (close_stop b2)
         in close_end (snd (stop_relay ops now res b3))))"

end
