(* ===== verification/BusRun.thy ===== *)
theory BusRun
  imports BusOps
begin

text \<open>
  The interleavings of the bus operations as a step relation, and the invariants every
  interleaving keeps: bounded queues of the right priority with a permit for each envelope, the
  echo memory, the order of the subscription tables.
\<close>

subsection \<open>Interleavings\<close>

inductive bus_step :: "gen \<Rightarrow> 'o outbox_ops \<Rightarrow> 'o bus \<Rightarrow> 'o bus \<Rightarrow> bool" for G ops where
  st_prepare: "bus_step G ops b (snd (publish_prepare ops now e b))"
| st_commit: "bus_step G ops b (snd (publish_commit G m e b))"
| st_resume: "bus_step G ops b (resume_put p i b)"
| st_worker: "worker_step b = Some (t, b') \<Longrightarrow> bus_step G ops b b'"
| st_dispatch: "bus_step G ops b (snd (dispatch G m e b))"
| st_done: "0 < b_in_flight b \<Longrightarrow> bus_step G ops b (dispatch_done b)"
| st_fanout: "e \<in> set (b_tasks b) \<Longrightarrow>
    bus_step G ops b (snd (backend_publish ops now res e (b\<lparr>b_tasks := remove1 e (b_tasks b)\<rparr>)))"
| st_relay: "bus_step G ops b (snd (relay_once ops now rs b))"
| st_transport: "bus_step G ops b (snd (on_transport_envelope G m e b))"
| st_subscribe: "bus_step G ops b (snd (subscribe s b))"
| st_unsubscribe: "bus_step G ops b (snd (unsubscribe i b))"
| st_start: "bus_step G ops b (start b)"
| st_close_begin: "bus_step G ops b (close_begin b)"
| st_close_timeout: "b_closing b \<Longrightarrow> bus_step G ops b (close_timeout G deadline b)"
| st_close_stop: "b_closing b \<Longrightarrow> bus_step G ops b (close_stop b)"
| st_stop_relay: "b_stopping b \<Longrightarrow> bus_step G ops b (snd (stop_relay ops now rs b))"
| st_close_end: "b_stopping b \<Longrightarrow> bus_step G ops b (close_end b)"

inductive bus_reach :: "gen \<Rightarrow> 'o outbox_ops \<Rightarrow> 'o bus \<Rightarrow> 'o bus \<Rightarrow> bool" for G ops b0 where
  reach_init: "bus_reach G ops b0 b0"
| reach_step: "bus_reach G ops b0 b \<Longrightarrow> bus_step G ops b b' \<Longrightarrow> bus_reach G ops b0 b'"

inductive_cases bus_step_cases [consumes 1]: "bus_step G ops b b'"


subsection \<open>Invariants\<close>

text \<open>
  Queues hold envelopes of their own priority, never more than the configured size, and there is
  at least one permit per queued envelope: an idle worker can always be woken for it.
\<close>

definition queue_inv :: "'o bus \<Rightarrow> bool" where
  "queue_inv b \<longleftrightarrow>
     (\<forall>p. 0 < b_queue_size b \<longrightarrow> int (length (b_queues b p)) \<le> b_queue_size b) \<and>
     (\<forall>p. \<forall>e \<in> set (b_queues b p) \<union> set (b_putters b p). priority e = p) \<and>
     queued b \<le> b_items b"

definition fanout_inv :: "'o bus \<Rightarrow> bool" where
  "fanout_inv b \<longleftrightarrow> distinct (b_fanned_out b) \<and> length (b_fanned_out b) \<le> FANOUT_ECHO_CAP"

definition bus_inv :: "'o bus \<Rightarrow> bool" where
  "bus_inv b \<longleftrightarrow> queue_inv b \<and> fanout_inv b \<and> subs_sorted b \<and>
     0 < b_retry_attempts b \<and> 0 < b_workers b"

text \<open>Two buses with the same queue fields satisfy the same queue invariant; likewise the others.\<close>

lemma queue_inv_cong:
  "b_queue_size b' = b_queue_size b \<Longrightarrow> b_queues b' = b_queues b \<Longrightarrow> b_putters b' = b_putters b \<Longrightarrow>
   b_items b' = b_items b \<Longrightarrow> queue_inv b' = queue_inv b"
  by (simp add: queue_inv_def queued_def)

lemma fanout_inv_cong: "b_fanned_out b' = b_fanned_out b \<Longrightarrow> fanout_inv b' = fanout_inv b"
  by (simp add: fanout_inv_def)

lemma subs_sorted_cong:
  "b_subscriptions b' = b_subscriptions b \<Longrightarrow> b_pattern_subscriptions b' = b_pattern_subscriptions b \<Longrightarrow>
   subs_sorted b' = subs_sorted b"
  by (simp add: subs_sorted_def)

lemma queue_bound: "queue_inv b \<Longrightarrow> 0 < b_queue_size b \<Longrightarrow> int (length (b_queues b p)) \<le> b_queue_size b"
  by (simp add: queue_inv_def)

lemma queue_inv_enqueue:
  assumes "queue_inv b" "\<not> q_full b (priority e)"
  shows "queue_inv (enqueue e b)"
proof -
  have q: "queued (enqueue e b) \<le> b_items (enqueue e b)"
    using assms(1) unfolding queued_enqueue by (simp add: queue_inv_def enqueue_def)
  show ?thesis
    using assms q unfolding queue_inv_def by (auto simp: enqueue_def q_full_def)
qed

lemma queue_inv_meta [inv_intros]: "queue_inv b \<Longrightarrow> queue_inv (publish_meta G t pl b)"
proof -
  assume i: "queue_inv b"
  let ?b = "b\<lparr>b_draws := Suc (b_draws b)\<rparr>"
  have "queue_inv ?b" using i by (subst queue_inv_cong[of _ b]) simp_all
  moreover have "queue_inv (enqueue e ?b)" if "\<not> q_full ?b HIGH" "priority e = HIGH" for e
    using that calculation by (intro queue_inv_enqueue) simp_all
  ultimately show ?thesis by (simp add: publish_meta_def Let_def)
qed

lemma queue_inv_backpressure [inv_intros]:
  "queue_inv b \<Longrightarrow> queue_inv (emit_backpressure_meta G m e pol b)"
  by (simp add: emit_backpressure_meta_def queue_inv_meta)

text \<open>Dropping the oldest and appending keeps the length.\<close>

lemma queue_inv_replace:
  assumes i: "queue_inv b" and q: "b_queues b (priority e) = old # q"
  shows "queue_inv (enqueue e (b\<lparr>b_queues := (b_queues b)(priority e := q)\<rparr>))" (is "queue_inv (enqueue e ?b)")
proof -
  have "queued ?b + length (b_queues b (priority e)) = queued b + length q"
    by (rule queued_upd)
  then have "queued ?b < queued b" using q by simp
  then have n: "queued (enqueue e ?b) \<le> b_items (enqueue e ?b)"
    unfolding queued_enqueue using i by (simp add: enqueue_def queue_inv_def)
  show ?thesis
    using i q n queue_bound[OF i, of "priority e"] unfolding queue_inv_def by (auto simp: enqueue_def)
qed

lemma queue_inv_enqueue_local [inv_intros]:
  assumes i: "queue_inv b" shows "queue_inv (snd (enqueue_local G m e b))"
proof (cases "q_full b (priority e)")
  case False
  then show ?thesis using i by (simp add: enqueue_local_def queue_inv_enqueue)
next
  case True
  define b1 where "b1 = emit_backpressure_meta G m e (policy_for b (topic e)) b"
  have i1: "queue_inv b1" unfolding b1_def by (rule queue_inv_backpressure[OF i])
  have empty: "\<not> q_full b1 (priority e)" if "b_queues b1 (priority e) = []"
    using that by (simp add: q_full_def)
  have put: "queue_inv (b1\<lparr>b_putters := (b_putters b1)(priority e := b_putters b1 (priority e) @ [e])\<rparr>)"
    using i1 unfolding queue_inv_def by (auto simp: queued_def)
  show ?thesis
    unfolding enqueue_local_def Let_def b1_def[symmetric]
    using True i1 put queue_inv_enqueue[OF i1 empty] queue_inv_replace[OF i1]
    by (auto split: list.split)
qed

lemma queue_inv_resume [inv_intros]:
  assumes i: "queue_inv b" shows "queue_inv (resume_put p k b)"
proof (cases "k < length (b_putters b p) \<and> \<not> q_full b p")
  case True
  define e where "e = b_putters b p ! k"
  define rest where "rest = take k (b_putters b p) @ drop (Suc k) (b_putters b p)"
  have pe: "priority e = p" using i True by (auto simp: queue_inv_def e_def)
  have "queue_inv (b\<lparr>b_putters := (b_putters b)(p := rest)\<rparr>)" (is "queue_inv ?b")
    using i unfolding queue_inv_def
    by (auto simp: queued_def rest_def dest: in_set_takeD in_set_dropD)
  moreover have "\<not> q_full ?b (priority e)" using True pe by (simp add: q_full_def)
  ultimately have "queue_inv (enqueue e ?b)" by (rule queue_inv_enqueue)
  moreover have "resume_put p k b = enqueue e ?b"
    using True pe by (simp add: resume_put_def enqueue_def Let_def e_def rest_def)
  ultimately show ?thesis by simp
qed (use i in \<open>auto simp: resume_put_def\<close>)

lemma queue_inv_pop:
  assumes i: "queue_inv b" and q: "b_queues b p = e # q" and pos: "0 < b_items b"
  shows "queue_inv (b\<lparr>b_items := b_items b - 1, b_queues := (b_queues b)(p := q)\<rparr>)" (is "queue_inv ?b")
proof -
  have "queued (b\<lparr>b_queues := (b_queues b)(p := q)\<rparr>) + length (b_queues b p) = queued b + length q"
    by (rule queued_upd)
  then have "queued ?b + 1 = queued b" using q by (simp add: queued_def)
  moreover have "queued b \<le> b_items b" using i by (simp add: queue_inv_def)
  ultimately have n: "queued ?b \<le> b_items ?b" using pos by simp
  have "int (length (b_queues ?b p')) \<le> b_queue_size b" if "0 < b_queue_size b" for p'
    using queue_bound[OF i that, of p'] queue_bound[OF i that, of p] q by simp
  moreover have "\<forall>x \<in> set (b_queues ?b p') \<union> set (b_putters ?b p'). priority x = p'" for p'
    using i q by (simp add: queue_inv_def)
  ultimately show ?thesis using n by (simp add: queue_inv_def)
qed

lemma queue_inv_worker [inv_intros]:
  assumes i: "queue_inv b" and w: "worker_step b = Some (t, b')"
  shows "queue_inv b'"
proof -
  let ?b = "b\<lparr>b_items := b_items b - 1\<rparr>"
  have pos: "0 < b_items b" using w by (auto simp: worker_step_def split: if_splits)
  obtain r b1 where pn: "pop_next ?b = (r, b1)" by force
  show ?thesis
  proof (cases r)
    case None
    then have "b1 = ?b" "\<forall>p. b_queues ?b p = []"
      using pn pop_next_None_state pop_next_None[of ?b] by auto
    then have "b' = ?b" "queued ?b = 0"
      using w pos pn None by (auto simp: worker_step_def queued_alt split: if_splits)
    then show ?thesis using i unfolding queue_inv_def by simp
  next
    case (Some e)
    from pop_next_Some[of ?b e b1] pn Some obtain p q where
      q: "b_queues b p = e # q" "b1 = ?b\<lparr>b_queues := (b_queues b)(p := q)\<rparr>" by auto
    have b': "b' = b1\<lparr>b_in_flight := Suc (b_in_flight b1)\<rparr>"
      using w pos pn Some by (auto simp: worker_step_def)
    have "queue_inv b' = queue_inv b1" using b' by (intro queue_inv_cong) simp_all
    then show ?thesis using queue_inv_pop[OF i q(1) pos] q(2) by simp
  qed
qed


lemma queue_inv_dispatch [inv_intros]: "queue_inv b \<Longrightarrow> queue_inv (snd (dispatch G m e b))"
proof -
  have inv: "queue_inv b \<Longrightarrow> queue_inv (snd (invoke_with_retry G m s e b))" for m s and b :: "'a bus"
    by (auto simp: invoke_with_retry_def emit_subscriber_error_def queue_inv_meta split: prod.splits option.splits)
  have "queue_inv b \<Longrightarrow> queue_inv (snd (dispatch_to G m ss e b))" for m ss and b :: "'a bus"
  proof (induction ss arbitrary: b)
    case (Cons s ss)
    then show ?case using inv[of b m s] by (auto split: prod.splits) (metis snd_conv)
  qed simp
  then show "queue_inv b \<Longrightarrow> queue_inv (snd (dispatch G m e b))" by (simp add: dispatch_def)
qed

text \<open>What each operation leaves alone.\<close>

definition enq_frame :: "'o bus \<Rightarrow> 'o bus \<Rightarrow> bool" where
  "enq_frame b b' \<longleftrightarrow> (\<exists>q pu i d. b' = b\<lparr>b_queues := q, b_putters := pu, b_items := i, b_draws := d\<rparr>)"

lemma enq_frameI:
  assumes "frame_meta b b1" and "b' = b1\<lparr>b_queues := q, b_putters := pu, b_items := i\<rparr>"
  shows "enq_frame b b'"
proof -
  obtain q0 i0 d where "b1 = b\<lparr>b_queues := q0, b_items := i0, b_draws := d\<rparr>"
    using assms(1) unfolding frame_meta_def by blast
  with assms(2) have "b' = b\<lparr>b_queues := q, b_putters := pu, b_items := i, b_draws := d\<rparr>" by simp
  then show ?thesis unfolding enq_frame_def by blast
qed

lemma bus_queues_id: "b\<lparr>b_queues := b_queues b\<rparr> = b"
  by (rule bus.equality) simp_all

lemma enq_frame_meta: "frame_meta b b1 \<Longrightarrow> enq_frame b b1"
  by (rule enq_frameI[where q = "b_queues b1" and pu = "b_putters b1" and i = "b_items b1"])
    (auto intro: bus.equality)

lemma enq_frame_enqueue: "frame_meta b b1 \<Longrightarrow> enq_frame b (enqueue e (b1\<lparr>b_queues := q\<rparr>))"
  by (rule enq_frameI[where q = "q(priority e := q (priority e) @ [e])" and pu = "b_putters b1"
        and i = "Suc (b_items b1)"]) (auto simp: enqueue_def intro: bus.equality)

lemma enqueue_local_enq_frame: "enq_frame b (snd (enqueue_local G m e b))"
proof -
  have meta: "frame_meta b (emit_backpressure_meta G m e pol b)" for pol
    by (simp add: emit_backpressure_meta_def)
  have put: "enq_frame b (b1\<lparr>b_putters := pu\<rparr>)" if "frame_meta b b1" for b1 pu
    by (rule enq_frameI[OF that, where q = "b_queues b1" and pu = pu and i = "b_items b1"]) (auto intro: bus.equality)
  have enq: "enq_frame b (enqueue e b1)" if "frame_meta b b1" for b1
    using enq_frame_enqueue[OF that, of e "b_queues b1"] by (simp add: bus_queues_id)
  show ?thesis
    unfolding enqueue_local_def Let_def
    using enq_frame_meta[OF meta] enq_frame_enqueue[OF meta] put[OF meta] enq[OF meta] enq[OF frame_meta_refl]
    by (simp split: list.split)
qed

lemma enq_frame_fields:
  assumes "enq_frame b b'"
  shows "b_fanned_out b' = b_fanned_out b" "b_subscriptions b' = b_subscriptions b"
    "b_pattern_subscriptions b' = b_pattern_subscriptions b" "b_retry_attempts b' = b_retry_attempts b"
    "b_workers b' = b_workers b" "b_outbox b' = b_outbox b" "b_outbox_inflight b' = b_outbox_inflight b"
    "b_tasks b' = b_tasks b" "b_closing b' = b_closing b" "b_queue_size b' = b_queue_size b"
    "b_has_backend b' = b_has_backend b"
  using assms by (auto simp: enq_frame_def)

lemmas enqueue_local_frame = enq_frame_fields[OF enqueue_local_enq_frame]

lemma publish_prepare_frame:
  fixes ops now e b
  defines "b' \<equiv> snd (publish_prepare ops now e b)"
  shows "b_queues b' = b_queues b" "b_putters b' = b_putters b" "b_items b' = b_items b"
    "b_queue_size b' = b_queue_size b" "b_fanned_out b' = b_fanned_out b"
    "b_subscriptions b' = b_subscriptions b" "b_pattern_subscriptions b' = b_pattern_subscriptions b"
    "b_retry_attempts b' = b_retry_attempts b" "b_workers b' = b_workers b"
    "b_closing b' = b_closing b" "b_has_backend b' = b_has_backend b" "b_tasks b' = b_tasks b"
  unfolding b'_def publish_prepare_def Let_def inflight_add_def
  by (auto split: option.splits prod.splits py_exc.splits)

lemma remember_frame [simp]:
  "b_queues (remember_fanout i b) = b_queues b" "b_putters (remember_fanout i b) = b_putters b"
  "b_items (remember_fanout i b) = b_items b" "b_queue_size (remember_fanout i b) = b_queue_size b"
  "b_subscriptions (remember_fanout i b) = b_subscriptions b"
  "b_pattern_subscriptions (remember_fanout i b) = b_pattern_subscriptions b"
  "b_retry_attempts (remember_fanout i b) = b_retry_attempts b" "b_workers (remember_fanout i b) = b_workers b"
  "b_outbox (remember_fanout i b) = b_outbox b" "b_outbox_inflight (remember_fanout i b) = b_outbox_inflight b"
  by (simp_all add: remember_fanout_def Let_def)

lemma inflight_frame [simp]:
  "b_queues (inflight_add i b) = b_queues b" "b_putters (inflight_add i b) = b_putters b"
  "b_items (inflight_add i b) = b_items b" "b_queue_size (inflight_add i b) = b_queue_size b"
  "b_subscriptions (inflight_add i b) = b_subscriptions b"
  "b_pattern_subscriptions (inflight_add i b) = b_pattern_subscriptions b"
  "b_retry_attempts (inflight_add i b) = b_retry_attempts b" "b_workers (inflight_add i b) = b_workers b"
  "b_outbox (inflight_add i b) = b_outbox b" "b_fanned_out (inflight_add i b) = b_fanned_out b"
  by (simp_all add: inflight_add_def)

lemma backend_publish_frame:
  fixes ops now res e b
  defines "b' \<equiv> snd (backend_publish ops now res e b)"
  shows "b_queues b' = b_queues b" "b_putters b' = b_putters b" "b_items b' = b_items b"
    "b_queue_size b' = b_queue_size b" "b_fanned_out b' = b_fanned_out b"
    "b_subscriptions b' = b_subscriptions b" "b_pattern_subscriptions b' = b_pattern_subscriptions b"
    "b_retry_attempts b' = b_retry_attempts b" "b_workers b' = b_workers b"
  unfolding b'_def backend_publish_def outbox_ack_def outbox_nack_def inflight_discard_def Let_def
  by (auto split: option.splits prod.splits)

lemma fanout_inv_remember [inv_intros]: "fanout_inv b \<Longrightarrow> fanout_inv (remember_fanout i b)"
  by (auto simp: fanout_inv_def remember_fanout_def Let_def intro: distinct_drop)

definition same_tables :: "'o bus \<Rightarrow> 'o bus \<Rightarrow> bool" where
  "same_tables b b' \<longleftrightarrow>
     b_queues b' = b_queues b \<and> b_putters b' = b_putters b \<and> b_items b' = b_items b \<and>
     b_queue_size b' = b_queue_size b \<and> b_subscriptions b' = b_subscriptions b \<and>
     b_pattern_subscriptions b' = b_pattern_subscriptions b \<and>
     b_retry_attempts b' = b_retry_attempts b \<and> b_workers b' = b_workers b"

lemma bus_inv_same: "bus_inv b \<Longrightarrow> same_tables b b' \<Longrightarrow> fanout_inv b' \<Longrightarrow> bus_inv b'"
  unfolding bus_inv_def same_tables_def
  using queue_inv_cong[of b' b] subs_sorted_cong[of b' b] by simp

lemma relay_rows_frame:
  "same_tables b (snd (relay_rows ops now res es b)) \<and>
   (fanout_inv b \<longrightarrow> fanout_inv (snd (relay_rows ops now res es b)))"
proof (induction es arbitrary: b)
  case (Cons e es)
  define b1 where "b1 = remember_fanout (event_id e) (inflight_add (event_id e) b)"
  define b2 where "b2 = b1\<lparr>b_stats := (b_stats b1)\<lparr>outbox_retried := Suc (outbox_retried (b_stats b1))\<rparr>\<rparr>"
  obtain ok b3 where bp: "backend_publish ops now (res e) e b2 = (ok, b3)" by force
  have f1: "fanout_inv b \<longrightarrow> fanout_inv b1"
    unfolding b1_def by (auto intro!: fanout_inv_remember simp: fanout_inv_cong[of "inflight_add _ b" b])
  have b3: "same_tables b b3" "b_fanned_out b3 = b_fanned_out b1"
    using backend_publish_frame[of ops now "res e" e b2] bp
    by (simp_all add: same_tables_def b2_def b1_def)
  have f3: "fanout_inv b \<longrightarrow> fanout_inv b3" using f1 b3(2) fanout_inv_cong by blast
  show ?case
  proof (cases "event_id e \<in> set (b_outbox_inflight b)")
    case True
    then show ?thesis using Cons.IH[of b] by simp
  next
    case False
    then show ?thesis
      using Cons.IH[of b3] b3 f3 bp
      by (cases ok) (auto simp: Let_def same_tables_def simp flip: b1_def b2_def split: prod.splits)
  qed
qed (simp add: same_tables_def)

lemma refresh_frame: "same_tables b (refresh_pending ops b)" "b_fanned_out (refresh_pending ops b) = b_fanned_out b"
  unfolding refresh_pending_def same_tables_def by (auto split: option.splits prod.splits sum.splits)


lemma relay_once_frame:
  "same_tables b (snd (relay_once ops now rs b)) \<and>
   (fanout_inv b \<longrightarrow> fanout_inv (snd (relay_once ops now rs b)))"
proof (cases "b_outbox b")
  case (Some ob)
  obtain r ob' where d: "ob_due ops now (b_relay_batch b) ob = (r, ob')" by force
  define b1 where "b1 = b\<lparr>b_outbox := Some ob'\<rparr>"
  have b1: "same_tables b b1" "b_fanned_out b1 = b_fanned_out b"
    by (simp_all add: b1_def same_tables_def)
  have st: "same_tables b x \<Longrightarrow> same_tables x y \<Longrightarrow> same_tables b y" for x y :: "'a bus"
    by (simp add: same_tables_def)
  have fin: "same_tables b (refresh_pending ops x) \<and> (fanout_inv b \<longrightarrow> fanout_inv (refresh_pending ops x))"
    if "same_tables b x" "fanout_inv b \<longrightarrow> fanout_inv x" for x
    using st[OF that(1) refresh_frame(1)[of x ops]] refresh_frame(2)[of ops x] fanout_inv_cong that(2) by blast
  show ?thesis
  proof (cases r)
    case (Inl x)
    then show ?thesis
      using Some d fin[OF b1(1)] b1 fanout_inv_cong[OF b1(2)]
      by (auto simp: relay_once_def same_tables_def simp flip: b1_def)
  next
    case (Inr rows)
    obtain tried b2 where rr: "relay_rows ops now rs rows b1 = (tried, b2)" by force
    have "same_tables b b2" "fanout_inv b \<longrightarrow> fanout_inv b2"
      using relay_rows_frame[of b1 ops now rs rows] rr st[OF b1(1)] fanout_inv_cong[OF b1(2)] by auto
    from fin[OF this] show ?thesis
      using Some d Inr rr by (auto simp: relay_once_def same_tables_def simp flip: b1_def)
  qed
qed (simp add: relay_once_def same_tables_def)

lemma subs_sorted_subscribe: "subs_sorted b \<Longrightarrow> subs_sorted (snd (subscribe s b))"
  by (auto simp: subs_sorted_def subscribe_def dest!: dict_set_values)

lemma remove_id_sorted:
  "remove_id i ss = Some ss' \<Longrightarrow> sorted (map (\<lambda>s. - sub_priority s) ss) \<Longrightarrow>
   sorted (map (\<lambda>s. - sub_priority s) ss') \<and> set ss' \<subseteq> set ss"
  by (induction i ss arbitrary: ss' rule: remove_id.induct) (fastforce split: if_splits)+

lemma remove_id_dict_sorted:
  "remove_id_dict i d = Some d' \<Longrightarrow> \<forall>(k, ss) \<in> set d. sorted (map (\<lambda>s. - sub_priority s) ss) \<Longrightarrow>
   \<forall>(k, ss) \<in> set d'. sorted (map (\<lambda>s. - sub_priority s) ss)"
  by (induction i d arbitrary: d' rule: remove_id_dict.induct)
    (auto split: option.splits dest: remove_id_sorted)

lemma subs_sorted_unsubscribe: "subs_sorted b \<Longrightarrow> subs_sorted (snd (unsubscribe i b))"
  using remove_id_dict_sorted[of i "b_subscriptions b"] remove_id_sorted[of i "b_pattern_subscriptions b"]
  by (auto simp: subs_sorted_def unsubscribe_def split: option.splits)

lemma publish_commit_state:
  "snd (publish_commit G m e b) =
     snd (enqueue_local G m e (if b_has_backend b
        then (remember_fanout (event_id e) b)\<lparr>b_tasks := b_tasks b @ [e]\<rparr> else b))"
  by (auto simp: publish_commit_def Let_def split: prod.splits enq_outcome.splits)

lemma bus_inv_commit: "bus_inv b \<Longrightarrow> bus_inv (snd (publish_commit G m e b))"
proof -
  assume i: "bus_inv b"
  let ?b = "if b_has_backend b then (remember_fanout (event_id e) b)\<lparr>b_tasks := b_tasks b @ [e]\<rparr> else b"
  have fi: "fanout_inv ?b"
    using i fanout_inv_remember[of b "event_id e"] by (auto simp: bus_inv_def fanout_inv_def)
  have "same_tables b ?b" by (simp add: same_tables_def)
  then have j: "bus_inv ?b" using bus_inv_same[OF i _ fi] by blast
  then have "queue_inv (snd (enqueue_local G m e ?b))" by (auto simp: bus_inv_def intro: inv_intros)
  then show ?thesis
    using j fanout_inv_cong[of "snd (enqueue_local G m e ?b)" ?b]
      subs_sorted_cong[of "snd (enqueue_local G m e ?b)" ?b] enqueue_local_frame[of G m e ?b]
    unfolding bus_inv_def publish_commit_state by simp
qed

lemma bus_inv_frame_meta:
  "bus_inv b \<Longrightarrow> frame_meta b b' \<Longrightarrow> queue_inv b' \<Longrightarrow> bus_inv b'"
  unfolding frame_meta_def by (auto simp: bus_inv_def fanout_inv_def subs_sorted_def)

lemma bus_inv_dispatch: "bus_inv b \<Longrightarrow> bus_inv (snd (dispatch G m e b))"
proof -
  assume i: "bus_inv b"
  have "queue_inv (snd (dispatch G m e b))" using i by (auto simp: bus_inv_def intro: inv_intros)
  then show ?thesis
    using bus_inv_frame_meta[OF i] by (simp add: dispatch_def)
qed

lemma bus_inv_in_flight [simp]: "bus_inv (b\<lparr>b_in_flight := n\<rparr>) = bus_inv b"
  by (simp add: bus_inv_def queue_inv_def fanout_inv_def subs_sorted_def queued_def)

lemma bus_inv_transport: "bus_inv b \<Longrightarrow> bus_inv (snd (on_transport_envelope G m e b))"
proof -
  assume i: "bus_inv b"
  have "bus_inv (b\<lparr>b_fanned_out := removeAll x (b_fanned_out b)\<rparr>)" for x
    using i le_trans[OF length_filter_le]
    by (fastforce simp: bus_inv_def queue_inv_def fanout_inv_def subs_sorted_def queued_def removeAll_filter_not_eq)
  moreover have "bus_inv (snd (dispatch G m e (b\<lparr>b_in_flight := Suc (b_in_flight b)\<rparr>)))"
    by (rule bus_inv_dispatch) (use i in simp)
  ultimately show ?thesis
    using i by (simp add: on_transport_envelope_def dispatch_done_def split: prod.splits) (metis snd_conv)
qed

lemma worker_step_frame:
  "worker_step b = Some (t, b') \<Longrightarrow>
   b_queue_size b' = b_queue_size b \<and> b_fanned_out b' = b_fanned_out b \<and>
   b_subscriptions b' = b_subscriptions b \<and> b_pattern_subscriptions b' = b_pattern_subscriptions b \<and>
   b_retry_attempts b' = b_retry_attempts b \<and> b_workers b' = b_workers b \<and> b_putters b' = b_putters b"
  by (auto simp: worker_step_def pop_next_def split: if_splits list.splits)


lemma bus_inv_worker: "bus_inv b \<Longrightarrow> worker_step b = Some (t, b') \<Longrightarrow> bus_inv b'"
proof -
  assume i: "bus_inv b" and w: "worker_step b = Some (t, b')"
  have "queue_inv b'" using i by (intro queue_inv_worker[OF _ w]) (simp add: bus_inv_def)
  then show ?thesis
    using i worker_step_frame[OF w] fanout_inv_cong[of b' b] subs_sorted_cong[of b' b]
    by (simp add: bus_inv_def)
qed

lemma bus_inv_resume: "bus_inv b \<Longrightarrow> bus_inv (resume_put p i b)"
  using queue_inv_resume[of b p i]
  by (auto simp: bus_inv_def resume_put_def fanout_inv_def subs_sorted_def Let_def)

lemma bus_inv_upd [simp]:
  "bus_inv (b\<lparr>b_dropped_on_close := n\<rparr>) = bus_inv b" "bus_inv (b\<lparr>b_tasks := ts\<rparr>) = bus_inv b"
  "bus_inv (b\<lparr>b_started := x\<rparr>) = bus_inv b" "bus_inv (b\<lparr>b_closing := x\<rparr>) = bus_inv b"
  "bus_inv (b\<lparr>b_stopping := x\<rparr>) = bus_inv b" "bus_inv (b\<lparr>b_consuming := x\<rparr>) = bus_inv b"
  by (simp_all add: bus_inv_def queue_inv_def fanout_inv_def subs_sorted_def queued_def)

lemma bus_inv_timeout: "bus_inv b \<Longrightarrow> bus_inv (close_timeout G d b)"
proof -
  assume "bus_inv b"
  then have i: "bus_inv (b\<lparr>b_dropped_on_close := b_dropped_on_close b + queued b\<rparr>)" by simp
  then show ?thesis
    unfolding close_timeout_def
    by (rule bus_inv_frame_meta[OF _ publish_meta_frame queue_inv_meta]) (use i in \<open>simp only: bus_inv_def\<close>)
qed

lemma queue_inv_more_items: "queue_inv b \<Longrightarrow> queue_inv (b\<lparr>b_items := b_items b + n\<rparr>)"
  by (simp add: queue_inv_def queued_def)

lemma bus_inv_stop: "bus_inv b \<Longrightarrow> bus_inv (close_stop b)"
proof -
  assume i: "bus_inv b"
  let ?b = "b\<lparr>b_items := b_items b + b_workers b\<rparr>"
  have "bus_inv ?b"
    using i queue_inv_more_items[of b "b_workers b"] by (simp add: bus_inv_def fanout_inv_def subs_sorted_def)
  then have "bus_inv (?b\<lparr>b_stopping := True\<rparr>)" by simp
  moreover have "?b\<lparr>b_stopping := True\<rparr> = close_stop b" by (simp add: close_stop_def)
  ultimately show ?thesis by simp
qed

lemma bus_inv_flags:
  "bus_inv b \<Longrightarrow> bus_inv (start b)" "bus_inv b \<Longrightarrow> bus_inv (close_begin b)"
  "bus_inv b \<Longrightarrow> bus_inv (close_end b)" "bus_inv b \<Longrightarrow> bus_inv (dispatch_done b)"
  by (simp_all add: start_def close_begin_def close_end_def dispatch_done_def)

lemma bus_inv_subscribe: "bus_inv b \<Longrightarrow> bus_inv (snd (subscribe s b))"
proof -
  assume i: "bus_inv b"
  have "queue_inv (snd (subscribe s b)) = queue_inv b" "fanout_inv (snd (subscribe s b)) = fanout_inv b"
    by (rule queue_inv_cong fanout_inv_cong; simp add: subscribe_def)+
  then show ?thesis
    using i subs_sorted_subscribe[of b s] by (simp add: bus_inv_def) (simp add: subscribe_def)
qed

lemma bus_inv_unsubscribe: "bus_inv b \<Longrightarrow> bus_inv (snd (unsubscribe i b))"
proof -
  assume v: "bus_inv b"
  have "queue_inv (snd (unsubscribe i b)) = queue_inv b" "fanout_inv (snd (unsubscribe i b)) = fanout_inv b"
    by (rule queue_inv_cong fanout_inv_cong; simp add: unsubscribe_def split: option.split)+
  then show ?thesis
    using v subs_sorted_unsubscribe[of b i]
    by (simp add: bus_inv_def) (simp add: unsubscribe_def split: option.split)
qed

lemma bus_inv_prepare: "bus_inv b \<Longrightarrow> bus_inv (snd (publish_prepare ops now e b))"
  using bus_inv_same[of b "snd (publish_prepare ops now e b)"]
  by (simp add: same_tables_def fanout_inv_def bus_inv_def publish_prepare_frame)

lemma bus_inv_backend: "bus_inv b \<Longrightarrow> bus_inv (snd (backend_publish ops now res e b))"
  using bus_inv_same[of b "snd (backend_publish ops now res e b)"]
  by (simp add: same_tables_def fanout_inv_def bus_inv_def backend_publish_frame)

lemma bus_inv_relay: "bus_inv b \<Longrightarrow> bus_inv (snd (relay_once ops now rs b))"
  using relay_once_frame[of b ops now rs] bus_inv_same[of b "snd (relay_once ops now rs b)"]
  by (simp add: bus_inv_def)

lemma bus_inv_stop_relay: "bus_inv b \<Longrightarrow> bus_inv (snd (stop_relay ops now rs b))"
  using bus_inv_relay[of b ops now rs]
  by (auto simp: stop_relay_def bus_inv_def queue_inv_def fanout_inv_def subs_sorted_def queued_def
      split: option.split prod.split)

lemmas bus_inv_ops = bus_inv_stop_relay bus_inv_prepare bus_inv_commit bus_inv_resume bus_inv_worker bus_inv_dispatch
  bus_inv_backend bus_inv_relay bus_inv_transport bus_inv_subscribe
  bus_inv_unsubscribe bus_inv_flags bus_inv_stop bus_inv_timeout

lemma bus_step_inv: "bus_step G ops b b' \<Longrightarrow> bus_inv b \<Longrightarrow> bus_inv b'"
proof (induction rule: bus_step.induct)
  case (st_fanout e b now res)
  then show ?case by (intro bus_inv_backend) simp
qed (blast intro: bus_inv_ops)+

lemma bus_new_inv: "bus_new c hb ob po = Inr b \<Longrightarrow> bus_inv b"
  by (auto simp: bus_new_def bus_inv_def queue_inv_def fanout_inv_def subs_sorted_def queued_def
      split: if_splits)

lemma bus_reach_inv: "bus_reach G ops b0 b \<Longrightarrow> bus_inv b0 \<Longrightarrow> bus_inv b"
  by (induction rule: bus_reach.induct) (auto intro: bus_step_inv)

text \<open>
  Progress: whenever something is queued a worker can take a turn, and that turn starts the oldest
  envelope of the highest priority that has one.
\<close>

lemma worker_progress:
  assumes i: "queue_inv b" and q: "b_queues b p0 \<noteq> []"
  shows "\<exists>e p rest b'. worker_step b = Some (Start e, b') \<and> b_queues b p = e # rest \<and>
     b_queues b' = (b_queues b)(p := rest) \<and> (\<forall>p'. p < p' \<longrightarrow> b_queues b p' = [])"
proof -
  let ?b = "b\<lparr>b_items := b_items b - 1\<rparr>"
  have "0 < queued b" using q by (cases p0) (simp_all add: queued_alt)
  then have pos: "0 < b_items b" using i by (simp add: queue_inv_def)
  obtain r b1 where pn: "pop_next ?b = (r, b1)" by force
  have "r \<noteq> None" using q pn pop_next_None[of ?b] by auto
  then obtain e where r: "r = Some e" by blast
  from pop_next_Some[of ?b e b1] pn r obtain p rest where
    "b_queues b p = e # rest" "b1 = ?b\<lparr>b_queues := (b_queues b)(p := rest)\<rparr>"
    "\<forall>p'. p < p' \<longrightarrow> b_queues b p' = []" by auto
  then show ?thesis using pos pn r
    by (intro exI[of _ e] exI[of _ p] exI[of _ rest] exI[of _ "b1\<lparr>b_in_flight := Suc (b_in_flight b1)\<rparr>"])
      (simp add: worker_step_def)
qed

text \<open>An echo of a published envelope is dropped once, and only while its id is remembered.\<close>

lemma remember_fanout_mem:
  "event_id e \<in> set (b_fanned_out (remember_fanout (event_id e) b))"
  if "length (b_fanned_out b) \<le> FANOUT_ECHO_CAP" "event_id e \<notin> set (b_fanned_out b)"
  using that by (simp add: remember_fanout_def Let_def FANOUT_ECHO_CAP_def)

end
