(* ===== verification/Relay.thy ===== *)
theory Relay
  imports BusOps
begin

text \<open>
  What the bus promises about its outbox, proved once for every store that keeps the
  \<open>outbox_store\<close> contract: which rows a relay pass attempts, that a row leaves the store only after
  the backend confirmed it, and that a publish that did not raise left its envelope in the store.
\<close>

definition inflight_id :: "'o bus \<Rightarrow> string \<Rightarrow> bool" where
  "inflight_id b i \<longleftrightarrow> i \<in> set (b_outbox_inflight b)"

text \<open>The prefix of a batch up to and including the first envelope whose publish fails.\<close>

fun upto_failure :: "(envelope \<Rightarrow> string option) \<Rightarrow> envelope list \<Rightarrow> envelope list" where
  "upto_failure res [] = []"
| "upto_failure res (e # es) = (if res e = None then e # upto_failure res es else [e])"

lemma upto_failure_prefix: "prefix (upto_failure res es) es"
  by (induction es) auto

lemma upto_failure_confirmed: "i < length (upto_failure res es) - 1 \<Longrightarrow> res (upto_failure res es ! i) = None"
  by (induction es arbitrary: i) (auto simp: nth_Cons split: if_splits nat.split)

definition confirmed_ids :: "(envelope \<Rightarrow> string option) \<Rightarrow> envelope list \<Rightarrow> string set" where
  "confirmed_ids res es = event_id ` {e \<in> set es. res e = None}"

lemma remember_fanout_frame [simp]:
  "b_outbox (remember_fanout i b) = b_outbox b"
  "b_outbox_inflight (remember_fanout i b) = b_outbox_inflight b"
  "b_outbox_attempts (remember_fanout i b) = b_outbox_attempts b"
  by (simp_all add: remember_fanout_def Let_def)

lemma inflight_add_frame [simp]:
  "b_outbox (inflight_add i b) = b_outbox b"
  "set (b_outbox_inflight (inflight_add i b)) = insert i (set (b_outbox_inflight b))"
  by (auto simp: inflight_add_def)

lemma inflight_discard_add:
  "i \<notin> set (b_outbox_inflight b) \<Longrightarrow> removeAll i (b_outbox_inflight (inflight_add i b)) = b_outbox_inflight b"
  by (simp add: inflight_add_def)

lemma outbox_ack_inflight [simp]: "b_outbox_inflight (outbox_ack ops e b) = b_outbox_inflight b"
  by (simp add: outbox_ack_def split: option.split prod.split)

lemma outbox_nack_inflight [simp]: "b_outbox_inflight (outbox_nack ops now e x b) = b_outbox_inflight b"
  by (simp add: outbox_nack_def Let_def split: option.split)

lemma inflight_discard_frame [simp]:
  "b_outbox (inflight_discard i b) = b_outbox b"
  "b_outbox_inflight (inflight_discard i b) = removeAll i (b_outbox_inflight b)"
  by (simp_all add: inflight_discard_def)

context outbox_store
begin

definition good :: "'o bus \<Rightarrow> 'o \<Rightarrow> bool" where
  "good b ob \<longleftrightarrow> b_outbox b = Some ob \<and> inv ob"

lemma outbox_ack_ids:
  assumes "good b ob"
  obtains ob' where "good (outbox_ack ops e b) ob'" "ids ob - {event_id e} \<subseteq> ids ob'" "ids ob' \<subseteq> ids ob"
proof -
  obtain r ob' where a: "ob_ack ops (event_id e) ob = (r, ob')" by force
  have "inv ob'" "ids ob - {event_id e} \<subseteq> ids ob'" "ids ob' \<subseteq> ids ob"
    using inv_ack[of ob "event_id e"] ack_ok[of ob "event_id e"] ack_fail[of ob "event_id e"] assms a
    unfolding good_def by (cases r; auto)+
  then show ?thesis
    using assms a that[of ob'] that[of ob] unfolding good_def outbox_ack_def
    by (cases r; cases "event_id e \<in> set (b_outbox_inflight b)") auto
qed

lemma outbox_nack_ids:
  assumes "good b ob"
  obtains ob' where "good (outbox_nack ops now e x b) ob'" "ids ob' = ids ob"
proof (cases "event_id e \<in> set (b_outbox_inflight b)")
  case True
  define n where "n = (case dict_get (b_outbox_attempts b) (event_id e) of None \<Rightarrow> 0 | Some n \<Rightarrow> n) + 1"
  have "b_outbox (outbox_nack ops now e x b) =
     (case backoff b n of None \<Rightarrow> Some ob | Some d \<Rightarrow> Some (snd (ob_nack ops (event_id e) x (now + d) ob)))"
    using assms True by (simp add: good_def outbox_nack_def n_def Let_def split: option.split)
  then show ?thesis using assms that inv_nack[of ob] nack_ids[of ob] by (auto simp: good_def split: option.splits)
next
  case False
  then show ?thesis using assms that[of ob] by (simp add: good_def outbox_nack_def)
qed

text \<open>One publish: a confirmed one may remove its own row, a failed one removes nothing.\<close>

lemma backend_publish_ids:
  assumes "good b ob"
  obtains ob' where "good (snd (backend_publish ops now r e b)) ob'"
    "ids ob - (if r = None then {event_id e} else {}) \<subseteq> ids ob'" "ids ob' \<subseteq> ids ob"
proof (cases r)
  case None
  from outbox_ack_ids[OF assms, of e] obtain ob' where
    "good (outbox_ack ops e b) ob'" "ids ob - {event_id e} \<subseteq> ids ob'" "ids ob' \<subseteq> ids ob" .
  then show ?thesis using None that[of ob'] by (simp add: backend_publish_def good_def)
next
  case (Some x)
  let ?b = "b\<lparr>b_stats := (b_stats b)\<lparr>backend_failures := Suc (backend_failures (b_stats b))\<rparr>\<rparr>"
  have "good ?b ob" using assms by (simp add: good_def)
  from outbox_nack_ids[OF this, of now e x] obtain ob' where "good (outbox_nack ops now e x ?b) ob'" "ids ob' = ids ob" .
  then show ?thesis using Some that[of ob'] by (simp add: backend_publish_def good_def)
qed

lemma backend_publish_inflight:
  "b_outbox_inflight (snd (backend_publish ops now r e b)) = removeAll (event_id e) (b_outbox_inflight b)"
  by (simp add: backend_publish_def split: option.split)

lemma backend_publish_confirm: "fst (backend_publish ops now r e b) \<longleftrightarrow> r = None"
  by (simp add: backend_publish_def split: option.split)

text \<open>
  The relay loop: it attempts, in order, the rows no publish of this process already carries, up
  to the first failure; afterwards the in-flight ids are as before, and every row that was not
  confirmed is still there.
\<close>

lemma relay_rows_spec:
  assumes "good b ob" "relay_rows ops now res es b = (tried, b')"
  shows "tried = upto_failure res (filter (\<lambda>e. \<not> inflight_id b (event_id e)) es) \<and>
    b_outbox_inflight b' = b_outbox_inflight b \<and>
    (\<exists>ob'. good b' ob' \<and> ids ob - confirmed_ids res tried \<subseteq> ids ob' \<and> ids ob' \<subseteq> ids ob)"
  using assms
proof (induction es arbitrary: b ob tried b')
  case Nil
  then show ?case by (auto simp: confirmed_ids_def)
next
  case (Cons e es)
  show ?case
  proof (cases "inflight_id b (event_id e)")
    case True
    with Cons show ?thesis by (simp add: inflight_id_def)
  next
    case False
    define b2 where "b2 = (let b1 = remember_fanout (event_id e) (inflight_add (event_id e) b) in
       b1\<lparr>b_stats := (b_stats b1)\<lparr>outbox_retried := Suc (outbox_retried (b_stats b1))\<rparr>\<rparr>)"
    obtain c b3 where p: "backend_publish ops now (res e) e b2 = (c, b3)" by force
    have c: "c \<longleftrightarrow> res e = None" using backend_publish_confirm[of now "res e" e b2] p by simp
    have g2: "good b2 ob" using Cons.prems(1) by (simp add: good_def b2_def Let_def)
    have infl: "b_outbox_inflight b3 = b_outbox_inflight b"
      using backend_publish_inflight[of now "res e" e b2] p False
      by (simp add: b2_def Let_def inflight_id_def inflight_discard_add)
    from backend_publish_ids[OF g2, of now "res e" e] p obtain ob3 where
      g3: "good b3 ob3" "ids ob - (if res e = None then {event_id e} else {}) \<subseteq> ids ob3" "ids ob3 \<subseteq> ids ob"
      by auto
    have step: "relay_rows ops now res (e # es) b =
        (if c then (case relay_rows ops now res es b3 of (t, b4) \<Rightarrow> (e # t, b4)) else ([e], b3))"
      using False p by (auto simp: inflight_id_def b2_def Let_def)
    show ?thesis
    proof (cases c)
      case False
      then have "tried = [e]" "b' = b3" using Cons.prems(2) step by simp_all
      then show ?thesis using g3 infl c False \<open>\<not> inflight_id b (event_id e)\<close>
        by (auto simp: confirmed_ids_def)
    next
      case True
      obtain t b4 where r: "relay_rows ops now res es b3 = (t, b4)" by force
      have eq: "tried = e # t" "b' = b4" using Cons.prems(2) step r True by simp_all
      have t: "t = upto_failure res (filter (\<lambda>e. \<not> inflight_id b3 (event_id e)) es)"
        "b_outbox_inflight b4 = b_outbox_inflight b3"
        "\<exists>ob'. good b4 ob' \<and> ids ob3 - confirmed_ids res t \<subseteq> ids ob' \<and> ids ob' \<subseteq> ids ob3"
        using Cons.IH[OF g3(1) r] by blast+
      have same: "inflight_id b3 = inflight_id b" using infl by (simp add: fun_eq_iff inflight_id_def)
      have conf: "confirmed_ids res tried = insert (event_id e) (confirmed_ids res t)"
        using eq c True by (auto simp: confirmed_ids_def)
      from t(3) obtain ob' where ob': "good b4 ob'" "ids ob3 - confirmed_ids res t \<subseteq> ids ob'" "ids ob' \<subseteq> ids ob3" by blast
      have "ids ob - {event_id e} \<subseteq> ids ob3" using g3(2) c True by simp
      then have "ids ob - confirmed_ids res tried \<subseteq> ids ob'" "ids ob' \<subseteq> ids ob"
        using ob'(2,3) g3(3) unfolding conf by blast+
      then have "\<exists>ob'. good b' ob' \<and> ids ob - confirmed_ids res tried \<subseteq> ids ob' \<and> ids ob' \<subseteq> ids ob"
        using ob'(1) eq(2) by blast
      moreover have "tried = upto_failure res (filter (\<lambda>e. \<not> inflight_id b (event_id e)) (e # es))"
        using t(1) eq(1) c True False same by simp
      moreover have "b_outbox_inflight b' = b_outbox_inflight b" using t(2) eq(2) infl by simp
      ultimately show ?thesis by blast
    qed
  qed
qed

lemma refresh_pending_good:
  assumes "good b ob"
  obtains ob' where "good (refresh_pending ops b) ob'" "ids ob' = ids ob"
proof -
  obtain r ob' where p: "ob_pending ops ob = (r, ob')" by force
  have "inv ob'" "ids ob' = ids ob" using inv_pending[of ob] pending_ids[of ob] assms p by (auto simp: good_def)
  then show ?thesis using assms p that[of ob'] by (cases r) (auto simp: good_def refresh_pending_def)
qed

lemma refresh_pending_inflight [simp]: "b_outbox_inflight (refresh_pending ops b) = b_outbox_inflight b"
  by (simp add: refresh_pending_def split: option.split prod.split sum.split)

text \<open>The whole pass, over the rows \<open>due\<close> handed out.\<close>

lemma relay_once_spec:
  assumes "good b ob" "b_has_backend b" "ob_due ops now (b_relay_batch b) ob = (Inr rows, ob1)"
    and "relay_once ops now res b = (tried, b')"
  shows "tried = upto_failure res (filter (\<lambda>e. \<not> inflight_id b (event_id e)) rows)"
    "length tried \<le> b_relay_batch b" "distinct (map event_id tried)"
    "b_outbox_inflight b' = b_outbox_inflight b"
    "\<exists>ob'. good b' ob' \<and> ids ob1 - confirmed_ids res tried \<subseteq> ids ob' \<and> ids ob' \<subseteq> ids ob"
proof -
  let ?b = "b\<lparr>b_outbox := Some ob1\<rparr>"
  obtain t b1 where r: "relay_rows ops now res rows ?b = (t, b1)" by force
  have eq: "tried = t" "b' = refresh_pending ops b1"
    using assms r by (simp_all add: relay_once_def good_def)
  have g: "good ?b ob1" using inv_due[of ob now "b_relay_batch b"] assms(1,3) by (simp add: good_def)
  have infl: "inflight_id ?b = inflight_id b" by (simp add: fun_eq_iff inflight_id_def)
  from relay_rows_spec[OF g r] obtain ob2 where s:
    "t = upto_failure res (filter (\<lambda>e. \<not> inflight_id b (event_id e)) rows)"
    "b_outbox_inflight b1 = b_outbox_inflight b" "good b1 ob2"
    "ids ob1 - confirmed_ids res t \<subseteq> ids ob2" "ids ob2 \<subseteq> ids ob1" using infl by auto
  from refresh_pending_good[OF s(3)] obtain ob3 where f: "good b' ob3" "ids ob3 = ids ob2" using eq by blast
  have due: "ids ob1 \<subseteq> ids ob" "length rows \<le> b_relay_batch b" "distinct (map event_id rows)"
    using due_sub[of ob now "b_relay_batch b"] due_limit[of ob now "b_relay_batch b" rows]
      due_distinct[of ob now "b_relay_batch b" rows] assms(1,3) by (auto simp: good_def)
  show "tried = upto_failure res (filter (\<lambda>e. \<not> inflight_id b (event_id e)) rows)" using s(1) eq by simp
  show "length tried \<le> b_relay_batch b"
    unfolding eq s(1) using prefix_length_le[OF upto_failure_prefix] length_filter_le due(2) by (meson le_trans)
  have "distinct (map event_id (filter (\<lambda>e. \<not> inflight_id b (event_id e)) rows))"
    using due(3) by (rule distinct_map_filter)
  then show "distinct (map event_id tried)"
    unfolding eq s(1) using map_mono_prefix[OF upto_failure_prefix] by (metis distinct_append prefix_def)
  show "b_outbox_inflight b' = b_outbox_inflight b" using eq s(2) by simp
  show "\<exists>ob'. good b' ob' \<and> ids ob1 - confirmed_ids res tried \<subseteq> ids ob' \<and> ids ob' \<subseteq> ids ob"
    using f s(4,5) due(1) eq by blast
qed

text \<open>Shutting down loses nothing either: what the last pass could not confirm stays stored.\<close>

lemma stop_relay_spec:
  assumes "good b ob" "b_has_backend b" "ob_due ops now (b_relay_batch b) ob = (Inr rows, ob1)"
    and "stop_relay ops now res b = (tried, b')"
  shows "\<exists>ob'. good b' ob' \<and> ids ob1 - confirmed_ids res tried \<subseteq> ids ob' \<and> ids ob' \<subseteq> ids ob"
proof -
  obtain t b1 where r: "relay_once ops now res b = (t, b1)" by force
  from relay_once_spec(5)[OF assms(1-3) r] obtain ob' where
    ob': "good b1 ob'" "ids ob1 - confirmed_ids res t \<subseteq> ids ob'" "ids ob' \<subseteq> ids ob" by blast
  have "tried = t" "b' = b1\<lparr>b_outbox := map_option (ob_close ops) (b_outbox b1)\<rparr>"
    using assms(1,4) r by (simp_all add: stop_relay_def good_def)
  moreover from this have "good b' (ob_close ops ob')" using ob'(1) inv_close[of ob'] by (simp add: good_def)
  ultimately show ?thesis using ob'(2,3) close_ids[of ob'] by (metis (no_types))
qed

text \<open>Publish writes ahead: it is in the store, or the failed append was counted, or publish raised.\<close>

lemma publish_prepare_durable:
  assumes "good b ob" "b_has_backend b" "publish_prepare ops now e b = (None, b')"
  shows "(\<exists>ob'. good b' ob' \<and> event_id e \<in> ids ob' \<and> inflight_id b' (event_id e)) \<or>
    outbox_append_failed (b_stats b') = Suc (outbox_append_failed (b_stats b))"
proof -
  obtain r ob' where a: "ob_append ops now e ob = (r, ob')" by force
  have "inv ob'" "r = None \<Longrightarrow> event_id e \<in> ids ob'"
    using inv_append[of ob now e] append_ok[of ob now e] assms(1) a by (auto simp: good_def)
  then show ?thesis
    using assms a by (cases r) (auto simp: publish_prepare_def good_def inflight_id_def inflight_add_def Let_def
      split: if_splits py_exc.splits)
qed

lemma publish_prepare_full:
  assumes "good b ob" "publish_prepare ops now e b = (Some x, b')"
  shows "(x = BusClosedError \<and> b' = b) \<or>
    (x = OutboxFullError \<and> (\<exists>ob'. good b' ob' \<and> ids ob' = ids ob) \<and> b_tasks b' = b_tasks b \<and> b_queues b' = b_queues b)"
proof -
  obtain r ob' where a: "ob_append ops now e ob = (r, ob')" by force
  have "inv ob'" "r = Some OutboxFullError \<Longrightarrow> ids ob' = ids ob"
    using inv_append[of ob now e] append_full[of ob now e] assms(1) a by (auto simp: good_def)
  then show ?thesis
    using assms a by (cases r) (auto simp: publish_prepare_def good_def Let_def split: if_splits py_exc.splits)
qed

end

end
