(* ===== verification/SqliteOutbox.thy ===== *)
theory SqliteOutbox
  imports Relay
begin

text \<open>
  \<open>SqliteOutbox\<close> of outbox.py.  The table \<open>evb_outbox\<close> is the list of its rows in insertion order,
  each SQL statement of the module the list operation it denotes; \<open>ORDER BY created_at\<close> is the
  stable sort, so rows appended at one instant keep their insertion order.  The text column is
  represented by the dictionary \<open>json.loads\<close> gives back for it.  The cached row count and the lazy
  connection are kept as the code keeps them.  The file lock, threads and sqlite's own failures
  (a full disk) are outside the model.
\<close>

record outbox_row =
  row_id :: string
  row_topic :: string
  row_envelope :: pydict
  row_created :: real
  row_attempts :: nat
  row_next_try :: real
  row_error :: "string option"

record outbox =
  ox_rows :: "outbox_row list"
  ox_conn :: bool
  ox_closed :: bool
  ox_pending :: nat
  ox_max_rows :: int
  ox_max_age :: real
  ox_overflow :: string
  ox_expired :: nat
  ox_dropped :: nat
  ox_rejected :: nat
  ox_corrupt :: nat

definition outbox_new :: "outbox_row list \<Rightarrow> int \<Rightarrow> real \<Rightarrow> string \<Rightarrow> outbox result" where
  "outbox_new rows max_rows max_age overflow =
     (if overflow \<noteq> ''reject_new'' \<and> overflow \<noteq> ''drop_oldest''
      then Inl (ValueError ''Unknown outbox overflow policy'')
      else Inr \<lparr>ox_rows = rows, ox_conn = False, ox_closed = False, ox_pending = 0,
                ox_max_rows = max_rows, ox_max_age = max_age, ox_overflow = overflow,
                ox_expired = 0, ox_dropped = 0, ox_rejected = 0, ox_corrupt = 0\<rparr>)"

text \<open>\<open>json.dumps\<close> raises on a value that JSON has no form for.\<close>

fun json_ok :: "pyval \<Rightarrow> bool" where
  "json_ok (PDate d) = False"
| "json_ok (PList xs) = (\<forall>x \<in> set xs. json_ok x)"
| "json_ok (PDict d) = (\<forall>(k, x) \<in> set d. json_ok x)"
| "json_ok v = True"

definition ensure_conn :: "outbox \<Rightarrow> outbox" where
  "ensure_conn s =
     (if ox_conn s then s else s\<lparr>ox_conn := True, ox_pending := length (ox_rows s)\<rparr>)"

definition oldest_id :: "outbox_row list \<Rightarrow> string option" where
  "oldest_id rows = (case sort_key row_created rows of [] \<Rightarrow> None | r # _ \<Rightarrow> Some (row_id r))"

definition delete_id :: "string \<Rightarrow> outbox_row list \<Rightarrow> outbox_row list" where
  "delete_id i rows = filter (\<lambda>r. row_id r \<noteq> i) rows"

definition has_id :: "string \<Rightarrow> outbox_row list \<Rightarrow> bool" where
  "has_id i rows \<longleftrightarrow> (\<exists>r \<in> set rows. row_id r = i)"

text \<open>The \<open>drop_oldest\<close> branch: delete the oldest row, if there is one.\<close>

definition drop_oldest_row :: "outbox \<Rightarrow> outbox" where
  "drop_oldest_row s =
     (case oldest_id (ox_rows s) of
        None \<Rightarrow> s
      | Some i \<Rightarrow>
          (let rows = delete_id i (ox_rows s); k = length (ox_rows s) - length rows
           in s\<lparr>ox_rows := rows, ox_pending := ox_pending s - k, ox_dropped := ox_dropped s + k\<rparr>))"

text \<open>\<open>INSERT OR IGNORE\<close>.\<close>

definition insert_row :: "real \<Rightarrow> envelope \<Rightarrow> outbox \<Rightarrow> outbox" where
  "insert_row now e s =
     (if has_id (event_id e) (ox_rows s) then s
      else s\<lparr>ox_rows := ox_rows s @
               [\<lparr>row_id = event_id e, row_topic = topic e, row_envelope = to_dict e, row_created = now,
                 row_attempts = 0, row_next_try = now, row_error = None\<rparr>],
             ox_pending := Suc (ox_pending s)\<rparr>)"

definition sync_append :: "real \<Rightarrow> envelope \<Rightarrow> outbox \<Rightarrow> py_exc option \<times> outbox" where
  "sync_append now e s =
     (let full = int (ox_pending s) \<ge> ox_max_rows s in
      if full \<and> ox_overflow s = ''reject_new'' then
        (Some OutboxFullError, s\<lparr>ox_rejected := Suc (ox_rejected s)\<rparr>)
      else
        (let s1 = (if full then drop_oldest_row s else s)
         in if json_ok (PDict (to_dict e)) then (None, insert_row now e s1)
            else (Some (TypeError ''not JSON serializable''), s1)))"

definition sync_ack :: "string \<Rightarrow> outbox \<Rightarrow> outbox" where
  "sync_ack i s =
     (let rows = delete_id i (ox_rows s)
      in s\<lparr>ox_rows := rows, ox_pending := ox_pending s - (length (ox_rows s) - length rows)\<rparr>)"

definition sync_nack :: "string \<Rightarrow> string \<Rightarrow> real \<Rightarrow> outbox \<Rightarrow> outbox" where
  "sync_nack i err t s =
     s\<lparr>ox_rows := map (\<lambda>r. if row_id r = i
         then r\<lparr>row_attempts := Suc (row_attempts r), row_error := Some err, row_next_try := t\<rparr> else r)
       (ox_rows s)\<rparr>"

definition purge_expired :: "real \<Rightarrow> outbox \<Rightarrow> outbox" where
  "purge_expired now s =
     (let rows = filter (\<lambda>r. \<not> row_created r < now - ox_max_age s) (ox_rows s);
          k = length (ox_rows s) - length rows
      in s\<lparr>ox_rows := rows, ox_pending := ox_pending s - k, ox_expired := ox_expired s + k\<rparr>)"

text \<open>Rows that do not decode are deleted and counted.\<close>

fun decode_rows :: "outbox_row list \<Rightarrow> outbox \<Rightarrow> envelope list \<times> outbox" where
  "decode_rows [] s = ([], s)"
| "decode_rows (r # rs) s =
     (case from_dict [] (row_envelope r) of
        Inr e \<Rightarrow> (case decode_rows rs s of (es, s') \<Rightarrow> (e # es, s'))
      | Inl _ \<Rightarrow>
          (let rows = delete_id (row_id r) (ox_rows s); k = length (ox_rows s) - length rows
           in decode_rows rs
                (s\<lparr>ox_rows := rows, ox_pending := ox_pending s - k, ox_corrupt := ox_corrupt s + k\<rparr>)))"

definition due_rows :: "real \<Rightarrow> nat \<Rightarrow> outbox_row list \<Rightarrow> outbox_row list" where
  "due_rows now limit rows = take limit (sort_key row_created (filter (\<lambda>r. row_next_try r \<le> now) rows))"

definition sync_due :: "real \<Rightarrow> nat \<Rightarrow> outbox \<Rightarrow> envelope list \<times> outbox" where
  "sync_due now limit s =
     (let s1 = purge_expired now s in decode_rows (due_rows now limit (ox_rows s1)) s1)"

definition outbox_close :: "outbox \<Rightarrow> outbox" where
  "outbox_close s = s\<lparr>ox_conn := False, ox_closed := True\<rparr>"

text \<open>
  The public operations: every call runs on the store's executor, which refuses work once the
  store is closed, and first opens the connection.
\<close>

definition executor_gone :: py_exc where
  "executor_gone = RuntimeError ''cannot schedule new futures after shutdown''"

definition sqlite_ops :: "outbox outbox_ops" where
  "sqlite_ops =
     \<lparr>ob_append = (\<lambda>now e s. if ox_closed s then (Some executor_gone, s) else sync_append now e (ensure_conn s)),
      ob_ack = (\<lambda>i s. if ox_closed s then (Some executor_gone, s) else (None, sync_ack i (ensure_conn s))),
      ob_nack = (\<lambda>i err t s. if ox_closed s then (Some executor_gone, s) else (None, sync_nack i err t (ensure_conn s))),
      ob_due = (\<lambda>now n s. if ox_closed s then (Inl executor_gone, s)
                 else (case sync_due now n (ensure_conn s) of (es, s') \<Rightarrow> (Inr es, s'))),
      ob_pending = (\<lambda>s. if ox_closed s then (Inl executor_gone, s)
                 else (Inr (ox_pending (ensure_conn s)), ensure_conn s)),
      ob_close = outbox_close\<rparr>"

subsection \<open>Invariant\<close>

definition row_ok :: "outbox_row \<Rightarrow> bool" where
  "row_ok r \<longleftrightarrow> dict_get (row_envelope r) ''event_id'' = Some (PStr (row_id r))"

definition outbox_ids :: "outbox \<Rightarrow> string set" where
  "outbox_ids s = row_id ` set (ox_rows s)"

definition outbox_inv :: "outbox \<Rightarrow> bool" where
  "outbox_inv s \<longleftrightarrow>
     distinct (map row_id (ox_rows s)) \<and> (\<forall>r \<in> set (ox_rows s). row_ok r) \<and>
     (ox_conn s \<longrightarrow> ox_pending s = length (ox_rows s))"

lemma ensure_conn_inv [simp]: "outbox_inv s \<Longrightarrow> outbox_inv (ensure_conn s)"
  by (auto simp: outbox_inv_def ensure_conn_def)

lemma ensure_conn_simps [simp]:
  "ox_rows (ensure_conn s) = ox_rows s" "ox_conn (ensure_conn s)" "ox_closed (ensure_conn s) = ox_closed s"
  "ox_max_rows (ensure_conn s) = ox_max_rows s" "ox_overflow (ensure_conn s) = ox_overflow s"
  "outbox_ids (ensure_conn s) = outbox_ids s"
  by (auto simp: ensure_conn_def outbox_ids_def)

text \<open>Every deletion of the module keeps the rows a predicate selects and lowers the count by the rest.\<close>

lemma inv_filter:
  assumes "outbox_inv s" "ox_conn s"
    and "s' = s\<lparr>ox_rows := filter P (ox_rows s),
               ox_pending := ox_pending s - (length (ox_rows s) - length (filter P (ox_rows s))),
               ox_expired := a, ox_dropped := b, ox_corrupt := c\<rparr>"
  shows "outbox_inv s' \<and> ox_conn s'"
proof -
  have "length (ox_rows s) - (length (ox_rows s) - length (filter P (ox_rows s))) = length (filter P (ox_rows s))"
    using length_filter_le[of P "ox_rows s"] by simp
  then show ?thesis using assms by (auto simp: outbox_inv_def distinct_map_filter)
qed

lemma outbox_ids_delete [simp]: "row_id ` set (delete_id i rows) = row_id ` set rows - {i}"
  by (auto simp: delete_id_def)


subsection \<open>Every operation keeps the invariant\<close>

lemma has_id_ids: "has_id i rows \<longleftrightarrow> i \<in> row_id ` set rows"
  by (auto simp: has_id_def)

lemma row_ok_new [simp]: "row_ok \<lparr>row_id = event_id e, row_topic = tp, row_envelope = to_dict e, row_created = a,
    row_attempts = k, row_next_try = n, row_error = x\<rparr>"
  by (simp add: row_ok_def to_dict_def)

definition live :: "outbox \<Rightarrow> bool" where
  "live s \<longleftrightarrow> outbox_inv s \<and> ox_conn s"

lemma live_filter:
  "live s \<Longrightarrow> s' = s\<lparr>ox_rows := filter P (ox_rows s),
      ox_pending := ox_pending s - (length (ox_rows s) - length (filter P (ox_rows s))),
      ox_expired := a, ox_dropped := b, ox_corrupt := c\<rparr> \<Longrightarrow> live s'"
  using inv_filter[of s s'] by (simp add: live_def)

lemma live_ensure [simp]: "outbox_inv s \<Longrightarrow> live (ensure_conn s)"
  by (simp add: live_def)

lemma live_delete [simp]:
  assumes "live s"
  shows "live (s\<lparr>ox_rows := delete_id i (ox_rows s),
      ox_pending := ox_pending s - (length (ox_rows s) - length (delete_id i (ox_rows s))), ox_corrupt := c\<rparr>)"
    "live (s\<lparr>ox_rows := delete_id i (ox_rows s),
      ox_pending := ox_pending s - (length (ox_rows s) - length (delete_id i (ox_rows s))), ox_dropped := c\<rparr>)"
    "live (s\<lparr>ox_rows := delete_id i (ox_rows s),
      ox_pending := ox_pending s - (length (ox_rows s) - length (delete_id i (ox_rows s)))\<rparr>)"
  by (rule live_filter[OF assms, where P = "\<lambda>r. row_id r \<noteq> i"],
      rule outbox.equality; simp add: delete_id_def)+

lemma live_drop_oldest: "live s \<Longrightarrow> live (drop_oldest_row s)"
  by (auto simp: drop_oldest_row_def Let_def split: option.split)

lemma live_insert: "live s \<Longrightarrow> live (insert_row now e s)"
  by (auto simp: insert_row_def live_def outbox_inv_def has_id_def)

lemma live_append: "live s \<Longrightarrow> live (snd (sync_append now e s))"
  by (auto simp: sync_append_def Let_def live_drop_oldest live_insert)
    (auto simp: live_def outbox_inv_def)

lemma live_ack: "live s \<Longrightarrow> live (sync_ack i s)"
  by (simp add: sync_ack_def Let_def)

text \<open>An update that leaves the id and the text of every row alone.\<close>

lemma live_update:
  assumes "live s" "\<And>r. row_id (f r) = row_id r" "\<And>r. row_envelope (f r) = row_envelope r"
  shows "live (s\<lparr>ox_rows := map f (ox_rows s)\<rparr>)"
proof -
  have "map row_id (map f (ox_rows s)) = map row_id (ox_rows s)" using assms(2) by simp
  moreover have "\<forall>r \<in> set (map f (ox_rows s)). row_ok r"
    using assms by (auto simp: row_ok_def live_def outbox_inv_def)
  ultimately show ?thesis using assms(1) by (simp add: live_def outbox_inv_def del: map_map)
qed

lemma live_nack: "live s \<Longrightarrow> live (sync_nack i err t s)"
  unfolding sync_nack_def by (rule live_update) auto

lemma live_purge: "live s \<Longrightarrow> live (purge_expired now s)"
  by (rule live_filter[where P = "\<lambda>r. \<not> row_created r < now - ox_max_age s"], assumption)
    (rule outbox.equality; simp add: purge_expired_def Let_def)

lemma live_decode: "live s \<Longrightarrow> live (snd (decode_rows rs s))"
  by (induction rs s rule: decode_rows.induct) (auto simp: Let_def split: sum.splits prod.splits)

subsection \<open>What every operation does to the stored ids\<close>

lemma ids_drop_oldest: "outbox_ids (drop_oldest_row s) \<subseteq> outbox_ids s"
  by (auto simp: drop_oldest_row_def outbox_ids_def delete_id_def Let_def split: option.split)

lemma ids_insert [simp]: "outbox_ids (insert_row now e s) = insert (event_id e) (outbox_ids s)"
  by (auto simp: insert_row_def outbox_ids_def has_id_ids)

lemma append_ok_sq:
  "fst (sync_append now e s) = None \<Longrightarrow> event_id e \<in> outbox_ids (snd (sync_append now e s))"
  by (auto simp: sync_append_def Let_def split: if_splits)

lemma append_sub_sq: "outbox_ids (snd (sync_append now e s)) \<subseteq> insert (event_id e) (outbox_ids s)"
proof -
  have "outbox_ids (s\<lparr>ox_rejected := k\<rparr>) = outbox_ids s" for k by (simp add: outbox_ids_def)
  then show ?thesis using ids_drop_oldest[of s] by (auto simp: sync_append_def Let_def)
qed

lemma append_full_sq:
  "fst (sync_append now e s) = Some OutboxFullError \<Longrightarrow> outbox_ids (snd (sync_append now e s)) = outbox_ids s"
  by (auto simp: sync_append_def Let_def outbox_ids_def split: if_splits)

lemma ids_ack [simp]: "outbox_ids (sync_ack i s) = outbox_ids s - {i}"
  by (simp add: sync_ack_def outbox_ids_def Let_def)

lemma ids_nack [simp]: "outbox_ids (sync_nack i err t s) = outbox_ids s"
proof -
  have "map row_id (ox_rows (sync_nack i err t s)) = map row_id (ox_rows s)"
    by (simp add: sync_nack_def)
  then have "set (map row_id (ox_rows (sync_nack i err t s))) = set (map row_id (ox_rows s))" by (rule arg_cong)
  then show ?thesis by (simp add: outbox_ids_def del: image_cong)
qed

lemma nack_next_try: "\<forall>r \<in> set (ox_rows (sync_nack i x t s)). row_id r = i \<longrightarrow> row_next_try r = t"
proof
  fix r assume "r \<in> set (ox_rows (sync_nack i x t s))"
  then have "r \<in> (\<lambda>r. if row_id r = i then r\<lparr>row_attempts := Suc (row_attempts r), row_error := Some x,
      row_next_try := t\<rparr> else r) ` set (ox_rows s)"
    unfolding sync_nack_def set_map[symmetric] by simp
  then show "row_id r = i \<longrightarrow> row_next_try r = t" by (elim imageE) simp
qed

lemma ids_purge: "outbox_ids (purge_expired now s) \<subseteq> outbox_ids s"
  by (auto simp: purge_expired_def outbox_ids_def Let_def)

lemma ids_decode: "outbox_ids (snd (decode_rows rs s)) \<subseteq> outbox_ids s"
proof (induction rs s rule: decode_rows.induct)
  case (2 r rs s)
  have "outbox_ids (s\<lparr>ox_rows := delete_id (row_id r) (ox_rows s), ox_pending := a, ox_corrupt := c\<rparr>) \<subseteq> outbox_ids s" for a c
    by (auto simp: outbox_ids_def)
  with 2 show ?case by (fastforce simp: Let_def split: sum.splits prod.splits)
qed simp

text \<open>A row that decodes gives an envelope with the row's own id.\<close>

lemma decoded_id: "row_ok r \<Longrightarrow> from_dict [] (row_envelope r) = Inr e \<Longrightarrow> event_id e = row_id r"
  unfolding from_dict_def row_ok_def by (auto simp: bind_r_Inr_iff post_init_def get_or_def split: if_splits)

lemma decode_facts:
  assumes "\<forall>r \<in> set rs. row_ok r" "distinct (map row_id rs)" "row_id ` set rs \<subseteq> outbox_ids s"
  shows "event_id ` set (fst (decode_rows rs s)) \<subseteq> outbox_ids (snd (decode_rows rs s)) \<inter> row_id ` set rs \<and>
    distinct (map event_id (fst (decode_rows rs s))) \<and>
    length (fst (decode_rows rs s)) \<le> length rs \<and>
    outbox_ids s - row_id ` set rs \<subseteq> outbox_ids (snd (decode_rows rs s))"
  using assms
proof (induction rs s rule: decode_rows.induct)
  case (2 r rs s)
  show ?case
  proof (cases "from_dict [] (row_envelope r)")
    case (Inl x)
    let ?s = "s\<lparr>ox_rows := delete_id (row_id r) (ox_rows s),
      ox_pending := ox_pending s - (length (ox_rows s) - length (delete_id (row_id r) (ox_rows s))),
      ox_corrupt := ox_corrupt s + (length (ox_rows s) - length (delete_id (row_id r) (ox_rows s)))\<rparr>"
    have ids: "outbox_ids ?s = outbox_ids s - {row_id r}" by (simp add: outbox_ids_def)
    have fresh: "row_id r \<notin> row_id ` set rs" using 2(4) by simp
    have "row_id ` set rs \<subseteq> outbox_ids ?s" unfolding ids using 2(5) fresh by (simp add: subset_Diff_insert)
    moreover have "\<forall>r \<in> set rs. row_ok r" "distinct (map row_id rs)" using 2(3,4) by simp_all
    ultimately have IH: "event_id ` set (fst (decode_rows rs ?s)) \<subseteq> outbox_ids (snd (decode_rows rs ?s)) \<inter> row_id ` set rs \<and>
        distinct (map event_id (fst (decode_rows rs ?s))) \<and> length (fst (decode_rows rs ?s)) \<le> length rs \<and>
        outbox_ids ?s - row_id ` set rs \<subseteq> outbox_ids (snd (decode_rows rs ?s))"
      using "2.IH"(1)[OF Inl refl refl] by blast
    have "decode_rows (r # rs) s = decode_rows rs ?s" using Inl by (simp add: Let_def)
    moreover obtain es s' where "decode_rows rs ?s = (es, s')" by force
    ultimately show ?thesis using IH unfolding ids by auto
  next
    case (Inr e)
    have e: "event_id e = row_id r" using decoded_id[OF _ Inr] 2(3) by simp
    obtain es s' where ds: "decode_rows rs s = (es, s')" by force
    have IH: "event_id ` set es \<subseteq> outbox_ids s' \<inter> row_id ` set rs" "distinct (map event_id es)"
      "length es \<le> length rs" "outbox_ids s - row_id ` set rs \<subseteq> outbox_ids s'"
      using "2.IH"(2)[OF Inr] 2(3-5) ds by auto
    have "row_id r \<in> outbox_ids s'" using IH(4) 2(4,5) by auto
    then show ?thesis using IH e ds Inr 2(4) by auto
  qed
qed simp

lemma due_rows_sub: "set (due_rows now n rows) \<subseteq> set rows"
  unfolding due_rows_def by (auto dest: in_set_takeD)

lemma due_rows_distinct: "distinct (map row_id rows) \<Longrightarrow> distinct (map row_id (due_rows now n rows))"
proof -
  assume "distinct (map row_id rows)"
  then have "distinct (map row_id (sort_key row_created (filter (\<lambda>r. row_next_try r \<le> now) rows)))"
    by (auto simp: distinct_map intro: inj_on_subset)
  then show ?thesis unfolding due_rows_def take_map[symmetric] by (rule distinct_take)
qed

lemma due_facts:
  assumes "live s"
  shows "event_id ` set (fst (sync_due now n s)) \<subseteq> outbox_ids (snd (sync_due now n s)) \<and>
    distinct (map event_id (fst (sync_due now n s))) \<and> length (fst (sync_due now n s)) \<le> n \<and>
    live (snd (sync_due now n s)) \<and> outbox_ids (snd (sync_due now n s)) \<subseteq> outbox_ids s"
proof -
  define s1 where "s1 = purge_expired now s"
  define rs where "rs = due_rows now n (ox_rows s1)"
  have l: "live s1" unfolding s1_def by (rule live_purge[OF assms])
  have r: "\<forall>r \<in> set rs. row_ok r" "distinct (map row_id rs)" "row_id ` set rs \<subseteq> outbox_ids s1" "length rs \<le> n"
    using l due_rows_sub[of now n "ox_rows s1"] due_rows_distinct[of "ox_rows s1" now n]
    unfolding rs_def live_def outbox_inv_def outbox_ids_def by (auto simp: due_rows_def)
  have d: "sync_due now n s = decode_rows rs s1" by (simp add: sync_due_def rs_def s1_def Let_def)
  show ?thesis
    unfolding d using decode_facts[OF r(1-3)] r(4) live_decode[OF l, of rs] ids_decode[of rs s1]
      ids_purge[of now s] s1_def by auto
qed

lemma live_inv: "live s \<Longrightarrow> outbox_inv s"
  by (simp add: live_def)

lemma due_sq:
  assumes "outbox_inv s" "ob_due sqlite_ops now n s = (Inr es, s')"
  shows "event_id ` set es \<subseteq> outbox_ids s' \<and> distinct (map event_id es) \<and> length es \<le> n \<and>
    outbox_inv s' \<and> outbox_ids s' \<subseteq> outbox_ids s"
  using due_facts[OF live_ensure[OF assms(1)], of now n] assms(2)
  by (auto simp: sqlite_ops_def live_inv split: if_splits prod.splits)

lemma due_closed: "ob_due sqlite_ops now n s = (Inl x, s') \<Longrightarrow> s' = s"
  by (simp add: sqlite_ops_def split: if_splits prod.splits)

lemma pending_count_sq: "outbox_inv s \<Longrightarrow> ox_pending (ensure_conn s) = card (outbox_ids s)"
  using live_ensure[of s] by (auto simp: live_def outbox_inv_def outbox_ids_def card_image distinct_card distinct_map)

lemmas sqlite_inv = live_inv[OF live_append] live_inv[OF live_ack] live_inv[OF live_nack]

lemma due_cases_sq:
  assumes "outbox_inv s"
  shows "outbox_inv (snd (ob_due sqlite_ops now n s)) \<and> outbox_ids (snd (ob_due sqlite_ops now n s)) \<subseteq> outbox_ids s"
proof (cases "ob_due sqlite_ops now n s")
  case (Pair r s')
  then show ?thesis using due_sq[OF assms, of now n] due_closed[of now n s] assms by (cases r) auto
qed

lemma append_sq:
  "outbox_inv s \<Longrightarrow> outbox_ids (snd (ob_append sqlite_ops now e s)) \<subseteq> insert (event_id e) (outbox_ids s)"
  using append_sub_sq[of now e "ensure_conn s"] by (simp add: sqlite_ops_def subset_insertI)

interpretation sq: outbox_store sqlite_ops outbox_ids outbox_inv
proof (unfold_locales, goal_cases)
  case (4 s now n)
  then show ?case using due_cases_sq by blast
next
  case (7 s now e)
  then show ?case by (rule append_sq)
next
  case (8 s now e)
  then show ?case by (auto simp: sqlite_ops_def executor_gone_def append_full_sq split: if_splits)
next
  case (12 s now n)
  then show ?case using due_cases_sq by blast
next
  case (13 s now n es)
  then show ?case using due_sq[of s now n es "snd (ob_due sqlite_ops now n s)"] by (metis prod.collapse)
next
  case (14 s now n es)
  then show ?case using due_sq[of s now n es "snd (ob_due sqlite_ops now n s)"] by (metis prod.collapse)
next
  case (15 s now n es)
  then show ?case using due_sq[of s now n es "snd (ob_due sqlite_ops now n s)"] by (metis prod.collapse)
next
  case (17 s k)
  then show ?case by (auto simp: sqlite_ops_def pending_count_sq split: if_splits)
next
  case (18 s)
  then show ?case by (simp add: sqlite_ops_def outbox_close_def outbox_inv_def)
next
  case (19 s)
  show ?case by (simp add: sqlite_ops_def outbox_close_def outbox_ids_def)
qed (auto simp: sqlite_ops_def executor_gone_def sqlite_inv append_ok_sq split: if_splits)

end
