(* ===== verification/Samples.thy ===== *)
theory Samples
  imports BusRun SqliteOutbox
begin

text \<open>
  Concrete values the witnesses of the properties evaluate on: a small envelope, a
  configuration with queues of two, an outbox of two rows, and the bus over them.
\<close>

definition sample_time :: py_datetime where
  "sample_time = \<lparr>dt_year = 2024, dt_month = 5, dt_day = 17, dt_hour = 10, dt_minute = 30, dt_second = 15,
     dt_micro = 250, dt_utcoff = Some 0\<rparr>"

definition sample_event :: "string \<Rightarrow> string \<Rightarrow> event_priority \<Rightarrow> envelope" where
  "sample_event i t p = \<lparr>topic = t, payload = PDict [(''n'', PInt 1)], event_id = i, timestamp = sample_time,
     source = None, severity = INFO, priority = p, correlation_id = None, trace_context = PNone,
     metadata = PDict [], schema_version = 1\<rparr>"

definition sample_cfg :: "string \<Rightarrow> bus_config" where
  "sample_cfg policy = \<lparr>cfg_workers = 2, cfg_queue_size = 2, cfg_retry_attempts = 3, cfg_retry_base_delay = 1,
     cfg_backpressure = [], cfg_default_backpressure = policy, cfg_on_dlq = True,
     cfg_relay_interval = 5, cfg_relay_batch = 10, cfg_relay_max_backoff = 300\<rparr>"

definition sample_gen :: gen where
  "sample_gen = \<lparr>uuid4 = (\<lambda>n. replicate n (CHR ''u'')), utcnow = (\<lambda>_. sample_time)\<rparr>"

definition sample_row :: "string \<Rightarrow> real \<Rightarrow> outbox_row" where
  "sample_row i t = \<lparr>row_id = i, row_topic = ''t'', row_envelope = to_dict (sample_event i ''t'' NORMAL),
     row_created = t, row_attempts = 0, row_next_try = t, row_error = None\<rparr>"

definition sample_outbox :: "string \<Rightarrow> outbox_row list \<Rightarrow> outbox" where
  "sample_outbox overflow rows = \<lparr>ox_rows = rows, ox_conn = True, ox_closed = False, ox_pending = length rows,
     ox_max_rows = 2, ox_max_age = 1000, ox_overflow = overflow, ox_expired = 0, ox_dropped = 0,
     ox_rejected = 0, ox_corrupt = 0\<rparr>"

definition sample_bus :: "string \<Rightarrow> outbox option \<Rightarrow> outbox bus" where
  "sample_bus policy ob = projr (bus_new (sample_cfg policy) (ob \<noteq> None) ob False)"

definition sample_sub :: "string \<Rightarrow> string \<Rightarrow> int \<Rightarrow> nat \<Rightarrow> subscription" where
  "sample_sub i pattern prio fails = \<lparr>sub_pattern = pattern, sub_id = i, sub_priority = prio, sub_filter = None,
     sub_min_severity = None, sub_handler = (\<lambda>a e. if a \<le> fails then Some (''ValueError'', ''x'') else None)\<rparr>"

lemmas sample_defs = sample_time_def sample_event_def sample_cfg_def sample_gen_def sample_row_def
  sample_outbox_def sample_sub_def

lemma sample_bus_eq: "p \<in> set VALID_POLICIES \<Longrightarrow> bus_new (sample_cfg p) (ob \<noteq> None) ob False = Inr (sample_bus p ob)"
  by (auto simp: sample_bus_def bus_new_def sample_cfg_def)

lemma sample_bus_fields [simp]:
  assumes "p \<in> set VALID_POLICIES"
  shows "b_queue_size (sample_bus p ob) = 2" "b_queues (sample_bus p ob) = (\<lambda>_. [])"
    "b_retry_attempts (sample_bus p ob) = 3" "b_retry_base_delay (sample_bus p ob) = 1"
    "b_has_backend (sample_bus p ob) \<longleftrightarrow> ob \<noteq> None" "b_outbox (sample_bus p ob) = ob"
    "b_subscriptions (sample_bus p ob) = []" "b_pattern_subscriptions (sample_bus p ob) = []"
    "b_fanned_out (sample_bus p ob) = []" "b_outbox_inflight (sample_bus p ob) = []"
    "b_relay_batch (sample_bus p ob) = 10" "b_items (sample_bus p ob) = 0" "\<not> b_closing (sample_bus p ob)"
    "b_on_dlq (sample_bus p ob)" "b_backpressure (sample_bus p ob) = []" "b_default_backpressure (sample_bus p ob) = p"
    "b_outbox_attempts (sample_bus p ob) = []" "b_relay_interval (sample_bus p ob) = 5"
    "b_relay_max_backoff (sample_bus p ob) = 300" "b_putters (sample_bus p ob) = (\<lambda>_. [])"
  using assms by (auto simp: sample_bus_def bus_new_def sample_cfg_def)

lemma policies_valid [simp]: "''block'' \<in> set VALID_POLICIES" "''drop_oldest'' \<in> set VALID_POLICIES"
    "''reject'' \<in> set VALID_POLICIES"
  by (simp_all add: VALID_POLICIES_def POLICY_BLOCK_def POLICY_DROP_OLDEST_def POLICY_REJECT_def)

lemma sample_outbox_inv: "distinct (map row_id rows) \<Longrightarrow> \<forall>r \<in> set rows. row_ok r \<Longrightarrow> outbox_inv (sample_outbox p rows)"
  by (simp add: sample_outbox_def outbox_inv_def)

lemma sample_row_ok [simp]: "row_ok (sample_row i t)" "row_id (sample_row i t) = i"
  by (simp_all add: sample_row_def sample_event_def row_ok_def to_dict_def)

lemma sample_outbox_ids [simp]: "outbox_ids (sample_outbox p rows) = row_id ` set rows"
  by (simp add: sample_outbox_def outbox_ids_def)

lemma sample_outbox_two [simp]:
  "outbox_inv (sample_outbox p [sample_row ''a'' s, sample_row ''b'' t])"
  by (rule sample_outbox_inv) auto

lemma sample_wf [simp]: "wf_envelope (sample_event i t p)"
  by (simp add: wf_envelope_def sample_event_def sample_time_def valid_dt_def dt_aware_def days_in_month_def)

lemma sample_decode [simp]: "from_dict u (to_dict (sample_event i t p)) = Inr (sample_event i t p)"
  using from_dict_to_dict[OF sample_wf, of u i t p] by (simp add: sample_event_def ENVELOPE_SCHEMA_VERSION_def)

lemma sample_events [simp]: "event_id (sample_event i t p) = i" "topic (sample_event i t p) = t"
    "priority (sample_event i t p) = p"
  by (simp_all add: sample_event_def)

end
