(* ===== verification/BusProps.thy ===== *)
theory BusProps
  imports Samples
begin

text \<open>
  The properties of the bus core: what holds of every state any interleaving of its operations
  reaches, what a dispatch does, and what the durable publish path promises with the SQLite store.
\<close>

subsection \<open>Reachable states\<close>

text \<open>C1: in every state reachable from a fresh bus by any interleaving of its operations, no
  priority queue exceeds the configured size, every queue holds only envelopes of its own priority,
  there is a semaphore permit for every queued envelope, the echo memory is duplicate free and
  bounded by its cap, and the subscription tables are sorted by descending priority.\<close>

theorem reachable_bus_safe:
  assumes "bus_new c hb ob po = Inr b0" "bus_reach G ops b0 b"
  shows "(0 < b_queue_size b \<longrightarrow> (\<forall>p. int (length (b_queues b p)) \<le> b_queue_size b)) \<and>
    (\<forall>p. \<forall>e \<in> set (b_queues b p). priority e = p) \<and> queued b \<le> b_items b \<and>
    distinct (b_fanned_out b) \<and> length (b_fanned_out b) \<le> FANOUT_ECHO_CAP \<and> subs_sorted b"
  using bus_reach_inv[OF assms(2) bus_new_inv[OF assms(1)]]
  by (simp add: bus_inv_def queue_inv_def fanout_inv_def)

abbreviation one_queued :: "outbox bus" where
  "one_queued \<equiv> snd (publish_commit sample_gen False (sample_event ''a'' ''t'' HIGH) (sample_bus ''block'' None))"

lemma one_queued_reach: "bus_reach sample_gen sqlite_ops (sample_bus ''block'' None) one_queued"
  by (rule reach_step[OF reach_init]) (rule st_commit)

lemma one_queued_queue: "b_queues one_queued HIGH = [sample_event ''a'' ''t'' HIGH]"
  by (simp add: publish_commit_def enqueue_local_def q_full_def enqueue_def sample_event_def)

lemma sample_new: "bus_new (sample_cfg ''block'') False None False = Inr (sample_bus ''block'' None)"
  using sample_bus_eq[of "''block''" None] by simp

theorem reachable_bus_safe_witness:
  "int (length (b_queues one_queued HIGH)) \<le> b_queue_size one_queued"
proof -
  have "b_queue_size one_queued = 2"
    by (simp add: publish_commit_def enqueue_local_def q_full_def enqueue_def)
  then show ?thesis
    using reachable_bus_safe[OF sample_new one_queued_reach] by (simp del: of_nat_le_iff)
qed



subsection \<open>Dispatch\<close>

text \<open>C4: a dispatch runs every matching subscription that accepts the envelope, in descending
  subscriber priority, and what one of them does (calls, retries, backoff, dead letter) is the same
  whatever the others do: a failing subscriber never affects another.\<close>

theorem dispatch_isolated:
  "fst (dispatch G m e b) = concat (map (\<lambda>s. if accepts s e
      then fst (invoke_with_retry G (m \<or> is_meta_topic (topic e)) s e b) else []) (matching_subscriptions b (topic e))) \<and>
   sorted (map (\<lambda>s. - sub_priority s) (matching_subscriptions b (topic e)))"
  by (simp add: dispatch_def dispatch_to_effects sorted_matching)

lemma attempts_of_invoke:
  "attempts_of (fst (invoke_with_retry G m s e b)) =
   attempts_of (fst (retry_loop (b_retry_base_delay b) s e 1 (b_retry_attempts b)))"
  by (simp add: invoke_with_retry_def invoke_dlq_def split: prod.split option.split)

text \<open>C6: one subscriber is invoked on attempts 1, 2, ... and never again after the first attempt
  that returns; it is invoked at least once and at most \<open>retry_attempts\<close> times, and fewer only when
  the last one returned.\<close>

theorem retry_exact:
  assumes "0 < b_retry_attempts b"
  shows "\<exists>n. 0 < n \<and> n \<le> b_retry_attempts b \<and>
    attempts_of (fst (invoke_with_retry G m s e b)) = [1 ..< Suc n] \<and>
    (\<forall>i \<in> {1 ..< n}. sub_handler s i e \<noteq> None) \<and>
    (sub_handler s n e = None \<or> n = b_retry_attempts b)"
proof -
  obtain effs r where rl: "retry_loop (b_retry_base_delay b) s e 1 (b_retry_attempts b) = (effs, r)" by force
  from retry_loop_spec[OF rl] obtain n where n: "n \<le> b_retry_attempts b" "attempts_of effs = [1 ..< 1 + n]"
    "\<forall>i \<in> {1 ..< 1 + n - 1}. sub_handler s i e \<noteq> None"
    "r = None \<longrightarrow> b_retry_attempts b = 0 \<or> 0 < n \<and> sub_handler s (1 + n - 1) e = None"
    "\<forall>exc. r = Some exc \<longrightarrow> n = b_retry_attempts b" by blast
  show ?thesis
    unfolding attempts_of_invoke rl using n assms by (intro exI[of _ n]) (cases r; auto)
qed

theorem retry_exact_witness:
  "\<exists>n. 0 < n \<and> n \<le> 3 \<and>
    attempts_of (fst (invoke_with_retry sample_gen False (sample_sub ''s'' ''t'' 0 1) (sample_event ''a'' ''t'' HIGH)
      (sample_bus ''block'' None))) = [1 ..< Suc n] \<and>
    (\<forall>i \<in> {1 ..< n}. sub_handler (sample_sub ''s'' ''t'' 0 1) i (sample_event ''a'' ''t'' HIGH) \<noteq> None) \<and>
    (sub_handler (sample_sub ''s'' ''t'' 0 1) n (sample_event ''a'' ''t'' HIGH) = None \<or> n = 3)"
  using retry_exact[of "sample_bus ''block'' None" sample_gen False "sample_sub ''s'' ''t'' 0 1" "sample_event ''a'' ''t'' HIGH"]
  by simp

text \<open>a subscriber that fails all its attempts waits \<open>base, 2 base, 4 base, ...\<close> between them,
  \<open>base * (2 ^ (attempts - 1) - 1)\<close> in all, and nothing after the last.\<close>

theorem retry_total_backoff:
  assumes "0 < b_retry_attempts b" "\<forall>i \<in> {1 .. b_retry_attempts b}. sub_handler s i e \<noteq> None"
  shows "total_backoff (fst (invoke_with_retry G m s e b)) =
    b_retry_base_delay b * (2 ^ (b_retry_attempts b - 1) - 1)"
proof -
  obtain effs r where rl: "retry_loop (b_retry_base_delay b) s e 1 (b_retry_attempts b) = (effs, r)" by force
  have "r \<noteq> None" using invoke_exhausted_iff[OF assms(1), of s e] assms(2) unfolding rl by auto
  then obtain exc where r: "r = Some exc" by blast
  have dlq: "total_backoff (xs @ invoke_dlq e s exc b) = total_backoff xs" for xs
    by (simp add: total_backoff_def invoke_dlq_def)
  have "total_backoff (fst (invoke_with_retry G m s e b)) = total_backoff effs"
    unfolding invoke_with_retry_def rl r by (simp add: dlq)
  then show ?thesis using retry_loop_backoff[OF rl[unfolded r]] by simp
qed

theorem retry_total_backoff_witness:
  "total_backoff (fst (invoke_with_retry sample_gen False (sample_sub ''s'' ''t'' 0 5) (sample_event ''a'' ''t'' HIGH)
     (sample_bus ''block'' None))) = 3"
  using retry_total_backoff[of "sample_bus ''block'' None" "sample_sub ''s'' ''t'' 0 5" "sample_event ''a'' ''t'' HIGH"
      sample_gen False]
  by (simp add: sample_sub_def)



text \<open>what a topic matches after a subscription: exactly what it matched before, and the new
  subscription when its pattern is that topic or a glob matching it.\<close>

theorem subscribe_matches:
  "set (matching_subscriptions (snd (subscribe s b)) t) =
     set (matching_subscriptions b t) \<union> (if applies_to s t then {s} else {}) \<and>
   match_count b t = length (matching_subscriptions b t)"
  by (simp add: matching_subscribe match_count_matching)

text \<open>removing a subscription right after registering it under a fresh id reports success and
  gives every topic the matching subscriptions it had, in the same order.\<close>

theorem unsubscribe_inverts_subscribe:
  assumes "bus_new c hb ob po = Inr b0" "bus_reach G ops b0 b" "sub_id s \<notin> sub_ids b"
  shows "fst (unsubscribe (sub_id s) (snd (subscribe s b))) \<and>
    matching_subscriptions (snd (unsubscribe (sub_id s) (snd (subscribe s b)))) t = matching_subscriptions b t"
proof -
  have "subs_sorted b" using bus_reach_inv[OF assms(2) bus_new_inv[OF assms(1)]] by (simp add: bus_inv_def)
  then show ?thesis using unsubscribe_subscribe[OF _ assms(3)] by simp
qed

theorem unsubscribe_inverts_subscribe_witness:
  "fst (unsubscribe ''s'' (snd (subscribe (sample_sub ''s'' ''t'' 0 5) one_queued)))"
proof -
  have "sub_ids one_queued = {}"
    by (simp add: sub_ids_def publish_commit_def enqueue_local_def q_full_def enqueue_def)
  then show ?thesis
    using unsubscribe_inverts_subscribe[OF sample_new one_queued_reach, of "sample_sub ''s'' ''t'' 0 5"]
    by (simp add: sample_sub_def)
qed

subsection \<open>Backpressure\<close>

lemma publish_meta_queue: "p \<noteq> HIGH \<or> q_full b HIGH \<Longrightarrow> b_queues (publish_meta G t pl b) p = b_queues b p"
  by (auto simp: publish_meta_def enqueue_def Let_def q_full_def)

lemma backpressure_meta_frame:
  "q_full b p \<Longrightarrow> b_queues (emit_backpressure_meta G m e pol b) p = b_queues b p"
  "b_queue_size (emit_backpressure_meta G m e pol b) = b_queue_size b"
  by (cases "p = HIGH"; simp add: emit_backpressure_meta_def publish_meta_queue)
    (simp add: emit_backpressure_meta_def publish_meta_def enqueue_def Let_def)

text \<open>publishing to a full queue does what the topic's policy says: \<open>reject\<close> leaves the queue
  as it was, \<open>drop_oldest\<close> removes exactly its oldest envelope and appends the new one, and
  \<open>block\<close> leaves the queue and suspends the publisher behind those already waiting.\<close>

theorem full_queue_policy:
  assumes "q_full b (priority e)" "b_queues b (priority e) = old # q"
  shows "case enqueue_local G m e b of (r, b') \<Rightarrow>
    (if policy_for b (topic e) = POLICY_REJECT then r = Rejected \<and> b_queues b' (priority e) = old # q
     else if policy_for b (topic e) = POLICY_DROP_OLDEST
       then r = Dropped old \<and> b_queues b' (priority e) = q @ [e]
     else r = Suspended \<and> b_queues b' (priority e) = old # q \<and>
       b_putters b' (priority e) = b_putters b (priority e) @ [e])"
proof -
  define b1 where "b1 = emit_backpressure_meta G m e (policy_for b (topic e)) b"
  have q: "b_queues b1 (priority e) = old # q"
    unfolding b1_def using backpressure_meta_frame(1)[OF assms(1)] assms(2) by simp
  have pu: "b_putters b1 = b_putters b"
    unfolding b1_def emit_backpressure_meta_def by (simp add: frame_meta_fields(7)[OF publish_meta_frame])
  show ?thesis
    unfolding enqueue_local_def Let_def b1_def[symmetric]
    using assms(1) q pu by (auto simp: enqueue_def)
qed

abbreviation full_bus :: "string \<Rightarrow> outbox bus" where
  "full_bus p \<equiv> enqueue (sample_event ''b'' ''t'' HIGH) (enqueue (sample_event ''a'' ''t'' HIGH) (sample_bus p None))"

theorem full_queue_policy_witness:
  "fst (enqueue_local sample_gen False (sample_event ''c'' ''t'' HIGH) (full_bus ''drop_oldest'')) =
     Dropped (sample_event ''a'' ''t'' HIGH)"
proof -
  have "q_full (full_bus ''drop_oldest'') HIGH" by (simp add: q_full_def enqueue_def sample_event_def)
  moreover have "b_queues (full_bus ''drop_oldest'') HIGH = [sample_event ''a'' ''t'' HIGH, sample_event ''b'' ''t'' HIGH]"
    by (simp add: enqueue_def sample_event_def)
  moreover have "policy_for (full_bus ''drop_oldest'') ''t'' = POLICY_DROP_OLDEST"
    by (simp add: policy_for_def enqueue_def POLICY_DROP_OLDEST_def)
  ultimately show ?thesis
    using full_queue_policy[of "full_bus ''drop_oldest''" "sample_event ''c'' ''t'' HIGH" "sample_event ''a'' ''t'' HIGH"
        "[sample_event ''b'' ''t'' HIGH]" sample_gen False]
    by (simp add: sample_event_def POLICY_DROP_OLDEST_def POLICY_REJECT_def split: prod.splits)
qed

subsection \<open>Transport\<close>

lemma remembered:
  assumes "fanout_inv b" shows "i \<in> set (b_fanned_out (remember_fanout i b))"
proof (cases "i \<in> set (b_fanned_out b)")
  case True
  then show ?thesis using assms by (simp add: remember_fanout_def Let_def fanout_inv_def)
next
  case False
  then show ?thesis using assms by (simp add: remember_fanout_def Let_def fanout_inv_def FANOUT_ECHO_CAP_def)
qed

lemma enqueue_local_fanned: "b_fanned_out (snd (enqueue_local G m e b)) = b_fanned_out b"
  by (rule enqueue_local_frame)

lemma publish_commit_fanned:
  "b_fanned_out (snd (publish_commit G m e b)) =
     (if b_has_backend b then b_fanned_out (remember_fanout (event_id e) b) else b_fanned_out b)"
proof -
  have "snd (publish_commit G m e b) = snd (enqueue_local G m e
      (if b_has_backend b then (remember_fanout (event_id e) b)\<lparr>b_tasks := b_tasks b @ [e]\<rparr> else b))"
    by (simp add: publish_commit_def Let_def split: prod.split enq_outcome.split)
  then show ?thesis by (simp add: enqueue_local_fanned)
qed

text \<open>the copy of an event a transport hands back after this process published it is dropped
  without a dispatch, and exactly one such copy: the id is forgotten, so a second one is dispatched.\<close>

theorem echo_suppressed_once:
  assumes "bus_new c hb ob po = Inr b0" "bus_reach G ops b0 b" "b_has_backend b" "event_id e' = event_id e"
  shows "\<exists>b'. on_transport_envelope G m' e' (snd (publish_commit G m e b)) = (Echo, b') \<and>
    event_id e \<notin> set (b_fanned_out b') \<and>
    b_queues b' = b_queues (snd (publish_commit G m e b)) \<and> fst (on_transport_envelope G m' e' b') \<noteq> Echo"
proof -
  have "fanout_inv b" using bus_reach_inv[OF assms(2) bus_new_inv[OF assms(1)]] by (simp add: bus_inv_def)
  then have "event_id e \<in> set (b_fanned_out (snd (publish_commit G m e b)))"
    using remembered[of b "event_id e"] assms(3) by (simp add: publish_commit_fanned)
  then show ?thesis using assms(4) by (auto simp: on_transport_envelope_def split: prod.split)
qed

abbreviation relay_bus :: "outbox bus" where
  "relay_bus \<equiv> sample_bus ''block'' (Some (sample_outbox ''reject_new'' [sample_row ''a'' 10, sample_row ''b'' 20]))"

lemma relay_new: "bus_new (sample_cfg ''block'') True (Some (sample_outbox ''reject_new'' [sample_row ''a'' 10, sample_row ''b'' 20])) False
    = Inr relay_bus"
  using sample_bus_eq[of "''block''" "Some (sample_outbox ''reject_new'' [sample_row ''a'' 10, sample_row ''b'' 20])"] by simp

theorem echo_suppressed_once_witness:
  "\<exists>b'. on_transport_envelope sample_gen False (sample_event ''z'' ''t'' LOW)
     (snd (publish_commit sample_gen False (sample_event ''z'' ''t'' LOW) relay_bus)) = (Echo, b')"
  using echo_suppressed_once[OF relay_new reach_init, where e = "sample_event ''z'' ''t'' LOW" and e' = "sample_event ''z'' ''t'' LOW" and G = sample_gen
      and m = False and m' = False]
  by (simp, blast)

subsection \<open>The durable path, with the SQLite store\<close>




lemma sample_due:
  "ob_due sqlite_ops 50 10 (sample_outbox p [sample_row ''a'' 10, sample_row ''b'' 20]) =
    (Inr [sample_event ''a'' ''t'' NORMAL, sample_event ''b'' ''t'' NORMAL],
     sample_outbox p [sample_row ''a'' 10, sample_row ''b'' 20])"
proof -
  have "from_dict [] (row_envelope (sample_row i t)) = Inr (sample_event i ''t'' NORMAL)" for i t
    by (simp add: sample_row_def)
  moreover have "row_created (sample_row i t) = t" "row_next_try (sample_row i t) = t" for i t
    by (simp_all add: sample_row_def)
  ultimately show ?thesis
    by (simp add: sqlite_ops_def ensure_conn_def sample_outbox_def sync_due_def purge_expired_def due_rows_def insort_key.simps)
qed

abbreviation second_fails :: "envelope \<Rightarrow> string option" where
  "second_fails e \<equiv> (if event_id e = ''b'' then Some ''ConnectionError'' else None)"


definition recorded_attempts :: "'o bus \<Rightarrow> string \<Rightarrow> nat" where
  "recorded_attempts b i = (case dict_get (b_outbox_attempts b) i of None \<Rightarrow> 0 | Some n \<Rightarrow> n)"

lemma failed_publish_outbox:
  assumes "b_outbox b = Some ob" "inflight_id b (event_id e)"
  shows "b_outbox (snd (backend_publish ops now (Some x) e b)) =
    (case backoff b (recorded_attempts b (event_id e) + 1) of
       None \<Rightarrow> Some ob | Some d \<Rightarrow> Some (snd (ob_nack ops (event_id e) x (now + d) ob)))"
  using assms by (simp add: backend_publish_def outbox_nack_def inflight_id_def recorded_attempts_def Let_def backoff_def)

text \<open>a failed fan-out or relay attempt of an in-flight event keeps its row and schedules the
  retry after the capped exponential backoff of the attempts recorded so far.\<close>

theorem failed_publish_reschedules:
  assumes "b_outbox b = Some ob" "\<not> ox_closed ob" "inflight_id b (event_id e)"
    and "recorded_attempts b (event_id e) < 1024"
  shows "\<exists>ob'. b_outbox (snd (backend_publish sqlite_ops now (Some x) e b)) = Some ob' \<and>
    outbox_ids ob' = outbox_ids ob \<and>
    (\<forall>r \<in> set (ox_rows ob'). row_id r = event_id e \<longrightarrow>
       row_next_try r = now + min (b_relay_max_backoff b) (b_relay_interval b * 2 ^ recorded_attempts b (event_id e)))"
proof -
  let ?d = "min (b_relay_max_backoff b) (b_relay_interval b * 2 ^ recorded_attempts b (event_id e))"
  have "b_outbox (snd (backend_publish sqlite_ops now (Some x) e b)) =
      Some (sync_nack (event_id e) x (now + ?d) (ensure_conn ob))"
    unfolding failed_publish_outbox[OF assms(1,3)] using assms(2,4) by (simp add: backoff_def sqlite_ops_def)
  moreover have "\<forall>r \<in> set (ox_rows (sync_nack i x t s)). row_id r = i \<longrightarrow> row_next_try r = t" for i t s
    by (rule nack_next_try)
  moreover have "outbox_ids (sync_nack (event_id e) x (now + ?d) (ensure_conn ob)) = outbox_ids ob"
    by (simp only: ids_nack ensure_conn_simps)
  ultimately show ?thesis by blast
qed

abbreviation carrying_bus :: "nat \<Rightarrow> outbox bus" where
  "carrying_bus n \<equiv> relay_bus\<lparr>b_outbox_inflight := [''a''], b_outbox_attempts := [(''a'', n)]\<rparr>"

theorem failed_publish_reschedules_witness:
  "\<exists>ob'. b_outbox (snd (backend_publish sqlite_ops 100 (Some ''E'') (sample_event ''a'' ''t'' LOW) (carrying_bus 3))) = Some ob' \<and>
    outbox_ids ob' = {''a'', ''b''} \<and> (\<forall>r \<in> set (ox_rows ob'). row_id r = ''a'' \<longrightarrow> row_next_try r = 140)"
  using failed_publish_reschedules[where b = "carrying_bus 3" and now = 100 and x = "''E''" and e = "sample_event ''a'' ''t'' LOW"
      and ob = "sample_outbox ''reject_new'' [sample_row ''a'' 10, sample_row ''b'' 20]"]
  by (simp add: recorded_attempts_def inflight_id_def) (simp add: sample_outbox_def)

text \<open>once 1024 failures of an event are recorded the backoff computation itself overflows, so
  no further failure is written to its row: its next attempt stays due at the time it already had,
  and the relay tries it again in every pass instead of after the capped delay.\<close>

theorem backoff_overflow_not_rescheduled:
  assumes "b_outbox b = Some ob" "inflight_id b (event_id e)" "1024 \<le> recorded_attempts b (event_id e)"
  shows "b_outbox (snd (backend_publish ops now (Some x) e b)) = Some ob"
  using failed_publish_outbox[OF assms(1,2)] assms(3) by (simp add: backoff_def)

theorem backoff_overflow_not_rescheduled_witness:
  "b_outbox (snd (backend_publish sqlite_ops 100 (Some ''E'') (sample_event ''a'' ''t'' LOW) (carrying_bus 1024))) =
     Some (sample_outbox ''reject_new'' [sample_row ''a'' 10, sample_row ''b'' 20])"
  using backoff_overflow_not_rescheduled[where b = "carrying_bus 1024" and e = "sample_event ''a'' ''t'' LOW"
      and ob = "sample_outbox ''reject_new'' [sample_row ''a'' 10, sample_row ''b'' 20]" and ops = sqlite_ops]
  by (simp add: recorded_attempts_def inflight_id_def)

end
