(* ===== verification/OutboxProps.thy ===== *)
theory OutboxProps
  imports Samples
begin

text \<open>
  The properties of the SQLite outbox on its own: what an append does when the table is full, the
  row cap, the purge and the order in which rows become due.
\<close>

subsection \<open>The SQLite store\<close>

lemma length_delete: "distinct (map row_id rows) \<Longrightarrow> i \<in> row_id ` set rows \<Longrightarrow> Suc (length (delete_id i rows)) = length rows"
proof (induction rows)
  case (Cons r rows)
  show ?case
  proof (cases "row_id r = i")
    case True
    then have "delete_id i rows = rows" using Cons.prems by (auto simp: delete_id_def filter_id_conv image_iff)
    then show ?thesis using True by (simp add: delete_id_def)
  next
    case False
    then show ?thesis using Cons by (simp add: delete_id_def)
  qed
qed simp

lemma oldest_id_Some:
  assumes "rows \<noteq> []"
  obtains r where "oldest_id rows = Some (row_id r)" "r \<in> set rows" "\<forall>r' \<in> set rows. row_created r \<le> row_created r'"
proof -
  obtain r rs where s: "sort_key row_created rows = r # rs" using assms by (cases "sort_key row_created rows") (auto dest: arg_cong[where f = length])
  have "sorted (map row_created (r # rs))" unfolding s[symmetric] by simp
  moreover have "set (r # rs) = set rows" unfolding s[symmetric] by simp
  ultimately have "r \<in> set rows" "\<forall>r' \<in> set rows. row_created r \<le> row_created r'" by auto
  then show ?thesis using that[of r] s by (simp add: oldest_id_def)
qed

text \<open>a full \<open>drop_oldest\<close> store that takes in a new event gives up exactly one row, one of
  the earliest, and stays at the same size.\<close>

theorem append_drops_oldest:
  assumes "outbox_inv s" "\<not> ox_closed s" "ox_overflow s = ''drop_oldest''"
    and "int (length (ox_rows s)) \<ge> ox_max_rows s" "ox_rows s \<noteq> []"
    and "event_id e \<notin> outbox_ids s" "json_ok (PDict (to_dict e))"
  shows "\<exists>r \<in> set (ox_rows s). (\<forall>r' \<in> set (ox_rows s). row_created r \<le> row_created r') \<and>
    fst (ob_append sqlite_ops now e s) = None \<and>
    outbox_ids (snd (ob_append sqlite_ops now e s)) = insert (event_id e) (outbox_ids s - {row_id r}) \<and>
    length (ox_rows (snd (ob_append sqlite_ops now e s))) = length (ox_rows s)"
proof -
  let ?c = "ensure_conn s"
  have c: "ox_pending ?c = length (ox_rows s)"
    using live_ensure[OF assms(1)] by (simp add: live_def outbox_inv_def)
  obtain r where r: "oldest_id (ox_rows s) = Some (row_id r)" "r \<in> set (ox_rows s)"
      "\<forall>r' \<in> set (ox_rows s). row_created r \<le> row_created r'"
    using oldest_id_Some[OF assms(5)] .
  have eq: "ob_append sqlite_ops now e s = (None, insert_row now e (drop_oldest_row ?c))"
    using assms(2-4,7) c by (simp add: sqlite_ops_def sync_append_def)
  have rows: "ox_rows (drop_oldest_row ?c) = delete_id (row_id r) (ox_rows s)"
    using r(1) by (simp add: drop_oldest_row_def Let_def)
  then have ids: "outbox_ids (drop_oldest_row ?c) = outbox_ids s - {row_id r}" by (simp add: outbox_ids_def)
  have fresh: "\<not> has_id (event_id e) (ox_rows (drop_oldest_row ?c))"
    using assms(6) ids by (simp add: has_id_ids outbox_ids_def)
  have "Suc (length (delete_id (row_id r) (ox_rows s))) = length (ox_rows s)"
    using assms(1) r(2) by (intro length_delete) (auto simp: outbox_inv_def)
  then have "length (ox_rows (insert_row now e (drop_oldest_row ?c))) = length (ox_rows s)"
    using fresh rows by (simp add: insert_row_def)
  then show ?thesis using r(2,3) ids eq by (intro bexI[of _ r]) simp_all
qed

abbreviation dropping :: outbox where
  "dropping \<equiv> sample_outbox ''drop_oldest'' [sample_row ''a'' 10, sample_row ''b'' 20]"

lemma dropping_fields [simp]:
  "ox_rows dropping = [sample_row ''a'' 10, sample_row ''b'' 20]" "\<not> ox_closed dropping" "ox_conn dropping"
  "ox_overflow dropping = ''drop_oldest''" "ox_max_rows dropping = 2" "ox_pending dropping = 2"
  by (simp_all add: sample_outbox_def)

lemma sample_json [simp]: "json_ok (PDict (to_dict (sample_event i t p)))"
  by (simp add: to_dict_def sample_event_def opt_str_def)

lemma sample_created [simp]: "row_created (sample_row i t) = t" "row_next_try (sample_row i t) = t"
  by (simp_all add: sample_row_def)

theorem append_drops_oldest_witness:
  "outbox_ids (snd (ob_append sqlite_ops 50 (sample_event ''c'' ''t'' LOW) dropping)) = {''b'', ''c''}"
  using append_drops_oldest[where s = dropping and e = "sample_event ''c'' ''t'' LOW" and now = 50]
  by (auto simp del: json_ok.simps)

text \<open>appending an event that is already stored to a full \<open>drop_oldest\<close> store is not
  idempotent: it inserts nothing, yet deletes the oldest row when that is another event's.\<close>

theorem duplicate_append_loses_row:
  assumes "outbox_inv s" "\<not> ox_closed s" "ox_overflow s = ''drop_oldest''"
    and "int (length (ox_rows s)) \<ge> ox_max_rows s" "oldest_id (ox_rows s) = Some i" "i \<noteq> event_id e"
    and "event_id e \<in> outbox_ids s" "json_ok (PDict (to_dict e))"
  shows "fst (ob_append sqlite_ops now e s) = None \<and>
    outbox_ids (snd (ob_append sqlite_ops now e s)) = outbox_ids s - {i}"
proof -
  have "ox_pending (ensure_conn s) = length (ox_rows s)"
    using live_ensure[OF assms(1)] by (simp add: live_def outbox_inv_def)
  then have "ob_append sqlite_ops now e s = (None, insert_row now e (drop_oldest_row (ensure_conn s)))"
    using assms(2-4,8) by (simp add: sqlite_ops_def sync_append_def)
  moreover have "outbox_ids (drop_oldest_row (ensure_conn s)) = outbox_ids s - {i}"
    using assms(5) by (simp add: drop_oldest_row_def Let_def outbox_ids_def)
  ultimately show ?thesis using assms(6,7) by auto
qed

theorem duplicate_append_loses_row_witness:
  "outbox_ids (snd (ob_append sqlite_ops 50 (sample_event ''b'' ''t'' LOW) dropping)) = {''b''}"
  using duplicate_append_loses_row[where s = dropping and e = "sample_event ''b'' ''t'' LOW" and now = 50 and i = "''a''"]
  by (auto simp: oldest_id_def insort_key.simps simp del: json_ok.simps)

definition within_cap :: "outbox \<Rightarrow> bool" where
  "within_cap s \<longleftrightarrow> int (length (ox_rows s)) \<le> max 1 (ox_max_rows s)"

lemma cap_mono:
  "within_cap s \<Longrightarrow> length (ox_rows s') \<le> length (ox_rows s) \<Longrightarrow> ox_max_rows s' = ox_max_rows s \<Longrightarrow> within_cap s'"
  by (simp add: within_cap_def)

lemma decode_cap: "within_cap s \<Longrightarrow> within_cap (snd (decode_rows rs s))"
proof (induction rs s rule: decode_rows.induct)
  case (2 r rs s)
  show ?case
  proof (cases "from_dict [] (row_envelope r)")
    case (Inl x)
    have "within_cap (s\<lparr>ox_rows := delete_id (row_id r) (ox_rows s), ox_pending := p, ox_corrupt := c\<rparr>)" for p c
      using 2(3) by (rule cap_mono) (simp_all add: delete_id_def)
    then show ?thesis using "2.IH"(1)[OF Inl refl refl] Inl by (simp add: Let_def)
  next
    case (Inr e)
    then show ?thesis using "2.IH"(2)[OF Inr 2(3)] by (simp add: case_prod_unfold)
  qed
qed simp

lemma due_cap: "within_cap s \<Longrightarrow> within_cap (snd (sync_due now n s))"
  unfolding sync_due_def Let_def
  by (rule decode_cap, rule cap_mono, assumption) (simp_all add: purge_expired_def Let_def)

lemma append_cap:
  assumes "live s" "within_cap s"
  shows "within_cap (snd (sync_append now e s))"
proof (cases "int (ox_pending s) \<ge> ox_max_rows s")
  case False
  then show ?thesis using assms
    by (auto simp: sync_append_def Let_def insert_row_def within_cap_def live_def outbox_inv_def)
next
  case full: True
  have drop: "Suc (length (ox_rows (drop_oldest_row s))) = length (ox_rows s) \<and> ox_max_rows (drop_oldest_row s) = ox_max_rows s"
    if "ox_rows s \<noteq> []"
  proof -
    note ne = that
    obtain r where r: "oldest_id (ox_rows s) = Some (row_id r)" "r \<in> set (ox_rows s)"
      by (rule oldest_id_Some[OF ne])
    then have "Suc (length (delete_id (row_id r) (ox_rows s))) = length (ox_rows s)"
      using assms(1) by (intro length_delete) (auto simp: live_def outbox_inv_def)
    then show ?thesis using r(1) by (simp add: drop_oldest_row_def Let_def)
  qed
  have ins: "length (ox_rows (insert_row now e s')) \<le> Suc (length (ox_rows s'))"
    "ox_max_rows (insert_row now e s') = ox_max_rows s'" for s' by (simp_all add: insert_row_def)
  show ?thesis
  proof (cases "ox_rows s = []")
    case True
    then have "drop_oldest_row s = s" by (simp add: drop_oldest_row_def oldest_id_def)
    then show ?thesis using True full by (simp add: sync_append_def Let_def within_cap_def insert_row_def has_id_def max_def)
  next
    case False
    then show ?thesis using drop[OF False] full ins(1)[of "drop_oldest_row s"] assms(2)
      by (auto simp: sync_append_def Let_def within_cap_def ins(2))
  qed
qed

text \<open>the row cap: from a store within its cap (counted as at least one), no operation leaves
  it with more rows than that.\<close>

theorem row_cap_kept:
  assumes "outbox_inv s" "within_cap s"
  shows "within_cap (snd (ob_append sqlite_ops now e s)) \<and> within_cap (snd (ob_ack sqlite_ops i s)) \<and>
    within_cap (snd (ob_nack sqlite_ops i x t s)) \<and> within_cap (snd (ob_due sqlite_ops now n s)) \<and>
    within_cap (snd (ob_pending sqlite_ops s))"
proof -
  have c: "within_cap (ensure_conn s)" using assms(2) by (simp add: within_cap_def)
  have ack: "within_cap (sync_ack i (ensure_conn s))"
    using c by (rule cap_mono) (simp_all add: sync_ack_def Let_def delete_id_def)
  have nack: "within_cap (sync_nack i x t (ensure_conn s))"
    using assms(2) by (simp add: within_cap_def sync_nack_def)
  show ?thesis
    using append_cap[OF live_ensure[OF assms(1)] c, of now e] ack nack due_cap[OF c, of now n] c assms(2)
    by (simp add: sqlite_ops_def case_prod_unfold)
qed

theorem row_cap_kept_witness:
  "within_cap (snd (ob_append sqlite_ops 50 (sample_event ''c'' ''t'' LOW) dropping))"
  using row_cap_kept[where s = dropping and e = "sample_event ''c'' ''t'' LOW" and now = 50] by (simp add: within_cap_def)

end
