(* ===== verification/Facade.thy ===== *)
theory Facade
  imports BusOps
begin

text \<open>
  The entry points in front of the core: the \<open>EventBus\<close> facade of evb.py (configuration, choice of
  transport and outbox, auto-start, publish, emit, subscribe) and \<open>BusCoreProducer\<close> of producers.py.

  The configuration reader \<open>nav_config.get\<close> is an argument \<open>nav\<close>: the string a key is set to, or
  \<^const>\<open>None\<close>; \<open>pf\<close> is Python's \<open>float\<close> on a string.
\<close>

subsection \<open>Configuration\<close>

definition truthy_str :: "string \<Rightarrow> bool" where
  "truthy_str s \<longleftrightarrow> py_lower (py_strip s) \<in> {''1'', ''true'', ''yes'', ''on''}"

text \<open>\<open>_get(key, fallback, cast)\<close>: a value the cast refuses gives the fallback.\<close>

definition get_cast :: "(string \<Rightarrow> string option) \<Rightarrow> string \<Rightarrow> 'a \<Rightarrow> (string \<Rightarrow> 'a option) \<Rightarrow> 'a" where
  "get_cast nav key fallback cast =
     (case nav key of
        None \<Rightarrow> fallback
      | Some v \<Rightarrow> (case cast v of None \<Rightarrow> fallback | Some x \<Rightarrow> x))"

record core_options =
  co_bus :: bus_config
  co_handler_timeout :: real
  co_drain_timeout :: real

definition bus_config_of :: "(string \<Rightarrow> string option) \<Rightarrow> (string \<Rightarrow> real option) \<Rightarrow> core_options" where
  "bus_config_of nav pf =
     \<lparr>co_bus =
        \<lparr>cfg_workers = get_cast nav ''BUS_WORKERS'' 4 (py_int 10),
         cfg_queue_size = get_cast nav ''BUS_QUEUE_SIZE'' 1024 (py_int 10),
         cfg_retry_attempts = get_cast nav ''BUS_RETRY_ATTEMPTS'' 3 (py_int 10),
         cfg_retry_base_delay = get_cast nav ''BUS_RETRY_BASE_DELAY'' (1 / 10) pf,
         cfg_backpressure = [],
         cfg_default_backpressure = get_cast nav ''BUS_DEFAULT_BACKPRESSURE'' ''block'' Some,
         cfg_on_dlq = False,
         cfg_relay_interval = get_cast nav ''BUS_OUTBOX_RELAY_INTERVAL'' 5 pf,
         cfg_relay_batch = 500,
         cfg_relay_max_backoff = 300\<rparr>,
      co_handler_timeout = get_cast nav ''BUS_HANDLER_TIMEOUT'' 30 pf,
      co_drain_timeout = get_cast nav ''BUS_DRAIN_TIMEOUT'' 5 pf\<rparr>"

text \<open>The transports the facade can end up with; \<open>Explicit\<close> is a backend the caller passed in.\<close>

datatype transport = Explicit | Memory | PubSub string string | Streams string

record facade_args =
  fa_redis_url :: "string option"
  fa_use_redis :: bool
  fa_channel_prefix :: "string option"
  fa_backend :: bool
  fa_transport :: "string option"
  fa_publish_only :: bool

definition DEFAULT_CHANNEL_PREFIX :: string where
  "DEFAULT_CHANNEL_PREFIX = ''evb:events:''"

text \<open>\<open>x or y\<close> on an optional string: an empty string counts as absent.\<close>

definition or_str :: "string option \<Rightarrow> string option \<Rightarrow> string option" where
  "or_str x y = (case x of Some (c # cs) \<Rightarrow> Some (c # cs) | _ \<Rightarrow> y)"

definition channel_prefix :: "(string \<Rightarrow> string option) \<Rightarrow> facade_args \<Rightarrow> string" where
  "channel_prefix nav a =
     (case or_str (fa_channel_prefix a) (nav ''BUS_CHANNEL_PREFIX'') of
        Some p \<Rightarrow> p | None \<Rightarrow> DEFAULT_CHANNEL_PREFIX)"

definition select_backend :: "(string \<Rightarrow> string option) \<Rightarrow> facade_args \<Rightarrow> transport result" where
  "select_backend nav a =
     (if fa_backend a then Inr Explicit
      else
        (let named = or_str (fa_transport a) (nav ''BUS_TRANSPORT'');
             t = (case named of
                    None \<Rightarrow> None
                  | Some s \<Rightarrow> (let s' = py_lower (py_strip s) in if s' = [] then None else Some s'))
         in case t of
              None \<Rightarrow>
                (case fa_redis_url a of
                   Some url \<Rightarrow> Inr (if fa_use_redis a then PubSub url (channel_prefix nav a) else Memory)
                 | None \<Rightarrow> Inr Memory)
            | Some n \<Rightarrow>
                if n = ''memory'' then Inr Memory
                else if n \<in> {''pubsub'', ''streams''} then
                  (case fa_redis_url a of
                     None \<Rightarrow> Inl (ValueError ''requires redis_url'')
                   | Some url \<Rightarrow> Inr (if n = ''pubsub'' then PubSub url (channel_prefix nav a) else Streams url))
                else Inl (ValueError ''Unknown transport'')))"

text \<open>
  \<open>_resolve_outbox\<close>: a store passed in is used as it is; a path (from the argument, else the
  configuration) opens a SQLite store with the configured limits (\<open>open_store\<close>).
\<close>

datatype 'o outbox_arg = OutboxPath string | OutboxObject 'o

definition resolve_outbox ::
    "(string \<Rightarrow> string option) \<Rightarrow> (string \<Rightarrow> real option) \<Rightarrow>
     (string \<Rightarrow> int \<Rightarrow> real \<Rightarrow> string \<Rightarrow> 'o result) \<Rightarrow> 'o outbox_arg option \<Rightarrow> 'o option result" where
  "resolve_outbox nav pf open_store arg =
     (case (case arg of None \<Rightarrow> map_option OutboxPath (nav ''BUS_OUTBOX_PATH'') | Some x \<Rightarrow> Some x) of
        None \<Rightarrow> Inr None
      | Some (OutboxObject ob) \<Rightarrow> Inr (Some ob)
      | Some (OutboxPath path) \<Rightarrow>
          bind_r (case or_str (nav ''BUS_OUTBOX_MAX_ROWS'') None of
                    None \<Rightarrow> Inr 1000000
                  | Some s \<Rightarrow> of_opt (ValueError ''int'') (py_int 10 s)) (\<lambda>max_rows.
          let overflow = (case or_str (nav ''BUS_OUTBOX_OVERFLOW'') None of None \<Rightarrow> ''reject_new'' | Some s \<Rightarrow> s)
          in if overflow \<notin> {''reject_new'', ''drop_oldest''} then Inl (ValueError ''BUS_OUTBOX_OVERFLOW'')
             else
               bind_r (case or_str (nav ''BUS_OUTBOX_MAX_AGE'') None of
                         None \<Rightarrow> Inr (7 * 86400)
                       | Some s \<Rightarrow> of_opt (ValueError ''float'') (pf s)) (\<lambda>max_age.
               map_sum id Some (open_store path max_rows max_age overflow))))"

subsection \<open>The facade\<close>

record 'o facade =
  fc_core :: "'o bus"
  fc_transport :: transport
  fc_history :: "legacy_event list"
  fc_started :: bool
  fc_closed :: bool

definition MAX_HISTORY :: nat where "MAX_HISTORY = 1000"

text \<open>\<open>override\<close> is \<open>core_opts.update(bus_options)\<close>.\<close>

definition facade_new ::
    "(string \<Rightarrow> string option) \<Rightarrow> (string \<Rightarrow> real option) \<Rightarrow> (string \<Rightarrow> int \<Rightarrow> real \<Rightarrow> string \<Rightarrow> 'o result) \<Rightarrow>
     (core_options \<Rightarrow> core_options) \<Rightarrow> facade_args \<Rightarrow> 'o outbox_arg option \<Rightarrow> 'o facade result" where
  "facade_new nav pf open_store override a outbox_arg =
     bind_r (select_backend nav a) (\<lambda>t.
     bind_r (resolve_outbox nav pf open_store outbox_arg) (\<lambda>ob.
     bind_r (bus_new (co_bus (override (bus_config_of nav pf))) True ob
              (fa_publish_only a \<or> (case nav ''BUS_PUBLISH_ONLY'' of None \<Rightarrow> False | Some s \<Rightarrow> truthy_str s))) (\<lambda>b.
     Inr \<lparr>fc_core = b, fc_transport = t, fc_history = [], fc_started = False, fc_closed = False\<rparr>)))"

definition ensure_started :: "'o facade \<Rightarrow> py_exc option \<times> 'o facade" where
  "ensure_started f =
     (if fc_closed f then (Some BusClosedError, f)
      else if fc_started f then (None, f)
      else (None, f\<lparr>fc_started := True, fc_core := start (fc_core f)\<rparr>))"

text \<open>\<open>deque(maxlen=n).append\<close>.\<close>

definition deque_append :: "nat \<Rightarrow> 'a \<Rightarrow> 'a list \<Rightarrow> 'a list" where
  "deque_append n x xs = (let ys = xs @ [x] in drop (length ys - n) ys)"

definition facade_publish ::
    "gen \<Rightarrow> 'o outbox_ops \<Rightarrow> bool \<Rightarrow> real \<Rightarrow> legacy_event \<Rightarrow> severity option \<Rightarrow> 'o facade \<Rightarrow>
     (nat \<times> enq_outcome) result \<times> 'o facade" where
  "facade_publish G ops in_meta now ev sev f =
     (case ensure_started f of
        (Some x, f1) \<Rightarrow> (Inl x, f1)
      | (None, f1) \<Rightarrow>
          (let f2 = f1\<lparr>fc_history := deque_append MAX_HISTORY ev (fc_history f1)\<rparr>
           in case from_legacy_event ev (case sev of None \<Rightarrow> INFO | Some s \<Rightarrow> s) of
                Inl x \<Rightarrow> (Inl x, f2)
              | Inr e \<Rightarrow>
                  (let n = match_count (fc_core f2) (event_type ev)
                   in case publish G ops in_meta now e (fc_core f2) of
                        (Inl x, b) \<Rightarrow> (Inl x, f2\<lparr>fc_core := b\<rparr>)
                      | (Inr r, b) \<Rightarrow> (Inr (n, r), f2\<lparr>fc_core := b\<rparr>))))"

text \<open>The keyword arguments of \<open>emit\<close>; an absent one gets the default of \<open>Event\<close>.\<close>

record emit_kwargs =
  ek_event_id :: "string option"
  ek_timestamp :: "py_datetime option"
  ek_source :: "string option"
  ek_priority :: "event_priority option"
  ek_correlation_id :: "string option"
  ek_metadata :: "pydict option"
  ek_severity :: "severity option"

definition opt_or :: "'a \<Rightarrow> 'a option \<Rightarrow> 'a" where
  "opt_or d x = (case x of None \<Rightarrow> d | Some v \<Rightarrow> v)"

definition emit_event :: "string \<Rightarrow> py_datetime \<Rightarrow> string \<Rightarrow> pyval \<Rightarrow> emit_kwargs \<Rightarrow> legacy_event" where
  "emit_event u now et pl k =
     \<lparr>event_type = et, ev_payload = pl, ev_id = opt_or u (ek_event_id k),
      ev_timestamp = opt_or now (ek_timestamp k), ev_source = ek_source k,
      ev_priority = opt_or NORMAL (ek_priority k), ev_correlation_id = ek_correlation_id k,
      ev_metadata = PDict (opt_or [] (ek_metadata k))\<rparr>"

definition emit ::
    "gen \<Rightarrow> 'o outbox_ops \<Rightarrow> bool \<Rightarrow> real \<Rightarrow> string \<Rightarrow> pyval \<Rightarrow> emit_kwargs \<Rightarrow> 'o facade \<Rightarrow>
     (nat \<times> enq_outcome) result \<times> 'o facade" where
  "emit G ops in_meta now et pl k f =
     (let b = fc_core f; u = uuid4 G (b_draws b); ts = utcnow G (b_draws b);
          f1 = f\<lparr>fc_core := b\<lparr>b_draws := Suc (b_draws b)\<rparr>\<rparr>
      in facade_publish G ops in_meta now (emit_event u ts et pl k) (ek_severity k) f1)"

text \<open>\<open>emit\<close> as the rest of the package uses it: what it raised, and the state it left.\<close>

type_synonym 'b bus_emit = "string \<Rightarrow> pyval \<Rightarrow> emit_kwargs \<Rightarrow> 'b \<Rightarrow> py_exc option \<times> 'b"

definition facade_emit :: "gen \<Rightarrow> 'o outbox_ops \<Rightarrow> bool \<Rightarrow> real \<Rightarrow> 'o facade bus_emit" where
  "facade_emit G ops in_meta now et pl k f =
     (case emit G ops in_meta now et pl k f of (Inl x, f') \<Rightarrow> (Some x, f') | (Inr _, f') \<Rightarrow> (None, f'))"

text \<open>A facade subscription sees legacy events: its handler and filter are wrapped.\<close>

record event_sub =
  es_pattern :: string
  es_id :: string
  es_priority :: int
  es_filter :: "(legacy_event \<Rightarrow> bool option) option"
  es_min_severity :: "severity option"
  es_handler :: "nat \<Rightarrow> legacy_event \<Rightarrow> exn option"

definition wrap_sub :: "event_sub \<Rightarrow> subscription" where
  "wrap_sub s =
     \<lparr>sub_pattern = es_pattern s, sub_id = es_id s, sub_priority = es_priority s,
      sub_filter = map_option (\<lambda>f e. f (envelope_to_event e)) (es_filter s),
      sub_min_severity = es_min_severity s,
      sub_handler = (\<lambda>a e. es_handler s a (envelope_to_event e))\<rparr>"

definition facade_subscribe :: "event_sub \<Rightarrow> 'o facade \<Rightarrow> string \<times> 'o facade" where
  "facade_subscribe s f =
     (case subscribe (wrap_sub s) (fc_core f) of (i, b) \<Rightarrow> (i, f\<lparr>fc_core := b\<rparr>))"

definition facade_unsubscribe :: "string \<Rightarrow> 'o facade \<Rightarrow> bool \<times> 'o facade" where
  "facade_unsubscribe i f = (case unsubscribe i (fc_core f) of (r, b) \<Rightarrow> (r, f\<lparr>fc_core := b\<rparr>))"

definition facade_close :: "('o bus \<Rightarrow> 'o bus) \<Rightarrow> 'o facade \<Rightarrow> 'o facade" where
  "facade_close core_close f = f\<lparr>fc_closed := True, fc_core := core_close (fc_core f)\<rparr>"

subsection \<open>BusCoreProducer\<close>

record producer =
  pr_timeout :: "real option"
  pr_raise_on_error :: bool
  pr_source :: "string option"
  pr_severity :: severity
  pr_priority :: event_priority

definition producer_new ::
    "real option \<Rightarrow> bool \<Rightarrow> string option \<Rightarrow> severity \<Rightarrow> event_priority \<Rightarrow> producer result" where
  "producer_new timeout strict src sev prio =
     (case timeout of
        Some t \<Rightarrow>
          if t \<le> 0 then Inl (ValueError ''timeout must be > 0, or None to disable it'')
          else Inr \<lparr>pr_timeout = timeout, pr_raise_on_error = strict, pr_source = src,
                    pr_severity = sev, pr_priority = prio\<rparr>
      | None \<Rightarrow> Inr \<lparr>pr_timeout = None, pr_raise_on_error = strict, pr_source = src,
                    pr_severity = sev, pr_priority = prio\<rparr>)"

text \<open>
  Phase 1 builds the envelope; only a \<open>timestamp\<close> keyword that is a datetime is read, every other
  keyword is ignored.  Phase 2 publishes.  \<open>waited\<close> is what became of a suspended publish:
  \<^const>\<open>True\<close> when the queue made room in time, \<^const>\<open>False\<close> when the timeout cancelled it
  (the waiting \<open>put\<close> is withdrawn).  The bus, when there is one, is the state.
\<close>

definition producer_envelope :: "gen \<Rightarrow> producer \<Rightarrow> pyval \<Rightarrow> string \<Rightarrow> pydict \<Rightarrow> nat \<Rightarrow> envelope result" where
  "producer_envelope G p body queue_name kwargs n =
     post_init
       \<lparr>topic = queue_name, payload = body, event_id = uuid4 G n,
        timestamp = (case get_or kwargs ''timestamp'' PNone of PDate d \<Rightarrow> d | _ \<Rightarrow> utcnow G n),
        source = pr_source p, severity = pr_severity p, priority = pr_priority p,
        correlation_id = None, trace_context = PNone, metadata = PDict [],
        schema_version = ENVELOPE_SCHEMA_VERSION\<rparr>"

definition withdraw_put :: "envelope \<Rightarrow> 'o bus \<Rightarrow> 'o bus" where
  "withdraw_put e b =
     b\<lparr>b_putters := (b_putters b)(priority e := rev (remove1 e (rev (b_putters b (priority e)))))\<rparr>"

definition TimeoutError :: py_exc where "TimeoutError = OtherError ''TimeoutError''"

definition publish_event ::
    "gen \<Rightarrow> 'o outbox_ops \<Rightarrow> bool \<Rightarrow> real \<Rightarrow> producer \<Rightarrow> bool \<Rightarrow> pyval \<Rightarrow> string \<Rightarrow> pydict \<Rightarrow> nat \<Rightarrow> 'o bus option \<Rightarrow>
     unit result \<times> 'o bus option" where
  "publish_event G ops in_meta now p waited body queue_name kwargs n bo =
     (case producer_envelope G p body queue_name kwargs n of
        Inl x \<Rightarrow> (Inl x, bo)
      | Inr e \<Rightarrow>
          (let soft = (\<lambda>x. if pr_raise_on_error p then Inl x else Inr ())
           in case bo of
                None \<Rightarrow> (soft (RuntimeError ''No BusCore available''), None)
              | Some b \<Rightarrow>
                  (case publish G ops in_meta now e b of
                     (Inl x, b1) \<Rightarrow> (soft x, Some b1)
                   | (Inr Suspended, b1) \<Rightarrow>
                       if waited \<or> pr_timeout p = None then (Inr (), Some b1)
                       else (soft TimeoutError, Some (withdraw_put e b1))
                   | (Inr _, b1) \<Rightarrow> (Inr (), Some b1))))"

end
