(* ===== verification/FacadeProps.thy ===== *)
theory FacadeProps
  imports Facade Samples
begin

text \<open>The properties of the facade and of the producer, and of the event contract they rest on.\<close>

text \<open>a handler and a filter subscribed through the facade are called with exactly the event that
  was published through it, its timestamp made aware.\<close>

theorem facade_delivers_event:
  assumes "from_legacy_event ev sev = Inr e"
  shows "sub_handler (wrap_sub s) a e = es_handler s a (ev\<lparr>ev_timestamp := ensure_aware_utc (ev_timestamp ev)\<rparr>) \<and>
    (\<forall>f. es_filter s = Some f \<longrightarrow>
       (\<exists>g. sub_filter (wrap_sub s) = Some g \<and> g e = f (ev\<lparr>ev_timestamp := ensure_aware_utc (ev_timestamp ev)\<rparr>)))"
proof -
  obtain md where "ev_metadata ev = PDict md"
    using assms by (cases "ev_metadata ev") (auto simp: from_legacy_event_def)
  from legacy_roundtrip[OF this, of sev] assms
  have "envelope_to_event e = ev\<lparr>ev_timestamp := ensure_aware_utc (ev_timestamp ev)\<rparr>" by auto
  then show ?thesis by (simp add: wrap_sub_def)
qed

abbreviation sample_kwargs :: emit_kwargs where
  "sample_kwargs \<equiv> \<lparr>ek_event_id = None, ek_timestamp = None, ek_source = None, ek_priority = Some HIGH,
     ek_correlation_id = None, ek_metadata = None, ek_severity = None\<rparr>"

abbreviation sample_legacy :: legacy_event where
  "sample_legacy \<equiv> emit_event ''u'' (sample_time\<lparr>dt_utcoff := None\<rparr>) ''order.created'' (PInt 3) sample_kwargs"

abbreviation counting_sub :: event_sub where
  "counting_sub \<equiv> \<lparr>es_pattern = ''order.*'', es_id = ''s'', es_priority = 0, es_filter = None, es_min_severity = None,
     es_handler = (\<lambda>a ev. if dt_aware (ev_timestamp ev) then Some (''Aware'', event_type ev) else None)\<rparr>"

theorem facade_delivers_event_witness:
  "\<exists>e. from_legacy_event sample_legacy INFO = Inr e \<and>
     sub_handler (wrap_sub counting_sub) 1 e = Some (''Aware'', ''order.created'')"
proof -
  obtain e where e: "from_legacy_event sample_legacy INFO = Inr e"
    using legacy_roundtrip[of sample_legacy "[]" INFO] by (auto simp: emit_event_def opt_or_def)
  show ?thesis
    using facade_delivers_event[OF e, of counting_sub 1] e
    by (simp add: emit_event_def opt_or_def dt_aware_def ensure_aware_utc_def sample_time_def)
qed

lemma ensure_started_open:
  "\<not> fc_closed f \<Longrightarrow> \<exists>f1. ensure_started f = (None, f1) \<and> fc_started f1 \<and> fc_history f1 = fc_history f \<and>
     b_subscriptions (fc_core f1) = b_subscriptions (fc_core f) \<and>
     b_pattern_subscriptions (fc_core f1) = b_pattern_subscriptions (fc_core f)"
  by (auto simp: ensure_started_def start_def)

lemma match_count_cong:
  "b_subscriptions b = b_subscriptions b' \<Longrightarrow> b_pattern_subscriptions b = b_pattern_subscriptions b' \<Longrightarrow>
   match_count b t = match_count b' t"
  by (simp add: match_count_def exact_subs_def)

lemma deque_append_facts: "0 < n \<Longrightarrow> length (deque_append n x xs) \<le> n \<and> last (deque_append n x xs) = x"
  by (simp add: deque_append_def Let_def last_drop)

text \<open>publishing through a closed facade raises and changes nothing; a publish that returns
  reports the number of subscriptions the topic matched when it was enqueued, records the event as
  the newest of a history of at most a thousand, and leaves the bus started.\<close>

theorem facade_publish_reports:
  "case facade_publish G ops m now ev sev f of
     (Inl x, f') \<Rightarrow> fc_closed f \<longrightarrow> x = BusClosedError \<and> f' = f
   | (Inr (n, r), f') \<Rightarrow> \<not> fc_closed f \<and> n = match_count (fc_core f) (event_type ev) \<and> fc_started f' \<and>
       length (fc_history f') \<le> MAX_HISTORY \<and> last (fc_history f') = ev"
proof (cases "fc_closed f")
  case True
  then show ?thesis by (simp add: facade_publish_def ensure_started_def)
next
  case False
  from ensure_started_open[OF this] obtain f1 where f1: "ensure_started f = (None, f1)" "fc_started f1"
    "b_subscriptions (fc_core f1) = b_subscriptions (fc_core f)"
    "b_pattern_subscriptions (fc_core f1) = b_pattern_subscriptions (fc_core f)" by blast
  have "match_count (fc_core f1) t = match_count (fc_core f) t" for t
    using f1(3,4) by (rule match_count_cong)
  moreover have "length (deque_append MAX_HISTORY ev h) \<le> MAX_HISTORY \<and> last (deque_append MAX_HISTORY ev h) = ev" for h
    by (rule deque_append_facts) (simp add: MAX_HISTORY_def)
  ultimately show ?thesis
    using f1(1,2) False by (auto simp: facade_publish_def Let_def split: sum.split prod.split)
qed

abbreviation closed_facade :: "outbox facade" where
  "closed_facade \<equiv> \<lparr>fc_core = sample_bus ''block'' None, fc_transport = Memory, fc_history = [], fc_started = True,
     fc_closed = True\<rparr>"

theorem facade_publish_reports_witness:
  "facade_publish sample_gen sqlite_ops False 0 sample_legacy None closed_facade = (Inl BusClosedError, closed_facade)"
proof -
  obtain r f' where r: "facade_publish sample_gen sqlite_ops False 0 sample_legacy None closed_facade = (r, f')" by force
  show ?thesis
    using facade_publish_reports[where f = closed_facade and G = sample_gen and ops = sqlite_ops and m = False
        and now = 0 and ev = sample_legacy and sev = None] r
    by (cases r) auto
qed

text \<open>the transport the facade builds: an explicit backend always wins; a Redis transport is built
  only when a Redis URL is there and with that URL; memory is what remains without a name.\<close>

theorem select_backend_sound:
  "case select_backend nav a of
     Inl x \<Rightarrow> \<not> fa_backend a \<and> or_str (fa_transport a) (nav ''BUS_TRANSPORT'') \<noteq> None
   | Inr Explicit \<Rightarrow> fa_backend a
   | Inr Memory \<Rightarrow> \<not> fa_backend a
   | Inr (PubSub url p) \<Rightarrow> \<not> fa_backend a \<and> fa_redis_url a = Some url \<and> p = channel_prefix nav a
   | Inr (Streams url) \<Rightarrow> \<not> fa_backend a \<and> fa_redis_url a = Some url"
  by (auto simp: select_backend_def Let_def split: option.splits if_splits)

text \<open>a fail-soft producer never raises once its envelope is built, whatever the bus does; a
  strict one raises exactly when there is no bus, the publish raised, or it timed out.\<close>

theorem producer_delivery_errors:
  assumes "producer_envelope G p body q kwargs n = Inr e"
  shows "fst (publish_event G ops m now p waited body q kwargs n bo) \<noteq> Inr () \<longleftrightarrow>
    pr_raise_on_error p \<and>
    (case bo of None \<Rightarrow> True
     | Some b \<Rightarrow> (case fst (publish G ops m now e b) of
         Inl _ \<Rightarrow> True | Inr r \<Rightarrow> r = Suspended \<and> \<not> waited \<and> pr_timeout p \<noteq> None))"
proof (cases bo)
  case None
  then show ?thesis using assms by (simp add: publish_event_def Let_def)
next
  case (Some b)
  obtain r b1 where p: "publish G ops m now e b = (r, b1)" by force
  show ?thesis
  proof (cases r)
    case (Inl x)
    then show ?thesis using assms Some p by (simp add: publish_event_def Let_def)
  next
    case (Inr o')
    then show ?thesis using assms Some p by (cases o') (simp_all add: publish_event_def Let_def)
  qed
qed

abbreviation soft_producer :: producer where
  "soft_producer \<equiv> \<lparr>pr_timeout = Some 1, pr_raise_on_error = False, pr_source = None, pr_severity = INFO,
     pr_priority = NORMAL\<rparr>"

theorem producer_delivery_errors_witness:
  "fst (publish_event sample_gen sqlite_ops False 0 soft_producer False (PInt 1) ''t'' [] 0 None) = Inr ()"
proof -
  have "producer_envelope sample_gen soft_producer (PInt 1) ''t'' [] 0 = Inr
      \<lparr>topic = ''t'', payload = PInt 1, event_id = [], timestamp = sample_time, source = None, severity = INFO,
       priority = NORMAL, correlation_id = None, trace_context = PNone, metadata = PDict [],
       schema_version = 1\<rparr>"
    by (simp add: producer_envelope_def post_init_def sample_gen_def sample_time_def dt_aware_def
        ENVELOPE_SCHEMA_VERSION_def get_or_def)
  from producer_delivery_errors[OF this, of sqlite_ops False 0 False None] show ?thesis by simp
qed

text \<open>a request is validated first, in both modes: a naive datetime as \<open>timestamp\<close> raises and
  publishes nothing, while a \<open>timestamp\<close> that is no datetime is not refused but replaced by the clock.\<close>

theorem producer_timestamp:
  "(dict_get kwargs ''timestamp'' = Some (PDate d) \<and> \<not> dt_aware d \<longrightarrow>
      (\<exists>msg. publish_event G ops m now p waited body q kwargs n bo = (Inl (ValueError msg), bo))) \<and>
   (dict_get kwargs ''timestamp'' = Some (PStr s) \<and> dt_aware (utcnow G n) \<longrightarrow>
      (\<exists>e. producer_envelope G p body q kwargs n = Inr e \<and> timestamp e = utcnow G n))"
  by (auto simp: publish_event_def producer_envelope_def post_init_def get_or_def)

theorem producer_timestamp_witness:
  "\<exists>msg. publish_event sample_gen sqlite_ops False 0 soft_producer False (PInt 1) ''t''
      [(''timestamp'', PDate (sample_time\<lparr>dt_utcoff := None\<rparr>))] 0 None = (Inl (ValueError msg), None)"
  using producer_timestamp[of "[(''timestamp'', PDate (sample_time\<lparr>dt_utcoff := None\<rparr>))]" "sample_time\<lparr>dt_utcoff := None\<rparr>"]
  by (simp add: dt_aware_def)

section \<open>The event contract\<close>

text \<open>The properties of the event contract: the wire form of the envelope, its guard, and topics.\<close>

text \<open>C39: an envelope of the current schema survives its wire dictionary unchanged, and one of any
  other schema version is refused when it is read back.\<close>

theorem envelope_wire_roundtrip:
  assumes "wf_envelope e"
  shows "from_dict u (to_dict e) =
    (if schema_version e = ENVELOPE_SCHEMA_VERSION then Inr e else Inl UnsupportedSchemaVersion)"
  using assms by (rule from_dict_to_dict)

theorem envelope_wire_roundtrip_witness:
  "from_dict [] (to_dict (sample_event ''a'' ''t'' LOW)) = Inr (sample_event ''a'' ''t'' LOW)"
  using envelope_wire_roundtrip[OF sample_wf, of "[]" "''a''" "''t''" LOW]
  by (simp add: sample_event_def ENVELOPE_SCHEMA_VERSION_def)

text \<open>C40: whatever dictionary arrives off the wire, an envelope read from it has a valid, aware
  timestamp and the current schema version.\<close>

theorem envelope_reader_guards:
  assumes "from_dict u data = Inr e"
  shows "wf_envelope e \<and> schema_version e = ENVELOPE_SCHEMA_VERSION"
  using assms by (rule from_dict_wf_schema)

theorem envelope_reader_guards_witness:
  "wf_envelope (sample_event ''a'' ''t'' LOW) \<and> schema_version (sample_event ''a'' ''t'' LOW) = ENVELOPE_SCHEMA_VERSION"
  by (rule envelope_reader_guards[of "[]" "to_dict (sample_event ''a'' ''t'' LOW)"]) simp

text \<open>a subscription whose pattern has no wildcard matches its own topic only, and one whose
  pattern ends in a single star matches exactly the topics that start with what precedes it, over
  every separator.\<close>

theorem pattern_matching:
  assumes "\<forall>c \<in> set p. \<not> is_meta_char c"
  shows "(sub_pattern s = p \<longrightarrow> (pattern_matches t s \<longleftrightarrow> t = p)) \<and>
    (sub_pattern s = p @ ''*'' \<longrightarrow> (pattern_matches t s \<longleftrightarrow> prefix p t))"
  using fnmatch_literal[OF assms] fnmatch_prefix_star[OF assms] by (simp add: pattern_matches_def)

theorem pattern_matching_witness:
  "pattern_matches ''order.item.created'' (sample_sub ''s'' ''order.*'' 0 0) \<and>
   \<not> pattern_matches ''order'' (sample_sub ''s'' ''order.*'' 0 0)"
proof -
  have "\<forall>c \<in> set ''order.''. \<not> is_meta_char c" by (simp add: is_meta_char_def)
  from pattern_matching[OF this, of "sample_sub ''s'' ''order.*'' 0 0" "''order.item.created''"]
    pattern_matching[OF this, of "sample_sub ''s'' ''order.*'' 0 0" "''order''"]
  show ?thesis by (simp add: sample_sub_def)
qed

end
