(* ===== verification/Json.thy ===== *)
theory Json
  imports PyValues
begin

text \<open>
  The JSON codec of the standard library as an argument of the definitions that use it: \<open>dumps\<close>
  raises on a value JSON has no form for, \<open>loads\<close> raises on text that is no JSON.  What the code
  relies on: reading the text of a value gives the value back.
\<close>

record json_codec =
  dumps :: "pyval \<Rightarrow> string result"
  loads :: "string \<Rightarrow> pyval result"

definition codec_ok :: "json_codec \<Rightarrow> bool" where
  "codec_ok J \<longleftrightarrow> (\<forall>v s. dumps J v = Inr s \<longrightarrow> loads J s = Inr v)"

end
