(* ===== verification/Dlq.thy ===== *)
theory Dlq
  imports BusOps Json
begin

text \<open>
  \<open>DLQHandler\<close> of dlq.py: the \<open>on_dlq\<close> callback of the bus, the table \<open>navigator.evb_dlq\<close> as the
  list of its rows (each a dictionary, as the driver hands it out), persistence and replay.

  The JSON codec is an argument: \<open>dumps\<close> raises on a value JSON has no form for, \<open>loads\<close> reads the
  text back.  JSONB columns are handed out as text, as asyncpg does.  Whether the database accepted
  a call is an argument too (\<open>db\<close>: \<^const>\<open>None\<close>, or the message of its exception).
\<close>

subsection \<open>Time order\<close>

definition days_before_year :: "int \<Rightarrow> int" where
  "days_before_year y = (y - 1) * 365 + (y - 1) div 4 - (y - 1) div 100 + (y - 1) div 400"

definition dt_ordinal :: "py_datetime \<Rightarrow> int" where
  "dt_ordinal d =
     days_before_year (int (dt_year d)) +
     int (sum_list (map (days_in_month (dt_year d)) [1 ..< dt_month d])) + int (dt_day d)"

text \<open>Microseconds of the instant: what comparing two \<open>TIMESTAMPTZ\<close> values compares.\<close>

definition dt_instant :: "py_datetime \<Rightarrow> int" where
  "dt_instant d =
     (((dt_ordinal d * 24 + int (dt_hour d)) * 60 + int (dt_minute d)) * 60 + int (dt_second d)
       - (case dt_utcoff d of None \<Rightarrow> 0 | Some z \<Rightarrow> z)) * 1000000 + int (dt_micro d)"

subsection \<open>State\<close>

record dlq =
  dl_dsn :: bool
  dl_rows :: "pydict list"
  dl_tasks :: "(envelope \<times> nat \<times> exn \<times> string) list"

definition navconfig_default_dsn :: "(string \<Rightarrow> string option) \<Rightarrow> string option" where
  "navconfig_default_dsn nav =
     (case nav ''DBUSER'' of
        None \<Rightarrow> None
      | Some [] \<Rightarrow> None
      | Some user \<Rightarrow>
          (let dflt = (\<lambda>k d. case nav k of None \<Rightarrow> d | Some v \<Rightarrow> v);
               pwd = (case nav ''DBPWD'' of Some (c # cs) \<Rightarrow> CHR '':'' # c # cs | _ \<Rightarrow> [])
           in Some (''postgres://'' @ user @ pwd @ ''@'' @ dflt ''DBHOST'' ''localhost'' @ '':'' @
                    dflt ''DBPORT'' ''5432'' @ ''/'' @ dflt ''DBNAME'' ''navigator'')))"

subsection \<open>The callback\<close>

definition failure_dict :: "envelope \<Rightarrow> nat \<Rightarrow> exn \<Rightarrow> string \<Rightarrow> pydict" where
  "failure_dict e attempts exc sub =
     [(''attempts'', PInt (int attempts)), (''error_type'', PStr (fst exc)), (''error_message'', PStr (snd exc)),
      (''failed_subscriber'', PStr sub), (''original_topic'', PStr (topic e))]"

definition dlq_envelope :: "gen \<Rightarrow> nat \<Rightarrow> envelope \<Rightarrow> nat \<Rightarrow> exn \<Rightarrow> string \<Rightarrow> envelope" where
  "dlq_envelope G n e attempts exc sub =
     \<lparr>topic = ''bus.dlq'',
      payload = PDict [(''envelope'', PDict (to_dict e)), (''failure'', PDict (failure_dict e attempts exc sub))],
      event_id = uuid4 G n, timestamp = utcnow G n, source = Some ''bus-dlq'', severity = WARNING,
      priority = HIGH, correlation_id = correlation_id e, trace_context = PNone, metadata = PDict [],
      schema_version = ENVELOPE_SCHEMA_VERSION\<rparr>"

definition draw :: "'o bus \<Rightarrow> 'o bus" where
  "draw b = b\<lparr>b_draws := Suc (b_draws b)\<rparr>"

text \<open>Part 1 republishes on \<open>bus.dlq\<close>, whatever comes of it; part 2 spawns the persistence task.\<close>

definition on_dlq_publish ::
    "gen \<Rightarrow> 'o outbox_ops \<Rightarrow> bool \<Rightarrow> real \<Rightarrow> envelope \<Rightarrow> nat \<Rightarrow> exn \<Rightarrow> string \<Rightarrow> 'o bus \<Rightarrow> 'o bus" where
  "on_dlq_publish G ops in_meta now e attempts exc sub b =
     snd (publish G ops in_meta now (dlq_envelope G (b_draws b) e attempts exc sub) (draw b))"

definition on_dlq_spawn :: "envelope \<Rightarrow> nat \<Rightarrow> exn \<Rightarrow> string \<Rightarrow> dlq \<Rightarrow> dlq" where
  "on_dlq_spawn e attempts exc sub d =
     (if dl_dsn d then d\<lparr>dl_tasks := dl_tasks d @ [(e, attempts, exc, sub)]\<rparr> else d)"

definition on_dlq ::
    "gen \<Rightarrow> 'o outbox_ops \<Rightarrow> bool \<Rightarrow> real \<Rightarrow> envelope \<Rightarrow> nat \<Rightarrow> exn \<Rightarrow> string \<Rightarrow> 'o bus \<times> dlq \<Rightarrow> 'o bus \<times> dlq" where
  "on_dlq G ops in_meta now e attempts exc sub s =
     (on_dlq_publish G ops in_meta now e attempts exc sub (fst s), on_dlq_spawn e attempts exc sub (snd s))"

subsection \<open>Persistence\<close>

definition dlq_row :: "json_codec \<Rightarrow> py_datetime \<Rightarrow> envelope \<Rightarrow> nat \<Rightarrow> exn \<Rightarrow> pydict result" where
  "dlq_row J now e attempts exc =
     bind_r (dumps J (payload e)) (\<lambda>p.
     bind_r (if trace_context e = PNone then Inr PNone else map_sum id PStr (dumps J (trace_context e))) (\<lambda>tc.
     bind_r (dumps J (metadata e)) (\<lambda>md.
     Inr [(''event_id'', PStr (event_id e)), (''topic'', PStr (topic e)), (''payload'', PStr p),
          (''severity'', PInt (severity_value (severity e))), (''priority'', PInt (priority_value (priority e))),
          (''source'', opt_str (source e)), (''correlation_id'', opt_str (correlation_id e)),
          (''trace_context'', tc), (''metadata'', PStr md), (''schema_version'', PInt (schema_version e)),
          (''failure_reason'', PStr (fst exc @ '': '' @ snd exc)), (''attempts'', PInt (int attempts)),
          (''replayed_at'', PNone), (''failed_at'', PDate now)])))"

definition row_key :: "pydict \<Rightarrow> pyval" where
  "row_key r = get_or r ''event_id'' PNone"

text \<open>\<open>ON CONFLICT (event_id) DO NOTHING\<close>.\<close>

definition insert_dlq :: "pydict \<Rightarrow> dlq \<Rightarrow> dlq" where
  "insert_dlq r d = (if row_key r \<in> row_key ` set (dl_rows d) then d else d\<lparr>dl_rows := dl_rows d @ [r]\<rparr>)"

definition dlq_error_envelope :: "gen \<Rightarrow> nat \<Rightarrow> envelope \<Rightarrow> string \<Rightarrow> envelope" where
  "dlq_error_envelope G n e msg =
     \<lparr>topic = ''bus.dlq_error'', payload = PDict [(''event_id'', PStr (event_id e)), (''error'', PStr msg)],
      event_id = uuid4 G n, timestamp = utcnow G n, source = Some ''bus-dlq'', severity = WARNING,
      priority = NORMAL, correlation_id = None, trace_context = PNone, metadata = PDict [],
      schema_version = ENVELOPE_SCHEMA_VERSION\<rparr>"

fun exc_msg :: "py_exc \<Rightarrow> string" where
  "exc_msg (KeyError s) = s" | "exc_msg (ValueError s) = s" | "exc_msg (TypeError s) = s"
| "exc_msg (RuntimeError s) = s" | "exc_msg (OtherError s) = s" | "exc_msg x = []"

definition persist ::
    "gen \<Rightarrow> 'o outbox_ops \<Rightarrow> json_codec \<Rightarrow> string option \<Rightarrow> bool \<Rightarrow> real \<Rightarrow> py_datetime \<Rightarrow> envelope \<Rightarrow> nat \<Rightarrow> exn \<Rightarrow>
     'o bus \<times> dlq \<Rightarrow> 'o bus \<times> dlq" where
  "persist G ops J db in_meta now wall e attempts exc s =
     (case s of (b, d) \<Rightarrow>
       (let failed = (\<lambda>msg. (snd (publish G ops in_meta now (dlq_error_envelope G (b_draws b) e msg) (draw b)), d))
        in case db of
             Some msg \<Rightarrow> failed msg
           | None \<Rightarrow>
               (case dlq_row J wall e attempts exc of
                  Inl x \<Rightarrow> failed (exc_msg x)
                | Inr r \<Rightarrow> (b, insert_dlq r d))))"

subsection \<open>Replay\<close>

text \<open>\<open>_json\<close>: text is parsed, a decoded value is kept.\<close>

fun json_col :: "json_codec \<Rightarrow> pyval \<Rightarrow> pyval result" where
  "json_col J (PStr s) = loads J s"
| "json_col J v = Inr v"

definition or_empty :: "pyval \<Rightarrow> pyval" where
  "or_empty v = (if truthy_val v then v else PDict [])"

fun aware_stamp :: "pyval \<Rightarrow> py_datetime result" where
  "aware_stamp (PDate d) = Inr (ensure_aware_utc d)"
| "aware_stamp (PStr s) = map_sum id ensure_aware_utc (of_opt (ValueError ''isoformat'') (fromisoformat s))"
| "aware_stamp v = Inl (TypeError ''failed_at'')"

definition row_to_envelope :: "json_codec \<Rightarrow> pydict \<Rightarrow> envelope result" where
  "row_to_envelope J row =
     bind_r (validate_schema_version
        (case get_or row ''schema_version'' PNone of PNone \<Rightarrow> PInt 1 | v \<Rightarrow> v)) (\<lambda>ver.
     bind_r (bind_r (item row ''failed_at'') aware_stamp) (\<lambda>ts.
     bind_r (bind_r (item row ''topic'') (as_str ''topic'')) (\<lambda>tp.
     bind_r (json_col J (get_or row ''payload'' PNone)) (\<lambda>pl.
     bind_r (bind_r (item row ''event_id'') (as_str ''event_id'')) (\<lambda>eid.
     bind_r (as_opt_str ''source'' (get_or row ''source'' PNone)) (\<lambda>src.
     bind_r (severity_of_val (get_or row ''severity'' (PInt (severity_value INFO)))) (\<lambda>sev.
     bind_r (priority_of_val (get_or row ''priority'' (PInt (priority_value NORMAL)))) (\<lambda>prio.
     bind_r (as_opt_str ''correlation_id'' (get_or row ''correlation_id'' PNone)) (\<lambda>cid.
     bind_r (json_col J (get_or row ''trace_context'' PNone)) (\<lambda>tc.
     bind_r (json_col J (get_or row ''metadata'' PNone)) (\<lambda>md.
     post_init
       \<lparr>topic = tp, payload = or_empty pl, event_id = eid, timestamp = ts, source = src, severity = sev,
        priority = prio, correlation_id = cid, trace_context = tc, metadata = or_empty md,
        schema_version = ver\<rparr>)))))))))))"

datatype selector = ById string | Since py_datetime

definition unreplayed :: "pydict \<Rightarrow> bool" where
  "unreplayed r \<longleftrightarrow> get_or r ''replayed_at'' PNone = PNone"

fun row_instant :: "pydict \<Rightarrow> int" where
  "row_instant r = (case get_or r ''failed_at'' PNone of PDate d \<Rightarrow> dt_instant d | _ \<Rightarrow> 0)"

fun select_rows :: "selector \<Rightarrow> pydict list \<Rightarrow> pydict list" where
  "select_rows (ById i) rows = filter (\<lambda>r. row_key r = PStr i \<and> unreplayed r) rows"
| "select_rows (Since t) rows = sort_key row_instant (filter (\<lambda>r. dt_instant t \<le> row_instant r \<and> unreplayed r) rows)"

definition mark_replayed :: "py_datetime \<Rightarrow> string \<Rightarrow> dlq \<Rightarrow> dlq" where
  "mark_replayed wall i d =
     d\<lparr>dl_rows := map (\<lambda>r. if row_key r = PStr i then dict_set ''replayed_at'' (PDate wall) r else r) (dl_rows d)\<rparr>"

text \<open>The loop over the selected rows: a row that does not decode or publish is skipped, unmarked.\<close>

fun replay_rows ::
    "gen \<Rightarrow> 'o outbox_ops \<Rightarrow> json_codec \<Rightarrow> bool \<Rightarrow> real \<Rightarrow> py_datetime \<Rightarrow> pydict list \<Rightarrow> nat \<Rightarrow> 'o bus \<times> dlq \<Rightarrow> nat \<times> 'o bus \<times> dlq" where
  "replay_rows G ops J m now wall [] n s = (n, s)"
| "replay_rows G ops J m now wall (r # rs) n (b, d) =
     (case row_to_envelope J r of
        Inl _ \<Rightarrow> replay_rows G ops J m now wall rs n (b, d)
      | Inr e \<Rightarrow>
          (case publish G ops m now e b of
             (Inl _, b1) \<Rightarrow> replay_rows G ops J m now wall rs n (b1, d)
           | (Inr _, b1) \<Rightarrow> replay_rows G ops J m now wall rs (Suc n) (b1, mark_replayed wall (event_id e) d)))"

definition replay ::
    "gen \<Rightarrow> 'o outbox_ops \<Rightarrow> json_codec \<Rightarrow> string option \<Rightarrow> bool \<Rightarrow> real \<Rightarrow> py_datetime \<Rightarrow> string option \<Rightarrow>
     py_datetime option \<Rightarrow> 'o bus \<times> dlq \<Rightarrow> nat result \<times> 'o bus \<times> dlq" where
  "replay G ops J db m now wall i since s =
     (if (i = None) = (since = None) then (Inl (ValueError ''replay() needs exactly one of event_id/since''), s)
      else if \<not> dl_dsn (snd s) then (Inl (ValueError ''DLQ persistence is disabled (no DSN)''), s)
      else (case db of
              Some msg \<Rightarrow> (Inl (RuntimeError msg), s)
            | None \<Rightarrow>
                (let sel = (case i of Some x \<Rightarrow> ById x | None \<Rightarrow> (case since of Some t \<Rightarrow> Since t | None \<Rightarrow> ById []))
                 in case replay_rows G ops J m now wall (select_rows sel (dl_rows (snd s))) 0 s of
                      (n, s') \<Rightarrow> (Inr n, s'))))"

end
