(* ===== verification/DlqProps.thy ===== *)
theory DlqProps
  imports Dlq Samples
begin

text \<open>
  The properties of the dead letter queue: the stored row gives the envelope back, replay marks
  exactly what it republished, and what the write-once rows mean for an event that fails again.
\<close>

text \<open>the envelope rebuilt from the row of a dead letter is the original in every field but its
  timestamp, which becomes the time of the failure, and an empty payload or metadata, which becomes
  the empty dictionary; a row of an unknown schema version is refused.\<close>

theorem dlq_row_roundtrip:
  assumes "codec_ok J" "dlq_row J wall e attempts exc = Inr r" "dt_aware wall"
  shows "row_to_envelope J r =
    (if schema_version e = ENVELOPE_SCHEMA_VERSION
     then Inr (e\<lparr>timestamp := wall, payload := or_empty (payload e), metadata := or_empty (metadata e)\<rparr>)
     else Inl UnsupportedSchemaVersion)"
proof -
  from assms(2) obtain p tc md where d: "dumps J (payload e) = Inr p"
    "(if trace_context e = PNone then Inr PNone else map_sum id PStr (dumps J (trace_context e))) = Inr tc"
    "dumps J (metadata e) = Inr md"
    and r: "r = [(''event_id'', PStr (event_id e)), (''topic'', PStr (topic e)), (''payload'', PStr p),
          (''severity'', PInt (severity_value (severity e))), (''priority'', PInt (priority_value (priority e))),
          (''source'', opt_str (source e)), (''correlation_id'', opt_str (correlation_id e)),
          (''trace_context'', tc), (''metadata'', PStr md), (''schema_version'', PInt (schema_version e)),
          (''failure_reason'', PStr (fst exc @ '': '' @ snd exc)), (''attempts'', PInt (int attempts)),
          (''replayed_at'', PNone), (''failed_at'', PDate wall)]"
    unfolding dlq_row_def bind_r_Inr_iff by blast
  have l: "loads J p = Inr (payload e)" "loads J md = Inr (metadata e)"
    using assms(1) d(1,3) by (auto simp: codec_ok_def)
  have tc: "json_col J tc = Inr (trace_context e)"
  proof (cases "trace_context e = PNone")
    case True
    then show ?thesis using d(2) by simp
  next
    case False
    then obtain t where "dumps J (trace_context e) = Inr t" "tc = PStr t"
      using d(2) by (cases "dumps J (trace_context e)") auto
    then show ?thesis using assms(1) by (simp add: codec_ok_def)
  qed
  have "ensure_aware_utc wall = wall" using assms(3) by (simp add: ensure_aware_utc_def)
  then show ?thesis
    using assms(3) l tc unfolding r
    by (auto simp: row_to_envelope_def get_or_def item_def post_init_def ENVELOPE_SCHEMA_VERSION_def)
qed

text \<open>A codec on a few values, for the witnesses.\<close>

definition tiny_json :: json_codec where
  "tiny_json =
     \<lparr>dumps = (\<lambda>v. if v = PDict [] then Inr ''{}'' else if v = PDict [(''n'', PInt 1)] then Inr ''n1''
                 else Inl (TypeError [])),
      loads = (\<lambda>s. if s = ''{}'' then Inr (PDict []) else if s = ''n1'' then Inr (PDict [(''n'', PInt 1)])
                 else Inl (ValueError []))\<rparr>"

lemma tiny_json_ok: "codec_ok tiny_json"
  by (simp add: codec_ok_def tiny_json_def)

lemma tiny_row:
  "\<exists>r. dlq_row tiny_json sample_time (sample_event i t p) 3 (''E'', ''m'') = Inr r \<and> row_key r = PStr i \<and> unreplayed r"
  by (simp add: dlq_row_def tiny_json_def sample_event_def row_key_def get_or_def unreplayed_def)

theorem dlq_row_roundtrip_witness:
  "\<exists>r. dlq_row tiny_json sample_time (sample_event ''a'' ''t'' LOW) 3 (''E'', ''m'') = Inr r \<and>
     row_to_envelope tiny_json r = Inr (sample_event ''a'' ''t'' LOW)"
proof -
  obtain r where r: "dlq_row tiny_json sample_time (sample_event ''a'' ''t'' LOW) 3 (''E'', ''m'') = Inr r"
    using tiny_row by blast
  show ?thesis
    using dlq_row_roundtrip[OF tiny_json_ok r] r
    by (simp add: sample_event_def sample_time_def dt_aware_def ENVELOPE_SCHEMA_VERSION_def or_empty_def)
qed

subsection \<open>Replay\<close>

lemma row_key_mark [simp]: "row_key (dict_set ''replayed_at'' v r) = row_key r"
  by (simp add: row_key_def get_or_def)

lemma unreplayed_mark [simp]: "\<not> unreplayed (dict_set ''replayed_at'' (PDate w) r)"
  by (simp add: unreplayed_def get_or_def)

lemma as_str_Inr [simp]: "as_str k v = Inr s \<longleftrightarrow> v = PStr s"
  by (cases v) auto

lemma decoded_key: "row_to_envelope J r = Inr e \<Longrightarrow> row_key r = PStr (event_id e)"
proof -
  assume "row_to_envelope J r = Inr e"
  then obtain eid where "bind_r (item r ''event_id'') (as_str ''event_id'') = Inr eid" "event_id e = eid"
    unfolding row_to_envelope_def bind_r_Inr_iff by (auto simp: post_init_def split: if_splits)
  then have "item r ''event_id'' = Inr (PStr (event_id e))" by (simp add: bind_r_Inr_iff)
  then show ?thesis
    by (cases "dict_get r ''event_id''") (simp_all add: item_def row_key_def get_or_def)
qed

definition open_rows :: "dlq \<Rightarrow> pydict list" where
  "open_rows d = filter unreplayed (dl_rows d)"

lemma mark_count:
  assumes "distinct (map row_key rows)" "r \<in> set rows" "unreplayed r" "row_key r = PStr i"
  shows "length (filter unreplayed rows) =
    Suc (length (filter unreplayed (map (\<lambda>r. if row_key r = PStr i then dict_set ''replayed_at'' (PDate w) r else r) rows)))"
  using assms
proof (induction rows)
  case (Cons a rows)
  let ?f = "\<lambda>r. if row_key r = PStr i then dict_set ''replayed_at'' (PDate w) r else r"
  show ?case
  proof (cases "row_key a = PStr i")
    case True
    then have "\<forall>x \<in> set rows. row_key x \<noteq> PStr i" using Cons.prems(1) by (auto simp: image_iff)
    then have "map ?f rows = rows" by (auto intro: map_idI)
    moreover have "a = r" using True Cons.prems \<open>\<forall>x \<in> set rows. row_key x \<noteq> PStr i\<close> by auto
    ultimately show ?thesis using Cons.prems(3) True by simp
  next
    case False
    then have "r \<in> set rows" using Cons.prems(2,4) by auto
    then show ?thesis using Cons False by auto
  qed
qed simp

lemma replay_rows_count:
  assumes "replay_rows G ops J m now wall rs n (b, d) = (k, b', d')"
    and "distinct (map row_key (dl_rows d))" "set rs \<subseteq> set (open_rows d)" "distinct (map row_key rs)"
  shows "map row_key (dl_rows d') = map row_key (dl_rows d) \<and>
    k + length (open_rows d') = n + length (open_rows d) \<and> k \<le> n + length rs"
  using assms
proof (induction rs arbitrary: b d n)
  case Nil
  then show ?case by simp
next
  case (Cons r rs)
  have dr: "distinct (map row_key rs)" "set rs \<subseteq> set (open_rows d)" using Cons.prems(3,4) by auto
  show ?case
  proof (cases "row_to_envelope J r")
    case (Inl x)
    then have "replay_rows G ops J m now wall rs n (b, d) = (k, b', d')" using Cons.prems(1) by simp
    from Cons.IH[OF this Cons.prems(2) dr(2,1)] show ?thesis by auto
  next
    case e: (Inr e)
    obtain q b1 where p: "publish G ops m now e b = (q, b1)" by force
    show ?thesis
    proof (cases q)
      case (Inl x)
      then have "replay_rows G ops J m now wall rs n (b1, d) = (k, b', d')" using Cons.prems(1) e p by simp
      from Cons.IH[OF this Cons.prems(2) dr(2,1)] show ?thesis by auto
    next
      case (Inr q')
      define d1 where "d1 = mark_replayed wall (event_id e) d"
      have key: "row_key r = PStr (event_id e)" by (rule decoded_key[OF e])
      have r: "r \<in> set (dl_rows d)" "unreplayed r" using Cons.prems(3) by (auto simp: open_rows_def)
      have rows: "map row_key (dl_rows d1) = map row_key (dl_rows d)"
        by (simp add: d1_def mark_replayed_def)
      have cnt: "length (open_rows d) = Suc (length (open_rows d1))"
        using mark_count[OF Cons.prems(2) r key, of wall] by (simp add: open_rows_def d1_def mark_replayed_def)
      have keep: "set rs \<subseteq> set (open_rows d1)"
      proof
        fix x assume x: "x \<in> set rs"
        have ne: "row_key x \<noteq> PStr (event_id e)" using Cons.prems(4) x key by (auto simp: image_iff)
        have "x \<in> set (dl_rows d)" "unreplayed x" using dr(2) x by (auto simp: open_rows_def)
        then show "x \<in> set (open_rows d1)" using ne
          unfolding open_rows_def d1_def mark_replayed_def by (auto simp: image_iff intro!: bexI[of _ x])
      qed
      have step: "replay_rows G ops J m now wall rs (Suc n) (b1, d1) = (k, b', d')"
        using Cons.prems(1) e p Inr by (simp add: d1_def)
      have "distinct (map row_key (dl_rows d1))" using rows Cons.prems(2) by simp
      from Cons.IH[OF step this keep dr(1)] show ?thesis using rows cnt by simp
    qed
  qed
qed

lemma select_rows_facts:
  assumes "distinct (map row_key (dl_rows d))"
  shows "set (select_rows sel (dl_rows d)) \<subseteq> set (open_rows d)" "distinct (map row_key (select_rows sel (dl_rows d)))"
  using assms by (cases sel; auto simp: open_rows_def distinct_map intro: inj_on_subset)+

text \<open>a replay adds and removes no row, and the number it returns is exactly the number of rows
  it turned from not replayed to replayed: a row that does not decode, or whose publish raises, is
  neither counted nor marked.\<close>

theorem replay_exact:
  assumes "distinct (map row_key (dl_rows d))" "replay G ops J db m now wall i since (b, d) = (Inr n, b', d')"
  shows "map row_key (dl_rows d') = map row_key (dl_rows d) \<and> n + length (open_rows d') = length (open_rows d)"
proof -
  obtain sel where "replay_rows G ops J m now wall (select_rows sel (dl_rows d)) 0 (b, d) = (n, b', d')"
    using assms(2) unfolding replay_def Let_def
    by (simp del: select_rows.simps split: if_splits option.splits prod.splits; blast)
  from replay_rows_count[OF this assms(1) select_rows_facts[OF assms(1)]] show ?thesis by simp
qed

abbreviation stored_dlq :: dlq where
  "stored_dlq \<equiv> \<lparr>dl_dsn = True, dl_rows = [projr (dlq_row tiny_json sample_time (sample_event ''a'' ''t'' LOW) 3 (''E'', ''m''))],
     dl_tasks = []\<rparr>"

theorem replay_exact_witness:
  "\<exists>n b' d'. replay sample_gen sqlite_ops tiny_json None False 0 sample_time (Some ''a'') None (sample_bus ''block'' None, stored_dlq)
     = (Inr n, b', d') \<and> n + length (open_rows d') = 1"
proof -
  obtain n b' d' where r: "replay sample_gen sqlite_ops tiny_json None False 0 sample_time (Some ''a'') None
      (sample_bus ''block'' None, stored_dlq) = (Inr n, b', d')"
    by (cases "replay_rows sample_gen sqlite_ops tiny_json False 0 sample_time
          (select_rows (ById ''a'') (dl_rows stored_dlq)) 0 (sample_bus ''block'' None, stored_dlq)")
      (auto simp: replay_def simp del: select_rows.simps)
  have "length (open_rows stored_dlq) = 1" using tiny_row[of "''a''" "''t''" LOW] by (auto simp: open_rows_def)
  then show ?thesis using replay_exact[OF _ r] r by auto
qed

text \<open>a dead letter that was replayed and fails again is lost to every later replay: its row
  stays, marked as replayed, the new failure is not stored beside it, and no selector returns it.\<close>

theorem replayed_failure_not_stored_again:
  assumes "distinct (map row_key (dl_rows d))" "r \<in> set (dl_rows d)" "row_key r = PStr (event_id e)" "\<not> unreplayed r"
  shows "dl_rows (snd (persist G ops J db m now wall e attempts exc (b, d))) = dl_rows d \<and>
    (\<forall>sel. \<forall>x \<in> set (select_rows sel (dl_rows d)). row_key x \<noteq> PStr (event_id e))"
proof
  have "row_key x = PStr (event_id e)" if "dlq_row J wall e attempts exc = Inr x" for x
    using that by (auto simp: dlq_row_def bind_r_Inr_iff row_key_def get_or_def)
  moreover have "PStr (event_id e) \<in> row_key ` set (dl_rows d)" using assms(2,3) by (metis image_eqI)
  ultimately show "dl_rows (snd (persist G ops J db m now wall e attempts exc (b, d))) = dl_rows d"
    by (auto simp: persist_def Let_def insert_dlq_def split: option.split sum.split)
  have "x = r" if "x \<in> set (dl_rows d)" "row_key x = PStr (event_id e)" for x
    using assms(1-3) that by (auto simp: distinct_map inj_on_def)
  then show "\<forall>sel. \<forall>x \<in> set (select_rows sel (dl_rows d)). row_key x \<noteq> PStr (event_id e)"
    using select_rows_facts(1)[OF assms(1)] assms(4) by (fastforce simp: open_rows_def)
qed

abbreviation marked_dlq :: dlq where
  "marked_dlq \<equiv> mark_replayed sample_time ''a'' stored_dlq"

theorem replayed_failure_not_stored_again_witness:
  "select_rows (ById ''a'') (dl_rows marked_dlq) = []"
proof -
  obtain r where r: "dlq_row tiny_json sample_time (sample_event ''a'' ''t'' LOW) 3 (''E'', ''m'') = Inr r"
    "row_key r = PStr ''a''" using tiny_row by blast
  then have "dl_rows marked_dlq = [dict_set ''replayed_at'' (PDate sample_time) r]" by (simp add: mark_replayed_def)
  then have "\<forall>x \<in> set (select_rows (ById ''a'') (dl_rows marked_dlq)). row_key x \<noteq> PStr ''a''"
    using replayed_failure_not_stored_again[where d = marked_dlq and r = "dict_set ''replayed_at'' (PDate sample_time) r"
        and e = "sample_event ''a'' ''t'' LOW"] r by simp
  then show ?thesis by (auto simp: filter_empty_conv)
qed

end
