(* ===== verification/Signatures.thy ===== *)
theory Signatures
  imports Prelude Complex_Main
begin

text \<open>
  The webhook signature schemes of webhook_signatures.py: the plain hex digest scheme (GitHub,
  Jira, generic), Stripe's timestamped scheme, and the registry.  Texts and bodies are byte
  strings; the HMAC is an argument \<open>mac algo secret message\<close> giving the hex digest.  The
  comparison in constant time is a comparison.
\<close>

subsection \<open>Checks\<close>

datatype verdict = OK | MISSING | MALFORMED | MISMATCH | STALE

type_synonym check = "verdict \<times> string option"

type_synonym hmac = "string \<Rightarrow> string \<Rightarrow> string \<Rightarrow> string"

type_synonym headers = "(string \<times> string) list"

definition ALGORITHMS :: "string list" where
  "ALGORITHMS = [''sha1'', ''sha256'', ''sha512'']"

definition equal_digest :: "string \<Rightarrow> string \<Rightarrow> bool" where
  "equal_digest a b \<longleftrightarrow> py_lower (py_strip a) = py_lower (py_strip b)"

definition is_hex :: "string \<Rightarrow> bool" where
  "is_hex v \<longleftrightarrow> v \<noteq> [] \<and> py_int 16 v \<noteq> None"

fun scan_header :: "string \<Rightarrow> headers \<Rightarrow> string option" where
  "scan_header lowered [] = None"
| "scan_header lowered ((k, v) # hs) = (if py_lower k = lowered then Some v else scan_header lowered hs)"

definition read_header :: "string \<Rightarrow> headers \<Rightarrow> string option \<Rightarrow> string option" where
  "read_header own hs override =
     (let name = (case override of Some (c # cs) \<Rightarrow> c # cs | _ \<Rightarrow> own)
      in case dict_get hs name of
           Some v \<Rightarrow> Some v
         | None \<Rightarrow> scan_header (py_lower name) hs)"

subsection \<open>The hex digest scheme\<close>

record hex_scheme =
  hs_name :: string
  hs_header :: string
  hs_algorithms :: "string list"
  hs_allow_bare :: bool
  hs_emit_prefix :: bool

definition hex_new :: "string \<Rightarrow> string \<Rightarrow> string list \<Rightarrow> bool \<Rightarrow> bool \<Rightarrow> hex_scheme result" where
  "hex_new name header algorithms allow_bare emit_prefix =
     (if filter (\<lambda>a. a \<notin> set ALGORITHMS) algorithms \<noteq> [] then Inl (ValueError ''unknown algorithm(s)'')
      else if algorithms = [] then Inl (ValueError ''at least one algorithm required'')
      else Inr \<lparr>hs_name = name, hs_header = header, hs_algorithms = algorithms,
                hs_allow_bare = allow_bare, hs_emit_prefix = emit_prefix\<rparr>)"

text \<open>The value of the header, split into algorithm and digest.\<close>

definition hex_parse :: "hex_scheme \<Rightarrow> string \<Rightarrow> check + string \<times> string" where
  "hex_parse s raw =
     (case py_partition (CHR ''='') raw of
        (a, True, digest) \<Rightarrow>
          (let algo = py_lower (py_strip a)
           in if algo \<notin> set (hs_algorithms s) then Inl (MALFORMED, Some ''unsupported_alg'')
              else Inr (algo, digest))
      | (_, False, _) \<Rightarrow>
          if hs_allow_bare s then Inr (hd (hs_algorithms s), raw)
          else Inl (MALFORMED, Some ''missing_alg_prefix''))"

definition hex_verify ::
    "hmac \<Rightarrow> hex_scheme \<Rightarrow> string \<Rightarrow> string \<Rightarrow> headers \<Rightarrow> string option \<Rightarrow> int \<Rightarrow> real \<Rightarrow> check" where
  "hex_verify mac s secret body hs override tolerance now =
     (case read_header (hs_header s) hs override of
        None \<Rightarrow> (MISSING, None)
      | Some [] \<Rightarrow> (MISSING, None)
      | Some raw \<Rightarrow>
          (case hex_parse s (py_strip raw) of
             Inl c \<Rightarrow> c
           | Inr (algo, d) \<Rightarrow>
               (let digest = py_strip d
                in if \<not> is_hex digest then (MALFORMED, Some ''not_hex'')
                   else if equal_digest (mac algo secret body) digest then (OK, None)
                   else (MISMATCH, None))))"

definition hex_sign :: "hmac \<Rightarrow> hex_scheme \<Rightarrow> string \<Rightarrow> string \<Rightarrow> real \<Rightarrow> headers" where
  "hex_sign mac s secret body now =
     (let algo = hd (hs_algorithms s); digest = mac algo secret body
      in [(hs_header s, if hs_emit_prefix s then algo @ ''='' @ digest else digest)])"

subsection \<open>Stripe\<close>

record stripe_scheme =
  ss_name :: string
  ss_header :: string
  ss_algorithm :: string

definition stripe_new :: "string \<Rightarrow> string \<Rightarrow> string \<Rightarrow> stripe_scheme result" where
  "stripe_new name header algorithm =
     (if algorithm \<notin> set ALGORITHMS then Inl (ValueError ''unknown algorithm'')
      else Inr \<lparr>ss_name = name, ss_header = header, ss_algorithm = algorithm\<rparr>)"

fun stripe_parts :: "string list \<Rightarrow> string option \<Rightarrow> string list \<Rightarrow> string option \<times> string list" where
  "stripe_parts [] t sigs = (t, sigs)"
| "stripe_parts (part # ps) t sigs =
     (case py_partition (CHR ''='') (py_strip part) of
        (k, False, v) \<Rightarrow> stripe_parts ps t sigs
      | (k, True, v) \<Rightarrow>
          (let key = py_strip k
           in if key = ''t'' \<and> t = None then stripe_parts ps (Some (py_strip v)) sigs
              else if key = ''v1'' then stripe_parts ps t (sigs @ [py_strip v])
              else stripe_parts ps t sigs))"

definition stripe_parse :: "string \<Rightarrow> string option \<times> string list" where
  "stripe_parse raw = stripe_parts (py_split (CHR '','') raw) None []"

definition stripe_message :: "int \<Rightarrow> string \<Rightarrow> string" where
  "stripe_message issued_at body = int_str issued_at @ ''.'' @ body"

definition stripe_verify ::
    "hmac \<Rightarrow> stripe_scheme \<Rightarrow> string \<Rightarrow> string \<Rightarrow> headers \<Rightarrow> string option \<Rightarrow> int \<Rightarrow> real \<Rightarrow> check" where
  "stripe_verify mac s secret body hs override tolerance now =
     (case read_header (ss_header s) hs override of
        None \<Rightarrow> (MISSING, None)
      | Some [] \<Rightarrow> (MISSING, None)
      | Some raw \<Rightarrow>
          (case stripe_parse raw of
             (None, _) \<Rightarrow> (MALFORMED, Some ''missing_timestamp'')
           | (Some t, sigs) \<Rightarrow>
               if sigs = [] then (MALFORMED, Some ''missing_v1'')
               else (case py_int 10 t of
                       None \<Rightarrow> (MALFORMED, Some ''bad_timestamp'')
                     | Some issued_at \<Rightarrow>
                         if \<exists>sig \<in> set sigs. \<not> is_hex sig then (MALFORMED, Some ''not_hex'')
                         else if 0 < tolerance \<and> real_of_int tolerance < \<bar>now - real_of_int issued_at\<bar>
                         then (STALE, Some (if now < real_of_int issued_at then ''future'' else ''expired''))
                         else if \<exists>sig \<in> set sigs.
                             equal_digest (mac (ss_algorithm s) secret (stripe_message issued_at body)) sig
                         then (OK, None)
                         else (MISMATCH, None))))"

text \<open>\<open>int(x)\<close> of a float truncates towards zero.\<close>

definition trunc :: "real \<Rightarrow> int" where
  "trunc x = (if 0 \<le> x then \<lfloor>x\<rfloor> else \<lceil>x\<rceil>)"

definition stripe_sign :: "hmac \<Rightarrow> stripe_scheme \<Rightarrow> string \<Rightarrow> string \<Rightarrow> real \<Rightarrow> headers" where
  "stripe_sign mac s secret body now =
     (let issued_at = trunc now
      in [(ss_header s, ''t='' @ int_str issued_at @ '',v1='' @
             mac (ss_algorithm s) secret (stripe_message issued_at body))])"

subsection \<open>Registry\<close>

datatype scheme = HexDigest hex_scheme | Stripe stripe_scheme

fun scheme_name :: "scheme \<Rightarrow> string" where
  "scheme_name (HexDigest s) = hs_name s"
| "scheme_name (Stripe s) = ss_name s"

fun verify :: "hmac \<Rightarrow> scheme \<Rightarrow> string \<Rightarrow> string \<Rightarrow> headers \<Rightarrow> string option \<Rightarrow> int \<Rightarrow> real \<Rightarrow> check" where
  "verify mac (HexDigest s) = hex_verify mac s"
| "verify mac (Stripe s) = stripe_verify mac s"

fun sign :: "hmac \<Rightarrow> scheme \<Rightarrow> string \<Rightarrow> string \<Rightarrow> real \<Rightarrow> headers" where
  "sign mac (HexDigest s) = hex_sign mac s"
| "sign mac (Stripe s) = stripe_sign mac s"

type_synonym registry = "(string \<times> scheme) list"

definition register_signature_scheme :: "scheme \<Rightarrow> bool \<Rightarrow> registry \<Rightarrow> scheme result \<times> registry" where
  "register_signature_scheme s replace r =
     (if scheme_name s = [] then (Inl (ValueError ''must declare a non-empty name''), r)
      else if dict_get r (scheme_name s) \<noteq> None \<and> \<not> replace
      then (Inl (ValueError ''already registered''), r)
      else (Inr s, dict_set (scheme_name s) s r))"

definition get_signature_scheme :: "string \<Rightarrow> registry \<Rightarrow> scheme result" where
  "get_signature_scheme name r = of_opt (KeyError name) (dict_get r name)"

definition available_signature_schemes :: "registry \<Rightarrow> string list" where
  "available_signature_schemes r = sort (map fst r)"

definition github_scheme :: hex_scheme where
  "github_scheme = \<lparr>hs_name = ''github'', hs_header = ''X-Hub-Signature-256'', hs_algorithms = [''sha256''],
     hs_allow_bare = False, hs_emit_prefix = True\<rparr>"

definition jira_scheme :: hex_scheme where
  "jira_scheme = \<lparr>hs_name = ''jira'', hs_header = ''X-Hub-Signature'', hs_algorithms = [''sha256'', ''sha1''],
     hs_allow_bare = False, hs_emit_prefix = True\<rparr>"

definition generic_scheme :: hex_scheme where
  "generic_scheme = \<lparr>hs_name = ''generic'', hs_header = ''X-Webhook-Signature'', hs_algorithms = [''sha256''],
     hs_allow_bare = True, hs_emit_prefix = True\<rparr>"

definition default_stripe :: stripe_scheme where
  "default_stripe = \<lparr>ss_name = ''stripe'', ss_header = ''Stripe-Signature'', ss_algorithm = ''sha256''\<rparr>"

definition builtin_schemes :: registry where
  "builtin_schemes =
     snd (register_signature_scheme (Stripe default_stripe) False
     (snd (register_signature_scheme (HexDigest generic_scheme) False
     (snd (register_signature_scheme (HexDigest jira_scheme) False
     (snd (register_signature_scheme (HexDigest github_scheme) False [])))))))"

subsection \<open>The contract of a scheme\<close>

text \<open>
  What both directions of the webhook fabric rely on: the verdict depends on the headers only
  through the one value read, a missing value is \<^const>\<open>MISSING\<close>, and signing with a usable scheme
  gives one header that verifies.
\<close>

locale signature_scheme =
  fixes vfy :: "'s \<Rightarrow> string \<Rightarrow> string \<Rightarrow> headers \<Rightarrow> string option \<Rightarrow> int \<Rightarrow> real \<Rightarrow> check"
    and sgn :: "'s \<Rightarrow> string \<Rightarrow> string \<Rightarrow> real \<Rightarrow> headers"
    and header :: "'s \<Rightarrow> string"
    and usable :: "'s \<Rightarrow> bool"
  assumes reads_one: "read_header (header s) hs ov = read_header (header s) hs' ov' \<Longrightarrow>
      vfy s k body hs ov tol now = vfy s k body hs' ov' tol now"
    and missing: "read_header (header s) hs ov = None \<Longrightarrow> vfy s k body hs ov tol now = (MISSING, None)"
    and one_header: "\<exists>v. sgn s k body now = [(header s, v)]"
    and sign_verifies: "usable s \<Longrightarrow> fst (vfy s k body (sgn s k body now) None tol now) = OK"
begin

text \<open>
  A signed delivery verifies at the other end however the header travelled: among other headers,
  under another capitalisation, or copied to an agreed header name.
\<close>

lemma signed_delivery_verifies:
  assumes "usable s" "read_header (header s) hs ov = read_header (header s) (sgn s k body now) None"
  shows "fst (vfy s k body hs ov tol now) = OK"
  using reads_one[OF assms(2)] sign_verifies[OF assms(1)] by simp

lemma stripped_delivery_missing:
  "\<forall>(n, v) \<in> set hs. py_lower n \<noteq> py_lower (header s) \<Longrightarrow> fst (vfy s k body hs None tol now) = MISSING"
proof -
  assume a: "\<forall>(n, v) \<in> set hs. py_lower n \<noteq> py_lower (header s)"
  have "dict_get hs (header s) = None" using a by (induction hs) auto
  moreover have "scan_header (py_lower (header s)) hs = None" using a by (induction hs) auto
  ultimately have "read_header (header s) hs None = None" by (simp add: read_header_def)
  then show ?thesis using missing by simp
qed

end

subsection \<open>The shipped schemes keep the contract\<close>

text \<open>\<open>hexdigest()\<close> is a non-empty run of lower-case hex digits.\<close>

definition mac_ok :: "hmac \<Rightarrow> bool" where
  "mac_ok mac \<longleftrightarrow> (\<forall>a k m. plain_digits 16 (mac a k m))"

definition hex_ok :: "hex_scheme \<Rightarrow> bool" where
  "hex_ok s \<longleftrightarrow> hs_algorithms s \<noteq> [] \<and> set (hs_algorithms s) \<subseteq> set ALGORITHMS"

lemma hex_new_ok: "hex_new n h as b p = Inr s \<Longrightarrow> hex_ok s"
  by (auto simp: hex_new_def hex_ok_def filter_empty_conv split: if_splits)

text \<open>A scheme that signs without the prefix verifies its own output only if it accepts bare digests.\<close>

definition hex_usable :: "hmac \<times> hex_scheme \<Rightarrow> bool" where
  "hex_usable ms \<longleftrightarrow> mac_ok (fst ms) \<and> hex_ok (snd ms) \<and> (hs_emit_prefix (snd ms) \<or> hs_allow_bare (snd ms))"

lemma digits_val_plain: "set s \<subseteq> digit_char ` {..<base} \<Longrightarrow> base \<le> 36 \<Longrightarrow> digits_val base a s \<noteq> None"
proof (induction s arbitrary: a)
  case (Cons c s)
  then obtain d where "c = digit_char d" "d < base" by auto
  then have "digit_val c = Some d" using Cons.prems(2) by simp
  then show ?case using Cons \<open>d < base\<close> by simp
qed simp

lemma is_hex_plain: "plain_digits 16 s \<Longrightarrow> is_hex s"
  using digits_val_plain[of s 16 0] py_int_plain[of 16 s] by (auto simp: is_hex_def plain_digits_def)

lemma mac_facts:
  assumes "mac_ok mac"
  shows "is_hex (mac a k m)" "py_strip (mac a k m) = mac a k m" "mac a k m \<noteq> []"
    "CHR ''='' \<notin> set (mac a k m)" "CHR '','' \<notin> set (mac a k m)" "\<forall>c \<in> set (mac a k m). \<not> is_space c"
proof -
  have p: "plain_digits 16 (mac a k m)" using assms by (simp add: mac_ok_def)
  show "is_hex (mac a k m)" by (rule is_hex_plain[OF p])
  show "mac a k m \<noteq> []" using p by (simp add: plain_digits_def)
  note f = plain_digits_facts[OF p]
  show "py_strip (mac a k m) = mac a k m" "CHR ''='' \<notin> set (mac a k m)" "CHR '','' \<notin> set (mac a k m)"
    "\<forall>c \<in> set (mac a k m). \<not> is_space c"
    using f by (simp_all add: py_strip_id)
qed

lemma equal_digest_refl [simp]: "equal_digest a a"
  by (simp add: equal_digest_def)

lemma read_own [simp]: "read_header h [(h, v)] None = Some v"
  by (simp add: read_header_def)

lemma algorithm_text:
  assumes "a \<in> set ALGORITHMS"
  shows "CHR ''='' \<notin> set a" "\<forall>c \<in> set a. \<not> is_space c" "py_lower a = a"
  using assms by (auto simp: ALGORITHMS_def is_space_def py_lower_def lower_char_def)

lemma hex_sign_verifies:
  assumes "hex_usable (mac, s)"
  shows "fst (hex_verify mac s k body (hex_sign mac s k body now) None tol now) = OK"
proof -
  define a where "a = hd (hs_algorithms s)"
  define d where "d = mac a k body"
  have mac: "mac_ok mac" and hx: "hex_ok s" using assms by (simp_all add: hex_usable_def)
  have a: "a \<in> set (hs_algorithms s)" "a \<in> set ALGORITHMS"
    using hx by (auto simp: hex_ok_def a_def)
  note d = mac_facts[OF mac, of a k body, folded d_def] and at = algorithm_text[OF a(2)]
  have sa: "py_strip a = a" by (rule py_strip_id[OF at(2)])
  let ?v = "if hs_emit_prefix s then a @ ''='' @ d else d"
  have v: "py_strip ?v = ?v"
    by (rule py_strip_id) (use at d in \<open>auto simp: is_space_def\<close>)
  have "hex_parse s ?v = Inr (a, d)"
  proof (cases "hs_emit_prefix s")
    case True
    then show ?thesis using py_partition_sep[OF at(1), of d] a(1) sa at(3) by (simp add: hex_parse_def)
  next
    case False
    then have "hs_allow_bare s" using assms by (simp add: hex_usable_def)
    then show ?thesis using False py_partition_no_sep[OF d(4)] by (simp add: hex_parse_def a_def)
  qed
  moreover obtain c cs where "?v = c # cs" using d(3) by (cases ?v) (auto split: if_splits)
  ultimately show ?thesis
    using v d(1,2) unfolding hex_verify_def hex_sign_def Let_def a_def[symmetric] d_def[symmetric]
    by (simp add: d_def)
qed

definition stripe_usable :: "hmac \<times> stripe_scheme \<Rightarrow> bool" where
  "stripe_usable ms \<longleftrightarrow> mac_ok (fst ms)"

lemma int_str_text: "\<forall>c \<in> set (int_str i). \<not> is_space c \<and> c \<noteq> CHR ''='' \<and> c \<noteq> CHR '',''"
proof -
  have "\<forall>c \<in> set (nat_digits 10 n). \<not> is_space c \<and> c \<noteq> CHR ''='' \<and> c \<noteq> CHR '',''" for n
    using plain_digits_facts[of 10 "nat_digits 10 n"] by auto
  then show ?thesis by (simp add: int_str_def is_space_def)
qed

lemma stripe_parse_signed:
  assumes "\<forall>c \<in> set d. \<not> is_space c" "CHR '','' \<notin> set d"
  shows "stripe_parse (''t='' @ int_str i @ '',v1='' @ d) = (Some (int_str i), [d])"
proof -
  let ?t = "CHR ''t'' # CHR ''='' # int_str i" and ?v = "CHR ''v'' # CHR ''1'' # CHR ''='' # d"
  have split: "py_split (CHR '','') (?t @ CHR '','' # ?v) = [?t, ?v]"
    using int_str_text[of i] assms(2) by (subst py_split_append) (auto simp: py_split_no_sep)
  have strips: "py_strip ?t = ?t" "py_strip ?v = ?v" "py_strip (int_str i) = int_str i" "py_strip d = d"
      "py_strip ''t'' = ''t''" "py_strip ''v1'' = ''v1''"
  proof -
    have tx: "\<forall>c \<in> set (int_str i). \<not> is_space c" using int_str_text[of i] by blast
    show "py_strip ?t = ?t" by (rule py_strip_id) (use tx in \<open>simp add: is_space_def\<close>)
    show "py_strip ?v = ?v" by (rule py_strip_id) (use assms(1) in \<open>simp add: is_space_def\<close>)
    show "py_strip (int_str i) = int_str i" by (rule py_strip_id[OF tx])
    show "py_strip d = d" by (rule py_strip_id[OF assms(1)])
    show "py_strip ''t'' = ''t''" "py_strip ''v1'' = ''v1''" by (rule py_strip_id; simp add: is_space_def)+
  qed
  have "stripe_parts [?t, ?v] None [] = (Some (int_str i), [d])"
    unfolding stripe_parts.simps strips by (simp add: strips)
  then show ?thesis unfolding stripe_parse_def using split by simp
qed

lemma trunc_close: "\<bar>x - real_of_int (trunc x)\<bar> < 1"
  unfolding trunc_def by (auto split: if_splits; linarith)

lemma stripe_sign_verifies:
  assumes "stripe_usable (mac, s)"
  shows "fst (stripe_verify mac s k body (stripe_sign mac s k body now) None tol now) = OK"
proof -
  define i where "i = trunc now"
  define d where "d = mac (ss_algorithm s) k (stripe_message i body)"
  have mac: "mac_ok mac" using assms by (simp add: stripe_usable_def)
  note d = mac_facts[OF mac, of "ss_algorithm s" k "stripe_message i body", folded d_def]
  have fresh: "\<not> (0 < tol \<and> real_of_int tol < \<bar>now - real_of_int i\<bar>)"
    using trunc_close[of now] unfolding i_def by linarith
  have "equal_digest (mac (ss_algorithm s) k (stripe_message i body)) d" by (simp add: d_def)
  moreover have "stripe_sign mac s k body now = [(ss_header s, ''t='' @ int_str i @ '',v1='' @ d)]"
    by (simp add: stripe_sign_def i_def d_def Let_def)
  ultimately show ?thesis
    using stripe_parse_signed[OF d(6,5), of i] d(1) fresh by (simp add: stripe_verify_def py_int_int_str)
qed

interpretation hexs: signature_scheme "\<lambda>(mac, s). hex_verify mac s" "\<lambda>(mac, s). hex_sign mac s"
    "\<lambda>(mac, s). hs_header s" hex_usable
proof (unfold_locales, goal_cases)
  case (4 s k body tol now)
  then show ?case using hex_sign_verifies[of "fst s" "snd s"] by (simp add: case_prod_beta)
qed (auto simp: hex_verify_def hex_sign_def Let_def)

interpretation stripe: signature_scheme "\<lambda>(mac, s). stripe_verify mac s" "\<lambda>(mac, s). stripe_sign mac s"
    "\<lambda>(mac, s). ss_header s" stripe_usable
proof (unfold_locales, goal_cases)
  case (4 s k body tol now)
  then show ?case using stripe_sign_verifies[of "fst s" "snd s"] by (simp add: case_prod_beta)
qed (auto simp: stripe_verify_def stripe_sign_def Let_def)

end
