(* ===== verification/SignatureProps.thy ===== *)
theory SignatureProps
  imports Signatures
begin

text \<open>The properties of the signature schemes and of their registry.\<close>

definition scheme_header :: "scheme \<Rightarrow> string" where
  "scheme_header s = (case s of HexDigest h \<Rightarrow> hs_header h | Stripe t \<Rightarrow> ss_header t)"

definition scheme_usable :: "hmac \<Rightarrow> scheme \<Rightarrow> bool" where
  "scheme_usable mac s = (case s of HexDigest h \<Rightarrow> hex_usable (mac, h) | Stripe t \<Rightarrow> stripe_usable (mac, t))"

text \<open>A MAC for the witnesses.\<close>

definition tiny_mac :: hmac where
  "tiny_mac a k m = fixed_digits 16 4 (length k + 17 * length m)"

lemma tiny_mac_ok: "mac_ok tiny_mac"
  by (simp add: mac_ok_def tiny_mac_def)

text \<open>signing and verifying agree for every scheme that can verify what it signs: a delivery
  whose signature header carries the value that was signed verifies, at any tolerance and signing
  time, whatever other headers it has and under whatever name the header travelled.\<close>

theorem signed_webhook_verifies:
  assumes "scheme_usable mac s"
    and "read_header (scheme_header s) hs ov = read_header (scheme_header s) (sign mac s k body now) None"
  shows "fst (verify mac s k body hs ov tol now) = OK"
proof (cases s)
  case (HexDigest h)
  then show ?thesis
    using hexs.signed_delivery_verifies[of "(mac, h)" hs ov k body now tol] assms
    by (simp add: scheme_header_def scheme_usable_def)
next
  case (Stripe t)
  then show ?thesis
    using stripe.signed_delivery_verifies[of "(mac, t)" hs ov k body now tol] assms
    by (simp add: scheme_header_def scheme_usable_def)
qed

theorem signed_webhook_verifies_witness:
  "fst (verify tiny_mac (HexDigest github_scheme) ''key'' ''body''
     [(''Host'', ''x''), (''x-hub-signature-256'', snd (hd (sign tiny_mac (HexDigest github_scheme) ''key'' ''body'' 0)))]
     None 300 0) = OK"
proof -
  have "py_lower ''x-hub-signature-256'' = py_lower ''X-Hub-Signature-256''"
    "py_lower ''Host'' \<noteq> py_lower ''X-Hub-Signature-256''" by code_simp+
  then show ?thesis
    by (intro signed_webhook_verifies)
      (simp_all add: scheme_usable_def hex_usable_def tiny_mac_ok github_scheme_def hex_ok_def ALGORITHMS_def
        read_header_def scheme_header_def hex_sign_def Let_def)
qed

text \<open>a hex digest scheme accepts a delivery only if its header carries, up to case and
  surrounding space, the MAC of the raw body under the shared secret and one of the scheme's own
  algorithms: the sender cannot choose a weaker one.\<close>

theorem hex_verify_sound:
  assumes "hex_verify mac s k body hs ov tol now = (OK, x)" "hs_algorithms s \<noteq> []"
  shows "\<exists>raw algo d. read_header (hs_header s) hs ov = Some raw \<and> algo \<in> set (hs_algorithms s) \<and>
    hex_parse s (py_strip raw) = Inr (algo, d) \<and> equal_digest (mac algo k body) (py_strip d)"
proof -
  obtain raw where r: "read_header (hs_header s) hs ov = Some raw" "raw \<noteq> []"
    using assms(1) by (auto simp: hex_verify_def split: option.splits list.splits)
  obtain algo d where p: "hex_parse s (py_strip raw) = Inr (algo, d)" "equal_digest (mac algo k body) (py_strip d)"
    using assms(1) r by (cases raw) (auto simp: hex_verify_def Let_def hex_parse_def
        split: sum.splits prod.splits if_splits bool.splits)
  have "algo \<in> set (hs_algorithms s)"
    using p(1) assms(2) by (auto simp: hex_parse_def Let_def split: prod.splits if_splits bool.splits)
  with r p show ?thesis by blast
qed

theorem hex_verify_sound_witness:
  "\<exists>raw algo d. read_header ''X-Hub-Signature-256'' (hex_sign tiny_mac github_scheme ''key'' ''body'' 0) None = Some raw \<and>
     algo \<in> {''sha256''} \<and> hex_parse github_scheme (py_strip raw) = Inr (algo, d) \<and>
     equal_digest (tiny_mac algo ''key'' ''body'') (py_strip d)"
proof -
  have "fst (hex_verify tiny_mac github_scheme ''key'' ''body'' (hex_sign tiny_mac github_scheme ''key'' ''body'' 0) None 300 0) = OK"
    by (rule hex_sign_verifies) (simp add: hex_usable_def tiny_mac_ok github_scheme_def hex_ok_def ALGORITHMS_def)
  then obtain x where "hex_verify tiny_mac github_scheme ''key'' ''body'' (hex_sign tiny_mac github_scheme ''key'' ''body'' 0) None 300 0 = (OK, x)"
    by (metis prod.collapse)
  from hex_verify_sound[OF this] show ?thesis by (simp add: github_scheme_def)
qed

text \<open>Stripe's scheme accepts a delivery only if one of its \<open>v1\<close> signatures is the MAC of the
  stated time and the body, every \<open>v1\<close> is hexadecimal, and, when a tolerance is set, the stated time
  lies within it of the clock, on either side.\<close>

theorem stripe_verify_sound:
  assumes "stripe_verify mac s k body hs ov tol now = (OK, x)"
  shows "\<exists>raw t sigs issued. read_header (ss_header s) hs ov = Some raw \<and> stripe_parse raw = (Some t, sigs) \<and>
    py_int 10 t = Some issued \<and> (\<forall>sig \<in> set sigs. is_hex sig) \<and>
    (0 < tol \<longrightarrow> \<bar>now - real_of_int issued\<bar> \<le> real_of_int tol) \<and>
    (\<exists>sig \<in> set sigs. equal_digest (mac (ss_algorithm s) k (stripe_message issued body)) sig)"
proof -
  obtain raw where r: "read_header (ss_header s) hs ov = Some raw" "raw \<noteq> []"
    using assms by (auto simp: stripe_verify_def split: option.splits list.splits)
  obtain t sigs where p: "stripe_parse raw = (Some t, sigs)"
    using assms r by (cases raw; cases "stripe_parse raw"; cases "fst (stripe_parse raw)") (auto simp: stripe_verify_def)
  obtain c cs where raw: "raw = c # cs" using r(2) by (cases raw) auto
  obtain issued where i: "py_int 10 t = Some issued"
    using assms r p raw by (auto simp: stripe_verify_def split: if_splits option.splits)
  have "\<forall>sig \<in> set sigs. is_hex sig" "\<not> (0 < tol \<and> real_of_int tol < \<bar>now - real_of_int issued\<bar>)"
    "\<exists>sig \<in> set sigs. equal_digest (mac (ss_algorithm s) k (stripe_message issued body)) sig"
    using assms r p raw i unfolding stripe_verify_def by (auto split: if_splits)
  then show ?thesis using r p i by (auto simp: not_less)
qed

theorem stripe_verify_sound_witness:
  "\<exists>raw t sigs issued. read_header ''Stripe-Signature'' (stripe_sign tiny_mac default_stripe ''key'' ''body'' 1000) None = Some raw \<and>
     stripe_parse raw = (Some t, sigs) \<and> py_int 10 t = Some issued \<and> \<bar>1010 - real_of_int issued\<bar> \<le> 300"
proof -
  let ?h = "stripe_sign tiny_mac default_stripe ''key'' ''body'' 1000"
  have "stripe_verify tiny_mac default_stripe ''key'' ''body'' ?h None 300 1010 = (OK, None)"
  proof -
    note d = mac_facts[OF tiny_mac_ok, of "''sha256''" "''key''" "stripe_message 1000 ''body''"]
    have "?h = [(''Stripe-Signature'', ''t='' @ int_str 1000 @ '',v1='' @ tiny_mac ''sha256'' ''key'' (stripe_message 1000 ''body''))]"
      by (simp add: stripe_sign_def default_stripe_def trunc_def)
    then show ?thesis
      using stripe_parse_signed[OF d(6,5), of 1000] d(1) by (simp add: stripe_verify_def py_int_int_str default_stripe_def)
  qed
  from stripe_verify_sound[OF this] show ?thesis by (simp add: default_stripe_def) blast
qed

text \<open>a hex digest scheme built to sign without the algorithm prefix, and not told to accept bare
  digests, rejects every delivery it signs itself as malformed.\<close>

theorem unprefixed_scheme_rejects_itself:
  assumes "mac_ok mac" "\<not> hs_emit_prefix s" "\<not> hs_allow_bare s"
  shows "hex_verify mac s k body (hex_sign mac s k body now) None tol now' = (MALFORMED, Some ''missing_alg_prefix'')"
proof -
  define d where "d = mac (hd (hs_algorithms s)) k body"
  note d = mac_facts[OF assms(1), of "hd (hs_algorithms s)" k body, folded d_def]
  have "hex_sign mac s k body now = [(hs_header s, d)]" using assms(2) by (simp add: hex_sign_def d_def Let_def)
  moreover have "hex_parse s d = Inl (MALFORMED, Some ''missing_alg_prefix'')"
    using assms(3) py_partition_no_sep[OF d(4)] by (simp add: hex_parse_def)
  moreover obtain c cs where "d = c # cs" using d(3) by (cases d) auto
  ultimately show ?thesis using d(2) by (simp add: hex_verify_def)
qed

theorem unprefixed_scheme_rejects_itself_witness:
  "hex_verify tiny_mac (github_scheme\<lparr>hs_emit_prefix := False\<rparr>) ''key'' ''body''
     (hex_sign tiny_mac (github_scheme\<lparr>hs_emit_prefix := False\<rparr>) ''key'' ''body'' 0) None 300 0 =
   (MALFORMED, Some ''missing_alg_prefix'')"
  by (rule unprefixed_scheme_rejects_itself[OF tiny_mac_ok]) (simp_all add: github_scheme_def)

text \<open>the hexadecimal test is Python's integer parser: a base prefix, a sign and underscores pass.\<close>

theorem is_hex_lenient:
  "is_hex ''0x1f'' \<and> is_hex ''+ff'' \<and> is_hex ''-1f'' \<and> is_hex ''1_f'' \<and> \<not> is_hex ''xyz'' \<and> \<not> is_hex []"
  by code_simp

text \<open>registering a scheme makes it retrievable under its name and leaves every other name alone;
  a taken name is refused unless replacement was asked for, and a refusal changes nothing.\<close>

theorem register_scheme_lookup:
  "case register_signature_scheme s replace r of
     (Inl x, r') \<Rightarrow> r' = r \<and> (scheme_name s = [] \<or> dict_get r (scheme_name s) \<noteq> None)
   | (Inr s', r') \<Rightarrow> s' = s \<and> get_signature_scheme n r' = (if n = scheme_name s then Inr s else get_signature_scheme n r)"
  by (auto simp: register_signature_scheme_def get_signature_scheme_def)

end
