(* ===== verification/Receipts.thy ===== *)
theory Receipts
  imports Json
begin

text \<open>
  Receipt handles of queues/receipts.py: \<open>q1.<base64 claims>.<base64 mac>\<close>.  The keyed MAC
  (\<open>mac key message\<close>, the raw digest) and the JSON codec are arguments; base64 is modelled down to
  the non-strict decoder of the standard library.
\<close>

subsection \<open>Base64, URL-safe, without padding\<close>

definition b64_char :: "nat \<Rightarrow> char" where
  "b64_char n =
     (if n < 26 then char_of (65 + n) else if n < 52 then char_of (71 + n)
      else if n < 62 then char_of (n - 4) else if n = 62 then CHR ''-'' else CHR ''_'')"

definition b64_val :: "char \<Rightarrow> nat option" where
  "b64_val c =
     (let n = (of_char c :: nat)
      in if 65 \<le> n \<and> n \<le> 90 then Some (n - 65)
         else if 97 \<le> n \<and> n \<le> 122 then Some (n - 71)
         else if 48 \<le> n \<and> n \<le> 57 then Some (n + 4)
         else if c = CHR ''-'' \<or> c = CHR ''+'' then Some 62
         else if c = CHR ''_'' \<or> c = CHR ''/'' then Some 63
         else None)"

definition byte :: "nat \<Rightarrow> char" where "byte n = char_of n"

fun b64 :: "string \<Rightarrow> string" where
  "b64 [] = []"
| "b64 [x] = (let a = (of_char x :: nat) in [b64_char (a div 4), b64_char (a mod 4 * 16)])"
| "b64 [x, y] =
     (let a = (of_char x :: nat); b = (of_char y :: nat)
      in [b64_char (a div 4), b64_char (a mod 4 * 16 + b div 16), b64_char (b mod 16 * 4)])"
| "b64 (x # y # z # rest) =
     (let a = (of_char x :: nat); b = (of_char y :: nat); c = (of_char z :: nat)
      in b64_char (a div 4) # b64_char (a mod 4 * 16 + b div 16) # b64_char (b mod 16 * 4 + c div 64) #
         b64_char (c mod 64) # b64 rest)"

text \<open>
  \<open>binascii.a2b_base64\<close> in its non-strict mode: position in the quantum, bits left over, pads seen.
  A character outside the alphabet is skipped; a complete pad sequence ends the input.
\<close>

fun a2b :: "nat \<Rightarrow> nat \<Rightarrow> nat \<Rightarrow> string \<Rightarrow> string option" where
  "a2b q left pads [] = (if q = 0 then Some [] else None)"
| "a2b q left pads (c # cs) =
     (if c = CHR ''='' then
        (if 2 \<le> q \<and> 4 \<le> q + Suc pads then Some []
         else a2b q left (if 2 \<le> q then Suc pads else pads) cs)
      else
        (case b64_val c of
           None \<Rightarrow> a2b q left pads cs
         | Some v \<Rightarrow>
             (if q = 0 then a2b 1 v 0 cs
              else if q = 1 then map_option (Cons (byte (left * 4 + v div 16))) (a2b 2 (v mod 16) 0 cs)
              else if q = 2 then map_option (Cons (byte (left * 16 + v div 4))) (a2b 3 (v mod 4) 0 cs)
              else map_option (Cons (byte (left * 64 + v))) (a2b 0 0 0 cs))))"

definition is_ascii :: "string \<Rightarrow> bool" where
  "is_ascii s \<longleftrightarrow> (\<forall>c \<in> set s. (of_char c :: nat) < 128)"

definition unb64 :: "string \<Rightarrow> string option" where
  "unb64 s =
     (if is_ascii s then a2b 0 0 0 (s @ replicate ((4 - length s mod 4) mod 4) (CHR ''='')) else None)"

subsection \<open>Receipts\<close>

record receipt =
  rc_queue :: string
  rc_group :: string
  rc_stream :: string
  rc_message_id :: string
  rc_consumer :: string
  rc_delivered :: int
  rc_expires_at_ms :: int

text \<open>\<open>decode\<close> raises \<open>ReceiptError(reason)\<close>; encoding a text that is not ASCII raises as well.\<close>

datatype decode_error = ReceiptError string | UnicodeEncodeError

record receipt_codec =
  rk_keys :: "string list"
  rk_grace_ms :: int

definition receipt_codec_new :: "string list \<Rightarrow> int \<Rightarrow> receipt_codec result" where
  "receipt_codec_new keys grace_ms =
     (if keys = [] \<or> [] \<in> set keys then Inl (ValueError ''at least one non-empty signing key'')
      else if grace_ms < 0 then Inl (ValueError ''grace_ms must not be negative'')
      else Inr \<lparr>rk_keys = keys, rk_grace_ms = grace_ms\<rparr>)"

definition HANDLE_VERSION :: string where "HANDLE_VERSION = ''q1''"

definition signed_part :: "string \<Rightarrow> string" where
  "signed_part body = HANDLE_VERSION @ ''.'' @ body"

text \<open>The claims, keys sorted.\<close>

definition claims_of :: "receipt \<Rightarrow> pyval" where
  "claims_of r = PDict
     [(''c'', PStr (rc_consumer r)), (''d'', PInt (rc_delivered r)), (''e'', PInt (rc_expires_at_ms r)),
      (''g'', PStr (rc_group r)), (''i'', PStr (rc_message_id r)), (''q'', PStr (rc_queue r)),
      (''s'', PStr (rc_stream r))]"

type_synonym keyed_mac = "string \<Rightarrow> string \<Rightarrow> string"

definition encode_receipt :: "json_codec \<Rightarrow> keyed_mac \<Rightarrow> receipt_codec \<Rightarrow> receipt \<Rightarrow> string result" where
  "encode_receipt J mac C r =
     map_sum id (\<lambda>text. let body = b64 text
        in HANDLE_VERSION @ ''.'' @ body @ ''.'' @ b64 (mac (hd (rk_keys C)) (signed_part body)))
       (dumps J (claims_of r))"

text \<open>\<open>str(x)\<close> and \<open>int(x)\<close> of a claim; a float or a container is outside the model.\<close>

fun str_claim :: "pyval \<Rightarrow> string option" where
  "str_claim (PStr s) = Some s"
| "str_claim (PInt n) = Some (int_str n)"
| "str_claim (PBool b) = Some (if b then ''True'' else ''False'')"
| "str_claim PNone = Some ''None''"
| "str_claim v = None"

fun int_claim :: "pyval \<Rightarrow> int option" where
  "int_claim (PInt n) = Some n"
| "int_claim (PBool b) = Some (of_bool b)"
| "int_claim (PStr s) = py_int 10 s"
| "int_claim v = None"

definition get_claim :: "(pyval \<Rightarrow> 'a option) \<Rightarrow> pydict \<Rightarrow> string \<Rightarrow> 'a option" where
  "get_claim f d k = (case dict_get d k of None \<Rightarrow> None | Some v \<Rightarrow> f v)"

definition claims_receipt :: "pydict \<Rightarrow> receipt option" where
  "claims_receipt d =
     (case (get_claim str_claim d ''q'', get_claim str_claim d ''g'', get_claim str_claim d ''s'',
            get_claim str_claim d ''i'', get_claim str_claim d ''c'', get_claim int_claim d ''d'',
            get_claim int_claim d ''e'') of
        (Some q, Some g, Some s, Some i, Some c, Some n, Some e) \<Rightarrow>
          Some \<lparr>rc_queue = q, rc_group = g, rc_stream = s, rc_message_id = i, rc_consumer = c,
                rc_delivered = n, rc_expires_at_ms = e\<rparr>
      | _ \<Rightarrow> None)"

definition parse_claims :: "json_codec \<Rightarrow> string \<Rightarrow> receipt option" where
  "parse_claims J body =
     (case unb64 body of
        None \<Rightarrow> None
      | Some text \<Rightarrow> (case loads J text of Inr (PDict d) \<Rightarrow> claims_receipt d | _ \<Rightarrow> None))"

definition decode_receipt ::
    "json_codec \<Rightarrow> keyed_mac \<Rightarrow> receipt_codec \<Rightarrow> string \<Rightarrow> string \<Rightarrow> string \<Rightarrow> int \<Rightarrow> decode_error + receipt" where
  "decode_receipt J mac C handle queue grp now_ms =
     (case py_split (CHR ''.'') handle of
        [version, body, signature] \<Rightarrow>
          if version \<noteq> HANDLE_VERSION then Inl (ReceiptError ''bad_version'')
          else (case unb64 signature of
                  None \<Rightarrow> Inl (ReceiptError ''malformed'')
                | Some received \<Rightarrow>
                    if \<not> is_ascii (signed_part body) then Inl UnicodeEncodeError
                    else if \<not> (\<exists>key \<in> set (rk_keys C). mac key (signed_part body) = received)
                    then Inl (ReceiptError ''bad_signature'')
                    else (case parse_claims J body of
                            None \<Rightarrow> Inl (ReceiptError ''malformed'')
                          | Some r \<Rightarrow>
                              if rc_queue r \<noteq> queue \<or> rc_group r \<noteq> grp then Inl (ReceiptError ''wrong_queue'')
                              else if now_ms > rc_expires_at_ms r + rk_grace_ms C
                              then Inl (ReceiptError ''expired'')
                              else Inr r))
      | _ \<Rightarrow> Inl (ReceiptError ''malformed''))"

subsection \<open>Facts: base64\<close>

lemma b64_code:
  "n < 64 \<Longrightarrow> (of_char (b64_char n) :: nat) =
    (if n < 26 then 65 + n else if n < 52 then 71 + n else if n < 62 then n - 4 else if n = 62 then 45 else 95)"
  by (simp add: b64_char_def)

lemma b64_char_facts:
  assumes "n < 64"
  shows "b64_val (b64_char n) = Some n" "b64_char n \<noteq> CHR ''=''" "b64_char n \<noteq> CHR ''.''"
    "(of_char (b64_char n) :: nat) < 128"
proof -
  note c = b64_code[OF assms]
  show "(of_char (b64_char n) :: nat) < 128" using assms unfolding c by auto
  have "(of_char (b64_char n) :: nat) \<noteq> 61" "(of_char (b64_char n) :: nat) \<noteq> 46" using assms unfolding c by auto
  then show "b64_char n \<noteq> CHR ''=''" "b64_char n \<noteq> CHR ''.''" by auto
  show "b64_val (b64_char n) = Some n"
  proof (cases "n < 62")
    case True
    then show ?thesis using assms unfolding b64_val_def Let_def c by auto
  next
    case False
    then have "n = 62 \<or> n = 63" using assms by auto
    then show ?thesis by (auto simp: b64_val_def b64_char_def)
  qed
qed

lemma of_char_256: "(of_char c :: nat) < 256"
  by (metis of_char_mod_256 mod_less_divisor zero_less_numeral)

lemma byte_of_char [simp]: "byte (of_char c) = c"
  by (simp add: byte_def)

lemma quanta:
  fixes a b c :: nat
  assumes "a < 256" "b < 256" "c < 256"
  shows "a div 4 < 64" "a mod 4 * 16 + b div 16 < 64" "b mod 16 * 4 + c div 64 < 64" "c mod 64 < 64"
    "a mod 4 * 16 < 64" "b mod 16 * 4 < 64"
    "a div 4 * 4 + (a mod 4 * 16 + b div 16) div 16 = a" "(a mod 4 * 16 + b div 16) mod 16 = b div 16"
    "b div 16 * 16 + (b mod 16 * 4 + c div 64) div 4 = b" "(b mod 16 * 4 + c div 64) mod 4 = c div 64"
    "c div 64 * 64 + c mod 64 = c" "a div 4 * 4 + a mod 4 * 16 div 16 = a" "b div 16 * 16 + b mod 16 * 4 div 4 = b"
proof -
  have "b div 16 < 16" "c div 64 < 4" "a mod 4 < 4" "b mod 16 < 16" using assms by auto
  then show "a div 4 < 64" "a mod 4 * 16 + b div 16 < 64" "b mod 16 * 4 + c div 64 < 64" "c mod 64 < 64"
    "a mod 4 * 16 < 64" "b mod 16 * 4 < 64"
    "a div 4 * 4 + (a mod 4 * 16 + b div 16) div 16 = a" "(a mod 4 * 16 + b div 16) mod 16 = b div 16"
    "b div 16 * 16 + (b mod 16 * 4 + c div 64) div 4 = b" "(b mod 16 * 4 + c div 64) mod 4 = c div 64"
    "c div 64 * 64 + c mod 64 = c" "a div 4 * 4 + a mod 4 * 16 div 16 = a" "b div 16 * 16 + b mod 16 * 4 div 4 = b"
    using assms by auto
qed

lemma set_b64: "\<forall>c \<in> set (b64 s). c \<noteq> CHR ''.'' \<and> (of_char c :: nat) < 128"
proof (induction s rule: b64.induct)
  case (2 x)
  note q = quanta[OF of_char_256[of x] of_char_256[of x] of_char_256[of x]]
  show ?case by (simp add: Let_def b64_char_facts q)
next
  case (3 x y)
  note q = quanta[OF of_char_256[of x] of_char_256[of y] of_char_256[of y]]
  show ?case by (simp add: Let_def b64_char_facts q)
next
  case (4 x y z rest)
  note q = quanta[OF of_char_256[of x] of_char_256[of y] of_char_256[of z]]
  show ?case using 4 by (simp add: Let_def b64_char_facts q)
qed simp

lemma quanta_simps:
  fixes b c :: nat
  assumes "b < 256" "c < 256"
  shows "b div 16 div 16 = 0" "b div 16 mod 16 = b div 16" "c div 64 div 4 = 0" "c div 64 mod 4 = c div 64"
    "b div 16 * 16 + b mod 16 = b" "c div 64 * 64 + c mod 64 = c"
  using assms by (simp_all add: div_mult2_eq[symmetric] less_mult_imp_div_less)

lemma a2b_b64:
  "a2b 0 0 0 (b64 s @ replicate ((4 - length (b64 s) mod 4) mod 4) (CHR ''='')) = Some s"
proof (induction s rule: b64.induct)
  case (2 x)
  note q = quanta[OF of_char_256[of x] of_char_256[of x] of_char_256[of x]]
  show ?case by (simp add: Let_def b64_char_facts[OF q(1)] b64_char_facts[OF q(5)] q(12) numeral_2_eq_2)
next
  case (3 x y)
  note q = quanta[OF of_char_256[of x] of_char_256[of y] of_char_256[of y]]
  show ?case
    by (simp add: Let_def b64_char_facts[OF q(1)] b64_char_facts[OF q(2)] b64_char_facts[OF q(6)] q(7,8,13)
        numeral_2_eq_2 del: div_mult_self1 div_mult_self2 div_mult_self3 div_mult_self4 mod_mult_self1 mod_mult_self2 mod_mult_self3 mod_mult_self4)
next
  case (4 x y z rest)
  note q = quanta[OF of_char_256[of x] of_char_256[of y] of_char_256[of z]]
  have "length (b64 (x # y # z # rest)) mod 4 = length (b64 rest) mod 4" by (simp add: Let_def)
  then show ?case
    using 4 by (simp add: Let_def b64_char_facts[OF q(1)] b64_char_facts[OF q(2)] b64_char_facts[OF q(3)]
        b64_char_facts[OF q(4)] q(7-11)
        quanta_simps[OF of_char_256[of y] of_char_256[of z]] numeral_2_eq_2)
qed simp

lemma unb64_b64 [simp]: "unb64 (b64 s) = Some s"
  using a2b_b64[of s] set_b64[of s] by (simp add: unb64_def is_ascii_def)

subsection \<open>Facts: handles\<close>

lemma claims_roundtrip: "claims_receipt
    [(''c'', PStr (rc_consumer r)), (''d'', PInt (rc_delivered r)), (''e'', PInt (rc_expires_at_ms r)),
     (''g'', PStr (rc_group r)), (''i'', PStr (rc_message_id r)), (''q'', PStr (rc_queue r)),
     (''s'', PStr (rc_stream r))] = Some r"
  by (simp add: claims_receipt_def get_claim_def)

lemma split_handle:
  assumes "CHR ''.'' \<notin> set body" "CHR ''.'' \<notin> set sig"
  shows "py_split (CHR ''.'') (HANDLE_VERSION @ ''.'' @ body @ ''.'' @ sig) = [HANDLE_VERSION, body, sig]"
proof -
  have "CHR ''.'' \<notin> set HANDLE_VERSION" by (simp add: HANDLE_VERSION_def)
  then have "py_split (CHR ''.'') (HANDLE_VERSION @ CHR ''.'' # (body @ CHR ''.'' # sig)) = [HANDLE_VERSION, body, sig]"
    using py_split_append[of "CHR ''.''" HANDLE_VERSION "body @ CHR ''.'' # sig"]
      py_split_append[OF assms(1), of sig] py_split_no_sep[OF assms(2)] by simp
  then show ?thesis by simp
qed

lemma b64_no_dot: "CHR ''.'' \<notin> set (b64 s)"
  using set_b64[of s] by blast

lemma signed_ascii: "is_ascii (signed_part (b64 s))"
  using set_b64[of s] by (auto simp: is_ascii_def signed_part_def HANDLE_VERSION_def)

lemma decode_encoded:
  assumes "codec_ok J" "encode_receipt J mac C r = Inr h" "hd (rk_keys C) \<in> set (rk_keys C')"
  shows "decode_receipt J mac C' h q g now =
    (if rc_queue r \<noteq> q \<or> rc_group r \<noteq> g then Inl (ReceiptError ''wrong_queue'')
     else if now > rc_expires_at_ms r + rk_grace_ms C' then Inl (ReceiptError ''expired'')
     else Inr r)"
proof -
  obtain js where t: "dumps J (claims_of r) = Inr js"
    and h: "h = HANDLE_VERSION @ ''.'' @ b64 js @ ''.'' @ b64 (mac (hd (rk_keys C)) (signed_part (b64 js)))"
    using assms(2) by (cases "dumps J (claims_of r)") (auto simp: encode_receipt_def Let_def)
  have "loads J js = Inr (claims_of r)" using assms(1) t by (simp add: codec_ok_def)
  then have "parse_claims J (b64 js) = Some r" by (simp add: parse_claims_def claims_of_def claims_roundtrip)
  then show ?thesis
    unfolding h decode_receipt_def split_handle[OF b64_no_dot b64_no_dot]
    using assms(3) signed_ascii[of js] by auto
qed

end
