(* ===== verification/ReceiptProps.thy ===== *)
theory ReceiptProps
  imports Receipts
begin

text \<open>The properties of the receipt handles.\<close>

text \<open>a handle minted by one replica is accepted by every replica that still lists the signing
  key among its keys, whatever the order: it gives back exactly the receipt, unless it is presented
  for another queue or group, or after its expiry plus grace.\<close>

theorem receipt_roundtrip:
  assumes "codec_ok J" "encode_receipt J mac C r = Inr h" "hd (rk_keys C) \<in> set (rk_keys C')"
  shows "decode_receipt J mac C' h q g now =
    (if rc_queue r \<noteq> q \<or> rc_group r \<noteq> g then Inl (ReceiptError ''wrong_queue'')
     else if now > rc_expires_at_ms r + rk_grace_ms C' then Inl (ReceiptError ''expired'')
     else Inr r)"
  by (rule decode_encoded[OF assms])

abbreviation sample_receipt :: receipt where
  "sample_receipt \<equiv> \<lparr>rc_queue = ''orders'', rc_group = ''billing'', rc_stream = ''evb:queue:orders'',
     rc_message_id = ''7-0'', rc_consumer = ''http-a'', rc_delivered = 1, rc_expires_at_ms = 5000\<rparr>"

definition receipt_json :: json_codec where
  "receipt_json =
     \<lparr>dumps = (\<lambda>v. if v = claims_of sample_receipt then Inr ''x'' else Inl (TypeError [])),
      loads = (\<lambda>s. if s = ''x'' then Inr (claims_of sample_receipt) else Inl (ValueError []))\<rparr>"

lemma receipt_json_ok: "codec_ok receipt_json"
  by (simp add: codec_ok_def receipt_json_def)

abbreviation key_mac :: keyed_mac where
  "key_mac k m \<equiv> k @ rev m"

theorem receipt_roundtrip_witness:
  "\<exists>h. encode_receipt receipt_json key_mac \<lparr>rk_keys = [''new'', ''old''], rk_grace_ms = 0\<rparr> sample_receipt = Inr h \<and>
     decode_receipt receipt_json key_mac \<lparr>rk_keys = [''newer'', ''new''], rk_grace_ms = 0\<rparr> h ''orders'' ''billing'' 5000 =
       Inr sample_receipt"
proof -
  obtain h where h: "encode_receipt receipt_json key_mac \<lparr>rk_keys = [''new'', ''old''], rk_grace_ms = 0\<rparr> sample_receipt = Inr h"
    by (simp add: encode_receipt_def receipt_json_def)
  show ?thesis
    using receipt_roundtrip[OF receipt_json_ok h, of "\<lparr>rk_keys = [''newer'', ''new''], rk_grace_ms = 0\<rparr>" "''orders''" "''billing''" 5000] h
    by simp
qed

text \<open>whatever a client presents, a handle is accepted only with a signature that one of the keys
  makes over exactly the claims it carries, for the queue and group of the request, and not after
  the expiry the claims state.\<close>

theorem receipt_decode_sound:
  assumes "decode_receipt J mac C h q g now = Inr r"
  shows "\<exists>body sig key. py_split (CHR ''.'') h = [HANDLE_VERSION, body, sig] \<and> key \<in> set (rk_keys C) \<and>
    unb64 sig = Some (mac key (signed_part body)) \<and> parse_claims J body = Some r \<and>
    rc_queue r = q \<and> rc_group r = g \<and> now \<le> rc_expires_at_ms r + rk_grace_ms C"
  using assms unfolding decode_receipt_def
  by (auto split: list.splits option.splits if_splits)

theorem receipt_decode_sound_witness:
  "\<exists>h body sig key. py_split (CHR ''.'') h = [HANDLE_VERSION, body, sig] \<and> key \<in> {''new'', ''old''} \<and>
     unb64 sig = Some (key_mac key (signed_part body))"
proof -
  let ?C = "\<lparr>rk_keys = [''new'', ''old''], rk_grace_ms = 0\<rparr>"
  obtain h where h: "encode_receipt receipt_json key_mac ?C sample_receipt = Inr h"
    by (simp add: encode_receipt_def receipt_json_def)
  have d: "decode_receipt receipt_json key_mac ?C h ''orders'' ''billing'' 5000 = Inr sample_receipt"
    using receipt_roundtrip[OF receipt_json_ok h, of ?C "''orders''" "''billing''" 5000] by simp
  show ?thesis using receipt_decode_sound[OF d] by auto
qed

text \<open>claims are never parsed before the signature is verified: for a handle no key signed, the
  outcome does not depend on the JSON parser, and it is never an acceptance.\<close>

theorem mac_before_parse:
  assumes "py_split (CHR ''.'') h = [v, body, sig]"
    and "\<forall>key \<in> set (rk_keys C). unb64 sig \<noteq> Some (mac key (signed_part body))"
  shows "decode_receipt J mac C h q g now = decode_receipt J' mac C h q' g' now' \<and>
    (\<exists>x. decode_receipt J mac C h q g now = Inl x)"
  using assms unfolding decode_receipt_def by (auto split: option.split)

theorem mac_before_parse_witness:
  "\<exists>x. decode_receipt receipt_json key_mac \<lparr>rk_keys = [''k''], rk_grace_ms = 0\<rparr> ''q1.eA.eA'' ''orders'' ''billing'' 0 = Inl x"
proof -
  have split: "py_split (CHR ''.'') ''q1.eA.eA'' = [''q1'', ''eA'', ''eA'']" by code_simp
  have "unb64 ''eA'' = Some ''x''" by code_simp
  then show ?thesis
    using mac_before_parse[OF split, of "\<lparr>rk_keys = [''k''], rk_grace_ms = 0\<rparr>" key_mac receipt_json "''orders''" "''billing''" 0]
    by simp
qed

text \<open>a handle of three parts whose middle part is not ASCII does not get the documented
  \<open>ReceiptError\<close> but an encoding error.\<close>

theorem non_ascii_handle_escapes:
  assumes "py_split (CHR ''.'') h = [HANDLE_VERSION, body, sig]" "unb64 sig \<noteq> None" "\<not> is_ascii body"
  shows "decode_receipt J mac C h q g now = Inl UnicodeEncodeError"
proof -
  have "\<not> is_ascii (signed_part body)" using assms(3) by (auto simp: is_ascii_def signed_part_def)
  then show ?thesis using assms(1,2) by (auto simp: decode_receipt_def)
qed

theorem non_ascii_handle_escapes_witness:
  "decode_receipt receipt_json key_mac \<lparr>rk_keys = [''k''], rk_grace_ms = 0\<rparr> (''q1.'' @ [char_of (233 :: nat)] @ ''.eA'')
     ''orders'' ''billing'' 0 = Inl UnicodeEncodeError"
  by (rule non_ascii_handle_escapes[where body = "[char_of (233 :: nat)]" and sig = "''eA''"]; code_simp)

end
