(* ===== verification/QueueConfig.thy ===== *)
theory QueueConfig
  imports Receipts
begin

text \<open>
  The declarative queue configuration of queues/config.py: groups, queues and the registry with
  their validators, and the lookups the store and the HTTP surface use.  A pydantic model is built
  by its validators: field constraints and field validators first, then the model validator; the
  result is the model or a \<^const>\<open>ValueError\<close>.
\<close>

definition DEFAULT_QUEUE_PREFIX :: string where "DEFAULT_QUEUE_PREFIX = ''evb:queue:''"
definition MAX_BATCH_ENTRIES :: nat where "MAX_BATCH_ENTRIES = 10"
definition MAX_WAIT_TIME_SECONDS :: int where "MAX_WAIT_TIME_SECONDS = 20"

definition assert_prefixes_disjoint :: "string \<Rightarrow> string \<Rightarrow> unit result" where
  "assert_prefixes_disjoint queue_prefix bus_stream_prefix =
     (if py_startswith queue_prefix bus_stream_prefix \<or> py_startswith bus_stream_prefix queue_prefix
      then Inl (ValueError ''prefixes overlap'') else Inr ())"

subsection \<open>Groups\<close>

record queue_group =
  qg_name :: string
  qg_max_receives :: "int option"
  qg_consumer_tokens :: "string list"

definition no_whitespace :: "string \<Rightarrow> bool" where
  "no_whitespace value \<longleftrightarrow> py_strip value = value \<and> py_strip value \<noteq> []"

definition queue_group_new :: "queue_group \<Rightarrow> queue_group result" where
  "queue_group_new g =
     (if qg_name g = [] \<or> (\<exists>n \<in> set_option (qg_max_receives g). n < 1) \<or> \<not> no_whitespace (qg_name g)
      then Inl (ValueError ''group'') else Inr g)"

subsection \<open>Queues\<close>

text \<open>\<open>topic_prefix\<close> is \<^const>\<open>None\<close> when the field was not set, \<open>Some None\<close> when it was set to \<open>None\<close>.\<close>

record queue_config =
  qc_name :: string
  qc_groups :: "queue_group list"
  qc_default_visibility_ms :: int
  qc_max_visibility_ms :: int
  qc_max_receives :: int
  qc_maxlen :: int
  qc_max_body_bytes :: int
  qc_strict_ack :: bool
  qc_delete_entries :: bool
  qc_mirror_to_bus :: bool
  qc_topic_prefix :: "string option option"
  qc_producer_tokens :: "string list"
  qc_consumer_tokens :: "string list"
  qc_admin_tokens :: "string list"

definition safe_name :: "string \<Rightarrow> bool" where
  "safe_name value \<longleftrightarrow> no_whitespace value \<and> CHR ''/'' \<notin> set value \<and> CHR ''*'' \<notin> set value"

fun first_duplicate :: "string list \<Rightarrow> string list \<Rightarrow> string option" where
  "first_duplicate seen [] = None"
| "first_duplicate seen (x # xs) = (if x \<in> set seen then Some x else first_duplicate (x # seen) xs)"

definition queue_coherent :: "queue_config \<Rightarrow> queue_config result" where
  "queue_coherent q =
     (case first_duplicate [] (map qg_name (qc_groups q)) of
        Some g \<Rightarrow> Inl (ValueError (''duplicate consumer group '' @ g))
      | None \<Rightarrow>
          if qc_default_visibility_ms q > qc_max_visibility_ms q
          then Inl (ValueError ''default_visibility_timeout_ms must not exceed max_visibility_timeout_ms'')
          else if qc_delete_entries q \<and> length (qc_groups q) > 1
          then Inl (ValueError ''delete_entries=True is only legal with exactly one group'')
          else Inr q)"

definition queue_fields_ok :: "queue_config \<Rightarrow> bool" where
  "queue_fields_ok q \<longleftrightarrow>
     qc_name q \<noteq> [] \<and> qc_groups q \<noteq> [] \<and> 0 \<le> qc_default_visibility_ms q \<and> 1 \<le> qc_max_visibility_ms q
     \<and> 1 \<le> qc_max_receives q \<and> 1 \<le> qc_maxlen q \<and> 0 < qc_max_body_bytes q \<and> safe_name (qc_name q)
     \<and> (\<forall>g \<in> set (qc_groups q). \<not> isl (queue_group_new g))"

definition queue_config_new :: "queue_config \<Rightarrow> queue_config result" where
  "queue_config_new q = (if queue_fields_ok q then queue_coherent q else Inl (ValueError ''queue''))"

definition find_group :: "queue_config \<Rightarrow> string \<Rightarrow> queue_group option" where
  "find_group q name = find (\<lambda>g. qg_name g = name) (qc_groups q)"

definition receives_cap :: "queue_config \<Rightarrow> string \<Rightarrow> int" where
  "receives_cap q group_name =
     (case find_group q group_name of
        Some g \<Rightarrow> (case qg_max_receives g of Some n \<Rightarrow> n | None \<Rightarrow> qc_max_receives q)
      | None \<Rightarrow> qc_max_receives q)"

definition effective_topic_prefix :: "queue_config \<Rightarrow> string option" where
  "effective_topic_prefix q =
     (case qc_topic_prefix q of Some p \<Rightarrow> p | None \<Rightarrow> Some (''queue.'' @ qc_name q))"

subsection \<open>The registry\<close>

record queue_registry =
  qr_queues :: "queue_config list"
  qr_prefix :: string

definition queue_registry_new :: "queue_registry \<Rightarrow> queue_registry result" where
  "queue_registry_new R =
     (if qr_prefix R = [] \<or> (\<exists>q \<in> set (qr_queues R). isl (queue_config_new q)) then Inl (ValueError ''registry'')
      else (case first_duplicate [] (map qc_name (qr_queues R)) of
              Some n \<Rightarrow> Inl (ValueError (''duplicate queue '' @ n))
            | None \<Rightarrow> Inr R))"

definition get_queue :: "queue_registry \<Rightarrow> string \<Rightarrow> queue_config option" where
  "get_queue R name = find (\<lambda>q. qc_name q = name) (qr_queues R)"

definition stream_for :: "queue_registry \<Rightarrow> string \<Rightarrow> string" where
  "stream_for R name = qr_prefix R @ name"

definition queue_names :: "queue_registry \<Rightarrow> string list" where
  "queue_names R = sort (map qc_name (qr_queues R))"

subsection \<open>Facts\<close>

lemma first_duplicate_None:
  "first_duplicate seen xs = None \<longleftrightarrow> distinct xs \<and> set xs \<inter> set seen = {}"
  by (induction seen xs rule: first_duplicate.induct) auto

lemma queue_coherent_Inr:
  "queue_coherent q = Inr q' \<longleftrightarrow> q' = q \<and> distinct (map qg_name (qc_groups q))
     \<and> qc_default_visibility_ms q \<le> qc_max_visibility_ms q \<and> (qc_delete_entries q \<longrightarrow> length (qc_groups q) \<le> 1)"
  by (auto simp: queue_coherent_def first_duplicate_None split: option.splits dest: first_duplicate_None[THEN iffD2])
    (auto simp flip: first_duplicate_None[of "[]", simplified])

lemma queue_config_new_Inr:
  "queue_config_new q = Inr q' \<Longrightarrow> q' = q \<and> queue_fields_ok q \<and> distinct (map qg_name (qc_groups q))
     \<and> qc_default_visibility_ms q \<le> qc_max_visibility_ms q"
  by (auto simp: queue_config_new_def queue_coherent_Inr split: if_splits)

lemma receives_cap_pos:
  assumes "queue_config_new q = Inr q'"
  shows "1 \<le> receives_cap q g"
proof -
  have f: "queue_fields_ok q" using queue_config_new_Inr[OF assms] by simp
  have "1 \<le> n" if "find_group q g = Some x" "qg_max_receives x = Some n" for x n
  proof -
    have "x \<in> set (qc_groups q)" using that(1) unfolding find_group_def
      by (metis (mono_tags, lifting) find_Some_iff nth_mem)
    then show ?thesis using f that(2) by (auto simp: queue_fields_ok_def queue_group_new_def split: if_splits)
  qed
  then show ?thesis using f by (auto simp: receives_cap_def queue_fields_ok_def split: option.splits)
qed

lemma disjoint_prefixes_streams:
  "assert_prefixes_disjoint (qr_prefix R) bp = Inr () \<Longrightarrow> \<not> py_startswith (stream_for R name) bp"
  by (auto simp: assert_prefixes_disjoint_def stream_for_def prefix_append split: if_splits)

lemma stream_for_inj: "stream_for R a = stream_for R b \<longleftrightarrow> a = b"
  by (simp add: stream_for_def)

lemma find_unique:
  "distinct (map f xs) \<Longrightarrow> x \<in> set xs \<Longrightarrow> find (\<lambda>y. f y = f x) xs = Some x"
  by (induction xs) auto

lemma get_queue_registered:
  assumes "queue_registry_new R = Inr R'" "q \<in> set (qr_queues R)"
  shows "get_queue R (qc_name q) = Some q"
proof -
  have "distinct (map qc_name (qr_queues R))"
    using assms(1) first_duplicate_None[of "[]" "map qc_name (qr_queues R)"]
    by (auto simp: queue_registry_new_def split: if_splits option.splits)
  then show ?thesis using assms(2) unfolding get_queue_def by (rule find_unique)
qed

end
