(* ===== verification/RedisStreams.thy ===== *)
theory RedisStreams
  imports Prelude
begin

text \<open>
  The part of Redis Streams that queues/store.py calls, as an interface: a record of the commands
  over a server state of any type, the view of that state the documentation speaks of (the entries
  of a stream, the pending and the undelivered entries of a consumer group, the ids ever given out,
  the server clock), and
  a locale with the documented effect of every command on the view.
\<close>

type_synonym fields = "(string \<times> string) list"
type_synonym entry = "string \<times> fields"

subsection \<open>The commands\<close>

text \<open>
  A command returns its reply or the text of the error reply, and the new server state.  The
  arguments are those the store passes: \<open>XGROUP CREATE\<close> always with \<open>MKSTREAM\<close>, \<open>XCLAIM\<close> always
  with \<open>JUSTID\<close>, \<open>IDLE\<close> and a minimal idle time of zero, \<open>XAUTOCLAIM\<close> from \<open>0-0\<close>,
  \<open>XREADGROUP\<close> on one stream at \<open>>\<close>.
\<close>

record group_info =
  gi_name :: string
  gi_pending :: "int option"
  gi_lag :: "int option"

record consumer_info =
  ci_name :: string
  ci_pending :: int
  ci_idle :: int

record 'r redis_ops =
  xgroup_create :: "string \<Rightarrow> string \<Rightarrow> string \<Rightarrow> 'r \<Rightarrow> (string + unit) \<times> 'r"
  xadd :: "string \<Rightarrow> fields \<Rightarrow> int \<Rightarrow> 'r \<Rightarrow> (string + string) \<times> 'r"
  xpending_range :: "string \<Rightarrow> string \<Rightarrow> string \<Rightarrow> string \<Rightarrow> nat \<Rightarrow> int option \<Rightarrow> 'r \<Rightarrow> (string + (string \<times> int) list) \<times> 'r"
  xautoclaim :: "string \<Rightarrow> string \<Rightarrow> string \<Rightarrow> int \<Rightarrow> nat \<Rightarrow> 'r \<Rightarrow> (string + entry list) \<times> 'r"
  xreadgroup :: "string \<Rightarrow> string \<Rightarrow> string \<Rightarrow> nat \<Rightarrow> int option \<Rightarrow> 'r \<Rightarrow> (string + (string \<times> entry list) list) \<times> 'r"
  xclaim :: "string \<Rightarrow> string \<Rightarrow> string \<Rightarrow> string list \<Rightarrow> int \<Rightarrow> 'r \<Rightarrow> (string + unit) \<times> 'r"
  xack :: "string \<Rightarrow> string \<Rightarrow> string \<Rightarrow> 'r \<Rightarrow> (string + int) \<times> 'r"
  xdel :: "string \<Rightarrow> string \<Rightarrow> 'r \<Rightarrow> (string + int) \<times> 'r"
  xlen :: "string \<Rightarrow> 'r \<Rightarrow> (string + int) \<times> 'r"
  xtrim0 :: "string \<Rightarrow> 'r \<Rightarrow> (string + int) \<times> 'r"
  xgroup_destroy :: "string \<Rightarrow> string \<Rightarrow> 'r \<Rightarrow> (string + int) \<times> 'r"
  xinfo_groups :: "string \<Rightarrow> 'r \<Rightarrow> (string + group_info list) \<times> 'r"
  xinfo_consumers :: "string \<Rightarrow> string \<Rightarrow> 'r \<Rightarrow> (string + consumer_info list) \<times> 'r"
  xgroup_delconsumer :: "string \<Rightarrow> string \<Rightarrow> string \<Rightarrow> 'r \<Rightarrow> (string + int) \<times> 'r"

definition busygroup :: "string \<Rightarrow> bool" where
  "busygroup e \<longleftrightarrow> sublist ''BUSYGROUP'' e"

subsection \<open>The view\<close>

record pending_entry =
  pe_consumer :: string
  pe_delivered_at :: int
  pe_times :: int

record group_view =
  gv_pend :: "(string \<times> pending_entry) list"
  gv_fresh :: "entry list"

record redis_view =
  rv_now :: int
  rv_log :: "string \<Rightarrow> entry list"
  rv_grp :: "string \<times> string \<Rightarrow> group_view option"
  rv_minted :: "string \<Rightarrow> string set"

definition set_grp :: "string \<Rightarrow> string \<Rightarrow> group_view \<Rightarrow> redis_view \<Rightarrow> redis_view" where
  "set_grp s g gv v = v\<lparr>rv_grp := (rv_grp v)((s, g) := Some gv)\<rparr>"

definition idle_since :: "redis_view \<Rightarrow> int \<Rightarrow> pending_entry \<Rightarrow> bool" where
  "idle_since v idle p \<longleftrightarrow> idle \<le> rv_now v - pe_delivered_at p"

definition in_stream :: "redis_view \<Rightarrow> string \<Rightarrow> string \<Rightarrow> bool" where
  "in_stream v s i \<longleftrightarrow> i \<in> fst ` set (rv_log v s)"

text \<open>\<open>COUNT n\<close>; zero asks for everything.\<close>

definition take_count :: "nat \<Rightarrow> 'a list \<Rightarrow> 'a list" where
  "take_count n xs = (if n = 0 then xs else take n xs)"

definition touch :: "string set \<Rightarrow> (pending_entry \<Rightarrow> pending_entry) \<Rightarrow> (string \<times> pending_entry) list \<Rightarrow>
    (string \<times> pending_entry) list" where
  "touch ids f ps = map (\<lambda>(i, p). (i, if i \<in> ids then f p else p)) ps"

definition forget :: "string set \<Rightarrow> (string \<times> 'a) list \<Rightarrow> (string \<times> 'a) list" where
  "forget ids ps = filter (\<lambda>(i, _). i \<notin> ids) ps"

definition wf_group :: "entry list \<Rightarrow> group_view \<Rightarrow> bool" where
  "wf_group log gv \<longleftrightarrow> distinct (map fst (gv_pend gv)) \<and> distinct (map fst (gv_fresh gv))
     \<and> fst ` set (gv_pend gv) \<inter> fst ` set (gv_fresh gv) = {} \<and> set (gv_fresh gv) \<subseteq> set log"

definition wf_view :: "redis_view \<Rightarrow> bool" where
  "wf_view v \<longleftrightarrow> (\<forall>s. distinct (map fst (rv_log v s)))
     \<and> (\<forall>s. fst ` set (rv_log v s) \<subseteq> rv_minted v s)
     \<and> (\<forall>s g gv. rv_grp v (s, g) = Some gv \<longrightarrow> wf_group (rv_log v s) gv \<and> fst ` set (gv_pend gv) \<subseteq> rv_minted v s)"

text \<open>The pending entries of the group that are still in the stream, past the idle time.\<close>

definition expired_live :: "redis_view \<Rightarrow> string \<Rightarrow> int \<Rightarrow> group_view \<Rightarrow> (string \<times> pending_entry) list" where
  "expired_live v s idle gv = filter (\<lambda>(i, p). idle_since v idle p \<and> in_stream v s i) (gv_pend gv)"

definition fields_of :: "redis_view \<Rightarrow> string \<Rightarrow> string \<Rightarrow> fields" where
  "fields_of v s i = the (map_of (rv_log v s) i)"

subsection \<open>The contract\<close>

text \<open>
  What a reachable server answers.  Pending entries are scanned in the order of their ids, which is
  the order in which they were first delivered.  An entry trimmed from its stream may leave the
  pending list when a claim meets it (as the server version decides).
\<close>

locale redis_streams =
  fixes R :: "'r redis_ops"
    and view :: "'r \<Rightarrow> redis_view"
    and inv :: "'r \<Rightarrow> bool"
  assumes wf: "inv r \<Longrightarrow> wf_view (view r)"
    and create_new: "inv r \<Longrightarrow> rv_grp (view r) (s, g) = None \<Longrightarrow> k \<in> {''0'', ''$''} \<Longrightarrow>
      \<exists>r'. xgroup_create R s g k r = (Inr (), r') \<and> inv r' \<and>
        view r' = set_grp s g \<lparr>gv_pend = [], gv_fresh = (if k = ''0'' then rv_log (view r) s else [])\<rparr> (view r)"
    and create_busy: "inv r \<Longrightarrow> rv_grp (view r) (s, g) = Some gv \<Longrightarrow>
      \<exists>e r'. xgroup_create R s g k r = (Inl e, r') \<and> busygroup e \<and> inv r' \<and> view r' = view r"
    and add: "inv r \<Longrightarrow> 0 < m \<Longrightarrow>
      \<exists>i r' k. xadd R s f m r = (Inr i, r') \<and> inv r' \<and> i \<notin> rv_minted (view r) s
        \<and> i \<in> rv_minted (view r') s \<and> (\<forall>t. rv_minted (view r) t \<subseteq> rv_minted (view r') t)
        \<and> int k \<le> max 0 (int (length (rv_log (view r) s)) + 1 - m)
        \<and> rv_now (view r') = rv_now (view r)
        \<and> rv_log (view r') = (rv_log (view r))(s := drop k (rv_log (view r) s @ [(i, f)]))
        \<and> (\<forall>t g. rv_grp (view r') (t, g) =
             (if t = s then map_option (\<lambda>gv. gv\<lparr>gv_fresh := filter (\<lambda>x. x \<in> set (rv_log (view r') s)) (gv_fresh gv @ [(i, f)])\<rparr>)
                (rv_grp (view r) (t, g)) else rv_grp (view r) (t, g)))"
    and pending: "inv r \<Longrightarrow> rv_grp (view r) (s, g) = Some gv \<Longrightarrow>
      \<exists>r'. xpending_range R s g ''-'' ''+'' n (Some idle) r =
          (Inr (map (\<lambda>(i, p). (i, pe_times p)) (take_count n (filter (\<lambda>(i, p). idle_since (view r) idle p) (gv_pend gv)))), r')
        \<and> inv r' \<and> view r' = view r"
    and pending_one: "inv r \<Longrightarrow> rv_grp (view r) (s, g) = Some gv \<Longrightarrow> map_of (gv_pend gv) i = Some p \<Longrightarrow>
      \<exists>r'. xpending_range R s g i i 1 None r = (Inr [(i, pe_times p)], r') \<and> inv r' \<and> view r' = view r"
    and pending_other: "inv r \<Longrightarrow> rv_grp (view r) (s, g) = Some gv \<Longrightarrow>
      \<exists>ps r'. xpending_range R s g i i 1 None r = (Inr ps, r') \<and> inv r' \<and> view r' = view r"
    and autoclaim: "inv r \<Longrightarrow> rv_grp (view r) (s, g) = Some gv \<Longrightarrow>
      \<exists>r' D ids. ids = map fst (take_count n (expired_live (view r) s idle gv)) \<and>
        xautoclaim R s g c idle n r = (Inr (map (\<lambda>i. (i, fields_of (view r) s i)) ids), r') \<and> inv r'
        \<and> (\<forall>i \<in> D. \<not> in_stream (view r) s i)
        \<and> view r' = set_grp s g (gv\<lparr>gv_pend := touch (set ids)
              (\<lambda>p. \<lparr>pe_consumer = c, pe_delivered_at = rv_now (view r), pe_times = pe_times p + 1\<rparr>)
              (forget D (gv_pend gv))\<rparr>) (view r)"
    and readgroup: "inv r \<Longrightarrow> rv_grp (view r) (s, g) = Some gv \<Longrightarrow> 0 < n \<Longrightarrow> block = None \<or> gv_fresh gv \<noteq> [] \<Longrightarrow>
      \<exists>rep r'. xreadgroup R s g c n block r = (Inr rep, r') \<and> concat (map snd rep) = take n (gv_fresh gv) \<and> inv r'
        \<and> view r' = set_grp s g \<lparr>gv_pend = gv_pend gv @
              map (\<lambda>(i, _). (i, \<lparr>pe_consumer = c, pe_delivered_at = rv_now (view r), pe_times = 1\<rparr>)) (take n (gv_fresh gv)),
              gv_fresh = drop n (gv_fresh gv)\<rparr> (view r)"
    and claim: "inv r \<Longrightarrow> rv_grp (view r) (s, g) = Some gv \<Longrightarrow> 0 \<le> idle \<Longrightarrow>
      \<exists>r' D. xclaim R s g c ids idle r = (Inr (), r') \<and> inv r' \<and> (\<forall>i \<in> D. \<not> in_stream (view r) s i)
        \<and> view r' = set_grp s g (gv\<lparr>gv_pend := touch (set ids)
              (\<lambda>p. p\<lparr>pe_consumer := c, pe_delivered_at := rv_now (view r) - idle\<rparr>) (forget D (gv_pend gv))\<rparr>) (view r)"
    and ack: "inv r \<Longrightarrow> rv_grp (view r) (s, g) = Some gv \<Longrightarrow>
      \<exists>k r'. xack R s g i r = (Inr k, r') \<and> inv r'
        \<and> view r' = set_grp s g (gv\<lparr>gv_pend := forget {i} (gv_pend gv)\<rparr>) (view r)"
    and del: "inv r \<Longrightarrow>
      \<exists>k r'. xdel R s i r = (Inr k, r') \<and> inv r' \<and> rv_now (view r') = rv_now (view r)
        \<and> rv_minted (view r') = rv_minted (view r) \<and> rv_log (view r') = (rv_log (view r))(s := forget {i} (rv_log (view r) s))
        \<and> (\<forall>t g. rv_grp (view r') (t, g) =
             (if t = s then map_option (\<lambda>gv. gv\<lparr>gv_fresh := forget {i} (gv_fresh gv)\<rparr>) (rv_grp (view r) (t, g))
              else rv_grp (view r) (t, g)))"
    and len: "inv r \<Longrightarrow> \<exists>r'. xlen R s r = (Inr (int (length (rv_log (view r) s))), r') \<and> inv r' \<and> view r' = view r"
    and trim: "inv r \<Longrightarrow>
      \<exists>k r'. xtrim0 R s r = (Inr k, r') \<and> inv r' \<and> rv_now (view r') = rv_now (view r)
        \<and> rv_minted (view r') = rv_minted (view r) \<and> rv_log (view r') = (rv_log (view r))(s := [])
        \<and> (\<forall>t g. rv_grp (view r') (t, g) =
             (if t = s then map_option (\<lambda>gv. gv\<lparr>gv_fresh := []\<rparr>) (rv_grp (view r) (t, g)) else rv_grp (view r) (t, g)))"
    and destroy: "inv r \<Longrightarrow>
      \<exists>k r'. xgroup_destroy R s g r = (Inr k, r') \<and> inv r' \<and> view r' = (view r)\<lparr>rv_grp := (rv_grp (view r))((s, g) := None)\<rparr>"
    and info: "inv r \<Longrightarrow>
      \<exists>is r'. xinfo_groups R s r = (Inr is, r') \<and> inv r' \<and> view r' = view r \<and> distinct (map gi_name is)
        \<and> (\<forall>g gv. rv_grp (view r) (s, g) = Some gv \<longrightarrow> (\<exists>x \<in> set is. gi_name x = g))
        \<and> (\<forall>x \<in> set is. \<exists>gv. rv_grp (view r) (s, gi_name x) = Some gv \<and> gi_pending x = Some (int (length (gv_pend gv)))
             \<and> (\<forall>n. gi_lag x = Some n \<longrightarrow> n = int (length (gv_fresh gv))))"
    and consumers: "inv r \<Longrightarrow> rv_grp (view r) (s, g) = Some gv \<Longrightarrow>
      \<exists>cs r'. xinfo_consumers R s g r = (Inr cs, r') \<and> inv r' \<and> view r' = view r
        \<and> (\<forall>x \<in> set cs. ci_pending x = int (length (filter (\<lambda>(_, p). pe_consumer p = ci_name x) (gv_pend gv))))"
    and delconsumer: "inv r \<Longrightarrow> rv_grp (view r) (s, g) = Some gv \<Longrightarrow>
      \<forall>(_, p) \<in> set (gv_pend gv). pe_consumer p \<noteq> c \<Longrightarrow>
      \<exists>k r'. xgroup_delconsumer R s g c r = (Inr k, r') \<and> inv r' \<and> view r' = view r"

subsection \<open>Facts on views\<close>

lemma touch_fst [simp]: "map fst (touch ids f ps) = map fst ps" "fst ` set (touch ids f ps) = fst ` set ps"
  by (auto simp: touch_def case_prod_beta image_image intro: map_cong)

lemma touch_append [simp]: "touch ids f (xs @ ys) = touch ids f xs @ touch ids f ys"
  by (simp add: touch_def)

lemma touch_none: "ids \<inter> fst ` set ps = {} \<Longrightarrow> touch ids f ps = ps"
  by (induction ps) (auto simp: touch_def)

lemma map_of_touch: "map_of (touch ids f ps) i = map_option (\<lambda>p. if i \<in> ids then f p else p) (map_of ps i)"
  by (induction ps) (auto simp: touch_def)

lemma forget_empty [simp]: "forget {} ps = ps"
  by (simp add: forget_def)

lemma forget_none: "ids \<inter> fst ` set ps = {} \<Longrightarrow> forget ids ps = ps"
  by (induction ps) (auto simp: forget_def)

lemma map_of_forget: "map_of (forget ids ps) i = (if i \<in> ids then None else map_of ps i)"
  by (induction ps) (auto simp: forget_def)

lemma set_grp_simps [simp]:
  "rv_now (set_grp s g gv v) = rv_now v" "rv_minted (set_grp s g gv v) = rv_minted v" "rv_log (set_grp s g gv v) = rv_log v"
  "rv_grp (set_grp s g gv v) = (rv_grp v)((s, g) := Some gv)"
  "set_grp s g gv (set_grp s g gw v) = set_grp s g gv v"
  by (simp_all add: set_grp_def)

lemma set_grp_id: "rv_grp v (s, g) = Some gv \<Longrightarrow> set_grp s g gv v = v"
  by (rule redis_view.equality) (auto simp: set_grp_def fun_upd_idem)

lemma in_stream_set_grp [simp]: "in_stream (set_grp s g gv v) t i = in_stream v t i"
  by (simp add: in_stream_def)

lemma fields_of_set_grp [simp]: "fields_of (set_grp s g gv v) t i = fields_of v t i"
  by (simp add: fields_of_def)

lemma idle_since_set_grp [simp]: "idle_since (set_grp s g gv v) n p = idle_since v n p"
  by (simp add: idle_since_def)

lemma length_take_count: "0 < n \<Longrightarrow> length (take_count n xs) \<le> n"
  by (simp add: take_count_def)

lemma set_take_count: "set (take_count n xs) \<subseteq> set xs"
  by (auto simp: take_count_def dest: in_set_takeD)

lemma distinct_take_count: "distinct (map f xs) \<Longrightarrow> distinct (map f (take_count n xs))"
  by (auto simp: take_count_def take_map[symmetric] intro: distinct_take)

end
