(* ===== verification/QueueStore.thy ===== *)
theory QueueStore
  imports QueueConfig RedisStreams Envelope
begin

text \<open>
  The pull-queue engine of queues/store.py over any server that answers the commands of
  \<open>RedisStreams\<close>: sending, leasing, acknowledging, changing a lease, parking of poison messages,
  introspection and administration; then the lemmas that hold for every server keeping the
  contract.
\<close>

subsection \<open>The store\<close>

text \<open>The wire codec: \<open>DefaultCodec\<close> puts the JSON text of the envelope in one field.\<close>

record wire_codec =
  wc_encode :: "envelope \<Rightarrow> fields result"
  wc_decode :: "fields \<Rightarrow> envelope result"

definition default_codec :: "json_codec \<Rightarrow> string \<Rightarrow> wire_codec" where
  "default_codec J u =
     \<lparr>wc_encode = (\<lambda>e. map_sum id (\<lambda>t. [(''envelope'', t)]) (dumps J (PDict (to_dict e)))),
      wc_decode = (\<lambda>f. case dict_get f ''envelope'' of
          None \<Rightarrow> Inl (TypeError ''the JSON object must be str'')
        | Some raw \<Rightarrow>
            if raw = [] then Inl (TypeError ''the JSON object must be str'')
            else (case loads J raw of
                    Inl e \<Rightarrow> Inl e
                  | Inr (PDict d) \<Rightarrow> from_dict u d
                  | Inr _ \<Rightarrow> Inl (TypeError ''not a mapping'')))\<rparr>"

text \<open>A call of the dead-letter callback; what it raises is swallowed.\<close>

record dlq_call =
  dc_envelope :: envelope
  dc_attempts :: int
  dc_error :: string
  dc_subscriber_id :: string

record queue_store =
  qs_registry :: queue_registry
  qs_receipts :: receipt_codec
  qs_consumer :: string
  qs_wire :: wire_codec
  qs_on_dlq :: bool
  qs_json :: json_codec
  qs_mac :: keyed_mac

definition queue_store_new ::
    "queue_registry \<Rightarrow> receipt_codec \<Rightarrow> string option \<Rightarrow> string \<Rightarrow> wire_codec \<Rightarrow> bool \<Rightarrow> json_codec \<Rightarrow> keyed_mac \<Rightarrow>
     string \<Rightarrow> queue_store result" where
  "queue_store_new reg rc consumer_name default_name wire on_dlq J mac bus_stream_prefix =
     map_sum id (\<lambda>_. \<lparr>qs_registry = reg, qs_receipts = rc,
        qs_consumer = (case consumer_name of Some c \<Rightarrow> if c = [] then default_name else c | None \<Rightarrow> default_name),
        qs_wire = wire, qs_on_dlq = on_dlq, qs_json = J, qs_mac = mac\<rparr>)
      (assert_prefixes_disjoint (if qr_prefix reg = [] then DEFAULT_QUEUE_PREFIX else qr_prefix reg) bus_stream_prefix)"

text \<open>The server and the calls made to the dead-letter callback.\<close>

record 'r qstate =
  q_redis :: 'r
  q_dlq :: "dlq_call list"

definition q_stream :: "queue_store \<Rightarrow> queue_config \<Rightarrow> string" where
  "q_stream S q = stream_for (qs_registry S) (qc_name q)"

definition lift_err :: "string + 'a \<Rightarrow> 'a result" where
  "lift_err = map_sum OtherError id"

definition store_decode_receipt ::
    "queue_store \<Rightarrow> string \<Rightarrow> string \<Rightarrow> string \<Rightarrow> int \<Rightarrow> decode_error + receipt" where
  "store_decode_receipt S handle queue grp now_ms =
     decode_receipt (qs_json S) (qs_mac S) (qs_receipts S) handle queue grp now_ms"

subsection \<open>Groups and sending\<close>

definition ensure_group :: "'r redis_ops \<Rightarrow> string \<Rightarrow> string \<Rightarrow> 'r \<Rightarrow> (string + unit) \<times> 'r" where
  "ensure_group R s g r =
     (case xgroup_create R s g ''0'' r of
        (Inr _, r') \<Rightarrow> (Inr (), r')
      | (Inl e, r') \<Rightarrow> if busygroup e then (Inr (), r') else (Inl e, r'))"

fun ensure_groups :: "'r redis_ops \<Rightarrow> string \<Rightarrow> string list \<Rightarrow> 'r \<Rightarrow> (string + unit) \<times> 'r" where
  "ensure_groups R s [] r = (Inr (), r)"
| "ensure_groups R s (g # gs) r =
     (case ensure_group R s g r of (Inr _, r') \<Rightarrow> ensure_groups R s gs r' | (Inl e, r') \<Rightarrow> (Inl e, r'))"

definition ensure_queue :: "'r redis_ops \<Rightarrow> queue_store \<Rightarrow> queue_config \<Rightarrow> 'r \<Rightarrow> (string + unit) \<times> 'r" where
  "ensure_queue R S q r = ensure_groups R (q_stream S q) (map qg_name (qc_groups q)) r"

fun ensure_queues :: "'r redis_ops \<Rightarrow> queue_store \<Rightarrow> queue_config list \<Rightarrow> 'r \<Rightarrow> (string + unit) \<times> 'r" where
  "ensure_queues R S [] r = (Inr (), r)"
| "ensure_queues R S (q # qs) r =
     (case ensure_queue R S q r of (Inr _, r') \<Rightarrow> ensure_queues R S qs r' | (Inl e, r') \<Rightarrow> (Inl e, r'))"

definition ensure_all :: "'r redis_ops \<Rightarrow> queue_store \<Rightarrow> 'r \<Rightarrow> (string + unit) \<times> 'r" where
  "ensure_all R S r = ensure_queues R S (qr_queues (qs_registry S)) r"

definition send :: "'r redis_ops \<Rightarrow> queue_store \<Rightarrow> queue_config \<Rightarrow> envelope \<Rightarrow> 'r \<Rightarrow> string result \<times> 'r" where
  "send R S q e r =
     (case wc_encode (qs_wire S) e of
        Inl x \<Rightarrow> (Inl x, r)
      | Inr f \<Rightarrow> (case xadd R (q_stream S q) f (qc_maxlen q) r of (x, r') \<Rightarrow> (lift_err x, r')))"

subsection \<open>Receiving\<close>

definition ack_quiet :: "'r redis_ops \<Rightarrow> string \<Rightarrow> string \<Rightarrow> string \<Rightarrow> 'r \<Rightarrow> 'r" where
  "ack_quiet R s g i r = snd (xack R s g i r)"

definition park_to_dlq ::
    "'r redis_ops \<Rightarrow> queue_store \<Rightarrow> queue_config \<Rightarrow> string \<Rightarrow> string \<Rightarrow> string \<Rightarrow> fields \<Rightarrow> int \<Rightarrow> 'r qstate \<Rightarrow> 'r qstate" where
  "park_to_dlq R S q g s i f attempts st =
     st\<lparr>q_dlq := q_dlq st @
          (if qs_on_dlq S
           then (case wc_decode (qs_wire S) f of
                   Inl _ \<Rightarrow> []
                 | Inr e \<Rightarrow> [\<lparr>dc_envelope = e, dc_attempts = attempts,
                     dc_error = ''exceeded max_receives='' @ int_str (receives_cap q g), dc_subscriber_id = s @ '':'' @ g\<rparr>])
           else []),
        q_redis := ack_quiet R s g i (q_redis st)\<rparr>"

text \<open>A dict comprehension over the reply, and the loop over the claimed entries.\<close>

definition seen_counts :: "(string \<times> int) list \<Rightarrow> (string \<times> int) list" where
  "seen_counts ps = fold (\<lambda>(i, n). dict_set i n) ps []"

type_synonym leased = "string \<times> fields \<times> int"

fun handle_claimed ::
    "'r redis_ops \<Rightarrow> queue_store \<Rightarrow> queue_config \<Rightarrow> string \<Rightarrow> string \<Rightarrow> (string \<times> int) list \<Rightarrow> entry list \<Rightarrow> 'r qstate \<Rightarrow>
     leased list \<times> 'r qstate" where
  "handle_claimed R S q g s seen [] st = ([], st)"
| "handle_claimed R S q g s seen ((i, f) # es) st =
     (let n = (case dict_get seen i of None \<Rightarrow> 0 | Some n \<Rightarrow> n)
      in if dict_get seen i \<noteq> None \<and> n > receives_cap q g
         then handle_claimed R S q g s seen es (park_to_dlq R S q g s i f n st)
         else (case handle_claimed R S q g s seen es st of (us, st') \<Rightarrow> ((i, f, n + 1) # us, st')))"

definition reclaim ::
    "'r redis_ops \<Rightarrow> queue_store \<Rightarrow> queue_config \<Rightarrow> string \<Rightarrow> string \<Rightarrow> int \<Rightarrow> nat \<Rightarrow> 'r qstate \<Rightarrow> leased list \<times> 'r qstate" where
  "reclaim R S q g s threshold count st =
     (case xpending_range R s g ''-'' ''+'' count (Some threshold) (q_redis st) of
        (Inl _, r1) \<Rightarrow> ([], st\<lparr>q_redis := r1\<rparr>)
      | (Inr ps, r1) \<Rightarrow>
          (case xautoclaim R s g (qs_consumer S) threshold count r1 of
             (Inl _, r2) \<Rightarrow> ([], st\<lparr>q_redis := r2\<rparr>)
           | (Inr es, r2) \<Rightarrow> handle_claimed R S q g s (seen_counts ps) es (st\<lparr>q_redis := r2\<rparr>)))"

definition read_new ::
    "'r redis_ops \<Rightarrow> queue_store \<Rightarrow> string \<Rightarrow> string \<Rightarrow> nat \<Rightarrow> int \<Rightarrow> 'r \<Rightarrow> (string + leased list) \<times> 'r" where
  "read_new R S s g count wait_ms r =
     (case xreadgroup R s g (qs_consumer S) count (if wait_ms > 0 then Some wait_ms else None) r of
        (x, r') \<Rightarrow> (map_sum id (\<lambda>rep. map (\<lambda>(i, f). (i, f, 1)) (concat (map snd rep))) x, r'))"

definition apply_visibility ::
    "'r redis_ops \<Rightarrow> queue_store \<Rightarrow> string \<Rightarrow> string \<Rightarrow> string list \<Rightarrow> int \<Rightarrow> int \<Rightarrow> 'r \<Rightarrow> 'r" where
  "apply_visibility R S s g ids threshold lease r =
     (if ids = [] \<or> lease \<ge> threshold then r
      else snd (xclaim R s g (qs_consumer S) ids (max 0 (threshold - lease)) r))"

record delivered_message =
  dm_id :: string
  dm_envelope :: envelope
  dm_receipt :: receipt
  dm_handle :: string
  dm_delivered :: int

definition mk_receipt :: "queue_store \<Rightarrow> queue_config \<Rightarrow> string \<Rightarrow> string \<Rightarrow> string \<Rightarrow> int \<Rightarrow> int \<Rightarrow> receipt" where
  "mk_receipt S q g s i count expires_at =
     \<lparr>rc_queue = qc_name q, rc_group = g, rc_stream = s, rc_message_id = i, rc_consumer = qs_consumer S,
      rc_delivered = count, rc_expires_at_ms = expires_at\<rparr>"

fun deliver_entries ::
    "'r redis_ops \<Rightarrow> queue_store \<Rightarrow> queue_config \<Rightarrow> string \<Rightarrow> string \<Rightarrow> int \<Rightarrow> leased list \<Rightarrow> 'r \<Rightarrow>
     delivered_message list result \<times> 'r" where
  "deliver_entries R S q g s expires_at [] r = (Inr [], r)"
| "deliver_entries R S q g s expires_at ((i, f, count) # ms) r =
     (case wc_decode (qs_wire S) f of
        Inl _ \<Rightarrow> deliver_entries R S q g s expires_at ms (ack_quiet R s g i r)
      | Inr e \<Rightarrow>
          (let rc = mk_receipt S q g s i count expires_at
           in case encode_receipt (qs_json S) (qs_mac S) (qs_receipts S) rc of
                Inl x \<Rightarrow> (Inl x, r)
              | Inr h \<Rightarrow>
                  (case deliver_entries R S q g s expires_at ms r of
                     (Inl x, r') \<Rightarrow> (Inl x, r')
                   | (Inr ds, r') \<Rightarrow>
                       (Inr (\<lparr>dm_id = i, dm_envelope = e, dm_receipt = rc, dm_handle = h, dm_delivered = count\<rparr> # ds), r'))))"

definition lease_ms :: "queue_config \<Rightarrow> int option \<Rightarrow> int" where
  "lease_ms q visibility_ms = (case visibility_ms of None \<Rightarrow> qc_default_visibility_ms q | Some v \<Rightarrow> v)"

text \<open>The end of a receive: offset the idle clocks, then decode and mint the handles.\<close>

definition finish_receive ::
    "'r redis_ops \<Rightarrow> queue_store \<Rightarrow> queue_config \<Rightarrow> string \<Rightarrow> int option \<Rightarrow> int \<Rightarrow> leased list \<Rightarrow> 'r qstate \<Rightarrow>
     delivered_message list result \<times> 'r qstate" where
  "finish_receive R S q g visibility_ms now_ms ms st =
     (if ms = [] then (Inr [], st)
      else (let s = q_stream S q; lease = lease_ms q visibility_ms;
                r1 = apply_visibility R S s g (map fst ms) (qc_max_visibility_ms q) lease (q_redis st)
            in case deliver_entries R S q g s (now_ms + lease) ms r1 of (x, r2) \<Rightarrow> (x, st\<lparr>q_redis := r2\<rparr>)))"

definition receive ::
    "'r redis_ops \<Rightarrow> queue_store \<Rightarrow> queue_config \<Rightarrow> string \<Rightarrow> nat \<Rightarrow> int \<Rightarrow> int option \<Rightarrow> int \<Rightarrow> 'r qstate \<Rightarrow>
     delivered_message list result \<times> 'r qstate" where
  "receive R S q g max_messages wait_ms visibility_ms now_ms st =
     (let s = q_stream S q
      in case ensure_group R s g (q_redis st) of
           (Inl e, r) \<Rightarrow> (Inl (OtherError e), st\<lparr>q_redis := r\<rparr>)
         | (Inr _, r) \<Rightarrow>
             (case reclaim R S q g s (qc_max_visibility_ms q) max_messages (st\<lparr>q_redis := r\<rparr>) of
                (us, st1) \<Rightarrow>
                  (let remaining = max_messages - length us
                   in if remaining > 0
                      then (case read_new R S s g remaining wait_ms (q_redis st1) of
                              (Inl e, r2) \<Rightarrow> (Inl (OtherError e), st1\<lparr>q_redis := r2\<rparr>)
                            | (Inr ns, r2) \<Rightarrow> finish_receive R S q g visibility_ms now_ms (us @ ns) (st1\<lparr>q_redis := r2\<rparr>))
                      else finish_receive R S q g visibility_ms now_ms us st1)))"

subsection \<open>Acknowledging and changing a lease\<close>

datatype store_exc = StaleReceipt string

fun first_stale :: "string \<Rightarrow> int \<Rightarrow> (string \<times> int) list \<Rightarrow> store_exc option" where
  "first_stale i delivered [] = None"
| "first_stale i delivered ((_, n) # ps) =
     (if n > delivered
      then Some (StaleReceipt (''message '' @ i @ '' was redelivered ('' @ int_str n @ '' > '' @ int_str delivered
             @ ''); another consumer may hold it now''))
      else first_stale i delivered ps)"

definition assert_lease_current :: "'r redis_ops \<Rightarrow> receipt \<Rightarrow> 'r \<Rightarrow> store_exc option \<times> 'r" where
  "assert_lease_current R rc r =
     (case xpending_range R (rc_stream rc) (rc_group rc) (rc_message_id rc) (rc_message_id rc) 1 None r of
        (Inl _, r') \<Rightarrow> (None, r')
      | (Inr ps, r') \<Rightarrow> (first_stale (rc_message_id rc) (rc_delivered rc) ps, r'))"

definition delete_message :: "'r redis_ops \<Rightarrow> queue_config \<Rightarrow> receipt \<Rightarrow> 'r \<Rightarrow> (store_exc + unit) \<times> 'r" where
  "delete_message R q rc r =
     (case (if qc_strict_ack q then assert_lease_current R rc r else (None, r)) of
        (Some x, r') \<Rightarrow> (Inl x, r')
      | (None, r') \<Rightarrow>
          (let r1 = ack_quiet R (rc_stream rc) (rc_group rc) (rc_message_id rc) r'
           in (Inr (), if qc_delete_entries q then snd (xdel R (rc_stream rc) (rc_message_id rc) r1) else r1)))"

definition change_visibility :: "'r redis_ops \<Rightarrow> queue_config \<Rightarrow> receipt \<Rightarrow> int \<Rightarrow> 'r \<Rightarrow> (string + unit) \<times> 'r" where
  "change_visibility R q rc visibility_ms r =
     (let threshold = qc_max_visibility_ms q;
          idle = (if visibility_ms \<le> 0 then threshold else max 0 (threshold - visibility_ms))
      in xclaim R (rc_stream rc) (rc_group rc) (rc_consumer rc) [rc_message_id rc] idle r)"

subsection \<open>Introspection and administration\<close>

record queue_info =
  qi_stream_length :: int
  qi_messages :: "int option"
  qi_not_visible :: "int option"
  qi_default_visibility_s :: int
  qi_max_receives :: int

definition describe :: "'r redis_ops \<Rightarrow> queue_store \<Rightarrow> queue_config \<Rightarrow> string option \<Rightarrow> 'r \<Rightarrow> queue_info \<times> 'r" where
  "describe R S q grp r =
     (case xlen R (q_stream S q) r of
        (x, r1) \<Rightarrow>
          (let len = (case x of Inr n \<Rightarrow> n | Inl _ \<Rightarrow> 0);
               base = \<lparr>qi_stream_length = len, qi_messages = None, qi_not_visible = None,
                       qi_default_visibility_s = qc_default_visibility_ms q div 1000, qi_max_receives = qc_max_receives q\<rparr>
           in case grp of
                None \<Rightarrow> (base, r1)
              | Some g \<Rightarrow>
                  (case xinfo_groups R (q_stream S q) r1 of
                     (Inl _, r2) \<Rightarrow> (base, r2)
                   | (Inr is, r2) \<Rightarrow>
                       (case find (\<lambda>x. gi_name x = g) is of
                          None \<Rightarrow> (base, r2)
                        | Some x \<Rightarrow> (base\<lparr>qi_not_visible := gi_pending x,
                            qi_messages := Some (case gi_lag x of Some n \<Rightarrow> n | None \<Rightarrow> len)\<rparr>, r2)))))"

fun reset_groups :: "'r redis_ops \<Rightarrow> string \<Rightarrow> string list \<Rightarrow> 'r \<Rightarrow> unit result \<times> 'r" where
  "reset_groups R s [] r = (Inr (), r)"
| "reset_groups R s (g # gs) r =
     (case xgroup_create R s g ''$'' (snd (xgroup_destroy R s g r)) of
        (Inr _, r') \<Rightarrow> reset_groups R s gs r'
      | (Inl e, r') \<Rightarrow> if busygroup e then reset_groups R s gs r' else (Inl (OtherError e), r'))"

definition purge :: "'r redis_ops \<Rightarrow> queue_store \<Rightarrow> queue_config \<Rightarrow> 'r \<Rightarrow> unit result \<times> 'r" where
  "purge R S q r =
     (case xtrim0 R (q_stream S q) r of
        (Inl e, r') \<Rightarrow> (Inl (OtherError e), r')
      | (Inr _, r') \<Rightarrow> reset_groups R (q_stream S q) (map qg_name (qc_groups q)) r')"

fun prune_group :: "'r redis_ops \<Rightarrow> string \<Rightarrow> string \<Rightarrow> int \<Rightarrow> consumer_info list \<Rightarrow> nat \<Rightarrow> 'r \<Rightarrow> nat \<times> 'r" where
  "prune_group R s g idle_ms [] removed r = (removed, r)"
| "prune_group R s g idle_ms (x # xs) removed r =
     (if ci_pending x \<noteq> 0 \<or> ci_idle x < idle_ms then prune_group R s g idle_ms xs removed r
      else (case xgroup_delconsumer R s g (ci_name x) r of
              (Inr _, r') \<Rightarrow> prune_group R s g idle_ms xs (removed + 1) r'
            | (Inl _, r') \<Rightarrow> prune_group R s g idle_ms xs removed r'))"

fun prune_groups :: "'r redis_ops \<Rightarrow> string \<Rightarrow> int \<Rightarrow> string list \<Rightarrow> nat \<Rightarrow> 'r \<Rightarrow> nat \<times> 'r" where
  "prune_groups R s idle_ms [] removed r = (removed, r)"
| "prune_groups R s idle_ms (g # gs) removed r =
     (case xinfo_consumers R s g r of
        (Inl _, r') \<Rightarrow> prune_groups R s idle_ms gs removed r'
      | (Inr cs, r') \<Rightarrow> (case prune_group R s g idle_ms cs removed r' of (n, r2) \<Rightarrow> prune_groups R s idle_ms gs n r2))"

definition prune_consumers :: "'r redis_ops \<Rightarrow> queue_store \<Rightarrow> queue_config \<Rightarrow> int \<Rightarrow> 'r \<Rightarrow> nat \<times> 'r" where
  "prune_consumers R S q idle_ms r = prune_groups R (q_stream S q) idle_ms (map qg_name (qc_groups q)) 0 r"

end
