(* ===== verification/QueueLeases.thy ===== *)
theory QueueLeases
  imports QueueStore
begin

text \<open>
  What the queue store promises on every server that keeps the \<open>redis_streams\<close> contract, stated on
  the server's view: which messages a receive hands out and what it does to the pending list, when
  an acknowledgement is accepted, and that nothing else ends a lease.
\<close>

subsection \<open>What a receive should do\<close>

definition ensured :: "string \<Rightarrow> string \<Rightarrow> redis_view \<Rightarrow> group_view" where
  "ensured s g v = (case rv_grp v (s, g) of Some gv \<Rightarrow> gv | None \<Rightarrow> \<lparr>gv_pend = [], gv_fresh = rv_log v s\<rparr>)"

text \<open>The claimed entries with their count before the claim; those above the cap are parked.\<close>

definition scanned :: "redis_view \<Rightarrow> string \<Rightarrow> int \<Rightarrow> nat \<Rightarrow> group_view \<Rightarrow> (string \<times> int) list" where
  "scanned v s idle n gv = map (\<lambda>(i, p). (i, pe_times p)) (take_count n (filter (\<lambda>(i, p). idle_since v idle p) (gv_pend gv)))"

definition claimed :: "redis_view \<Rightarrow> string \<Rightarrow> int \<Rightarrow> nat \<Rightarrow> group_view \<Rightarrow> string list" where
  "claimed v s idle n gv = map fst (take_count n (expired_live v s idle gv))"

definition over_cap :: "(string \<times> int) list \<Rightarrow> int \<Rightarrow> string \<Rightarrow> bool" where
  "over_cap seen cap i = (case map_of seen i of None \<Rightarrow> False | Some n \<Rightarrow> n > cap)"

definition count_after :: "(string \<times> int) list \<Rightarrow> string \<Rightarrow> int" where
  "count_after seen i = (case map_of seen i of None \<Rightarrow> 1 | Some n \<Rightarrow> n + 1)"

definition reclaimed :: "redis_view \<Rightarrow> string \<Rightarrow> int \<Rightarrow> int \<Rightarrow> nat \<Rightarrow> group_view \<Rightarrow> leased list" where
  "reclaimed v s cap idle n gv =
     (let seen = scanned v s idle n gv
      in map (\<lambda>i. (i, fields_of v s i, count_after seen i)) (filter (\<lambda>i. \<not> over_cap seen cap i) (claimed v s idle n gv)))"

definition parked :: "redis_view \<Rightarrow> string \<Rightarrow> int \<Rightarrow> int \<Rightarrow> nat \<Rightarrow> group_view \<Rightarrow> string list" where
  "parked v s cap idle n gv = filter (over_cap (scanned v s idle n gv) cap) (claimed v s idle n gv)"

definition first_reads :: "nat \<Rightarrow> group_view \<Rightarrow> leased list" where
  "first_reads n gv = map (\<lambda>(i, f). (i, f, 1)) (take n (gv_fresh gv))"

text \<open>The batch: expired leases first, then entries never delivered, as many as still fit.\<close>

definition batch :: "redis_view \<Rightarrow> string \<Rightarrow> int \<Rightarrow> int \<Rightarrow> nat \<Rightarrow> group_view \<Rightarrow> leased list" where
  "batch v s cap idle n gv =
     (let us = reclaimed v s cap idle n gv in us @ first_reads (n - length us) gv)"

definition wire_ok :: "queue_store \<Rightarrow> leased \<Rightarrow> bool" where
  "wire_ok S m \<longleftrightarrow> \<not> isl (wc_decode (qs_wire S) (fst (snd m)))"

subsection \<open>Facts on the lists\<close>

lemma seen_counts_get: "dict_get (seen_counts ps) i = map_of (rev ps) i"
proof -
  have "dict_get (fold (\<lambda>(i, n). dict_set i n) ps d) i = (case map_of (rev ps) i of None \<Rightarrow> dict_get d i | Some n \<Rightarrow> Some n)" for d
    by (induction ps arbitrary: d) (auto simp: map_add_def split: option.splits)
  then show ?thesis by (auto simp: seen_counts_def split: option.splits)
qed

lemma map_of_rev: "distinct (map fst ps) \<Longrightarrow> map_of (rev ps) i = map_of ps i"
  by (metis map_of_inject_set distinct_rev rev_map set_rev)

lemma scanned_distinct: "distinct (map fst (gv_pend gv)) \<Longrightarrow> distinct (map fst (scanned v s idle n gv))"
proof -
  assume d: "distinct (map fst (gv_pend gv))"
  have "map fst (scanned v s idle n gv) = map fst (take_count n (filter (\<lambda>(i, p). idle_since v idle p) (gv_pend gv)))"
    by (simp add: scanned_def comp_def case_prod_beta)
  then show ?thesis using distinct_take_count[OF distinct_map_filter[OF d]] by simp
qed

lemma claimed_pend: "i \<in> set (claimed v s idle n gv) \<Longrightarrow>
   \<exists>p. (i, p) \<in> set (gv_pend gv) \<and> idle_since v idle p \<and> in_stream v s i"
  unfolding claimed_def expired_live_def using set_take_count by fastforce

lemma claimed_distinct: "distinct (map fst (gv_pend gv)) \<Longrightarrow> distinct (claimed v s idle n gv)"
  unfolding claimed_def expired_live_def by (intro distinct_take_count distinct_map_filter)

lemma reclaimed_ids: "map fst (reclaimed v s cap idle n gv) =
   filter (\<lambda>i. \<not> over_cap (scanned v s idle n gv) cap i) (claimed v s idle n gv)"
  by (simp add: reclaimed_def Let_def comp_def)

lemma first_reads_ids: "map fst (first_reads n gv) = map fst (take n (gv_fresh gv))"
  by (simp add: first_reads_def comp_def case_prod_beta)

lemma untrimmed_claimed:
  assumes "\<forall>(i, p) \<in> set (gv_pend gv). in_stream v s i"
  shows "claimed v s idle n gv = map fst (scanned v s idle n gv)"
proof -
  have "filter (\<lambda>(i, p). idle_since v idle p \<and> in_stream v s i) (gv_pend gv) = filter (\<lambda>(i, p). idle_since v idle p) (gv_pend gv)"
    using assms by (intro filter_cong) auto
  then show ?thesis by (simp add: claimed_def scanned_def expired_live_def comp_def case_prod_beta)
qed

subsection \<open>The operations, one lemma each\<close>

definition handed :: "queue_store \<Rightarrow> queue_config \<Rightarrow> string \<Rightarrow> string \<Rightarrow> int \<Rightarrow> leased \<Rightarrow> delivered_message" where
  "handed S q g s expires_at m =
     (case m of (i, f, n) \<Rightarrow>
        (let rc = mk_receipt S q g s i n expires_at
         in \<lparr>dm_id = i, dm_envelope = projr (wc_decode (qs_wire S) f), dm_receipt = rc,
             dm_handle = projr (encode_receipt (qs_json S) (qs_mac S) (qs_receipts S) rc), dm_delivered = n\<rparr>))"

definition undecodable :: "queue_store \<Rightarrow> leased list \<Rightarrow> string set" where
  "undecodable S ms = set (map fst (filter (\<lambda>m. \<not> wire_ok S m) ms))"

definition leased_by :: "string \<Rightarrow> int \<Rightarrow> pending_entry \<Rightarrow> pending_entry" where
  "leased_by c t p = \<lparr>pe_consumer = c, pe_delivered_at = t, pe_times = pe_times p + 1\<rparr>"

definition aged :: "string \<Rightarrow> int \<Rightarrow> int \<Rightarrow> int \<Rightarrow> pending_entry \<Rightarrow> pending_entry" where
  "aged c now threshold lease p =
     (if lease < threshold then p\<lparr>pe_consumer := c, pe_delivered_at := now - max 0 (threshold - lease)\<rparr> else p)"

lemma forget_forget: "forget A (forget B ps) = forget (A \<union> B) ps"
  by (induction ps) (auto simp: forget_def)

text \<open>The pending list a receive leaves behind, but for what it drops: dead and undecodable entries.\<close>

definition first_pend :: "queue_store \<Rightarrow> redis_view \<Rightarrow> nat \<Rightarrow> group_view \<Rightarrow> (string \<times> pending_entry) list" where
  "first_pend S v n gv =
     map (\<lambda>(i, _). (i, \<lparr>pe_consumer = qs_consumer S, pe_delivered_at = rv_now v, pe_times = 1\<rparr>)) (take n (gv_fresh gv))"

definition received_view ::
    "queue_store \<Rightarrow> queue_config \<Rightarrow> string \<Rightarrow> int option \<Rightarrow> nat \<Rightarrow> string set \<Rightarrow> string set \<Rightarrow> string set \<Rightarrow> redis_view \<Rightarrow> redis_view"
  where
  "received_view S q g vis n DA DB U v =
     (let s = q_stream S q; gv = ensured s g v; cap = receives_cap q g; T = qc_max_visibility_ms q;
          m = n - length (reclaimed v s cap T n gv); c = qs_consumer S
      in set_grp s g \<lparr>gv_pend = forget U (touch (fst ` set (batch v s cap T n gv)) (aged c (rv_now v) T (lease_ms q vis))
             (forget DB (forget (set (parked v s cap T n gv))
                 (touch (set (claimed v s T n gv)) (leased_by c (rv_now v)) (forget DA (gv_pend gv)))
               @ first_pend S v m gv))), gv_fresh = drop m (gv_fresh gv)\<rparr> v)"

lemma touch_ident: "(\<And>p. f p = p) \<Longrightarrow> touch ids f ps = ps"
  by (induction ps) (auto simp: touch_def)

context redis_streams
begin

lemma ensure_group_spec:
  assumes "inv r"
  obtains r' where "ensure_group R s g r = (Inr (), r')" "inv r'"
    "view r' = set_grp s g (ensured s g (view r)) (view r)"
proof (cases "rv_grp (view r) (s, g)")
  case None
  with create_new[OF assms None, of "''0''"] that show ?thesis
    by (auto simp: ensure_group_def ensured_def)
next
  case (Some gv)
  with create_busy[OF assms Some, of "''0''"] that show ?thesis
    by (auto simp: ensure_group_def ensured_def set_grp_id)
qed

lemma ack_quiet_spec:
  assumes "inv r" "rv_grp (view r) (s, g) = Some gv"
  shows "inv (ack_quiet R s g i r)"
    "view (ack_quiet R s g i r) = set_grp s g (gv\<lparr>gv_pend := forget {i} (gv_pend gv)\<rparr>) (view r)"
  using ack[OF assms, of i] by (auto simp: ack_quiet_def)

lemma handle_claimed_spec:
  assumes "inv (q_redis st)" "rv_grp (view (q_redis st)) (s, g) = Some gv"
  shows "\<exists>st'. handle_claimed R S q g s seen es st =
      (map (\<lambda>(i, f). (i, f, count_after seen i)) (filter (\<lambda>(i, f). \<not> over_cap seen (receives_cap q g) i) es), st')
    \<and> inv (q_redis st')
    \<and> view (q_redis st') = set_grp s g (gv\<lparr>gv_pend := forget (set (filter (over_cap seen (receives_cap q g)) (map fst es)))
         (gv_pend gv)\<rparr>) (view (q_redis st))"
  using assms
proof (induction es arbitrary: st gv)
  case Nil
  then show ?case by (simp add: set_grp_id)
next
  case (Cons e es)
  obtain i f where e: "e = (i, f)" by force
  show ?case
  proof (cases "over_cap seen (receives_cap q g) i")
    case True
    then obtain n where n: "map_of seen i = Some n" "n > receives_cap q g"
      by (auto simp: over_cap_def split: option.splits)
    let ?st = "park_to_dlq R S q g s i f n st"
    let ?gv = "gv\<lparr>gv_pend := forget {i} (gv_pend gv)\<rparr>"
    have p: "q_redis ?st = ack_quiet R s g i (q_redis st)" by (simp add: park_to_dlq_def)
    note a = ack_quiet_spec[OF Cons.prems, of i]
    have "rv_grp (view (q_redis ?st)) (s, g) = Some ?gv" using a(2) p by simp
    from Cons.IH[OF _ this] a p show ?thesis
      using True n by (auto simp: e forget_forget insert_commute)
  next
    case False
    then have "\<not> (\<exists>n. map_of seen i = Some n \<and> n > receives_cap q g)" by (auto simp: over_cap_def)
    with Cons.IH[OF Cons.prems] False show ?thesis
      by (auto simp: e count_after_def Let_def split: option.splits)
  qed
qed

lemma reclaim_spec:
  assumes "inv (q_redis st)" "rv_grp (view (q_redis st)) (s, g) = Some gv" "wf_view (view (q_redis st))"
  defines "v \<equiv> view (q_redis st)"
  obtains st' D where "reclaim R S q g s idle n st = (reclaimed v s (receives_cap q g) idle n gv, st')" "inv (q_redis st')"
    "\<forall>i \<in> D. \<not> in_stream v s i"
    "view (q_redis st') = set_grp s g (gv\<lparr>gv_pend := forget (set (parked v s (receives_cap q g) idle n gv))
       (touch (set (claimed v s idle n gv)) (leased_by (qs_consumer S) (rv_now v)) (forget D (gv_pend gv)))\<rparr>) v"
proof -
  let ?cap = "receives_cap q g"
  from pending[OF assms(1,2), of n idle] obtain r1 where r1:
    "xpending_range R s g ''-'' ''+'' n (Some idle) (q_redis st) = (Inr (scanned v s idle n gv), r1)" "inv r1" "view r1 = v"
    by (auto simp: scanned_def v_def)
  have g1: "rv_grp (view r1) (s, g) = Some gv" using r1(3) assms(2) by (simp add: v_def)
  from autoclaim[OF r1(2) g1, where c = "qs_consumer S" and idle = idle and n = n] obtain r2 D where r2:
    "xautoclaim R s g (qs_consumer S) idle n r1 = (Inr (map (\<lambda>i. (i, fields_of v s i)) (claimed v s idle n gv)), r2)"
    "inv r2" "\<forall>i \<in> D. \<not> in_stream v s i"
    "view r2 = set_grp s g (gv\<lparr>gv_pend := touch (set (claimed v s idle n gv))
       (leased_by (qs_consumer S) (rv_now v)) (forget D (gv_pend gv))\<rparr>) v"
    unfolding r1(3) claimed_def leased_by_def by (elim exE conjE) blast
  let ?gv = "gv\<lparr>gv_pend := touch (set (claimed v s idle n gv)) (leased_by (qs_consumer S) (rv_now v)) (forget D (gv_pend gv))\<rparr>"
  let ?es = "map (\<lambda>i. (i, fields_of v s i)) (claimed v s idle n gv)"
  have d: "distinct (map fst (scanned v s idle n gv))"
    using assms(2,3) by (intro scanned_distinct) (auto simp: wf_view_def wf_group_def)
  have seen: "over_cap (seen_counts (scanned v s idle n gv)) = over_cap (scanned v s idle n gv)"
    "count_after (seen_counts (scanned v s idle n gv)) = count_after (scanned v s idle n gv)"
    unfolding over_cap_def count_after_def seen_counts_get map_of_rev[OF d] by auto
  have "inv (q_redis (st\<lparr>q_redis := r2\<rparr>))" "rv_grp (view (q_redis (st\<lparr>q_redis := r2\<rparr>))) (s, g) = Some ?gv"
    using r2 by simp_all
  from handle_claimed_spec[OF this, of S q "seen_counts (scanned v s idle n gv)" ?es] r2(4) obtain st' where st':
    "handle_claimed R S q g s (seen_counts (scanned v s idle n gv)) ?es (st\<lparr>q_redis := r2\<rparr>)
       = (reclaimed v s ?cap idle n gv, st')" "inv (q_redis st')"
    "view (q_redis st') = set_grp s g (?gv\<lparr>gv_pend := forget (set (parked v s ?cap idle n gv)) (gv_pend ?gv)\<rparr>) v"
    unfolding seen reclaimed_def parked_def Let_def
    by (auto simp: comp_def filter_map)
  have "reclaim R S q g s idle n st = (reclaimed v s ?cap idle n gv, st')"
    using r1(1) r2(1) st'(1) by (simp add: reclaim_def)
  then show ?thesis using st' r2(3) that[of st' D] by simp
qed

lemma read_new_spec:
  assumes "inv r" "rv_grp (view r) (s, g) = Some gv" "0 < n" "wait_ms \<le> 0 \<or> gv_fresh gv \<noteq> []"
  obtains r' where "read_new R S s g n wait_ms r = (Inr (first_reads n gv), r')" "inv r'"
    "view r' = set_grp s g \<lparr>gv_pend = gv_pend gv @
        map (\<lambda>(i, _). (i, \<lparr>pe_consumer = qs_consumer S, pe_delivered_at = rv_now (view r), pe_times = 1\<rparr>)) (take n (gv_fresh gv)),
        gv_fresh = drop n (gv_fresh gv)\<rparr> (view r)"
proof -
  have "(if wait_ms > 0 then Some wait_ms else None) = None \<or> gv_fresh gv \<noteq> []" using assms(4) by auto
  from readgroup[OF assms(1,2,3) this, of "qs_consumer S"] that show ?thesis
    by (auto simp: read_new_def first_reads_def)
qed

lemma apply_visibility_spec:
  assumes "inv r" "rv_grp (view r) (s, g) = Some gv"
  obtains D where "inv (apply_visibility R S s g ids threshold lease r)" "\<forall>i \<in> D. \<not> in_stream (view r) s i"
    "view (apply_visibility R S s g ids threshold lease r) = set_grp s g (gv\<lparr>gv_pend := touch (set ids)
       (aged (qs_consumer S) (rv_now (view r)) threshold lease) (forget D (gv_pend gv))\<rparr>) (view r)"
proof (cases "ids = [] \<or> lease \<ge> threshold")
  case True
  have "touch (set ids) (aged (qs_consumer S) (rv_now (view r)) threshold lease) (gv_pend gv) = gv_pend gv"
    using True by (auto simp: aged_def intro: touch_none touch_ident)
  then show ?thesis using True assms that[of "{}"] by (simp add: apply_visibility_def set_grp_id)
next
  case False
  have "aged (qs_consumer S) (rv_now (view r)) threshold lease =
      (\<lambda>p. p\<lparr>pe_consumer := qs_consumer S, pe_delivered_at := rv_now (view r) - max 0 (threshold - lease)\<rparr>)"
    using False by (intro ext) (simp add: aged_def)
  with claim[OF assms, of "max 0 (threshold - lease)" "qs_consumer S" ids] False that show ?thesis
    by (auto simp: apply_visibility_def)
qed

lemma deliver_entries_spec:
  assumes "inv r" "rv_grp (view r) (s, g) = Some gv"
  obtains x U r' where "deliver_entries R S q g s expires_at ms r = (x, r')" "inv r'" "U \<subseteq> undecodable S ms"
    "view r' = set_grp s g (gv\<lparr>gv_pend := forget U (gv_pend gv)\<rparr>) (view r)"
    "\<forall>ds. x = Inr ds \<longrightarrow> U = undecodable S ms \<and> ds = map (handed S q g s expires_at) (filter (wire_ok S) ms)"
proof -
  have "\<exists>x U r'. deliver_entries R S q g s expires_at ms r = (x, r') \<and> inv r' \<and> U \<subseteq> undecodable S ms
    \<and> view r' = set_grp s g (gv\<lparr>gv_pend := forget U (gv_pend gv)\<rparr>) (view r)
    \<and> (\<forall>ds. x = Inr ds \<longrightarrow> U = undecodable S ms \<and> ds = map (handed S q g s expires_at) (filter (wire_ok S) ms))"
    using assms
  proof (induction ms arbitrary: r gv)
    case Nil
    then show ?case by (auto simp: set_grp_id undecodable_def intro!: exI[of _ "{}"])
  next
    case (Cons m ms)
    obtain i f n where m: "m = (i, f, n)" by (cases m) auto
    show ?case
    proof (cases "wc_decode (qs_wire S) f")
      case (Inl e)
      then have u: "undecodable S (m # ms) = insert i (undecodable S ms)" "\<not> wire_ok S m"
        by (auto simp: undecodable_def wire_ok_def m)
      note a = ack_quiet_spec[OF Cons.prems, of i]
      have "rv_grp (view (ack_quiet R s g i r)) (s, g) = Some (gv\<lparr>gv_pend := forget {i} (gv_pend gv)\<rparr>)" using a(2) by simp
      from Cons.IH[OF a(1) this] obtain x U r' where h: "deliver_entries R S q g s expires_at ms (ack_quiet R s g i r) = (x, r')"
        "inv r'" "U \<subseteq> undecodable S ms" "view r' = set_grp s g (gv\<lparr>gv_pend := forget U (forget {i} (gv_pend gv))\<rparr>) (view r)"
        "\<forall>ds. x = Inr ds \<longrightarrow> U = undecodable S ms \<and> ds = map (handed S q g s expires_at) (filter (wire_ok S) ms)"
        using a(2) by auto
      show ?thesis
        by (rule exI[of _ x], rule exI[of _ "U \<union> {i}"], rule exI[of _ r'])
          (use h u Inl in \<open>auto simp: m forget_forget\<close>)
    next
      case (Inr e)
      then have u: "undecodable S (m # ms) = undecodable S ms" "wire_ok S m"
        by (auto simp: undecodable_def wire_ok_def m)
      from Cons.IH[OF Cons.prems] obtain x U r' where h: "deliver_entries R S q g s expires_at ms r = (x, r')"
        "inv r'" "U \<subseteq> undecodable S ms" "view r' = set_grp s g (gv\<lparr>gv_pend := forget U (gv_pend gv)\<rparr>) (view r)"
        "\<forall>ds. x = Inr ds \<longrightarrow> U = undecodable S ms \<and> ds = map (handed S q g s expires_at) (filter (wire_ok S) ms)"
        by auto
      show ?thesis
      proof (cases "encode_receipt (qs_json S) (qs_mac S) (qs_receipts S) (mk_receipt S q g s i n expires_at)")
        case Inl2: (Inl y)
        then show ?thesis using Inr Cons.prems u
          by (auto simp: m set_grp_id intro!: exI[of _ "{}"])
      next
        case Inr2: (Inr h')
        have "deliver_entries R S q g s expires_at (m # ms) r =
            (map_sum id (Cons (handed S q g s expires_at m)) x, r')"
          using Inr Inr2 h(1) by (cases x) (auto simp: m handed_def Let_def)
        then show ?thesis
          by (intro exI[of _ "map_sum id (Cons (handed S q g s expires_at m)) x"] exI[of _ U] exI[of _ r'])
            (use h u in \<open>cases x; auto\<close>)
      qed
    qed
  qed
  then show ?thesis using that by blast
qed

lemma visibility_view:
  assumes "inv r" "view r = set_grp s g \<lparr>gv_pend = P, gv_fresh = F\<rparr> v"
  obtains D where "inv (apply_visibility R S s g ids threshold lease r)" "\<forall>i \<in> D. \<not> in_stream v s i"
    "view (apply_visibility R S s g ids threshold lease r) = set_grp s g \<lparr>gv_pend = touch (set ids)
       (aged (qs_consumer S) (rv_now v) threshold lease) (forget D P), gv_fresh = F\<rparr> v"
proof -
  have "rv_grp (view r) (s, g) = Some \<lparr>gv_pend = P, gv_fresh = F\<rparr>" using assms(2) by simp
  then obtain D where "inv (apply_visibility R S s g ids threshold lease r)" "\<forall>i \<in> D. \<not> in_stream (view r) s i"
    "view (apply_visibility R S s g ids threshold lease r) = set_grp s g (\<lparr>gv_pend = P, gv_fresh = F\<rparr>\<lparr>gv_pend := touch (set ids)
       (aged (qs_consumer S) (rv_now (view r)) threshold lease) (forget D (gv_pend \<lparr>gv_pend = P, gv_fresh = F\<rparr>))\<rparr>) (view r)"
    by (rule apply_visibility_spec[OF assms(1)])
  then show ?thesis by (intro that[of D]) (simp_all add: assms(2))
qed

lemma deliver_view:
  assumes "inv r" "view r = set_grp s g \<lparr>gv_pend = P, gv_fresh = F\<rparr> v"
  obtains x U r' where "deliver_entries R S q g s expires_at ms r = (x, r')" "inv r'" "U \<subseteq> undecodable S ms"
    "view r' = set_grp s g \<lparr>gv_pend = forget U P, gv_fresh = F\<rparr> v"
    "\<forall>ds. x = Inr ds \<longrightarrow> U = undecodable S ms \<and> ds = map (handed S q g s expires_at) (filter (wire_ok S) ms)"
proof -
  have "rv_grp (view r) (s, g) = Some \<lparr>gv_pend = P, gv_fresh = F\<rparr>" using assms(2) by simp
  then obtain x U r' where "deliver_entries R S q g s expires_at ms r = (x, r')" "inv r'" "U \<subseteq> undecodable S ms"
    "view r' = set_grp s g (\<lparr>gv_pend = P, gv_fresh = F\<rparr>\<lparr>gv_pend := forget U (gv_pend \<lparr>gv_pend = P, gv_fresh = F\<rparr>)\<rparr>) (view r)"
    "\<forall>ds. x = Inr ds \<longrightarrow> U = undecodable S ms \<and> ds = map (handed S q g s expires_at) (filter (wire_ok S) ms)"
    by (rule deliver_entries_spec[OF assms(1)])
  then show ?thesis by (intro that[of x r' U]) (simp_all add: assms(2))
qed

lemma finish_receive_spec:
  assumes "inv (q_redis st)" "view (q_redis st) = set_grp (q_stream S q) g \<lparr>gv_pend = P, gv_fresh = F\<rparr> v"
  obtains x st' D U where "finish_receive R S q g vis now_ms ms st = (x, st')" "inv (q_redis st')"
    "U \<subseteq> undecodable S ms" "\<forall>i \<in> D. \<not> in_stream v (q_stream S q) i"
    "view (q_redis st') = set_grp (q_stream S q) g \<lparr>gv_pend = forget U (touch (fst ` set ms)
       (aged (qs_consumer S) (rv_now v) (qc_max_visibility_ms q) (lease_ms q vis)) (forget D P)), gv_fresh = F\<rparr> v"
    "\<forall>ds. x = Inr ds \<longrightarrow> U = undecodable S ms
       \<and> ds = map (handed S q g (q_stream S q) (now_ms + lease_ms q vis)) (filter (wire_ok S) ms)"
proof (cases "ms = []")
  case True
  then show ?thesis
    using that[of "Inr []" st "{}" "{}"] assms
    by (simp add: finish_receive_def touch_none undecodable_def)
next
  case False
  let ?s = "q_stream S q" and ?T = "qc_max_visibility_ms q" and ?L = "lease_ms q vis"
  let ?r = "apply_visibility R S ?s g (map fst ms) ?T ?L (q_redis st)"
  obtain D where D: "inv ?r" "\<forall>i \<in> D. \<not> in_stream v ?s i"
    "view ?r = set_grp ?s g \<lparr>gv_pend = touch (set (map fst ms))
       (aged (qs_consumer S) (rv_now v) ?T ?L) (forget D P), gv_fresh = F\<rparr> v"
    by (rule visibility_view[OF assms])
  obtain x U r' where h:
    "deliver_entries R S q g ?s (now_ms + ?L) ms ?r = (x, r')" "inv r'" "U \<subseteq> undecodable S ms"
    "view r' = set_grp ?s g \<lparr>gv_pend = forget U (touch (set (map fst ms))
       (aged (qs_consumer S) (rv_now v) ?T ?L) (forget D P)), gv_fresh = F\<rparr> v"
    "\<forall>ds. x = Inr ds \<longrightarrow> U = undecodable S ms \<and> ds = map (handed S q g ?s (now_ms + ?L)) (filter (wire_ok S) ms)"
    by (rule deliver_view[OF D(1,3)])
  have "finish_receive R S q g vis now_ms ms st = (x, st\<lparr>q_redis := r'\<rparr>)"
    using False h(1) by (simp add: finish_receive_def Let_def)
  then show ?thesis
    by (rule that[where U = U and D = D]) (use h D in simp_all)
qed

lemma reclaim_view:
  assumes "inv (q_redis st)" "view (q_redis st) = set_grp s g gv v"
  obtains st' D where "reclaim R S q g s idle n st = (reclaimed v s (receives_cap q g) idle n gv, st')" "inv (q_redis st')"
    "\<forall>i \<in> D. \<not> in_stream v s i"
    "view (q_redis st') = set_grp s g \<lparr>gv_pend = forget (set (parked v s (receives_cap q g) idle n gv))
       (touch (set (claimed v s idle n gv)) (leased_by (qs_consumer S) (rv_now v)) (forget D (gv_pend gv))),
       gv_fresh = gv_fresh gv\<rparr> v"
proof -
  have same: "scanned (set_grp s g gv v) s idle n gv = scanned v s idle n gv"
    "claimed (set_grp s g gv v) s idle n gv = claimed v s idle n gv"
    "reclaimed (set_grp s g gv v) s cap idle n gv = reclaimed v s cap idle n gv"
    "parked (set_grp s g gv v) s cap idle n gv = parked v s cap idle n gv" for cap
    by (simp_all add: scanned_def claimed_def reclaimed_def parked_def expired_live_def)
  have g: "rv_grp (view (q_redis st)) (s, g) = Some gv" by (simp add: assms(2))
  obtain st' D where "reclaim R S q g s idle n st = (reclaimed (view (q_redis st)) s (receives_cap q g) idle n gv, st')"
    "inv (q_redis st')" "\<forall>i \<in> D. \<not> in_stream (view (q_redis st)) s i"
    "view (q_redis st') = set_grp s g (gv\<lparr>gv_pend := forget (set (parked (view (q_redis st)) s (receives_cap q g) idle n gv))
       (touch (set (claimed (view (q_redis st)) s idle n gv)) (leased_by (qs_consumer S) (rv_now (view (q_redis st))))
         (forget D (gv_pend gv)))\<rparr>) (view (q_redis st))"
    by (rule reclaim_spec[OF assms(1) g wf[OF assms(1)]])
  then show ?thesis
    by (intro that[of st' D]) (simp_all add: assms(2) same, cases gv, simp)
qed

lemma read_new_view:
  assumes "inv r" "view r = set_grp s g \<lparr>gv_pend = P, gv_fresh = gv_fresh gv\<rparr> v" "0 < n" "wait_ms \<le> 0 \<or> gv_fresh gv \<noteq> []"
  obtains r' where "read_new R S s g n wait_ms r = (Inr (first_reads n gv), r')" "inv r'"
    "view r' = set_grp s g \<lparr>gv_pend = P @ first_pend S v n gv, gv_fresh = drop n (gv_fresh gv)\<rparr> v"
proof -
  have g: "rv_grp (view r) (s, g) = Some \<lparr>gv_pend = P, gv_fresh = gv_fresh gv\<rparr>" using assms(2) by simp
  show ?thesis
    by (rule read_new_spec[OF assms(1) g assms(3), where wait_ms = wait_ms and S = S])
      (use assms that in \<open>simp_all add: first_reads_def first_pend_def\<close>)
qed

lemma receive_spec:
  assumes "inv (q_redis st)" "0 < n"
    "wait_ms \<le> 0 \<or> gv_fresh (ensured (q_stream S q) g (view (q_redis st))) \<noteq> []"
  defines "v \<equiv> view (q_redis st)" and "s \<equiv> q_stream S q"
  defines "B \<equiv> batch v s (receives_cap q g) (qc_max_visibility_ms q) n (ensured s g v)"
  obtains x st' DA DB U where "receive R S q g n wait_ms vis now_ms st = (x, st')" "inv (q_redis st')"
    "U \<subseteq> undecodable S B" "\<forall>i \<in> DA \<union> DB. \<not> in_stream v s i"
    "view (q_redis st') = received_view S q g vis n DA DB U v"
    "\<forall>ds. x = Inr ds \<longrightarrow> U = undecodable S B
       \<and> ds = map (handed S q g s (now_ms + lease_ms q vis)) (filter (wire_ok S) B)"
proof -
  let ?cap = "receives_cap q g" and ?T = "qc_max_visibility_ms q" and ?gv = "ensured s g v"
  obtain r0 where r0: "ensure_group R s g (q_redis st) = (Inr (), r0)" "inv r0" "view r0 = set_grp s g ?gv v"
    using ensure_group_spec[OF assms(1), of s g] unfolding v_def by auto
  let ?us = "reclaimed v s ?cap ?T n ?gv"
  let ?m = "n - length ?us"
  let ?P = "\<lambda>D. forget (set (parked v s ?cap ?T n ?gv)) (touch (set (claimed v s ?T n ?gv)) (leased_by (qs_consumer S) (rv_now v))
       (forget D (gv_pend ?gv)))"
  have i0: "inv (q_redis (st\<lparr>q_redis := r0\<rparr>))" "view (q_redis (st\<lparr>q_redis := r0\<rparr>)) = set_grp s g ?gv v"
    using r0 by simp_all
  obtain st1 DA where r1: "reclaim R S q g s ?T n (st\<lparr>q_redis := r0\<rparr>) = (?us, st1)" "inv (q_redis st1)"
    "\<forall>i \<in> DA. \<not> in_stream v s i" "view (q_redis st1) = set_grp s g \<lparr>gv_pend = ?P DA, gv_fresh = gv_fresh ?gv\<rparr> v"
    by (rule reclaim_view[OF i0])
  let ?rest = "if 0 < ?m then first_reads ?m ?gv else []"
  have b: "?us @ first_reads ?m ?gv = B" by (simp add: B_def batch_def Let_def)
  obtain st2 where r2: "receive R S q g n wait_ms vis now_ms st = finish_receive R S q g vis now_ms B st2" "inv (q_redis st2)"
    "view (q_redis st2) = set_grp s g \<lparr>gv_pend = ?P DA @ first_pend S v ?m ?gv, gv_fresh = drop ?m (gv_fresh ?gv)\<rparr> v"
  proof (cases "0 < ?m")
    case True
    obtain r2 where "read_new R S s g ?m wait_ms (q_redis st1) = (Inr (first_reads ?m ?gv), r2)" "inv r2"
      "view r2 = set_grp s g \<lparr>gv_pend = ?P DA @ first_pend S v ?m ?gv, gv_fresh = drop ?m (gv_fresh ?gv)\<rparr> v"
      by (rule read_new_view[OF r1(2,4) True assms(3)[folded v_def s_def]])
    then show ?thesis
      using r0(1) r1(1) True b that[of "st1\<lparr>q_redis := r2\<rparr>"] by (simp add: receive_def Let_def s_def)
  next
    case False
    then have "?us = B" using b by (simp add: first_reads_def)
    then show ?thesis
      using r0(1) r1 False that[of st1] by (simp add: receive_def Let_def s_def first_pend_def)
  qed
  have r3: "view (q_redis st2) = set_grp (q_stream S q) g
      \<lparr>gv_pend = ?P DA @ first_pend S v ?m ?gv, gv_fresh = drop ?m (gv_fresh ?gv)\<rparr> v"
    using r2(3) by (simp only: s_def)
  obtain x st' DB U where f: "finish_receive R S q g vis now_ms B st2 = (x, st')" "inv (q_redis st')" "U \<subseteq> undecodable S B"
    "\<forall>i \<in> DB. \<not> in_stream v (q_stream S q) i"
    "view (q_redis st') = set_grp (q_stream S q) g \<lparr>gv_pend = forget U (touch (fst ` set B)
       (aged (qs_consumer S) (rv_now v) ?T (lease_ms q vis)) (forget DB (?P DA @ first_pend S v ?m ?gv))),
       gv_fresh = drop ?m (gv_fresh ?gv)\<rparr> v"
    "\<forall>ds. x = Inr ds \<longrightarrow> U = undecodable S B \<and> ds = map (handed S q g (q_stream S q) (now_ms + lease_ms q vis)) (filter (wire_ok S) B)"
    by (rule finish_receive_spec[OF r2(2) r3])
  have "\<forall>i \<in> DA \<union> DB. \<not> in_stream v s i" using f(4) r1(3) by (auto simp: s_def)
  moreover have "view (q_redis st') = received_view S q g vis n DA DB U v"
    unfolding received_view_def Let_def using f(5) by (simp only: B_def s_def)
  moreover have "receive R S q g n wait_ms vis now_ms st = (x, st')" using r2(1) f(1) by simp
  ultimately show ?thesis
    using that f(2,3,6) unfolding s_def by blast
qed

end

end
