(* ===== verification/QueueFacts.thy ===== *)
theory QueueFacts
  imports QueueLeases
begin

text \<open>
  Consequences of the view a receive leaves behind: what is leased afterwards and with which
  count, what stays untouched, the dead-letter calls, and the acknowledgement and visibility
  operations, each on every server that keeps the contract.
\<close>

subsection \<open>The batch\<close>

lemma ensured_wf: "wf_view v \<Longrightarrow> wf_group (rv_log v s) (ensured s g v)"
  by (auto simp: wf_view_def ensured_def wf_group_def split: option.splits)

lemma batch_ids: "map fst (batch v s cap idle n gv) =
   map fst (reclaimed v s cap idle n gv) @ map fst (take (n - length (reclaimed v s cap idle n gv)) (gv_fresh gv))"
  by (simp add: batch_def Let_def first_reads_ids)

lemma batch_distinct:
  assumes "wf_group es gv"
  shows "distinct (map fst (batch v s cap idle n gv))"
proof -
  let ?m = "n - length (reclaimed v s cap idle n gv)"
  have "distinct (claimed v s idle n gv)" using assms by (intro claimed_distinct) (simp add: wf_group_def)
  then have "distinct (map fst (reclaimed v s cap idle n gv))" unfolding reclaimed_ids by simp
  moreover have "distinct (map fst (take ?m (gv_fresh gv)))" using assms by (auto simp: wf_group_def take_map[symmetric])
  moreover have "set (map fst (reclaimed v s cap idle n gv)) \<subseteq> fst ` set (gv_pend gv)"
    unfolding reclaimed_ids by (auto dest!: claimed_pend intro: rev_image_eqI)
  moreover have "set (map fst (take ?m (gv_fresh gv))) \<subseteq> fst ` set (gv_fresh gv)" by (auto dest: in_set_takeD)
  moreover have "fst ` set (gv_pend gv) \<inter> fst ` set (gv_fresh gv) = {}" using assms by (simp add: wf_group_def)
  ultimately show ?thesis unfolding batch_ids distinct_append by blast
qed

lemma batch_origin:
  assumes "i \<in> fst ` set (batch v s cap idle n gv)"
  shows "(i \<in> set (claimed v s idle n gv) \<and> \<not> over_cap (scanned v s idle n gv) cap i)
    \<or> i \<in> fst ` set (take (n - length (reclaimed v s cap idle n gv)) (gv_fresh gv))"
proof -
  have "i \<in> set (map fst (batch v s cap idle n gv))" using assms by simp
  then show ?thesis unfolding batch_ids reclaimed_ids by auto
qed

lemma batch_length: "0 < n \<Longrightarrow> length (batch v s cap idle n gv) \<le> n"
proof -
  assume n: "0 < n"
  have "length (reclaimed v s cap idle n gv) \<le> length (claimed v s idle n gv)"
    by (simp add: reclaimed_def Let_def)
  also have "\<dots> \<le> n" using n length_take_count by (auto simp: claimed_def)
  finally show ?thesis by (simp add: batch_def Let_def first_reads_def)
qed

lemma batch_count:
  assumes "(i, f, k) \<in> set (batch v s cap idle n gv)" "1 \<le> cap"
  shows "k \<le> cap + 1"
proof -
  from assms(1) have "(i, f, k) \<in> set (reclaimed v s cap idle n gv) \<or> k = 1"
    by (auto simp: batch_def Let_def first_reads_def)
  moreover have "k \<le> cap + 1" if "(i, f, k) \<in> set (reclaimed v s cap idle n gv)"
    using that assms(2) by (auto simp: reclaimed_def Let_def over_cap_def count_after_def split: option.splits)
  ultimately show ?thesis using assms(2) by auto
qed

text \<open>With nothing trimmed the count a receive reports is the count before it plus one.\<close>

lemma batch_count_exact:
  assumes "(i, f, k) \<in> set (batch v s cap idle n gv)" "wf_group es gv" "\<forall>(j, p) \<in> set (gv_pend gv). in_stream v s j"
  shows "(case map_of (gv_pend gv) i of Some p \<Rightarrow> k = pe_times p + 1 | None \<Rightarrow> k = 1)"
proof -
  have d: "distinct (map fst (gv_pend gv))" using assms(2) by (simp add: wf_group_def)
  from assms(1) consider (a) "(i, f, k) \<in> set (reclaimed v s cap idle n gv)"
    | (b) "k = 1" "i \<in> fst ` set (gv_fresh gv)"
    by (force simp: batch_def Let_def first_reads_def dest: in_set_takeD)
  then show ?thesis
  proof cases
    case a
    then have "i \<in> set (claimed v s idle n gv)" "k = count_after (scanned v s idle n gv) i"
      by (auto simp: reclaimed_def Let_def)
    moreover from this(1) obtain m where m: "(i, m) \<in> set (scanned v s idle n gv)"
      unfolding untrimmed_claimed[OF assms(3)] by auto
    then have "map_of (scanned v s idle n gv) i = Some m"
      using scanned_distinct[OF d] by (metis map_of_eq_Some_iff)
    moreover obtain p where "(i, p) \<in> set (gv_pend gv)" "m = pe_times p"
      using m set_take_count[of n] by (fastforce simp: scanned_def)
    moreover from this(1) have "map_of (gv_pend gv) i = Some p" using d by (metis map_of_eq_Some_iff)
    ultimately show ?thesis by (simp add: count_after_def)
  next
    case b
    then have "map_of (gv_pend gv) i = None" using assms(2) by (force simp: wf_group_def map_of_eq_None_iff)
    then show ?thesis using b by simp
  qed
qed

subsection \<open>The view after a receive\<close>

lemma received_simps [simp]:
  "rv_now (received_view S q g vis n DA DB U v) = rv_now v"
  "rv_log (received_view S q g vis n DA DB U v) = rv_log v"
  "rv_minted (received_view S q g vis n DA DB U v) = rv_minted v"
  by (simp_all add: received_view_def Let_def)

lemma received_other_group:
  "(t, h) \<noteq> (q_stream S q, g) \<Longrightarrow> rv_grp (received_view S q g vis n DA DB U v) (t, h) = rv_grp v (t, h)"
  by (auto simp: received_view_def Let_def)

lemma map_of_first_pend: "map_of (first_pend S v m gv) i = (if i \<in> fst ` set (take m (gv_fresh gv))
    then Some \<lparr>pe_consumer = qs_consumer S, pe_delivered_at = rv_now v, pe_times = 1\<rparr> else None)"
proof -
  have "map_of (map (\<lambda>(i, _). (i, x)) ys) i = (if i \<in> fst ` set ys then Some x else None)" for ys :: "entry list" and x :: pending_entry
    by (induction ys) auto
  then show ?thesis by (simp add: first_pend_def)
qed

text \<open>The pending entry of an id after a receive.\<close>

lemma received_entry:
  fixes S q g vis n DA DB U v
  defines "s \<equiv> q_stream S q" and "gv \<equiv> ensured (q_stream S q) g v"
    and "cap \<equiv> receives_cap q g" and "T \<equiv> qc_max_visibility_ms q"
  defines "m \<equiv> n - length (reclaimed v s cap T n gv)"
  obtains gv' where "rv_grp (received_view S q g vis n DA DB U v) (s, g) = Some gv'" "gv_fresh gv' = drop m (gv_fresh gv)"
    "\<And>i. map_of (gv_pend gv') i =
       (if i \<in> U then None else map_option (\<lambda>p. if i \<in> fst ` set (batch v s cap T n gv)
            then aged (qs_consumer S) (rv_now v) T (lease_ms q vis) p else p)
         (if i \<in> DB then None
          else case (if i \<in> set (parked v s cap T n gv) then None
                     else map_option (\<lambda>p. if i \<in> set (claimed v s T n gv) then leased_by (qs_consumer S) (rv_now v) p else p)
                       (if i \<in> DA then None else map_of (gv_pend gv) i)) of
                 Some p \<Rightarrow> Some p
               | None \<Rightarrow> map_of (first_pend S v m gv) i))"
proof -
  let ?gv' = "\<lparr>gv_pend = forget U (touch (fst ` set (batch v s cap T n gv)) (aged (qs_consumer S) (rv_now v) T (lease_ms q vis))
     (forget DB (forget (set (parked v s cap T n gv)) (touch (set (claimed v s T n gv)) (leased_by (qs_consumer S) (rv_now v))
        (forget DA (gv_pend gv))) @ first_pend S v m gv))), gv_fresh = drop m (gv_fresh gv)\<rparr>"
  have "rv_grp (received_view S q g vis n DA DB U v) (s, g) = Some ?gv'"
    by (simp add: received_view_def Let_def assms)
  then show ?thesis
    by (rule that) (auto simp: map_of_forget map_of_touch map_add_def split: option.splits)
qed

text \<open>
  A lease: the id is no longer among the undelivered entries of the group, and its pending entry,
  if it still has one, was delivered no earlier than \<open>t\<close>.
\<close>

definition held :: "redis_view \<Rightarrow> string \<Rightarrow> string \<Rightarrow> string \<Rightarrow> int \<Rightarrow> bool" where
  "held v s g i t \<longleftrightarrow> i \<in> rv_minted v s \<and> (\<exists>gv. rv_grp v (s, g) = Some gv \<and> i \<notin> fst ` set (gv_fresh gv)
     \<and> (\<forall>p. map_of (gv_pend gv) i = Some p \<longrightarrow> t \<le> pe_delivered_at p))"

text \<open>A receive before the lease ends neither returns the message nor shortens the lease.\<close>

lemma held_received:
  assumes "wf_view v" "held v (q_stream S q) g i t" "rv_now v - t < qc_max_visibility_ms q"
  shows "i \<notin> fst ` set (batch v (q_stream S q) (receives_cap q g) (qc_max_visibility_ms q) n (ensured (q_stream S q) g v))"
    "held (received_view S q g vis n DA DB U v) (q_stream S q) g i t"
proof -
  let ?s = "q_stream S q" and ?cap = "receives_cap q g" and ?T = "qc_max_visibility_ms q"
  from assms(2) obtain gv where gv: "rv_grp v (?s, g) = Some gv" "i \<notin> fst ` set (gv_fresh gv)"
    "\<And>p. map_of (gv_pend gv) i = Some p \<Longrightarrow> t \<le> pe_delivered_at p" and mi: "i \<in> rv_minted v ?s"
    by (auto simp: held_def)
  have e: "ensured ?s g v = gv" using gv(1) by (simp add: ensured_def)
  have d: "distinct (map fst (gv_pend gv))" using assms(1) gv(1) by (auto simp: wf_view_def wf_group_def)
  have nf: "i \<notin> fst ` set (take m (gv_fresh gv))" for m using gv(2) by (auto dest: in_set_takeD)
  have nc: "i \<notin> set (claimed v ?s ?T n gv)"
  proof
    assume "i \<in> set (claimed v ?s ?T n gv)"
    then obtain p where p: "(i, p) \<in> set (gv_pend gv)" "idle_since v ?T p" using claimed_pend by blast
    then have "map_of (gv_pend gv) i = Some p" using d by simp
    then show False using gv(3) p(2) assms(3) by (force simp: idle_since_def)
  qed
  then show nb: "i \<notin> fst ` set (batch v ?s ?cap ?T n (ensured ?s g v))"
    using batch_origin[of i v ?s ?cap ?T n gv] nf unfolding e by blast
  have np: "i \<notin> set (parked v ?s ?cap ?T n gv)" using nc by (simp add: parked_def)
  obtain gv' where g': "rv_grp (received_view S q g vis n DA DB U v) (?s, g) = Some gv'"
    "gv_fresh gv' = drop (n - length (reclaimed v ?s ?cap ?T n gv)) (gv_fresh gv)"
    "map_of (gv_pend gv') i = (if i \<in> U then None else if i \<in> DB then None else if i \<in> DA then None else map_of (gv_pend gv) i)"
    by (rule received_entry[where S = S and q = q and g = g and vis = vis and n = n and DA = DA and DB = DB and U = U and v = v])
      (use nc np nb nf in \<open>auto simp: e map_of_first_pend option.map_ident split: option.splits\<close>)
  have "i \<notin> fst ` set (gv_fresh gv')" using g'(2) gv(2) by (auto dest: in_set_dropD)
  then show "held (received_view S q g vis n DA DB U v) ?s g i t"
    using g' gv(3) mi by (auto simp: held_def split: if_splits)
qed

definition lease_start :: "int \<Rightarrow> int \<Rightarrow> int \<Rightarrow> int" where
  "lease_start t threshold lease = t - max 0 (threshold - lease)"

lemma received_leased:
  assumes "wf_view v" "(i, f, k) \<in> set (batch v (q_stream S q) (receives_cap q g) (qc_max_visibility_ms q) n (ensured (q_stream S q) g v))"
    "i \<notin> U" "\<forall>j \<in> DA \<union> DB. \<not> in_stream v (q_stream S q) j"
  obtains gv' p where "rv_grp (received_view S q g vis n DA DB U v) (q_stream S q, g) = Some gv'"
    "map_of (gv_pend gv') i = Some p" "i \<notin> fst ` set (gv_fresh gv')" "i \<in> rv_minted v (q_stream S q)"
    "pe_consumer p = qs_consumer S" "pe_delivered_at p = lease_start (rv_now v) (qc_max_visibility_ms q) (lease_ms q vis)"
    "pe_times p = (case map_of (gv_pend (ensured (q_stream S q) g v)) i of Some p0 \<Rightarrow> pe_times p0 + 1 | None \<Rightarrow> 1)"
proof -
  let ?s = "q_stream S q" and ?cap = "receives_cap q g" and ?T = "qc_max_visibility_ms q"
  let ?gv = "ensured ?s g v"
  let ?m = "n - length (reclaimed v ?s ?cap ?T n ?gv)"
  have w: "wf_group (rv_log v ?s) ?gv" by (rule ensured_wf[OF assms(1)])
  have d: "distinct (map fst (gv_pend ?gv))" "distinct (map fst (gv_fresh ?gv))"
    "fst ` set (gv_pend ?gv) \<inter> fst ` set (gv_fresh ?gv) = {}" using w by (auto simp: wf_group_def)
  have iB: "i \<in> fst ` set (batch v ?s ?cap ?T n ?gv)" using assms(2) by force
  obtain gv' where g': "rv_grp (received_view S q g vis n DA DB U v) (?s, g) = Some gv'"
    "gv_fresh gv' = drop ?m (gv_fresh ?gv)"
    "map_of (gv_pend gv') i =
       (if i \<in> U then None else map_option (\<lambda>p. if i \<in> fst ` set (batch v ?s ?cap ?T n ?gv)
            then aged (qs_consumer S) (rv_now v) ?T (lease_ms q vis) p else p)
         (if i \<in> DB then None
          else case (if i \<in> set (parked v ?s ?cap ?T n ?gv) then None
                     else map_option (\<lambda>p. if i \<in> set (claimed v ?s ?T n ?gv) then leased_by (qs_consumer S) (rv_now v) p else p)
                       (if i \<in> DA then None else map_of (gv_pend ?gv) i)) of
                 Some p \<Rightarrow> Some p
               | None \<Rightarrow> map_of (first_pend S v ?m ?gv) i))"
    by (rule received_entry[where S = S and q = q and g = g and vis = vis and n = n and DA = DA and DB = DB and U = U and v = v])
      blast
  have ts: "set (take ?m (gv_fresh ?gv)) \<subseteq> set (gv_fresh ?gv)" by (auto dest: in_set_takeD)
  from batch_origin[OF iB] show ?thesis
  proof
    assume c: "i \<in> set (claimed v ?s ?T n ?gv) \<and> \<not> over_cap (scanned v ?s ?T n ?gv) ?cap i"
    then obtain p where p: "(i, p) \<in> set (gv_pend ?gv)" "in_stream v ?s i" using claimed_pend by blast
    then have mp: "map_of (gv_pend ?gv) i = Some p" using d(1) by simp
    have np: "i \<notin> set (parked v ?s ?cap ?T n ?gv)" using c by (simp add: parked_def)
    have nf: "i \<notin> fst ` set (gv_fresh ?gv)" using p(1) d(3) by force
    have e: "map_of (gv_pend gv') i = Some (aged (qs_consumer S) (rv_now v) ?T (lease_ms q vis) (leased_by (qs_consumer S) (rv_now v) p))"
      using g'(3) c np mp p(2) assms(3,4) iB by auto
    show ?thesis
    proof (rule that[OF g'(1) e])
      show "i \<notin> fst ` set (gv_fresh gv')" using nf g'(2) by (auto dest: in_set_dropD)
      have "i \<in> fst ` set (rv_log v ?s)" using p(2) by (simp add: in_stream_def)
      then show "i \<in> rv_minted v ?s" using assms(1) by (auto simp: wf_view_def)
    qed (auto simp: aged_def leased_by_def lease_start_def mp)
  next
    assume c: "i \<in> fst ` set (take ?m (gv_fresh ?gv))"
    then have f: "i \<in> fst ` set (gv_fresh ?gv)" using ts by auto
    then have mp: "map_of (gv_pend ?gv) i = None" using d(3) by (force simp: map_of_eq_None_iff)
    have lg: "i \<in> fst ` set (rv_log v ?s)" using f w by (auto simp: wf_group_def)
    then have nd: "i \<notin> DA" "i \<notin> DB" using assms(4) by (auto simp: in_stream_def)
    have e: "map_of (gv_pend gv') i = Some (aged (qs_consumer S) (rv_now v) ?T (lease_ms q vis)
        \<lparr>pe_consumer = qs_consumer S, pe_delivered_at = rv_now v, pe_times = 1\<rparr>)"
      using g'(3) c mp nd assms(3) iB by (simp add: map_of_first_pend)
    show ?thesis
    proof (rule that[OF g'(1) e])
      have "distinct (map fst (take ?m (gv_fresh ?gv) @ drop ?m (gv_fresh ?gv)))" using d(2) by simp
      then have "i \<notin> fst ` set (drop ?m (gv_fresh ?gv))" using c unfolding map_append distinct_append by (metis disjoint_iff image_set)
      then show "i \<notin> fst ` set (gv_fresh gv')" using g'(2) by simp
      show "i \<in> rv_minted v ?s" using lg assms(1) by (auto simp: wf_view_def)
    qed (auto simp: aged_def lease_start_def mp)
  qed
qed

subsection \<open>The other operations\<close>

text \<open>What an accepted acknowledgement does to the view.\<close>

definition deleted_to :: "queue_config \<Rightarrow> receipt \<Rightarrow> redis_view \<Rightarrow> redis_view \<Rightarrow> bool" where
  "deleted_to q rc v v' \<longleftrightarrow>
     rv_now v' = rv_now v \<and> rv_minted v' = rv_minted v
     \<and> rv_log v' = (if qc_delete_entries q
         then (rv_log v)(rc_stream rc := forget {rc_message_id rc} (rv_log v (rc_stream rc))) else rv_log v)
     \<and> (\<forall>t g. rv_grp v' (t, g) = map_option (\<lambda>gv. gv
             \<lparr>gv_pend := if t = rc_stream rc \<and> g = rc_group rc then forget {rc_message_id rc} (gv_pend gv) else gv_pend gv,
              gv_fresh := if t = rc_stream rc \<and> qc_delete_entries q then forget {rc_message_id rc} (gv_fresh gv) else gv_fresh gv\<rparr>)
           (rv_grp v (t, g)))"

context redis_streams
begin

lemma send_held:
  assumes "inv r" "0 < qc_maxlen q" "held (view r) s g i t"
  shows "inv (snd (send R S q e r))" "held (view (snd (send R S q e r))) s g i t"
    "rv_now (view (snd (send R S q e r))) = rv_now (view r)"
proof -
  have "inv (snd (send R S q e r)) \<and> held (view (snd (send R S q e r))) s g i t \<and> rv_now (view (snd (send R S q e r))) = rv_now (view r)"
  proof (cases "wc_encode (qs_wire S) e")
    case (Inl x)
    then show ?thesis using assms by (simp add: send_def)
  next
    case (Inr f)
    obtain j r' where "xadd R (q_stream S q) f (qc_maxlen q) r = (Inr j, r')" "inv r'" "j \<notin> rv_minted (view r) (q_stream S q)"
      "\<forall>t. rv_minted (view r) t \<subseteq> rv_minted (view r') t" "rv_now (view r') = rv_now (view r)"
      "\<forall>t g. rv_grp (view r') (t, g) = (if t = q_stream S q then map_option (\<lambda>gv. gv\<lparr>gv_fresh :=
            filter (\<lambda>x. x \<in> set (rv_log (view r') (q_stream S q))) (gv_fresh gv @ [(j, f)])\<rparr>) (rv_grp (view r) (t, g))
          else rv_grp (view r) (t, g))"
      using add[OF assms(1,2), of "q_stream S q" f] by (elim exE conjE) (rule that; assumption)
    note a = this(1-3) this(4)[rule_format] this(5) this(6)[rule_format]
    have m: "i \<in> rv_minted (view r') s" using assms(3) a(4)[of s] by (auto simp: held_def)
    have "i \<noteq> j" if "s = q_stream S q" using assms(3) a(3) that by (auto simp: held_def)
    then have "held (view r') s g i t" using assms(3) a(6)[of s g] m by (auto simp: held_def split: if_splits)
    then show ?thesis using a Inr by (simp add: send_def)
  qed
  then show "inv (snd (send R S q e r))" "held (view (snd (send R S q e r))) s g i t"
    "rv_now (view (snd (send R S q e r))) = rv_now (view r)" by blast+
qed

lemma delete_spec:
  assumes "inv r" "rv_grp (view r) (rc_stream rc, rc_group rc) = Some gv"
  obtains r' x where "delete_message R q rc r = (x, r')" "inv r'"
    "x = (if qc_strict_ack q then (case fst (assert_lease_current R rc r) of None \<Rightarrow> Inr () | Some e \<Rightarrow> Inl e) else Inr ())"
    "if isl x then view r' = view r else deleted_to q rc (view r) (view r')"
proof -
  let ?i = "rc_message_id rc" and ?s = "rc_stream rc" and ?g = "rc_group rc"
  obtain ps r1 where p: "xpending_range R ?s ?g ?i ?i 1 None r = (Inr ps, r1)" "inv r1" "view r1 = view r"
    using pending_other[OF assms] by blast
  define r0 where "r0 = (if qc_strict_ack q then r1 else r)"
  define stale where "stale = first_stale ?i (rc_delivered rc) ps"
  have a: "assert_lease_current R rc r = (stale, r1)"
    using p(1) by (simp add: assert_lease_current_def stale_def)
  have r0: "inv r0" "view r0 = view r" "rv_grp (view r0) (?s, ?g) = Some gv" using p assms by (simp_all add: r0_def)
  show ?thesis
  proof (cases "qc_strict_ack q \<and> stale \<noteq> None")
    case True
    then obtain e where "stale = Some e" by auto
    then show ?thesis using p a True by (intro that[of "Inl e" r1]) (simp_all add: delete_message_def)
  next
    case False
    let ?r2 = "ack_quiet R ?s ?g ?i r0"
    note k = ack_quiet_spec[OF r0(1,3), of ?i]
    have e: "delete_message R q rc r = (Inr (), if qc_delete_entries q then snd (xdel R ?s ?i ?r2) else ?r2)"
      using False a by (auto simp: delete_message_def r0_def Let_def)
    have x: "(Inr () :: store_exc + unit) =
        (if qc_strict_ack q then (case fst (assert_lease_current R rc r) of None \<Rightarrow> Inr () | Some e \<Rightarrow> Inl e) else Inr ())"
      using False a by auto
    show ?thesis
    proof (cases "qc_delete_entries q")
      case no: False
      have "deleted_to q rc (view r) (view ?r2)"
        using no k(2) r0(2,3) by (auto simp: deleted_to_def option.map_ident)
      then show ?thesis using e k(1) no x by (intro that[of "Inr ()" ?r2]) simp_all
    next
      case del_entry: True
      obtain n r3 where d: "xdel R ?s ?i ?r2 = (Inr n, r3)" "inv r3" "rv_now (view r3) = rv_now (view ?r2)"
        "rv_minted (view r3) = rv_minted (view ?r2)" "rv_log (view r3) = (rv_log (view ?r2))(?s := forget {?i} (rv_log (view ?r2) ?s))"
        "\<forall>t g. rv_grp (view r3) (t, g) = (if t = ?s then map_option (\<lambda>gv. gv\<lparr>gv_fresh := forget {?i} (gv_fresh gv)\<rparr>) (rv_grp (view ?r2) (t, g))
              else rv_grp (view ?r2) (t, g))"
        using del[OF k(1), of ?s ?i] by blast
      have "deleted_to q rc (view r) (view r3)"
        using del_entry d k(2) r0(2,3) by (auto simp: deleted_to_def option.map_ident option.map_comp comp_def)
      then show ?thesis using e d(1,2) del_entry x by (intro that[of "Inr ()" r3]) simp_all
    qed
  qed
qed

lemma deleted_held:
  assumes "deleted_to q rc v v'" "held v s g i t" "rc_stream rc = s" "rc_group rc = g" "rc_message_id rc \<noteq> i"
  shows "held v' s g i t"
proof -
  from assms(2) obtain gv where gv: "rv_grp v (s, g) = Some gv" "i \<notin> fst ` set (gv_fresh gv)"
    "\<forall>p. map_of (gv_pend gv) i = Some p \<longrightarrow> t \<le> pe_delivered_at p" "i \<in> rv_minted v s" by (auto simp: held_def)
  have f: "fst ` set (forget {rc_message_id rc} (gv_fresh gv)) \<subseteq> fst ` set (gv_fresh gv)" by (auto simp: forget_def)
  have m: "rv_minted v' = rv_minted v" using assms(1) by (simp add: deleted_to_def)
  have "rv_grp v' (s, g) = map_option (\<lambda>gv. gv
             \<lparr>gv_pend := if s = rc_stream rc \<and> g = rc_group rc then forget {rc_message_id rc} (gv_pend gv) else gv_pend gv,
              gv_fresh := if s = rc_stream rc \<and> qc_delete_entries q then forget {rc_message_id rc} (gv_fresh gv) else gv_fresh gv\<rparr>)
           (rv_grp v (s, g))"
    using assms(1) unfolding deleted_to_def by blast
  then show ?thesis using gv m f assms(3-5) by (auto simp: held_def map_of_forget)
qed

lemma delete_held:
  assumes "inv r" "held (view r) s g i t" "rc_stream rc = s" "rc_group rc = g" "rc_message_id rc \<noteq> i"
  shows "inv (snd (delete_message R q rc r))" "held (view (snd (delete_message R q rc r))) s g i t"
    "rv_now (view (snd (delete_message R q rc r))) = rv_now (view r)"
proof -
  from assms(2-4) obtain gv where g: "rv_grp (view r) (rc_stream rc, rc_group rc) = Some gv" by (auto simp: held_def)
  obtain r' x where d: "delete_message R q rc r = (x, r')" "inv r'"
    "if isl x then view r' = view r else deleted_to q rc (view r) (view r')"
    by (rule delete_spec[OF assms(1) g, of q])
  then show "inv (snd (delete_message R q rc r))" by simp
  show "held (view (snd (delete_message R q rc r))) s g i t"
  proof (cases "isl x")
    case True
    then show ?thesis using d assms(2) by simp
  next
    case False
    then have "deleted_to q rc (view r) (view r')" using d(3) by simp
    from deleted_held[OF this assms(2-5)] d(1) show ?thesis by simp
  qed
  show "rv_now (view (snd (delete_message R q rc r))) = rv_now (view r)"
    using d(1,3) by (cases "isl x") (auto simp: deleted_to_def)
qed

lemma visibility_spec:
  assumes "inv r" "rv_grp (view r) (rc_stream rc, rc_group rc) = Some gv" "0 \<le> qc_max_visibility_ms q"
  obtains r' D where "change_visibility R q rc ms r = (Inr (), r')" "inv r'" "\<forall>i \<in> D. \<not> in_stream (view r) (rc_stream rc) i"
    "view r' = set_grp (rc_stream rc) (rc_group rc) (gv\<lparr>gv_pend := touch {rc_message_id rc}
       (\<lambda>p. p\<lparr>pe_consumer := rc_consumer rc, pe_delivered_at := lease_start (rv_now (view r)) (qc_max_visibility_ms q) (max 0 ms)\<rparr>)
         (forget D (gv_pend gv))\<rparr>) (view r)"
proof -
  let ?T = "qc_max_visibility_ms q"
  have nn: "0 \<le> (if ms \<le> 0 then ?T else max 0 (?T - ms))" using assms(3) by simp
  obtain r' D where c: "xclaim R (rc_stream rc) (rc_group rc) (rc_consumer rc) [rc_message_id rc]
      (if ms \<le> 0 then ?T else max 0 (?T - ms)) r = (Inr (), r')" "inv r'" "\<forall>i \<in> D. \<not> in_stream (view r) (rc_stream rc) i"
    "view r' = set_grp (rc_stream rc) (rc_group rc) (gv\<lparr>gv_pend := touch (set [rc_message_id rc])
       (\<lambda>p. p\<lparr>pe_consumer := rc_consumer rc, pe_delivered_at := rv_now (view r) - (if ms \<le> 0 then ?T else max 0 (?T - ms))\<rparr>)
         (forget D (gv_pend gv))\<rparr>) (view r)"
    using claim[OF assms(1,2) nn, of "rc_consumer rc" "[rc_message_id rc]"] by blast
  have "(if ms \<le> 0 then ?T else max 0 (?T - ms)) = max 0 (?T - max 0 ms)" using assms(3) by auto
  then show ?thesis
    using c by (intro that[of r' D]) (simp_all add: change_visibility_def Let_def lease_start_def)
qed

lemma visibility_held:
  assumes "inv r" "0 \<le> qc_max_visibility_ms q" "held (view r) s g i t" "rc_stream rc = s" "rc_group rc = g"
    "rc_message_id rc \<noteq> i"
  shows "inv (snd (change_visibility R q rc ms r))" "held (view (snd (change_visibility R q rc ms r))) s g i t"
    "rv_now (view (snd (change_visibility R q rc ms r))) = rv_now (view r)"
proof -
  from assms(3) obtain gv where gv: "rv_grp (view r) (s, g) = Some gv" "i \<notin> fst ` set (gv_fresh gv)"
    "\<forall>p. map_of (gv_pend gv) i = Some p \<longrightarrow> t \<le> pe_delivered_at p" "i \<in> rv_minted (view r) s" by (auto simp: held_def)
  have g: "rv_grp (view r) (rc_stream rc, rc_group rc) = Some gv" using gv(1) assms(4,5) by simp
  from visibility_spec[OF assms(1) g assms(2)] obtain r' D where d: "change_visibility R q rc ms r = (Inr (), r')" "inv r'"
    "view r' = set_grp (rc_stream rc) (rc_group rc) (gv\<lparr>gv_pend := touch {rc_message_id rc}
       (\<lambda>p. p\<lparr>pe_consumer := rc_consumer rc, pe_delivered_at := lease_start (rv_now (view r)) (qc_max_visibility_ms q) (max 0 ms)\<rparr>)
         (forget D (gv_pend gv))\<rparr>) (view r)" by blast
  then show "inv (snd (change_visibility R q rc ms r))" "held (view (snd (change_visibility R q rc ms r))) s g i t"
    "rv_now (view (snd (change_visibility R q rc ms r))) = rv_now (view r)"
    using gv assms(4-6) by (auto simp: held_def map_of_touch map_of_forget split: if_splits)
qed

lemma receive_held:
  assumes "inv (q_redis st)" "0 < n" "wait_ms \<le> 0" "held (view (q_redis st)) s g i t" "q_stream S q = s"
    "rv_now (view (q_redis st)) - t < qc_max_visibility_ms q"
  shows "inv (q_redis (snd (receive R S q h n wait_ms vis now_ms st)))"
    "held (view (q_redis (snd (receive R S q h n wait_ms vis now_ms st)))) s g i t"
    "rv_now (view (q_redis (snd (receive R S q h n wait_ms vis now_ms st)))) = rv_now (view (q_redis st))"
    "fst (receive R S q h n wait_ms vis now_ms st) = Inr ds \<Longrightarrow> h = g \<Longrightarrow> i \<notin> dm_id ` set ds"
proof -
  let ?v = "view (q_redis st)"
  let ?B = "batch ?v (q_stream S q) (receives_cap q h) (qc_max_visibility_ms q) n (ensured (q_stream S q) h ?v)"
  have w: "wait_ms \<le> 0 \<or> gv_fresh (ensured (q_stream S q) h ?v) \<noteq> []" using assms(3) by simp
  obtain x st' DA DB U where r: "receive R S q h n wait_ms vis now_ms st = (x, st')" "inv (q_redis st')"
    "U \<subseteq> undecodable S ?B" "\<forall>i \<in> DA \<union> DB. \<not> in_stream ?v (q_stream S q) i"
    "view (q_redis st') = received_view S q h vis n DA DB U ?v"
    "\<forall>ds. x = Inr ds \<longrightarrow> U = undecodable S ?B
       \<and> ds = map (handed S q h (q_stream S q) (now_ms + lease_ms q vis)) (filter (wire_ok S) ?B)"
    by (rule receive_spec[OF assms(1,2) w])
  note w = wf[OF assms(1)]
  have other: "h = g \<or> (s, g) \<noteq> (q_stream S q, h)" by auto
  have "held (received_view S q h vis n DA DB U ?v) s g i t"
  proof (cases "h = g")
    case True
    then show ?thesis
      using held_received(2)[where v = ?v and S = S and q = q and g = g and i = i and t = t and n = n and vis = vis and DA = DA and DB = DB and U = U] w assms(4-6) by simp
  next
    case False
    then show ?thesis
      using assms(4) received_other_group[where t = s and h = g and S = S and q = q and g = h and vis = vis and n = n and DA = DA and DB = DB and U = U and v = ?v] by (simp add: held_def)
  qed
  then show "inv (q_redis (snd (receive R S q h n wait_ms vis now_ms st)))"
    "held (view (q_redis (snd (receive R S q h n wait_ms vis now_ms st)))) s g i t"
    "rv_now (view (q_redis (snd (receive R S q h n wait_ms vis now_ms st)))) = rv_now ?v"
    using r by simp_all
  show "i \<notin> dm_id ` set ds" if "fst (receive R S q h n wait_ms vis now_ms st) = Inr ds" "h = g"
  proof -
    have "ds = map (handed S q h (q_stream S q) (now_ms + lease_ms q vis)) (filter (wire_ok S) ?B)" using r that(1) by simp
    then have "dm_id ` set ds \<subseteq> fst ` set ?B" by (auto simp: handed_def Let_def intro: rev_image_eqI)
    then show ?thesis using held_received(1)[where v = ?v and S = S and q = q and g = g and i = i and t = t and n = n] w assms(4-6) that(2) by auto
  qed
qed

end

end
