(* ===== verification/QueueRuns.thy ===== *)
theory QueueRuns
  imports QueueFacts
begin

text \<open>
  Whole runs of the queue: what one receive returns and leaves behind, the dead-letter calls it
  makes, and that no interleaving of receives, sends, acknowledgements and visibility changes of
  other messages hands a message out again before its lease ends.
\<close>

subsection \<open>The dead-letter calls of a receive\<close>

definition park_call :: "queue_store \<Rightarrow> queue_config \<Rightarrow> string \<Rightarrow> string \<Rightarrow> fields \<Rightarrow> int \<Rightarrow> dlq_call list" where
  "park_call S q g s f n =
     (if qs_on_dlq S
      then (case wc_decode (qs_wire S) f of
              Inl _ \<Rightarrow> []
            | Inr e \<Rightarrow> [\<lparr>dc_envelope = e, dc_attempts = n,
                dc_error = ''exceeded max_receives='' @ int_str (receives_cap q g), dc_subscriber_id = s @ '':'' @ g\<rparr>])
      else [])"

definition park_calls :: "queue_store \<Rightarrow> queue_config \<Rightarrow> string \<Rightarrow> redis_view \<Rightarrow> string \<Rightarrow> nat \<Rightarrow> dlq_call list" where
  "park_calls S q g v s n =
     (let gv = ensured s g v; T = qc_max_visibility_ms q
      in concat (map (\<lambda>i. park_call S q g s (fields_of v s i) (count_after (scanned v s T n gv) i - 1))
           (parked v s (receives_cap q g) T n gv)))"

lemma handle_claimed_dlq:
  "q_dlq (snd (handle_claimed R S q g s seen es st)) =
     q_dlq st @ concat (map (\<lambda>(i, f). park_call S q g s f (count_after seen i - 1))
       (filter (\<lambda>m. over_cap seen (receives_cap q g) (fst m)) es))"
proof (induction es arbitrary: st)
  case (Cons e es)
  obtain i f where e: "e = (i, f)" by force
  show ?case
  proof (cases "over_cap seen (receives_cap q g) i")
    case True
    then obtain n where n: "map_of seen i = Some n" "n > receives_cap q g"
      by (auto simp: over_cap_def split: option.splits)
    have "q_dlq (park_to_dlq R S q g s i f n st) = q_dlq st @ park_call S q g s f n"
      by (simp add: park_to_dlq_def park_call_def)
    then show ?thesis using Cons.IH[of "park_to_dlq R S q g s i f n st"] True n
      by (simp add: e count_after_def)
  next
    case False
    then have "\<not> (\<exists>n. map_of seen i = Some n \<and> n > receives_cap q g)" by (auto simp: over_cap_def)
    moreover obtain us st' where "handle_claimed R S q g s seen es st = (us, st')" by force
    ultimately show ?thesis using Cons.IH[of st] False by (auto simp: e Let_def)
  qed
qed simp

lemma finish_receive_dlq: "q_dlq (snd (finish_receive R S q g vis now_ms ms st)) = q_dlq st"
  by (simp add: finish_receive_def Let_def split: prod.splits)

context redis_streams
begin

lemma reclaim_dlq:
  assumes "inv (q_redis st)" "rv_grp (view (q_redis st)) (s, g) = Some gv"
  defines "v \<equiv> view (q_redis st)"
  shows "q_dlq (snd (reclaim R S q g s idle n st)) = q_dlq st @
     concat (map (\<lambda>i. park_call S q g s (fields_of v s i) (count_after (scanned v s idle n gv) i - 1))
           (parked v s (receives_cap q g) idle n gv))"
proof -
  from pending[OF assms(1,2), of n idle] obtain r1 where r1:
    "xpending_range R s g ''-'' ''+'' n (Some idle) (q_redis st) = (Inr (scanned v s idle n gv), r1)" "inv r1" "view r1 = v"
    by (auto simp: scanned_def v_def)
  have g1: "rv_grp (view r1) (s, g) = Some gv" using r1(3) assms(2) by (simp add: v_def)
  from autoclaim[OF r1(2) g1, where c = "qs_consumer S" and idle = idle and n = n] obtain r2 where r2:
    "xautoclaim R s g (qs_consumer S) idle n r1 = (Inr (map (\<lambda>i. (i, fields_of v s i)) (claimed v s idle n gv)), r2)"
    unfolding r1(3) claimed_def by (elim exE conjE) blast
  have d: "distinct (map fst (scanned v s idle n gv))"
    using assms(2) wf[OF assms(1)] by (intro scanned_distinct) (auto simp: wf_view_def wf_group_def)
  have seen: "over_cap (seen_counts (scanned v s idle n gv)) = over_cap (scanned v s idle n gv)"
    "count_after (seen_counts (scanned v s idle n gv)) = count_after (scanned v s idle n gv)"
    unfolding over_cap_def count_after_def seen_counts_get map_of_rev[OF d] by auto
  have "reclaim R S q g s idle n st = handle_claimed R S q g s (seen_counts (scanned v s idle n gv))
      (map (\<lambda>i. (i, fields_of v s i)) (claimed v s idle n gv)) (st\<lparr>q_redis := r2\<rparr>)"
    using r1(1) r2 by (simp add: reclaim_def)
  then show ?thesis by (simp add: handle_claimed_dlq seen parked_def filter_map comp_def)
qed

lemma receive_dlq:
  assumes "inv (q_redis st)"
  shows "q_dlq (snd (receive R S q g n wait_ms vis now_ms st)) =
    q_dlq st @ park_calls S q g (view (q_redis st)) (q_stream S q) n"
proof -
  let ?s = "q_stream S q" and ?v = "view (q_redis st)" and ?T = "qc_max_visibility_ms q"
  obtain r0 where r0: "ensure_group R ?s g (q_redis st) = (Inr (), r0)" "inv r0" "view r0 = set_grp ?s g (ensured ?s g ?v) ?v"
    using ensure_group_spec[OF assms, of ?s g] by auto
  let ?st0 = "st\<lparr>q_redis := r0\<rparr>"
  obtain us st1 where r1: "reclaim R S q g ?s ?T n ?st0 = (us, st1)" by force
  have "inv (q_redis ?st0)" "rv_grp (view (q_redis ?st0)) (?s, g) = Some (ensured ?s g ?v)" using r0 by simp_all
  from reclaim_dlq[OF this, of S q ?T n] r0(3) r1
  have d: "q_dlq st1 = q_dlq st @ park_calls S q g ?v ?s n"
    by (simp add: park_calls_def Let_def parked_def scanned_def claimed_def expired_live_def)
  show ?thesis
  proof (cases "n - length us > 0")
    case True
    obtain x r2 where "read_new R S ?s g (n - length us) wait_ms (q_redis st1) = (x, r2)" by force
    then show ?thesis using True r0(1) r1 d
      by (cases x) (simp_all add: receive_def Let_def finish_receive_dlq)
  next
    case False
    then show ?thesis using r0(1) r1 d by (simp add: receive_def Let_def finish_receive_dlq)
  qed
qed

subsection \<open>What a receive returns\<close>

lemma receive_returns:
  assumes "inv (q_redis st)" "0 < n" "wait_ms \<le> 0" "receive R S q g n wait_ms vis now_ms st = (Inr ds, st')"
  shows "ds = map (handed S q g (q_stream S q) (now_ms + lease_ms q vis)) (filter (wire_ok S)
      (batch (view (q_redis st)) (q_stream S q) (receives_cap q g) (qc_max_visibility_ms q) n
        (ensured (q_stream S q) g (view (q_redis st)))))" "inv (q_redis st')"
proof -
  let ?v = "view (q_redis st)"
  let ?B = "batch ?v (q_stream S q) (receives_cap q g) (qc_max_visibility_ms q) n (ensured (q_stream S q) g ?v)"
  have w: "wait_ms \<le> 0 \<or> gv_fresh (ensured (q_stream S q) g ?v) \<noteq> []" using assms(3) by simp
  obtain x st2 DA DB U where r: "receive R S q g n wait_ms vis now_ms st = (x, st2)" "inv (q_redis st2)"
    "U \<subseteq> undecodable S ?B" "\<forall>i \<in> DA \<union> DB. \<not> in_stream ?v (q_stream S q) i"
    "view (q_redis st2) = received_view S q g vis n DA DB U ?v"
    "\<forall>ds. x = Inr ds \<longrightarrow> U = undecodable S ?B
       \<and> ds = map (handed S q g (q_stream S q) (now_ms + lease_ms q vis)) (filter (wire_ok S) ?B)"
    by (rule receive_spec[OF assms(1,2) w])
  then show "ds = map (handed S q g (q_stream S q) (now_ms + lease_ms q vis)) (filter (wire_ok S) ?B)" "inv (q_redis st')"
    using assms(4) by simp_all
qed

text \<open>Every message a receive returns is leased to the caller's consumer, with the count it reports.\<close>

lemma receive_leases:
  assumes "inv (q_redis st)" "0 < n" "wait_ms \<le> 0" "receive R S q g n wait_ms vis now_ms st = (Inr ds, st')" "d \<in> set ds"
  obtains gv p where "rv_grp (view (q_redis st')) (q_stream S q, g) = Some gv" "map_of (gv_pend gv) (dm_id d) = Some p"
    "pe_consumer p = qs_consumer S"
    "pe_delivered_at p = lease_start (rv_now (view (q_redis st))) (qc_max_visibility_ms q) (lease_ms q vis)"
    "held (view (q_redis st')) (q_stream S q) g (dm_id d)
       (lease_start (rv_now (view (q_redis st))) (qc_max_visibility_ms q) (lease_ms q vis))"
    "rv_now (view (q_redis st')) = rv_now (view (q_redis st))"
    "(\<forall>(j, p) \<in> set (gv_pend (ensured (q_stream S q) g (view (q_redis st)))). in_stream (view (q_redis st)) (q_stream S q) j)
      \<longrightarrow> pe_times p = dm_delivered d"
    "rc_message_id (dm_receipt d) = dm_id d" "rc_delivered (dm_receipt d) = dm_delivered d"
    "rc_stream (dm_receipt d) = q_stream S q" "rc_group (dm_receipt d) = g"
proof -
  let ?v = "view (q_redis st)" and ?s = "q_stream S q"
  let ?gv = "ensured ?s g ?v"
  let ?B = "batch ?v ?s (receives_cap q g) (qc_max_visibility_ms q) n ?gv"
  note w = wf[OF assms(1)]
  have wt: "wait_ms \<le> 0 \<or> gv_fresh ?gv \<noteq> []" using assms(3) by simp
  obtain x st2 DA DB U where r: "receive R S q g n wait_ms vis now_ms st = (x, st2)" "inv (q_redis st2)"
    "U \<subseteq> undecodable S ?B" "\<forall>i \<in> DA \<union> DB. \<not> in_stream ?v ?s i"
    "view (q_redis st2) = received_view S q g vis n DA DB U ?v"
    "\<forall>ds. x = Inr ds \<longrightarrow> U = undecodable S ?B
       \<and> ds = map (handed S q g ?s (now_ms + lease_ms q vis)) (filter (wire_ok S) ?B)"
    by (rule receive_spec[OF assms(1,2) wt])
  have st: "st2 = st'" "ds = map (handed S q g ?s (now_ms + lease_ms q vis)) (filter (wire_ok S) ?B)" using r assms(4) by auto
  obtain i f k where m: "(i, f, k) \<in> set ?B" "wire_ok S (i, f, k)" "d = handed S q g ?s (now_ms + lease_ms q vis) (i, f, k)"
    using assms(5) st(2) by auto
  have di: "dm_id d = i" "dm_delivered d = k" using m(3) by (simp_all add: handed_def Let_def)
  have dist: "distinct (map fst ?B)" by (rule batch_distinct[OF ensured_wf[OF w]])
  have iU: "i \<notin> U"
  proof
    assume "i \<in> U"
    then obtain y where y: "y \<in> set ?B" "\<not> wire_ok S y" "fst y = i" using r(3) by (auto simp: undecodable_def)
    then have "y = (i, f, k)" using dist m(1) by (metis distinct_map inj_on_def fst_conv)
    then show False using y(2) m(2) by simp
  qed
  obtain gv' p where l: "rv_grp (received_view S q g vis n DA DB U ?v) (?s, g) = Some gv'"
    "map_of (gv_pend gv') i = Some p" "i \<notin> fst ` set (gv_fresh gv')" "i \<in> rv_minted ?v ?s"
    "pe_consumer p = qs_consumer S" "pe_delivered_at p = lease_start (rv_now ?v) (qc_max_visibility_ms q) (lease_ms q vis)"
    "pe_times p = (case map_of (gv_pend ?gv) i of Some p0 \<Rightarrow> pe_times p0 + 1 | None \<Rightarrow> 1)"
    by (rule received_leased[OF w m(1) iU r(4)])
  have ex: "pe_times p = k" if "\<forall>(j, p) \<in> set (gv_pend ?gv). in_stream ?v ?s j"
    using batch_count_exact[OF m(1) ensured_wf[OF w] that] l(7) by (simp split: option.splits)
  have "view (q_redis st') = received_view S q g vis n DA DB U ?v" using r(5) st(1) by simp
  then show ?thesis
    using l ex di m(3) by (intro that[of gv' p]) (auto simp: held_def handed_def Let_def mk_receipt_def)
qed

subsection \<open>Acknowledging, releasing, purging\<close>

lemma first_stale_one: "first_stale i n [(i, m)] = None \<longleftrightarrow> m \<le> n"
  by simp

lemma delete_exact:
  assumes "inv r" "rv_grp (view r) (rc_stream rc, rc_group rc) = Some gv" "map_of (gv_pend gv) (rc_message_id rc) = Some p"
  obtains r' x where "delete_message R q rc r = (x, r')" "inv r'"
    "isl x \<longleftrightarrow> qc_strict_ack q \<and> pe_times p > rc_delivered rc"
    "if isl x then view r' = view r else deleted_to q rc (view r) (view r')"
proof -
  obtain r' x where d: "delete_message R q rc r = (x, r')" "inv r'"
    "x = (if qc_strict_ack q then (case fst (assert_lease_current R rc r) of None \<Rightarrow> Inr () | Some e \<Rightarrow> Inl e) else Inr ())"
    "if isl x then view r' = view r else deleted_to q rc (view r) (view r')"
    by (rule delete_spec[OF assms(1,2), of q])
  obtain r1 where "xpending_range R (rc_stream rc) (rc_group rc) (rc_message_id rc) (rc_message_id rc) 1 None r =
      (Inr [(rc_message_id rc, pe_times p)], r1)"
    using pending_one[OF assms] by blast
  then have "fst (assert_lease_current R rc r) = first_stale (rc_message_id rc) (rc_delivered rc) [(rc_message_id rc, pe_times p)]"
    by (simp add: assert_lease_current_def)
  then have "isl x \<longleftrightarrow> qc_strict_ack q \<and> pe_times p > rc_delivered rc" using d(3) by simp
  then show ?thesis using that d(1,2,4) by blast
qed

lemma released_claimed:
  assumes "inv r" "rv_grp (view r) (rc_stream rc, rc_group rc) = Some gv" "map_of (gv_pend gv) (rc_message_id rc) = Some p"
    "in_stream (view r) (rc_stream rc) (rc_message_id rc)" "0 \<le> qc_max_visibility_ms q" "ms \<le> 0"
    "change_visibility R q rc ms r = (x, r')"
  obtains gv' p' where "x = Inr ()" "inv r'" "rv_grp (view r') (rc_stream rc, rc_group rc) = Some gv'"
    "rv_log (view r') = rv_log (view r)" "set (map fst (gv_pend gv')) \<subseteq> set (map fst (gv_pend gv))" "length (gv_pend gv') \<le> length (gv_pend gv)"
    "(rc_message_id rc, p') \<in> set (gv_pend gv')" "idle_since (view r') (qc_max_visibility_ms q) p'" "pe_times p' = pe_times p"
proof -
  obtain r2 D where c: "change_visibility R q rc ms r = (Inr (), r2)" "inv r2" "\<forall>i \<in> D. \<not> in_stream (view r) (rc_stream rc) i"
    "view r2 = set_grp (rc_stream rc) (rc_group rc) (gv\<lparr>gv_pend := touch {rc_message_id rc}
       (\<lambda>p. p\<lparr>pe_consumer := rc_consumer rc, pe_delivered_at := lease_start (rv_now (view r)) (qc_max_visibility_ms q) (max 0 ms)\<rparr>)
         (forget D (gv_pend gv))\<rparr>) (view r)"
    by (rule visibility_spec[OF assms(1,2,5)])
  let ?gv = "gv\<lparr>gv_pend := touch {rc_message_id rc}
       (\<lambda>p. p\<lparr>pe_consumer := rc_consumer rc, pe_delivered_at := lease_start (rv_now (view r)) (qc_max_visibility_ms q) (max 0 ms)\<rparr>)
         (forget D (gv_pend gv))\<rparr>"
  let ?p = "p\<lparr>pe_consumer := rc_consumer rc, pe_delivered_at := lease_start (rv_now (view r)) (qc_max_visibility_ms q) (max 0 ms)\<rparr>"
  have "rc_message_id rc \<notin> D" using assms(4) c(3) by auto
  then have "map_of (gv_pend ?gv) (rc_message_id rc) = Some ?p" using assms(3) by (simp add: map_of_touch map_of_forget)
  then have m: "(rc_message_id rc, ?p) \<in> set (gv_pend ?gv)" by (rule map_of_SomeD)
  have l: "length (gv_pend ?gv) \<le> length (gv_pend gv)" by (simp add: touch_def forget_def)
  have sub: "set (map fst (gv_pend ?gv)) \<subseteq> set (map fst (gv_pend gv))" by (auto simp: forget_def)
  show ?thesis
    by (rule that[of ?gv ?p]) (use c assms(5-7) m l sub in \<open>auto simp: idle_since_def lease_start_def\<close>)
qed

lemma reset_groups_spec:
  assumes "inv r" "rv_log (view r) s = []"
  shows "\<exists>r'. reset_groups R s gs r = (Inr (), r') \<and> inv r' \<and> rv_log (view r') = rv_log (view r)
    \<and> (\<forall>t g. rv_grp (view r') (t, g) = (if t = s \<and> g \<in> set gs then Some \<lparr>gv_pend = [], gv_fresh = []\<rparr> else rv_grp (view r) (t, g)))"
  using assms
proof (induction gs arbitrary: r)
  case (Cons g gs)
  obtain k r1 where d: "xgroup_destroy R s g r = (Inr k, r1)" "inv r1" "view r1 = (view r)\<lparr>rv_grp := (rv_grp (view r))((s, g) := None)\<rparr>"
    using destroy[OF Cons.prems(1), of s g] by blast
  have "rv_grp (view r1) (s, g) = None" using d(3) by simp
  from create_new[OF d(2) this, of "''$''"] obtain r2 where c: "xgroup_create R s g ''$'' r1 = (Inr (), r2)" "inv r2"
    "view r2 = set_grp s g \<lparr>gv_pend = [], gv_fresh = []\<rparr> (view r1)" by auto
  have "rv_log (view r2) s = []" using c(3) d(3) Cons.prems(2) by simp
  from Cons.IH[OF c(2) this] obtain r' where h: "reset_groups R s gs r2 = (Inr (), r')" "inv r'" "rv_log (view r') = rv_log (view r2)"
    "\<forall>t g. rv_grp (view r') (t, g) = (if t = s \<and> g \<in> set gs then Some \<lparr>gv_pend = [], gv_fresh = []\<rparr> else rv_grp (view r2) (t, g))"
    by blast
  show ?case using d(1,3) c(1,3) h by auto
qed auto

lemma purge_spec:
  assumes "inv r"
  obtains r' where "purge R S q r = (Inr (), r')" "inv r'" "rv_log (view r') (q_stream S q) = []"
    "\<forall>g \<in> qg_name ` set (qc_groups q). rv_grp (view r') (q_stream S q, g) = Some \<lparr>gv_pend = [], gv_fresh = []\<rparr>"
    "\<forall>t g. t \<noteq> q_stream S q \<longrightarrow> rv_log (view r') t = rv_log (view r) t \<and> rv_grp (view r') (t, g) = rv_grp (view r) (t, g)"
proof -
  let ?s = "q_stream S q"
  obtain k r1 where t: "xtrim0 R ?s r = (Inr k, r1)" "inv r1" "rv_log (view r1) = (rv_log (view r))(?s := [])"
    "\<forall>t g. rv_grp (view r1) (t, g) =
       (if t = ?s then map_option (\<lambda>gv. gv\<lparr>gv_fresh := []\<rparr>) (rv_grp (view r) (t, g)) else rv_grp (view r) (t, g))"
    using trim[OF assms, of ?s] by blast
  have "rv_log (view r1) ?s = []" using t(3) by simp
  from reset_groups_spec[OF t(2) this, of "map qg_name (qc_groups q)"] obtain r' where h:
    "reset_groups R ?s (map qg_name (qc_groups q)) r1 = (Inr (), r')" "inv r'" "rv_log (view r') = rv_log (view r1)"
    "\<forall>t g. rv_grp (view r') (t, g) = (if t = ?s \<and> g \<in> set (map qg_name (qc_groups q))
       then Some \<lparr>gv_pend = [], gv_fresh = []\<rparr> else rv_grp (view r1) (t, g))" by blast
  show ?thesis
    by (rule that[of r']) (use t h in \<open>simp_all add: purge_def\<close>)
qed

end

subsection \<open>Interleavings\<close>

datatype queue_op =
    OpReceive queue_store string nat int "int option" int
  | OpSend queue_store envelope
  | OpTick int
  | OpDelete receipt
  | OpVisibility receipt int

text \<open>One operation: the group and id of every message it hands out, and the state after it.\<close>

fun run_op :: "'r redis_ops \<Rightarrow> (int \<Rightarrow> 'r \<Rightarrow> 'r) \<Rightarrow> queue_config \<Rightarrow> queue_op \<Rightarrow> 'r qstate \<Rightarrow> (string \<times> string) list \<times> 'r qstate" where
  "run_op R adv q (OpReceive S g n wait vis now) st =
     (case receive R S q g n wait vis now st of
        (Inr ds, st') \<Rightarrow> (map (\<lambda>d. (g, dm_id d)) ds, st')
      | (Inl _, st') \<Rightarrow> ([], st'))"
| "run_op R adv q (OpSend S e) st = ([], st\<lparr>q_redis := snd (send R S q e (q_redis st))\<rparr>)"
| "run_op R adv q (OpTick d) st = ([], st\<lparr>q_redis := adv d (q_redis st)\<rparr>)"
| "run_op R adv q (OpDelete rc) st = ([], st\<lparr>q_redis := snd (delete_message R q rc (q_redis st))\<rparr>)"
| "run_op R adv q (OpVisibility rc ms) st = ([], st\<lparr>q_redis := snd (change_visibility R q rc ms (q_redis st))\<rparr>)"

fun run_ops :: "'r redis_ops \<Rightarrow> (int \<Rightarrow> 'r \<Rightarrow> 'r) \<Rightarrow> queue_config \<Rightarrow> queue_op list \<Rightarrow> 'r qstate \<Rightarrow> (string \<times> string) list \<times> 'r qstate" where
  "run_ops R adv q [] st = ([], st)"
| "run_ops R adv q (x # xs) st =
     (case run_op R adv q x st of (as, st') \<Rightarrow> (case run_ops R adv q xs st' of (bs, st2) \<Rightarrow> (as @ bs, st2)))"

fun elapsed :: "queue_op list \<Rightarrow> int" where
  "elapsed [] = 0"
| "elapsed (OpTick d # xs) = d + elapsed xs"
| "elapsed (_ # xs) = elapsed xs"

text \<open>Operations on the queue's stream that leave the lease of the message \<open>i\<close> of group \<open>g\<close> alone.\<close>

fun spares :: "queue_config \<Rightarrow> string \<Rightarrow> string \<Rightarrow> string \<Rightarrow> queue_op \<Rightarrow> bool" where
  "spares q s g i (OpReceive S h n wait vis now) \<longleftrightarrow> q_stream S q = s \<and> 0 < n \<and> wait \<le> 0"
| "spares q s g i (OpSend S e) \<longleftrightarrow> True"
| "spares q s g i (OpTick d) \<longleftrightarrow> 0 \<le> d"
| "spares q s g i (OpDelete rc) \<longleftrightarrow> rc_stream rc = s \<and> rc_group rc = g \<and> rc_message_id rc \<noteq> i"
| "spares q s g i (OpVisibility rc ms) \<longleftrightarrow> rc_stream rc = s \<and> rc_group rc = g \<and> rc_message_id rc \<noteq> i"

lemma elapsed_nonneg: "\<forall>x \<in> set xs. spares q s g i x \<Longrightarrow> 0 \<le> elapsed xs"
  by (induction xs rule: elapsed.induct) auto

locale clocked_streams = redis_streams +
  fixes adv :: "int \<Rightarrow> 'a \<Rightarrow> 'a"
  assumes tick: "inv r \<Longrightarrow> 0 \<le> d \<Longrightarrow> inv (adv d r) \<and> view (adv d r) = (view r)\<lparr>rv_now := rv_now (view r) + d\<rparr>"

context clocked_streams
begin

lemma run_op_held:
  assumes "inv (q_redis st)" "spares q s g i x" "held (view (q_redis st)) s g i t"
    "rv_now (view (q_redis st)) + elapsed [x] - t < qc_max_visibility_ms q" "0 < qc_maxlen q" "0 \<le> qc_max_visibility_ms q"
  shows "inv (q_redis (snd (run_op R adv q x st))) \<and> held (view (q_redis (snd (run_op R adv q x st)))) s g i t
    \<and> rv_now (view (q_redis (snd (run_op R adv q x st)))) = rv_now (view (q_redis st)) + elapsed [x]
    \<and> (g, i) \<notin> set (fst (run_op R adv q x st))"
proof (cases x)
  case (OpReceive S h n wait vis now)
  then have p: "q_stream S q = s" "0 < n" "wait \<le> 0" "rv_now (view (q_redis st)) - t < qc_max_visibility_ms q"
    using assms by simp_all
  note h = receive_held[OF assms(1) p(2,3) assms(3) p(1) p(4), where h = h and vis = vis and now_ms = now]
  obtain y st' where y: "receive R S q h n wait vis now st = (y, st')" by force
  show ?thesis using h y OpReceive by (cases y) auto
next
  case (OpSend S e)
  then show ?thesis using send_held[OF assms(1,5,3), of S e] by simp
next
  case (OpTick d)
  then show ?thesis using tick[OF assms(1), of d] assms(2,3) by (simp add: held_def)
next
  case (OpDelete rc)
  then show ?thesis using delete_held[OF assms(1,3), of rc q] assms(2) by simp
next
  case (OpVisibility rc ms)
  then show ?thesis using visibility_held[OF assms(1,6,3), of rc ms] assms(2) by simp
qed

lemma run_ops_held:
  assumes "inv (q_redis st)" "\<forall>x \<in> set xs. spares q s g i x" "held (view (q_redis st)) s g i t"
    "rv_now (view (q_redis st)) + elapsed xs - t < qc_max_visibility_ms q" "0 < qc_maxlen q" "0 \<le> qc_max_visibility_ms q"
  shows "(g, i) \<notin> set (fst (run_ops R adv q xs st))"
  using assms
proof (induction xs arbitrary: st)
  case (Cons x xs)
  have e: "elapsed (x # xs) = elapsed [x] + elapsed xs" by (cases x) simp_all
  have nn: "0 \<le> elapsed xs" by (rule elapsed_nonneg[of _ q s g i]) (use Cons.prems in simp)
  obtain as st' where x: "run_op R adv q x st = (as, st')" by force
  have "rv_now (view (q_redis st)) + elapsed [x] - t < qc_max_visibility_ms q" using Cons.prems(4) e nn by linarith
  from run_op_held[OF Cons.prems(1) _ Cons.prems(3) this Cons.prems(5,6)] Cons.prems(2) x
  have h: "inv (q_redis st')" "held (view (q_redis st')) s g i t"
    "rv_now (view (q_redis st')) = rv_now (view (q_redis st)) + elapsed [x]" "(g, i) \<notin> set as" by auto
  have "(g, i) \<notin> set (fst (run_ops R adv q xs st'))"
    by (rule Cons.IH) (use h Cons.prems e in auto)
  then show ?case using x h(4) by (auto split: prod.splits)
qed simp

end

end
