(* ===== verification/FakeRedis.thy ===== *)
theory FakeRedis
  imports QueueRuns "HOL-Library.Product_Lexorder"
begin

text \<open>
  The in-memory Redis Streams server of tests/queues/_fake_streams.py, against which the repository
  tests its queue store: ordered entries, consumer groups with a last delivered id and a pending
  list, a clock that is advanced by hand.  Its clock counts milliseconds here; the call recordings
  of the double and its non-stream commands are left out.  The interpretation at the end shows that
  it keeps the \<open>redis_streams\<close> contract.
\<close>

subsection \<open>Ids\<close>

definition id_key :: "string \<Rightarrow> int \<times> int" where
  "id_key message_id =
     (case py_partition (CHR ''-'') message_id of
        (left, _, right) \<Rightarrow>
          (case (py_int 10 left, if right = [] then Some 0 else py_int 10 right) of
             (Some a, Some b) \<Rightarrow> (a, b)
           | _ \<Rightarrow> (0, 0)))"

definition mint :: "nat \<Rightarrow> string" where
  "mint n = nat_digits 10 n @ ''-0''"

lemma id_key_mint [simp]: "id_key (mint n) = (int n, 0)"
proof -
  have "CHR ''-'' \<notin> set (nat_digits 10 n)"
    by (rule plain_digits_notin[of 10]) simp_all
  then have "py_partition (CHR ''-'') (nat_digits 10 n @ ''-'' @ ''0'') = (nat_digits 10 n, True, ''0'')"
    using py_partition_sep[of "CHR ''-''" "nat_digits 10 n" "''0''"] by simp
  moreover have "py_int 10 ''0'' = Some 0" by (simp add: py_int_def py_strip_def py_lstrip_def is_space_def
     py_int_magnitude_def digit_val_def)
  ultimately show ?thesis by (simp add: id_key_def mint_def py_int_nat_digits)
qed

lemma id_key_zero [simp]: "id_key ''0'' = (0, 0)" "id_key ''0-0'' = (0, 0)"
  by (simp_all add: id_key_def py_int_def py_strip_def py_lstrip_def is_space_def py_int_magnitude_def digit_val_def)

lemma mint_inj [simp]: "mint m = mint n \<longleftrightarrow> m = n"
  by (metis id_key_mint of_nat_eq_iff prod.inject)

subsection \<open>The server\<close>

record fake_group =
  fg_last_id :: string
  fg_pending :: "(string \<times> pending_entry) list"
  fg_consumers :: "(string \<times> int) list"

record fake_redis =
  fr_now :: int
  fr_streams :: "(string \<times> entry list) list"
  fr_groups :: "((string \<times> string) \<times> fake_group) list"
  fr_seq :: nat

definition fake_new :: "int \<Rightarrow> fake_redis" where
  "fake_new t = \<lparr>fr_now = t, fr_streams = [], fr_groups = [], fr_seq = 0\<rparr>"

definition fake_advance :: "int \<Rightarrow> fake_redis \<Rightarrow> fake_redis" where
  "fake_advance ms st = st\<lparr>fr_now := fr_now st + ms\<rparr>"

definition fake_entries :: "fake_redis \<Rightarrow> string \<Rightarrow> entry list" where
  "fake_entries st s = (case dict_get (fr_streams st) s of None \<Rightarrow> [] | Some es \<Rightarrow> es)"

definition set_entries :: "string \<Rightarrow> entry list \<Rightarrow> fake_redis \<Rightarrow> fake_redis" where
  "set_entries s es st = st\<lparr>fr_streams := dict_set s es (fr_streams st)\<rparr>"

definition set_group :: "string \<Rightarrow> string \<Rightarrow> fake_group \<Rightarrow> fake_redis \<Rightarrow> fake_redis" where
  "set_group s g fg st = st\<lparr>fr_groups := dict_set (s, g) fg (fr_groups st)\<rparr>"

definition idle_ms :: "fake_redis \<Rightarrow> pending_entry \<Rightarrow> int" where
  "idle_ms st p = fr_now st - pe_delivered_at p"

definition with_group :: "string \<Rightarrow> string \<Rightarrow> (fake_group \<Rightarrow> (string + 'a) \<times> fake_redis) \<Rightarrow> fake_redis \<Rightarrow>
    (string + 'a) \<times> fake_redis" where
  "with_group s g k st =
     (case dict_get (fr_groups st) (s, g) of
        None \<Rightarrow> (Inl ''NOGROUP No such consumer group'', st)
      | Some fg \<Rightarrow> k fg)"

definition fake_xadd :: "string \<Rightarrow> fields \<Rightarrow> int \<Rightarrow> fake_redis \<Rightarrow> (string + string) \<times> fake_redis" where
  "fake_xadd s f maxlen st =
     (let n = Suc (fr_seq st); i = mint n; es = fake_entries st s @ [(i, f)];
          es' = (if maxlen \<ge> 0 \<and> int (length es) > maxlen then drop (nat (int (length es) - maxlen)) es else es)
      in (Inr i, (set_entries s es' st)\<lparr>fr_seq := n\<rparr>))"

definition fake_xlen :: "string \<Rightarrow> fake_redis \<Rightarrow> (string + int) \<times> fake_redis" where
  "fake_xlen s st = (Inr (int (length (fake_entries st s))), st)"

definition fake_xdel :: "string \<Rightarrow> string \<Rightarrow> fake_redis \<Rightarrow> (string + int) \<times> fake_redis" where
  "fake_xdel s i st =
     (let es = fake_entries st s; es' = filter (\<lambda>e. fst e \<noteq> i) es
      in (Inr (int (length es) - int (length es')), set_entries s es' st))"

definition fake_xtrim0 :: "string \<Rightarrow> fake_redis \<Rightarrow> (string + int) \<times> fake_redis" where
  "fake_xtrim0 s st = (Inr 0, set_entries s [] st)"

definition fake_xgroup_create :: "string \<Rightarrow> string \<Rightarrow> string \<Rightarrow> fake_redis \<Rightarrow> (string + unit) \<times> fake_redis" where
  "fake_xgroup_create s g k st =
     (let st1 = st\<lparr>fr_streams := dict_setdefault s [] (fr_streams st)\<rparr>
      in if dict_get (fr_groups st1) (s, g) \<noteq> None then (Inl ''BUSYGROUP Consumer Group name already exists'', st1)
         else (let es = fake_entries st1 s;
                   start = (if k = ''$'' then (if es \<noteq> [] then fst (last es) else ''0-0'') else k)
               in (Inr (), set_group s g \<lparr>fg_last_id = start, fg_pending = [], fg_consumers = []\<rparr> st1)))"

definition fake_xgroup_destroy :: "string \<Rightarrow> string \<Rightarrow> fake_redis \<Rightarrow> (string + int) \<times> fake_redis" where
  "fake_xgroup_destroy s g st =
     (Inr (if dict_get (fr_groups st) (s, g) \<noteq> None then 1 else 0), st\<lparr>fr_groups := dict_del (s, g) (fr_groups st)\<rparr>)"

definition fake_xgroup_delconsumer :: "string \<Rightarrow> string \<Rightarrow> string \<Rightarrow> fake_redis \<Rightarrow> (string + int) \<times> fake_redis" where
  "fake_xgroup_delconsumer s g c st =
     with_group s g (\<lambda>fg. (Inr 0, set_group s g (fg\<lparr>fg_consumers := dict_del c (fg_consumers fg)\<rparr>) st)) st"

definition undelivered :: "fake_redis \<Rightarrow> string \<Rightarrow> fake_group \<Rightarrow> entry list" where
  "undelivered st s fg = filter (\<lambda>e. id_key (fst e) > id_key (fg_last_id fg)) (fake_entries st s)"

definition fake_xinfo_groups :: "string \<Rightarrow> fake_redis \<Rightarrow> (string + group_info list) \<times> fake_redis" where
  "fake_xinfo_groups s st =
     (Inr (map (\<lambda>((_, g), fg). \<lparr>gi_name = g, gi_pending = Some (int (length (fg_pending fg))),
            gi_lag = Some (int (length (undelivered st s fg)))\<rparr>)
          (filter (\<lambda>((t, _), _). t = s) (fr_groups st))), st)"

definition fake_xinfo_consumers :: "string \<Rightarrow> string \<Rightarrow> fake_redis \<Rightarrow> (string + consumer_info list) \<times> fake_redis" where
  "fake_xinfo_consumers s g st =
     with_group s g (\<lambda>fg. (Inr (map (\<lambda>(c, last_seen). \<lparr>ci_name = c,
          ci_pending = int (length (filter (\<lambda>(_, p). pe_consumer p = c) (fg_pending fg))),
          ci_idle = fr_now st - last_seen\<rparr>) (fg_consumers fg)), st)) st"

definition fake_xreadgroup ::
    "string \<Rightarrow> string \<Rightarrow> string \<Rightarrow> nat \<Rightarrow> int option \<Rightarrow> fake_redis \<Rightarrow> (string + (string \<times> entry list) list) \<times> fake_redis" where
  "fake_xreadgroup s g c count block st =
     with_group s g (\<lambda>fg.
       (let fg1 = fg\<lparr>fg_consumers := dict_set c (fr_now st) (fg_consumers fg)\<rparr>;
            fresh = take_count count (undelivered st s fg)
        in if fresh = [] then (Inr [], set_group s g fg1 st)
           else (Inr [(s, fresh)],
             set_group s g (fg1\<lparr>fg_pending := fold (\<lambda>(i, _). dict_set i
                 \<lparr>pe_consumer = c, pe_delivered_at = fr_now st, pe_times = 1\<rparr>) fresh (fg_pending fg),
               fg_last_id := fst (last fresh)\<rparr>) st))) st"

definition fake_xack :: "string \<Rightarrow> string \<Rightarrow> string \<Rightarrow> fake_redis \<Rightarrow> (string + int) \<times> fake_redis" where
  "fake_xack s g i st =
     with_group s g (\<lambda>fg. (Inr (if dict_get (fg_pending fg) i \<noteq> None then 1 else 0),
        set_group s g (fg\<lparr>fg_pending := dict_del i (fg_pending fg)\<rparr>) st)) st"

text \<open>The scans go through the pending entries in the order of their ids.\<close>

definition by_id :: "(string \<times> pending_entry) list \<Rightarrow> (string \<times> pending_entry) list" where
  "by_id ps = sort_key (\<lambda>m. id_key (fst m)) ps"

definition fake_xpending_range ::
    "string \<Rightarrow> string \<Rightarrow> string \<Rightarrow> string \<Rightarrow> nat \<Rightarrow> int option \<Rightarrow> fake_redis \<Rightarrow> (string + (string \<times> int) list) \<times> fake_redis" where
  "fake_xpending_range s g lo hi count idle st =
     with_group s g (\<lambda>fg. (Inr (map (\<lambda>(i, p). (i, pe_times p)) (take_count count (filter (\<lambda>(i, p).
          (lo = ''-'' \<or> id_key i \<ge> id_key lo) \<and> (hi = ''+'' \<or> id_key i \<le> id_key hi)
          \<and> (case idle of None \<Rightarrow> True | Some t \<Rightarrow> idle_ms st p \<ge> t)) (by_id (fg_pending fg))))), st)) st"

text \<open>
  The loop of \<open>xautoclaim\<close>: the entries claimed and the pending entries left, with the number still
  wanted (zero: no limit).
\<close>

fun claim_loop :: "fake_redis \<Rightarrow> string \<Rightarrow> int \<Rightarrow> entry list \<Rightarrow> nat \<Rightarrow> (string \<times> pending_entry) list \<Rightarrow>
    entry list \<times> (string \<times> pending_entry) list" where
  "claim_loop st c min_idle es n [] = ([], [])"
| "claim_loop st c min_idle es n ((i, p) # ps) =
     (if id_key i < id_key ''0-0'' \<or> idle_ms st p < min_idle
      then (case claim_loop st c min_idle es n ps of (cl, left) \<Rightarrow> (cl, (i, p) # left))
      else (case dict_get es i of
              None \<Rightarrow> claim_loop st c min_idle es n ps
            | Some f \<Rightarrow>
                (let p' = \<lparr>pe_consumer = c, pe_delivered_at = fr_now st, pe_times = pe_times p + 1\<rparr>
                 in if n = 1 then ([(i, f)], (i, p') # ps)
                    else (case claim_loop st c min_idle es (n - 1) ps of (cl, left) \<Rightarrow> ((i, f) # cl, (i, p') # left)))))"

definition fake_xautoclaim :: "string \<Rightarrow> string \<Rightarrow> string \<Rightarrow> int \<Rightarrow> nat \<Rightarrow> fake_redis \<Rightarrow> (string + entry list) \<times> fake_redis" where
  "fake_xautoclaim s g c min_idle count st =
     with_group s g (\<lambda>fg.
       (case claim_loop st c min_idle (fake_entries st s) count (by_id (fg_pending fg)) of
          (cl, left) \<Rightarrow> (Inr cl, set_group s g (fg\<lparr>fg_consumers := dict_setdefault c 1000 (fg_consumers fg),
             fg_pending := left\<rparr>) st))) st"

definition fake_xclaim :: "string \<Rightarrow> string \<Rightarrow> string \<Rightarrow> string list \<Rightarrow> int \<Rightarrow> fake_redis \<Rightarrow> (string + unit) \<times> fake_redis" where
  "fake_xclaim s g c ids idle st =
     with_group s g (\<lambda>fg. (Inr (), set_group s g (fg\<lparr>fg_consumers := dict_setdefault c 1000 (fg_consumers fg),
        fg_pending := map (\<lambda>(i, p). (i, if i \<in> set ids \<and> \<not> idle_ms st p < 0
          then p\<lparr>pe_consumer := c, pe_delivered_at := fr_now st - idle\<rparr> else p)) (fg_pending fg)\<rparr>) st)) st"

definition fake_ops :: "fake_redis redis_ops" where
  "fake_ops = \<lparr>xgroup_create = fake_xgroup_create, xadd = fake_xadd, xpending_range = fake_xpending_range,
     xautoclaim = fake_xautoclaim, xreadgroup = fake_xreadgroup, xclaim = fake_xclaim, xack = fake_xack, xdel = fake_xdel,
     xlen = fake_xlen, xtrim0 = fake_xtrim0, xgroup_destroy = fake_xgroup_destroy, xinfo_groups = fake_xinfo_groups,
     xinfo_consumers = fake_xinfo_consumers, xgroup_delconsumer = fake_xgroup_delconsumer\<rparr>"

subsection \<open>View and invariant\<close>

definition fake_view :: "fake_redis \<Rightarrow> redis_view" where
  "fake_view st =
     \<lparr>rv_now = fr_now st, rv_log = fake_entries st,
      rv_grp = (\<lambda>(s, g). map_option (\<lambda>fg. \<lparr>gv_pend = fg_pending fg, gv_fresh = undelivered st s fg\<rparr>)
        (dict_get (fr_groups st) (s, g))),
      rv_minted = (\<lambda>_. mint ` {1..fr_seq st})\<rparr>"

definition ids_ok :: "nat \<Rightarrow> (string \<times> 'a) list \<Rightarrow> bool" where
  "ids_ok n xs \<longleftrightarrow> sorted_wrt (<) (map (\<lambda>m. id_key (fst m)) xs) \<and> fst ` set xs \<subseteq> mint ` {1..n}"

definition group_ok :: "int \<Rightarrow> nat \<Rightarrow> fake_group \<Rightarrow> bool" where
  "group_ok t n fg \<longleftrightarrow> ids_ok n (fg_pending fg) \<and> (\<forall>m \<in> set (fg_pending fg). id_key (fst m) \<le> id_key (fg_last_id fg))
     \<and> (0, 0) \<le> id_key (fg_last_id fg) \<and> id_key (fg_last_id fg) \<le> (int n, 0)
     \<and> (\<forall>m \<in> set (fg_pending fg). pe_delivered_at (snd m) \<le> t)"

definition fake_inv :: "fake_redis \<Rightarrow> bool" where
  "fake_inv st \<longleftrightarrow> distinct (map fst (fr_groups st)) \<and> (\<forall>s. ids_ok (fr_seq st) (fake_entries st s))
     \<and> (\<forall>s g fg. dict_get (fr_groups st) (s, g) = Some fg \<longrightarrow> group_ok (fr_now st) (fr_seq st) fg)"

subsection \<open>Facts\<close>

lemma ids_ok_by_id: "ids_ok n ps \<Longrightarrow> by_id ps = ps"
  unfolding by_id_def ids_ok_def
  by (rule sort_key_id_if_sorted) (auto simp: sorted_wrt_map sorted_map intro: sorted_wrt_mono_rel[rotated])

lemma ids_ok_distinct_keys: "ids_ok n xs \<Longrightarrow> distinct (map (\<lambda>m. id_key (fst m)) xs)"
  unfolding ids_ok_def by (auto dest: strict_sorted_imp_sorted simp: strict_sorted_iff)

lemma ids_ok_distinct: "ids_ok n xs \<Longrightarrow> distinct (map fst xs)"
  using ids_ok_distinct_keys[of n xs] distinct_map[of id_key "map fst xs"] by (simp add: comp_def)

lemma ids_ok_filter: "ids_ok n xs \<Longrightarrow> ids_ok n (filter P xs)"
  by (auto simp: ids_ok_def sorted_wrt_map sorted_wrt_filter)

lemma ids_ok_keys: "map fst ys = map fst xs \<Longrightarrow> ids_ok n xs \<Longrightarrow> ids_ok n ys"
proof -
  assume e: "map fst ys = map fst xs" and o: "ids_ok n xs"
  have "map (\<lambda>m. id_key (fst m)) ys = map id_key (map fst ys)" "map (\<lambda>m. id_key (fst m)) xs = map id_key (map fst xs)"
    by simp_all
  moreover have "fst ` set ys = fst ` set xs" using e by (metis list.set_map)
  ultimately show ?thesis using o e unfolding ids_ok_def by metis
qed

lemma ids_ok_mono: "ids_ok n xs \<Longrightarrow> n \<le> m \<Longrightarrow> ids_ok m xs"
  using image_mono[of "{1..n}" "{1..m}" mint] unfolding ids_ok_def by force

lemma ids_ok_drop: "ids_ok n xs \<Longrightarrow> ids_ok n (drop k xs)"
  by (auto simp: ids_ok_def drop_map[symmetric] sorted_wrt_drop dest!: in_set_dropD)

lemma fake_entries_simps [simp]:
  "fake_entries (set_entries s es st) t = (if t = s then es else fake_entries st t)"
  "fake_entries (set_group s g fg st) t = fake_entries st t"
  "fake_entries (st\<lparr>fr_groups := gs\<rparr>) t = fake_entries st t"
  "fake_entries (st\<lparr>fr_seq := n\<rparr>) t = fake_entries st t"
  "fake_entries (st\<lparr>fr_now := d\<rparr>) t = fake_entries st t"
  "fake_entries (st\<lparr>fr_streams := dict_setdefault s [] (fr_streams st)\<rparr>) t = fake_entries st t"
  by (auto simp: fake_entries_def set_entries_def set_group_def split: option.splits)

lemma fake_record_simps [simp]:
  "fr_now (set_entries s es st) = fr_now st" "fr_groups (set_entries s es st) = fr_groups st" "fr_seq (set_entries s es st) = fr_seq st"
  "fr_now (set_group s g fg st) = fr_now st" "fr_seq (set_group s g fg st) = fr_seq st"
  "fr_groups (set_group s g fg st) = dict_set (s, g) fg (fr_groups st)"
  by (simp_all add: set_entries_def set_group_def)

lemma undelivered_cong: "fake_entries st s = fake_entries st' s \<Longrightarrow> undelivered st s fg = undelivered st' s fg"
  by (simp add: undelivered_def)

lemma undelivered_set_group [simp]: "undelivered (set_group t g fg st) s fh = undelivered st s fh"
  by (simp add: undelivered_def)

text \<open>Replacing one group of the server is replacing its view.\<close>

lemma view_set_group:
  "fake_view (set_group s g fg st) = set_grp s g \<lparr>gv_pend = fg_pending fg, gv_fresh = undelivered st s fg\<rparr> (fake_view st)"
  unfolding fake_view_def set_grp_def
  by (rule redis_view.equality) (auto simp: fun_eq_iff)

lemma inv_set_group:
  "fake_inv st \<Longrightarrow> group_ok (fr_now st) (fr_seq st) fg \<Longrightarrow> fake_inv (set_group s g fg st)"
  by (auto simp: fake_inv_def)

lemma view_grp: "rv_grp (fake_view st) (s, g) = Some gv \<Longrightarrow> \<exists>fg. dict_get (fr_groups st) (s, g) = Some fg
    \<and> gv = \<lparr>gv_pend = fg_pending fg, gv_fresh = undelivered st s fg\<rparr>"
  by (auto simp: fake_view_def)

lemma view_simps [simp]: "rv_now (fake_view st) = fr_now st" "rv_log (fake_view st) = fake_entries st"
  "rv_minted (fake_view st) s = mint ` {1..fr_seq st}"
  by (simp_all add: fake_view_def)

lemma inv_group: "fake_inv st \<Longrightarrow> dict_get (fr_groups st) (s, g) = Some fg \<Longrightarrow> group_ok (fr_now st) (fr_seq st) fg"
  by (simp add: fake_inv_def)

lemma fake_wf: assumes "fake_inv st" shows "wf_view (fake_view st)"
proof -
  have e: "ids_ok (fr_seq st) (fake_entries st s)" for s using assms by (simp add: fake_inv_def)
  have "wf_group (fake_entries st s) gv \<and> fst ` set (gv_pend gv) \<subseteq> mint ` {1..fr_seq st}"
    if "rv_grp (fake_view st) (s, g) = Some gv" for s g gv
  proof -
    obtain fg where fg: "dict_get (fr_groups st) (s, g) = Some fg" "gv = \<lparr>gv_pend = fg_pending fg, gv_fresh = undelivered st s fg\<rparr>"
      using view_grp \<open>rv_grp (fake_view st) (s, g) = Some gv\<close> by blast
    have k: "group_ok (fr_now st) (fr_seq st) fg" by (rule inv_group[OF assms fg(1)])
    have "id_key (fst m) \<le> id_key (fg_last_id fg)" if "m \<in> set (fg_pending fg)" for m using k that by (simp add: group_ok_def)
    then have "fst ` set (fg_pending fg) \<inter> fst ` set (undelivered st s fg) = {}" by (fastforce simp: undelivered_def)
    moreover have "distinct (map fst (undelivered st s fg))"
      using ids_ok_distinct[OF ids_ok_filter[OF e]] by (simp add: undelivered_def)
    ultimately show ?thesis
      using k ids_ok_distinct[of "fr_seq st" "fg_pending fg"] fg(2) by (auto simp: wf_group_def group_ok_def ids_ok_def undelivered_def)
  qed
  then show ?thesis using ids_ok_distinct[OF e] e by (auto simp: wf_view_def ids_ok_def)
qed

subsection \<open>The commands keep the contract\<close>

lemma fake_group_exists:
  "rv_grp (fake_view st) (s, g) = Some gv \<Longrightarrow> with_group s g k st = k (the (dict_get (fr_groups st) (s, g)))"
  by (auto simp: with_group_def fake_view_def)

lemma fake_create_new:
  assumes "fake_inv st" "rv_grp (fake_view st) (s, g) = None" "k \<in> {''0'', ''$''}"
  shows "\<exists>r'. fake_xgroup_create s g k st = (Inr (), r') \<and> fake_inv r' \<and>
        fake_view r' = set_grp s g \<lparr>gv_pend = [], gv_fresh = (if k = ''0'' then rv_log (fake_view st) s else [])\<rparr> (fake_view st)"
proof -
  let ?st1 = "st\<lparr>fr_streams := dict_setdefault s [] (fr_streams st)\<rparr>"
  let ?es = "fake_entries st s"
  let ?start = "if k = ''$'' then (if ?es \<noteq> [] then fst (last ?es) else ''0-0'') else k"
  let ?fg = "\<lparr>fg_last_id = ?start, fg_pending = [], fg_consumers = []\<rparr>"
  have none: "dict_get (fr_groups st) (s, g) = None" using assms(2) by (simp add: fake_view_def)
  have e: "ids_ok (fr_seq st) ?es" using assms(1) by (simp add: fake_inv_def)
  have ks: "\<exists>n. id_key (fst m) = (int n, 0) \<and> 1 \<le> n \<and> n \<le> fr_seq st" if "m \<in> set ?es" for m
    using e that by (force simp: ids_ok_def)
  have lastk: "id_key (fst m) \<le> id_key (fst (last ?es))" if "m \<in> set ?es" for m
  proof -
    have "?es \<noteq> []" using that by auto
    then have "?es = butlast ?es @ [last ?es]" by simp
    then have "sorted_wrt (<) (map (\<lambda>m. id_key (fst m)) (butlast ?es @ [last ?es]))" using e by (simp add: ids_ok_def)
    then have "\<forall>x \<in> set (butlast ?es). id_key (fst x) < id_key (fst (last ?es))" by (simp add: sorted_wrt_append)
    moreover have "m \<in> set (butlast ?es) \<or> m = last ?es" using that \<open>?es = butlast ?es @ [last ?es]\<close>
      by (metis UnE empty_iff empty_set set_ConsD set_append)
    ultimately show ?thesis by auto
  qed
  have start: "(0, 0) \<le> id_key ?start" "id_key ?start \<le> (int (fr_seq st), 0)"
  proof -
    have "(0, 0) \<le> id_key (fst (last ?es)) \<and> id_key (fst (last ?es)) \<le> (int (fr_seq st), 0)" if "?es \<noteq> []"
      using ks[of "last ?es"] that by auto
    then show "(0, 0) \<le> id_key ?start" "id_key ?start \<le> (int (fr_seq st), 0)" using assms(3) by auto
  qed
  have u: "undelivered st s ?fg = (if k = ''0'' then ?es else [])"
  proof (cases "k = ''0''")
    case True
    have "(0, 0) < id_key (fst m)" if "m \<in> set ?es" for m using ks[OF that] by auto
    then show ?thesis using True by (simp add: undelivered_def)
  next
    case False
    then have "k = ''$''" using assms(3) by simp
    then show ?thesis using lastk by (auto simp: undelivered_def not_less filter_empty_conv)
  qed
  have g: "group_ok (fr_now st) (fr_seq st) ?fg" using start by (simp add: group_ok_def ids_ok_def)
  have i1: "fake_inv ?st1" using assms(1) by (simp add: fake_inv_def)
  have v1: "fake_view ?st1 = fake_view st"
    unfolding fake_view_def by (rule redis_view.equality) (auto simp: fun_eq_iff undelivered_def)
  have "fake_xgroup_create s g k st = (Inr (), set_group s g ?fg ?st1)"
    using none by (simp add: fake_xgroup_create_def Let_def)
  moreover have "fake_inv (set_group s g ?fg ?st1)" using inv_set_group[OF i1] g by simp
  moreover have "undelivered ?st1 s ?fg = undelivered st s ?fg" by (rule undelivered_cong) simp
  ultimately show ?thesis using u by (simp add: view_set_group v1)
qed

lemma fake_create_busy:
  assumes "fake_inv st" "rv_grp (fake_view st) (s, g) = Some gv"
  shows "\<exists>e r'. fake_xgroup_create s g k st = (Inl e, r') \<and> busygroup e \<and> fake_inv r' \<and> fake_view r' = fake_view st"
proof -
  let ?st1 = "st\<lparr>fr_streams := dict_setdefault s [] (fr_streams st)\<rparr>"
  have "fake_inv ?st1" using assms(1) by (simp add: fake_inv_def)
  moreover have "fake_view ?st1 = fake_view st"
    unfolding fake_view_def by (rule redis_view.equality) (auto simp: fun_eq_iff undelivered_def)
  moreover have "busygroup (''BUSYGROUP Consumer Group name already exists'')" by (simp add: busygroup_def)
  moreover have "dict_get (fr_groups st) (s, g) \<noteq> None" using assms(2) by (auto simp: fake_view_def)
  ultimately show ?thesis by (auto simp: fake_xgroup_create_def Let_def)
qed

lemma ids_ok_append: "ids_ok n xs \<Longrightarrow> ids_ok (Suc n) (xs @ [(mint (Suc n), f)])"
  by (force simp: ids_ok_def sorted_wrt_append)

lemma filter_in_drop: "distinct xs \<Longrightarrow> filter (\<lambda>x. x \<in> set (drop k xs)) xs = drop k xs"
proof -
  assume d: "distinct xs"
  have "filter (\<lambda>x. x \<in> set (drop k xs)) (take k xs @ drop k xs) = drop k xs"
    using d set_take_disj_set_drop_if_distinct[of xs k k] by (simp only: filter_append) (auto simp: filter_empty_conv)
  then show ?thesis by simp
qed

lemma group_ok_mono: "group_ok t n fg \<Longrightarrow> n \<le> m \<Longrightarrow> t \<le> u \<Longrightarrow> group_ok u m fg"
proof -
  assume a: "group_ok t n fg" "n \<le> m" "t \<le> u"
  have "id_key (fg_last_id fg) \<le> (int n, 0)" using a(1) by (simp add: group_ok_def)
  also have "\<dots> \<le> (int m, 0)" using a(2) by simp
  finally show ?thesis using a ids_ok_mono[of n "fg_pending fg" m] by (fastforce simp: group_ok_def)
qed

lemma fake_add:
  assumes "fake_inv st" "0 < m"
  shows "\<exists>i r' k. fake_xadd s f m st = (Inr i, r') \<and> fake_inv r' \<and> i \<notin> rv_minted (fake_view st) s
        \<and> i \<in> rv_minted (fake_view r') s \<and> (\<forall>t. rv_minted (fake_view st) t \<subseteq> rv_minted (fake_view r') t)
        \<and> int k \<le> max 0 (int (length (rv_log (fake_view st) s)) + 1 - m)
        \<and> rv_now (fake_view r') = rv_now (fake_view st)
        \<and> rv_log (fake_view r') = (rv_log (fake_view st))(s := drop k (rv_log (fake_view st) s @ [(i, f)]))
        \<and> (\<forall>t g. rv_grp (fake_view r') (t, g) =
             (if t = s then map_option (\<lambda>gv. gv\<lparr>gv_fresh := filter (\<lambda>x. x \<in> set (rv_log (fake_view r') s)) (gv_fresh gv @ [(i, f)])\<rparr>)
                (rv_grp (fake_view st) (t, g)) else rv_grp (fake_view st) (t, g)))"
proof -
  let ?n = "Suc (fr_seq st)" and ?es = "fake_entries st s"
  let ?new = "(mint ?n, f)"
  let ?k = "if int (length (?es @ [?new])) > m then nat (int (length (?es @ [?new])) - m) else 0"
  let ?es' = "drop ?k (?es @ [?new])"
  let ?st' = "(set_entries s ?es' st)\<lparr>fr_seq := ?n\<rparr>"
  have e: "ids_ok (fr_seq st) (fake_entries st t)" for t using assms(1) by (simp add: fake_inv_def)
  have r: "fake_xadd s f m st = (Inr (mint ?n), ?st')"
    using assms(2) by (simp add: fake_xadd_def Let_def)
  have en: "fake_entries ?st' t = (if t = s then ?es' else fake_entries st t)" for t by simp
  have "ids_ok ?n (fake_entries ?st' t)" for t
    using ids_ok_drop[OF ids_ok_append[OF e]] ids_ok_mono[OF e] by (simp add: en)
  moreover have "group_ok (fr_now st) ?n fg" if "dict_get (fr_groups st) (t, g) = Some fg" for t g fg
    using group_ok_mono[OF inv_group[OF assms(1) that]] by simp
  ultimately have i: "fake_inv ?st'" using assms(1) by (simp add: fake_inv_def)
  have "distinct (?es @ [?new])"
    using ids_ok_distinct[OF ids_ok_append[OF e[of s], of f]] by (metis distinct_map)
  then have fd: "filter (\<lambda>x. x \<in> set ?es') (?es @ [?new]) = ?es'" by (rule filter_in_drop)
  have u: "undelivered ?st' s fg = filter (\<lambda>x. x \<in> set ?es') (undelivered st s fg @ [?new])"
    if "dict_get (fr_groups st) (s, g) = Some fg" for g fg
  proof -
    have "id_key (fg_last_id fg) \<le> (int (fr_seq st), 0)" using inv_group[OF assms(1) that] by (simp add: group_ok_def)
    then have "id_key (fg_last_id fg) < id_key (mint ?n)" by (rule le_less_trans) simp
    then have "undelivered st s fg @ [?new] = filter (\<lambda>e. id_key (fg_last_id fg) < id_key (fst e)) (?es @ [?new])"
      by (simp add: undelivered_def)
    then have "filter (\<lambda>x. x \<in> set ?es') (undelivered st s fg @ [?new])
       = filter (\<lambda>e. id_key (fg_last_id fg) < id_key (fst e)) (filter (\<lambda>x. x \<in> set ?es') (?es @ [?new]))"
      by (simp only: filter_filter conj_commute)
    also have "\<dots> = filter (\<lambda>e. id_key (fg_last_id fg) < id_key (fst e)) ?es'" by (simp only: fd)
    also have "\<dots> = undelivered ?st' s fg" by (simp add: undelivered_def)
    finally show ?thesis by simp
  qed
  have o: "undelivered ?st' t fg = undelivered st t fg" if "t \<noteq> s" for t fg
    by (rule undelivered_cong) (use that in simp)
  have grp: "rv_grp (fake_view ?st') (t, g) =
             (if t = s then map_option (\<lambda>gv. gv\<lparr>gv_fresh := filter (\<lambda>x. x \<in> set ?es') (gv_fresh gv @ [?new])\<rparr>)
                (rv_grp (fake_view st) (t, g)) else rv_grp (fake_view st) (t, g))" for t g
    using u[of g] o[of t] by (cases "dict_get (fr_groups st) (t, g)") (auto simp: fake_view_def simp del: filter_append)
  have lg: "rv_log (fake_view ?st') = (rv_log (fake_view st))(s := ?es')" by (auto simp: fun_eq_iff)
  show ?thesis
    by (rule exI[of _ "mint ?n"], rule exI[of _ ?st'], rule exI[of _ ?k])
      (use r i lg grp assms(2) in \<open>auto simp del: fun_upd_apply drop_append\<close>)
qed

text \<open>A command on an existing group that changes only that group.\<close>

lemma on_group:
  assumes "fake_inv st" "rv_grp (fake_view st) (s, g) = Some gv"
  obtains fg where "dict_get (fr_groups st) (s, g) = Some fg" "gv = \<lparr>gv_pend = fg_pending fg, gv_fresh = undelivered st s fg\<rparr>"
    "group_ok (fr_now st) (fr_seq st) fg" "by_id (fg_pending fg) = fg_pending fg"
proof -
  obtain fg where "dict_get (fr_groups st) (s, g) = Some fg" "gv = \<lparr>gv_pend = fg_pending fg, gv_fresh = undelivered st s fg\<rparr>"
    using view_grp[OF assms(2)] by blast
  moreover from this(1) have "group_ok (fr_now st) (fr_seq st) fg" by (rule inv_group[OF assms(1)])
  moreover from this have "by_id (fg_pending fg) = fg_pending fg" using ids_ok_by_id by (auto simp: group_ok_def)
  ultimately show ?thesis using that by blast
qed

lemma fake_pending:
  assumes "fake_inv st" "rv_grp (fake_view st) (s, g) = Some gv"
  shows "\<exists>r'. fake_xpending_range s g ''-'' ''+'' n (Some idle) st =
          (Inr (map (\<lambda>(i, p). (i, pe_times p)) (take_count n (filter (\<lambda>(i, p). idle_since (fake_view st) idle p) (gv_pend gv)))), r')
        \<and> fake_inv r' \<and> fake_view r' = fake_view st"
proof -
  obtain fg where fg: "dict_get (fr_groups st) (s, g) = Some fg" "gv = \<lparr>gv_pend = fg_pending fg, gv_fresh = undelivered st s fg\<rparr>"
    "by_id (fg_pending fg) = fg_pending fg" by (rule on_group[OF assms])
  have "(\<lambda>(i, p). (''-'' = ''-'' \<or> id_key i \<ge> id_key ''-'') \<and> (''+'' = ''+'' \<or> id_key i \<le> id_key ''+'')
          \<and> (case Some idle of None \<Rightarrow> True | Some t \<Rightarrow> idle_ms st p \<ge> t)) = (\<lambda>(i, p). idle_since (fake_view st) idle p)"
    by (simp add: fun_eq_iff idle_since_def idle_ms_def)
  then show ?thesis using fg assms(1)
    by (simp add: fake_xpending_range_def with_group_def)
qed

lemma filter_one_id:
  "ids_ok n ps \<Longrightarrow> map_of ps i = Some p \<Longrightarrow> filter (\<lambda>m. id_key (fst m) \<ge> id_key i \<and> id_key (fst m) \<le> id_key i) ps = [(i, p)]"
proof (induction ps)
  case (Cons m ps)
  have d: "\<forall>x \<in> set ps. id_key (fst m) \<noteq> id_key (fst x)"
    using ids_ok_distinct_keys[OF Cons.prems(1)] by force
  have o: "ids_ok n ps" using Cons.prems(1) by (auto simp: ids_ok_def)
  show ?case
  proof (cases "fst m = i")
    case True
    then have "m = (i, p)" using Cons.prems(2) by (cases m) auto
    moreover have "filter (\<lambda>m. id_key (fst m) \<ge> id_key i \<and> id_key (fst m) \<le> id_key i) ps = []"
      using d True by (auto simp: filter_empty_conv)
    ultimately show ?thesis by simp
  next
    case False
    then have mp: "map_of ps i = Some p" using Cons.prems(2) by (cases m) auto
    then have "(i, p) \<in> set ps" by (rule map_of_SomeD)
    then have "id_key (fst m) \<noteq> id_key i" using d by force
    then have "\<not> (id_key (fst m) \<ge> id_key i \<and> id_key (fst m) \<le> id_key i)" by auto
    then show ?thesis using Cons.IH[OF o mp] by simp
  qed
qed simp

lemma fake_pending_one:
  assumes "fake_inv st" "rv_grp (fake_view st) (s, g) = Some gv" "map_of (gv_pend gv) i = Some p"
  shows "\<exists>r'. fake_xpending_range s g i i 1 None st = (Inr [(i, pe_times p)], r') \<and> fake_inv r' \<and> fake_view r' = fake_view st"
proof -
  obtain fg where fg: "dict_get (fr_groups st) (s, g) = Some fg" "gv = \<lparr>gv_pend = fg_pending fg, gv_fresh = undelivered st s fg\<rparr>"
    "group_ok (fr_now st) (fr_seq st) fg" "by_id (fg_pending fg) = fg_pending fg" by (rule on_group[OF assms(1,2)])
  have mp: "map_of (fg_pending fg) i = Some p" using assms(3) fg(2) by simp
  have o: "ids_ok (fr_seq st) (fg_pending fg)" using fg(3) by (simp add: group_ok_def)
  have "i \<in> fst ` set (fg_pending fg)" using map_of_SomeD[OF mp] by force
  then have "i \<in> mint ` {1..fr_seq st}" using o by (auto simp: ids_ok_def)
  then have "(0, 0) < id_key i" by auto
  then have "i \<noteq> ''-''" "i \<noteq> ''+''" by (auto simp: id_key_def py_int_def py_strip_def py_lstrip_def is_space_def py_int_magnitude_def)
  then have "(\<lambda>(j, p). (i = ''-'' \<or> id_key j \<ge> id_key i) \<and> (i = ''+'' \<or> id_key j \<le> id_key i)
          \<and> (case None of None \<Rightarrow> True | Some t \<Rightarrow> idle_ms st p \<ge> t)) = (\<lambda>m. id_key (fst m) \<ge> id_key i \<and> id_key (fst m) \<le> id_key i)"
    by (auto simp: fun_eq_iff)
  then show ?thesis using fg assms(1) filter_one_id[OF o mp]
    by (simp add: fake_xpending_range_def with_group_def take_count_def)
qed

lemma fake_pending_other:
  assumes "fake_inv st" "rv_grp (fake_view st) (s, g) = Some gv"
  shows "\<exists>ps r'. fake_xpending_range s g i i 1 None st = (Inr ps, r') \<and> fake_inv r' \<and> fake_view r' = fake_view st"
proof -
  obtain fg where "dict_get (fr_groups st) (s, g) = Some fg" by (rule on_group[OF assms])
  then show ?thesis using assms(1) by (simp add: fake_xpending_range_def with_group_def)
qed

lemma claim_loop_spec:
  assumes "distinct (map fst ps)" "\<forall>m \<in> set ps. (0, 0) \<le> id_key (fst m)"
  shows "\<exists>D. (\<forall>i \<in> D. dict_get es i = None) \<and> claim_loop st c idle es n ps =
    (map (\<lambda>m. (fst m, the (dict_get es (fst m)))) (take_count n (filter (\<lambda>(i, p). idle \<le> idle_ms st p \<and> dict_get es i \<noteq> None) ps)),
     touch (set (map fst (take_count n (filter (\<lambda>(i, p). idle \<le> idle_ms st p \<and> dict_get es i \<noteq> None) ps))))
       (leased_by c (fr_now st)) (forget D ps))"
  using assms
proof (induction ps arbitrary: n)
  case Nil
  then show ?case by (auto simp: take_count_def touch_def forget_def)
next
  case (Cons m ps)
  obtain i p where m: "m = (i, p)" by force
  let ?F = "filter (\<lambda>(i, p). idle \<le> idle_ms st p \<and> dict_get es i \<noteq> None)"
  have ni: "i \<notin> fst ` set ps" "distinct (map fst ps)" "\<forall>m \<in> set ps. (0, 0) \<le> id_key (fst m)" using Cons.prems m by auto
  have nk: "\<not> id_key i < id_key ''0-0''" using Cons.prems(2) m by auto
  have sub: "set (map fst (take_count k (?F ps))) \<subseteq> fst ` set ps" for k
    using set_take_count[of k "?F ps"] by auto
  have touch_cons: "touch X f (forget D (m # ps)) = (if i \<in> D then touch X f (forget D ps)
      else (i, if i \<in> X then f p else p) # touch X f (forget D ps))" for X f D
    by (simp add: touch_def forget_def m)
  have touch_insert: "touch (insert i X) f (forget D ps) = touch X f (forget D ps)" for X f D
    unfolding touch_def by (rule map_cong[OF refl]) (use ni(1) in \<open>force simp: forget_def\<close>)
  have keep: "forget D ps = forget (D - {i}) ps" for D :: "string set"
    using ni(1) unfolding forget_def by (intro filter_cong) force+
  consider (young) "idle_ms st p < idle" | (dead) "idle \<le> idle_ms st p" "dict_get es i = None"
    | (in_stream) f where "idle \<le> idle_ms st p" "dict_get es i = Some f" by force
  then show ?case
  proof cases
    case young
    obtain D where D: "\<forall>i \<in> D. dict_get es i = None" "claim_loop st c idle es n ps =
      (map (\<lambda>m. (fst m, the (dict_get es (fst m)))) (take_count n (?F ps)),
       touch (set (map fst (take_count n (?F ps)))) (leased_by c (fr_now st)) (forget D ps))"
      using Cons.IH[OF ni(2,3), of n] by blast
    have iX: "i \<notin> set (map fst (take_count n (?F ps)))" using sub ni(1) by blast
    have "touch (set (map fst (take_count n (?F ps)))) (leased_by c (fr_now st)) (forget (D - {i}) (m # ps))
        = (i, p) # touch (set (map fst (take_count n (?F ps)))) (leased_by c (fr_now st)) (forget D ps)"
      unfolding touch_cons using iX keep[of D] by simp
    then show ?thesis using young D nk m by (intro exI[of _ "D - {i}"]) auto
  next
    case dead
    obtain D where D: "\<forall>i \<in> D. dict_get es i = None" "claim_loop st c idle es n ps =
      (map (\<lambda>m. (fst m, the (dict_get es (fst m)))) (take_count n (?F ps)),
       touch (set (map fst (take_count n (?F ps)))) (leased_by c (fr_now st)) (forget D ps))"
      using Cons.IH[OF ni(2,3), of n] by blast
    have "forget (insert i D) ps = forget D ps" using keep[of "insert i D"] keep[of D] by simp
    then have "touch X f (forget (insert i D) (m # ps)) = touch X f (forget D ps)" for X f unfolding touch_cons by simp
    then show ?thesis using dead D nk m by (intro exI[of _ "insert i D"]) auto
  next
    case in_stream
    have F: "?F (m # ps) = m # ?F ps" using in_stream m by simp
    show ?thesis
    proof (cases "n = 1")
      case True
      have t: "take_count n (?F (m # ps)) = [m]" unfolding F using True by (simp add: take_count_def)
      have e: "touch {i} (leased_by c (fr_now st)) (forget {} (m # ps)) = (i, leased_by c (fr_now st) p) # ps"
        using ni(1) unfolding touch_cons by (simp add: touch_none)
      show ?thesis unfolding t using in_stream nk True e m by (intro exI[of _ "{}"]) (simp add: Let_def flip: leased_by_def)
    next
      case False
      obtain D where D: "\<forall>i \<in> D. dict_get es i = None" "claim_loop st c idle es (n - 1) ps =
        (map (\<lambda>m. (fst m, the (dict_get es (fst m)))) (take_count (n - 1) (?F ps)),
         touch (set (map fst (take_count (n - 1) (?F ps)))) (leased_by c (fr_now st)) (forget D ps))"
        using Cons.IH[OF ni(2,3), of "n - 1"] by blast
      have t: "take_count n (?F (m # ps)) = m # take_count (n - 1) (?F ps)"
        unfolding F using False by (cases n) (auto simp: take_count_def)
      have "i \<notin> D" using D(1) in_stream(2) by auto
      then have e: "touch (insert i X) f (forget D (m # ps)) = (i, f p) # touch X f (forget D ps)" for X f
        unfolding touch_cons touch_insert by simp
      show ?thesis unfolding t using in_stream nk False D e m by (intro exI[of _ D]) (auto simp: Let_def simp flip: leased_by_def)
    qed
  qed
qed

lemma in_stream_view: "in_stream (fake_view st) s i \<longleftrightarrow> dict_get (fake_entries st s) i \<noteq> None"
  by (auto simp: in_stream_def map_of_eq_None_iff)

lemma group_ok_pending:
  assumes "group_ok t n fg" "set (map fst ps) \<subseteq> set (map fst (fg_pending fg))" "ids_ok n ps" "\<forall>m \<in> set ps. pe_delivered_at (snd m) \<le> t"
  shows "group_ok t n (fg\<lparr>fg_consumers := cs, fg_pending := ps\<rparr>)"
proof -
  have "id_key (fst m) \<le> id_key (fg_last_id fg)" if "m \<in> set ps" for m
  proof -
    have "fst m \<in> fst ` set (fg_pending fg)" using that assms(2) by auto
    then show ?thesis using assms(1) by (auto simp: group_ok_def)
  qed
  then show ?thesis using assms by (simp add: group_ok_def)
qed

lemma ids_ok_touch: "ids_ok n ps \<Longrightarrow> ids_ok n (touch ids f ps)"
  by (rule ids_ok_keys) simp_all

lemma ids_ok_forget: "ids_ok n ps \<Longrightarrow> ids_ok n (forget D ps)"
  unfolding forget_def by (rule ids_ok_filter)

lemma touch_forget_sub: "set (map fst (touch ids f (forget D ps))) \<subseteq> set (map fst ps)"
  by (auto simp: forget_def)

lemma touch_delivered:
  assumes "\<forall>m \<in> set ps. pe_delivered_at (snd m) \<le> t" "\<And>p. pe_delivered_at (f p) \<le> t"
  shows "\<forall>m \<in> set (touch ids f (forget D ps)). pe_delivered_at (snd m) \<le> t"
  using assms by (fastforce simp: touch_def forget_def)

lemma undelivered_simps [simp]: "undelivered st s (fg\<lparr>fg_pending := ps\<rparr>) = undelivered st s fg"
  "undelivered st s (fg\<lparr>fg_consumers := cs\<rparr>) = undelivered st s fg"
  by (simp_all add: undelivered_def)

lemma fake_autoclaim:
  assumes "fake_inv st" "rv_grp (fake_view st) (s, g) = Some gv"
  shows "\<exists>r' D ids. ids = map fst (take_count n (expired_live (fake_view st) s idle gv)) \<and>
        fake_xautoclaim s g c idle n st = (Inr (map (\<lambda>i. (i, fields_of (fake_view st) s i)) ids), r') \<and> fake_inv r'
        \<and> (\<forall>i \<in> D. \<not> in_stream (fake_view st) s i)
        \<and> fake_view r' = set_grp s g (gv\<lparr>gv_pend := touch (set ids)
              (\<lambda>p. \<lparr>pe_consumer = c, pe_delivered_at = rv_now (fake_view st), pe_times = pe_times p + 1\<rparr>)
              (forget D (gv_pend gv))\<rparr>) (fake_view st)"
proof -
  obtain fg where fg: "dict_get (fr_groups st) (s, g) = Some fg" "gv = \<lparr>gv_pend = fg_pending fg, gv_fresh = undelivered st s fg\<rparr>"
    "group_ok (fr_now st) (fr_seq st) fg" "by_id (fg_pending fg) = fg_pending fg" by (rule on_group[OF assms])
  have o: "ids_ok (fr_seq st) (fg_pending fg)" using fg(3) by (simp add: group_ok_def)
  have pos: "\<forall>m \<in> set (fg_pending fg). (0, 0) \<le> id_key (fst m)" using o by (auto simp: ids_ok_def)
  let ?E = "filter (\<lambda>(i, p). idle \<le> idle_ms st p \<and> dict_get (fake_entries st s) i \<noteq> None) (fg_pending fg)"
  have E: "expired_live (fake_view st) s idle gv = ?E"
    unfolding expired_live_def fg(2) by (intro filter_cong) (auto simp: idle_since_def idle_ms_def in_stream_view)
  obtain D where D: "\<forall>i \<in> D. dict_get (fake_entries st s) i = None"
    "claim_loop st c idle (fake_entries st s) n (fg_pending fg) =
      (map (\<lambda>m. (fst m, the (dict_get (fake_entries st s) (fst m)))) (take_count n ?E),
       touch (set (map fst (take_count n ?E))) (leased_by c (fr_now st)) (forget D (fg_pending fg)))"
    using claim_loop_spec[OF ids_ok_distinct[OF o] pos, of "fake_entries st s" st c idle n] by blast
  let ?ids = "map fst (take_count n ?E)"
  let ?fg = "fg\<lparr>fg_consumers := dict_setdefault c 1000 (fg_consumers fg),
     fg_pending := touch (set ?ids) (leased_by c (fr_now st)) (forget D (fg_pending fg))\<rparr>"
  have run: "fake_xautoclaim s g c idle n st = (Inr (map (\<lambda>i. (i, fields_of (fake_view st) s i)) ?ids), set_group s g ?fg st)"
    using fg(1,4) D(2) by (simp add: fake_xautoclaim_def with_group_def fields_of_def comp_def)
  have "group_ok (fr_now st) (fr_seq st) ?fg"
    using fg(3) by (intro group_ok_pending touch_forget_sub ids_ok_touch ids_ok_forget touch_delivered)
      (auto simp: group_ok_def leased_by_def)
  then have inv: "fake_inv (set_group s g ?fg st)" by (rule inv_set_group[OF assms(1)])
  have lb: "(\<lambda>p. \<lparr>pe_consumer = c, pe_delivered_at = rv_now (fake_view st), pe_times = pe_times p + 1\<rparr>) = leased_by c (fr_now st)"
    by (simp add: fun_eq_iff leased_by_def)
  have v: "fake_view (set_group s g ?fg st) = set_grp s g (gv\<lparr>gv_pend := touch (set ?ids) (leased_by c (fr_now st))
      (forget D (gv_pend gv))\<rparr>) (fake_view st)"
    by (simp add: view_set_group fg(2))
  have dead: "\<forall>i \<in> D. \<not> in_stream (fake_view st) s i" using D(1) by (simp add: in_stream_view)
  show ?thesis
    unfolding E lb
    by (rule exI[of _ "set_group s g ?fg st"], rule exI[of _ D], rule exI[of _ ?ids], intro conjI)
      (rule refl, rule run, rule inv, rule dead, rule v)
qed

lemma fold_dict_set_fresh:
  "fst ` set xs \<inter> fst ` set d = {} \<Longrightarrow> distinct (map fst xs) \<Longrightarrow> fold (\<lambda>(i, _). dict_set i x) xs d = d @ map (\<lambda>(i, _). (i, x)) xs"
proof (induction xs arbitrary: d)
  case (Cons m xs)
  obtain i y where m: "m = (i, y)" by force
  have "dict_set i x d = d @ [(i, x)]" if "i \<notin> fst ` set d" for d using that by (induction d) auto
  then have "dict_set i x d = d @ [(i, x)]" using Cons.prems(1) m by auto
  then show ?case using Cons.IH[of "d @ [(i, x)]"] Cons.prems m by auto
qed simp

lemma le_last:
  assumes "sorted_wrt (<) (map k ys)" "x \<in> set ys"
  shows "(k x :: 'b :: linorder) \<le> k (last ys)"
proof -
  have ne: "ys \<noteq> []" using assms(2) by auto
  then have b: "ys = butlast ys @ [last ys]" by simp
  then have "sorted_wrt (<) (map k (butlast ys @ [last ys]))" using assms(1) by simp
  then have "\<forall>y \<in> set (butlast ys). k y < k (last ys)" by (simp add: sorted_wrt_append)
  moreover have "x \<in> set (butlast ys) \<or> x = last ys" using assms(2) b by (metis UnE empty_iff empty_set set_ConsD set_append)
  ultimately show ?thesis by auto
qed

lemma filter_above_last:
  assumes "sorted_wrt (<) (map k xs)" "take n xs \<noteq> []"
  shows "filter (\<lambda>x. k x > (k (last (take n xs)) :: 'b :: linorder)) xs = drop n xs"
proof -
  let ?t = "take n xs" and ?d = "drop n xs"
  have s: "sorted_wrt (<) (map k (?t @ ?d))" using assms(1) by simp
  then have "sorted_wrt (<) (map k ?t)" by (metis map_append sorted_wrt_append)
  then have 1: "filter (\<lambda>x. k x > k (last ?t)) ?t = []" using le_last by (fastforce simp: filter_empty_conv not_less)
  have "k (last ?t) < k x" if "x \<in> set ?d" for x
    using s that last_in_set[OF assms(2)] by (simp only: map_append sorted_wrt_append) auto
  then have 2: "filter (\<lambda>x. k x > k (last ?t)) ?d = ?d" by simp
  have "filter (\<lambda>x. k x > k (last ?t)) (?t @ ?d) = ?d" by (simp only: filter_append 1 2) simp
  then show ?thesis by simp
qed

lemma fake_readgroup:
  assumes "fake_inv st" "rv_grp (fake_view st) (s, g) = Some gv" "0 < n"
  shows "\<exists>rep r'. fake_xreadgroup s g c n block st = (Inr rep, r') \<and> concat (map snd rep) = take n (gv_fresh gv) \<and> fake_inv r'
        \<and> fake_view r' = set_grp s g \<lparr>gv_pend = gv_pend gv @
              map (\<lambda>(i, _). (i, \<lparr>pe_consumer = c, pe_delivered_at = rv_now (fake_view st), pe_times = 1\<rparr>)) (take n (gv_fresh gv)),
              gv_fresh = drop n (gv_fresh gv)\<rparr> (fake_view st)"
proof -
  obtain fg where fg: "dict_get (fr_groups st) (s, g) = Some fg" "gv = \<lparr>gv_pend = fg_pending fg, gv_fresh = undelivered st s fg\<rparr>"
    "group_ok (fr_now st) (fr_seq st) fg" by (rule on_group[OF assms(1,2)])
  let ?U = "undelivered st s fg"
  let ?cs = "dict_set c (fr_now st) (fg_consumers fg)"
  have tc: "take_count n ?U = take n ?U" using assms(3) by (simp add: take_count_def)
  show ?thesis
  proof (cases "take n ?U = []")
    case True
    then have u: "?U = []" using assms(3) by simp
    let ?fg = "fg\<lparr>fg_consumers := ?cs\<rparr>"
    have "group_ok (fr_now st) (fr_seq st) ?fg" using fg(3) by (simp add: group_ok_def)
    then have "fake_inv (set_group s g ?fg st)" by (rule inv_set_group[OF assms(1)])
    then show ?thesis using fg(1,2) u by (simp add: fake_xreadgroup_def with_group_def take_count_def Let_def view_set_group)
  next
    case False
    let ?T = "take n ?U" and ?x = "\<lparr>pe_consumer = c, pe_delivered_at = fr_now st, pe_times = 1\<rparr>"
    let ?ps = "fg_pending fg @ map (\<lambda>(i, _). (i, ?x)) ?T"
    let ?fg = "fg\<lparr>fg_consumers := ?cs, fg_pending := ?ps, fg_last_id := fst (last ?T)\<rparr>"
    have e: "ids_ok (fr_seq st) (fake_entries st s)" using assms(1) by (simp add: fake_inv_def)
    have uo: "ids_ok (fr_seq st) ?U" unfolding undelivered_def by (rule ids_ok_filter[OF e])
    have above: "id_key (fg_last_id fg) < id_key (fst m)" if "m \<in> set ?T" for m
      using that by (auto simp: undelivered_def dest: in_set_takeD)
    have po: "ids_ok (fr_seq st) (fg_pending fg)" "\<forall>m \<in> set (fg_pending fg). id_key (fst m) \<le> id_key (fg_last_id fg)"
      using fg(3) by (simp_all add: group_ok_def)
    have lt: "last ?T \<in> set ?T" using False by (rule last_in_set)
    have fd: "fold (\<lambda>(i, _). dict_set i ?x) ?T (fg_pending fg) = ?ps"
    proof (rule fold_dict_set_fresh)
      show "fst ` set ?T \<inter> fst ` set (fg_pending fg) = {}" using above po(2) by fastforce
      show "distinct (map fst ?T)" using ids_ok_distinct[OF uo] by (simp add: take_map[symmetric])
    qed
    have ts: "sorted_wrt (<) (map (\<lambda>m. id_key (fst m)) ?T)"
      using uo by (auto simp: ids_ok_def take_map[symmetric] sorted_wrt_take)
    note below = le_last[where k = "\<lambda>m. id_key (fst m)", OF ts]
    have pso: "ids_ok (fr_seq st) ?ps"
    proof -
      have "fst ` set ?T \<subseteq> mint ` {1..fr_seq st}" using uo unfolding ids_ok_def by (auto dest: in_set_takeD)
      moreover have "id_key (fst a) < id_key (fst b)" if "a \<in> set (fg_pending fg)" "b \<in> set ?T" for a b
        using po(2) above that by (meson le_less_trans)
      ultimately show ?thesis using po(1) ts by (auto simp: ids_ok_def sorted_wrt_append comp_def case_prod_beta)
    qed
    have lastk: "id_key (fst (last ?T)) \<le> (int (fr_seq st), 0)" "(0, 0) \<le> id_key (fst (last ?T))"
    proof -
      have "fst (last ?T) \<in> mint ` {1..fr_seq st}" using uo lt unfolding ids_ok_def by (auto dest: in_set_takeD)
      then show "id_key (fst (last ?T)) \<le> (int (fr_seq st), 0)" "(0, 0) \<le> id_key (fst (last ?T))" by auto
    qed
    have "id_key (fst m) \<le> id_key (fst (last ?T))" if "m \<in> set ?ps" for m
    proof (cases "m \<in> set (fg_pending fg)")
      case True
      then show ?thesis using po(2) above[OF lt] by (meson le_less_trans less_imp_le)
    next
      case False
      note mp = that
      from False obtain j y where "(j, y) \<in> set ?T" "fst m = j" using mp by auto
      then show ?thesis using below[of "(j, y)"] by simp
    qed
    moreover have "\<forall>m \<in> set ?ps. pe_delivered_at (snd m) \<le> fr_now st" using fg(3) by (auto simp: group_ok_def)
    ultimately have "group_ok (fr_now st) (fr_seq st) ?fg" using pso lastk by (simp add: group_ok_def)
    then have inv: "fake_inv (set_group s g ?fg st)" by (rule inv_set_group[OF assms(1)])
    have run: "fake_xreadgroup s g c n block st = (Inr [(s, ?T)], set_group s g ?fg st)"
      using fg(1) False fd tc by (simp add: fake_xreadgroup_def with_group_def Let_def)
    have sub: "undelivered st s ?fg = drop n ?U"
    proof -
      have "undelivered st s ?fg = filter (\<lambda>x. id_key (fst x) > id_key (fst (last ?T))) ?U"
        unfolding undelivered_def using above[OF lt] by (auto intro!: filter_cong dest: less_trans simp: undelivered_def)
      also have "\<dots> = drop n ?U" using uo False by (intro filter_above_last) (auto simp: ids_ok_def)
      finally show ?thesis .
    qed
    have v: "fake_view (set_group s g ?fg st) = set_grp s g \<lparr>gv_pend = ?ps, gv_fresh = drop n ?U\<rparr> (fake_view st)"
      using sub by (simp add: view_set_group)
    show ?thesis
      by (rule exI[of _ "[(s, ?T)]"], rule exI[of _ "set_group s g ?fg st"]) (use run inv v fg(2) in simp)
  qed
qed

lemma fake_claim:
  assumes "fake_inv st" "rv_grp (fake_view st) (s, g) = Some gv" "0 \<le> idle"
  shows "\<exists>r' D. fake_xclaim s g c ids idle st = (Inr (), r') \<and> fake_inv r' \<and> (\<forall>i \<in> D. \<not> in_stream (fake_view st) s i)
        \<and> fake_view r' = set_grp s g (gv\<lparr>gv_pend := touch (set ids)
              (\<lambda>p. p\<lparr>pe_consumer := c, pe_delivered_at := rv_now (fake_view st) - idle\<rparr>) (forget D (gv_pend gv))\<rparr>) (fake_view st)"
proof -
  obtain fg where fg: "dict_get (fr_groups st) (s, g) = Some fg" "gv = \<lparr>gv_pend = fg_pending fg, gv_fresh = undelivered st s fg\<rparr>"
    "group_ok (fr_now st) (fr_seq st) fg" by (rule on_group[OF assms(1,2)])
  let ?f = "\<lambda>p. p\<lparr>pe_consumer := c, pe_delivered_at := fr_now st - idle\<rparr>"
  let ?ps = "touch (set ids) ?f (forget {} (fg_pending fg))"
  let ?fg = "fg\<lparr>fg_consumers := dict_setdefault c 1000 (fg_consumers fg), fg_pending := ?ps\<rparr>"
  have "\<forall>m \<in> set (fg_pending fg). \<not> idle_ms st (snd m) < 0" using fg(3) by (auto simp: group_ok_def idle_ms_def)
  then have "map (\<lambda>(i, p). (i, if i \<in> set ids \<and> \<not> idle_ms st p < 0 then ?f p else p)) (fg_pending fg) = ?ps"
    by (fastforce simp: touch_def intro!: map_cong)
  then have run: "fake_xclaim s g c ids idle st = (Inr (), set_group s g ?fg st)"
    using fg(1) by (simp add: fake_xclaim_def with_group_def)
  have "group_ok (fr_now st) (fr_seq st) ?fg"
    using fg(3) assms(3) by (intro group_ok_pending touch_forget_sub ids_ok_touch ids_ok_forget touch_delivered)
      (auto simp: group_ok_def)
  then have inv: "fake_inv (set_group s g ?fg st)" by (rule inv_set_group[OF assms(1)])
  have v: "fake_view (set_group s g ?fg st) = set_grp s g (gv\<lparr>gv_pend := ?ps\<rparr>) (fake_view st)"
    by (simp add: view_set_group fg(2))
  show ?thesis
    by (rule exI[of _ "set_group s g ?fg st"], rule exI[of _ "{}"]) (use run inv v fg(2) in simp)
qed

lemma set_forget: "set (forget D ps) = {m \<in> set ps. fst m \<notin> D}"
  by (auto simp: forget_def)

lemma dict_del_forget: "dict_del i ps = forget {i} ps"
  by (simp add: dict_del_def forget_def)

lemma fake_ack:
  assumes "fake_inv st" "rv_grp (fake_view st) (s, g) = Some gv"
  shows "\<exists>k r'. fake_xack s g i st = (Inr k, r') \<and> fake_inv r'
        \<and> fake_view r' = set_grp s g (gv\<lparr>gv_pend := forget {i} (gv_pend gv)\<rparr>) (fake_view st)"
proof -
  obtain fg where fg: "dict_get (fr_groups st) (s, g) = Some fg" "gv = \<lparr>gv_pend = fg_pending fg, gv_fresh = undelivered st s fg\<rparr>"
    "group_ok (fr_now st) (fr_seq st) fg" by (rule on_group[OF assms])
  have "group_ok (fr_now st) (fr_seq st) (fg\<lparr>fg_pending := forget {i} (fg_pending fg)\<rparr>)"
    using fg(3) ids_ok_forget[of "fr_seq st" "fg_pending fg" "{i}"] by (auto simp: group_ok_def set_forget)
  then have "fake_inv (set_group s g (fg\<lparr>fg_pending := forget {i} (fg_pending fg)\<rparr>) st)" by (rule inv_set_group[OF assms(1)])
  then show ?thesis using fg(1,2) by (auto simp: fake_xack_def with_group_def view_set_group dict_del_forget)
qed

lemma shrink_entries:
  assumes "fake_inv st" "es = filter P (fake_entries st s)"
  shows "fake_inv (set_entries s es st)" "rv_now (fake_view (set_entries s es st)) = rv_now (fake_view st)"
    "rv_minted (fake_view (set_entries s es st)) = rv_minted (fake_view st)"
    "rv_log (fake_view (set_entries s es st)) = (rv_log (fake_view st))(s := es)"
    "rv_grp (fake_view (set_entries s es st)) (t, g) =
       (if t = s then map_option (\<lambda>gv. gv\<lparr>gv_fresh := filter P (gv_fresh gv)\<rparr>) (rv_grp (fake_view st) (t, g))
        else rv_grp (fake_view st) (t, g))"
proof -
  show "fake_inv (set_entries s es st)" using assms ids_ok_filter by (auto simp: fake_inv_def)
  show "rv_now (fake_view (set_entries s es st)) = rv_now (fake_view st)"
    "rv_minted (fake_view (set_entries s es st)) = rv_minted (fake_view st)" by (simp_all add: fake_view_def)
  show "rv_log (fake_view (set_entries s es st)) = (rv_log (fake_view st))(s := es)" by (auto simp: fun_eq_iff)
  show "rv_grp (fake_view (set_entries s es st)) (t, g) =
       (if t = s then map_option (\<lambda>gv. gv\<lparr>gv_fresh := filter P (gv_fresh gv)\<rparr>) (rv_grp (fake_view st) (t, g))
        else rv_grp (fake_view st) (t, g))"
    using assms(2) by (cases "dict_get (fr_groups st) (t, g)") (auto simp: fake_view_def undelivered_def intro!: filter_cong)
qed

lemma fake_del:
  assumes "fake_inv st"
  shows "\<exists>k r'. fake_xdel s i st = (Inr k, r') \<and> fake_inv r' \<and> rv_now (fake_view r') = rv_now (fake_view st)
        \<and> rv_minted (fake_view r') = rv_minted (fake_view st)
        \<and> rv_log (fake_view r') = (rv_log (fake_view st))(s := forget {i} (rv_log (fake_view st) s))
        \<and> (\<forall>t g. rv_grp (fake_view r') (t, g) =
             (if t = s then map_option (\<lambda>gv. gv\<lparr>gv_fresh := forget {i} (gv_fresh gv)\<rparr>) (rv_grp (fake_view st) (t, g))
              else rv_grp (fake_view st) (t, g)))"
proof -
  have f: "forget {i} xs = filter (\<lambda>e. fst e \<noteq> i) xs" for xs :: "entry list" by (auto simp: forget_def intro!: filter_cong)
  show ?thesis
    using shrink_entries[OF assms refl, where P = "\<lambda>e. fst e \<noteq> i" and s = s] unfolding f by (auto simp: fake_xdel_def Let_def simp del: fun_upd_apply)
qed

lemma fake_trim:
  assumes "fake_inv st"
  shows "\<exists>k r'. fake_xtrim0 s st = (Inr k, r') \<and> fake_inv r' \<and> rv_now (fake_view r') = rv_now (fake_view st)
        \<and> rv_minted (fake_view r') = rv_minted (fake_view st)
        \<and> rv_log (fake_view r') = (rv_log (fake_view st))(s := [])
        \<and> (\<forall>t g. rv_grp (fake_view r') (t, g) =
             (if t = s then map_option (\<lambda>gv. gv\<lparr>gv_fresh := []\<rparr>) (rv_grp (fake_view st) (t, g)) else rv_grp (fake_view st) (t, g)))"
  using shrink_entries[OF assms, where es = "[]" and P = "\<lambda>_. False" and s = s] by (auto simp: fake_xtrim0_def simp del: fun_upd_apply)

lemma fake_destroy:
  assumes "fake_inv st"
  shows "\<exists>k r'. fake_xgroup_destroy s g st = (Inr k, r') \<and> fake_inv r'
     \<and> fake_view r' = (fake_view st)\<lparr>rv_grp := (rv_grp (fake_view st))((s, g) := None)\<rparr>"
proof -
  let ?st = "st\<lparr>fr_groups := dict_del (s, g) (fr_groups st)\<rparr>"
  have "fake_inv ?st" using assms distinct_dict_del by (auto simp: fake_inv_def)
  moreover have "fake_view ?st = (fake_view st)\<lparr>rv_grp := (rv_grp (fake_view st))((s, g) := None)\<rparr>"
    unfolding fake_view_def by (rule redis_view.equality) (auto simp: fun_eq_iff undelivered_def)
  ultimately show ?thesis by (simp add: fake_xgroup_destroy_def)
qed

lemma fake_info:
  assumes "fake_inv st"
  shows "\<exists>is r'. fake_xinfo_groups s st = (Inr is, r') \<and> fake_inv r' \<and> fake_view r' = fake_view st \<and> distinct (map gi_name is)
        \<and> (\<forall>g gv. rv_grp (fake_view st) (s, g) = Some gv \<longrightarrow> (\<exists>x \<in> set is. gi_name x = g))
        \<and> (\<forall>x \<in> set is. \<exists>gv. rv_grp (fake_view st) (s, gi_name x) = Some gv \<and> gi_pending x = Some (int (length (gv_pend gv)))
             \<and> (\<forall>n. gi_lag x = Some n \<longrightarrow> n = int (length (gv_fresh gv))))"
proof -
  let ?G = "filter (\<lambda>((t, _), _). t = s) (fr_groups st)"
  let ?i = "\<lambda>((_, g), fg). \<lparr>gi_name = g, gi_pending = Some (int (length (fg_pending fg))),
            gi_lag = Some (int (length (undelivered st s fg)))\<rparr>"
  have d: "distinct (map fst (fr_groups st))" using assms by (simp add: fake_inv_def)
  have "distinct (map gi_name (map ?i ?G))"
  proof -
    have "map fst ?G = map (Pair s) (map gi_name (map ?i ?G))" by (induction "fr_groups st") auto
    then have "distinct (map (Pair s) (map gi_name (map ?i ?G)))" using distinct_map_filter[OF d] by metis
    then show ?thesis by (rule distinct_map[THEN iffD1, THEN conjunct1])
  qed
  moreover have "\<exists>x \<in> set (map ?i ?G). gi_name x = g" if "rv_grp (fake_view st) (s, g) = Some gv" for g gv
    using view_grp[OF that] by (force dest: map_of_SomeD)
  moreover have "\<exists>gv. rv_grp (fake_view st) (s, gi_name x) = Some gv \<and> gi_pending x = Some (int (length (gv_pend gv)))
             \<and> (\<forall>n. gi_lag x = Some n \<longrightarrow> n = int (length (gv_fresh gv)))" if "x \<in> set (map ?i ?G)" for x
  proof -
    from that obtain g fg where "((s, g), fg) \<in> set (fr_groups st)" "x = ?i ((s, g), fg)" by auto
    moreover from this(1) have "dict_get (fr_groups st) (s, g) = Some fg" using d by simp
    ultimately show ?thesis by (simp add: fake_view_def)
  qed
  ultimately show ?thesis using assms by (auto simp: fake_xinfo_groups_def)
qed

lemma fake_consumers:
  assumes "fake_inv st" "rv_grp (fake_view st) (s, g) = Some gv"
  shows "\<exists>cs r'. fake_xinfo_consumers s g st = (Inr cs, r') \<and> fake_inv r' \<and> fake_view r' = fake_view st
        \<and> (\<forall>x \<in> set cs. ci_pending x = int (length (filter (\<lambda>(_, p). pe_consumer p = ci_name x) (gv_pend gv))))"
proof -
  obtain fg where "dict_get (fr_groups st) (s, g) = Some fg" "gv = \<lparr>gv_pend = fg_pending fg, gv_fresh = undelivered st s fg\<rparr>"
    by (rule on_group[OF assms])
  then show ?thesis using assms(1) by (auto simp: fake_xinfo_consumers_def with_group_def)
qed

lemma fake_delconsumer:
  assumes "fake_inv st" "rv_grp (fake_view st) (s, g) = Some gv"
  shows "\<exists>k r'. fake_xgroup_delconsumer s g c st = (Inr k, r') \<and> fake_inv r' \<and> fake_view r' = fake_view st"
proof -
  obtain fg where fg: "dict_get (fr_groups st) (s, g) = Some fg" "gv = \<lparr>gv_pend = fg_pending fg, gv_fresh = undelivered st s fg\<rparr>"
    "group_ok (fr_now st) (fr_seq st) fg" by (rule on_group[OF assms])
  have "group_ok (fr_now st) (fr_seq st) (fg\<lparr>fg_consumers := dict_del c (fg_consumers fg)\<rparr>)" using fg(3) by (simp add: group_ok_def)
  then have "fake_inv (set_group s g (fg\<lparr>fg_consumers := dict_del c (fg_consumers fg)\<rparr>) st)" by (rule inv_set_group[OF assms(1)])
  moreover have "set_grp s g gv (fake_view st) = fake_view st" using assms(2) by (rule set_grp_id)
  ultimately show ?thesis using fg(1,2) by (simp add: fake_xgroup_delconsumer_def with_group_def view_set_group)
qed

lemma fake_tick:
  assumes "fake_inv st" "0 \<le> d"
  shows "fake_inv (fake_advance d st) \<and> fake_view (fake_advance d st) = (fake_view st)\<lparr>rv_now := rv_now (fake_view st) + d\<rparr>"
proof -
  have "group_ok (fr_now st + d) (fr_seq st) fg" if "dict_get (fr_groups st) (s, g) = Some fg" for s g fg
    using group_ok_mono[OF inv_group[OF assms(1) that], of "fr_seq st" "fr_now st + d"] assms(2) by simp
  then have "fake_inv (fake_advance d st)" using assms(1) by (simp add: fake_inv_def fake_advance_def)
  moreover have "fake_view (fake_advance d st) = (fake_view st)\<lparr>rv_now := rv_now (fake_view st) + d\<rparr>"
    unfolding fake_view_def fake_advance_def by (rule redis_view.equality) (auto simp: fun_eq_iff undelivered_def)
  ultimately show ?thesis by blast
qed

lemma fake_inv_new: "fake_inv (fake_new t)"
  by (simp add: fake_inv_def fake_new_def fake_entries_def ids_ok_def)

lemma fake_ops_simps [simp]:
  "xgroup_create fake_ops = fake_xgroup_create" "xadd fake_ops = fake_xadd" "xpending_range fake_ops = fake_xpending_range"
  "xautoclaim fake_ops = fake_xautoclaim" "xreadgroup fake_ops = fake_xreadgroup" "xclaim fake_ops = fake_xclaim"
  "xack fake_ops = fake_xack" "xdel fake_ops = fake_xdel" "xlen fake_ops = fake_xlen" "xtrim0 fake_ops = fake_xtrim0"
  "xgroup_destroy fake_ops = fake_xgroup_destroy" "xinfo_groups fake_ops = fake_xinfo_groups"
  "xinfo_consumers fake_ops = fake_xinfo_consumers" "xgroup_delconsumer fake_ops = fake_xgroup_delconsumer"
  by (simp_all add: fake_ops_def)

interpretation fake: redis_streams fake_ops fake_view fake_inv
proof (unfold_locales, unfold fake_ops_simps, goal_cases)
  case 1 then show ?case by (rule fake_wf)
next
  case 2 then show ?case by (rule fake_create_new)
next
  case 3 then show ?case by (rule fake_create_busy)
next
  case 4 then show ?case by (rule fake_add)
next
  case 5 then show ?case by (rule fake_pending)
next
  case 6 then show ?case by (rule fake_pending_one)
next
  case 7 then show ?case by (rule fake_pending_other)
next
  case 8 then show ?case by (rule fake_autoclaim)
next
  case 9 then show ?case by (intro fake_readgroup)
next
  case 10 then show ?case by (rule fake_claim)
next
  case 11 then show ?case by (rule fake_ack)
next
  case 12 then show ?case by (rule fake_del)
next
  case 13 then show ?case by (simp add: fake_xlen_def)
next
  case 14 then show ?case by (rule fake_trim)
next
  case 15 then show ?case by (rule fake_destroy)
next
  case 16 then show ?case by (rule fake_info)
next
  case 17 then show ?case by (rule fake_consumers)
next
  case 18 then show ?case by (intro fake_delconsumer)
qed

interpretation fake_clock: clocked_streams fake_ops fake_view fake_inv fake_advance
  by unfold_locales (rule fake_tick)

end
