(* ===== verification/QueueSamples.thy ===== *)
theory QueueSamples
  imports FakeRedis Samples
begin

text \<open>
  Concrete queues for the witnesses: one queue with one group, a store whose codecs ignore the
  body, and servers with a message never delivered, one leased and one trimmed away.
\<close>

definition sample_group :: queue_group where
  "sample_group = \<lparr>qg_name = ''g'', qg_max_receives = None, qg_consumer_tokens = []\<rparr>"

definition sample_queue :: queue_config where
  "sample_queue = \<lparr>qc_name = ''q'', qc_groups = [sample_group], qc_default_visibility_ms = 30, qc_max_visibility_ms = 100,
     qc_max_receives = 2, qc_maxlen = 10, qc_max_body_bytes = 100, qc_strict_ack = True, qc_delete_entries = False,
     qc_mirror_to_bus = False, qc_topic_prefix = None, qc_producer_tokens = [''p''], qc_consumer_tokens = [''c''], qc_admin_tokens = []\<rparr>"

definition sample_qstore :: "string \<Rightarrow> queue_store" where
  "sample_qstore c = \<lparr>qs_registry = \<lparr>qr_queues = [sample_queue], qr_prefix = ''s:''\<rparr>,
     qs_receipts = \<lparr>rk_keys = [''k''], rk_grace_ms = 0\<rparr>, qs_consumer = c,
     qs_wire = \<lparr>wc_encode = (\<lambda>e. Inr [(''envelope'', event_id e)]), wc_decode = (\<lambda>_. Inr (sample_event ''a'' ''t'' NORMAL))\<rparr>,
     qs_on_dlq = True, qs_json = \<lparr>dumps = (\<lambda>_. Inr ''{}''), loads = (\<lambda>_. Inr (PDict []))\<rparr>, qs_mac = (\<lambda>_ m. m)\<rparr>"

definition sample_pending :: "int \<Rightarrow> int \<Rightarrow> pending_entry" where
  "sample_pending t n = \<lparr>pe_consumer = ''w'', pe_delivered_at = t, pe_times = n\<rparr>"

text \<open>Entries with the given numbers, the pending ones, the number of the last delivered one.\<close>

definition sample_server :: "nat list \<Rightarrow> (nat \<times> pending_entry) list \<Rightarrow> nat \<Rightarrow> fake_redis" where
  "sample_server es ps k = \<lparr>fr_now = 1000, fr_streams = [(''s:q'', map (\<lambda>n. (mint n, [(''envelope'', ''b'')])) es)],
     fr_groups = [((''s:q'', ''g''), \<lparr>fg_last_id = mint k, fg_pending = map (\<lambda>(n, p). (mint n, p)) ps, fg_consumers = []\<rparr>)],
     fr_seq = 5\<rparr>"

definition sample_qstate :: "fake_redis \<Rightarrow> fake_redis qstate" where
  "sample_qstate r = \<lparr>q_redis = r, q_dlq = []\<rparr>"

lemma sample_server_inv:
  assumes "sorted_wrt (<) es" "set es \<subseteq> {1..5}" "sorted_wrt (<) (map fst ps)" "fst ` set ps \<subseteq> {1..k}" "k \<le> 5"
    "\<forall>p \<in> snd ` set ps. pe_delivered_at p \<le> 1000"
  shows "fake_inv (q_redis (sample_qstate (sample_server es ps k)))"
proof -
  have "ids_ok 5 (map (\<lambda>n. (mint n, x)) es)" for x :: fields
    using assms(1,2) by (auto simp: ids_ok_def sorted_wrt_map comp_def image_iff intro!: sorted_wrt_mono_rel[OF _ assms(1)])
  moreover have "ids_ok 5 (map (\<lambda>(n, p). (mint n, p)) ps)"
    using assms(3,4,5) by (fastforce simp: ids_ok_def sorted_wrt_map case_prod_beta elim!: sorted_wrt_mono_rel[rotated])
  moreover have "ids_ok 5 ([] :: entry list)" by (simp add: ids_ok_def)
  ultimately show ?thesis
    using assms(4-6) by (auto simp: sample_qstate_def sample_server_def fake_inv_def fake_entries_def group_ok_def)
qed

text \<open>One expired lease and one entry never delivered.\<close>

definition sample_state :: "fake_redis qstate" where
  "sample_state = sample_qstate (sample_server [1, 2] [(1, sample_pending 0 1)] 1)"

lemma sample_state_inv: "fake_inv (q_redis sample_state)"
  unfolding sample_state_def by (rule sample_server_inv) (auto simp: sample_pending_def)

end
