(* ===== verification/QueueProps.thy ===== *)
theory QueueProps
  imports QueueSamples
begin

text \<open>
  The properties of the pull queue: what a receive hands out and leaves behind, that a lease
  excludes every other receive until it ends, which acknowledgements are accepted, what a released
  message does next, and that a purge leaves nothing.
\<close>

subsection \<open>A receive refines its specification\<close>

lemma received_view_live:
  assumes "\<forall>(i, p) \<in> set (gv_pend (ensured (q_stream S q) g v)). in_stream v (q_stream S q) i" "wf_view v"
    "\<forall>i \<in> DA \<union> DB. \<not> in_stream v (q_stream S q) i"
  shows "received_view S q g vis n DA DB U v = received_view S q g vis n {} {} U v"
proof -
  let ?s = "q_stream S q" and ?gv = "ensured (q_stream S q) g v"
  have a: "forget DA (gv_pend ?gv) = gv_pend ?gv"
    using assms(1,3) by (intro forget_none) auto
  have b: "forget DB (forget P (touch C f (gv_pend ?gv)) @ first_pend S v m ?gv) = forget P (touch C f (gv_pend ?gv)) @ first_pend S v m ?gv"
    for P C f m
  proof (rule forget_none)
    have "in_stream v ?s i" if "i \<in> fst ` set (forget P (touch C f (gv_pend ?gv)))" for i
    proof -
      have "i \<in> fst ` set (touch C f (gv_pend ?gv))" using that by (force simp: set_forget simp del: touch_fst)
      then show ?thesis using assms(1) by auto
    qed
    moreover have "in_stream v ?s i" if "i \<in> fst ` set (first_pend S v m ?gv)" for i
    proof -
      have "set (take m (gv_fresh ?gv)) \<subseteq> set (rv_log v ?s)"
        using ensured_wf[OF assms(2), of ?s g] set_take_subset[of m "gv_fresh ?gv"] by (auto simp: wf_group_def)
      moreover have "i \<in> fst ` set (take m (gv_fresh ?gv))"
        using that by (force simp: first_pend_def)
      ultimately show ?thesis by (auto simp: in_stream_def)
    qed
    ultimately show "DB \<inter> fst ` set (forget P (touch C f (gv_pend ?gv)) @ first_pend S v m ?gv) = {}"
      using assms(3) by (auto simp: image_Un)
  qed
  show ?thesis unfolding received_view_def Let_def a b by simp
qed

text \<open>C11: with nothing trimmed from under the pending list, a short-polling receive on a server that
  keeps the invariant does exactly what its specification on the server's view says: it returns the
  expired leases that are not over the cap, oldest first with their count plus one, then entries never
  delivered, as many as fit, without the undecodable ones; it leaves the batch pending to this
  consumer with the idle clock set back; and it hands exactly the decodable entries over the cap to
  the dead-letter callback.\<close>

theorem receive_refines_view:
  assumes "fake_inv (q_redis st)" "0 < n" "wait_ms \<le> 0" "receive fake_ops S q g n wait_ms vis now_ms st = (Inr ds, st')"
    "\<forall>(i, p) \<in> set (gv_pend (ensured (q_stream S q) g (fake_view (q_redis st)))). in_stream (fake_view (q_redis st)) (q_stream S q) i"
  shows "(let v = fake_view (q_redis st); s = q_stream S q;
              B = batch v s (receives_cap q g) (qc_max_visibility_ms q) n (ensured s g v)
          in ds = map (handed S q g s (now_ms + lease_ms q vis)) (filter (wire_ok S) B) \<and> length ds \<le> n
            \<and> distinct (map dm_id ds)
            \<and> fake_view (q_redis st') = received_view S q g vis n {} {} (undecodable S B) v
            \<and> q_dlq st' = q_dlq st @ park_calls S q g v s n
            \<and> fake_inv (q_redis st'))"
proof -
  let ?v = "fake_view (q_redis st)" and ?s = "q_stream S q"
  let ?B = "batch ?v ?s (receives_cap q g) (qc_max_visibility_ms q) n (ensured ?s g ?v)"
  have wt: "wait_ms \<le> 0 \<or> gv_fresh (ensured ?s g ?v) \<noteq> []" using assms(3) by simp
  note w = fake.wf[OF assms(1)]
  obtain x st2 DA DB U where r: "receive fake_ops S q g n wait_ms vis now_ms st = (x, st2)" "fake_inv (q_redis st2)"
    "U \<subseteq> undecodable S ?B" "\<forall>i \<in> DA \<union> DB. \<not> in_stream ?v ?s i"
    "fake_view (q_redis st2) = received_view S q g vis n DA DB U ?v"
    "\<forall>ds. x = Inr ds \<longrightarrow> U = undecodable S ?B \<and> ds = map (handed S q g ?s (now_ms + lease_ms q vis)) (filter (wire_ok S) ?B)"
    by (rule fake.receive_spec[OF assms(1,2) wt])
  have ds: "ds = map (handed S q g ?s (now_ms + lease_ms q vis)) (filter (wire_ok S) ?B)" using r assms(4) by auto
  have "map dm_id ds = map fst (filter (wire_ok S) ?B)"
    unfolding ds by (auto simp: handed_def Let_def split: prod.splits)
  then have "distinct (map dm_id ds)" using distinct_map_filter[OF batch_distinct[OF ensured_wf[OF w]]] by simp
  moreover have "length ds \<le> n"
    unfolding ds length_map by (rule order_trans[OF length_filter_le batch_length[OF assms(2)]])
  moreover have "fake_view (q_redis st') = received_view S q g vis n {} {} (undecodable S ?B) ?v"
    using r assms(4) received_view_live[OF assms(5) w r(4)] by auto
  moreover have "q_dlq st' = q_dlq st @ park_calls S q g ?v ?s n"
    using fake.receive_dlq[OF assms(1), of S q g n wait_ms vis now_ms] assms(4) by simp
  ultimately show ?thesis using ds r assms(4) by (auto simp: Let_def)
qed

text \<open>A server with one expired lease and one entry never delivered, and a receive on it.\<close>

definition sample_receive :: "delivered_message list result \<times> fake_redis qstate" where
  "sample_receive = receive fake_ops (sample_qstore ''c'') sample_queue ''g'' 1 0 None 1000 sample_state"

lemma sample_received: "map_sum id (map (\<lambda>d. (dm_id d, dm_delivered d))) (fst sample_receive) = Inr [(mint 1, 2)]"
  by code_simp

lemma sample_receive_eq:
  obtains d st' where "receive fake_ops (sample_qstore ''c'') sample_queue ''g'' 1 0 None 1000 sample_state = (Inr [d], st')"
    "dm_id d = mint 1" "dm_delivered d = 2" "sample_receive = (Inr [d], st')"
  using sample_received that unfolding sample_receive_def
  by (cases "receive fake_ops (sample_qstore ''c'') sample_queue ''g'' 1 0 None 1000 sample_state"; cases "fst sample_receive")
    (auto simp: sample_receive_def)

lemma sample_untrimmed:
  "\<forall>(i, p) \<in> set (gv_pend (ensured (q_stream (sample_qstore ''c'') sample_queue) ''g'' (fake_view (q_redis sample_state)))).
     in_stream (fake_view (q_redis sample_state)) (q_stream (sample_qstore ''c'') sample_queue) i"
  by code_simp

lemma receive_refines_view_witness:
  "\<exists>ds st'. sample_receive = (Inr ds, st') \<and> map dm_id ds = [mint 1] \<and> distinct (map dm_id ds) \<and> fake_inv (q_redis st')"
proof -
  obtain d st' where r: "receive fake_ops (sample_qstore ''c'') sample_queue ''g'' 1 0 None 1000 sample_state = (Inr [d], st')"
    "dm_id d = mint 1" "sample_receive = (Inr [d], st')" by (rule sample_receive_eq)
  have "fake_inv (q_redis st')"
    using receive_refines_view[OF sample_state_inv _ _ r(1) sample_untrimmed] by (simp add: Let_def)
  then show ?thesis using r(2,3) by (intro exI[of _ "[d]"] exI[of _ st']) simp
qed

text \<open>C12: a message that was handed out is not handed out again to its group before its lease ends,
  whatever other receives, sends, acknowledgements and visibility changes of other messages happen
  in between, on any replica.\<close>

theorem lease_excludes:
  assumes "fake_inv (q_redis st)" "0 < n" "wait_ms \<le> 0" "receive fake_ops S q g n wait_ms vis now_ms st = (Inr ds, st1)"
    "d \<in> set ds" "0 < qc_maxlen q" "0 \<le> qc_max_visibility_ms q"
    "\<forall>x \<in> set ops. spares q (q_stream S q) g (dm_id d) x"
    "elapsed ops < min (lease_ms q vis) (qc_max_visibility_ms q)"
  shows "(g, dm_id d) \<notin> set (fst (run_ops fake_ops fake_advance q ops st1))"
proof -
  let ?t = "lease_start (rv_now (fake_view (q_redis st))) (qc_max_visibility_ms q) (lease_ms q vis)"
  obtain gv p where "rv_grp (fake_view (q_redis st1)) (q_stream S q, g) = Some gv" "map_of (gv_pend gv) (dm_id d) = Some p"
    "held (fake_view (q_redis st1)) (q_stream S q) g (dm_id d) ?t"
    "rv_now (fake_view (q_redis st1)) = rv_now (fake_view (q_redis st))"
    by (rule fake.receive_leases[OF assms(1-5)])
  moreover have "fake_inv (q_redis st1)" by (rule fake.receive_returns(2)[OF assms(1-4)])
  moreover have "elapsed ops + max 0 (qc_max_visibility_ms q - lease_ms q vis) < qc_max_visibility_ms q"
    using assms(9) by (simp add: max_def)
  ultimately show ?thesis
    using fake_clock.run_ops_held[of st1 ops q "q_stream S q" g "dm_id d" ?t] assms(6-8) by (auto simp: lease_start_def)
qed

definition sample_ops :: "queue_op list" where
  "sample_ops = [OpTick 10, OpReceive (sample_qstore ''x'') ''g'' 5 0 None 1010,
     OpSend (sample_qstore ''x'') (sample_event ''b'' ''t'' LOW), OpTick 10, OpReceive (sample_qstore ''c'') ''g'' 5 0 None 1020]"

lemma sample_queue_facts: "0 < qc_maxlen sample_queue" "0 \<le> qc_max_visibility_ms sample_queue"
  "q_stream (sample_qstore c) sample_queue = ''s:q''" "receives_cap sample_queue ''g'' = 2"
  "elapsed sample_ops < min (lease_ms sample_queue None) (qc_max_visibility_ms sample_queue)"
  "\<forall>x \<in> set sample_ops. spares sample_queue ''s:q'' ''g'' i x"
  by (simp_all add: sample_queue_def q_stream_def sample_qstore_def stream_for_def receives_cap_def find_group_def sample_group_def
      sample_ops_def lease_ms_def)

lemma lease_excludes_witness:
  "(''g'', mint 1) \<notin> set (fst (run_ops fake_ops fake_advance sample_queue sample_ops (snd sample_receive)))"
proof -
  obtain d st' where r: "receive fake_ops (sample_qstore ''c'') sample_queue ''g'' 1 0 None 1000 sample_state = (Inr [d], st')"
    "dm_id d = mint 1" "sample_receive = (Inr [d], st')" by (rule sample_receive_eq)
  have "(''g'', dm_id d) \<notin> set (fst (run_ops fake_ops fake_advance sample_queue sample_ops st'))"
    by (rule lease_excludes[OF sample_state_inv _ _ r(1)]) (use sample_queue_facts in simp_all)
  then show ?thesis unfolding r(2,3) by simp
qed

subsection \<open>Acknowledgements\<close>

text \<open>C13: acknowledging a pending message with a receipt removes it from the pending list of its
  group and from nothing else (and from the stream where the queue deletes entries); a queue with
  strict acknowledgements refuses exactly the receipts of an earlier delivery, and then changes
  nothing.\<close>

theorem delete_removes_exactly:
  assumes "fake_inv r" "rv_grp (fake_view r) (rc_stream rc, rc_group rc) = Some gv" "map_of (gv_pend gv) (rc_message_id rc) = Some p"
    "delete_message fake_ops q rc r = (x, r')"
  shows "fake_inv r' \<and> (isl x \<longleftrightarrow> qc_strict_ack q \<and> pe_times p > rc_delivered rc)
    \<and> (if isl x then fake_view r' = fake_view r else deleted_to q rc (fake_view r) (fake_view r'))"
proof -
  obtain r2 y where "delete_message fake_ops q rc r = (y, r2)" "fake_inv r2" "isl y \<longleftrightarrow> qc_strict_ack q \<and> pe_times p > rc_delivered rc"
    "if isl y then fake_view r2 = fake_view r else deleted_to q rc (fake_view r) (fake_view r2)"
    by (rule fake.delete_exact[OF assms(1-3), of q])
  then show ?thesis using assms(4) by simp
qed

definition sample_receipt :: receipt where
  "sample_receipt = mk_receipt (sample_qstore ''c'') sample_queue ''g'' ''s:q'' (mint 1) 1 0"

definition sample_view :: group_view where
  "sample_view = \<lparr>gv_pend = [(mint 1, sample_pending 0 1)], gv_fresh = [(mint 2, [(''envelope'', ''b'')])]\<rparr>"

lemma sample_receipt_simps [simp]: "rc_stream sample_receipt = ''s:q''" "rc_group sample_receipt = ''g''"
  "rc_message_id sample_receipt = mint 1" "rc_delivered sample_receipt = 1"
  by (simp_all add: sample_receipt_def mk_receipt_def)

lemma sample_grp:
  "rv_grp (fake_view (q_redis sample_state)) (rc_stream sample_receipt, rc_group sample_receipt) = Some sample_view"
  by (simp add: fake_view_def sample_server_def sample_state_def sample_qstate_def sample_view_def undelivered_def fake_entries_def)

lemma sample_pend: "map_of (gv_pend sample_view) (rc_message_id sample_receipt) = Some (sample_pending 0 1)"
  by (simp add: sample_view_def)

lemma delete_removes_exactly_witness:
  "\<exists>r'. delete_message fake_ops sample_queue sample_receipt (q_redis sample_state) = (Inr (), r')
     \<and> deleted_to sample_queue sample_receipt (fake_view (q_redis sample_state)) (fake_view r')"
proof -
  obtain x r' where x: "delete_message fake_ops sample_queue sample_receipt (q_redis sample_state) = (x, r')" by force
  have "\<not> isl x \<and> deleted_to sample_queue sample_receipt (fake_view (q_redis sample_state)) (fake_view r')"
    using delete_removes_exactly[OF sample_state_inv sample_grp sample_pend x] by (simp add: sample_pending_def split: if_splits)
  moreover from this have "x = Inr ()" by (cases x) auto
  ultimately show ?thesis using x by blast
qed

text \<open>with nothing trimmed from under the pending list, every receipt a receive returns can be
  used: acknowledging with it at once is accepted.\<close>

theorem fresh_receipt_accepted:
  assumes "fake_inv (q_redis st)" "0 < n" "wait_ms \<le> 0" "receive fake_ops S q g n wait_ms vis now_ms st = (Inr ds, st')" "d \<in> set ds"
    "\<forall>(i, p) \<in> set (gv_pend (ensured (q_stream S q) g (fake_view (q_redis st)))). in_stream (fake_view (q_redis st)) (q_stream S q) i"
  shows "fst (delete_message fake_ops q (dm_receipt d) (q_redis st')) = Inr ()"
proof -
  obtain gv p where l: "rv_grp (fake_view (q_redis st')) (q_stream S q, g) = Some gv" "map_of (gv_pend gv) (dm_id d) = Some p"
    "(\<forall>(j, p) \<in> set (gv_pend (ensured (q_stream S q) g (fake_view (q_redis st)))). in_stream (fake_view (q_redis st)) (q_stream S q) j)
      \<longrightarrow> pe_times p = dm_delivered d"
    "rc_message_id (dm_receipt d) = dm_id d" "rc_delivered (dm_receipt d) = dm_delivered d"
    "rc_stream (dm_receipt d) = q_stream S q" "rc_group (dm_receipt d) = g"
    by (rule fake.receive_leases[OF assms(1-5)])
  have i: "fake_inv (q_redis st')" by (rule fake.receive_returns(2)[OF assms(1-4)])
  have g: "rv_grp (fake_view (q_redis st')) (rc_stream (dm_receipt d), rc_group (dm_receipt d)) = Some gv"
    "map_of (gv_pend gv) (rc_message_id (dm_receipt d)) = Some p" using l by simp_all
  obtain r2 y where y: "delete_message fake_ops q (dm_receipt d) (q_redis st') = (y, r2)"
    "isl y \<longleftrightarrow> qc_strict_ack q \<and> pe_times p > rc_delivered (dm_receipt d)"
    by (rule fake.delete_exact[OF i g, of q])
  have "\<not> isl y" using y(2) l(3,5) assms(6) by simp
  then show ?thesis using y(1) by (cases y) auto
qed

lemma fresh_receipt_accepted_witness:
  "\<exists>d st'. sample_receive = (Inr [d], st') \<and> fst (delete_message fake_ops sample_queue (dm_receipt d) (q_redis st')) = Inr ()"
proof -
  obtain d st' where r: "receive fake_ops (sample_qstore ''c'') sample_queue ''g'' 1 0 None 1000 sample_state = (Inr [d], st')"
    "sample_receive = (Inr [d], st')" by (rule sample_receive_eq)
  have "fst (delete_message fake_ops sample_queue (dm_receipt d) (q_redis st')) = Inr ()"
    by (rule fresh_receipt_accepted[OF sample_state_inv _ _ r(1) _ sample_untrimmed]) simp_all
  then show ?thesis using r(2) by blast
qed

text \<open>that assumption matters: when an entry was trimmed from the stream while it was pending,
  the scan that counts deliveries and the claim disagree, the message after it is returned with the
  wrong delivery count, and its rightful holder's acknowledgement is refused as stale.\<close>

theorem trimmed_entry_spoils_receipt:
  "(case receive fake_ops (sample_qstore ''c'') sample_queue ''g'' 1 0 None 1000
         (sample_qstate (sample_server [3] [(1, sample_pending 0 1), (3, sample_pending 0 1)] 3)) of
      (Inr [d], st) \<Rightarrow>
        dm_id d = mint 3 \<and> dm_delivered d = 1
        \<and> map_option pe_times (map_of (gv_pend (ensured ''s:q'' ''g'' (fake_view (q_redis st)))) (mint 3)) = Some 2
        \<and> isl (fst (delete_message fake_ops sample_queue (dm_receipt d) (q_redis st)))
    | _ \<Rightarrow> False)"
  by code_simp

subsection \<open>Releasing and purging\<close>

text \<open>a message released with a visibility of zero (or less) is returned by the next receive of
  its group that scans the whole pending list, with its count plus one, unless it is undecodable or
  over the cap, in which case it is parked.\<close>

theorem released_message_returns:
  assumes "fake_inv (q_redis st)" "rv_grp (fake_view (q_redis st)) (rc_stream rc, rc_group rc) = Some gv"
    "map_of (gv_pend gv) (rc_message_id rc) = Some p"
    "\<forall>i \<in> set (map fst (gv_pend gv)). in_stream (fake_view (q_redis st)) (rc_stream rc) i"
    "0 \<le> qc_max_visibility_ms q" "ms \<le> 0" "change_visibility fake_ops q rc ms (q_redis st) = (x, r1)"
    "q_stream S q = rc_stream rc" "length (gv_pend gv) \<le> n" "wait_ms \<le> 0"
    "receive fake_ops S q (rc_group rc) n wait_ms vis now_ms (st\<lparr>q_redis := r1\<rparr>) = (Inr ds, st')"
  shows "(let f = fields_of (fake_view (q_redis st)) (rc_stream rc) (rc_message_id rc); i = rc_message_id rc;
              over = pe_times p > receives_cap q (rc_group rc)
          in (\<not> over \<and> wire_ok S (i, f, pe_times p + 1) \<longrightarrow> (\<exists>d \<in> set ds. dm_id d = i \<and> dm_delivered d = pe_times p + 1))
            \<and> (over \<longrightarrow> i \<notin> dm_id ` set ds \<and> set (park_call S q (rc_group rc) (rc_stream rc) f (pe_times p)) \<subseteq> set (q_dlq st')))"
proof -
  let ?i = "rc_message_id rc" and ?s = "rc_stream rc" and ?g = "rc_group rc" and ?T = "qc_max_visibility_ms q"
  have ii: "in_stream (fake_view (q_redis st)) ?s ?i" using assms(3,4) by (force dest: map_of_SomeD)
  obtain gv' p' where r: "fake_inv r1" "rv_grp (fake_view r1) (?s, ?g) = Some gv'"
    "rv_log (fake_view r1) = rv_log (fake_view (q_redis st))" "set (map fst (gv_pend gv')) \<subseteq> set (map fst (gv_pend gv))"
    "length (gv_pend gv') \<le> length (gv_pend gv)"
    "(?i, p') \<in> set (gv_pend gv')" "idle_since (fake_view r1) ?T p'" "pe_times p' = pe_times p"
    by (rule fake.released_claimed[OF assms(1-3) ii assms(5-7)])
  let ?v = "fake_view r1" and ?cap = "receives_cap q ?g"
  have e: "ensured ?s ?g ?v = gv'" using r(2) by (simp add: ensured_def)
  have live: "in_stream ?v t j = in_stream (fake_view (q_redis st)) t j" for t j using r(3) by (simp add: in_stream_def)
  have fo: "fields_of ?v ?s ?i = fields_of (fake_view (q_redis st)) ?s ?i" using r(3) by (simp add: fields_of_def)
  have n0: "0 < n" using assms(9) r(5,6) by (cases "gv_pend gv'") auto
  have w: "wf_group (rv_log ?v ?s) gv'" using ensured_wf[OF fake.wf[OF r(1)], of ?s ?g] e by simp
  have d: "distinct (map fst (gv_pend gv'))" using w by (simp add: wf_group_def)
  have un: "\<forall>(j, p) \<in> set (gv_pend gv'). in_stream ?v ?s j" using r(4) assms(4) live by fastforce
  have all: "take_count n (filter P (gv_pend gv')) = filter P (gv_pend gv')" for P
    using assms(9) r(5) n0 by (simp add: take_count_def) (meson le_trans length_filter_le)
  have sc: "(?i, pe_times p) \<in> set (scanned ?v ?s ?T n gv')"
    using r(6-8) unfolding scanned_def all by force
  have "map_of (scanned ?v ?s ?T n gv') ?i = Some (pe_times p)"
    using sc scanned_distinct[OF d] by (metis map_of_eq_Some_iff)
  then have cnt: "count_after (scanned ?v ?s ?T n gv') ?i = pe_times p + 1"
    "over_cap (scanned ?v ?s ?T n gv') ?cap ?i \<longleftrightarrow> pe_times p > ?cap" by (simp_all add: count_after_def over_cap_def)
  have cl: "?i \<in> set (claimed ?v ?s ?T n gv')" using sc unfolding untrimmed_claimed[OF un] by force
  have nf: "?i \<notin> fst ` set (gv_fresh gv')" using w r(6) by (force simp: wf_group_def)
  let ?B = "batch ?v ?s ?cap ?T n gv'"
  have ds: "ds = map (handed S q ?g ?s (now_ms + lease_ms q vis)) (filter (wire_ok S) ?B)"
    using fake.receive_returns(1)[OF _ n0 assms(10,11)] r(1) assms(8) e by simp
  have q: "q_dlq st' = q_dlq st @ park_calls S q ?g ?v ?s n"
    using fake.receive_dlq[of "st\<lparr>q_redis := r1\<rparr>" S q ?g n wait_ms vis now_ms] r(1) assms(8,11) by simp
  have ret: "\<exists>d \<in> set ds. dm_id d = ?i \<and> dm_delivered d = pe_times p + 1"
    if "\<not> pe_times p > ?cap" "wire_ok S (?i, fields_of ?v ?s ?i, pe_times p + 1)"
  proof -
    have "(?i, fields_of ?v ?s ?i, pe_times p + 1) \<in> set ?B"
      using cl cnt that(1) by (auto simp: batch_def reclaimed_def Let_def image_iff)
    then have "handed S q ?g ?s (now_ms + lease_ms q vis) (?i, fields_of ?v ?s ?i, pe_times p + 1) \<in> set ds"
      using that(2) ds by auto
    then show ?thesis by (rule bexI[rotated]) (simp add: handed_def Let_def)
  qed
  have park: "?i \<notin> dm_id ` set ds \<and> set (park_call S q ?g ?s (fields_of ?v ?s ?i) (pe_times p)) \<subseteq> set (q_dlq st')" if "pe_times p > ?cap"
  proof
    have "?i \<notin> fst ` set ?B" using batch_origin[of ?i ?v ?s ?cap ?T n gv'] cnt(2) that nf by (auto dest: in_set_takeD)
    moreover have "dm_id ` set ds \<subseteq> fst ` set ?B" unfolding ds by (auto simp: handed_def Let_def intro: rev_image_eqI)
    ultimately show "?i \<notin> dm_id ` set ds" by blast
    have "?i \<in> set (parked ?v ?s ?cap ?T n gv')" using cl cnt(2) that by (simp add: parked_def)
    then show "set (park_call S q ?g ?s (fields_of ?v ?s ?i) (pe_times p)) \<subseteq> set (q_dlq st')"
      using cnt(1) unfolding q park_calls_def e Let_def by force
  qed
  show ?thesis using ret park fo by (auto simp: Let_def)
qed

definition sample_released :: "fake_redis qstate" where
  "sample_released = sample_state\<lparr>q_redis := snd (change_visibility fake_ops sample_queue sample_receipt 0 (q_redis sample_state))\<rparr>"

lemma released_message_returns_witness:
  "\<exists>ds st'. receive fake_ops (sample_qstore ''c'') sample_queue ''g'' 1 0 None 1000 sample_released = (Inr ds, st')
    \<and> (\<exists>d \<in> set ds. dm_id d = mint 1 \<and> dm_delivered d = 2)"
proof -
  let ?S = "sample_qstore ''c''"
  have l: "\<forall>i \<in> set (map fst (gv_pend sample_view)). in_stream (fake_view (q_redis sample_state)) (rc_stream sample_receipt) i"
    by (simp add: in_stream_def sample_state_def sample_qstate_def sample_server_def fake_entries_def sample_view_def)
  obtain x r1 where c: "change_visibility fake_ops sample_queue sample_receipt 0 (q_redis sample_state) = (x, r1)" by force
  have ok: "\<not> isl (fst (receive fake_ops ?S sample_queue ''g'' 1 0 None 1000 sample_released))" by code_simp
  obtain y st' where y: "receive fake_ops ?S sample_queue (rc_group sample_receipt) 1 0 None 1000 (sample_state\<lparr>q_redis := r1\<rparr>) = (y, st')"
    by force
  have rel: "sample_released = sample_state\<lparr>q_redis := r1\<rparr>" using c by (simp add: sample_released_def)
  obtain ds where ds: "y = Inr ds" using ok y unfolding rel by (cases y) auto
  have len: "length (gv_pend sample_view) \<le> 1" by (simp add: sample_view_def)
  have st: "q_stream ?S sample_queue = rc_stream sample_receipt" by (simp add: sample_queue_facts)
  have z: "(0::int) \<le> 0" by simp
  have "\<exists>d \<in> set ds. dm_id d = mint 1 \<and> dm_delivered d = 2"
    using released_message_returns[OF sample_state_inv sample_grp sample_pend l sample_queue_facts(2) z c st len z y[unfolded ds]]
    by (simp add: Let_def sample_pending_def wire_ok_def sample_qstore_def sample_queue_facts(4))
  then show ?thesis using y unfolding rel ds by auto
qed

text \<open>a purge empties the stream and every declared group, undelivered and leased messages
  alike, and touches no other stream.\<close>

theorem purge_empties:
  assumes "fake_inv r" "purge fake_ops S q r = (x, r')"
  shows "x = Inr () \<and> fake_inv r' \<and> rv_log (fake_view r') (q_stream S q) = []
    \<and> (\<forall>g \<in> qg_name ` set (qc_groups q). rv_grp (fake_view r') (q_stream S q, g) = Some \<lparr>gv_pend = [], gv_fresh = []\<rparr>)
    \<and> (\<forall>t g. t \<noteq> q_stream S q \<longrightarrow> rv_log (fake_view r') t = rv_log (fake_view r) t
         \<and> rv_grp (fake_view r') (t, g) = rv_grp (fake_view r) (t, g))"
proof -
  obtain r2 where "purge fake_ops S q r = (Inr (), r2)" "fake_inv r2" "rv_log (fake_view r2) (q_stream S q) = []"
    "\<forall>g \<in> qg_name ` set (qc_groups q). rv_grp (fake_view r2) (q_stream S q, g) = Some \<lparr>gv_pend = [], gv_fresh = []\<rparr>"
    "\<forall>t g. t \<noteq> q_stream S q \<longrightarrow> rv_log (fake_view r2) t = rv_log (fake_view r) t \<and> rv_grp (fake_view r2) (t, g) = rv_grp (fake_view r) (t, g)"
    by (rule fake.purge_spec[OF assms(1), of S q])
  then show ?thesis using assms(2) by auto
qed

lemma purge_empties_witness:
  "rv_log (fake_view (snd (purge fake_ops (sample_qstore ''c'') sample_queue (q_redis sample_state)))) ''s:q'' = []"
proof -
  obtain x r' where p: "purge fake_ops (sample_qstore ''c'') sample_queue (q_redis sample_state) = (x, r')" by force
  have "q_stream (sample_qstore ''c'') sample_queue = ''s:q''"
    by (simp add: q_stream_def sample_qstore_def sample_queue_def stream_for_def)
  then show ?thesis using purge_empties[OF sample_state_inv p] p by simp
qed

end
