(* ===== verification/IngressModel.thy ===== *)
theory IngressModel
  imports Envelope
begin

text \<open>
  The boundary models of ingress_models.py, and the part of pydantic they are written in: which keys
  a model accepts, which fields are required, defaulted or nullable, and the constraints of the
  fields.  The conversions pydantic makes of a JSON value of another type are the argument
  \<open>pydantic\<close>; validation that fails is \<^const>\<open>None\<close> (the list of its messages is pydantic's).
\<close>

subsection \<open>Declaring a model\<close>

record pydantic =
  pd_int :: "pyval \<Rightarrow> int option"
  pd_datetime :: "pyval \<Rightarrow> py_datetime option"
  pd_severity :: "pyval \<Rightarrow> severity option"
  pd_priority :: "pyval \<Rightarrow> event_priority option"

fun str_field :: "pyval \<Rightarrow> string option" where
  "str_field (PStr s) = Some s"
| "str_field v = None"

fun dict_field :: "pyval \<Rightarrow> pydict option" where
  "dict_field (PDict d) = Some d"
| "dict_field v = None"

fun list_field :: "pyval \<Rightarrow> pyval list option" where
  "list_field (PList vs) = Some vs"
| "list_field v = None"

text \<open>\<open>min_length=1\<close>, \<open>ge\<close> and \<open>le\<close>, \<open>Optional\<close>.\<close>

definition nonempty_str :: "pyval \<Rightarrow> string option" where
  "nonempty_str v = (case str_field v of Some s \<Rightarrow> if s = [] then None else Some s | None \<Rightarrow> None)"

definition bounded_int :: "pydantic \<Rightarrow> int \<Rightarrow> int option \<Rightarrow> pyval \<Rightarrow> int option" where
  "bounded_int P lo hi v =
     (case pd_int P v of
        Some n \<Rightarrow> if n < lo \<or> (\<exists>h \<in> set_option hi. n > h) then None else Some n
      | None \<Rightarrow> None)"

fun nullable :: "(pyval \<Rightarrow> 'a option) \<Rightarrow> pyval \<Rightarrow> 'a option option" where
  "nullable f PNone = Some None"
| "nullable f v = map_option Some (f v)"

definition required :: "(pyval \<Rightarrow> 'a option) \<Rightarrow> string \<Rightarrow> pydict \<Rightarrow> 'a option" where
  "required f k d = (case dict_get d k of None \<Rightarrow> None | Some v \<Rightarrow> f v)"

definition defaulted :: "(pyval \<Rightarrow> 'a option) \<Rightarrow> 'a \<Rightarrow> string \<Rightarrow> pydict \<Rightarrow> 'a option" where
  "defaulted f x k d = (case dict_get d k of None \<Rightarrow> Some x | Some v \<Rightarrow> f v)"

text \<open>\<open>extra="forbid"\<close>.\<close>

definition forbid_extra :: "string list \<Rightarrow> pyval \<Rightarrow> pydict option" where
  "forbid_extra ks v =
     (case dict_field v of
        Some d \<Rightarrow> if \<forall>k \<in> set (map fst d). k \<in> set ks then Some d else None
      | None \<Rightarrow> None)"

text \<open>\<open>list[Entry]\<close> with \<open>min_length=1\<close> and \<open>max_length\<close>; entry n is built from the n-th fresh values.\<close>

fun all_entries :: "(nat \<Rightarrow> pyval \<Rightarrow> 'a option) \<Rightarrow> nat \<Rightarrow> pyval list \<Rightarrow> 'a list option" where
  "all_entries f n [] = Some []"
| "all_entries f n (v # vs) =
     (case f n v of None \<Rightarrow> None | Some x \<Rightarrow> map_option (Cons x) (all_entries f (Suc n) vs))"

definition entry_list :: "(nat \<Rightarrow> pyval \<Rightarrow> 'a option) \<Rightarrow> nat \<Rightarrow> nat \<Rightarrow> pyval \<Rightarrow> 'a list option" where
  "entry_list f most n v =
     (case list_field v of
        None \<Rightarrow> None
      | Some vs \<Rightarrow> if vs = [] \<or> length vs > most then None else all_entries f n vs)"

subsection \<open>IngressEnvelope\<close>

record ingress_envelope =
  ig_topic :: string
  ig_payload :: pydict
  ig_event_id :: string
  ig_timestamp :: py_datetime
  ig_source :: "string option"
  ig_severity :: severity
  ig_priority :: event_priority
  ig_correlation_id :: "string option"
  ig_trace_context :: "pydict option"
  ig_metadata :: pydict
  ig_schema_version :: int

definition coerce_naive_to_utc :: "py_datetime \<Rightarrow> py_datetime" where
  "coerce_naive_to_utc d = (if dt_utcoff d = None then d\<lparr>dt_utcoff := Some 0\<rparr> else d)"

definition INGRESS_KEYS :: "string list" where
  "INGRESS_KEYS = [''topic'', ''payload'', ''event_id'', ''timestamp'', ''source'', ''severity'', ''priority'',
     ''correlation_id'', ''trace_context'', ''metadata'', ''schema_version'']"

text \<open>\<open>model_validate\<close>; \<open>u\<close> and \<open>now\<close> are what the default factories draw.\<close>

definition ingress_validate :: "pydantic \<Rightarrow> string \<Rightarrow> py_datetime \<Rightarrow> pyval \<Rightarrow> ingress_envelope option" where
  "ingress_validate P u now v =
     Option.bind (forbid_extra INGRESS_KEYS v) (\<lambda>d.
     Option.bind (required nonempty_str ''topic'' d) (\<lambda>t.
     Option.bind (defaulted dict_field [] ''payload'' d) (\<lambda>pl.
     Option.bind (defaulted str_field u ''event_id'' d) (\<lambda>i.
     Option.bind (defaulted (\<lambda>v. map_option coerce_naive_to_utc (pd_datetime P v)) now ''timestamp'' d) (\<lambda>ts.
     Option.bind (defaulted (nullable str_field) None ''source'' d) (\<lambda>src.
     Option.bind (defaulted (pd_severity P) INFO ''severity'' d) (\<lambda>sev.
     Option.bind (defaulted (pd_priority P) NORMAL ''priority'' d) (\<lambda>prio.
     Option.bind (defaulted (nullable str_field) None ''correlation_id'' d) (\<lambda>cid.
     Option.bind (defaulted (nullable dict_field) None ''trace_context'' d) (\<lambda>tc.
     Option.bind (defaulted dict_field [] ''metadata'' d) (\<lambda>md.
     Option.bind (defaulted (pd_int P) 1 ''schema_version'' d) (\<lambda>sv.
     Some \<lparr>ig_topic = t, ig_payload = pl, ig_event_id = i, ig_timestamp = ts, ig_source = src, ig_severity = sev,
           ig_priority = prio, ig_correlation_id = cid, ig_trace_context = tc, ig_metadata = md,
           ig_schema_version = sv\<rparr>))))))))))))"

definition to_envelope :: "ingress_envelope \<Rightarrow> envelope result" where
  "to_envelope g = post_init
     \<lparr>topic = ig_topic g, payload = PDict (ig_payload g), event_id = ig_event_id g, timestamp = ig_timestamp g,
      source = ig_source g, severity = ig_severity g, priority = ig_priority g,
      correlation_id = ig_correlation_id g,
      trace_context = (case ig_trace_context g of None \<Rightarrow> PNone | Some d \<Rightarrow> PDict d),
      metadata = PDict (ig_metadata g), schema_version = ig_schema_version g\<rparr>"

subsection \<open>Facts\<close>

lemma forbid_extra_Some: "forbid_extra ks v = Some d \<longleftrightarrow> v = PDict d \<and> (\<forall>k \<in> set (map fst d). k \<in> set ks)"
  by (cases v) (auto simp: forbid_extra_def)

lemma all_entries_Some:
  "all_entries f n vs = Some xs \<longleftrightarrow> length xs = length vs \<and> (\<forall>i < length vs. f (n + i) (vs ! i) = Some (xs ! i))"
proof (induction vs arbitrary: n xs)
  case (Cons v vs)
  then show ?case
    by (cases xs) (auto simp: All_less_Suc2 split: option.splits)
qed auto

lemma nonempty_str_Some: "nonempty_str v = Some s \<longleftrightarrow> v = PStr s \<and> s \<noteq> []"
  by (cases v) (auto simp: nonempty_str_def)

lemma coerce_aware: "dt_aware (coerce_naive_to_utc d)"
  by (simp add: coerce_naive_to_utc_def dt_aware_def)

lemma coerce_valid: "valid_dt d \<Longrightarrow> valid_dt (coerce_naive_to_utc d)"
  by (auto simp: coerce_naive_to_utc_def valid_dt_def)

text \<open>What a validated model is known to hold.\<close>

lemma ingress_parts:
  assumes "ingress_validate P u now v = Some g"
  obtains d where "v = PDict d" "\<forall>k \<in> set (map fst d). k \<in> set INGRESS_KEYS"
    "required nonempty_str ''topic'' d = Some (ig_topic g)"
    "defaulted str_field u ''event_id'' d = Some (ig_event_id g)"
    "defaulted (\<lambda>v. map_option coerce_naive_to_utc (pd_datetime P v)) now ''timestamp'' d = Some (ig_timestamp g)"
  using assms unfolding ingress_validate_def
  by (clarsimp simp only: Option.bind_eq_Some_conv forbid_extra_Some option.inject) simp

lemma ingress_facts:
  assumes "ingress_validate P u now v = Some g" "dt_aware now"
  shows "dt_aware (ig_timestamp g)" "ig_topic g \<noteq> []"
    "\<exists>d. v = PDict d \<and> (\<forall>k \<in> fst ` set d. k \<in> set INGRESS_KEYS)"
proof -
  obtain d where d: "v = PDict d" "\<forall>k \<in> set (map fst d). k \<in> set INGRESS_KEYS"
    "required nonempty_str ''topic'' d = Some (ig_topic g)"
    "defaulted (\<lambda>v. map_option coerce_naive_to_utc (pd_datetime P v)) now ''timestamp'' d = Some (ig_timestamp g)"
    by (rule ingress_parts[OF assms(1)])
  show "dt_aware (ig_timestamp g)" using d(4) assms(2) by (auto simp: defaulted_def split: option.splits) (metis coerce_aware)
  show "ig_topic g \<noteq> []" using d(3) by (auto simp: required_def nonempty_str_Some split: option.splits)
  show "\<exists>d. v = PDict d \<and> (\<forall>k \<in> fst ` set d. k \<in> set INGRESS_KEYS)" using d(1,2) by auto
qed

lemma ingress_valid_ts:
  assumes "ingress_validate P u now v = Some g" "valid_dt now" "\<forall>x d. pd_datetime P x = Some d \<longrightarrow> valid_dt d"
  shows "valid_dt (ig_timestamp g)"
proof -
  obtain d where "defaulted (\<lambda>v. map_option coerce_naive_to_utc (pd_datetime P v)) now ''timestamp'' d = Some (ig_timestamp g)"
    by (rule ingress_parts[OF assms(1)])
  then show ?thesis using assms(2,3) by (auto simp: defaulted_def split: option.splits) (metis coerce_valid)
qed

lemma to_envelope_aware:
  assumes "dt_aware (ig_timestamp g)"
  shows "\<exists>e. to_envelope g = Inr e \<and> topic e = ig_topic g \<and> event_id e = ig_event_id g \<and> timestamp e = ig_timestamp g
    \<and> payload e = PDict (ig_payload g) \<and> metadata e = PDict (ig_metadata g) \<and> schema_version e = ig_schema_version g
    \<and> (trace_context e = PNone \<or> (\<exists>d. trace_context e = PDict d))"
  using assms by (simp add: to_envelope_def split: option.split)

end
