(* ===== verification/Epoch.thy ===== *)
theory Epoch
  imports Dlq
begin

text \<open>
  \<open>datetime.fromtimestamp(ms / 1000, tz=timezone.utc)\<close>, as \<open>_iso_from_ms\<close> of queues/api.py uses
  it: the calendar fields of an epoch instant, in UTC, through the proleptic Gregorian ordinal.  The
  float quotient is exact to the microsecond for the instants below 2 ^ 33 seconds (the year 2242);
  later instants are modelled without its rounding.  An instant outside the years 1 to 9999 raises.
\<close>

definition EPOCH_ORDINAL :: int where "EPOCH_ORDINAL = 719163"

definition days_in_year :: "nat \<Rightarrow> nat" where
  "days_in_year y = (if 4 dvd y \<and> (\<not> 100 dvd y \<or> 400 dvd y) then 366 else 365)"

lemma days_in_year_pos: "0 < days_in_year y"
  by (simp add: days_in_year_def)

text \<open>The year and the day of the year, the month and the day of the month, both counted from 0.\<close>

function year_of :: "nat \<Rightarrow> nat \<Rightarrow> nat \<times> nat" where
  "year_of y n = (if n < days_in_year y then (y, n) else year_of (Suc y) (n - days_in_year y))"
  by pat_completeness auto
termination by (relation "measure snd") (use days_in_year_pos in \<open>auto simp: not_less intro: diff_less dual_order.strict_trans1\<close>)

function month_of :: "nat \<Rightarrow> nat \<Rightarrow> nat \<Rightarrow> nat \<times> nat" where
  "month_of y m n = (if m \<ge> 12 \<or> n < days_in_month y m then (m, n) else month_of y (Suc m) (n - days_in_month y m))"
  by pat_completeness auto
termination by (relation "measure (\<lambda>(y, m, n). 12 - m)") auto

declare year_of.simps [simp del]
declare month_of.simps [simp del]

text \<open>Ordinal 1 is the first day of year 1; the calendar repeats every 400 years, 146097 days.\<close>

definition date_of_ordinal :: "int \<Rightarrow> nat \<times> nat \<times> nat" where
  "date_of_ordinal k =
     (let c = nat ((k - 1) div 146097); (y, n) = year_of (Suc 0) (nat ((k - 1) mod 146097)); (m, d) = month_of y 1 n
      in (400 * c + y, m, Suc d))"

definition utc_from_ms :: "int \<Rightarrow> py_datetime result" where
  "utc_from_ms ms =
     (let days = ms div 86400000; r = nat (ms mod 86400000); (y, m, d) = date_of_ordinal (days + EPOCH_ORDINAL)
      in if days + EPOCH_ORDINAL < 1 \<or> 9999 < y then Inl (ValueError ''year is out of range'')
         else Inr \<lparr>dt_year = y, dt_month = m, dt_day = d, dt_hour = r div 3600000, dt_minute = r div 60000 mod 60,
                   dt_second = r div 1000 mod 60, dt_micro = r mod 1000 * 1000, dt_utcoff = Some 0\<rparr>)"

definition iso_from_ms :: "int \<Rightarrow> string result" where
  "iso_from_ms epoch_ms = map_sum id isoformat (utc_from_ms epoch_ms)"

subsection \<open>The fields denote the instant\<close>

lemma days_before_Suc: "days_before_year (int (Suc z)) = int (z * 365 + z div 4 + z div 400) - int (z div 100)"
  by (simp add: days_before_year_def zdiv_int)

lemma leap_dvd: "(400::nat) dvd y \<Longrightarrow> 100 dvd y" "(100::nat) dvd y \<Longrightarrow> 4 dvd y"
  by (auto elim: dvd_trans[rotated])

lemma days_before_next:
  assumes "0 < y"
  shows "days_before_year (int (Suc y)) = days_before_year (int y) + int (days_in_year y)"
proof -
  obtain z where y: "y = Suc z" using assms by (cases y) auto
  have d: "Suc z div k = z div k + of_bool (k dvd Suc z)" for k
    by (simp add: div_Suc dvd_eq_mod_eq_0)
  define p4 p100 p400 where p: "p4 = (4 dvd Suc z)" "p100 = (100 dvd Suc z)" "p400 = (400 dvd Suc z)"
  define a b c where a: "a = z div 4" "b = z div 100" "c = z div 400"
  have "p400 \<Longrightarrow> p100" "p100 \<Longrightarrow> p4" using leap_dvd[of "Suc z"] by (auto simp: p)
  then show ?thesis unfolding y days_before_Suc days_in_year_def d p[symmetric] a[symmetric]
    by (cases p4; cases p100; cases p400; simp)
qed

lemma year_of_facts:
  "0 < y \<Longrightarrow> year_of y n = (y', n') \<Longrightarrow>
    days_before_year (int y) + int n = days_before_year (int y') + int n' \<and> n' < days_in_year y' \<and> y \<le> y'"
proof (induction y n rule: year_of.induct)
  case (1 y n)
  show ?case
  proof (cases "n < days_in_year y")
    case True
    then show ?thesis using 1(3) by (simp add: year_of.simps[of y n])
  next
    case False
    have "year_of (Suc y) (n - days_in_year y) = (y', n')" using 1(3) False by (simp add: year_of.simps[of y n])
    from 1(1)[OF False _ this] show ?thesis using False days_before_next[OF 1(2)] by auto
  qed
qed

lemma month_of_facts:
  "m \<le> 12 \<Longrightarrow> n < sum_list (map (days_in_month y) [m ..< 13]) \<Longrightarrow> month_of y m n = (m', n') \<Longrightarrow>
    sum_list (map (days_in_month y) [m ..< m']) + n' = n \<and> n' < days_in_month y m' \<and> m \<le> m' \<and> m' \<le> 12"
proof (induction y m n rule: month_of.induct)
  case (1 y m n)
  have u: "[m ..< 13] = m # [Suc m ..< 13]" using 1(2) by (simp add: upt_rec)
  show ?case
  proof (cases "m \<ge> 12 \<or> n < days_in_month y m")
    case True
    then have "m' = m" "n' = n" using 1(4) by (simp_all add: month_of.simps[of y m n])
    moreover have "n < days_in_month y m" using True 1(2,3) u by auto
    ultimately show ?thesis using 1(2) by simp
  next
    case False
    have "month_of y (Suc m) (n - days_in_month y m) = (m', n')" using 1(4) False by (simp add: month_of.simps[of y m n])
    moreover have "n - days_in_month y m < sum_list (map (days_in_month y) [Suc m ..< 13])" using 1(3) False u by auto
    ultimately have i: "sum_list (map (days_in_month y) [Suc m ..< m']) + n' = n - days_in_month y m"
      "n' < days_in_month y m'" "Suc m \<le> m'" "m' \<le> 12" using 1(1) False by auto
    have "[m ..< m'] = m # [Suc m ..< m']" using i(3) by (simp add: upt_rec)
    then show ?thesis using i False by auto
  qed
qed

lemma months_of_year: "sum_list (map (days_in_month y) [1 ..< 13]) = days_in_year y"
  by (simp add: upt_rec days_in_month_def days_in_year_def)

lemma calendar_cycle: "days_before_year (int (400 * c + Suc y)) = int c * 146097 + days_before_year (int (Suc y))"
  "days_in_month (400 * c + y) m = days_in_month y m"
proof -
  have "(400 * c + y) div 100 = 4 * c + y div 100" using div_mult_self3[of 100 y "4 * c"] by simp
  moreover have "(400 * c + y) div 4 = 100 * c + y div 4" using div_mult_self3[of 4 y "100 * c"] by simp
  ultimately show "days_before_year (int (400 * c + Suc y)) = int c * 146097 + days_before_year (int (Suc y))"
    unfolding add_Suc_right days_before_Suc by simp
  have "k dvd 400 * c + y \<longleftrightarrow> k dvd y" if "k dvd 400" for k :: nat
    using that by (simp add: dvd_add_right_iff)
  then show "days_in_month (400 * c + y) m = days_in_month y m" by (simp add: days_in_month_def)
qed

lemma date_of_ordinal_facts:
  assumes "1 \<le> k" "date_of_ordinal k = (y, m, d)"
  shows "days_before_year (int y) + int (sum_list (map (days_in_month y) [1 ..< m])) + int d = k"
    "1 \<le> y" "1 \<le> m" "m \<le> 12" "1 \<le> d" "d \<le> days_in_month y m"
proof -
  define c where "c = nat ((k - 1) div 146097)"
  define r where "r = nat ((k - 1) mod 146097)"
  have "0 \<le> (k - 1) div 146097" using assms(1) by (simp add: pos_imp_zdiv_nonneg_iff)
  then have k: "k = int c * 146097 + int r + 1" by (simp add: c_def r_def)
  obtain y0 n where y0: "year_of (Suc 0) r = (y0, n)" by force
  obtain m0 d0 where m0: "month_of y0 1 n = (m0, d0)" by force
  have e: "y = 400 * c + y0" "m = m0" "d = Suc d0" using assms(2) y0 m0 by (auto simp: date_of_ordinal_def Let_def c_def r_def)
  have yf: "int r = days_before_year (int y0) + int n" "n < days_in_year y0" "1 \<le> y0"
    using year_of_facts[OF _ y0] by (auto simp: days_before_year_def)
  have mf: "sum_list (map (days_in_month y0) [1 ..< m0]) + d0 = n" "d0 < days_in_month y0 m0" "1 \<le> m0" "m0 \<le> 12"
    using month_of_facts[OF _ _ m0] yf(2) months_of_year[of y0] by auto
  obtain z where z: "y0 = Suc z" using yf(3) by (cases y0) auto
  have dm: "days_in_month y = days_in_month y0" using calendar_cycle(2) e(1) by auto
  have "days_before_year (int y) = int c * 146097 + days_before_year (int y0)" unfolding e(1) z by (rule calendar_cycle(1))
  then show "days_before_year (int y) + int (sum_list (map (days_in_month y) [1 ..< m])) + int d = k"
    unfolding k dm e(2,3) using yf(1) mf(1) by simp
  show "1 \<le> y" "1 \<le> m" "m \<le> 12" "1 \<le> d" "d \<le> days_in_month y m" using yf(3) mf e dm by auto
qed

lemma clock_fields:
  fixes r :: nat
  shows "r div 3600000 * 3600000 + r div 60000 mod 60 * 60000 + r div 1000 mod 60 * 1000 + r mod 1000 = r"
proof -
  have lin: "c * 3600000 + z * 60000 + y * 1000 + x = n" if "n = 1000 * a + x" "a = 60 * b + y" "b = 60 * c + z"
    for n a b c x y z :: nat using that by simp
  have e: "r div 60000 = r div 1000 div 60" "r div 3600000 = r div 1000 div 60 div 60"
    by (simp_all add: div_mult2_eq[symmetric])
  show ?thesis unfolding e by (rule lin) (rule mult_div_mod_eq[symmetric])+
qed

lemma utc_from_ms_facts:
  assumes "utc_from_ms ms = Inr d"
  shows "valid_dt d" "dt_utcoff d = Some 0" "dt_instant d = (ms + EPOCH_ORDINAL * 86400000) * 1000"
proof -
  let ?k = "ms div 86400000 + EPOCH_ORDINAL" and ?r = "nat (ms mod 86400000)"
  obtain y m dd where dt: "date_of_ordinal ?k = (y, m, dd)" by (cases "date_of_ordinal ?k") auto
  have c: "1 \<le> ?k" "y \<le> 9999" and d: "d = \<lparr>dt_year = y, dt_month = m, dt_day = dd, dt_hour = ?r div 3600000,
      dt_minute = ?r div 60000 mod 60, dt_second = ?r div 1000 mod 60, dt_micro = ?r mod 1000 * 1000, dt_utcoff = Some 0\<rparr>"
    using assms dt by (auto simp: utc_from_ms_def Let_def split: if_splits)
  note f = date_of_ordinal_facts[OF c(1) dt]
  have r: "?r < 86400000" by (simp add: nat_less_iff)
  have "?r div 3600000 < 24" using r by (simp add: div_less_iff_less_mult)
  then show "valid_dt d" using f c(2) by (simp add: d valid_dt_def)
  show "dt_utcoff d = Some 0" by (simp add: d)
  have o: "dt_ordinal d = ?k" using f(1) by (simp add: dt_ordinal_def d)
  note sec = clock_fields[of ?r]
  have "dt_instant d = ?k * 86400000000 + int (?r div 3600000 * 3600000 + ?r div 60000 mod 60 * 60000 + ?r div 1000 mod 60 * 1000 + ?r mod 1000) * 1000"
  proof -
    define h mi se us where "h = ?r div 3600000" and "mi = ?r div 60000 mod 60" and "se = ?r div 1000 mod 60" and "us = ?r mod 1000"
    note f = this
    define w where "w = ?k"
    have g: "dt_hour d = ?r div 3600000" "dt_minute d = ?r div 60000 mod 60" "dt_second d = ?r div 1000 mod 60"
      "dt_micro d = ?r mod 1000 * 1000" "dt_utcoff d = Some 0" unfolding d by simp_all
    show ?thesis unfolding dt_instant_def o g f[symmetric] w_def[symmetric] by (simp add: algebra_simps)
  qed
  also have "\<dots> = (ms + EPOCH_ORDINAL * 86400000) * 1000"
  proof -
    define w where "w = ms div 86400000"
    define v where "v = ?r"
    have "ms = w * 86400000 + int v" by (simp add: w_def v_def)
    then show ?thesis unfolding sec unfolding w_def[symmetric] v_def[symmetric] by (simp add: algebra_simps)
  qed
  finally show "dt_instant d = (ms + EPOCH_ORDINAL * 86400000) * 1000" .
qed

lemma days_before_mono: "y \<le> y' \<Longrightarrow> 0 < y \<Longrightarrow> days_before_year (int y) \<le> days_before_year (int y')"
proof (induction y' rule: dec_induct)
  case (step n)
  then show ?case using days_before_next[of n] by simp
qed simp

text \<open>Every instant from 0001-01-01 to 9999-12-31 has its fields.\<close>

lemma utc_from_ms_total:
  assumes "- 62135596800000 \<le> ms" "ms < 253402300800000"
  shows "\<exists>d. utc_from_ms ms = Inr d"
proof -
  let ?k = "ms div 86400000 + EPOCH_ORDINAL"
  obtain y m dd where dt: "date_of_ordinal ?k = (y, m, dd)" by (cases "date_of_ordinal ?k") auto
  have lo: "- 719162 \<le> ms div 86400000" using zdiv_mono1[OF assms(1), of 86400000] by simp
  have hi: "ms div 86400000 < 2932897" using assms(2) by (simp add: div_less_iff_less_mult)
  have k: "1 \<le> ?k" "?k \<le> 3652059" using lo hi by (simp_all add: EPOCH_ORDINAL_def)
  note f = date_of_ordinal_facts[OF k(1) dt]
  have "days_before_year (int y) < 3652059" using f(1,5) k(2) by linarith
  moreover have "3652059 \<le> days_before_year (int y)" if "10000 \<le> y"
    using days_before_mono[OF that] by (simp add: days_before_year_def)
  ultimately have "y \<le> 9999" by linarith
  then show ?thesis using k(1) dt by (simp add: utc_from_ms_def Let_def)
qed

end
