(* ===== verification/Http.thy ===== *)
theory Http
  imports PyValues
begin

text \<open>
  What the HTTP surfaces share, from hooks/webhook/receiver.py: responses, the uniform error body
  and the capped reading of a request body.  A response body is the value handed to
  \<open>json_response\<close>; a request body is the list of the chunks the stream yields.
\<close>

subsection \<open>Responses\<close>

record response =
  rs_status :: int
  rs_body :: pydict
  rs_headers :: "(string \<times> string) list"

definition json_response :: "int \<Rightarrow> pydict \<Rightarrow> response" where
  "json_response status body = \<lparr>rs_status = status, rs_body = body, rs_headers = []\<rparr>"

definition json_error :: "int \<Rightarrow> string \<Rightarrow> (string \<times> string) list \<Rightarrow> pydict \<Rightarrow> response" where
  "json_error status slug headers extra =
     \<lparr>rs_status = status, rs_body = fold (\<lambda>(k, v). dict_set k v) extra [(''status'', PStr slug)], rs_headers = headers\<rparr>"

subsection \<open>Bodies\<close>

text \<open>\<^const>\<open>None\<close> is \<open>BodyTooLarge\<close>.\<close>

fun read_chunks :: "int \<Rightarrow> string \<Rightarrow> string list \<Rightarrow> string option" where
  "read_chunks limit buffer [] = Some buffer"
| "read_chunks limit buffer (c # cs) =
     (let b = buffer @ c in if int (length b) > limit then None else read_chunks limit b cs)"

definition read_capped :: "int option \<Rightarrow> string list \<Rightarrow> int \<Rightarrow> string option" where
  "read_capped declared chunks limit =
     (if \<exists>n \<in> set_option declared. n > limit then None else read_chunks limit [] chunks)"

subsection \<open>Facts\<close>

lemma json_error_status [simp]: "rs_status (json_error n slug h x) = n"
  by (simp add: json_error_def)

lemma read_chunks_spec: "0 \<le> limit \<Longrightarrow> int (length buffer) \<le> limit \<Longrightarrow>
    read_chunks limit buffer cs = (if int (length (buffer @ concat cs)) > limit then None else Some (buffer @ concat cs))"
  by (induction limit buffer cs rule: read_chunks.induct) (auto simp: Let_def)

end
