(* ===== verification/QueueApi.thy ===== *)
theory QueueApi
  imports QueueRuns IngressModel Epoch Facade Http
begin

text \<open>
  The HTTP surface of the pull queues: the request models of queues/models.py and the handlers of
  queues/api.py.  A handler takes the request and the state (the queue server, the bus it may mirror
  to, the number of receives in flight) and returns the response, or the exception that escapes it.
  The bus is reached through its \<open>emit\<close> alone, an argument.  A response body is the value handed to
  \<open>json_response\<close>; the list of messages of a validation error is left out.
\<close>

subsection \<open>Request models\<close>

record receive_request =
  rr_group :: string
  rr_max_messages :: int
  rr_wait_time_seconds :: int
  rr_visibility_timeout_seconds :: "int option"

definition receive_validate :: "pydantic \<Rightarrow> pyval \<Rightarrow> receive_request option" where
  "receive_validate P v =
     Option.bind (forbid_extra [''group'', ''max_messages'', ''wait_time_seconds'', ''visibility_timeout_seconds''] v) (\<lambda>d.
     Option.bind (required nonempty_str ''group'' d) (\<lambda>g.
     Option.bind (defaulted (bounded_int P 1 (Some (int MAX_BATCH_ENTRIES))) 1 ''max_messages'' d) (\<lambda>n.
     Option.bind (defaulted (bounded_int P 0 (Some MAX_WAIT_TIME_SECONDS)) 0 ''wait_time_seconds'' d) (\<lambda>w.
     Option.bind (defaulted (nullable (bounded_int P 0 None)) None ''visibility_timeout_seconds'' d) (\<lambda>vt.
     Some \<lparr>rr_group = g, rr_max_messages = n, rr_wait_time_seconds = w, rr_visibility_timeout_seconds = vt\<rparr>)))))"

definition unique_ids :: "('a \<Rightarrow> string) \<Rightarrow> 'a list \<Rightarrow> 'a list option" where
  "unique_ids f es = (case first_duplicate [] (map f es) of None \<Rightarrow> Some es | Some _ \<Rightarrow> None)"

definition send_entry :: "pydantic \<Rightarrow> gen \<Rightarrow> nat \<Rightarrow> pyval \<Rightarrow> (string \<times> ingress_envelope) option" where
  "send_entry P G n v =
     Option.bind (forbid_extra [''id'', ''message''] v) (\<lambda>d.
     Option.bind (required nonempty_str ''id'' d) (\<lambda>i.
     map_option (Pair i) (required (ingress_validate P (uuid4 G n) (utcnow G n)) ''message'' d)))"

definition send_batch_validate :: "pydantic \<Rightarrow> gen \<Rightarrow> nat \<Rightarrow> pyval \<Rightarrow> (string \<times> ingress_envelope) list option" where
  "send_batch_validate P G n v =
     Option.bind (forbid_extra [''entries''] v) (\<lambda>d.
     Option.bind (required (entry_list (send_entry P G) MAX_BATCH_ENTRIES n) ''entries'' d) (unique_ids fst))"

record handle_entry =
  he_id :: string
  he_receipt_handle :: string
  he_visibility_s :: int

definition delete_entry :: "pyval \<Rightarrow> handle_entry option" where
  "delete_entry v =
     Option.bind (forbid_extra [''id'', ''receipt_handle''] v) (\<lambda>d.
     Option.bind (required nonempty_str ''id'' d) (\<lambda>i.
     Option.bind (required nonempty_str ''receipt_handle'' d) (\<lambda>h.
     Some \<lparr>he_id = i, he_receipt_handle = h, he_visibility_s = 0\<rparr>)))"

definition visibility_entry :: "pydantic \<Rightarrow> pyval \<Rightarrow> handle_entry option" where
  "visibility_entry P v =
     Option.bind (forbid_extra [''id'', ''receipt_handle'', ''visibility_timeout_seconds''] v) (\<lambda>d.
     Option.bind (required nonempty_str ''id'' d) (\<lambda>i.
     Option.bind (required nonempty_str ''receipt_handle'' d) (\<lambda>h.
     Option.bind (required (bounded_int P 0 None) ''visibility_timeout_seconds'' d) (\<lambda>n.
     Some \<lparr>he_id = i, he_receipt_handle = h, he_visibility_s = n\<rparr>))))"

text \<open>The body of a delete and of a visibility change: a group and its entries.\<close>

definition group_batch_validate :: "(pyval \<Rightarrow> handle_entry option) \<Rightarrow> pyval \<Rightarrow> (string \<times> handle_entry list) option" where
  "group_batch_validate f v =
     Option.bind (forbid_extra [''group'', ''entries''] v) (\<lambda>d.
     Option.bind (required nonempty_str ''group'' d) (\<lambda>g.
     Option.bind (required (entry_list (\<lambda>_. f) MAX_BATCH_ENTRIES 0) ''entries'' d) (\<lambda>es.
     map_option (Pair g) (unique_ids he_id es))))"

definition delete_validate :: "pyval \<Rightarrow> (string \<times> handle_entry list) option" where
  "delete_validate = group_batch_validate delete_entry"

definition visibility_validate :: "pydantic \<Rightarrow> pyval \<Rightarrow> (string \<times> handle_entry list) option" where
  "visibility_validate P = group_batch_validate (visibility_entry P)"

subsection \<open>Requests, responses and the state\<close>

record http_request =
  hr_queue :: string
  hr_authorization :: "string option"
  hr_api_key :: "string option"
  hr_token :: "string option"
  hr_group :: "string option"
  hr_length :: "int option"
  hr_chunks :: "string list"

datatype role = Producer | Consumer | Admin

fun role_name :: "role \<Rightarrow> string" where
  "role_name Producer = ''producer''"
| "role_name Consumer = ''consumer''"
| "role_name Admin = ''admin''"

fun role_tokens :: "role \<Rightarrow> queue_config \<Rightarrow> string list" where
  "role_tokens Producer q = qc_producer_tokens q"
| "role_tokens Consumer q = qc_consumer_tokens q"
| "role_tokens Admin q = qc_admin_tokens q"

text \<open>
  \<open>ap_max_inflight\<close> is 0 without a semaphore; \<open>ap_dlq\<close> is the handler's \<open>list_for_queue\<close>, if there is
  a handler and it has one; \<open>ap_utf8\<close> decodes a body.
\<close>

record queue_api =
  ap_registry :: queue_registry
  ap_store :: queue_store
  ap_name :: string
  ap_auth_token :: "string option"
  ap_has_bus :: bool
  ap_dlq :: "(string \<Rightarrow> pyval list result) option option"
  ap_max_inflight :: nat
  ap_expose_admin :: bool
  ap_pydantic :: pydantic
  ap_utf8 :: "string \<Rightarrow> string option"

record ('r, 'b) api_state =
  as_queue :: "'r qstate"
  as_bus :: 'b
  as_inflight :: nat
  as_draws :: nat

definition resolve_auth_token :: "(string \<Rightarrow> string option) \<Rightarrow> string option \<Rightarrow> string option" where
  "resolve_auth_token nav given =
     (case given of
        Some t \<Rightarrow> Some t
      | None \<Rightarrow> (case nav ''BUS_QUEUE_TOKEN'' of
                   Some (c # cs) \<Rightarrow> Some (c # cs)
                 | _ \<Rightarrow> nav ''BUS_INGRESS_TOKEN''))"

text \<open>The permits of a semaphore that is only taken when it is not locked.\<close>

definition semaphore_permits :: "int \<Rightarrow> nat" where
  "semaphore_permits max_inflight_receives = (if max_inflight_receives > 0 then nat max_inflight_receives else 0)"

subsection \<open>Who may act\<close>

definition presented_token :: "http_request \<Rightarrow> string option" where
  "presented_token rq =
     (let authorization = (case hr_authorization rq of None \<Rightarrow> [] | Some a \<Rightarrow> a)
      in if py_startswith authorization ''Bearer '' then Some (drop 7 authorization)
         else (case hr_api_key rq of Some (c # cs) \<Rightarrow> Some (c # cs) | _ \<Rightarrow> hr_token rq))"

definition has_token :: "http_request \<Rightarrow> bool" where
  "has_token rq \<longleftrightarrow> (case presented_token rq of None \<Rightarrow> False | Some t \<Rightarrow> t \<noteq> [])"

definition authorized :: "queue_api \<Rightarrow> http_request \<Rightarrow> queue_config \<Rightarrow> role \<Rightarrow> bool" where
  "authorized A rq q r \<longleftrightarrow>
     (case presented_token rq of
        None \<Rightarrow> False
      | Some t \<Rightarrow>
          t \<noteq> [] \<and>
          (\<exists>c \<in> set (role_tokens r q @ (case ap_auth_token A of Some (x # xs) \<Rightarrow> [x # xs] | _ \<Rightarrow> [])). c \<noteq> [] \<and> t = c))"

definition resolve :: "queue_api \<Rightarrow> http_request \<Rightarrow> role \<Rightarrow> response + queue_config" where
  "resolve A rq r =
     (case get_queue (ap_registry A) (hr_queue rq) of
        None \<Rightarrow> Inl (json_error 404 ''unknown_queue'' [] [(''queue'', PStr (hr_queue rq))])
      | Some q \<Rightarrow>
          if \<not> has_token rq then Inl (json_error 401 ''unauthorized'' [] [])
          else if \<not> authorized A rq q r
          then (if \<exists>r' \<in> set [Producer, Consumer, Admin]. r' \<noteq> r \<and> authorized A rq q r'
                then Inl (json_error 403 ''forbidden'' [] [(''required_role'', PStr (role_name r))])
                else Inl (json_error 401 ''unauthorized'' [] []))
          else Inr q)"

subsection \<open>Bodies\<close>

definition read_json :: "queue_api \<Rightarrow> http_request \<Rightarrow> queue_config \<Rightarrow> response + pyval" where
  "read_json A rq q =
     (case read_capped (hr_length rq) (hr_chunks rq) (qc_max_body_bytes q) of
        None \<Rightarrow> Inl (json_error 413 ''payload_too_large'' [] [(''limit'', PInt (qc_max_body_bytes q))])
      | Some raw \<Rightarrow>
          (case (case ap_utf8 A raw of None \<Rightarrow> None | Some t \<Rightarrow> (case loads (qs_json (ap_store A)) t of Inl _ \<Rightarrow> None | Inr v \<Rightarrow> Some v)) of
             None \<Rightarrow> Inl (json_error 400 ''invalid_payload'' [] [(''detail'', PStr ''body is not JSON'')])
           | Some v \<Rightarrow> Inr v))"

definition validation_error :: response where
  "validation_error = json_error 400 ''invalid_payload'' [] []"

definition unavailable :: response where
  "unavailable = json_error 503 ''unavailable'' [(''Retry-After'', ''5'')] []"

definition invalid_parameter :: "pydict \<Rightarrow> response" where
  "invalid_parameter extra = json_error 400 ''invalid_parameter'' [] extra"

text \<open>The common start of the handlers that read a body.\<close>

definition accept :: "queue_api \<Rightarrow> http_request \<Rightarrow> role \<Rightarrow> (pyval \<Rightarrow> 'a option) \<Rightarrow> response + queue_config \<times> 'a" where
  "accept A rq r validate =
     (case resolve A rq r of
        Inl e \<Rightarrow> Inl e
      | Inr q \<Rightarrow>
          (case read_json A rq q of
             Inl e \<Rightarrow> Inl e
           | Inr v \<Rightarrow> (case validate v of None \<Rightarrow> Inl validation_error | Some x \<Rightarrow> Inr (q, x))))"

text \<open>\<open>(receipt, slug)\<close>; an exception other than \<open>ReceiptError\<close> escapes.\<close>

definition decode_handle :: "queue_api \<Rightarrow> string \<Rightarrow> queue_config \<Rightarrow> string \<Rightarrow> int \<Rightarrow> (string + receipt) result" where
  "decode_handle A h q g now_ms =
     (case store_decode_receipt (ap_store A) h (qc_name q) g now_ms of
        Inl (ReceiptError reason) \<Rightarrow>
          Inr (Inl (if reason = ''expired'' then ''expired_receipt_handle'' else ''invalid_receipt_handle''))
      | Inl UnicodeEncodeError \<Rightarrow> Inl (ValueError ''UnicodeEncodeError'')
      | Inr rc \<Rightarrow> Inr (Inr rc))"

subsection \<open>Batch outcomes\<close>

datatype outcome = Success string "string option" | Failure string string string

fun is_failure :: "outcome \<Rightarrow> bool" where
  "is_failure (Failure i c m) = True"
| "is_failure (Success i m) = False"

fun outcome_dict :: "outcome \<Rightarrow> pyval" where
  "outcome_dict (Success i m) = PDict [(''id'', PStr i), (''message_id'', opt_str m)]"
| "outcome_dict (Failure i c m) = PDict [(''id'', PStr i), (''code'', PStr c), (''message'', PStr m)]"

definition batch_response :: "outcome list \<Rightarrow> response" where
  "batch_response os =
     (let body = [(''successful'', PList (map outcome_dict (filter (Not \<circ> is_failure) os))),
                  (''failed'', PList (map outcome_dict (filter is_failure os)))]
      in if \<exists>x \<in> set os. is_failure x then json_response 207 (body @ [(''status'', PStr ''partial'')])
         else json_response 200 body)"

end
