(* ===== verification/QueueHandlers.thy ===== *)
theory QueueHandlers
  imports QueueApi
begin

text \<open>
  The handlers of queues/api.py.  The receive handler is cut at its only await that others can
  observe: up to the semaphore, which it takes, and from the store call to the response.
\<close>

subsection \<open>Producing\<close>

definition mirror ::
    "'b bus_emit \<Rightarrow> queue_api \<Rightarrow> queue_config \<Rightarrow> ingress_envelope \<Rightarrow> string \<Rightarrow> 'b \<Rightarrow> 'b" where
  "mirror E A q g message_id b =
     (if \<not> qc_mirror_to_bus q \<or> \<not> ap_has_bus A then b
      else (let t = (case effective_topic_prefix q of Some (c # cs) \<Rightarrow> c # cs @ ''.'' @ ig_topic g | _ \<Rightarrow> ig_topic g);
                src = (case ig_source g of Some (c # cs) \<Rightarrow> c # cs | _ \<Rightarrow> ''queue:'' @ qc_name q)
            in snd (E t (PDict (ig_payload g))
                 \<lparr>ek_event_id = Some (ig_event_id g), ek_timestamp = Some (ig_timestamp g), ek_source = Some src,
                  ek_priority = Some (ig_priority g), ek_correlation_id = ig_correlation_id g,
                  ek_metadata = Some (dict_set ''message_id'' (PStr message_id)
                                       (dict_set ''queue'' (PStr (qc_name q)) (ig_metadata g))),
                  ek_severity = Some (ig_severity g)\<rparr> b)))"

definition send_ingress ::
    "'r redis_ops \<Rightarrow> queue_api \<Rightarrow> queue_config \<Rightarrow> ingress_envelope \<Rightarrow> ('r, 'b) api_state \<Rightarrow>
     string result \<times> ('r, 'b) api_state" where
  "send_ingress R A q g st =
     (case to_envelope g of
        Inl x \<Rightarrow> (Inl x, st)
      | Inr e \<Rightarrow> (case send R (ap_store A) q e (q_redis (as_queue st)) of
                    (x, r) \<Rightarrow> (x, st\<lparr>as_queue := (as_queue st)\<lparr>q_redis := r\<rparr>\<rparr>)))"

definition handle_send ::
    "'r redis_ops \<Rightarrow> 'b bus_emit \<Rightarrow> queue_api \<Rightarrow> gen \<Rightarrow> http_request \<Rightarrow> ('r, 'b) api_state \<Rightarrow>
     response \<times> ('r, 'b) api_state" where
  "handle_send R E A G rq st =
     (let n = as_draws st
      in case accept A rq Producer (ingress_validate (ap_pydantic A) (uuid4 G n) (utcnow G n)) of
           Inl e \<Rightarrow> (e, st)
         | Inr (q, g) \<Rightarrow>
             (case send_ingress R A q g (st\<lparr>as_draws := Suc n\<rparr>) of
                (Inl _, st1) \<Rightarrow> (unavailable, st1)
              | (Inr i, st1) \<Rightarrow>
                  (json_response 201 [(''message_id'', PStr i), (''event_id'', PStr (ig_event_id g))],
                   st1\<lparr>as_bus := mirror E A q g i (as_bus st1)\<rparr>)))"

fun send_entries ::
    "'r redis_ops \<Rightarrow> 'b bus_emit \<Rightarrow> queue_api \<Rightarrow> queue_config \<Rightarrow> (string \<times> ingress_envelope) list \<Rightarrow> ('r, 'b) api_state \<Rightarrow>
     outcome list \<times> ('r, 'b) api_state" where
  "send_entries R E A q [] st = ([], st)"
| "send_entries R E A q ((k, g) # es) st =
     (case send_ingress R A q g st of
        (Inl x, st1) \<Rightarrow>
          (case send_entries R E A q es st1 of (os, st2) \<Rightarrow> (Failure k ''unavailable'' (exc_msg x) # os, st2))
      | (Inr i, st1) \<Rightarrow>
          (case send_entries R E A q es (st1\<lparr>as_bus := mirror E A q g i (as_bus st1)\<rparr>) of
             (os, st2) \<Rightarrow> (Success k (Some i) # os, st2)))"

definition handle_send_batch ::
    "'r redis_ops \<Rightarrow> 'b bus_emit \<Rightarrow> queue_api \<Rightarrow> gen \<Rightarrow> http_request \<Rightarrow> ('r, 'b) api_state \<Rightarrow>
     response \<times> ('r, 'b) api_state" where
  "handle_send_batch R E A G rq st =
     (let n = as_draws st
      in case accept A rq Producer (send_batch_validate (ap_pydantic A) G n) of
           Inl e \<Rightarrow> (e, st)
         | Inr (q, es) \<Rightarrow>
             (case send_entries R E A q es (st\<lparr>as_draws := n + length es\<rparr>) of
                (os, st1) \<Rightarrow> (batch_response os, st1)))"

subsection \<open>Receiving\<close>

record receive_job =
  rj_queue :: queue_config
  rj_options :: receive_request
  rj_wait_ms :: int
  rj_visibility_ms :: "int option"

definition begin_receive ::
    "queue_api \<Rightarrow> http_request \<Rightarrow> ('r, 'b) api_state \<Rightarrow> (response + receive_job) \<times> ('r, 'b) api_state" where
  "begin_receive A rq st =
     (case accept A rq Consumer (receive_validate (ap_pydantic A)) of
        Inl e \<Rightarrow> (Inl e, st)
      | Inr (q, opt) \<Rightarrow>
          (let vis = map_option (\<lambda>n. n * 1000) (rr_visibility_timeout_seconds opt);
               wait_ms = min (rr_wait_time_seconds opt) MAX_WAIT_TIME_SECONDS * 1000
           in if find_group q (rr_group opt) = None
              then (Inl (invalid_parameter [(''detail'', PStr ''unknown group'')]), st)
              else if \<exists>n \<in> set_option vis. n > qc_max_visibility_ms q
              then (Inl (invalid_parameter [(''detail'', PStr ''visibility_timeout_seconds exceeds the queue maximum''),
                      (''maximum'', PInt (qc_max_visibility_ms q div 1000))]), st)
              else if ap_max_inflight A \<noteq> 0 \<and> as_inflight st \<ge> ap_max_inflight A
              then (Inl (json_error 429 ''busy'' [(''Retry-After'', ''1'')] []), st)
              else (Inr \<lparr>rj_queue = q, rj_options = opt, rj_wait_ms = wait_ms, rj_visibility_ms = vis\<rparr>,
                    if ap_max_inflight A \<noteq> 0 then st\<lparr>as_inflight := Suc (as_inflight st)\<rparr> else st)))"

definition message_dict :: "delivered_message \<Rightarrow> pyval result" where
  "message_dict d =
     map_sum id (\<lambda>t. PDict
       [(''message_id'', PStr (dm_id d)), (''receipt_handle'', PStr (dm_handle d)),
        (''body'', PDict (to_dict (dm_envelope d))),
        (''attributes'', PDict
           [(''approximate_receive_count'', PInt (dm_delivered d)),
            (''sent_at'', PStr (isoformat (timestamp (dm_envelope d)))),
            (''visibility_expires_at'', PStr t)])])
       (iso_from_ms (rc_expires_at_ms (dm_receipt d)))"

fun message_dicts :: "delivered_message list \<Rightarrow> pyval list result" where
  "message_dicts [] = Inr []"
| "message_dicts (d # ds) =
     (case message_dict d of Inl x \<Rightarrow> Inl x | Inr v \<Rightarrow> map_sum id (Cons v) (message_dicts ds))"

definition finish_job ::
    "'r redis_ops \<Rightarrow> queue_api \<Rightarrow> int \<Rightarrow> receive_job \<Rightarrow> ('r, 'b) api_state \<Rightarrow> response \<times> ('r, 'b) api_state" where
  "finish_job R A now_ms j st =
     (case receive R (ap_store A) (rj_queue j) (rr_group (rj_options j)) (nat (rr_max_messages (rj_options j)))
             (rj_wait_ms j) (rj_visibility_ms j) now_ms (as_queue st) of
        (x, qst) \<Rightarrow>
          (case bind_r x message_dicts of
             Inl _ \<Rightarrow> unavailable
           | Inr vs \<Rightarrow> json_response 200 [(''messages'', PList vs)],
           st\<lparr>as_queue := qst, as_inflight := as_inflight st - (if ap_max_inflight A \<noteq> 0 then 1 else 0)\<rparr>))"

definition handle_receive ::
    "'r redis_ops \<Rightarrow> queue_api \<Rightarrow> int \<Rightarrow> http_request \<Rightarrow> ('r, 'b) api_state \<Rightarrow> response \<times> ('r, 'b) api_state" where
  "handle_receive R A now_ms rq st =
     (case begin_receive A rq st of (Inl e, st1) \<Rightarrow> (e, st1) | (Inr j, st1) \<Rightarrow> finish_job R A now_ms j st1)"

subsection \<open>Acknowledging\<close>

fun stale_message :: "store_exc \<Rightarrow> string" where
  "stale_message (StaleReceipt m) = m"

text \<open>An exception that escapes ends the loop; what was done before it stays done.\<close>

fun delete_entries ::
    "'r redis_ops \<Rightarrow> queue_api \<Rightarrow> queue_config \<Rightarrow> string \<Rightarrow> int \<Rightarrow> handle_entry list \<Rightarrow> 'r \<Rightarrow> outcome list result \<times> 'r" where
  "delete_entries R A q g now_ms [] r = (Inr [], r)"
| "delete_entries R A q g now_ms (e # es) r =
     (case decode_handle A (he_receipt_handle e) q g now_ms of
        Inl x \<Rightarrow> (Inl x, r)
      | Inr (Inl slug) \<Rightarrow>
          (case delete_entries R A q g now_ms es r of
             (os, r') \<Rightarrow> (map_sum id (Cons (Failure (he_id e) slug ''receipt handle rejected'')) os, r'))
      | Inr (Inr rc) \<Rightarrow>
          (case delete_message R q rc r of
             (d, r1) \<Rightarrow>
               (case delete_entries R A q g now_ms es r1 of
                  (os, r') \<Rightarrow>
                    (map_sum id (Cons (case d of
                        Inl x \<Rightarrow> Failure (he_id e) ''stale_receipt_handle'' (stale_message x)
                      | Inr _ \<Rightarrow> Success (he_id e) (Some (rc_message_id rc)))) os, r'))))"

fun visibility_entries ::
    "'r redis_ops \<Rightarrow> queue_api \<Rightarrow> queue_config \<Rightarrow> string \<Rightarrow> int \<Rightarrow> handle_entry list \<Rightarrow> 'r \<Rightarrow> outcome list result \<times> 'r" where
  "visibility_entries R A q g now_ms [] r = (Inr [], r)"
| "visibility_entries R A q g now_ms (e # es) r =
     (let ms = he_visibility_s e * 1000
      in if ms > qc_max_visibility_ms q
         then (case visibility_entries R A q g now_ms es r of
                 (os, r') \<Rightarrow> (map_sum id (Cons (Failure (he_id e) ''invalid_parameter''
                    ''visibility_timeout_seconds exceeds the queue maximum'')) os, r'))
         else (case decode_handle A (he_receipt_handle e) q g now_ms of
                 Inl x \<Rightarrow> (Inl x, r)
               | Inr (Inl slug) \<Rightarrow>
                   (case visibility_entries R A q g now_ms es r of
                      (os, r') \<Rightarrow> (map_sum id (Cons (Failure (he_id e) slug ''receipt handle rejected'')) os, r'))
               | Inr (Inr rc) \<Rightarrow>
                   (case change_visibility R q rc ms r of
                      (d, r1) \<Rightarrow>
                        (case visibility_entries R A q g now_ms es r1 of
                           (os, r') \<Rightarrow>
                             (map_sum id (Cons (case d of
                                 Inl x \<Rightarrow> Failure (he_id e) ''unavailable'' x
                               | Inr _ \<Rightarrow> Success (he_id e) (Some (rc_message_id rc)))) os, r')))))"

text \<open>The end of both handlers.\<close>

definition batch_reply ::
    "outcome list result \<times> 'r \<Rightarrow> ('r, 'b) api_state \<Rightarrow> response result \<times> ('r, 'b) api_state" where
  "batch_reply x st = (map_sum id batch_response (fst x), st\<lparr>as_queue := (as_queue st)\<lparr>q_redis := snd x\<rparr>\<rparr>)"

definition handle_delete ::
    "'r redis_ops \<Rightarrow> queue_api \<Rightarrow> int \<Rightarrow> http_request \<Rightarrow> ('r, 'b) api_state \<Rightarrow> response result \<times> ('r, 'b) api_state" where
  "handle_delete R A now_ms rq st =
     (case accept A rq Consumer delete_validate of
        Inl e \<Rightarrow> (Inr e, st)
      | Inr (q, g, es) \<Rightarrow> batch_reply (delete_entries R A q g now_ms es (q_redis (as_queue st))) st)"

definition handle_visibility ::
    "'r redis_ops \<Rightarrow> queue_api \<Rightarrow> int \<Rightarrow> http_request \<Rightarrow> ('r, 'b) api_state \<Rightarrow> response result \<times> ('r, 'b) api_state" where
  "handle_visibility R A now_ms rq st =
     (case accept A rq Consumer (visibility_validate (ap_pydantic A)) of
        Inl e \<Rightarrow> (Inr e, st)
      | Inr (q, g, es) \<Rightarrow> batch_reply (visibility_entries R A q g now_ms es (q_redis (as_queue st))) st)"

subsection \<open>Introspection and administration\<close>

definition opt_int :: "int option \<Rightarrow> pyval" where
  "opt_int x = (case x of None \<Rightarrow> PNone | Some n \<Rightarrow> PInt n)"

definition info_dict :: "queue_api \<Rightarrow> queue_config \<Rightarrow> string option \<Rightarrow> queue_info \<Rightarrow> pydict" where
  "info_dict A q g i =
     [(''queue'', PStr (qc_name q)), (''stream'', PStr (q_stream (ap_store A) q)),
      (''stream_length'', PInt (qi_stream_length i)), (''groups'', PList (map (PStr \<circ> qg_name) (qc_groups q))),
      (''group'', opt_str g), (''approximate_number_of_messages'', opt_int (qi_messages i)),
      (''approximate_number_of_messages_not_visible'', opt_int (qi_not_visible i)),
      (''approximate_number_of_messages_delayed'', PInt 0),
      (''default_visibility_timeout_seconds'', PInt (qi_default_visibility_s i)),
      (''max_receives'', PInt (qi_max_receives i))]"

definition handle_describe ::
    "'r redis_ops \<Rightarrow> queue_api \<Rightarrow> http_request \<Rightarrow> ('r, 'b) api_state \<Rightarrow> response \<times> ('r, 'b) api_state" where
  "handle_describe R A rq st =
     (case resolve A rq Consumer of
        Inl e \<Rightarrow> (e, st)
      | Inr q \<Rightarrow>
          if \<exists>g \<in> set_option (hr_group rq). find_group q g = None
          then (invalid_parameter [(''detail'', PStr ''unknown group'')], st)
          else (case describe R (ap_store A) q (hr_group rq) (q_redis (as_queue st)) of
                  (i, r) \<Rightarrow> (json_response 200 (info_dict A q (hr_group rq) i),
                             st\<lparr>as_queue := (as_queue st)\<lparr>q_redis := r\<rparr>\<rparr>)))"

definition list_row :: "queue_api \<Rightarrow> queue_config \<Rightarrow> pyval" where
  "list_row A q = PDict
     [(''name'', PStr (qc_name q)), (''stream'', PStr (stream_for (ap_registry A) (qc_name q))),
      (''groups'', PList (map (PStr \<circ> qg_name) (qc_groups q))), (''max_receives'', PInt (qc_max_receives q))]"

definition handle_list :: "queue_api \<Rightarrow> http_request \<Rightarrow> response" where
  "handle_list A rq =
     (if \<exists>q \<in> set (qr_queues (ap_registry A)). authorized A rq q Admin
      then json_response 200 [(''queues'', PList (map (list_row A) (qr_queues (ap_registry A))))]
      else json_error 401 ''unauthorized'' [] [])"

definition no_kwargs :: emit_kwargs where
  "no_kwargs = \<lparr>ek_event_id = None, ek_timestamp = None, ek_source = None, ek_priority = None,
     ek_correlation_id = None, ek_metadata = None, ek_severity = None\<rparr>"

definition handle_purge ::
    "'r redis_ops \<Rightarrow> 'b bus_emit \<Rightarrow> queue_api \<Rightarrow> http_request \<Rightarrow> ('r, 'b) api_state \<Rightarrow> response \<times> ('r, 'b) api_state" where
  "handle_purge R E A rq st =
     (case resolve A rq Admin of
        Inl e \<Rightarrow> (e, st)
      | Inr q \<Rightarrow>
          (case purge R (ap_store A) q (q_redis (as_queue st)) of
             (x, r) \<Rightarrow>
               (let st1 = st\<lparr>as_queue := (as_queue st)\<lparr>q_redis := r\<rparr>\<rparr>
                in case x of
                     Inl _ \<Rightarrow> (unavailable, st1)
                   | Inr _ \<Rightarrow>
                       (json_response 200 [(''status'', PStr ''purged''), (''queue'', PStr (qc_name q))],
                        if ap_has_bus A
                        then st1\<lparr>as_bus := snd (E ''bus.queue_purged'' (PDict [(''queue'', PStr (qc_name q))])
                               (no_kwargs\<lparr>ek_source := Some (ap_name A)\<rparr>) (as_bus st1))\<rparr>
                        else st1))))"

definition dlq_rows :: "(string \<Rightarrow> pyval list result) option \<Rightarrow> queue_config \<Rightarrow> pyval list result" where
  "dlq_rows fetch q = (case fetch of None \<Rightarrow> Inr [] | Some f \<Rightarrow> f (qc_name q))"

definition handle_dlq :: "queue_api \<Rightarrow> http_request \<Rightarrow> response" where
  "handle_dlq A rq =
     (case resolve A rq Admin of
        Inl e \<Rightarrow> e
      | Inr q \<Rightarrow>
          (case ap_dlq A of
             None \<Rightarrow> json_error 501 ''not_implemented'' [] [(''detail'', PStr ''no DLQHandler is wired'')]
           | Some fetch \<Rightarrow>
               (case dlq_rows fetch q of
                  Inl _ \<Rightarrow> unavailable
                | Inr rows \<Rightarrow> json_response 200 [(''queue'', PStr (qc_name q)), (''messages'', PList rows)])))"

definition api_start :: "'r redis_ops \<Rightarrow> queue_api \<Rightarrow> ('r, 'b) api_state \<Rightarrow> (string + unit) \<times> ('r, 'b) api_state" where
  "api_start R A st =
     (case ensure_all R (ap_store A) (q_redis (as_queue st)) of
        (x, r) \<Rightarrow> (x, st\<lparr>as_queue := (as_queue st)\<lparr>q_redis := r\<rparr>\<rparr>))"

subsection \<open>Routes\<close>

datatype api_route = SendBatch | Receive | Delete | Visibility | Send | Purge | DeadLetters | ListQueues | Describe

text \<open>Method, path and handler, in the order of registration.\<close>

definition setup_routes :: "string \<Rightarrow> bool \<Rightarrow> (string \<times> string \<times> api_route) list" where
  "setup_routes base expose_admin =
     [(''POST'', base @ ''/{queue}/messages/batch'', SendBatch), (''POST'', base @ ''/{queue}/messages/receive'', Receive),
      (''POST'', base @ ''/{queue}/messages/delete'', Delete), (''POST'', base @ ''/{queue}/messages/visibility'', Visibility),
      (''POST'', base @ ''/{queue}/messages'', Send)] @
     (if expose_admin
      then [(''POST'', base @ ''/{queue}/purge'', Purge), (''GET'', base @ ''/{queue}/dlq'', DeadLetters), (''GET'', base, ListQueues)]
      else []) @
     [(''GET'', base @ ''/{queue}'', Describe)]"

fun route_role :: "api_route \<Rightarrow> role" where
  "route_role SendBatch = Producer"
| "route_role Send = Producer"
| "route_role Receive = Consumer"
| "route_role Delete = Consumer"
| "route_role Visibility = Consumer"
| "route_role Describe = Consumer"
| "route_role Purge = Admin"
| "route_role DeadLetters = Admin"
| "route_role ListQueues = Admin"

text \<open>The handler a route was registered with.\<close>

fun dispatch_route ::
    "'r redis_ops \<Rightarrow> 'b bus_emit \<Rightarrow> queue_api \<Rightarrow> gen \<Rightarrow> int \<Rightarrow> api_route \<Rightarrow> http_request \<Rightarrow> ('r, 'b) api_state \<Rightarrow>
     response result \<times> ('r, 'b) api_state" where
  "dispatch_route R E A G now_ms SendBatch rq st = apfst Inr (handle_send_batch R E A G rq st)"
| "dispatch_route R E A G now_ms Send rq st = apfst Inr (handle_send R E A G rq st)"
| "dispatch_route R E A G now_ms Receive rq st = apfst Inr (handle_receive R A now_ms rq st)"
| "dispatch_route R E A G now_ms Delete rq st = handle_delete R A now_ms rq st"
| "dispatch_route R E A G now_ms Visibility rq st = handle_visibility R A now_ms rq st"
| "dispatch_route R E A G now_ms Describe rq st = apfst Inr (handle_describe R A rq st)"
| "dispatch_route R E A G now_ms Purge rq st = apfst Inr (handle_purge R E A rq st)"
| "dispatch_route R E A G now_ms DeadLetters rq st = (Inr (handle_dlq A rq), st)"
| "dispatch_route R E A G now_ms ListQueues rq st = (Inr (handle_list A rq), st)"

end
