(* ===== verification/QueueApiFacts.thy ===== *)
theory QueueApiFacts
  imports QueueHandlers FakeRedis
begin

text \<open>
  What the handlers guarantee, one lemma per step: which requests get past authorization and
  validation, which handles a receive hands out, and how the outcomes of a batch line up with its
  entries.
\<close>

subsection \<open>Authorization\<close>

lemma resolve_Inr: "resolve A rq r = Inr q \<longleftrightarrow> get_queue (ap_registry A) (hr_queue rq) = Some q \<and> authorized A rq q r"
  by (auto simp: resolve_def authorized_def has_token_def split: option.splits)

definition refusal_status :: "queue_api \<Rightarrow> http_request \<Rightarrow> int" where
  "refusal_status A rq =
     (case get_queue (ap_registry A) (hr_queue rq) of
        None \<Rightarrow> 404
      | Some q \<Rightarrow> if \<exists>r. authorized A rq q r then 403 else 401)"

lemma resolve_refused:
  assumes "\<forall>q. get_queue (ap_registry A) (hr_queue rq) = Some q \<longrightarrow> \<not> authorized A rq q r"
  obtains e where "resolve A rq r = Inl e" "rs_status e = refusal_status A rq"
proof (cases "get_queue (ap_registry A) (hr_queue rq)")
  case None
  then show ?thesis using that by (simp add: resolve_def refusal_status_def)
next
  case (Some q)
  have n: "\<not> authorized A rq q r" using assms Some by simp
  have t: "\<not> has_token rq \<Longrightarrow> \<not> authorized A rq q x" for x
    by (auto simp: authorized_def has_token_def split: option.splits)
  have e3: "(\<exists>r' \<in> set [Producer, Consumer, Admin]. r' \<noteq> r \<and> authorized A rq q r') \<longleftrightarrow> (\<exists>r'. authorized A rq q r')"
    using n by (metis (full_types) list.set_intros(1,2) role.exhaust)
  show ?thesis
  proof (cases "has_token rq")
    case True
    show ?thesis
      by (rule that[of "if \<exists>r'. authorized A rq q r' then json_error 403 ''forbidden'' [] [(''required_role'', PStr (role_name r))]
            else json_error 401 ''unauthorized'' [] []"])
        (use True Some n in \<open>simp_all add: resolve_def refusal_status_def e3 del: list.set\<close>)
  next
    case False
    then show ?thesis using that Some t unfolding resolve_def refusal_status_def by simp
  qed
qed

lemma accept_refused: "resolve A rq r = Inl e \<Longrightarrow> accept A rq r f = Inl e"
  by (simp add: accept_def)

lemma accept_Inr: "accept A rq r f = Inr (q, x) \<longleftrightarrow> (\<exists>v. resolve A rq r = Inr q \<and> read_json A rq q = Inr v \<and> f v = Some x)"
  by (auto simp: accept_def split: sum.splits option.splits)

subsection \<open>Handles\<close>

lemma deliver_entries_handles:
  "deliver_entries R S q g s expires_at ms r = (Inr ds, r') \<Longrightarrow> d \<in> set ds \<Longrightarrow>
    encode_receipt (qs_json S) (qs_mac S) (qs_receipts S) (dm_receipt d) = Inr (dm_handle d)
    \<and> rc_queue (dm_receipt d) = qc_name q \<and> rc_group (dm_receipt d) = g \<and> rc_expires_at_ms (dm_receipt d) = expires_at"
proof (induction ms arbitrary: r ds r')
  case (Cons m ms)
  obtain i f n where m: "m = (i, f, n)" by (cases m) auto
  show ?case
    using Cons.prems Cons.IH unfolding m
    by (auto simp: Let_def mk_receipt_def split: sum.splits prod.splits)
qed simp

lemma receive_handles:
  assumes "receive R S q g n wait_ms vis now_ms st = (Inr ds, st')" "d \<in> set ds"
  shows "encode_receipt (qs_json S) (qs_mac S) (qs_receipts S) (dm_receipt d) = Inr (dm_handle d)"
    "rc_queue (dm_receipt d) = qc_name q" "rc_group (dm_receipt d) = g"
    "rc_expires_at_ms (dm_receipt d) = now_ms + lease_ms q vis"
proof -
  have f: "encode_receipt (qs_json S) (qs_mac S) (qs_receipts S) (dm_receipt d) = Inr (dm_handle d)
      \<and> rc_queue (dm_receipt d) = qc_name q \<and> rc_group (dm_receipt d) = g \<and> rc_expires_at_ms (dm_receipt d) = now_ms + lease_ms q vis"
    if "finish_receive R S q g vis now_ms ms s1 = (Inr ds, s2)" for ms s1 s2
    using that assms(2) deliver_entries_handles[of R S q g "q_stream S q" "now_ms + lease_ms q vis" ms]
    by (fastforce simp: finish_receive_def Let_def split: if_splits prod.splits)
  show "encode_receipt (qs_json S) (qs_mac S) (qs_receipts S) (dm_receipt d) = Inr (dm_handle d)"
    "rc_queue (dm_receipt d) = qc_name q" "rc_group (dm_receipt d) = g" "rc_expires_at_ms (dm_receipt d) = now_ms + lease_ms q vis"
    using assms(1) f by (auto simp: receive_def Let_def split: sum.splits prod.splits if_splits)
qed

text \<open>The handles a receive response lists.\<close>

fun listed_handle :: "pyval \<Rightarrow> string option" where
  "listed_handle (PDict m) = (case dict_get m ''receipt_handle'' of Some (PStr h) \<Rightarrow> Some h | _ \<Rightarrow> None)"
| "listed_handle v = None"

definition handles_of :: "response \<Rightarrow> string list" where
  "handles_of rs = (case dict_get (rs_body rs) ''messages'' of Some (PList vs) \<Rightarrow> List.map_filter listed_handle vs | _ \<Rightarrow> [])"

lemma message_dict_handle: "message_dict d = Inr v \<Longrightarrow> listed_handle v = Some (dm_handle d)"
  by (cases "iso_from_ms (rc_expires_at_ms (dm_receipt d))") (auto simp: message_dict_def)

lemma message_dicts_handles: "message_dicts ds = Inr vs \<Longrightarrow> List.map_filter listed_handle vs = map dm_handle ds"
proof (induction ds arbitrary: vs)
  case (Cons d ds)
  then obtain v ws where "message_dict d = Inr v" "message_dicts ds = Inr ws" "vs = v # ws"
    by (cases "message_dict d"; cases "message_dicts ds") auto
  then show ?case using Cons.IH message_dict_handle by (simp add: List.map_filter_simps)
qed (simp add: List.map_filter_simps)

lemma job_handles:
  assumes "finish_job R A now_ms j st = (rs, st1)" "h \<in> set (handles_of rs)"
  obtains ds d where "receive R (ap_store A) (rj_queue j) (rr_group (rj_options j)) (nat (rr_max_messages (rj_options j)))
             (rj_wait_ms j) (rj_visibility_ms j) now_ms (as_queue st) = (Inr ds, as_queue st1)" "d \<in> set ds" "dm_handle d = h"
proof -
  obtain x qst where r: "receive R (ap_store A) (rj_queue j) (rr_group (rj_options j)) (nat (rr_max_messages (rj_options j)))
             (rj_wait_ms j) (rj_visibility_ms j) now_ms (as_queue st) = (x, qst)" by force
  have u: "handles_of unavailable = []" by (simp add: handles_of_def unavailable_def json_error_def)
  have rs: "rs = (case bind_r x message_dicts of Inl _ \<Rightarrow> unavailable | Inr vs \<Rightarrow> json_response 200 [(''messages'', PList vs)])"
    "as_queue st1 = qst" using assms(1) r by (auto simp: finish_job_def)
  then obtain vs where "bind_r x message_dicts = Inr vs" "rs = json_response 200 [(''messages'', PList vs)]"
    using assms(2) u by (cases "bind_r x message_dicts") auto
  moreover from this obtain ds where "x = Inr ds" "message_dicts ds = Inr vs" by (cases x) (auto simp: bind_r_def)
  ultimately have "set (handles_of rs) = dm_handle ` set ds"
    using message_dicts_handles by (simp add: handles_of_def json_response_def)
  then show ?thesis using that r rs(2) \<open>x = Inr ds\<close> assms(2) by auto
qed

lemma message_dicts_total:
  "\<forall>d \<in> set ds. - 62135596800000 \<le> rc_expires_at_ms (dm_receipt d) \<and> rc_expires_at_ms (dm_receipt d) < 253402300800000 \<Longrightarrow>
    \<exists>vs. message_dicts ds = Inr vs"
proof (induction ds)
  case (Cons d ds)
  then obtain u where "utc_from_ms (rc_expires_at_ms (dm_receipt d)) = Inr u" using utc_from_ms_total by (metis list.set_intros(1))
  then have "\<exists>v. message_dict d = Inr v" by (simp add: message_dict_def iso_from_ms_def)
  then show ?case using Cons by auto
qed simp

text \<open>A response lists every handle the store minted, when the leases end within the calendar.\<close>

lemma job_lists:
  assumes "receive R (ap_store A) (rj_queue j) (rr_group (rj_options j)) (nat (rr_max_messages (rj_options j)))
      (rj_wait_ms j) (rj_visibility_ms j) now_ms (as_queue st) = (Inr ds, qst)"
    "- 62135596800000 \<le> now_ms + lease_ms (rj_queue j) (rj_visibility_ms j)"
    "now_ms + lease_ms (rj_queue j) (rj_visibility_ms j) < 253402300800000"
  shows "rs_status (fst (finish_job R A now_ms j st)) = 200" "handles_of (fst (finish_job R A now_ms j st)) = map dm_handle ds"
proof -
  obtain vs where "message_dicts ds = Inr vs"
    using message_dicts_total[of ds] receive_handles(4)[OF assms(1)] assms(2,3) by auto
  moreover from this have "List.map_filter listed_handle vs = map dm_handle ds" by (rule message_dicts_handles)
  ultimately show "rs_status (fst (finish_job R A now_ms j st)) = 200"
    "handles_of (fst (finish_job R A now_ms j st)) = map dm_handle ds"
    using assms(1) by (simp_all add: finish_job_def bind_r_def json_response_def handles_of_def)
qed

subsection \<open>Jobs\<close>

lemma receive_options:
  assumes "receive_validate P v = Some opt"
  shows "1 \<le> rr_max_messages opt" "rr_max_messages opt \<le> 10" "0 \<le> rr_wait_time_seconds opt" "rr_wait_time_seconds opt \<le> 20"
proof -
  obtain d n w where d: "defaulted (bounded_int P 1 (Some (int MAX_BATCH_ENTRIES))) 1 ''max_messages'' d = Some n"
    "defaulted (bounded_int P 0 (Some MAX_WAIT_TIME_SECONDS)) 0 ''wait_time_seconds'' d = Some w"
    "rr_max_messages opt = n" "rr_wait_time_seconds opt = w"
    using assms unfolding receive_validate_def
    by (clarsimp simp only: Option.bind_eq_Some_conv option.inject) simp
  show "1 \<le> rr_max_messages opt" "rr_max_messages opt \<le> 10"
    using d(1,3) by (auto simp: defaulted_def bounded_int_def MAX_BATCH_ENTRIES_def split: option.splits if_splits)
  show "0 \<le> rr_wait_time_seconds opt" "rr_wait_time_seconds opt \<le> 20"
    using d(2,4) by (auto simp: defaulted_def bounded_int_def MAX_WAIT_TIME_SECONDS_def split: option.splits if_splits)
qed

lemma begin_job:
  assumes "begin_receive A rq st = (Inr j, st0)"
  shows "1 \<le> rr_max_messages (rj_options j)" "as_queue st0 = as_queue st" "as_bus st0 = as_bus st"
    "as_inflight st0 = (if ap_max_inflight A \<noteq> 0 then Suc (as_inflight st) else as_inflight st)"
    "ap_max_inflight A \<noteq> 0 \<longrightarrow> as_inflight st < ap_max_inflight A"
proof -
  obtain q opt v where a: "accept A rq Consumer (receive_validate (ap_pydantic A)) = Inr (q, opt)"
    "receive_validate (ap_pydantic A) v = Some opt" "rj_options j = opt"
    using assms by (auto simp: begin_receive_def accept_Inr Let_def split: sum.splits if_splits)
  then show "1 \<le> rr_max_messages (rj_options j)"
    using receive_options(1) by simp
  show "as_queue st0 = as_queue st" "as_bus st0 = as_bus st"
    "as_inflight st0 = (if ap_max_inflight A \<noteq> 0 then Suc (as_inflight st) else as_inflight st)"
    "ap_max_inflight A \<noteq> 0 \<longrightarrow> as_inflight st < ap_max_inflight A"
    using assms a by (auto simp: begin_receive_def Let_def split: if_splits)
qed

end
