(* ===== verification/QueueApiSamples.thy ===== *)
theory QueueApiSamples
  imports QueueHandlers QueueSamples
begin

text \<open>
  A concrete HTTP surface for the witnesses: the sample queue, a JSON codec that knows the few
  values the requests need, a MAC that is its key, and one request per route.
\<close>

definition table_codec :: "(pyval \<times> string) list \<Rightarrow> json_codec" where
  "table_codec tab =
     \<lparr>dumps = (\<lambda>v. case map_of tab v of Some t \<Rightarrow> Inr t | None \<Rightarrow> Inl (TypeError [])),
      loads = (\<lambda>t. case map_of (map (\<lambda>(v, t). (t, v)) tab) t of Some v \<Rightarrow> Inr v | None \<Rightarrow> Inl (ValueError []))\<rparr>"

lemma table_codec_ok: "distinct (map snd tab) \<Longrightarrow> codec_ok (table_codec tab)"
  unfolding codec_ok_def table_codec_def
  by (auto simp: comp_def case_prod_beta split: option.splits dest!: map_of_SomeD)
    (force simp: map_of_eq_None_iff image_iff, (metis (no_types, lifting) case_prod_beta distinct_map fst_conv inj_onD map_of_SomeD snd_conv imageE image_eqI list.set_map))

definition http_pydantic :: pydantic where
  "http_pydantic = \<lparr>pd_int = (\<lambda>v. case v of PInt n \<Rightarrow> Some n | _ \<Rightarrow> None), pd_datetime = (\<lambda>_. None),
     pd_severity = (\<lambda>_. None), pd_priority = (\<lambda>_. None)\<rparr>"

definition http_event :: envelope where
  "http_event = (sample_event [] ''t'' NORMAL)\<lparr>payload := PDict []\<rparr>"

definition http_receipt :: receipt where
  "http_receipt = mk_receipt (sample_qstore ''c'') sample_queue ''g'' ''s:q'' (mint 1) 2 1030"

definition http_table :: "(pyval \<times> string) list" where
  "http_table =
     [(PDict [(''topic'', PStr ''t'')], ''s''), (PDict (to_dict http_event), ''b''),
      (PDict [(''group'', PStr ''g'')], ''r''), (claims_of http_receipt, ''c''),
      (PDict [(''group'', PStr ''g''), (''entries'', PList [PDict [(''id'', PStr ''1''), (''receipt_handle'', PStr ''q1.Yw.aw'')]])], ''d'')]"

text \<open>The wire codec is \<open>DefaultCodec\<close>, or one that decodes every entry to the same event.\<close>

definition http_wire :: wire_codec where
  "http_wire = default_codec (table_codec http_table) []"

definition constant_wire :: wire_codec where
  "constant_wire = qs_wire (sample_qstore ''c'')"

definition http_store :: "wire_codec \<Rightarrow> queue_store" where
  "http_store w = (sample_qstore ''c'')\<lparr>qs_wire := w, qs_json := table_codec http_table, qs_mac := (\<lambda>k m. k)\<rparr>"

definition http_api :: "wire_codec \<Rightarrow> queue_api" where
  "http_api w = \<lparr>ap_registry = qs_registry (http_store w), ap_store = http_store w, ap_name = ''queues'', ap_auth_token = None,
     ap_has_bus = False, ap_dlq = None, ap_max_inflight = 1, ap_expose_admin = False, ap_pydantic = http_pydantic,
     ap_utf8 = Some\<rparr>"

definition http_call :: "string \<Rightarrow> string \<Rightarrow> http_request" where
  "http_call token body = \<lparr>hr_queue = ''q'', hr_authorization = Some (''Bearer '' @ token), hr_api_key = None,
     hr_token = None, hr_group = None, hr_length = Some (int (length body)), hr_chunks = [body]\<rparr>"

definition http_state :: "fake_redis qstate \<Rightarrow> (fake_redis, unit) api_state" where
  "http_state qst = \<lparr>as_queue = qst, as_bus = (), as_inflight = 0, as_draws = 0\<rparr>"

definition no_emit :: "unit bus_emit" where
  "no_emit t v k b = (None, b)"

lemma http_codec_ok: "codec_ok (table_codec http_table)"
  by (rule table_codec_ok) (simp add: http_table_def)

text \<open>What the requests are accepted as.\<close>

lemma http_send_accepted: "accept (http_api w) (http_call ''p'' ''s'') Producer (ingress_validate http_pydantic [] sample_time) = Inr (sample_queue,
  \<lparr>ig_topic = ''t'', ig_payload = [], ig_event_id = [], ig_timestamp = sample_time, ig_source = None, ig_severity = INFO,
   ig_priority = NORMAL, ig_correlation_id = None, ig_trace_context = None, ig_metadata = [], ig_schema_version = 1\<rparr>)" by code_simp

lemma http_delete_accepted: "accept (http_api w) (http_call ''c'' ''d'') Consumer delete_validate = Inr (sample_queue, ''g'', [\<lparr>he_id = ''1'', he_receipt_handle = ''q1.Yw.aw'', he_visibility_s = 0\<rparr>])"
   by code_simp

lemma http_receive_accepted: "accept (http_api w) (http_call ''c'' ''r'') Consumer (receive_validate http_pydantic) =
   Inr (sample_queue, \<lparr>rr_group = ''g'', rr_max_messages = 1, rr_wait_time_seconds = 0, rr_visibility_timeout_seconds = None\<rparr>)" by code_simp

lemma http_begins: "begin_receive (http_api w) (http_call ''c'' ''r'') st =
    (if as_inflight st \<ge> 1 then (Inl (json_error 429 ''busy'' [(''Retry-After'', ''1'')] []), st)
     else (Inr \<lparr>rj_queue = sample_queue,
       rj_options = \<lparr>rr_group = ''g'', rr_max_messages = 1, rr_wait_time_seconds = 0, rr_visibility_timeout_seconds = None\<rparr>,
       rj_wait_ms = 0, rj_visibility_ms = None\<rparr>, st\<lparr>as_inflight := Suc (as_inflight st)\<rparr>))"
proof -
  have "ap_pydantic (http_api w) = http_pydantic" "ap_max_inflight (http_api w) = 1" by (simp_all add: http_api_def)
  then show ?thesis unfolding begin_receive_def
    by (simp add: http_receive_accepted find_group_def sample_queue_def sample_group_def MAX_WAIT_TIME_SECONDS_def)
qed

lemma http_received: "map_sum id (map dm_handle) (fst (receive fake_ops (http_store constant_wire) sample_queue ''g'' 1 0 None 1000 sample_state))
    = Inr [''q1.Yw.aw'']"
  by code_simp

lemma http_dumps_nonempty: "dumps (table_codec http_table) v = Inr t \<Longrightarrow> t \<noteq> []"
  by (auto simp: table_codec_def http_table_def split: option.splits if_splits)

lemma http_state_inv: "fake_inv (q_redis (as_queue (http_state sample_state)))"
  by (simp add: http_state_def sample_state_inv)

end
