(* ===== verification/QueueFeeder.thy ===== *)
theory QueueFeeder
  imports QueueStore BusCore "HOL-Library.Multiset"
begin

text \<open>
  \<open>QueueFeeder\<close> of queues/feeder.py: it subscribes its handler for every pattern on a bus and
  copies what it is given into the stream of a queue.
\<close>

record feeder =
  fd_config :: queue_config
  fd_patterns :: "string list"
  fd_exclude_bus_internal :: bool
  fd_subscription_ids :: "string list"
  fd_forwarded :: nat
  fd_failed :: nat

definition feeder_new :: "queue_config \<Rightarrow> string list option \<Rightarrow> bool \<Rightarrow> feeder" where
  "feeder_new q patterns exclude =
     \<lparr>fd_config = q, fd_patterns = (case patterns of Some (p # ps) \<Rightarrow> p # ps | _ \<Rightarrow> [''*'']),
      fd_exclude_bus_internal = exclude, fd_subscription_ids = [], fd_forwarded = 0, fd_failed = 0\<rparr>"

definition feeder_accepts :: "feeder \<Rightarrow> envelope \<Rightarrow> bool" where
  "feeder_accepts f e \<longleftrightarrow> \<not> (fd_exclude_bus_internal f \<and> py_startswith (topic e) ''bus.'')"

text \<open>The subscription made for a pattern; \<open>h\<close> is the outcome of running \<open>handle\<close>.\<close>

definition feeder_sub :: "feeder \<Rightarrow> (nat \<Rightarrow> envelope \<Rightarrow> exn option) \<Rightarrow> string \<Rightarrow> string \<Rightarrow> subscription" where
  "feeder_sub f h pattern i =
     \<lparr>sub_pattern = pattern, sub_id = i, sub_priority = 0, sub_filter = Some (\<lambda>e. Some (feeder_accepts f e)),
      sub_min_severity = None, sub_handler = h\<rparr>"

fun attach_patterns ::
    "feeder \<Rightarrow> (nat \<Rightarrow> envelope \<Rightarrow> exn option) \<Rightarrow> gen \<Rightarrow> string list \<Rightarrow> 'o bus \<Rightarrow> string list \<times> 'o bus" where
  "attach_patterns f h G [] b = ([], b)"
| "attach_patterns f h G (p # ps) b =
     (case subscribe (feeder_sub f h p (uuid4 G (b_draws b))) (b\<lparr>b_draws := Suc (b_draws b)\<rparr>) of
        (i, b1) \<Rightarrow> (case attach_patterns f h G ps b1 of (ids, b2) \<Rightarrow> (i # ids, b2)))"

definition attach ::
    "(nat \<Rightarrow> envelope \<Rightarrow> exn option) \<Rightarrow> gen \<Rightarrow> feeder \<Rightarrow> 'o bus \<Rightarrow> string list \<times> feeder \<times> 'o bus" where
  "attach h G f b =
     (case attach_patterns f h G (fd_patterns f) b of
        (ids, b1) \<Rightarrow>
          (let f1 = f\<lparr>fd_subscription_ids := fd_subscription_ids f @ ids\<rparr> in (fd_subscription_ids f1, f1, b1)))"

fun unsubscribe_all :: "string list \<Rightarrow> 'o bus \<Rightarrow> nat \<times> 'o bus" where
  "unsubscribe_all [] b = (0, b)"
| "unsubscribe_all (i # ids) b =
     (case unsubscribe i b of
        (r, b1) \<Rightarrow> (case unsubscribe_all ids b1 of (n, b2) \<Rightarrow> ((if r then Suc n else n), b2)))"

definition detach :: "feeder \<Rightarrow> 'o bus \<Rightarrow> nat \<times> feeder \<times> 'o bus" where
  "detach f b =
     (case unsubscribe_all (fd_subscription_ids f) b of (n, b1) \<Rightarrow> (n, f\<lparr>fd_subscription_ids := []\<rparr>, b1))"

text \<open>The exception of a failed append goes on to the bus.\<close>

definition feeder_handle :: "'r redis_ops \<Rightarrow> queue_store \<Rightarrow> envelope \<Rightarrow> feeder \<times> 'r \<Rightarrow> py_exc option \<times> feeder \<times> 'r" where
  "feeder_handle R S e st =
     (case st of (f, r) \<Rightarrow>
       (case send R S (fd_config f) e r of
          (Inl x, r1) \<Rightarrow> (Some x, f\<lparr>fd_failed := Suc (fd_failed f)\<rparr>, r1)
        | (Inr _, r1) \<Rightarrow> (None, f\<lparr>fd_forwarded := Suc (fd_forwarded f)\<rparr>, r1)))"

subsection \<open>The subscriptions of a bus\<close>

definition all_subs :: "'o bus \<Rightarrow> subscription multiset" where
  "all_subs b = mset (concat (map snd (b_subscriptions b))) + mset (b_pattern_subscriptions b)"

lemma mset_dict_set:
  "distinct (map fst d) \<Longrightarrow>
    mset (concat (map snd (dict_set k xs d))) + mset (case dict_get d k of None \<Rightarrow> [] | Some ys \<Rightarrow> ys)
      = mset (concat (map snd d)) + mset xs"
proof (induction d)
  case (Cons p d)
  obtain k0 ys where p: "p = (k0, ys)" by (cases p)
  have "dict_get d k = None" if "k0 = k" using that Cons.prems p by (auto simp: map_of_eq_None_iff)
  then show ?case using Cons p by (auto simp: ac_simps)
qed simp

lemma all_subs_subscribe:
  assumes "distinct (map fst (b_subscriptions b))"
  shows "all_subs (snd (subscribe s b)) = add_mset s (all_subs b)" "distinct (map fst (b_subscriptions (snd (subscribe s b))))"
proof -
  show "all_subs (snd (subscribe s b)) = add_mset s (all_subs b)"
  proof (cases "is_wildcard (sub_pattern s)")
    case False
    let ?d = "dict_set (sub_pattern s) (by_priority (exact_subs b (sub_pattern s) @ [s])) (b_subscriptions b)"
    have "mset (concat (map snd ?d)) + mset (exact_subs b (sub_pattern s))
        = mset (concat (map snd (b_subscriptions b))) + (mset (exact_subs b (sub_pattern s)) + {#s#})"
      using mset_dict_set[OF assms, of "sub_pattern s" "by_priority (exact_subs b (sub_pattern s) @ [s])"]
      by (simp add: exact_subs_def)
    then have "mset (concat (map snd ?d)) = mset (concat (map snd (b_subscriptions b))) + {#s#}"
      by (simp add: ac_simps)
    then show ?thesis using False by (simp add: subscribe_def all_subs_def)
  qed (simp add: subscribe_def all_subs_def)
  show "distinct (map fst (b_subscriptions (snd (subscribe s b))))"
    using assms by (simp add: subscribe_def)
qed

lemma remove_id_mset:
  "(case remove_id i ss of None \<Rightarrow> i \<notin> sub_id ` set ss | Some ss' \<Rightarrow> \<exists>s. sub_id s = i \<and> mset ss = add_mset s (mset ss'))"
proof (induction ss)
  case (Cons s ss)
  then show ?case by (cases "remove_id i ss") auto
qed simp

lemma remove_id_dict_mset:
  "(case remove_id_dict i d of None \<Rightarrow> i \<notin> sub_id ` set (concat (map snd d))
    | Some d' \<Rightarrow> map fst d' = map fst d \<and> (\<exists>s. sub_id s = i \<and> mset (concat (map snd d)) = add_mset s (mset (concat (map snd d')))))"
proof (induction d)
  case (Cons p d)
  obtain k ss where p: "p = (k, ss)" by (cases p)
  show ?case using Cons remove_id_mset[of i ss]
    by (cases "remove_id i ss"; cases "remove_id_dict i d") (auto simp: p)
qed simp

lemma all_subs_unsubscribe:
  assumes "i \<in> sub_id ` set_mset (all_subs b)" "distinct (map fst (b_subscriptions b))"
  obtains b1 s where "unsubscribe i b = (True, b1)" "sub_id s = i" "all_subs b = add_mset s (all_subs b1)"
    "distinct (map fst (b_subscriptions b1))"
proof (cases "remove_id_dict i (b_subscriptions b)")
  case None
  then have n: "i \<notin> sub_id ` set (concat (map snd (b_subscriptions b)))" using remove_id_dict_mset[of i "b_subscriptions b"] by simp
  then have "i \<in> sub_id ` set (b_pattern_subscriptions b)" using assms(1) by (auto simp: all_subs_def)
  then obtain ss s where "remove_id i (b_pattern_subscriptions b) = Some ss" "sub_id s = i" "mset (b_pattern_subscriptions b) = add_mset s (mset ss)"
    using remove_id_mset[of i "b_pattern_subscriptions b"] by (auto split: option.splits)
  then show ?thesis using that None assms(2) by (simp add: unsubscribe_def all_subs_def)
next
  case (Some d)
  then obtain s where "sub_id s = i" "mset (concat (map snd (b_subscriptions b))) = add_mset s (mset (concat (map snd d)))"
    "map fst d = map fst (b_subscriptions b)" using remove_id_dict_mset[of i "b_subscriptions b"] by auto
  then show ?thesis using that Some assms(2) by (simp add: unsubscribe_def all_subs_def)
qed

subsection \<open>Attaching\<close>

lemma attach_patterns_spec:
  assumes "distinct (map fst (b_subscriptions b))"
  shows "all_subs (snd (attach_patterns f h G ps b)) =
      all_subs b + mset (map2 (feeder_sub f h) ps (map (uuid4 G) [b_draws b ..< b_draws b + length ps]))
    \<and> fst (attach_patterns f h G ps b) = map (uuid4 G) [b_draws b ..< b_draws b + length ps]
    \<and> distinct (map fst (b_subscriptions (snd (attach_patterns f h G ps b))))"
  using assms
proof (induction ps arbitrary: b)
  case (Cons p ps)
  let ?s = "feeder_sub f h p (uuid4 G (b_draws b))" and ?b = "b\<lparr>b_draws := Suc (b_draws b)\<rparr>"
  obtain b1 where b1: "subscribe ?s ?b = (uuid4 G (b_draws b), b1)" by (simp add: subscribe_def feeder_sub_def)
  have a: "all_subs b1 = add_mset ?s (all_subs b)" "distinct (map fst (b_subscriptions b1))"
    using all_subs_subscribe[of ?b ?s] Cons.prems b1 by (simp_all add: all_subs_def)
  have d: "b_draws b1 = Suc (b_draws b)" using b1 by (auto simp: subscribe_def split: if_splits)
  obtain ids b2 where b2: "attach_patterns f h G ps b1 = (ids, b2)" by force
  have u: "[b_draws b ..< b_draws b + length (p # ps)] = b_draws b # [Suc (b_draws b) ..< Suc (b_draws b) + length ps]"
    by (simp add: upt_rec)
  have "all_subs b2 = all_subs b1 + mset (map2 (feeder_sub f h) ps (map (uuid4 G) [Suc (b_draws b) ..< Suc (b_draws b) + length ps]))"
    "ids = map (uuid4 G) [Suc (b_draws b) ..< Suc (b_draws b) + length ps]" "distinct (map fst (b_subscriptions b2))"
    using Cons.IH[OF a(2)] b2 d by simp_all
  then show ?case
    using b1 b2 a(1) unfolding u by simp
qed simp

lemma unsubscribe_all_spec:
  assumes "distinct (map fst (b_subscriptions b))" "all_subs b = M + N" "distinct ids" "mset ids = image_mset sub_id N"
    "\<forall>s \<in># M. sub_id s \<notin> set ids"
  shows "fst (unsubscribe_all ids b) = length ids \<and> all_subs (snd (unsubscribe_all ids b)) = M"
  using assms
proof (induction ids arbitrary: b N)
  case (Cons i ids)
  have "i \<in> sub_id ` set_mset N" using Cons.prems(4) by (metis list.set_intros(1) set_image_mset set_mset_mset)
  then have i: "i \<in> sub_id ` set_mset (all_subs b)" using Cons.prems(2) by auto
  obtain b1 s where u: "unsubscribe i b = (True, b1)" "sub_id s = i" "all_subs b = add_mset s (all_subs b1)"
    "distinct (map fst (b_subscriptions b1))" by (rule all_subs_unsubscribe[OF i Cons.prems(1)])
  have "s \<in># all_subs b" using u(3) by simp
  then have "s \<in># N" using Cons.prems(2,5) u(2) by auto
  then obtain N' where N: "N = add_mset s N'" by (metis multi_member_split)
  have "all_subs b1 = M + N'" using u(3) Cons.prems(2) N by simp
  moreover have "mset ids = image_mset sub_id N'" using Cons.prems(4) u(2) N by simp
  ultimately have "fst (unsubscribe_all ids b1) = length ids \<and> all_subs (snd (unsubscribe_all ids b1)) = M"
    using Cons.IH[OF u(4)] Cons.prems(3,5) by simp
  then show ?case using u(1) by (simp add: case_prod_beta)
qed auto

end
