(* ===== verification/QueueApiProps.thy ===== *)
theory QueueApiProps
  imports QueueApiFacts QueueApiSamples QueueFeeder QueueSamples
begin

text \<open>
  The properties of the HTTP surface: who is refused, what an accepted message is worth, that a
  handle of a receive response deletes its message, and how many receives may be in flight.
\<close>

subsection \<open>Refusals\<close>

text \<open>C14: a request for an unknown queue, without a token, or with a token that is not one of the queue's
  for the role of the route (nor the shared one) is answered 404, 401 or 403, and changes nothing.\<close>

theorem unauthorized_changes_nothing:
  assumes "\<forall>q. get_queue (ap_registry A) (hr_queue rq) = Some q \<longrightarrow> \<not> authorized A rq q (route_role rt)" "rt \<noteq> ListQueues"
  shows "\<exists>rs. dispatch_route R E A G now_ms rt rq st = (Inr rs, st) \<and> rs_status rs = refusal_status A rq"
proof -
  obtain e where e: "resolve A rq (route_role rt) = Inl e" "rs_status e = refusal_status A rq"
    by (rule resolve_refused[OF assms(1)])
  then show ?thesis using assms(2)
    by (cases rt) (simp_all add: accept_refused Let_def handle_send_def handle_send_batch_def handle_receive_def begin_receive_def
        handle_delete_def handle_visibility_def handle_describe_def handle_purge_def handle_dlq_def)
qed

lemma unauthorized_changes_nothing_witness:
  "\<exists>rs. dispatch_route fake_ops no_emit (http_api http_wire) sample_gen 0 Purge (http_call ''c'' []) (http_state sample_state)
       = (Inr rs, http_state sample_state) \<and> rs_status rs = 403"
proof -
  let ?A = "http_api http_wire" and ?rq = "http_call ''c'' []"
  have q: "get_queue (ap_registry ?A) (hr_queue ?rq) = Some sample_queue" by code_simp
  have "\<not> authorized ?A ?rq sample_queue (route_role Purge)" by code_simp
  with q have n: "\<forall>q. get_queue (ap_registry ?A) (hr_queue ?rq) = Some q \<longrightarrow> \<not> authorized ?A ?rq q (route_role Purge)" by simp
  have "authorized ?A ?rq sample_queue Consumer" by code_simp
  then have r: "refusal_status ?A ?rq = 403" using q by (auto simp: refusal_status_def)
  show ?thesis using unauthorized_changes_nothing[OF n, of fake_ops no_emit sample_gen 0 "http_state sample_state"] r by simp
qed

subsection \<open>Bodies\<close>

text \<open>reading a body chunk by chunk refuses exactly the bodies that declare or have more bytes than the
  limit, and otherwise returns the whole body, however it is chunked.\<close>

theorem read_capped_equiv:
  assumes "0 \<le> limit"
  shows "read_capped declared chunks limit =
    (if (\<exists>n. declared = Some n \<and> n > limit) \<or> int (length (concat chunks)) > limit then None
     else Some (concat chunks))"
  using read_chunks_spec[of limit "[]" chunks] assms by (auto simp: read_capped_def)

lemma read_capped_equiv_witness: "read_capped None [''ab'', ''cd''] 3 = None"
  by (subst read_capped_equiv) simp_all

subsection \<open>Receives in flight\<close>

text \<open>
  One step of the surface: a receive passes the semaphore or is refused, one in flight completes, any
  other route runs, or something else changes the server and the bus.
\<close>

inductive api_step ::
    "'r redis_ops \<Rightarrow> 'b bus_emit \<Rightarrow> queue_api \<Rightarrow> gen \<Rightarrow> ('r, 'b) api_state \<times> receive_job list \<Rightarrow>
     ('r, 'b) api_state \<times> receive_job list \<Rightarrow> bool" for R E A G where
  admit: "begin_receive A rq st = (Inr j, st') \<Longrightarrow> api_step R E A G (st, js) (st', js @ [j])"
| refuse: "begin_receive A rq st = (Inl e, st') \<Longrightarrow> api_step R E A G (st, js) (st', js)"
| complete: "i < length js \<Longrightarrow> finish_job R A now_ms (js ! i) st = (rs, st') \<Longrightarrow>
    api_step R E A G (st, js) (st', take i js @ drop (Suc i) js)"
| other: "rt \<noteq> Receive \<Longrightarrow> dispatch_route R E A G now_ms rt rq st = (x, st') \<Longrightarrow> api_step R E A G (st, js) (st', js)"
| outside: "api_step R E A G (st, js) (st\<lparr>as_queue := qst, as_bus := b\<rparr>, js)"

lemma send_ingress_inflight: "as_inflight (snd (send_ingress R A q g st)) = as_inflight st"
  by (simp add: send_ingress_def split: sum.split prod.split)

lemma send_entries_inflight: "as_inflight (snd (send_entries R E A q es st)) = as_inflight st"
proof (induction es arbitrary: st)
  case (Cons e es)
  obtain k g where e: "e = (k, g)" by (cases e)
  obtain x st1 where s: "send_ingress R A q g st = (x, st1)" by force
  have "as_inflight st1 = as_inflight st" using send_ingress_inflight[of R A q g st] s by simp
  then show ?case
    using Cons.IH[of st1] Cons.IH[of "st1\<lparr>as_bus := mirror E A q g (projr x) (as_bus st1)\<rparr>"] s
    by (cases x) (simp_all add: e case_prod_beta)
qed simp

lemma other_inflight:
  assumes "rt \<noteq> Receive"
  shows "as_inflight (snd (dispatch_route R E A G now_ms rt rq st)) = as_inflight st"
proof (cases rt)
  case Send
  have "as_inflight (snd (handle_send R E A G rq st)) = as_inflight st"
  proof (cases "accept A rq Producer (ingress_validate (ap_pydantic A) (uuid4 G (as_draws st)) (utcnow G (as_draws st)))")
    case (Inr p)
    obtain q g where p: "p = (q, g)" by (cases p)
    obtain y st1 where s: "send_ingress R A q g (st\<lparr>as_draws := Suc (as_draws st)\<rparr>) = (y, st1)" by force
    have "as_inflight st1 = as_inflight st" using send_ingress_inflight[of R A q g "st\<lparr>as_draws := Suc (as_draws st)\<rparr>"] s by simp
    then show ?thesis using Inr s by (cases y) (simp_all add: handle_send_def Let_def p)
  qed (simp add: handle_send_def Let_def)
  then show ?thesis by (simp add: Send)
next
  case SendBatch
  have "as_inflight (snd (handle_send_batch R E A G rq st)) = as_inflight st"
    by (cases "accept A rq Producer (send_batch_validate (ap_pydantic A) G (as_draws st))")
      (auto simp: handle_send_batch_def Let_def case_prod_beta send_entries_inflight)
  then show ?thesis by (simp add: SendBatch)
qed (use assms in \<open>auto simp: handle_delete_def handle_visibility_def batch_reply_def handle_describe_def handle_purge_def Let_def
        split: sum.splits prod.splits\<close>)

lemma step_inflight:
  assumes "api_step R E A G (st, js) (st', js')" "ap_max_inflight A \<noteq> 0"
    "as_inflight st = length js" "length js \<le> ap_max_inflight A"
  shows "as_inflight st' = length js' \<and> length js' \<le> ap_max_inflight A"
  using assms(1)
proof (cases rule: api_step.cases)
  case (admit rq j)
  then show ?thesis using begin_job(4,5)[OF admit(2)] assms by auto
next
  case (refuse rq e)
  have "st' = st" using refuse(2) by (auto simp: begin_receive_def Let_def split: sum.splits if_splits)
  then show ?thesis using refuse assms by simp
next
  case (complete i now_ms rs)
  then show ?thesis using assms by (auto simp: finish_job_def split: prod.splits)
next
  case (other rt now_ms rq x)
  then show ?thesis using assms other_inflight[OF other(2), of R E A G now_ms rq st] by simp
qed (use assms in auto)

lemma refused_busy:
  assumes "begin_receive A rq st = (Inl e, st')" "rs_status e = 429"
  shows "ap_max_inflight A \<le> as_inflight st"
proof -
  have r: "resolve A rq Consumer = Inl x \<Longrightarrow> rs_status x \<noteq> 429" for x
    by (auto simp: resolve_def split: option.splits if_splits)
  have b: "read_json A rq q = Inl x \<Longrightarrow> rs_status x \<noteq> 429" for x q
    by (auto simp: read_json_def split: option.splits)
  have a: "accept A rq Consumer f = Inl x \<Longrightarrow> rs_status x \<noteq> 429" for x f
    using r b by (auto simp: accept_def validation_error_def split: sum.splits option.splits)
  show ?thesis using assms a
    by (auto simp: begin_receive_def Let_def invalid_parameter_def split: sum.splits if_splits)
qed



subsection \<open>An accepted message\<close>

lemma default_codec_roundtrip:
  assumes "codec_ok J" "\<forall>v t. dumps J v = Inr t \<longrightarrow> t \<noteq> []" "wc_encode (default_codec J u) e = Inr f" "wf_envelope e"
  shows "wc_decode (default_codec J u) f = (if schema_version e = ENVELOPE_SCHEMA_VERSION then Inr e else Inl UnsupportedSchemaVersion)"
proof -
  obtain t where t: "dumps J (PDict (to_dict e)) = Inr t" "f = [(''envelope'', t)]"
    using assms(3) by (cases "dumps J (PDict (to_dict e))") (auto simp: default_codec_def)
  have "loads J t = Inr (PDict (to_dict e))" "t \<noteq> []" using assms(1,2) t(1) by (auto simp: codec_ok_def)
  then show ?thesis using from_dict_to_dict[OF assms(4), of u] by (simp add: default_codec_def t(2))
qed

lemma send_201:
  assumes "handle_send R E A G rq st = (rs, st1)" "rs_status rs = 201"
  obtains q g e i f r where "resolve A rq Producer = Inr q"
    "\<exists>v. ingress_validate (ap_pydantic A) (uuid4 G (as_draws st)) (utcnow G (as_draws st)) v = Some g"
    "to_envelope g = Inr e" "wc_encode (qs_wire (ap_store A)) e = Inr f"
    "xadd R (q_stream (ap_store A) q) f (qc_maxlen q) (q_redis (as_queue st)) = (Inr i, r)"
    "q_redis (as_queue st1) = r" "dict_get (rs_body rs) ''message_id'' = Some (PStr i)"
proof -
  let ?v = "ingress_validate (ap_pydantic A) (uuid4 G (as_draws st)) (utcnow G (as_draws st))"
  have bad: "rs_status unavailable \<noteq> 201" by (simp add: unavailable_def)
  have r: "resolve A rq Producer = Inl x \<Longrightarrow> rs_status x \<noteq> 201" for x
    by (auto simp: resolve_def split: option.splits if_splits)
  have b: "read_json A rq q = Inl x \<Longrightarrow> rs_status x \<noteq> 201" for x q
    by (auto simp: read_json_def split: option.splits)
  have a: "accept A rq Producer ?v = Inl x \<Longrightarrow> rs_status x \<noteq> 201" for x
    using r b by (auto simp: accept_def validation_error_def split: sum.splits option.splits)
  obtain q g where ac: "accept A rq Producer ?v = Inr (q, g)"
    using assms a by (cases "accept A rq Producer ?v") (auto simp: handle_send_def Let_def)
  obtain y st2 where s: "send_ingress R A q g (st\<lparr>as_draws := Suc (as_draws st)\<rparr>) = (y, st2)" by force
  obtain i where y: "y = Inr i" using assms ac s bad by (cases y) (auto simp: handle_send_def Let_def)
  have rs: "dict_get (rs_body rs) ''message_id'' = Some (PStr i)" "as_queue st1 = as_queue st2"
    using assms(1) ac s y by (auto simp: handle_send_def Let_def json_response_def)
  obtain e where e: "to_envelope g = Inr e" using s y by (cases "to_envelope g") (auto simp: send_ingress_def)
  obtain x r where x: "send R (ap_store A) q e (q_redis (as_queue st)) = (x, r)" by force
  have x2: "x = Inr i" "q_redis (as_queue st2) = r" using s e x y by (auto simp: send_ingress_def)
  obtain f where f: "wc_encode (qs_wire (ap_store A)) e = Inr f"
    using x x2 by (cases "wc_encode (qs_wire (ap_store A)) e") (auto simp: send_def)
  have "xadd R (q_stream (ap_store A) q) f (qc_maxlen q) (q_redis (as_queue st)) = (Inr i, r)"
    using x x2 f by (auto simp: send_def lift_err_def split: prod.splits) (metis sum.case(2) map_sum.simps sum.exhaust sum.inject(2) sum.distinct(1) id_apply)
  moreover obtain v where "resolve A rq Producer = Inr q" "?v v = Some g" using ac by (auto simp: accept_Inr)
  ultimately show ?thesis using e f rs x2 by (intro that[of q g e f i r]) auto
qed

text \<open>when a send is answered 201, exactly that message was put at the end of the stream of a declared
  queue the caller may produce to, under the id of the answer and with an aware timestamp; a consumer
  decodes it to the same envelope if it has the current schema version, and otherwise cannot decode it
  at all.\<close>

theorem accepted_message_decodes:
  assumes "fake_inv (q_redis (as_queue st))" "codec_ok J" "\<forall>v t. dumps J v = Inr t \<longrightarrow> t \<noteq> []"
    "qs_wire (ap_store A) = default_codec J u" "\<forall>q \<in> set (qr_queues (ap_registry A)). 0 < qc_maxlen q"
    "\<forall>n. valid_dt (utcnow G n) \<and> dt_aware (utcnow G n)" "\<forall>v d. pd_datetime (ap_pydantic A) v = Some d \<longrightarrow> valid_dt d"
    "handle_send fake_ops E A G rq st = (rs, st1)" "rs_status rs = 201"
  shows "\<exists>q e i f. get_queue (ap_registry A) (hr_queue rq) = Some q \<and> authorized A rq q Producer
    \<and> dict_get (rs_body rs) ''message_id'' = Some (PStr i) \<and> wf_envelope e
    \<and> rv_log (fake_view (q_redis (as_queue st1))) (q_stream (ap_store A) q) \<noteq> []
    \<and> last (rv_log (fake_view (q_redis (as_queue st1))) (q_stream (ap_store A) q)) = (i, f)
    \<and> wc_decode (qs_wire (ap_store A)) f =
        (if schema_version e = ENVELOPE_SCHEMA_VERSION then Inr e else Inl UnsupportedSchemaVersion)"
proof -
  obtain q g e i f r where s: "resolve A rq Producer = Inr q"
    "\<exists>v. ingress_validate (ap_pydantic A) (uuid4 G (as_draws st)) (utcnow G (as_draws st)) v = Some g"
    "to_envelope g = Inr e" "wc_encode (qs_wire (ap_store A)) e = Inr f"
    "xadd fake_ops (q_stream (ap_store A) q) f (qc_maxlen q) (q_redis (as_queue st)) = (Inr i, r)"
    "q_redis (as_queue st1) = r" "dict_get (rs_body rs) ''message_id'' = Some (PStr i)"
    by (rule send_201[OF assms(8,9)])
  have q: "get_queue (ap_registry A) (hr_queue rq) = Some q" "authorized A rq q Producer" using s(1) by (simp_all add: resolve_Inr)
  have "q \<in> set (qr_queues (ap_registry A))" using q(1) unfolding get_queue_def by (metis (mono_tags, lifting) find_Some_iff nth_mem)
  then have m: "0 < qc_maxlen q" using assms(5) by simp
  obtain v where v: "ingress_validate (ap_pydantic A) (uuid4 G (as_draws st)) (utcnow G (as_draws st)) v = Some g" using s(2) by blast
  have aw: "dt_aware (ig_timestamp g)" "valid_dt (ig_timestamp g)"
    using ingress_facts(1)[OF v] ingress_valid_ts[OF v] assms(6,7) by simp_all
  then have w: "wf_envelope e" using to_envelope_aware[OF aw(1)] s(3) by (auto simp: wf_envelope_def)
  obtain j r' k where a: "xadd fake_ops (q_stream (ap_store A) q) f (qc_maxlen q) (q_redis (as_queue st)) = (Inr j, r')"
    "int k \<le> max 0 (int (length (rv_log (fake_view (q_redis (as_queue st))) (q_stream (ap_store A) q))) + 1 - qc_maxlen q)"
    "rv_log (fake_view r') = (rv_log (fake_view (q_redis (as_queue st))))(q_stream (ap_store A) q :=
       drop k (rv_log (fake_view (q_redis (as_queue st))) (q_stream (ap_store A) q) @ [(j, f)]))"
    using fake.add[OF assms(1) m, of "q_stream (ap_store A) q" f] by (elim exE conjE) (rule that; assumption)
  have "k \<le> length (rv_log (fake_view (q_redis (as_queue st))) (q_stream (ap_store A) q))" using a(2) m by linarith
  then have "rv_log (fake_view (q_redis (as_queue st1))) (q_stream (ap_store A) q) \<noteq> []
    \<and> last (rv_log (fake_view (q_redis (as_queue st1))) (q_stream (ap_store A) q)) = (i, f)"
    using a s(5,6) by simp
  moreover have "wc_decode (qs_wire (ap_store A)) f =
        (if schema_version e = ENVELOPE_SCHEMA_VERSION then Inr e else Inl UnsupportedSchemaVersion)"
    using default_codec_roundtrip[OF assms(2,3) _ w, of u f] s(4) unfolding assms(4) by simp
  ultimately show ?thesis using q s(7) w by blast
qed

lemma accepted_message_decodes_witness:
  "\<exists>rs st1 i f. handle_send fake_ops no_emit (http_api http_wire) sample_gen (http_call ''p'' ''s'') (http_state sample_state) = (rs, st1)
     \<and> rs_status rs = 201 \<and> last (rv_log (fake_view (q_redis (as_queue st1))) ''s:q'') = (i, f)
     \<and> \<not> (\<exists>x. wc_decode http_wire f = Inl x \<and> x \<noteq> UnsupportedSchemaVersion)"
proof -
  let ?A = "http_api http_wire"
  obtain rs st1 where h: "handle_send fake_ops no_emit ?A sample_gen (http_call ''p'' ''s'') (http_state sample_state) = (rs, st1)" by force
  have a: "ap_pydantic ?A = http_pydantic" "ap_store ?A = http_store http_wire" "qs_wire (http_store http_wire) = http_wire"
    "qs_registry (http_store http_wire) = \<lparr>qr_queues = [sample_queue], qr_prefix = ''s:''\<rparr>" "ap_registry ?A = qs_registry (http_store http_wire)"
    by (simp_all add: http_api_def http_store_def sample_qstore_def)
  have g: "uuid4 sample_gen 0 = []" "utcnow sample_gen n = sample_time" for n by (simp_all add: sample_gen_def)
  have ts: "valid_dt sample_time" "dt_aware sample_time"
    by (simp_all add: sample_time_def valid_dt_def dt_aware_def days_in_month_def)
  have e: "wc_encode http_wire http_event = Inr [(''envelope'', ''b'')]"
    by (simp add: http_wire_def default_codec_def table_codec_def http_table_def to_dict_def)
  have i: "fake_inv (q_redis (as_queue (http_state sample_state)))" by (rule http_state_inv)
  have s: "rs_status rs = 201"
  proof -
    obtain k r where x: "xadd fake_ops ''s:q'' [(''envelope'', ''b'')] 10 (q_redis (as_queue (http_state sample_state))) = (Inr k, r)"
      using fake.add[OF i, of 10 "''s:q''" "[(''envelope'', ''b'')]"] by auto
    have se: "send fake_ops (http_store http_wire) sample_queue http_event (q_redis (as_queue (http_state sample_state))) = (Inr k, r)"
      using x e a(3,4) by (simp add: send_def q_stream_def stream_for_def sample_queue_def lift_err_def)
    have ev: "to_envelope \<lparr>ig_topic = ''t'', ig_payload = [], ig_event_id = [], ig_timestamp = sample_time, ig_source = None, ig_severity = INFO,
      ig_priority = NORMAL, ig_correlation_id = None, ig_trace_context = None, ig_metadata = [], ig_schema_version = 1\<rparr> = Inr http_event"
      using ts(2) by (simp add: to_envelope_def http_event_def sample_event_def)
    have d: "as_draws (http_state sample_state) = 0" by (simp add: http_state_def)
    show ?thesis using h se unfolding handle_send_def Let_def d a(1) g http_send_accepted
      by (auto simp: send_ingress_def ev a(2) json_response_def)
  qed
  have w: "qs_wire (ap_store ?A) = default_codec (table_codec http_table) []" unfolding a(2) a(3) by (rule http_wire_def)
  have m: "\<forall>q \<in> set (qr_queues (ap_registry ?A)). 0 < qc_maxlen q" by (simp add: a sample_queue_def)
  have t: "\<forall>n. valid_dt (utcnow sample_gen n) \<and> dt_aware (utcnow sample_gen n)" by (simp add: g ts)
  have p: "\<forall>v d. pd_datetime (ap_pydantic ?A) v = Some d \<longrightarrow> valid_dt d" by (simp add: a http_pydantic_def)
  have q: "get_queue (ap_registry ?A) (hr_queue (http_call ''p'' ''s'')) = Some sample_queue" by code_simp
  have n: "\<forall>v t. dumps (table_codec http_table) v = Inr t \<longrightarrow> t \<noteq> []" using http_dumps_nonempty by blast
  obtain e i f where "last (rv_log (fake_view (q_redis (as_queue st1))) (q_stream (ap_store ?A) sample_queue)) = (i, f)"
    "wc_decode (qs_wire (ap_store ?A)) f = (if schema_version e = ENVELOPE_SCHEMA_VERSION then Inr e else Inl UnsupportedSchemaVersion)"
    using accepted_message_decodes[OF i http_codec_ok n w m t p h s] q by auto
  moreover have "q_stream (ap_store ?A) sample_queue = ''s:q''" by (simp add: q_stream_def stream_for_def a sample_queue_def)
  ultimately show ?thesis using h s a(2,3) by (intro exI[of _ rs] exI[of _ st1] exI[of _ i] exI[of _ f]) (auto split: if_splits)
qed

subsection \<open>A handle deletes its message\<close>

text \<open>with nothing trimmed from under the pending list, any handle listed in the response to a receive,
  presented in a delete request for the same queue and group before its lease (plus the grace) is over,
  is answered 200, and its message, pending before, is no longer pending for the group.\<close>

theorem listed_handle_deletes:
  assumes "codec_ok (qs_json (ap_store A))" "rk_keys (qs_receipts (ap_store A)) \<noteq> []"
    "fake_inv (q_redis (as_queue st))" "begin_receive A rq st = (Inr j, st0)" "rj_wait_ms j \<le> 0"
    "finish_job fake_ops A now1 j st0 = (rs, st1)" "h \<in> set (handles_of rs)"
    "accept A rq2 Consumer delete_validate = Inr (rj_queue j, rr_group (rj_options j), [e])" "he_receipt_handle e = h"
    "now2 \<le> now1 + lease_ms (rj_queue j) (rj_visibility_ms j) + rk_grace_ms (qs_receipts (ap_store A))"
    "\<forall>(i, p) \<in> set (gv_pend (ensured (q_stream (ap_store A) (rj_queue j)) (rr_group (rj_options j)) (fake_view (q_redis (as_queue st))))).
       in_stream (fake_view (q_redis (as_queue st))) (q_stream (ap_store A) (rj_queue j)) i"
  shows "\<exists>i st2. handle_delete fake_ops A now2 rq2 st1 = (Inr (batch_response [Success (he_id e) (Some i)]), st2)
    \<and> (\<exists>gv gv2. rv_grp (fake_view (q_redis (as_queue st1))) (q_stream (ap_store A) (rj_queue j), rr_group (rj_options j)) = Some gv
        \<and> i \<in> fst ` set (gv_pend gv)
        \<and> rv_grp (fake_view (q_redis (as_queue st2))) (q_stream (ap_store A) (rj_queue j), rr_group (rj_options j)) = Some gv2
        \<and> gv_pend gv2 = forget {i} (gv_pend gv))"
proof -
  let ?S = "ap_store A" and ?q = "rj_queue j" and ?g = "rr_group (rj_options j)"
  let ?s = "q_stream ?S ?q" and ?n = "nat (rr_max_messages (rj_options j))"
  have n: "0 < ?n" using begin_job(1)[OF assms(4)] by simp
  note st0 = begin_job(2)[OF assms(4)]
  obtain ds d where r0: "receive fake_ops ?S ?q ?g ?n (rj_wait_ms j) (rj_visibility_ms j) now1 (as_queue st0) = (Inr ds, as_queue st1)"
    and d: "d \<in> set ds" "dm_handle d = h" by (rule job_handles[OF assms(6,7)])
  note r = r0[unfolded st0]
  obtain gv p where l: "rv_grp (fake_view (q_redis (as_queue st1))) (?s, ?g) = Some gv" "map_of (gv_pend gv) (dm_id d) = Some p"
    "(\<forall>(j, p) \<in> set (gv_pend (ensured ?s ?g (fake_view (q_redis (as_queue st))))). in_stream (fake_view (q_redis (as_queue st))) ?s j)
      \<longrightarrow> pe_times p = dm_delivered d"
    "rc_message_id (dm_receipt d) = dm_id d" "rc_delivered (dm_receipt d) = dm_delivered d"
    "rc_stream (dm_receipt d) = ?s" "rc_group (dm_receipt d) = ?g"
    by (rule fake.receive_leases[OF assms(3) n assms(5) r d(1)])
  have inv: "fake_inv (q_redis (as_queue st1))" by (rule fake.receive_returns(2)[OF assms(3) n assms(5) r])
  note h = receive_handles[OF r d(1)]
  have dec: "decode_handle A h ?q ?g now2 = Inr (Inr (dm_receipt d))"
    using decode_encoded[OF assms(1) h(1)] assms(2,10) h(2-4) d(2)
    by (simp add: decode_handle_def store_decode_receipt_def not_less)
  have g: "rv_grp (fake_view (q_redis (as_queue st1))) (rc_stream (dm_receipt d), rc_group (dm_receipt d)) = Some gv"
    "map_of (gv_pend gv) (rc_message_id (dm_receipt d)) = Some p" using l by simp_all
  obtain r2 y where y: "delete_message fake_ops ?q (dm_receipt d) (q_redis (as_queue st1)) = (y, r2)"
    "isl y \<longleftrightarrow> qc_strict_ack ?q \<and> pe_times p > rc_delivered (dm_receipt d)"
    "if isl y then fake_view r2 = fake_view (q_redis (as_queue st1)) else deleted_to ?q (dm_receipt d) (fake_view (q_redis (as_queue st1))) (fake_view r2)"
    by (rule fake.delete_exact[OF inv g, of ?q])
  have y2: "\<not> isl y" using y(2) l(3,5) assms(11) by simp
  then obtain z where z: "y = Inr z" by (cases y) auto
  let ?st2 = "st1\<lparr>as_queue := (as_queue st1)\<lparr>q_redis := r2\<rparr>\<rparr>"
  have "handle_delete fake_ops A now2 rq2 st1 = (Inr (batch_response [Success (he_id e) (Some (dm_id d))]), ?st2)"
    using dec assms(9) y(1) z l(4) by (simp add: handle_delete_def assms(8) batch_reply_def)
  moreover have "rv_grp (fake_view r2) (?s, ?g) = Some (gv\<lparr>gv_pend := forget {dm_id d} (gv_pend gv),
      gv_fresh := if qc_delete_entries ?q then forget {dm_id d} (gv_fresh gv) else gv_fresh gv\<rparr>)"
    using y(3) y2 l by (simp add: deleted_to_def)
  moreover have "dm_id d \<in> fst ` set (gv_pend gv)" using l(2) by (force dest: map_of_SomeD)
  ultimately show ?thesis using l(1) by (intro exI[of _ "dm_id d"] exI[of _ ?st2]) auto
qed

lemma listed_handle_deletes_witness:
  "\<exists>j st0 rs st1 i st2. begin_receive (http_api constant_wire) (http_call ''c'' ''r'') (http_state sample_state) = (Inr j, st0)
     \<and> finish_job fake_ops (http_api constant_wire) 1000 j st0 = (rs, st1) \<and> handles_of rs = [''q1.Yw.aw'']
     \<and> handle_delete fake_ops (http_api constant_wire) 1020 (http_call ''c'' ''d'') st1 = (Inr (batch_response [Success ''1'' (Some i)]), st2)"
proof -
  let ?A = "http_api constant_wire"
  obtain j st0 where b: "begin_receive ?A (http_call ''c'' ''r'') (http_state sample_state) = (Inr j, st0)"
    and j: "rj_queue j = sample_queue" "rr_group (rj_options j) = ''g''" "rj_wait_ms j = 0" "rj_visibility_ms j = None"
      "rr_max_messages (rj_options j) = 1" "as_queue st0 = sample_state"
    by (simp add: http_begins http_state_def)
  have l: "lease_ms sample_queue None = 30" by (simp add: lease_ms_def sample_queue_def)
  have s: "ap_store ?A = http_store constant_wire" by (simp add: http_api_def)
  obtain ds qst where r: "receive fake_ops (http_store constant_wire) sample_queue ''g'' 1 0 None 1000 sample_state = (Inr ds, qst)"
    "map dm_handle ds = [''q1.Yw.aw'']"
    using http_received by (cases "receive fake_ops (http_store constant_wire) sample_queue ''g'' 1 0 None 1000 sample_state"; cases "fst (receive fake_ops (http_store constant_wire) sample_queue ''g'' 1 0 None 1000 sample_state)") auto
  obtain rs st1 where f: "finish_job fake_ops ?A 1000 j st0 = (rs, st1)" by force
  have hh: "handles_of rs = [''q1.Yw.aw'']"
    using job_lists(2)[of fake_ops ?A j 1000 st0 ds qst] r f l by (simp add: j s)
  define e where "e = \<lparr>he_id = ''1'', he_receipt_handle = ''q1.Yw.aw'', he_visibility_s = 0\<rparr>"
  have a: "accept ?A (http_call ''c'' ''d'') Consumer delete_validate = Inr (rj_queue j, rr_group (rj_options j), [e])"
    unfolding e_def j by (rule http_delete_accepted)
  have u: "\<forall>(i, p) \<in> set (gv_pend (ensured ''s:q'' ''g'' (fake_view (q_redis sample_state)))). in_stream (fake_view (q_redis sample_state)) ''s:q'' i"
    by code_simp
  have q: "q_stream (ap_store ?A) sample_queue = ''s:q''" by (simp add: s http_store_def q_stream_def stream_for_def sample_qstore_def sample_queue_def)
  have u2: "\<forall>(i, p) \<in> set (gv_pend (ensured (q_stream (ap_store ?A) (rj_queue j)) (rr_group (rj_options j)) (fake_view (q_redis (as_queue (http_state sample_state)))))).
       in_stream (fake_view (q_redis (as_queue (http_state sample_state)))) (q_stream (ap_store ?A) (rj_queue j)) i"
    using u by (simp add: j q http_state_def)
  have k: "codec_ok (qs_json (ap_store ?A))" "rk_keys (qs_receipts (ap_store ?A)) \<noteq> []"
    using http_codec_ok by (simp_all add: s http_store_def sample_qstore_def)
  have t: "1020 \<le> 1000 + lease_ms (rj_queue j) (rj_visibility_ms j) + rk_grace_ms (qs_receipts (ap_store ?A))"
    by (simp add: j l s http_store_def sample_qstore_def)
  have "rj_wait_ms j \<le> 0" "''q1.Yw.aw'' \<in> set (handles_of rs)" "he_receipt_handle e = ''q1.Yw.aw''" by (simp_all add: j hh e_def)
  then obtain i st2 where "handle_delete fake_ops ?A 1020 (http_call ''c'' ''d'') st1 = (Inr (batch_response [Success (he_id e) (Some i)]), st2)"
    using listed_handle_deletes[OF k http_state_inv b _ f _ a _ t u2] by blast
  then show ?thesis using b f hh by (auto simp: e_def)
qed

subsection \<open>The expiry shown to a consumer\<close>

text \<open>the expiry stamp of a message is ISO-8601 text that reads back as the very instant the lease of its
  receipt ends, and every instant of the years 1 to 9999 has one.\<close>

theorem expiry_stamp_roundtrip:
  assumes "- 62135596800000 \<le> ms" "ms < 253402300800000"
  shows "\<exists>t d. iso_from_ms ms = Inr t \<and> fromisoformat t = Some d \<and> dt_utcoff d = Some 0
    \<and> dt_instant d = (ms + EPOCH_ORDINAL * 86400000) * 1000"
proof -
  obtain d where d: "utc_from_ms ms = Inr d" using utc_from_ms_total[OF assms] by blast
  have "iso_from_ms ms = Inr (isoformat d)" by (simp add: iso_from_ms_def d)
  moreover have "fromisoformat (isoformat d) = Some d" by (rule fromisoformat_isoformat[OF utc_from_ms_facts(1)[OF d]])
  ultimately show ?thesis using utc_from_ms_facts(2,3)[OF d] by blast
qed

lemma expiry_stamp_roundtrip_witness:
  "\<exists>t d. iso_from_ms 1715941815250 = Inr t \<and> fromisoformat t = Some d \<and> dt_instant d = 63851625015250000"
  using expiry_stamp_roundtrip[of 1715941815250] by (auto simp: EPOCH_ORDINAL_def)

section \<open>The queue feeder\<close>

text \<open>The properties of the bridge from the bus into a queue.\<close>

lemma feeder_sub_ids: "length ps = length is \<Longrightarrow> map sub_id (map2 (feeder_sub f h) ps is) = is"
  by (induction ps "is" rule: list_induct2) (simp_all add: feeder_sub_def)

text \<open>attaching adds one subscription per pattern under fresh ids, none of which lets a \<open>bus.*\<close>
  meta-event through when they are excluded; detaching removes exactly those and gives back the
  subscriptions the bus had.\<close>

theorem feeder_attach_detach:
  assumes "distinct (map fst (b_subscriptions b))" "inj (uuid4 G)"
    "\<forall>n. uuid4 G n \<notin> sub_id ` set_mset (all_subs b)" "fd_subscription_ids f = []"
    "attach h G f b = (ids, f1, b1)" "detach f1 b1 = (n, f2, b2)"
  shows "length ids = length (fd_patterns f) \<and> n = length (fd_patterns f) \<and> f2 = f \<and> all_subs b2 = all_subs b
    \<and> (\<exists>M. all_subs b1 = all_subs b + M \<and> image_mset sub_id M = mset ids
         \<and> (\<forall>s \<in># M. \<forall>e. fd_exclude_bus_internal f \<and> py_startswith (topic e) ''bus.'' \<longrightarrow>
              (\<exists>p. sub_filter s = Some p \<and> p e = Some False)))"
proof -
  let ?is = "map (uuid4 G) [b_draws b ..< b_draws b + length (fd_patterns f)]"
  let ?M = "mset (map2 (feeder_sub f h) (fd_patterns f) ?is)"
  obtain b0 where a: "attach_patterns f h G (fd_patterns f) b = (?is, b0)" "all_subs b0 = all_subs b + ?M"
    "distinct (map fst (b_subscriptions b0))"
    using attach_patterns_spec[OF assms(1), of f h G "fd_patterns f"]
    by (cases "attach_patterns f h G (fd_patterns f) b") auto
  have at: "ids = ?is" "f1 = f\<lparr>fd_subscription_ids := ?is\<rparr>" "b1 = b0"
    using assms(4,5) a(1) by (auto simp: attach_def)
  have img: "image_mset sub_id ?M = mset ?is"
    using feeder_sub_ids[of "fd_patterns f" ?is f h] by (metis length_map length_upt add_diff_cancel_left' mset_map)
  have dist: "distinct ?is" using assms(2) by (auto simp: distinct_map inj_def inj_on_def)
  have fresh: "\<forall>s \<in># all_subs b. sub_id s \<notin> set ?is" using assms(3) by auto (metis image_eqI)
  have u: "fst (unsubscribe_all ?is b0) = length ?is \<and> all_subs (snd (unsubscribe_all ?is b0)) = all_subs b"
    by (rule unsubscribe_all_spec[OF a(3,2) dist img[symmetric] fresh])
  have d: "n = length ?is" "f2 = f" "all_subs b2 = all_subs b"
    using assms(4,6) u at by (auto simp: detach_def case_prod_beta)
  have "\<forall>s \<in># ?M. \<forall>e. fd_exclude_bus_internal f \<and> py_startswith (topic e) ''bus.'' \<longrightarrow>
      (\<exists>p. sub_filter s = Some p \<and> p e = Some False)"
    by (auto simp: feeder_sub_def feeder_accepts_def)
  then show ?thesis using d at a(2) img by auto
qed

definition sample_feeder :: feeder where
  "sample_feeder = feeder_new sample_queue (Some [''order.*'', ''audit'']) True"

definition feeder_gen :: gen where
  "feeder_gen = \<lparr>uuid4 = (\<lambda>n. CHR ''f'' # replicate n (CHR ''u'')), utcnow = (\<lambda>_. sample_time)\<rparr>"

lemma feeder_attach_detach_witness:
  "\<exists>ids f1 b1 n f2 b2. attach (\<lambda>_ _. None) feeder_gen sample_feeder (sample_bus POLICY_BLOCK None) = (ids, f1, b1)
     \<and> detach f1 b1 = (n, f2, b2) \<and> length ids = 2 \<and> n = 2 \<and> all_subs b2 = {#}"
proof -
  let ?b = "sample_bus POLICY_BLOCK None"
  have b: "b_subscriptions ?b = []" "b_pattern_subscriptions ?b = []"
    by (simp_all add: sample_bus_def bus_new_def sample_cfg_def VALID_POLICIES_def)
  obtain ids f1 b1 where a: "attach (\<lambda>_ _. None) feeder_gen sample_feeder ?b = (ids, f1, b1)" by (metis prod_cases3)
  obtain n f2 b2 where d: "detach f1 b1 = (n, f2, b2)" by (metis prod_cases3)
  have "inj (uuid4 feeder_gen)" by (auto simp: inj_def feeder_gen_def)
  then show ?thesis
    using feeder_attach_detach[OF _ _ _ _ a d] a d b by (force simp: all_subs_def sample_feeder_def feeder_new_def)
qed

end
