(* ===== verification/Hooks.thy ===== *)
theory Hooks
  imports Facade
begin

text \<open>
  The hook system of hooks/models.py, hooks/base.py and hooks/manager.py: the open registry of hook
  types, hook events, hooks with their injected callback, and the manager that injects it, fans an
  event out to the application's callback and the bus, and starts and stops the hooks.  The
  application's callbacks and the buses are named; running one is an argument over the state of
  everything outside.  Hooks are the manager's own: nothing else sets their callback.
\<close>

subsection \<open>Hook types and events\<close>

definition GENERIC_HOOK_TYPES :: "string list" where
  "GENERIC_HOOK_TYPES =
     [''scheduler'', ''file_watchdog'', ''postgres_listen'', ''imap_watchdog'', ''file_upload'', ''broker_redis'',
      ''broker_rabbitmq'', ''broker_mqtt'', ''broker_sqs'', ''filesystem'', ''webhook'', ''queue'']"

definition LEGACY_HOOK_TYPES :: "string list" where
  "LEGACY_HOOK_TYPES =
     [''jira_webhook'', ''github_webhook'', ''sharepoint'', ''telegram'', ''whatsapp'', ''msteams'', ''whatsapp_redis'',
      ''matrix'']"

definition register_hook_type :: "string \<Rightarrow> string list \<Rightarrow> string result \<times> string list" where
  "register_hook_type name ts =
     (if name = [] then (Inl (ValueError ''requires a non-empty str''), ts) else (Inr name, List.insert name ts))"

definition unregister_hook_type :: "string \<Rightarrow> string list \<Rightarrow> string list" where
  "unregister_hook_type name ts = removeAll name ts"

definition is_hook_type :: "string \<Rightarrow> string list \<Rightarrow> bool" where
  "is_hook_type name ts \<longleftrightarrow> name \<in> set ts"

definition HOOK_TYPES :: "string list" where
  "HOOK_TYPES = fold (\<lambda>n ts. snd (register_hook_type n ts)) (GENERIC_HOOK_TYPES @ LEGACY_HOOK_TYPES) []"

definition hook_event_new :: "string list \<Rightarrow> hook_event \<Rightarrow> hook_event result" where
  "hook_event_new ts ev =
     (if is_hook_type (he_hook_type ev) ts then Inr ev else Inl (ValueError ''Unregistered hook_type''))"

definition hook_dump :: "hook_event \<Rightarrow> pydict" where
  "hook_dump ev =
     [(''hook_id'', PStr (he_hook_id ev)), (''hook_type'', PStr (he_hook_type ev)), (''event_type'', PStr (he_event_type ev)),
      (''payload'', PDict (he_payload ev)), (''metadata'', PDict (he_metadata ev)), (''timestamp'', PDate (he_timestamp ev)),
      (''target_type'', opt_str (he_target_type ev)), (''target_id'', opt_str (he_target_id ev)),
      (''task'', opt_str (he_task ev))]"

subsection \<open>Hooks\<close>

text \<open>An injected callback is the application's own, or the wrapper over it and a bus.\<close>

datatype ('c, 'i) dispatch = Raw 'c | DualEmit 'i

record ('c, 'i) hook =
  hk_id :: string
  hk_type :: string
  hk_name :: string
  hk_enabled :: bool
  hk_target_type :: "string option"
  hk_target_id :: "string option"
  hk_metadata :: pydict
  hk_callback :: "('c, 'i) dispatch option"

definition hook_new ::
    "string \<Rightarrow> string \<Rightarrow> string \<Rightarrow> string option \<Rightarrow> bool \<Rightarrow> string option \<Rightarrow> string option \<Rightarrow> pydict \<Rightarrow> string \<Rightarrow>
     ('c, 'i) hook" where
  "hook_new class_name hook_type name hook_id enabled target_type target_id meta fresh_id =
     \<lparr>hk_id = (case hook_id of Some (c # cs) \<Rightarrow> c # cs | _ \<Rightarrow> take 12 fresh_id), hk_type = hook_type,
      hk_name = (if name = [] then class_name else name), hk_enabled = enabled, hk_target_type = target_type,
      hk_target_id = target_id, hk_metadata = meta, hk_callback = None\<rparr>"

definition make_event ::
    "string list \<Rightarrow> ('c, 'i) hook \<Rightarrow> py_datetime \<Rightarrow> string \<Rightarrow> pydict \<Rightarrow> string option \<Rightarrow> hook_event result" where
  "make_event ts h now et pl task =
     hook_event_new ts \<lparr>he_hook_id = hk_id h, he_hook_type = hk_type h, he_event_type = et, he_payload = pl,
       he_metadata = hk_metadata h, he_timestamp = now, he_target_type = hk_target_type h,
       he_target_id = hk_target_id h, he_task = task\<rparr>"

subsection \<open>The manager\<close>

record ('c, 'i) manager =
  hm_hooks :: "(string \<times> ('c, 'i) hook) list"
  hm_callback :: "'c option"
  hm_event_bus :: "'i option"
  hm_route_to_bus :: "bool option"
  hm_auto_logged :: bool

definition manager_new :: "bool option \<Rightarrow> ('c, 'i) manager" where
  "manager_new route =
     \<lparr>hm_hooks = [], hm_callback = None, hm_event_bus = None, hm_route_to_bus = route, hm_auto_logged = False\<rparr>"

definition effective_route_to_bus :: "('c, 'i) manager \<Rightarrow> bool" where
  "effective_route_to_bus m = (case hm_route_to_bus m of Some b \<Rightarrow> b | None \<Rightarrow> hm_event_bus m \<noteq> None)"

definition build_dispatch :: "('c, 'i) manager \<Rightarrow> ('c, 'i) dispatch option" where
  "build_dispatch m = (case hm_event_bus m of None \<Rightarrow> map_option Raw (hm_callback m) | Some i \<Rightarrow> Some (DualEmit i))"

definition inject_all :: "('c, 'i) manager \<Rightarrow> ('c, 'i) manager" where
  "inject_all m = m\<lparr>hm_hooks := map (\<lambda>(i, h). (i, h\<lparr>hk_callback := build_dispatch m\<rparr>)) (hm_hooks m)\<rparr>"

definition set_route_to_bus :: "bool option \<Rightarrow> ('c, 'i) manager \<Rightarrow> ('c, 'i) manager" where
  "set_route_to_bus enabled m = inject_all (m\<lparr>hm_route_to_bus := enabled\<rparr>)"

definition set_event_callback :: "'c option \<Rightarrow> ('c, 'i) manager \<Rightarrow> ('c, 'i) manager" where
  "set_event_callback c m = inject_all (m\<lparr>hm_callback := c\<rparr>)"

definition set_event_bus :: "'i option \<Rightarrow> ('c, 'i) manager \<Rightarrow> ('c, 'i) manager" where
  "set_event_bus bus m =
     (let m1 = inject_all (m\<lparr>hm_event_bus := bus, hm_auto_logged := False\<rparr>)
      in m1\<lparr>hm_auto_logged := hm_route_to_bus m1 = None \<and> hm_event_bus m1 \<noteq> None\<rparr>)"

definition register_hook :: "('c, 'i) hook \<Rightarrow> ('c, 'i) manager \<Rightarrow> string \<times> ('c, 'i) manager" where
  "register_hook h m =
     (let h1 = (case build_dispatch m of None \<Rightarrow> h | Some d \<Rightarrow> h\<lparr>hk_callback := Some d\<rparr>)
      in (hk_id h, m\<lparr>hm_hooks := dict_set (hk_id h) h1 (hm_hooks m)\<rparr>))"

definition unregister_hook :: "string \<Rightarrow> ('c, 'i) manager \<Rightarrow> ('c, 'i) hook option \<times> ('c, 'i) manager" where
  "unregister_hook i m = (dict_get (hm_hooks m) i, m\<lparr>hm_hooks := dict_del i (hm_hooks m)\<rparr>)"

definition get_hook :: "string \<Rightarrow> ('c, 'i) manager \<Rightarrow> ('c, 'i) hook option" where
  "get_hook i m = dict_get (hm_hooks m) i"

text \<open>\<open>start_all\<close> and \<open>stop_all\<close>: \<open>act\<close> is the hook's own \<open>start\<close> or \<open>stop\<close>; what it raises is logged.\<close>

fun for_enabled :: "(('c, 'i) hook \<Rightarrow> 'w \<Rightarrow> py_exc option \<times> 'w) \<Rightarrow> ('c, 'i) hook list \<Rightarrow> 'w \<Rightarrow> nat \<times> 'w" where
  "for_enabled act [] w = (0, w)"
| "for_enabled act (h # hs) w =
     (if \<not> hk_enabled h then for_enabled act hs w
      else (case act h w of
              (x, w1) \<Rightarrow> (case for_enabled act hs w1 of (n, w2) \<Rightarrow> (if x = None then Suc n else n, w2))))"

definition start_all :: "(('c, 'i) hook \<Rightarrow> 'w \<Rightarrow> py_exc option \<times> 'w) \<Rightarrow> ('c, 'i) manager \<Rightarrow> 'w \<Rightarrow> nat \<times> 'w" where
  "start_all hook_start m w = for_enabled hook_start (map snd (hm_hooks m)) w"

definition stop_all :: "(('c, 'i) hook \<Rightarrow> 'w \<Rightarrow> py_exc option \<times> 'w) \<Rightarrow> ('c, 'i) manager \<Rightarrow> 'w \<Rightarrow> nat \<times> 'w" where
  "stop_all hook_stop m w = for_enabled hook_stop (map snd (hm_hooks m)) w"

definition count_by_type :: "('c, 'i) manager \<Rightarrow> (string \<times> nat) list" where
  "count_by_type m =
     fold (\<lambda>h d. dict_set (hk_type h) (Suc (case dict_get d (hk_type h) of None \<Rightarrow> 0 | Some n \<Rightarrow> n)) d) (map snd (hm_hooks m)) []"

definition manager_stats :: "('c, 'i) manager \<Rightarrow> nat \<times> nat \<times> (string \<times> nat) list" where
  "manager_stats m = (length (hm_hooks m), length (filter hk_enabled (map snd (hm_hooks m))), count_by_type m)"

subsection \<open>An event fires\<close>

definition upper_char :: "char \<Rightarrow> char" where
  "upper_char c = (let n = (of_char c :: nat) in if 97 \<le> n \<and> n \<le> 122 then char_of (n - 32) else c)"

definition severity_by_name :: "string \<Rightarrow> severity option" where
  "severity_by_name s =
     dict_get [(''DEBUG'', DEBUG), (''INFO'', INFO), (''WARNING'', WARNING), (''ERROR'', ERROR), (''CRITICAL'', CRITICAL_SEV)]
       (map upper_char s)"

fun hook_severity :: "pyval \<Rightarrow> severity" where
  "hook_severity (PStr s) = (case severity_by_name s of Some v \<Rightarrow> v | None \<Rightarrow> INFO)"
| "hook_severity PNone = INFO"
| "hook_severity v = (case severity_of_val v of Inr x \<Rightarrow> x | Inl _ \<Rightarrow> INFO)"

definition hook_topic :: "hook_event \<Rightarrow> string" where
  "hook_topic ev = ''hooks.'' @ he_hook_type ev @ ''.'' @ he_event_type ev"

definition default_kwargs :: emit_kwargs where
  "default_kwargs = \<lparr>ek_event_id = None, ek_timestamp = None, ek_source = None, ek_priority = None,
     ek_correlation_id = None, ek_metadata = None, ek_severity = None\<rparr>"

text \<open>The arguments of \<open>bus.emit\<close>, in the legacy shape and first-class.\<close>

definition hook_emit_args :: "bool \<Rightarrow> hook_event \<Rightarrow> string \<times> pyval \<times> emit_kwargs" where
  "hook_emit_args route ev =
     (if \<not> route then (hook_topic ev, PDict (hook_dump ev), default_kwargs)
      else (let md = hook_metadata ev
            in (hook_topic ev, PDict (he_payload ev),
                default_kwargs\<lparr>ek_source := Some (he_hook_id ev), ek_metadata := Some (dict_del ''severity'' md),
                  ek_severity := Some (hook_severity (get_or md ''severity'' PNone))\<rparr>)))"

definition publish_hook_event ::
    "('i \<Rightarrow> 'w bus_emit) \<Rightarrow> ('c, 'i) manager \<Rightarrow> 'i \<Rightarrow> hook_event \<Rightarrow> 'w \<Rightarrow> 'w" where
  "publish_hook_event E m bus ev w =
     (case hook_emit_args (effective_route_to_bus m) ev of (t, pl, k) \<Rightarrow> snd (E bus t pl k w))"

text \<open>The wrapper reads the callback when it runs; an exception of the callback ends it.\<close>

fun run_dispatch ::
    "('c \<Rightarrow> hook_event \<Rightarrow> 'w \<Rightarrow> py_exc option \<times> 'w) \<Rightarrow> ('i \<Rightarrow> 'w bus_emit) \<Rightarrow> ('c, 'i) manager \<Rightarrow> ('c, 'i) dispatch \<Rightarrow>
     hook_event \<Rightarrow> 'w \<Rightarrow> py_exc option \<times> 'w" where
  "run_dispatch run E m (Raw c) ev w = run c ev w"
| "run_dispatch run E m (DualEmit bus) ev w =
     (case (case hm_callback m of None \<Rightarrow> (None, w) | Some c \<Rightarrow> run c ev w) of
        (Some x, w1) \<Rightarrow> (Some x, w1)
      | (None, w1) \<Rightarrow> (None, publish_hook_event E m bus ev w1))"

text \<open>\<open>BaseHook.on_event\<close>: without a callback the event is dropped, an exception is logged.\<close>

definition on_event ::
    "('c \<Rightarrow> hook_event \<Rightarrow> 'w \<Rightarrow> py_exc option \<times> 'w) \<Rightarrow> ('i \<Rightarrow> 'w bus_emit) \<Rightarrow> ('c, 'i) manager \<Rightarrow> ('c, 'i) hook \<Rightarrow>
     hook_event \<Rightarrow> 'w \<Rightarrow> 'w" where
  "on_event run E m h ev w = (case hk_callback h of None \<Rightarrow> w | Some d \<Rightarrow> snd (run_dispatch run E m d ev w))"

subsection \<open>Histories\<close>

datatype ('c, 'i) manager_op =
    Register "('c, 'i) hook"
  | Unregister string
  | SetCallback "'c option"
  | SetBus "'i option"
  | SetRoute "bool option"

fun manager_step :: "('c, 'i) manager_op \<Rightarrow> ('c, 'i) manager \<Rightarrow> ('c, 'i) manager" where
  "manager_step (Register h) m = snd (register_hook h m)"
| "manager_step (Unregister i) m = snd (unregister_hook i m)"
| "manager_step (SetCallback c) m = set_event_callback c m"
| "manager_step (SetBus b) m = set_event_bus b m"
| "manager_step (SetRoute r) m = set_route_to_bus r m"

definition fresh_op :: "('c, 'i) manager_op \<Rightarrow> bool" where
  "fresh_op x \<longleftrightarrow> (case x of Register h \<Rightarrow> hk_callback h = None | _ \<Rightarrow> True)"

definition injected :: "('c, 'i) manager \<Rightarrow> bool" where
  "injected m \<longleftrightarrow> distinct (map fst (hm_hooks m)) \<and>
     (\<forall>(i, h) \<in> set (hm_hooks m). hk_id h = i \<and> hk_callback h = build_dispatch m)"

lemma inject_all_injected:
  assumes "distinct (map fst (hm_hooks m))" "\<forall>(i, h) \<in> set (hm_hooks m). hk_id h = i"
  shows "injected (inject_all m)"
proof -
  have "build_dispatch (inject_all m) = build_dispatch m" by (simp add: build_dispatch_def inject_all_def split: option.split)
  then show ?thesis using assms by (auto simp: injected_def inject_all_def comp_def case_prod_beta)
qed

lemma manager_step_injected:
  assumes "injected m" "fresh_op x"
  shows "injected (manager_step x m)"
proof -
  have d: "distinct (map fst (hm_hooks m))" "\<forall>(i, h) \<in> set (hm_hooks m). hk_id h = i" using assms(1) by (auto simp: injected_def)
  show ?thesis
  proof (cases x)
    case (Register h)
    let ?h = "case build_dispatch m of None \<Rightarrow> h | Some d \<Rightarrow> h\<lparr>hk_callback := Some d\<rparr>"
    have h: "hk_callback ?h = build_dispatch m" "hk_id ?h = hk_id h"
      using assms(2) Register by (auto simp: fresh_op_def split: option.split)
    have b: "build_dispatch (m\<lparr>hm_hooks := y\<rparr>) = build_dispatch m" for y by (simp add: build_dispatch_def split: option.split)
    have "\<forall>(i, k) \<in> set (dict_set (hk_id h) ?h (hm_hooks m)). hk_id k = i \<and> hk_callback k = build_dispatch m"
      using assms(1) h by (auto simp: injected_def dest!: dict_set_values)
    then show ?thesis using d(1) by (simp add: Register register_hook_def Let_def injected_def b)
  next
    case (Unregister i)
    have b: "build_dispatch (m\<lparr>hm_hooks := y\<rparr>) = build_dispatch m" for y by (simp add: build_dispatch_def split: option.split)
    show ?thesis using assms(1)
      by (auto simp: Unregister unregister_hook_def injected_def b dict_del_def distinct_map_filter)
  next
    case (SetBus bus)
    let ?m = "m\<lparr>hm_event_bus := bus, hm_auto_logged := False\<rparr>"
    have "injected (inject_all ?m)" using inject_all_injected[of ?m] d by simp
    moreover have "build_dispatch (x\<lparr>hm_auto_logged := y\<rparr>) = build_dispatch x" for x :: "('a, 'b) manager" and y
      by (simp add: build_dispatch_def split: option.split)
    ultimately show ?thesis by (simp add: SetBus set_event_bus_def Let_def injected_def)
  qed (use inject_all_injected[of "m\<lparr>hm_callback := c\<rparr>" for c] inject_all_injected[of "m\<lparr>hm_route_to_bus := r\<rparr>" for r] d
      in \<open>simp_all add: set_event_callback_def set_route_to_bus_def\<close>)
qed

lemma manager_runs_injected:
  "\<forall>x \<in> set xs. fresh_op x \<Longrightarrow> injected m \<Longrightarrow> injected (fold manager_step xs m)"
  by (induction xs arbitrary: m) (simp_all add: manager_step_injected)

lemma injected_new: "injected (manager_new r)"
  by (simp add: injected_def manager_new_def)

end
