(* ===== verification/Rabbit.thy ===== *)
theory Rabbit
  imports Json
begin

text \<open>
  The RabbitMQ connection of brokers/rabbitmq/connection.py: connecting with its reconnections, publishing,
  decoding a delivery, and the wrapper that settles it.  The driver (aiormq), the pickles and UTF-8 are
  arguments.
\<close>

subsection \<open>Connecting\<close>

text \<open>What dialling comes to: no connection, a connection on which no channel opens, or both.\<close>

datatype dial_reply = Refused | No_channel | Opened_channel

record rabbit =
  rb_connected :: bool
  rb_channel :: bool
  rb_attempts :: nat
  rb_max :: nat
  rb_delay :: nat

definition rabbit_new :: "nat option \<Rightarrow> rabbit" where
  "rabbit_new max_attempts =
     \<lparr>rb_connected = False, rb_channel = False, rb_attempts = 0,
      rb_max = (case max_attempts of None \<Rightarrow> 3 | Some n \<Rightarrow> n), rb_delay = 1\<rparr>"

text \<open>\<open>schedule_reconnect\<close> up to its sleep: the seconds to sleep, or giving up.\<close>

definition schedule_reconnect :: "rabbit \<Rightarrow> (nat \<times> rabbit) result" where
  "schedule_reconnect s =
     (if rb_attempts s < rb_max s
      then Inr (rb_delay s * 2 ^ rb_attempts s, s\<lparr>rb_attempts := Suc (rb_attempts s)\<rparr>)
      else Inl (RuntimeError ''Unable to connect to RabbitMQ Server.''))"

text \<open>
  \<open>connect\<close> with the reconnections it awaits, which may not end; also the durations slept.  The count of
  attempts is reset as soon as there is a connection, before its channel opens.
\<close>

partial_function (option) connect ::
    "('w \<Rightarrow> dial_reply \<times> 'w) \<Rightarrow> rabbit \<Rightarrow> 'w \<Rightarrow> (unit result \<times> nat list \<times> rabbit \<times> 'w) option" where
  "connect dial s w =
     (case dial w of
        (reply, w1) \<Rightarrow>
          if reply = Opened_channel
          then Some (Inr (), [], s\<lparr>rb_connected := True, rb_attempts := 0, rb_channel := True\<rparr>, w1)
          else (let s1 = (if reply = No_channel then s\<lparr>rb_connected := True, rb_attempts := 0\<rparr> else s)
                in case schedule_reconnect s1 of
                     Inl x \<Rightarrow> Some (Inl x, [], s1, w1)
                   | Inr (d, s2) \<Rightarrow>
                       Option.bind (connect dial s2 w1) (\<lambda>(r, ds, s3, w2). Some (r, d # ds, s3, w2))))"

text \<open>\<open>is_closed\<close> is what the driver says of the connection.\<close>

definition ensure_connection ::
    "('w \<Rightarrow> dial_reply \<times> 'w) \<Rightarrow> bool \<Rightarrow> rabbit \<Rightarrow> 'w \<Rightarrow> (unit result \<times> nat list \<times> rabbit \<times> 'w) option" where
  "ensure_connection dial is_closed s w =
     (if \<not> rb_connected s \<or> is_closed then connect dial s w else Some (Inr (), [], s, w))"

text \<open>One pass of the monitor, which runs every minute: what \<open>connect\<close> raises is only logged.\<close>

definition monitor_pass ::
    "('w \<Rightarrow> dial_reply \<times> 'w) \<Rightarrow> bool \<Rightarrow> rabbit \<Rightarrow> 'w \<Rightarrow> (nat list \<times> rabbit \<times> 'w) option" where
  "monitor_pass dial is_closed s w =
     (if \<not> rb_connected s \<or> is_closed then map_option snd (connect dial s w) else Some ([], s, w))"

text \<open>Each close may fail, which is only logged and keeps the attribute.\<close>

definition disconnect :: "bool \<Rightarrow> bool \<Rightarrow> rabbit \<Rightarrow> rabbit" where
  "disconnect channel_closes connection_closes s =
     s\<lparr>rb_channel := (rb_channel s \<and> \<not> channel_closes), rb_connected := (rb_connected s \<and> \<not> connection_closes)\<rparr>"

subsection \<open>Messages and commands\<close>

text \<open>A header value is bytes or a value.\<close>

datatype amqp_value = Bytes string | Val pyval

record amqp_props =
  pr_content_type :: "string option"
  pr_encoding :: "string option"
  pr_headers :: "(string \<times> amqp_value) list"
  pr_delivery_mode :: "int option"
  pr_priority :: "int option"
  pr_correlation_id :: "string option"
  pr_reply_to :: "string option"
  pr_expiration :: "string option"
  pr_message_id :: "string option"
  pr_timestamp :: "py_datetime option"
  pr_message_type :: "string option"
  pr_user_id :: "string option"
  pr_app_id :: "string option"
  pr_cluster_id :: "string option"

definition props_new :: amqp_props where
  "props_new =
     \<lparr>pr_content_type = None, pr_encoding = None, pr_headers = [], pr_delivery_mode = None, pr_priority = None,
      pr_correlation_id = None, pr_reply_to = None, pr_expiration = None, pr_message_id = None, pr_timestamp = None,
      pr_message_type = None, pr_user_id = None, pr_app_id = None, pr_cluster_id = None\<rparr>"

record amqp_message =
  ms_body :: string
  ms_tag :: "nat option"
  ms_props :: "amqp_props option"
  ms_exchange :: "string option"
  ms_routing_key :: "string option"

text \<open>A call of the driver; a publication carries its other keyword arguments.\<close>

datatype amqp_command =
    Exchange_declare string string bool pydict
  | Queue_declare string bool pydict
  | Queue_bind string string string
  | Basic_qos int
  | Basic_consume string pydict
  | Basic_cancel string
  | Basic_ack nat
  | Basic_nack nat bool
  | Basic_publish string string string amqp_props pydict

text \<open>
  \<open>am_ensure\<close> is \<open>ensure_connection\<close> when it returns, \<open>am_channel\<close> whether there is a channel, \<open>am_run\<close> a
  command on it.
\<close>

record 'w amqp =
  am_ensure :: "'w \<Rightarrow> unit result \<times> 'w"
  am_channel :: "'w \<Rightarrow> bool"
  am_run :: "amqp_command \<Rightarrow> 'w \<Rightarrow> unit result \<times> 'w"

text \<open>A body: a value, a dataclass or model, or a wrapper.\<close>

datatype 'o mq_body = Value pyval | Model 'o | Wrapped 'o

record 'o mq_codec =
  mq_utf8 :: "string \<Rightarrow> string option"
  mq_to_utf8 :: "string \<Rightarrow> string"
  mq_json :: json_codec
  mq_encode :: "'o \<Rightarrow> string result"
  mq_decode :: "string \<Rightarrow> 'o mq_body result"
  mq_serialize :: "'o \<Rightarrow> string result"
  mq_unserialize :: "string \<Rightarrow> 'o mq_body result"
  mq_repr :: "pyval \<Rightarrow> string"

text \<open>
  The codecs of brokers/serializers.py.  jsonpickle and cloudpickle are imported when they are used: one that is
  not installed, like one that fails, is a \<open>RuntimeError\<close>.  \<open>encode\<close> and \<open>decode\<close> try JSON first.
\<close>

definition lazy_call :: "('a \<Rightarrow> 'b result) option \<Rightarrow> 'a \<Rightarrow> 'b result" where
  "lazy_call lib x =
     (case lib of
        None \<Rightarrow> Inl (RuntimeError ''is required'')
      | Some f \<Rightarrow> (case f x of Inl e \<Rightarrow> Inl (RuntimeError ''failed'') | Inr y \<Rightarrow> Inr y))"

definition serializer_encode :: "bool \<Rightarrow> ('o \<Rightarrow> string result) \<Rightarrow> ('o \<Rightarrow> string result) option \<Rightarrow> 'o \<Rightarrow> string result" where
  "serializer_encode use_jsonpickle json lib x =
     (if use_jsonpickle then lazy_call lib x
      else (case json x of Inr t \<Rightarrow> Inr t | Inl e \<Rightarrow> lazy_call lib x))"

definition serializer_decode ::
    "bool \<Rightarrow> json_codec \<Rightarrow> (string \<Rightarrow> 'o mq_body result) option \<Rightarrow> string \<Rightarrow> 'o mq_body result" where
  "serializer_decode use_jsonpickle J lib t =
     (if use_jsonpickle then lazy_call lib t
      else (case loads J t of Inr v \<Rightarrow> Inr (Value v) | Inl e \<Rightarrow> lazy_call lib t))"

text \<open>The codec a connection gets from its serializer; the pickles write and read base64.\<close>

definition serializer_codec ::
    "bool \<Rightarrow> ('o \<Rightarrow> string result) \<Rightarrow> ('o \<Rightarrow> string result) option \<Rightarrow> (string \<Rightarrow> 'o mq_body result) option \<Rightarrow>
     ('o \<Rightarrow> string result) option \<Rightarrow> (string \<Rightarrow> 'o mq_body result) option \<Rightarrow> 'o mq_codec \<Rightarrow> 'o mq_codec" where
  "serializer_codec use_jsonpickle json jp_encode jp_decode cp_dumps cp_loads C =
     C\<lparr>mq_encode := serializer_encode use_jsonpickle json jp_encode,
       mq_decode := serializer_decode use_jsonpickle (mq_json C) jp_decode,
       mq_serialize := lazy_call cp_dumps, mq_unserialize := lazy_call cp_loads\<rparr>"

text \<open>\<open>str\<close> of a value; of a number with a point, a date or a container it is \<open>mq_repr\<close>.\<close>

fun py_text :: "(pyval \<Rightarrow> string) \<Rightarrow> pyval \<Rightarrow> string" where
  "py_text rep (PStr s) = s"
| "py_text rep PNone = ''None''"
| "py_text rep (PBool b) = (if b then ''True'' else ''False'')"
| "py_text rep (PInt i) = int_str i"
| "py_text rep v = rep v"

text \<open>A step of the world that may raise, and the next one after it.\<close>

definition then_w :: "unit result \<times> 'w \<Rightarrow> ('w \<Rightarrow> 'a result \<times> 'w) \<Rightarrow> 'a result \<times> 'w" where
  "then_w p f = (case p of (Inl x, w) \<Rightarrow> (Inl x, w) | (Inr u, w) \<Rightarrow> f w)"

lemma then_w_simps [simp]: "then_w (Inl x, w) f = (Inl x, w)" "then_w (Inr u, w) f = f w"
  by (simp_all add: then_w_def)

text \<open>What is raised is only logged.\<close>

definition logged :: "unit result \<times> 'w \<Rightarrow> unit result \<times> 'w" where
  "logged p = (Inr (), snd p)"

lemma logged_simps [simp]: "fst (logged p) = Inr ()" "snd (logged p) = snd p"
  by (simp_all add: logged_def)

subsection \<open>Declarations\<close>

definition require_channel :: "'w amqp \<Rightarrow> 'w \<Rightarrow> unit result \<times> 'w" where
  "require_channel A w = ((if am_channel A w then Inr () else Inl (RuntimeError ''RabbitMQ channel is not open'')), w)"

definition create_exchange :: "'w amqp \<Rightarrow> string \<Rightarrow> string \<Rightarrow> bool \<Rightarrow> pydict \<Rightarrow> 'w \<Rightarrow> unit result \<times> 'w" where
  "create_exchange A name kind durable kw w =
     (if \<not> am_channel A w then (Inr (), w) else logged (am_run A (Exchange_declare name kind durable kw) w))"

definition ensure_exchange :: "'w amqp \<Rightarrow> string \<Rightarrow> string \<Rightarrow> 'w \<Rightarrow> unit result \<times> 'w" where
  "ensure_exchange A name kind w = create_exchange A name kind True [] w"

definition ensure_amqp_queue ::
    "'w amqp \<Rightarrow> string \<Rightarrow> string option \<Rightarrow> string option \<Rightarrow> bool \<Rightarrow> pydict \<Rightarrow> 'w \<Rightarrow> unit result \<times> 'w" where
  "ensure_amqp_queue A q ex rk durable kw w =
     then_w (am_ensure A w) (\<lambda>w.
     then_w (require_channel A w) (\<lambda>w.
     then_w (am_run A (Queue_declare q durable kw) w) (\<lambda>w.
       case ex of
         Some (c # cs) \<Rightarrow> am_run A (Queue_bind q (c # cs) (case rk of None \<Rightarrow> [] | Some k \<Rightarrow> k)) w
       | _ \<Rightarrow> (Inr (), w))))"

text \<open>
  \<open>subscribe_to_events\<close> of rabbitmq/consumer.py, without the tag it remembers: what the driver raises
  escapes, a failed declaration of the exchange does not.
\<close>

definition subscribe_to_events ::
    "'w amqp \<Rightarrow> string \<Rightarrow> string \<Rightarrow> string \<Rightarrow> string \<Rightarrow> bool \<Rightarrow> int \<Rightarrow> pydict \<Rightarrow> 'w \<Rightarrow> unit result \<times> 'w" where
  "subscribe_to_events A ex q rk kind durable prefetch kw w =
     then_w (am_ensure A w) (\<lambda>w.
     then_w (require_channel A w) (\<lambda>w.
     then_w (ensure_exchange A ex kind w) (\<lambda>w.
     then_w (am_run A (Queue_declare q durable []) w) (\<lambda>w.
     then_w (am_run A (Queue_bind q ex rk) w) (\<lambda>w.
     then_w (am_run A (Basic_qos prefetch) w) (am_run A (Basic_consume q kw)))))))"

subsection \<open>Publishing\<close>

definition encode_body :: "'o mq_codec \<Rightarrow> 'o mq_body \<Rightarrow> (string \<times> string) result" where
  "encode_body C body =
     (case body of
        Value v \<Rightarrow>
          (case v of
             PDict d \<Rightarrow> map_sum id (\<lambda>t. (t, ''application/json'')) (dumps (mq_json C) v)
           | PList xs \<Rightarrow> map_sum id (\<lambda>t. (t, ''application/json'')) (dumps (mq_json C) v)
           | _ \<Rightarrow> Inr (py_text (mq_repr C) v, ''text/plain''))
      | Model x \<Rightarrow> map_sum id (\<lambda>t. (t, ''application/jsonpickle'')) (mq_encode C x)
      | Wrapped x \<Rightarrow> map_sum id (\<lambda>t. (t, ''application/cloudpickle'')) (mq_serialize C x))"

definition publish_props :: "string \<Rightarrow> pydict \<Rightarrow> amqp_props" where
  "publish_props content_type hs =
     props_new\<lparr>pr_content_type := Some content_type, pr_headers := map (apsnd Val) hs, pr_delivery_mode := Some 2\<rparr>"

text \<open>
  \<open>headers.setdefault\<close> changes the caller's dictionary, which is handed on among the other arguments too.  A
  keyword given twice raises; like everything the publication raises, that is only logged.
\<close>

definition publish_args :: "pydict \<Rightarrow> pydict \<Rightarrow> pydict" where
  "publish_args hs kw =
     fold (\<lambda>(k, v). dict_set k v) (map (\<lambda>(k, v). (k, if k = ''headers'' then PDict hs else v)) kw)
       [(''mandatory'', PBool True), (''timeout'', PNone)]"

definition publish_message ::
    "'w amqp \<Rightarrow> 'o mq_codec \<Rightarrow> 'o mq_body \<Rightarrow> string option \<Rightarrow> string option \<Rightarrow> pydict \<Rightarrow> 'w \<Rightarrow> unit result \<times> 'w" where
  "publish_message A C body queue_name routing_key kw w =
     (case (queue_name, routing_key) of
        (Some ex, Some rk) \<Rightarrow>
          then_w (am_ensure A w) (\<lambda>w.
          then_w (ensure_exchange A ex ''topic'' w) (\<lambda>w.
            case get_or kw ''headers'' (PDict []) of
              PDict h \<Rightarrow>
                (let hs = dict_setdefault ''x-retry'' (PStr ''0'') h
                 in case encode_body C body of
                      Inl x \<Rightarrow> (Inl x, w)
                    | Inr (t, ct) \<Rightarrow>
                        logged (then_w (require_channel A w) (\<lambda>w.
                          if \<exists>k \<in> fst ` set kw. k \<in> {''exchange'', ''routing_key'', ''properties''}
                          then (Inl (TypeError ''multiple values for keyword argument''), w)
                          else am_run A (Basic_publish (mq_to_utf8 C t) ex rk (publish_props ct hs) (publish_args hs kw)) w)))
            | _ \<Rightarrow> (Inl (OtherError ''AttributeError''), w)))
      | _ \<Rightarrow> (Inl (ValueError ''queue_name and routing_key''), w))"

subsection \<open>Deliveries\<close>

definition or_raw :: "string \<Rightarrow> 'o mq_body result \<Rightarrow> 'o mq_body" where
  "or_raw t r = (case r of Inl x \<Rightarrow> Value (PStr t) | Inr b \<Rightarrow> b)"

definition process_message :: "'o mq_codec \<Rightarrow> string \<Rightarrow> amqp_props option \<Rightarrow> 'o mq_body result" where
  "process_message C body props =
     (let ct = (case props of None \<Rightarrow> ''text/plain'' | Some p \<Rightarrow>
                  (case pr_content_type p of Some (c # cs) \<Rightarrow> c # cs | _ \<Rightarrow> ''text/plain''))
      in case mq_utf8 C body of
           None \<Rightarrow> Inl (ValueError ''UnicodeDecodeError'')
         | Some t \<Rightarrow>
             if ct = ''application/json'' then Inr (or_raw t (map_sum id Value (loads (mq_json C) t)))
             else if ct = ''application/jsonpickle'' then Inr (or_raw t (mq_decode C t))
             else if ct = ''application/cloudpickle'' then Inr (or_raw t (mq_unserialize C t))
             else if ct = ''text/plain'' then Inr (Value (PStr t))
             else Inl (RuntimeError ''Unsupported content type''))"

text \<open>What a callback does: returns, raises \<open>RejectDelivery\<close>, or raises anything else.\<close>

datatype mq_reply = Processed | Reject_delivery | Failed py_exc

type_synonym ('o, 'w) mq_callback = "amqp_message \<Rightarrow> 'o mq_body \<Rightarrow> 'w \<Rightarrow> mq_reply \<times> 'w"

text \<open>The retry count of the headers; one that is no number raises.\<close>

definition retry_count :: "'o mq_codec \<Rightarrow> (string \<times> amqp_value) list \<Rightarrow> int result" where
  "retry_count C hs =
     (case dict_get hs ''x-retry'' of
        None \<Rightarrow> Inr 0
      | Some (Bytes b) \<Rightarrow> of_opt (ValueError ''int'') (Option.bind (mq_utf8 C b) (py_int 10))
      | Some (Val v) \<Rightarrow>
          (case v of
             PStr t \<Rightarrow> of_opt (ValueError ''int'') (py_int 10 t)
           | PInt i \<Rightarrow> Inr i
           | PBool b \<Rightarrow> Inr (if b then 1 else 0)
           | PFloat x \<Rightarrow> Inr (if 0 \<le> x then \<lfloor>x\<rfloor> else \<lceil>x\<rceil>)
           | _ \<Rightarrow> Inr 0))"

text \<open>The properties of a retry: all but the cluster id are kept.\<close>

definition retry_props :: "int \<Rightarrow> amqp_props \<Rightarrow> amqp_props" where
  "retry_props n p =
     p\<lparr>pr_headers := dict_set ''x-retry'' (Val (PStr (int_str n))) (pr_headers p), pr_cluster_id := None\<rparr>"

definition or_blank :: "string option \<Rightarrow> string" where
  "or_blank x = (case x of None \<Rightarrow> [] | Some s \<Rightarrow> s)"

definition retry_delivery :: "'w amqp \<Rightarrow> 'o mq_codec \<Rightarrow> int \<Rightarrow> nat \<Rightarrow> amqp_message \<Rightarrow> 'w \<Rightarrow> unit result \<times> 'w" where
  "retry_delivery A C max_retries tag m w =
     (let p = (case ms_props m of None \<Rightarrow> props_new | Some p \<Rightarrow> p)
      in case retry_count C (pr_headers p) of
           Inl x \<Rightarrow> (Inl x, w)
         | Inr n \<Rightarrow>
             if n + 1 \<le> max_retries
             then then_w (am_run A (Basic_nack tag False) w)
                    (am_run A (Basic_publish (ms_body m) (or_blank (ms_exchange m)) (or_blank (ms_routing_key m)) (retry_props (n + 1) p) []))
             else am_run A (Basic_nack tag False) w)"

definition reject_message :: "'w amqp \<Rightarrow> bool \<Rightarrow> amqp_message \<Rightarrow> 'w \<Rightarrow> unit result \<times> 'w" where
  "reject_message A requeue m w =
     (case ms_tag m of
        None \<Rightarrow> (Inl (RuntimeError ''Delivered message carries no delivery_tag''), w)
      | Some tag \<Rightarrow> then_w (require_channel A w) (am_run A (Basic_nack tag requeue)))"

text \<open>An acknowledgement that raises is treated like a callback that raised.\<close>

definition wrapped_callback ::
    "'w amqp \<Rightarrow> 'o mq_codec \<Rightarrow> ('o, 'w) mq_callback \<Rightarrow> int \<Rightarrow> amqp_message \<Rightarrow> 'w \<Rightarrow> unit result \<times> 'w" where
  "wrapped_callback A C cb max_retries m w =
     (case ms_tag m of
        None \<Rightarrow> (Inl (RuntimeError ''Delivered message carries no delivery_tag''), w)
      | Some tag \<Rightarrow>
          then_w (require_channel A w) (\<lambda>w.
            case process_message C (ms_body m) (ms_props m) of
              Inl x \<Rightarrow> retry_delivery A C max_retries tag m w
            | Inr body \<Rightarrow>
                (case cb m body w of
                   (Reject_delivery, w1) \<Rightarrow> reject_message A False m w1
                 | (Failed x, w1) \<Rightarrow> retry_delivery A C max_retries tag m w1
                 | (Processed, w1) \<Rightarrow>
                     (case am_run A (Basic_ack tag) w1 of
                        (Inr u, w2) \<Rightarrow> (Inr (), w2)
                      | (Inl x, w2) \<Rightarrow> retry_delivery A C max_retries tag m w2))))"

section \<open>Properties\<close>

text \<open>
  Properties of the RabbitMQ connection: when connecting ends, that a delivery is settled exactly once, and
  how often a message whose handler fails comes back.
\<close>

subsection \<open>Connecting\<close>

text \<open>The state after a connection that was refused so often that it gave up.\<close>

fun refused_world :: "('w \<Rightarrow> dial_reply \<times> 'w) \<Rightarrow> nat \<Rightarrow> 'w \<Rightarrow> 'w" where
  "refused_world dial 0 w = w"
| "refused_world dial (Suc n) w = refused_world dial n (snd (dial w))"

lemma connect_refused:
  assumes "\<And>w. fst (dial w) = Refused" "rb_max s - rb_attempts s = n"
  shows "connect dial s w = Some (Inl (RuntimeError ''Unable to connect to RabbitMQ Server.''),
    map (\<lambda>i. rb_delay s * 2 ^ i) [rb_attempts s ..< rb_attempts s + n], s\<lparr>rb_attempts := rb_attempts s + n\<rparr>,
    refused_world dial (Suc n) w)"
  using assms(2)
proof (induction n arbitrary: s w)
  case 0
  obtain w1 where d: "dial w = (Refused, w1)" using assms(1)[of w] by (cases "dial w") auto
  show ?case using 0 by (subst connect.simps) (simp add: d Let_def schedule_reconnect_def)
next
  case (Suc n)
  obtain w1 where d: "dial w = (Refused, w1)" using assms(1)[of w] by (cases "dial w") auto
  let ?s = "s\<lparr>rb_attempts := Suc (rb_attempts s)\<rparr>"
  have "[rb_attempts s ..< rb_attempts s + Suc n] = rb_attempts s # [Suc (rb_attempts s) ..< Suc (rb_attempts s) + n]"
    by (simp add: upt_conv_Cons)
  moreover have "rb_attempts s < rb_max s" "rb_max ?s - rb_attempts ?s = n" using Suc.prems by simp_all
  ultimately show ?case
    using Suc.IH[of ?s w1] by (subst connect.simps) (simp add: d Let_def schedule_reconnect_def)
qed

text \<open>With a server that refuses every connection, connecting ends after one attempt more than the retries
  that are left, sleeping twice as long each time, and raises; the count of attempts then stays where it is,
  so that a later call gives up after its first attempt.\<close>

theorem refused_connection_given_up:
  assumes "\<And>w. fst (dial w) = Refused" "rb_attempts s \<le> rb_max s"
  shows "connect dial s w = Some (Inl (RuntimeError ''Unable to connect to RabbitMQ Server.''),
      map (\<lambda>i. rb_delay s * 2 ^ i) [rb_attempts s ..< rb_max s], s\<lparr>rb_attempts := rb_max s\<rparr>,
      refused_world dial (Suc (rb_max s - rb_attempts s)) w) \<and>
    connect dial (s\<lparr>rb_attempts := rb_max s\<rparr>) w =
      Some (Inl (RuntimeError ''Unable to connect to RabbitMQ Server.''), [], s\<lparr>rb_attempts := rb_max s\<rparr>, snd (dial w))"
  using connect_refused[OF assms(1), where s = s and n = "rb_max s - rb_attempts s"]
    connect_refused[OF assms(1), where s = "s\<lparr>rb_attempts := rb_max s\<rparr>" and n = 0] assms(2) by simp

theorem refused_connection_given_up_witness:
  "connect (\<lambda>n. (Refused, Suc n)) (rabbit_new None) 0 =
     Some (Inl (RuntimeError ''Unable to connect to RabbitMQ Server.''), [1, 2, 4], (rabbit_new None)\<lparr>rb_attempts := 3\<rparr>, 4)"
  using refused_connection_given_up[of "\<lambda>n. (Refused, Suc n)" "rabbit_new None" 0]
  by (simp add: rabbit_new_def upt_conv_Cons numeral_3_eq_3)

text \<open>With a server that accepts connections on which no channel opens, connecting never ends, however few
  attempts are allowed: the count is reset before the channel is asked for.\<close>

theorem channel_failure_never_given_up:
  assumes "\<And>w. fst (dial w) = No_channel" "0 < rb_max s"
  shows "connect dial s w = None"
proof -
  have "(\<forall>w. fst (dial w) = No_channel) \<longrightarrow> rb_max s = 0" if "connect dial s w = Some y" for y
  proof (rule connect.raw_induct[where P = "\<lambda>dial s w y. (\<forall>w. fst (dial w) = No_channel) \<longrightarrow> rb_max s = 0", OF _ that], goal_cases)
    case (1 c dial s w y)
    show ?case
    proof (intro impI, rule ccontr)
      assume nc: "\<forall>w. fst (dial w) = No_channel" and pos: "rb_max s \<noteq> 0"
      obtain w1 where d: "dial w = (No_channel, w1)" using nc by (cases "dial w") (metis fst_conv)
      have "Option.bind (c dial (s\<lparr>rb_connected := True, rb_attempts := 1\<rparr>) w1)
          (\<lambda>(r, ds, s3, w2). Some (r, rb_delay s # ds, s3, w2)) = Some y"
        using 1(2) pos by (simp add: d Let_def schedule_reconnect_def)
      then obtain z where "c dial (s\<lparr>rb_connected := True, rb_attempts := 1\<rparr>) w1 = Some z"
        by (cases "c dial (s\<lparr>rb_connected := True, rb_attempts := 1\<rparr>) w1") auto
      from 1(1)[OF this] nc pos show False by simp
    qed
  qed
  then show ?thesis using assms by (cases "connect dial s w") auto
qed

theorem channel_failure_never_given_up_witness:
  "connect (\<lambda>n. (No_channel, Suc n)) (rabbit_new (Some 1)) (0 :: nat) = None"
  by (rule channel_failure_never_given_up) (simp_all add: rabbit_new_def)

subsection \<open>Settlement\<close>

definition is_settlement :: "nat \<Rightarrow> amqp_command \<Rightarrow> bool" where
  "is_settlement tag c \<longleftrightarrow> c = Basic_ack tag \<or> (\<exists>q. c = Basic_nack tag q)"

text \<open>
  A journal of a channel: every command is appended to it, nothing else is; a settlement does not raise and
  the channel stays open.
\<close>

definition journaled_channel :: "'w amqp \<Rightarrow> ('w \<Rightarrow> amqp_command list) \<Rightarrow> bool" where
  "journaled_channel A cmds \<longleftrightarrow>
     (\<forall>c w. cmds (snd (am_run A c w)) = cmds w @ [c]) \<and> (\<forall>w. am_channel A w) \<and>
     (\<forall>tag w. \<not> isl (fst (am_run A (Basic_ack tag) w)) \<and> (\<forall>q. \<not> isl (fst (am_run A (Basic_nack tag q) w))))"

text \<open>What settles a delivery: nothing, when its handler failed and its retry count cannot be read.\<close>

definition settlement :: "'o mq_codec \<Rightarrow> ('o, 'w) mq_callback \<Rightarrow> nat \<Rightarrow> amqp_message \<Rightarrow> 'w \<Rightarrow> amqp_command list" where
  "settlement C cb tag m w =
     (let failed = (if isl (retry_count C (pr_headers (case ms_props m of None \<Rightarrow> props_new | Some p \<Rightarrow> p)))
                    then [] else [Basic_nack tag False])
      in case process_message C (ms_body m) (ms_props m) of
           Inl x \<Rightarrow> failed
         | Inr b \<Rightarrow>
             (case fst (cb m b w) of
                Processed \<Rightarrow> [Basic_ack tag]
              | Reject_delivery \<Rightarrow> [Basic_nack tag False]
              | Failed x \<Rightarrow> failed))"

lemma journaled_command:
  assumes "journaled_channel A cmds" "c \<in> {Basic_ack tag, Basic_nack tag False}"
  obtains u w1 where "am_run A c w = (Inr u, w1)" "cmds w1 = cmds w @ [c]"
proof -
  have "\<not> isl (fst (am_run A c w))" "cmds (snd (am_run A c w)) = cmds w @ [c]"
    using assms by (auto simp: journaled_channel_def)
  then show thesis using that by (cases "am_run A c w"; cases "fst (am_run A c w)") simp_all
qed

lemma retry_settles:
  assumes "journaled_channel A cmds" "retry_delivery A C maxr tag m w = (r, w1)"
  shows "\<exists>e. cmds w1 = cmds w @ e \<and> filter (is_settlement tag) e =
    (if isl (retry_count C (pr_headers (case ms_props m of None \<Rightarrow> props_new | Some p \<Rightarrow> p))) then [] else [Basic_nack tag False])"
proof (cases "retry_count C (pr_headers (case ms_props m of None \<Rightarrow> props_new | Some p \<Rightarrow> p))")
  case (Inl x)
  then show ?thesis using assms(2) by (auto simp: retry_delivery_def Let_def)
next
  case (Inr n)
  have j: "cmds (snd (am_run A c w)) = cmds w @ [c]" for c w using assms(1) by (simp add: journaled_channel_def)
  obtain u w2 where nack: "am_run A (Basic_nack tag False) w = (Inr u, w2)" "cmds w2 = cmds w @ [Basic_nack tag False]"
    using journaled_command[OF assms(1), of "Basic_nack tag False" tag w] by blast
  then show ?thesis
    using assms(2) Inr nack j[of "Basic_publish (ms_body m) (or_blank (ms_exchange m)) (or_blank (ms_routing_key m))
        (retry_props (n + 1) (case ms_props m of None \<Rightarrow> props_new | Some p \<Rightarrow> p)) []" w2]
    by (auto simp: retry_delivery_def Let_def is_settlement_def split: if_splits)
qed


definition recording :: "amqp_command list amqp" where
  "recording = \<lparr>am_ensure = (\<lambda>w. (Inr (), w)), am_channel = (\<lambda>w. True), am_run = (\<lambda>c w. (Inr (), w @ [c]))\<rparr>"

lemma recording_journal: "journaled_channel recording (\<lambda>w. w)"
  by (simp add: journaled_channel_def recording_def)

definition sample_mq_codec :: "unit mq_codec" where
  "sample_mq_codec =
     \<lparr>mq_utf8 = Some, mq_to_utf8 = (\<lambda>t. t), mq_json = \<lparr>dumps = (\<lambda>v. Inr ''{}''), loads = (\<lambda>t. Inr (PDict []))\<rparr>,
      mq_encode = (\<lambda>x. Inr ''o''), mq_decode = (\<lambda>t. Inr (Model ())), mq_serialize = (\<lambda>x. Inr ''w''),
      mq_unserialize = (\<lambda>t. Inr (Wrapped ())), mq_repr = (\<lambda>v. ''?'')\<rparr>"

definition sample_delivery :: amqp_message where
  "sample_delivery =
     \<lparr>ms_body = ''b'', ms_tag = Some 7, ms_props = None, ms_exchange = Some ''e'', ms_routing_key = Some ''r''\<rparr>"


subsection \<open>Retries\<close>

text \<open>What a broker delivers for the publication among some commands, under a tag of its own.\<close>

fun redelivered :: "nat \<Rightarrow> amqp_command list \<Rightarrow> amqp_message option" where
  "redelivered t [] = None"
| "redelivered t (c # cs) =
     (case c of
        Basic_publish b ex rk p kw \<Rightarrow>
          Some \<lparr>ms_body = b, ms_tag = Some t, ms_props = Some p, ms_exchange = Some ex, ms_routing_key = Some rk\<rparr>
      | _ \<Rightarrow> redelivered t cs)"

text \<open>The commands of each delivery of a message, as long as it is published again.\<close>

fun delivery_history ::
    "nat \<Rightarrow> 'o mq_codec \<Rightarrow> ('o, amqp_command list) mq_callback \<Rightarrow> int \<Rightarrow> amqp_message \<Rightarrow> amqp_command list list" where
  "delivery_history 0 C cb maxr m = []"
| "delivery_history (Suc k) C cb maxr m =
     (let cs = snd (wrapped_callback recording C cb maxr m [])
      in cs # (case redelivered k cs of None \<Rightarrow> [] | Some m1 \<Rightarrow> delivery_history k C cb maxr m1))"

definition headers_of :: "amqp_message \<Rightarrow> (string \<times> amqp_value) list" where
  "headers_of m = pr_headers (case ms_props m of None \<Rightarrow> props_new | Some p \<Rightarrow> p)"

definition always_fails :: "('o, 'w) mq_callback \<Rightarrow> bool" where
  "always_fails cb \<longleftrightarrow> (\<forall>m b w. \<exists>x. cb m b w = (Failed x, w))"

lemma failed_delivery:
  assumes "always_fails cb" "ms_tag m = Some t" "retry_count C (headers_of m) = Inr n"
  shows "\<exists>p. retry_count C (pr_headers p) = Inr (n + 1) \<and>
    snd (wrapped_callback recording C cb maxr m []) =
      Basic_nack t False # (if n + 1 \<le> maxr
        then [Basic_publish (ms_body m) (or_blank (ms_exchange m)) (or_blank (ms_routing_key m)) p []] else [])"
proof -
  let ?p = "retry_props (n + 1) (case ms_props m of None \<Rightarrow> props_new | Some p \<Rightarrow> p)"
  have "snd (retry_delivery recording C maxr t m []) =
      Basic_nack t False # (if n + 1 \<le> maxr
        then [Basic_publish (ms_body m) (or_blank (ms_exchange m)) (or_blank (ms_routing_key m)) ?p []] else [])"
    using assms(3) by (simp add: retry_delivery_def recording_def headers_of_def Let_def)
  moreover have "snd (wrapped_callback recording C cb maxr m []) = snd (retry_delivery recording C maxr t m [])"
  proof (cases "process_message C (ms_body m) (ms_props m)")
    case (Inr b)
    obtain x where "cb m b [] = (Failed x, [])" using assms(1) unfolding always_fails_def by blast
    then show ?thesis using assms(2) Inr by (simp add: wrapped_callback_def require_channel_def recording_def)
  qed (use assms(2) in \<open>simp add: wrapped_callback_def require_channel_def recording_def\<close>)
  moreover have "retry_count C (pr_headers ?p) = Inr (n + 1)"
    by (simp add: retry_count_def retry_props_def py_int_int_str)
  ultimately show ?thesis by metis
qed

text \<open>C25: A message whose handler fails whenever it is called is delivered once for its first attempt and once for
  every retry that is left, is rejected each time before it is published again with the same body, and is
  rejected for good after the last.\<close>

theorem failing_message_discarded:
  assumes "always_fails cb" "ms_tag m = Some t" "retry_count C (headers_of m) = Inr n"
    "nat (maxr - n) < k"
  shows "\<exists>ds t1. delivery_history k C cb maxr m = ds @ [[Basic_nack t1 False]] \<and> length ds = nat (maxr - n) \<and>
    list_all (\<lambda>cs. \<exists>t2 ex rk p. cs = [Basic_nack t2 False, Basic_publish (ms_body m) ex rk p []]) ds"
  using assms(2-4)
proof (induction k arbitrary: m t n)
  case (Suc k)
  obtain p where p: "retry_count C (pr_headers p) = Inr (n + 1)"
    "snd (wrapped_callback recording C cb maxr m []) =
      Basic_nack t False # (if n + 1 \<le> maxr
        then [Basic_publish (ms_body m) (or_blank (ms_exchange m)) (or_blank (ms_routing_key m)) p []] else [])"
    using failed_delivery[OF assms(1) Suc.prems(1,2)] by blast
  show ?case
  proof (cases "n + 1 \<le> maxr")
    case True
    let ?m = "\<lparr>ms_body = ms_body m, ms_tag = Some k, ms_props = Some p, ms_exchange = Some (or_blank (ms_exchange m)),
      ms_routing_key = Some (or_blank (ms_routing_key m))\<rparr>"
    have "nat (maxr - (n + 1)) < k" "Suc (nat (maxr - (n + 1))) = nat (maxr - n)" using Suc.prems(3) True by linarith+
    moreover from Suc.IH[of ?m k "n + 1"] p(1) this(1) obtain ds t1 where
      "delivery_history k C cb maxr ?m = ds @ [[Basic_nack t1 False]]" "length ds = nat (maxr - (n + 1))"
      "list_all (\<lambda>cs. \<exists>t2 ex rk p. cs = [Basic_nack t2 False, Basic_publish (ms_body m) ex rk p []]) ds"
      by (auto simp: headers_of_def)
    ultimately show ?thesis
      using p(2) True
      by (intro exI[of _ "[Basic_nack t False, Basic_publish (ms_body m) (or_blank (ms_exchange m)) (or_blank (ms_routing_key m)) p []] # ds"]
          exI[of _ t1]) (simp add: Let_def)
  next
    case False
    then show ?thesis using p(2) by (intro exI[of _ "[]"] exI[of _ t]) (simp add: Let_def)
  qed
qed simp

theorem failing_message_discarded_witness:
  "length (delivery_history 9 sample_mq_codec (\<lambda>m b w. (Failed (OtherError ''x''), w)) 3 sample_delivery) = 4"
proof -
  have "retry_count sample_mq_codec (headers_of sample_delivery) = Inr 0"
    by (simp add: retry_count_def headers_of_def sample_delivery_def props_new_def)
  from failing_message_discarded[OF _ _ this, of "\<lambda>m b w. (Failed (OtherError ''x''), w)" 7 3 9] show ?thesis
    by (auto simp: sample_delivery_def always_fails_def)
qed

end
