(* ===== verification/HookAdapters.thy ===== *)
theory HookAdapters
  imports Hooks Rabbit Samples
begin

text \<open>
  The hooks that adapt other sources of events: the brokers of hooks/brokers/, the file watcher of
  hooks/file_watchdog.py, the scheduler of hooks/scheduler.py, and the agent mixin of hooks/mixins.py.  Their
  drivers are arguments; \<open>ts\<close> is the registry of hook types and \<open>now\<close> the time of an event.
\<close>

subsection \<open>Broker hooks\<close>

record broker_config =
  bh_broker_type :: string
  bh_stream_name :: "string option"
  bh_queue_name :: "string option"
  bh_routing_key :: string
  bh_exchange_name :: string
  bh_exchange_type :: string
  bh_prefetch :: int
  bh_broker_url :: "string option"
  bh_topics :: "string list"
  bh_credentials :: pydict

text \<open>\<open>text_of\<close> is \<open>str\<close> of a body that is no dictionary.\<close>

definition broker_message_event ::
    "string list \<Rightarrow> ('c, 'i) hook \<Rightarrow> py_datetime \<Rightarrow> string \<Rightarrow> ('o mq_body \<Rightarrow> string) \<Rightarrow> string \<Rightarrow> 'o mq_body \<Rightarrow> hook_event result" where
  "broker_message_event ts h now broker_type text_of mid body =
     make_event ts h now ''broker.message''
       [(''message_id'', PStr mid),
        (''payload'', (case body of Value (PDict d) \<Rightarrow> PDict d | _ \<Rightarrow> PStr (text_of body))),
        (''broker_type'', PStr broker_type)]
       (Some (''Broker message received (ID: '' @ mid @ '')''))"

text \<open>An event is emitted by \<open>fire\<close>, which is the hook's \<open>on_event\<close>; building it may raise.\<close>

definition emit_hook_event :: "(hook_event \<Rightarrow> 'w \<Rightarrow> 'w) \<Rightarrow> hook_event result \<Rightarrow> 'w \<Rightarrow> py_exc option \<times> 'w" where
  "emit_hook_event fire r w = (case r of Inl x \<Rightarrow> (Some x, w) | Inr ev \<Rightarrow> (None, fire ev w))"

definition on_message ::
    "(hook_event \<Rightarrow> 'w \<Rightarrow> 'w) \<Rightarrow> string list \<Rightarrow> ('c, 'i) hook \<Rightarrow> py_datetime \<Rightarrow> string \<Rightarrow> ('o mq_body \<Rightarrow> string) \<Rightarrow> string \<Rightarrow>
     'o mq_body \<Rightarrow> 'w \<Rightarrow> py_exc option \<times> 'w" where
  "on_message fire ts h now broker_type text_of mid body w =
     emit_hook_event fire (broker_message_event ts h now broker_type text_of mid body) w"

text \<open>RabbitMQ: what is raised asks the connection to reject the delivery.\<close>

definition rabbit_hook_callback ::
    "(hook_event \<Rightarrow> 'w \<Rightarrow> 'w) \<Rightarrow> string list \<Rightarrow> ('c, 'i) hook \<Rightarrow> py_datetime \<Rightarrow> broker_config \<Rightarrow> ('o mq_body \<Rightarrow> string) \<Rightarrow>
     ('o, 'w) mq_callback" where
  "rabbit_hook_callback fire ts h now B text_of m body w =
     (let mid = (case ms_tag m of None \<Rightarrow> ''None'' | Some n \<Rightarrow> int_str (int n))
      in case on_message fire ts h now (bh_broker_type B) text_of mid body w of
           (None, w1) \<Rightarrow> (Processed, w1)
         | (Some x, w1) \<Rightarrow> (Reject_delivery, w1))"

definition rabbit_hook_queue :: "broker_config \<Rightarrow> string" where
  "rabbit_hook_queue B = (case bh_queue_name B of Some (c # cs) \<Rightarrow> c # cs | _ \<Rightarrow> ''default_queue'')"

definition rabbit_hook_dsn :: "broker_config \<Rightarrow> string option result" where
  "rabbit_hook_dsn B =
     (if bh_credentials B = [] then Inr None
      else (case dict_get (bh_credentials B) ''dsn'' of
              Some (PStr s) \<Rightarrow> Inr (Some s)
            | _ \<Rightarrow> Inl (TypeError ''a 'dsn' string'')))"

text \<open>\<open>dial\<close> makes the connection for a DSN.\<close>

definition rabbit_hook_connect :: "'w amqp \<Rightarrow> (string option \<Rightarrow> 'w \<Rightarrow> unit result \<times> 'w) \<Rightarrow> broker_config \<Rightarrow> 'w \<Rightarrow> unit result \<times> 'w" where
  "rabbit_hook_connect A dial B w =
     (case rabbit_hook_dsn B of
        Inl x \<Rightarrow> (Inl x, w)
      | Inr dsn \<Rightarrow>
          (let q = rabbit_hook_queue B; ex = (if bh_exchange_name B = [] then q else bh_exchange_name B)
           in then_w (dial dsn w) (\<lambda>w.
              then_w (ensure_exchange A ex (bh_exchange_type B) w)
                (ensure_amqp_queue A q (Some ex) (Some (bh_routing_key B)) True []))))"

text \<open>\<open>consume_messages\<close> of the connection, which the hook starts once it is connected.\<close>

definition amqp_consume :: "'w amqp \<Rightarrow> string \<Rightarrow> int \<Rightarrow> pydict \<Rightarrow> 'w \<Rightarrow> unit result \<times> 'w" where
  "amqp_consume A q prefetch kw w =
     then_w (am_ensure A w) (\<lambda>w.
     then_w (require_channel A w) (\<lambda>w.
     then_w (am_run A (Queue_declare q True []) w) (\<lambda>w.
     then_w (am_run A (Basic_qos prefetch) w) (am_run A (Basic_consume q kw)))))"

definition rabbit_hook_consume :: "'w amqp \<Rightarrow> bool \<Rightarrow> broker_config \<Rightarrow> 'w \<Rightarrow> unit result \<times> 'w" where
  "rabbit_hook_consume A has_connection B w =
     (if \<not> has_connection then (Inl (RuntimeError ''RabbitMQBrokerHook.connect() must run before start_consuming()''), w)
      else amqp_consume A (rabbit_hook_queue B) (bh_prefetch B) [] w)"

text \<open>Redis Streams and SQS: what is raised is left to their connections; \<open>mid\<close> is \<open>str\<close> of what these pass as
  the id.\<close>

definition redis_hook_stream :: "broker_config \<Rightarrow> string" where
  "redis_hook_stream B =
     (case bh_stream_name B of
        Some (c # cs) \<Rightarrow> c # cs
      | _ \<Rightarrow> (case bh_queue_name B of Some (c # cs) \<Rightarrow> c # cs | _ \<Rightarrow> ''default_stream''))"

definition stream_hook_callback ::
    "(hook_event \<Rightarrow> 'w \<Rightarrow> 'w) \<Rightarrow> string list \<Rightarrow> ('c, 'i) hook \<Rightarrow> py_datetime \<Rightarrow> broker_config \<Rightarrow> ('o mq_body \<Rightarrow> string) \<Rightarrow> string \<Rightarrow>
     'o mq_body \<Rightarrow> 'w \<Rightarrow> py_exc option \<times> 'w" where
  "stream_hook_callback fire ts h now B text_of mid body w = on_message fire ts h now (bh_broker_type B) text_of mid body w"

text \<open>MQTT: the subscriptions of a connection, and a message, which becomes a task while the loop runs.\<close>

definition mqtt_subscriptions :: "broker_config \<Rightarrow> string list" where
  "mqtt_subscriptions B = bh_topics B"

definition mqtt_message ::
    "(hook_event \<Rightarrow> 'w \<Rightarrow> 'w) \<Rightarrow> string list \<Rightarrow> ('c, 'i) hook \<Rightarrow> py_datetime \<Rightarrow> broker_config \<Rightarrow> ('o mq_body \<Rightarrow> string) \<Rightarrow>
     (string \<Rightarrow> string) \<Rightarrow> string \<Rightarrow> bool \<Rightarrow> string \<Rightarrow> string \<Rightarrow> 'w \<Rightarrow> py_exc option \<times> 'w" where
  "mqtt_message fire ts h now B text_of decode obj_id loop_running tpc raw w =
     (if \<not> loop_running then (None, w)
      else on_message fire ts h now (bh_broker_type B) text_of (tpc @ '':'' @ obj_id)
             (Value (PDict [(''topic'', PStr tpc), (''message'', PStr (decode raw))])) w)"

subsection \<open>File watcher\<close>

datatype fs_kind = Created | Modified | Moved | Deleted

record fs_event =
  fs_kind_of :: fs_kind
  fs_directory :: bool
  fs_src :: string
  fs_dest :: string

record watch_config =
  wt_directory :: string
  wt_events :: "string list"
  wt_not_empty :: bool

record watcher =
  wt_debounce :: "(string \<times> real) list"
  wt_recent :: "string list"

definition watcher_new :: watcher where
  "watcher_new = \<lparr>wt_debounce = [], wt_recent = []\<rparr>"

text \<open>The path's last dispatch; 0 when there was none, which is then recorded.\<close>

definition is_debounced :: "real \<Rightarrow> string \<Rightarrow> watcher \<Rightarrow> bool \<times> watcher" where
  "is_debounced now p s =
     (let d = dict_setdefault p 0 (wt_debounce s); before = (case dict_get d p of None \<Rightarrow> 0 | Some t \<Rightarrow> t)
      in if now - before < 1 / 2 then (True, s\<lparr>wt_debounce := d\<rparr>)
         else (False, s\<lparr>wt_debounce := dict_set p now d\<rparr>))"

text \<open>
  The handlers: the event type and the path that are dispatched, if any.  \<open>zero\<close> tells the paths whose file is
  empty or cannot be read.
\<close>

definition dispatch_path :: "watch_config \<Rightarrow> (string \<Rightarrow> bool) \<Rightarrow> real \<Rightarrow> string \<Rightarrow> string \<Rightarrow> watcher \<Rightarrow> (string \<times> string) option \<times> watcher" where
  "dispatch_path W zero now et p s =
     (if wt_not_empty W \<and> zero p then (None, s)
      else (case is_debounced now p s of
              (True, s1) \<Rightarrow> (None, s1)
            | (False, s1) \<Rightarrow> (Some (et, p), s1)))"

definition on_created :: "watch_config \<Rightarrow> (string \<Rightarrow> bool) \<Rightarrow> real \<Rightarrow> fs_event \<Rightarrow> watcher \<Rightarrow> (string \<times> string) option \<times> watcher" where
  "on_created W zero now e s =
     (if fs_directory e \<or> ''created'' \<notin> set (wt_events W) then (None, s)
      else (case dispatch_path W zero now ''file.created'' (fs_src e) s of
              (None, s1) \<Rightarrow> (None, s1)
            | (Some x, s1) \<Rightarrow> (Some x, s1\<lparr>wt_recent := List.insert (fs_src e) (wt_recent s1)\<rparr>)))"

definition on_modified :: "watch_config \<Rightarrow> (string \<Rightarrow> bool) \<Rightarrow> real \<Rightarrow> fs_event \<Rightarrow> watcher \<Rightarrow> (string \<times> string) option \<times> watcher" where
  "on_modified W zero now e s =
     (if fs_directory e \<or> ''modified'' \<notin> set (wt_events W) then (None, s)
      else if fs_src e \<in> set (wt_recent s) then (None, s\<lparr>wt_recent := removeAll (fs_src e) (wt_recent s)\<rparr>)
      else dispatch_path W zero now ''file.modified'' (fs_src e) s)"

definition on_moved :: "watch_config \<Rightarrow> (string \<Rightarrow> bool) \<Rightarrow> real \<Rightarrow> fs_event \<Rightarrow> watcher \<Rightarrow> (string \<times> string) option \<times> watcher" where
  "on_moved W zero now e s =
     (if fs_directory e \<or> ''moved'' \<notin> set (wt_events W) then (None, s)
      else dispatch_path W zero now ''file.moved'' (fs_dest e) s)"

definition on_deleted :: "watch_config \<Rightarrow> fs_event \<Rightarrow> watcher \<Rightarrow> (string \<times> string) option \<times> watcher" where
  "on_deleted W e s =
     (if fs_directory e \<or> ''deleted'' \<notin> set (wt_events W) then (None, s) else (Some (''file.deleted'', fs_src e), s))"

definition watch_step :: "watch_config \<Rightarrow> real \<times> (string \<Rightarrow> bool) \<times> fs_event \<Rightarrow> watcher \<Rightarrow> (string \<times> string) option \<times> watcher" where
  "watch_step W x s =
     (case x of (now, zero, e) \<Rightarrow>
        (case fs_kind_of e of
           Created \<Rightarrow> on_created W zero now e s
         | Modified \<Rightarrow> on_modified W zero now e s
         | Moved \<Rightarrow> on_moved W zero now e s
         | Deleted \<Rightarrow> on_deleted W e s))"

text \<open>The dispatches of a history, each with its time.\<close>

fun watch_run :: "watch_config \<Rightarrow> (real \<times> (string \<Rightarrow> bool) \<times> fs_event) list \<Rightarrow> watcher \<Rightarrow> (real \<times> string \<times> string) list \<times> watcher" where
  "watch_run W [] s = ([], s)"
| "watch_run W (x # xs) s =
     (case watch_step W x s of
        (d, s1) \<Rightarrow> (case watch_run W xs s1 of
                     (ds, s2) \<Rightarrow> ((case d of None \<Rightarrow> ds | Some y \<Rightarrow> (fst x, y) # ds), s2)))"

fun fs_name :: "fs_kind \<Rightarrow> string" where
  "fs_name Created = ''created''"
| "fs_name Modified = ''modified''"
| "fs_name Moved = ''moved''"
| "fs_name Deleted = ''deleted''"

text \<open>A dispatch becomes a hook event on the loop of the hook, if that runs; building it may raise in the
  thread of the watcher.\<close>

definition watch_dispatch ::
    "(hook_event \<Rightarrow> 'w \<Rightarrow> 'w) \<Rightarrow> string list \<Rightarrow> ('c, 'i) hook \<Rightarrow> py_datetime \<Rightarrow> watch_config \<Rightarrow> bool \<Rightarrow> string \<Rightarrow> string \<Rightarrow> fs_kind \<Rightarrow>
     'w \<Rightarrow> py_exc option \<times> 'w" where
  "watch_dispatch fire ts h now W loop_running et p kind w =
     emit_hook_event (if loop_running then fire else (\<lambda>ev w. w))
       (make_event ts h now et
         [(''directory'', PStr (wt_directory W)), (''filename'', PStr p), (''event_kind'', PStr (fs_name kind))]
         (Some (''File event: '' @ et @ '' on '' @ p))) w"

definition watchdog_start :: "bool \<Rightarrow> unit result" where
  "watchdog_start accessible = (if accessible then Inr () else Inl (OtherError ''PermissionError''))"

subsection \<open>Scheduler\<close>

datatype trigger = Cron string | Interval int

record schedule_config =
  sc_cron :: "string option"
  sc_interval :: "int option"
  sc_prompt :: string

definition build_trigger :: "schedule_config \<Rightarrow> trigger option" where
  "build_trigger S =
     (case sc_cron S of
        Some (c # cs) \<Rightarrow> Some (Cron (c # cs))
      | _ \<Rightarrow> (case sc_interval S of Some n \<Rightarrow> if n = 0 then None else Some (Interval n) | None \<Rightarrow> None))"

text \<open>The job that \<open>start\<close> adds: its trigger, id and name.\<close>

definition scheduler_start :: "('c, 'i) hook \<Rightarrow> schedule_config \<Rightarrow> (trigger \<times> string \<times> string) option" where
  "scheduler_start h S = map_option (\<lambda>t. (t, ''hook_'' @ hk_id h, ''Hook: '' @ hk_name h)) (build_trigger S)"

definition scheduler_fire ::
    "(hook_event \<Rightarrow> 'w \<Rightarrow> 'w) \<Rightarrow> string list \<Rightarrow> ('c, 'i) hook \<Rightarrow> py_datetime \<Rightarrow> schedule_config \<Rightarrow> 'w \<Rightarrow> py_exc option \<times> 'w" where
  "scheduler_fire fire ts h now S w =
     emit_hook_event fire
       (make_event ts h now ''heartbeat'' [(''prompt_template'', PStr (sc_prompt S))] (Some (sc_prompt S))) w"

subsection \<open>Agents\<close>

text \<open>The manager of an agent, once it has one.\<close>

definition init_hooks :: "'c \<Rightarrow> ('c, 'i) manager" where
  "init_hooks handler = set_event_callback (Some handler) (manager_new None)"

definition agent_manager :: "('c, 'i) manager option \<Rightarrow> ('c, 'i) manager result" where
  "agent_manager m = of_opt (RuntimeError ''call _init_hooks() before using hook_manager'') m"

definition attach_hook :: "('c, 'i) hook \<Rightarrow> ('c, 'i) manager option \<Rightarrow> string result \<times> ('c, 'i) manager option" where
  "attach_hook h mo =
     (case agent_manager mo of
        Inl x \<Rightarrow> (Inl x, mo)
      | Inr m \<Rightarrow> (case register_hook h m of (i, m1) \<Rightarrow> (Inr i, Some m1)))"

text \<open>The hooks are stopped, whatever that raises, and then the next class cleans up.\<close>

definition agent_cleanup ::
    "(('c, 'i) hook \<Rightarrow> 'w \<Rightarrow> py_exc option \<times> 'w) \<Rightarrow> ('w \<Rightarrow> py_exc option \<times> 'w) option \<Rightarrow> ('c, 'i) manager option \<Rightarrow> 'w \<Rightarrow>
     py_exc option \<times> 'w" where
  "agent_cleanup hook_stop parent mo w =
     (let w1 = (case mo of None \<Rightarrow> w | Some m \<Rightarrow> snd (stop_all hook_stop m w))
      in case parent of None \<Rightarrow> (None, w1) | Some f \<Rightarrow> f w1)"

section \<open>Properties of the adapters\<close>

text \<open>The properties of the hook adapters: what the watcher dispatches, and what becomes of a broker's
  message whose hook fails.\<close>

subsection \<open>Watching\<close>

text \<open>The times at which changes of a path were dispatched, deletions apart.\<close>

definition dispatch_times :: "string \<Rightarrow> (real \<times> string \<times> string) list \<Rightarrow> real list" where
  "dispatch_times p ds = map fst (filter (\<lambda>(t, et, q). q = p \<and> et \<noteq> ''file.deleted'') ds)"

definition last_dispatch :: "string \<Rightarrow> watcher \<Rightarrow> real" where
  "last_dispatch p s = (case dict_get (wt_debounce s) p of None \<Rightarrow> 0 | Some t \<Rightarrow> t)"

lemma debounced_cases:
  "(\<exists>s1. is_debounced now q s = (True, s1) \<and> wt_recent s1 = wt_recent s \<and> (\<forall>p. last_dispatch p s1 = last_dispatch p s)) \<or>
   (\<exists>s1. is_debounced now q s = (False, s1) \<and> wt_recent s1 = wt_recent s \<and> last_dispatch q s + 1 / 2 \<le> now \<and>
      (\<forall>p. last_dispatch p s1 = (if p = q then now else last_dispatch p s)))"
  by (auto simp: is_debounced_def last_dispatch_def Let_def split: option.split)

text \<open>What a step does: it leaves the times alone and dispatches nothing but a deletion, or dispatches a
  path that is due.\<close>

lemma watch_step_cases:
  assumes "watch_step W x s = (d, s1)"
  shows "((d = None \<or> (\<exists>q. d = Some (''file.deleted'', q))) \<and> (\<forall>p. last_dispatch p s1 = last_dispatch p s)) \<or>
    (\<exists>et q. d = Some (et, q) \<and> et \<noteq> ''file.deleted'' \<and> last_dispatch q s + 1 / 2 \<le> fst x \<and>
       (\<forall>p. last_dispatch p s1 = (if p = q then fst x else last_dispatch p s)))"
proof -
  have r: "last_dispatch p (s\<lparr>wt_recent := y\<rparr>) = last_dispatch p s" for p y and s :: watcher by (simp add: last_dispatch_def)
  obtain now zero e where x: "x = (now, zero, e)" by (metis prod_cases3)
  show ?thesis
    using assms debounced_cases[of now "fs_src e" s] debounced_cases[of now "fs_dest e" s]
    by (cases "fs_kind_of e")
      (auto simp: x watch_step_def on_created_def on_modified_def on_moved_def on_deleted_def dispatch_path_def r
        split: if_splits)
qed

lemma watch_run_times:
  "watch_run W xs s = (ds, s1) \<Longrightarrow> sorted_wrt (\<lambda>a b. a + 1 / 2 \<le> b) (last_dispatch p s # dispatch_times p ds)"
proof (induction xs arbitrary: s ds s1)
  case (Cons x xs)
  obtain d s2 where st: "watch_step W x s = (d, s2)" by force
  obtain es s3 where run: "watch_run W xs s2 = (es, s3)" by force
  have ds: "ds = (case d of None \<Rightarrow> es | Some y \<Rightarrow> (fst x, y) # es)" using Cons.prems by (simp add: st run)
  note ih = Cons.IH[OF run]
  from watch_step_cases[OF st] show ?case
  proof
    assume "(d = None \<or> (\<exists>q. d = Some (''file.deleted'', q))) \<and> (\<forall>p. last_dispatch p s2 = last_dispatch p s)"
    moreover from this have "dispatch_times p ds = dispatch_times p es" by (auto simp: ds dispatch_times_def)
    ultimately show ?thesis using ih by simp
  next
    assume "\<exists>et q. d = Some (et, q) \<and> et \<noteq> ''file.deleted'' \<and> last_dispatch q s + 1 / 2 \<le> fst x \<and>
       (\<forall>p. last_dispatch p s2 = (if p = q then fst x else last_dispatch p s))"
    then obtain et q where d: "d = Some (et, q)" "et \<noteq> ''file.deleted''" "last_dispatch q s + 1 / 2 \<le> fst x"
      "last_dispatch p s2 = (if p = q then fst x else last_dispatch p s)" by blast
    show ?thesis
    proof (cases "p = q")
      case True
      then have "dispatch_times p ds = fst x # dispatch_times p es" using d by (simp add: ds dispatch_times_def)
      then show ?thesis using ih d True by fastforce
    next
      case False
      then show ?thesis using ih d by (simp add: ds dispatch_times_def)
    qed
  qed
qed (simp add: dispatch_times_def)

text \<open>however the events of a directory arrive and whatever the clock does, two dispatches of
  the same path are at least half a second apart, deletions excepted.\<close>

theorem dispatches_debounced:
  assumes "watch_run W xs watcher_new = (ds, s)"
  shows "sorted_wrt (\<lambda>a b. a + 1 / 2 \<le> b) (dispatch_times p ds)"
  using watch_run_times[OF assms, of p] by simp

definition touched :: "fs_kind \<Rightarrow> fs_event" where
  "touched k = \<lparr>fs_kind_of = k, fs_directory = False, fs_src = ''f'', fs_dest = ''f''\<rparr>"

definition watch_all :: watch_config where
  "watch_all = \<lparr>wt_directory = ''d'', wt_events = [''created'', ''modified'', ''moved'', ''deleted''], wt_not_empty = False\<rparr>"

lemma dispatches_debounced_witness:
  "\<exists>ds s. watch_run watch_all [(100, (\<lambda>p. False), touched Moved), (100 + 1 / 4, (\<lambda>p. False), touched Modified),
       (101, (\<lambda>p. False), touched Modified)] watcher_new = (ds, s)
     \<and> dispatch_times ''f'' ds = [100, 101] \<and> sorted_wrt (\<lambda>a b. a + 1 / 2 \<le> b) (dispatch_times ''f'' ds)"
proof -
  obtain ds s where run: "watch_run watch_all [(100, (\<lambda>p. False), touched Moved), (100 + 1 / 4, (\<lambda>p. False), touched Modified),
       (101, (\<lambda>p. False), touched Modified)] watcher_new = (ds, s)" by force
  have "dispatch_times ''f'' ds = [100, 101]"
    using run by (auto simp: watch_step_def on_moved_def on_modified_def dispatch_path_def is_debounced_def Let_def touched_def
        watch_all_def watcher_new_def dict_setdefault_def dispatch_times_def)
  then show ?thesis using run dispatches_debounced[OF run, of "''f''"] by blast
qed

definition modifies :: "string \<Rightarrow> real \<times> (string \<Rightarrow> bool) \<times> fs_event \<Rightarrow> bool" where
  "modifies p x \<longleftrightarrow> (case x of (now, zero, e) \<Rightarrow> fs_kind_of e = Modified \<and> \<not> fs_directory e \<and> fs_src e = p)"

lemma watch_step_recent:
  assumes "watch_step W x s = (d, s1)" "p \<in> set (wt_recent s)" "\<not> modifies p x"
  shows "p \<in> set (wt_recent s1)"
proof -
  obtain now zero e where x: "x = (now, zero, e)" by (metis prod_cases3)
  show ?thesis
    using assms debounced_cases[of now "fs_src e" s] debounced_cases[of now "fs_dest e" s]
    by (cases "fs_kind_of e")
      (auto simp: x modifies_def watch_step_def on_created_def on_modified_def on_moved_def on_deleted_def dispatch_path_def
        split: if_splits)
qed

lemma watch_run_recent:
  "watch_run W xs s = (ds, s1) \<Longrightarrow> p \<in> set (wt_recent s) \<Longrightarrow> \<not> list_ex (modifies p) xs \<Longrightarrow> p \<in> set (wt_recent s1)"
proof (induction xs arbitrary: s ds s1)
  case (Cons x xs)
  obtain d s2 where st: "watch_step W x s = (d, s2)" by force
  obtain es s3 where run: "watch_run W xs s2 = (es, s3)" by force
  show ?case using Cons.prems Cons.IH[OF run] watch_step_recent[OF st] by (auto simp: st run)
qed simp

text \<open>after the creation of a file was dispatched, its next modification is never dispatched, however
  much later it comes: the mark that should drop the write that follows a creation has no time.\<close>

theorem creation_swallows_modification:
  assumes "on_created W zero now e s = (Some d, s1)" "watch_run W xs s1 = (ds, s2)" "\<not> list_ex (modifies (fs_src e)) xs"
    "modifies (fs_src e) x"
  shows "fst (watch_step W x s2) = None"
proof -
  have "fs_src e \<in> set (wt_recent s1)" using assms(1) by (auto simp: on_created_def split: if_splits prod.splits option.splits)
  then have "fs_src e \<in> set (wt_recent s2)" by (rule watch_run_recent[OF assms(2) _ assms(3)])
  then show ?thesis using assms(4) by (auto simp: modifies_def watch_step_def on_modified_def split: prod.splits)
qed

lemma creation_swallows_modification_witness:
  "\<exists>d s1. on_created watch_all (\<lambda>p. False) 100 (touched Created) watcher_new = (Some d, s1)
     \<and> fst (watch_step watch_all (10 ^ 9, (\<lambda>p. False), touched Modified) s1) = None"
proof -
  have "fst (on_created watch_all (\<lambda>p. False) 100 (touched Created) watcher_new) = Some (''file.created'', ''f'')"
    by (simp add: on_created_def dispatch_path_def is_debounced_def Let_def touched_def watch_all_def watcher_new_def dict_setdefault_def)
  then obtain d s1 where c: "on_created watch_all (\<lambda>p. False) 100 (touched Created) watcher_new = (Some d, s1)"
    by (metis fst_conv surj_pair)
  have "fst (watch_step watch_all (10 ^ 9, (\<lambda>p. False), touched Modified) s1) = None"
    by (rule creation_swallows_modification[OF c, of "[]" "[]"]) (simp_all add: modifies_def touched_def)
  then show ?thesis using c by blast
qed

subsection \<open>Broker messages\<close>

text \<open>C34: a delivery handed to a RabbitMQ hook of a registered type is acknowledged exactly once and never
  rejected, whatever the application's callback and the bus do with the event, so that an event whose handling
  raised is lost: the hook logs the exception before the adapter can ask for a rejection.\<close>

theorem hook_failure_acknowledged:
  assumes "journaled_channel A cmds" "ms_tag m = Some tag" "hk_type h \<in> set ts"
    "process_message C (ms_body m) (ms_props m) = Inr body"
    "\<And>ev. cmds (on_event run E M h ev w) = cmds w"
    "wrapped_callback A C (rabbit_hook_callback (on_event run E M h) ts h now B text_of) maxr m w = (r, w1)"
  shows "r = Inr () \<and> cmds w1 = cmds w @ [Basic_ack tag]"
proof -
  have ch: "am_channel A w" for w using assms(1) by (simp add: journaled_channel_def)
  obtain ev where ev: "broker_message_event ts h now (bh_broker_type B) text_of (int_str (int tag)) body = Inr ev"
    using assms(3) by (simp add: broker_message_event_def make_event_def hook_event_new_def is_hook_type_def)
  let ?w = "on_event run E M h ev w"
  have cb: "rabbit_hook_callback (on_event run E M h) ts h now B text_of m body w = (Processed, ?w)"
    by (simp add: rabbit_hook_callback_def assms(2) on_message_def emit_hook_event_def ev Let_def)
  obtain u w3 where "am_run A (Basic_ack tag) ?w = (Inr u, w3)" "cmds w3 = cmds ?w @ [Basic_ack tag]"
    using journaled_command[OF assms(1), of "Basic_ack tag" tag ?w] by blast
  then show ?thesis using assms(2,4,5,6) ch cb by (auto simp: wrapped_callback_def require_channel_def)
qed

definition failing_run :: "nat \<Rightarrow> hook_event \<Rightarrow> amqp_command list \<Rightarrow> py_exc option \<times> amqp_command list" where
  "failing_run c ev w = (Some (OtherError ''handler''), w)"

definition broker_hook :: "(nat, nat) hook" where
  "broker_hook = (hook_new ''H'' ''broker_rabbitmq'' [] (Some ''h'') True None None [] [])\<lparr>hk_callback := Some (Raw 1)\<rparr>"

definition rabbit_config :: broker_config where
  "rabbit_config = \<lparr>bh_broker_type = ''rabbitmq'', bh_stream_name = None, bh_queue_name = None, bh_routing_key = [],
     bh_exchange_name = [], bh_exchange_type = ''topic'', bh_prefetch = 1, bh_broker_url = None, bh_topics = [], bh_credentials = []\<rparr>"

lemma hook_failure_acknowledged_witness:
  "snd (wrapped_callback recording sample_mq_codec
     (rabbit_hook_callback (on_event failing_run (\<lambda>i t pl k w. (None, w)) (manager_new None) broker_hook) [''broker_rabbitmq'']
       broker_hook sample_time rabbit_config (\<lambda>b. ''?'')) 3 sample_delivery []) = [Basic_ack 7]"
proof -
  obtain r w1 where run: "wrapped_callback recording sample_mq_codec
     (rabbit_hook_callback (on_event failing_run (\<lambda>i t pl k w. (None, w)) (manager_new None) broker_hook) [''broker_rabbitmq'']
       broker_hook sample_time rabbit_config (\<lambda>b. ''?'')) 3 sample_delivery [] = (r, w1)" by force
  have t: "ms_tag sample_delivery = Some 7" by (simp add: sample_delivery_def)
  have ty: "hk_type broker_hook \<in> set [''broker_rabbitmq'']" by (simp add: broker_hook_def hook_new_def)
  have p: "process_message sample_mq_codec (ms_body sample_delivery) (ms_props sample_delivery) = Inr (Value (PStr ''b''))"
    by (simp add: process_message_def sample_mq_codec_def sample_delivery_def)
  have e: "on_event failing_run (\<lambda>i t pl k w. (None, w)) (manager_new None) broker_hook ev [] = []" for ev
    by (simp add: on_event_def broker_hook_def failing_run_def)
  show ?thesis using hook_failure_acknowledged[OF recording_journal t ty p _ run] run e by simp
qed

section \<open>Properties of the hook system\<close>

text \<open>The properties of the hook manager.\<close>

text \<open>after any sequence of registrations of fresh hooks, removals and changes of callback, bus and
  routing, an event of a registered hook runs the callback that is set now and then, unless that
  raised, is published on the bus that is attached now, in the shape the routing asks for; with neither
  it is dropped.\<close>

theorem hook_event_follows_manager:
  assumes "\<forall>x \<in> set ops. fresh_op x" "m = fold manager_step ops (manager_new r)" "get_hook i m = Some h"
  shows "on_event run E m h ev w =
    (case (case hm_callback m of None \<Rightarrow> (None, w) | Some c \<Rightarrow> run c ev w) of
       (x, w1) \<Rightarrow> (case hm_event_bus m of
          None \<Rightarrow> w1
        | Some bus \<Rightarrow> if x = None then publish_hook_event E m bus ev w1 else w1))"
proof -
  have "injected m" unfolding assms(2) by (rule manager_runs_injected[OF assms(1) injected_new])
  then have "hk_callback h = build_dispatch m"
    using assms(3) by (auto simp: get_hook_def injected_def dest!: map_of_SomeD)
  then show ?thesis
    by (auto simp: on_event_def build_dispatch_def split: option.splits prod.splits)
qed

definition counting_run :: "nat \<Rightarrow> hook_event \<Rightarrow> nat list \<Rightarrow> py_exc option \<times> nat list" where
  "counting_run c ev w = (None, w @ [c])"

definition counting_emit :: "nat \<Rightarrow> nat list bus_emit" where
  "counting_emit bus t pl k w = (None, w @ [bus])"

definition sample_hook :: "(nat, nat) hook" where
  "sample_hook = hook_new ''H'' ''scheduler'' [] (Some ''h'') True None None [] []"

definition sample_hook_event :: hook_event where
  "sample_hook_event = \<lparr>he_hook_id = ''h'', he_hook_type = ''scheduler'', he_event_type = ''tick'', he_payload = [],
     he_metadata = [], he_timestamp = sample_time, he_target_type = None, he_target_id = None, he_task = None\<rparr>"

lemma hook_event_follows_manager_witness:
  "\<exists>m h. get_hook ''h'' m = Some h \<and> on_event counting_run counting_emit m h sample_hook_event [] = [7, 9]"
proof -
  let ?ops = "[Register sample_hook, SetBus (Some 9), SetCallback (Some 7)] :: (nat, nat) manager_op list"
  define m where "m = fold manager_step ?ops (manager_new None)"
  have f: "\<forall>x \<in> set ?ops. fresh_op x" by (simp add: fresh_op_def sample_hook_def hook_new_def)
  obtain h where h: "get_hook ''h'' m = Some h"
    by (simp add: m_def get_hook_def register_hook_def set_event_bus_def set_event_callback_def inject_all_def sample_hook_def hook_new_def
        manager_new_def build_dispatch_def Let_def)
  have "hm_callback m = Some 7" "hm_event_bus m = Some 9"
    by (simp_all add: m_def register_hook_def set_event_bus_def set_event_callback_def inject_all_def manager_new_def Let_def)
  then have "on_event counting_run counting_emit m h sample_hook_event [] = [7, 9]"
    using hook_event_follows_manager[OF f m_def h, of counting_run counting_emit sample_hook_event "[]"]
    by (simp add: counting_run_def counting_emit_def publish_hook_event_def case_prod_beta)
  then show ?thesis using h by blast
qed


definition timed_hook_event :: hook_event where
  "timed_hook_event = sample_hook_event\<lparr>he_metadata := [(''severity'', PStr ''error'')]\<rparr>"


end
