(* ===== verification/Webhook.thy ===== *)
theory Webhook
  imports Hooks Http Signatures Json "HOL-Library.Sublist"
begin

text \<open>
  Inbound webhooks: the endpoint configuration of hooks/webhook/models.py, the preprocessing seam of
  preprocess.py and the request pipeline of receiver.py.  Texts and bodies are byte strings; the
  decoder of UTF-8, the JSON codec, the form decoder and the parser of IP addresses are arguments,
  a parsed network is its membership test.
\<close>

subsection \<open>Paths\<close>

definition strip_char :: "char \<Rightarrow> string \<Rightarrow> string" where
  "strip_char c s = rev (dropWhile (\<lambda>x. x = c) (rev (dropWhile (\<lambda>x. x = c) s)))"

definition normalize_path :: "string \<Rightarrow> string result" where
  "normalize_path value =
     (let stripped = py_strip value; candidate = CHR ''/'' # strip_char (CHR ''/'') stripped
      in if stripped = [] then Inl (ValueError ''path must not be empty'')
         else if CHR 0x5C \<in> set stripped then Inl (ValueError ''path must not contain backslashes'')
         else if candidate = ''/'' then Inr ''/''
         else if \<exists>segment \<in> set (tl (py_split (CHR ''/'') candidate)). segment \<in> {[], ''.'', ''..''}
         then Inl (ValueError ''path must not contain empty or relative segments'')
         else Inr candidate)"

subsection \<open>Preprocessors\<close>

record webhook_context =
  wx_headers :: headers
  wx_path :: string
  wx_remote :: "string option"
  wx_content_type :: string
  wx_endpoint_name :: string
  wx_method :: string

record pre_result =
  pp_payload :: pydict
  pp_event_type :: "string option"
  pp_task :: "string option"
  pp_metadata :: pydict
  pp_ignore :: bool

text \<open>
  What a preprocessor returned: a \<open>PreprocessResult\<close>, a dictionary, a pair (tuple or list of two) or
  anything else.  It is given the payload itself, so it also yields what it made of that.
\<close>

datatype pre_value = RNone | RResult pre_result | RDict pydict | RPair pyval pyval | ROther
datatype pre_outcome = Raised string string | Returned pre_value

type_synonym preprocessor = "pydict \<Rightarrow> webhook_context option \<Rightarrow> pre_outcome \<times> pydict"

definition plain_result :: "pydict \<Rightarrow> pre_result" where
  "plain_result pl = \<lparr>pp_payload = pl, pp_event_type = None, pp_task = None, pp_metadata = [], pp_ignore = False\<rparr>"

fun coerce_result :: "pre_value \<Rightarrow> pydict \<Rightarrow> pre_result result" where
  "coerce_result RNone raw = Inr (plain_result raw)"
| "coerce_result (RResult r) raw = Inr r"
| "coerce_result (RDict d) raw = Inr (plain_result d)"
| "coerce_result (RPair (PDict d) PNone) raw = Inr (plain_result d)"
| "coerce_result (RPair (PDict d) (PStr t)) raw = Inr ((plain_result d)\<lparr>pp_event_type := Some t\<rparr>)"
| "coerce_result (RPair x y) raw = Inl (TypeError ''Preprocessor 2-tuple must be (dict, str | None)'')"
| "coerce_result ROther raw = Inl (TypeError ''Preprocessor must return None, a dict, a pair, or a PreprocessResult'')"

definition failed_result :: "pydict \<Rightarrow> string \<Rightarrow> string \<Rightarrow> pre_result" where
  "failed_result pl type_name msg =
     (plain_result pl)\<lparr>pp_metadata := [(''preprocessor_error'', PStr (type_name @ '': '' @ msg))]\<rparr>"

definition run_preprocessor :: "preprocessor option \<Rightarrow> bool \<Rightarrow> pydict \<Rightarrow> webhook_context \<Rightarrow> pre_result" where
  "run_preprocessor fn accepts_ctx pl ctx =
     (case fn of
        None \<Rightarrow> plain_result pl
      | Some f \<Rightarrow>
          (case f pl (if accepts_ctx then Some ctx else None) of
             (Raised type_name msg, pl') \<Rightarrow> failed_result pl' type_name msg
           | (Returned v, pl') \<Rightarrow>
               (case coerce_result v pl' of
                  Inr r \<Rightarrow> r
                | Inl x \<Rightarrow> failed_result pl' ''TypeError'' (case x of TypeError m \<Rightarrow> m | _ \<Rightarrow> []))))"

subsection \<open>Endpoints\<close>

record 'ip endpoint =
  ep_path :: string
  ep_name :: "string option"
  ep_enabled :: bool
  ep_secret :: "string option"
  ep_scheme :: string
  ep_signature_header :: "string option"
  ep_require_signature :: bool
  ep_tolerance :: int
  ep_allowed_ips :: "string list"
  ep_networks :: "('ip \<Rightarrow> bool) list"
  ep_trust_forwarded :: bool
  ep_event_type :: string
  ep_event_type_header :: "string option"
  ep_event_type_prefix :: "string option"
  ep_preprocessor :: "string option"
  ep_preprocessor_fn :: "preprocessor option"
  ep_accepts_ctx :: bool
  ep_allow_non_json :: bool
  ep_max_body :: "int option"
  ep_dedup_header :: "string option"
  ep_target_type :: "string option"
  ep_target_id :: "string option"
  ep_metadata :: pydict

abbreviation nonempty :: "string option \<Rightarrow> bool" where
  "nonempty x \<equiv> x \<noteq> None \<and> x \<noteq> Some []"

definition parse_networks :: "(string \<Rightarrow> ('ip \<Rightarrow> bool) option) \<Rightarrow> string list \<Rightarrow> ('ip \<Rightarrow> bool) list option" where
  "parse_networks ip_network entries =
     (if \<exists>e \<in> set entries. ip_network e = None then None else Some (map (\<lambda>e. the (ip_network e)) entries))"

text \<open>
  The constructor: \<open>imported\<close> resolves an import string to a callable and its arity (two positional
  parameters or not); an in-process callable brings its arity along in \<open>ep_accepts_ctx\<close>.
\<close>

definition endpoint_new ::
    "registry \<Rightarrow> (string \<Rightarrow> ('ip \<Rightarrow> bool) option) \<Rightarrow> (string \<Rightarrow> (preprocessor \<times> bool) option) \<Rightarrow> 'ip endpoint \<Rightarrow>
     'ip endpoint result" where
  "endpoint_new schemes ip_network imported e =
     bind_r (normalize_path (ep_path e)) (\<lambda>path.
       if isl (get_signature_scheme (ep_scheme e) schemes) then Inl (ValueError ''unknown signature scheme'')
       else if ep_tolerance e < 0 \<or> ep_event_type e = [] \<or> (\<exists>n \<in> set_option (ep_max_body e). n \<le> 0)
       then Inl (ValueError ''endpoint'')
       else (case parse_networks ip_network (ep_allowed_ips e) of
          None \<Rightarrow> Inl (ValueError ''Invalid IP or CIDR'')
        | Some nets \<Rightarrow>
            if ep_require_signature e \<and> \<not> nonempty (ep_secret e)
            then Inl (ValueError ''require_signature=True but has no secret'')
            else (let e1 = e\<lparr>ep_path := path, ep_networks := nets,
                             ep_name := (case ep_name e of None \<Rightarrow> Some path | Some n \<Rightarrow> Some n)\<rparr>
                  in if ep_preprocessor_fn e = None \<and> nonempty (ep_preprocessor e)
                     then (case imported (the (ep_preprocessor e)) of
                             None \<Rightarrow> Inl (ValueError ''preprocessor'')
                           | Some (f, two) \<Rightarrow> Inr (e1\<lparr>ep_preprocessor_fn := Some f, ep_accepts_ctx := two\<rparr>))
                     else Inr e1)))"

record endpoint_state =
  es_call_count :: nat
  es_accepted :: nat
  es_ignored :: nat
  es_rejected :: nat
  es_duplicates :: nat
  es_preprocessor_errors :: nat
  es_dropped_no_callback :: nat
  es_last_called :: "py_datetime option"

definition endpoint_state_new :: endpoint_state where
  "endpoint_state_new = \<lparr>es_call_count = 0, es_accepted = 0, es_ignored = 0, es_rejected = 0, es_duplicates = 0,
     es_preprocessor_errors = 0, es_dropped_no_callback = 0, es_last_called = None\<rparr>"

subsection \<open>Requests\<close>

record webhook_request =
  wr_headers :: headers
  wr_remote :: "string option"
  wr_length :: "int option"
  wr_chunks :: "string list"
  wr_method :: string
  wr_webhook_id :: string
  wr_token :: "string option"

text \<open>\<open>request.headers.get\<close>: the names are compared without case.\<close>

definition header_get :: "headers \<Rightarrow> string \<Rightarrow> string option" where
  "header_get hs name = scan_header (py_lower name) hs"

definition client_ip :: "webhook_request \<Rightarrow> bool \<Rightarrow> string option" where
  "client_ip rq trust =
     (let first = (case header_get (wr_headers rq) ''X-Forwarded-For'' of
                     None \<Rightarrow> [] | Some f \<Rightarrow> py_strip (hd (py_split (CHR '','') f)))
      in if trust \<and> first \<noteq> [] then Some first else wr_remote rq)"

definition ip_allowed :: "(string \<Rightarrow> 'ip option) \<Rightarrow> string option \<Rightarrow> ('ip \<Rightarrow> bool) list \<Rightarrow> bool" where
  "ip_allowed ip_address ip nets \<longleftrightarrow>
     (if nets = [] then True
      else (case ip of
              None \<Rightarrow> False
            | Some [] \<Rightarrow> False
            | Some t \<Rightarrow> (case ip_address t of None \<Rightarrow> False | Some a \<Rightarrow> \<exists>n \<in> set nets. n a)))"

definition JSON_TYPES :: "string list" where "JSON_TYPES = [''application/json'', ''+json'', ''text/json'']"
definition FORM_TYPE :: string where "FORM_TYPE = ''application/x-www-form-urlencoded''"

definition hex_text :: "string \<Rightarrow> string" where
  "hex_text body = concat (map (\<lambda>c. fixed_digits 16 2 (of_char c)) body)"

definition json_mapping :: "json_codec \<Rightarrow> string \<Rightarrow> pydict option" where
  "json_mapping J t =
     (case loads J t of
        Inl _ \<Rightarrow> None
      | Inr PNone \<Rightarrow> None
      | Inr (PDict d) \<Rightarrow> Some d
      | Inr v \<Rightarrow> Some [(''data'', v)])"

text \<open>\<open>parse_qsl\<close> may raise; a later value of a field replaces an earlier one.\<close>

definition parse_body ::
    "(string \<Rightarrow> string option) \<Rightarrow> json_codec \<Rightarrow> (string \<Rightarrow> (string \<times> string) list option) \<Rightarrow> string \<Rightarrow> string \<Rightarrow> bool \<Rightarrow>
     pydict result" where
  "parse_body utf8 J parse_qsl body content_type allow_non_json =
     (let base_type = py_lower (py_strip (hd (py_split (CHR '';'') content_type)));
          parsed = (case utf8 body of
              None \<Rightarrow> None
            | Some t \<Rightarrow>
                if (\<exists>tok \<in> set JSON_TYPES. sublist tok base_type) \<or> base_type = [] then json_mapping J t
                else if base_type = FORM_TYPE
                then map_option (\<lambda>kvs. fold (\<lambda>(k, v). dict_set k (PStr v)) kvs []) (parse_qsl t)
                else json_mapping J t)
      in case parsed of
           Some d \<Rightarrow> Inr d
         | None \<Rightarrow>
             if \<not> allow_non_json then Inl (ValueError ''Unparseable body'')
             else Inr [(''raw'', PStr (case utf8 body of Some t \<Rightarrow> t | None \<Rightarrow> hex_text body)),
                       (''content_type'', PStr content_type),
                       (''encoding'', PStr (if utf8 body = None then ''hex'' else ''utf-8''))])"

subsection \<open>The pipeline\<close>

text \<open>
  The ingest side of a hook: limits, the codecs, and the override points, which a subclass may replace;
  the listener keeps the defaults below.
\<close>

record 'ip receiver =
  rv_hook_id :: string
  rv_hook_type :: string
  rv_metadata :: pydict
  rv_target_type :: "string option"
  rv_target_id :: "string option"
  rv_max_body :: int
  rv_background :: bool
  rv_dedup_ttl :: int
  rv_dedup_size :: nat
  rv_hook_types :: "string list"
  rv_schemes :: registry
  rv_hmac :: hmac
  rv_utf8 :: "string \<Rightarrow> string option"
  rv_json :: json_codec
  rv_parse_qsl :: "string \<Rightarrow> (string \<times> string) list option"
  rv_ip_address :: "string \<Rightarrow> 'ip option"
  rv_classify :: "webhook_request \<Rightarrow> 'ip endpoint \<Rightarrow> pydict \<Rightarrow> string option"
  rv_normalize :: "webhook_request \<Rightarrow> 'ip endpoint \<Rightarrow> pydict \<Rightarrow> string \<Rightarrow> pydict"
  rv_build_task :: "'ip endpoint \<Rightarrow> string \<Rightarrow> pydict \<Rightarrow> string option"

definition classify_event :: "webhook_request \<Rightarrow> 'ip endpoint \<Rightarrow> pydict \<Rightarrow> string option" where
  "classify_event rq e pl =
     (case (if nonempty (ep_event_type_header e) then header_get (wr_headers rq) (the (ep_event_type_header e)) else None) of
        Some (c # cs) \<Rightarrow> Some (py_strip (c # cs))
      | _ \<Rightarrow> Some (ep_event_type e))"

definition verify_signature :: "'ip receiver \<Rightarrow> 'ip endpoint \<Rightarrow> webhook_request \<Rightarrow> string \<Rightarrow> real \<Rightarrow> check option result" where
  "verify_signature V e rq body now =
     (case ep_secret e of
        Some (c # cs) \<Rightarrow>
          bind_r (get_signature_scheme (ep_scheme e) (rv_schemes V)) (\<lambda>s.
            Inr (Some (verify (rv_hmac V) s (c # cs) body (wr_headers rq) (ep_signature_header e) (ep_tolerance e) now)))
      | _ \<Rightarrow> Inr None)"

fun verdict_response :: "verdict \<Rightarrow> response" where
  "verdict_response MISSING = json_error 401 ''unauthorized'' [] [(''reason'', PStr ''missing_signature'')]"
| "verdict_response MALFORMED = json_error 400 ''bad_signature_format'' [] []"
| "verdict_response MISMATCH = json_error 401 ''unauthorized'' [] []"
| "verdict_response STALE = json_error 401 ''unauthorized'' [] [(''reason'', PStr ''stale'')]"
| "verdict_response OK = json_error 500 ''error'' [] []"

definition delivery_id :: "webhook_request \<Rightarrow> 'ip endpoint \<Rightarrow> string option" where
  "delivery_id rq e = (if nonempty (ep_dedup_header e) then header_get (wr_headers rq) (the (ep_dedup_header e)) else None)"

type_synonym dedup_cache = "(string \<times> real) list"

definition prune_cache :: "int \<Rightarrow> real \<Rightarrow> dedup_cache \<Rightarrow> dedup_cache" where
  "prune_cache ttl now cache = dropWhile (\<lambda>(k, t). \<not> now - t \<le> real_of_int ttl) cache"

definition remember :: "nat \<Rightarrow> string \<Rightarrow> real \<Rightarrow> dedup_cache \<Rightarrow> dedup_cache" where
  "remember cap key now cache = (let c = cache @ [(key, now)] in drop (length c - cap) c)"

definition check_duplicate :: "int \<Rightarrow> nat \<Rightarrow> string \<Rightarrow> real \<Rightarrow> dedup_cache \<Rightarrow> bool \<times> dedup_cache" where
  "check_duplicate ttl cap key now cache =
     (let c = prune_cache ttl now cache
      in if key \<in> fst ` set c then (True, c) else (False, remember cap key now c))"

definition is_duplicate ::
    "'ip receiver \<Rightarrow> webhook_request \<Rightarrow> 'ip endpoint \<Rightarrow> real \<Rightarrow> dedup_cache \<Rightarrow> bool \<times> dedup_cache" where
  "is_duplicate V rq e now cache =
     (if rv_dedup_ttl V \<le> 0 then (False, cache)
      else (case delivery_id rq e of
              Some (c # cs) \<Rightarrow> check_duplicate (rv_dedup_ttl V) (rv_dedup_size V) (ep_path e @ '':'' @ c # cs) now cache
            | _ \<Rightarrow> (False, cache)))"

text \<open>The state an ingest works on: the counters of the endpoint, the cache, the background tasks, the world.\<close>

record 'w ingest_state =
  ig_counters :: endpoint_state
  ig_cache :: dedup_cache
  ig_tasks :: "(string \<times> hook_event) list"
  ig_world :: 'w

definition bump :: "(endpoint_state \<Rightarrow> endpoint_state) \<Rightarrow> 'w ingest_state \<Rightarrow> 'w ingest_state" where
  "bump f st = st\<lparr>ig_counters := f (ig_counters st)\<rparr>"

definition rejected :: "endpoint_state \<Rightarrow> endpoint_state" where
  "rejected s = s\<lparr>es_rejected := Suc (es_rejected s)\<rparr>"

definition ignored :: "endpoint_state \<Rightarrow> endpoint_state" where
  "ignored s = s\<lparr>es_ignored := Suc (es_ignored s)\<rparr>"

text \<open>\<open>deliver\<close> is \<open>on_event\<close> of the hook, \<^const>\<open>None\<close> when it has no callback.\<close>

definition dispatch_event :: "(hook_event \<Rightarrow> 'w \<Rightarrow> 'w) option \<Rightarrow> hook_event \<Rightarrow> 'w ingest_state \<Rightarrow> 'w ingest_state" where
  "dispatch_event deliver ev st =
     (case deliver of
        None \<Rightarrow> bump (\<lambda>s. s\<lparr>es_dropped_no_callback := Suc (es_dropped_no_callback s)\<rparr>) st
      | Some f \<Rightarrow> st\<lparr>ig_world := f ev (ig_world st)\<rparr>)"

definition event_metadata :: "'ip receiver \<Rightarrow> 'ip endpoint \<Rightarrow> webhook_request \<Rightarrow> pydict \<Rightarrow> pydict" where
  "event_metadata V e rq pre_metadata =
     (let merge = fold (\<lambda>(k, v). dict_set k v);
          md = dict_setdefault ''webhook_path'' (PStr (ep_path e)) (merge pre_metadata (merge (ep_metadata e) (rv_metadata V)))
      in case delivery_id rq e of
           Some (c # cs) \<Rightarrow> dict_setdefault ''delivery_id'' (PStr (c # cs)) md
         | _ \<Rightarrow> md)"

definition or_opt :: "string option \<Rightarrow> string option \<Rightarrow> string option" where
  "or_opt a b = (if nonempty a then a else b)"

text \<open>From the preprocessor's result on: classify, build, dispatch.\<close>

definition emit_delivery ::
    "'ip receiver \<Rightarrow> (hook_event \<Rightarrow> 'w \<Rightarrow> 'w) option \<Rightarrow> 'ip endpoint \<Rightarrow> webhook_request \<Rightarrow> pre_result \<Rightarrow> py_datetime \<Rightarrow>
     'w ingest_state \<Rightarrow> response \<times> 'w ingest_state" where
  "emit_delivery V deliver e rq pre wall st =
     (let failed = dict_get (pp_metadata pre) ''preprocessor_error'' \<noteq> None;
          ignore = (json_response 200 [(''status'', PStr ''ignored'')], bump ignored st)
      in if pp_ignore pre then ignore
         else (case (if nonempty (pp_event_type pre) then pp_event_type pre
                     else map_option (\<lambda>c. case ep_event_type_prefix e of Some (p # ps) \<Rightarrow> (p # ps) @ ''.'' @ c | _ \<Rightarrow> c)
                            (rv_classify V rq e (pp_payload pre))) of
                 None \<Rightarrow> ignore
               | Some et \<Rightarrow>
                   (let pl = rv_normalize V rq e (pp_payload pre) et
                    in case hook_event_new (rv_hook_types V)
                         \<lparr>he_hook_id = rv_hook_id V, he_hook_type = rv_hook_type V, he_event_type = et, he_payload = pl,
                          he_metadata = event_metadata V e rq (pp_metadata pre), he_timestamp = wall,
                          he_target_type = or_opt (ep_target_type e) (rv_target_type V),
                          he_target_id = or_opt (ep_target_id e) (rv_target_id V),
                          he_task = or_opt (pp_task pre) (rv_build_task V e et pl)\<rparr> of
                         Inl _ \<Rightarrow> (json_error 500 ''error'' [] [], st)
                       | Inr ev \<Rightarrow>
                           (let st1 = (if rv_background V then st\<lparr>ig_tasks := ig_tasks st @ [(ep_path e, ev)]\<rparr>
                                       else dispatch_event deliver ev st)
                            in (json_response 202 ([(''status'', PStr ''accepted''), (''event_type'', PStr et),
                                   (''hook_id'', PStr (rv_hook_id V))] @
                                   (if failed then [(''preprocessor'', PStr ''failed'')] else [])),
                                bump (\<lambda>s. s\<lparr>es_accepted := Suc (es_accepted s)\<rparr>) st1)))))"

definition webhook_ctx :: "'ip endpoint \<Rightarrow> webhook_request \<Rightarrow> string \<Rightarrow> webhook_context" where
  "webhook_ctx e rq content_type =
     \<lparr>wx_headers = wr_headers rq, wx_path = ep_path e, wx_remote = client_ip rq (ep_trust_forwarded e),
      wx_content_type = content_type,
      wx_endpoint_name = (case ep_name e of Some (c # cs) \<Rightarrow> c # cs | _ \<Rightarrow> ep_path e), wx_method = wr_method rq\<rparr>"

definition parsed_delivery ::
    "'ip receiver \<Rightarrow> (hook_event \<Rightarrow> 'w \<Rightarrow> 'w) option \<Rightarrow> 'ip endpoint \<Rightarrow> webhook_request \<Rightarrow> string \<Rightarrow> py_datetime \<Rightarrow>
     'w ingest_state \<Rightarrow> response \<times> 'w ingest_state" where
  "parsed_delivery V deliver e rq body wall st =
     (let ct = (case header_get (wr_headers rq) ''Content-Type'' of None \<Rightarrow> [] | Some t \<Rightarrow> t)
      in case parse_body (rv_utf8 V) (rv_json V) (rv_parse_qsl V) body ct (ep_allow_non_json e) of
           Inl _ \<Rightarrow> (json_error 400 ''invalid_payload'' [] [], bump rejected st)
         | Inr pl \<Rightarrow>
             (let pre = run_preprocessor (ep_preprocessor_fn e) (ep_accepts_ctx e) pl (webhook_ctx e rq ct);
                  st1 = (if dict_get (pp_metadata pre) ''preprocessor_error'' \<noteq> None
                         then bump (\<lambda>s. s\<lparr>es_preprocessor_errors := Suc (es_preprocessor_errors s)\<rparr>) st else st)
              in emit_delivery V deliver e rq pre wall st1))"

text \<open>\<open>now\<close> is the monotonic clock, \<open>epoch\<close> the wall clock of the signatures, \<open>wall\<close> \<open>datetime.now()\<close>.\<close>

record clocks =
  ck_now :: real
  ck_epoch :: real
  ck_wall :: py_datetime
  ck_utc :: py_datetime

definition called :: "clocks \<Rightarrow> endpoint_state \<Rightarrow> endpoint_state" where
  "called ck s = s\<lparr>es_call_count := Suc (es_call_count s), es_last_called := Some (ck_utc ck)\<rparr>"

definition ingest ::
    "'ip receiver \<Rightarrow> (hook_event \<Rightarrow> 'w \<Rightarrow> 'w) option \<Rightarrow> 'ip endpoint \<Rightarrow> webhook_request \<Rightarrow> clocks \<Rightarrow>
     'w ingest_state \<Rightarrow> response result \<times> 'w ingest_state" where
  "ingest V deliver e rq ck st0 =
     (let st = bump (called ck) st0
      in if \<not> ep_enabled e then (Inr (json_error 503 ''disabled'' [(''Retry-After'', ''60'')] []), bump rejected st)
         else if \<not> ip_allowed (rv_ip_address V) (client_ip rq (ep_trust_forwarded e)) (ep_networks e)
         then (Inr (json_error 403 ''forbidden'' [] []), bump rejected st)
         else (let limit = (case ep_max_body e of Some n \<Rightarrow> if n = 0 then rv_max_body V else n | None \<Rightarrow> rv_max_body V)
               in case read_capped (wr_length rq) (wr_chunks rq) limit of
                    None \<Rightarrow> (Inr (json_error 413 ''payload_too_large'' [] [(''limit'', PInt limit)]), bump rejected st)
                  | Some body \<Rightarrow>
                      (case verify_signature V e rq body (ck_epoch ck) of
                         Inl x \<Rightarrow> (Inl x, st)
                       | Inr check \<Rightarrow>
                           if check \<noteq> None \<and> fst (the check) \<noteq> OK
                           then (Inr (verdict_response (fst (the check))), bump rejected st)
                           else (case is_duplicate V rq e (ck_now ck) (ig_cache st) of
                                   (True, c) \<Rightarrow>
                                     (Inr (json_response 200 [(''status'', PStr ''duplicate'')]),
                                      bump (\<lambda>s. s\<lparr>es_duplicates := Suc (es_duplicates s)\<rparr>) (st\<lparr>ig_cache := c\<rparr>))
                                 | (False, c) \<Rightarrow>
                                     apfst Inr (parsed_delivery V deliver e rq body (ck_wall ck) (st\<lparr>ig_cache := c\<rparr>))))))"

text \<open>An unexpected exception becomes a 500.\<close>

definition guarded_ingest ::
    "'ip receiver \<Rightarrow> (hook_event \<Rightarrow> 'w \<Rightarrow> 'w) option \<Rightarrow> 'ip endpoint \<Rightarrow> webhook_request \<Rightarrow> clocks \<Rightarrow>
     'w ingest_state \<Rightarrow> response \<times> 'w ingest_state" where
  "guarded_ingest V deliver e rq ck st =
     (case ingest V deliver e rq ck st of
        (Inl _, st1) \<Rightarrow> (json_error 500 ''error'' [] [], st1)
      | (Inr rs, st1) \<Rightarrow> (rs, st1))"

text \<open>A background dispatch runs, or is cancelled by \<open>stop\<close>.\<close>

definition run_task :: "(hook_event \<Rightarrow> 'w \<Rightarrow> 'w) option \<Rightarrow> 'w ingest_state \<Rightarrow> 'w ingest_state" where
  "run_task deliver st =
     (case ig_tasks st of
        [] \<Rightarrow> st
      | (p, ev) # ts \<Rightarrow> dispatch_event deliver ev (st\<lparr>ig_tasks := ts\<rparr>))"

definition drain_tasks :: "'w ingest_state \<Rightarrow> 'w ingest_state" where
  "drain_tasks st = st\<lparr>ig_tasks := []\<rparr>"

end
