(* ===== verification/WebhookListener.thy ===== *)
theory WebhookListener
  imports Webhook
begin

text \<open>
  The two webhook hooks: the listener of hooks/webhook/listener.py, one route in front of a registry
  of endpoints that changes at run time, and the single-route base of hooks/webhook/provider.py.
\<close>

subsection \<open>Configuration\<close>

record 'ip listener_config =
  lc_name :: string
  lc_enabled :: bool
  lc_base_path :: string
  lc_endpoints :: "'ip endpoint list"
  lc_max_body :: int
  lc_max_inflight :: nat
  lc_background :: bool
  lc_dedup_ttl :: int
  lc_dedup_size :: nat
  lc_expose_list :: bool
  lc_list_token :: "string option"
  lc_default_scheme :: string
  lc_default_require :: bool
  lc_target_type :: "string option"
  lc_target_id :: "string option"
  lc_metadata :: pydict

definition DEFAULT_WEBHOOK_BASE_PATH :: string where
  "DEFAULT_WEBHOOK_BASE_PATH = ''/api/v1/hooks/webhook''"

fun repeated_path :: "string list \<Rightarrow> 'ip endpoint list \<Rightarrow> bool" where
  "repeated_path seen [] = False"
| "repeated_path seen (e # es) = (ep_path e \<in> set seen \<or> repeated_path (ep_path e # seen) es)"

definition listener_config_new :: "registry \<Rightarrow> 'ip listener_config \<Rightarrow> 'ip listener_config result" where
  "listener_config_new schemes c =
     bind_r (normalize_path (lc_base_path c)) (\<lambda>base.
       if base = ''/'' then Inl (ValueError ''base_path must not be the site root'')
       else if lc_max_body c \<le> 0 \<or> lc_dedup_ttl c < 0 \<or> lc_dedup_size c = 0 then Inl (ValueError ''limits'')
       else if isl (get_signature_scheme (lc_default_scheme c) schemes) then Inl (ValueError ''unknown signature scheme'')
       else if repeated_path [] (lc_endpoints c) then Inl (ValueError ''Duplicate webhook endpoint path'')
       else if lc_expose_list c \<and> \<not> nonempty (lc_list_token c)
       then Inl (ValueError ''expose_list_route=True requires list_route_token'')
       else Inr (c\<lparr>lc_base_path := base\<rparr>))"

subsection \<open>The listener\<close>

text \<open>\<open>ls_receiver\<close> carries the limits of the configuration and the codecs.\<close>

record ('ip, 'w) listener =
  ls_config :: "'ip listener_config"
  ls_receiver :: "'ip receiver"
  ls_endpoints :: "(string \<times> 'ip endpoint) list"
  ls_states :: "(string \<times> endpoint_state) list"
  ls_cache :: dedup_cache
  ls_tasks :: "(string \<times> hook_event) list"
  ls_world :: 'w
  ls_inflight :: nat

definition install :: "'ip endpoint \<Rightarrow> ('ip, 'w) listener \<Rightarrow> ('ip, 'w) listener" where
  "install e L = L\<lparr>ls_endpoints := dict_set (ep_path e) e (ls_endpoints L),
     ls_states := dict_setdefault (ep_path e) endpoint_state_new (ls_states L)\<rparr>"

definition listener_receiver :: "'ip listener_config \<Rightarrow> string \<Rightarrow> 'ip receiver \<Rightarrow> 'ip receiver" where
  "listener_receiver c hook_id V =
     V\<lparr>rv_hook_id := hook_id, rv_hook_type := ''webhook'', rv_metadata := lc_metadata c, rv_target_type := lc_target_type c,
       rv_target_id := lc_target_id c, rv_max_body := lc_max_body c, rv_background := lc_background c,
       rv_dedup_ttl := lc_dedup_ttl c, rv_dedup_size := lc_dedup_size c, rv_classify := classify_event,
       rv_normalize := (\<lambda>rq e pl et. pl), rv_build_task := (\<lambda>e et pl. None)\<rparr>"

definition listener_new ::
    "'ip listener_config \<Rightarrow> string option \<Rightarrow> string \<Rightarrow> 'ip receiver \<Rightarrow> 'w \<Rightarrow> ('ip, 'w) listener result" where
  "listener_new cfg base_path hook_id V w =
     bind_r (case base_path of None \<Rightarrow> Inr cfg | Some p \<Rightarrow> map_sum id (\<lambda>b. cfg\<lparr>lc_base_path := b\<rparr>) (normalize_path p)) (\<lambda>c.
       Inr (fold install (lc_endpoints c)
         \<lparr>ls_config = c, ls_receiver = listener_receiver c hook_id V, ls_endpoints = [], ls_states = [], ls_cache = [],
          ls_tasks = [], ls_world = w, ls_inflight = 0\<rparr>))"

text \<open>\<open>scheme\<close> and \<open>require\<close> are the keyword arguments, when given; the rest is in \<open>e\<close>.\<close>

definition register_endpoint ::
    "(string \<Rightarrow> ('ip \<Rightarrow> bool) option) \<Rightarrow> (string \<Rightarrow> (preprocessor \<times> bool) option) \<Rightarrow> string \<Rightarrow> string option \<Rightarrow> bool option \<Rightarrow>
     'ip endpoint \<Rightarrow> ('ip, 'w) listener \<Rightarrow> 'ip endpoint result \<times> ('ip, 'w) listener" where
  "register_endpoint ip_network imported path scheme require e L =
     (let e1 = e\<lparr>ep_path := path,
                 ep_scheme := (case scheme of Some s \<Rightarrow> s | None \<Rightarrow> lc_default_scheme (ls_config L)),
                 ep_require_signature := (case require of Some b \<Rightarrow> b | None \<Rightarrow> lc_default_require (ls_config L))\<rparr>
      in case endpoint_new (rv_schemes (ls_receiver L)) ip_network imported e1 of
           Inl x \<Rightarrow> (Inl x, L)
         | Inr e2 \<Rightarrow> (Inr e2, install e2 L))"

definition unregister_endpoint :: "string \<Rightarrow> ('ip, 'w) listener \<Rightarrow> 'ip endpoint option result \<times> ('ip, 'w) listener" where
  "unregister_endpoint path L =
     (case normalize_path path of
        Inl x \<Rightarrow> (Inl x, L)
      | Inr k \<Rightarrow> (Inr (dict_get (ls_endpoints L) k),
                  L\<lparr>ls_endpoints := dict_del k (ls_endpoints L), ls_states := dict_del k (ls_states L)\<rparr>))"

definition get_endpoint :: "string \<Rightarrow> ('ip, 'w) listener \<Rightarrow> 'ip endpoint option result" where
  "get_endpoint path L = map_sum id (dict_get (ls_endpoints L)) (normalize_path path)"

subsection \<open>Deliveries\<close>

definition route_key :: "string \<Rightarrow> string" where
  "route_key raw_id = CHR ''/'' # strip_char (CHR ''/'') raw_id"

definition handle_webhook ::
    "(hook_event \<Rightarrow> 'w \<Rightarrow> 'w) option \<Rightarrow> webhook_request \<Rightarrow> clocks \<Rightarrow> ('ip, 'w) listener \<Rightarrow> response \<times> ('ip, 'w) listener" where
  "handle_webhook deliver rq ck L =
     (let key = route_key (wr_webhook_id rq)
      in case dict_get (ls_endpoints L) key of
           None \<Rightarrow> (json_error 404 ''unknown_endpoint'' [] [(''path'', PStr key)], L)
         | Some e \<Rightarrow>
             (let s = (case dict_get (ls_states L) key of Some s \<Rightarrow> s | None \<Rightarrow> endpoint_state_new)
              in if lc_max_inflight (ls_config L) > 0 \<and> ls_inflight L \<ge> lc_max_inflight (ls_config L)
                 then (json_error 503 ''busy'' [(''Retry-After'', ''1'')] [],
                       L\<lparr>ls_states := dict_set key (rejected s) (ls_states L)\<rparr>)
                 else (case guarded_ingest (ls_receiver L) deliver e rq ck
                              \<lparr>ig_counters = s, ig_cache = ls_cache L, ig_tasks = ls_tasks L, ig_world = ls_world L\<rparr> of
                         (rs, st) \<Rightarrow>
                           (rs, L\<lparr>ls_states := dict_set key (ig_counters st) (ls_states L), ls_cache := ig_cache st,
                                  ls_tasks := ig_tasks st, ls_world := ig_world st\<rparr>))))"

definition run_listener_task :: "(hook_event \<Rightarrow> 'w \<Rightarrow> 'w) option \<Rightarrow> ('ip, 'w) listener \<Rightarrow> ('ip, 'w) listener" where
  "run_listener_task deliver L =
     (case ls_tasks L of
        [] \<Rightarrow> L
      | (p, ev) # ts \<Rightarrow>
          (case deliver of
             Some f \<Rightarrow> L\<lparr>ls_tasks := ts, ls_world := f ev (ls_world L)\<rparr>
           | None \<Rightarrow>
               (case dict_get (ls_states L) p of
                  None \<Rightarrow> L\<lparr>ls_tasks := ts\<rparr>
                | Some s \<Rightarrow> L\<lparr>ls_tasks := ts, ls_states := dict_set p (s\<lparr>es_dropped_no_callback := Suc (es_dropped_no_callback s)\<rparr>)
                                 (ls_states L)\<rparr>)))"

definition listener_stop :: "('ip, 'w) listener \<Rightarrow> ('ip, 'w) listener" where
  "listener_stop L = L\<lparr>ls_tasks := []\<rparr>"

subsection \<open>Introspection\<close>

definition counter_dict :: "endpoint_state \<Rightarrow> (string \<times> nat) list" where
  "counter_dict s =
     [(''call_count'', es_call_count s), (''accepted'', es_accepted s), (''ignored'', es_ignored s), (''rejected'', es_rejected s),
      (''duplicates'', es_duplicates s), (''preprocessor_errors'', es_preprocessor_errors s),
      (''dropped_no_callback'', es_dropped_no_callback s)]"

definition state_dict :: "endpoint_state \<Rightarrow> pydict" where
  "state_dict s =
     map (\<lambda>(k, n). (k, PInt (int n))) (counter_dict s) @
     [(''last_called'', case es_last_called s of None \<Rightarrow> PNone | Some d \<Rightarrow> PStr (isoformat d))]"

definition listener_totals :: "('ip, 'w) listener \<Rightarrow> (string \<times> nat) list" where
  "listener_totals L =
     fold (\<lambda>(k, n) d. dict_set k ((case dict_get d k of None \<Rightarrow> 0 | Some m \<Rightarrow> m) + n) d)
       (concat (map (counter_dict \<circ> snd) (ls_states L))) []"

definition list_row_webhook :: "('ip, 'w) listener \<Rightarrow> string \<times> 'ip endpoint \<Rightarrow> pyval" where
  "list_row_webhook L = (\<lambda>(path, e).
     PDict ([(''path'', PStr path), (''name'', opt_str (ep_name e)), (''enabled'', PBool (ep_enabled e)),
             (''signed'', PBool (nonempty (ep_secret e))), (''signature_scheme'', PStr (ep_scheme e)),
             (''event_type'', PStr (ep_event_type e))] @
            state_dict (case dict_get (ls_states L) path of Some s \<Rightarrow> s | None \<Rightarrow> endpoint_state_new)))"

definition list_endpoints :: "webhook_request \<Rightarrow> ('ip, 'w) listener \<Rightarrow> response" where
  "list_endpoints rq L =
     (let token = (case lc_list_token (ls_config L) of Some t \<Rightarrow> t | None \<Rightarrow> []);
          key = (case header_get (wr_headers rq) ''X-API-Key'' of
                   Some (c # cs) \<Rightarrow> c # cs
                 | _ \<Rightarrow> (case wr_token rq of Some t \<Rightarrow> t | None \<Rightarrow> []));
          authorization = (case header_get (wr_headers rq) ''Authorization'' of Some a \<Rightarrow> a | None \<Rightarrow> []);
          supplied = (if py_startswith authorization ''Bearer '' then drop 7 authorization else key)
      in if supplied \<noteq> token then json_error 401 ''unauthorized'' [] []
         else json_response 200
           [(''base_path'', PStr (lc_base_path (ls_config L))),
            (''endpoints'', PList (map (list_row_webhook L) (sort_key fst (ls_endpoints L))))])"

definition webhook_routes :: "('ip, 'w) listener \<Rightarrow> (string \<times> string) list" where
  "webhook_routes L =
     (let base = lc_base_path (ls_config L)
      in (if lc_expose_list (ls_config L) then [(''GET'', base @ ''/_list'')] else []) @
         [(''POST'', base @ ''/{webhook_id:.*}''), (''POST'', base)])"

subsection \<open>A provider on a fixed route\<close>

record 'w provider_hook =
  ph_state :: endpoint_state
  ph_world :: 'w

definition provider_receiver :: "string \<Rightarrow> string \<Rightarrow> 'ip endpoint \<Rightarrow> 'ip receiver \<Rightarrow> 'ip receiver" where
  "provider_receiver hook_type hook_id c V =
     V\<lparr>rv_hook_id := hook_id, rv_hook_type := hook_type, rv_metadata := ep_metadata c, rv_target_type := ep_target_type c,
       rv_target_id := ep_target_id c, rv_max_body := (case ep_max_body c of Some n \<Rightarrow> n | None \<Rightarrow> 1048576),
       rv_background := False, rv_dedup_ttl := 0, rv_dedup_size := 1024\<rparr>"

definition provider_hook_new ::
    "string \<Rightarrow> string \<Rightarrow> 'ip endpoint \<Rightarrow> 'ip receiver \<Rightarrow> 'w \<Rightarrow> ('ip receiver \<times> 'w provider_hook) result" where
  "provider_hook_new hook_type hook_id c V w =
     (if \<not> is_hook_type hook_type (rv_hook_types V) then Inl (ValueError ''hook_type is not registered'')
      else Inr (provider_receiver hook_type hook_id c V, \<lparr>ph_state = endpoint_state_new, ph_world = w\<rparr>))"

definition build_config ::
    "registry \<Rightarrow> (string \<Rightarrow> ('ip \<Rightarrow> bool) option) \<Rightarrow> (string \<Rightarrow> (preprocessor \<times> bool) option) \<Rightarrow> string \<Rightarrow> string option \<Rightarrow>
     string \<Rightarrow> string option \<Rightarrow> string option option \<Rightarrow> 'ip endpoint \<Rightarrow> 'ip endpoint result" where
  "build_config schemes ip_network imported default_scheme default_header path scheme header e =
     endpoint_new schemes ip_network imported
       (e\<lparr>ep_path := path, ep_scheme := (case scheme of Some s \<Rightarrow> s | None \<Rightarrow> default_scheme),
          ep_event_type_header := (case header of
              Some h \<Rightarrow> h
            | None \<Rightarrow> (case default_header of Some h \<Rightarrow> Some h | None \<Rightarrow> ep_event_type_header e))\<rparr>)"

definition handle_post ::
    "'ip receiver \<Rightarrow> 'ip endpoint \<Rightarrow> (hook_event \<Rightarrow> 'w \<Rightarrow> 'w) option \<Rightarrow> webhook_request \<Rightarrow> clocks \<Rightarrow> 'w provider_hook \<Rightarrow>
     response \<times> 'w provider_hook" where
  "handle_post V c deliver rq ck P =
     (case guarded_ingest V deliver c rq ck \<lparr>ig_counters = ph_state P, ig_cache = [], ig_tasks = [], ig_world = ph_world P\<rparr> of
        (rs, st) \<Rightarrow> (rs, P\<lparr>ph_state := ig_counters st, ph_world := ig_world st\<rparr>))"

end
