(* ===== verification/WebhookFacts.thy ===== *)
theory WebhookFacts
  imports WebhookListener
begin

text \<open>
  Facts about the ingest pipeline: which deliveries pass the guards, what a refused one leaves
  behind, how long an entry of the deduplication cache survives, and what the counters count.
\<close>

subsection \<open>The guards\<close>

definition body_limit :: "'ip receiver \<Rightarrow> 'ip endpoint \<Rightarrow> int" where
  "body_limit V e = (case ep_max_body e of Some n \<Rightarrow> if n = 0 then rv_max_body V else n | None \<Rightarrow> rv_max_body V)"

text \<open>The specification of an admissible delivery, and its body.\<close>

definition admitted :: "'ip receiver \<Rightarrow> 'ip endpoint \<Rightarrow> webhook_request \<Rightarrow> real \<Rightarrow> string \<Rightarrow> bool" where
  "admitted V e rq epoch body \<longleftrightarrow>
     ep_enabled e \<and> ip_allowed (rv_ip_address V) (client_ip rq (ep_trust_forwarded e)) (ep_networks e) \<and>
     read_capped (wr_length rq) (wr_chunks rq) (body_limit V e) = Some body \<and>
     (verify_signature V e rq body epoch = Inr None \<or>
      (\<exists>check. verify_signature V e rq body epoch = Inr (Some check) \<and> fst check = OK))"

lemma bump_simps [simp]:
  "ig_cache (bump f st) = ig_cache st" "ig_tasks (bump f st) = ig_tasks st" "ig_world (bump f st) = ig_world st"
  "ig_counters (bump f st) = f (ig_counters st)"
  by (simp_all add: bump_def)

lemma ingest_admitted:
  "admitted V e rq (ck_epoch ck) body \<Longrightarrow>
   ingest V deliver e rq ck st0 =
     (case is_duplicate V rq e (ck_now ck) (ig_cache st0) of
        (True, c) \<Rightarrow> (Inr (json_response 200 [(''status'', PStr ''duplicate'')]),
            bump (\<lambda>s. s\<lparr>es_duplicates := Suc (es_duplicates s)\<rparr>) ((bump (called ck) st0)\<lparr>ig_cache := c\<rparr>))
      | (False, c) \<Rightarrow> apfst Inr (parsed_delivery V deliver e rq body (ck_wall ck) ((bump (called ck) st0)\<lparr>ig_cache := c\<rparr>)))"
  by (auto simp: admitted_def ingest_def body_limit_def Let_def)

lemma ingest_refused:
  assumes "\<nexists>body. admitted V e rq (ck_epoch ck) body"
  shows "\<exists>r c. ingest V deliver e rq ck st = (r, st\<lparr>ig_counters := c\<rparr>) \<and> es_call_count c = Suc (es_call_count (ig_counters st)) \<and>
    es_accepted c = es_accepted (ig_counters st) \<and> es_ignored c = es_ignored (ig_counters st) \<and>
    es_duplicates c = es_duplicates (ig_counters st) \<and>
    (case r of Inl x \<Rightarrow> es_rejected c = es_rejected (ig_counters st)
     | Inr rs \<Rightarrow> es_rejected c = Suc (es_rejected (ig_counters st)) \<and> rs_status rs \<in> {400, 401, 403, 413, 503})"
proof -
  let ?c = "called ck (ig_counters st)"
  have counters: "es_call_count ?c = Suc (es_call_count (ig_counters st))" "es_accepted ?c = es_accepted (ig_counters st)"
      "es_ignored ?c = es_ignored (ig_counters st)" "es_duplicates ?c = es_duplicates (ig_counters st)"
      "es_rejected ?c = es_rejected (ig_counters st)"
    by (simp_all add: called_def)
  let ?b = "read_capped (wr_length rq) (wr_chunks rq) (body_limit V e)"
  consider (off) "\<not> ep_enabled e"
    | (ip) "ep_enabled e" "\<not> ip_allowed (rv_ip_address V) (client_ip rq (ep_trust_forwarded e)) (ep_networks e)"
    | (big) "ep_enabled e" "ip_allowed (rv_ip_address V) (client_ip rq (ep_trust_forwarded e)) (ep_networks e)" "?b = None"
    | (read) body where "ep_enabled e" "ip_allowed (rv_ip_address V) (client_ip rq (ep_trust_forwarded e)) (ep_networks e)" "?b = Some body"
    by (cases "?b") auto
  then show ?thesis
  proof cases
    case (read body)
    show ?thesis
    proof (cases "verify_signature V e rq body (ck_epoch ck)")
      case (Inl x)
      with read show ?thesis
        by (intro exI[of _ "Inl x"] exI[of _ ?c]) (simp add: ingest_def body_limit_def bump_def Let_def counters)
    next
      case (Inr check)
      with read assms have bad: "check \<noteq> None" "fst (the check) \<noteq> OK"
        by (auto simp: admitted_def)
      with read Inr show ?thesis
        by (intro exI[of _ "Inr (verdict_response (fst (the check)))"] exI[of _ "rejected ?c"],
            cases "fst (the check)")
          (simp_all add: ingest_def body_limit_def bump_def Let_def counters rejected_def)
    qed
  next
    case big
    then show ?thesis
      by (intro exI[of _ "Inr (json_error 413 ''payload_too_large'' [] [(''limit'', PInt (body_limit V e))])"] exI[of _ "rejected ?c"])
        (simp add: ingest_def body_limit_def bump_def Let_def counters rejected_def)
  next
    case ip
    then show ?thesis
      by (intro exI[of _ "Inr (json_error 403 ''forbidden'' [] [])"] exI[of _ "rejected ?c"])
        (simp add: ingest_def body_limit_def bump_def Let_def counters rejected_def)
  next
    case off
    then show ?thesis
      by (intro exI[of _ "Inr (json_error 503 ''disabled'' [(''Retry-After'', ''60'')] [])"] exI[of _ "rejected ?c"])
        (simp add: ingest_def body_limit_def bump_def Let_def counters rejected_def)
  qed
qed

lemma read_capped_body: "read_capped declared chunks limit = Some body \<Longrightarrow> body = concat chunks"
proof -
  have "read_chunks l b cs = Some x \<Longrightarrow> x = b @ concat cs" for l b cs x
    by (induction l b cs rule: read_chunks.induct) (auto simp: Let_def split: if_splits)
  then show "read_capped declared chunks limit = Some body \<Longrightarrow> body = concat chunks"
    by (fastforce simp: read_capped_def split: if_splits)
qed

subsection \<open>What an emitted delivery leaves behind\<close>

lemma dispatch_event_simps [simp]:
  "ig_cache (dispatch_event deliver ev st) = ig_cache st" "ig_tasks (dispatch_event deliver ev st) = ig_tasks st"
  "es_call_count (ig_counters (dispatch_event deliver ev st)) = es_call_count (ig_counters st)"
  "es_rejected (ig_counters (dispatch_event deliver ev st)) = es_rejected (ig_counters st)"
  "es_duplicates (ig_counters (dispatch_event deliver ev st)) = es_duplicates (ig_counters st)"
  "es_accepted (ig_counters (dispatch_event deliver ev st)) = es_accepted (ig_counters st)"
  "es_ignored (ig_counters (dispatch_event deliver ev st)) = es_ignored (ig_counters st)"
  by (simp_all add: dispatch_event_def split: option.split)

lemma emit_delivery_cases:
  assumes "emit_delivery V deliver e rq pre wall st = (rs, st1)"
  obtains "rs = json_response 200 [(''status'', PStr ''ignored'')]" "st1 = bump ignored st"
    | "rs = json_error 500 ''error'' [] []" "st1 = st"
    | ev xs where "rs = json_response 202 ((''status'', PStr ''accepted'') # xs)" "xs \<noteq> []"
        "st1 = bump (\<lambda>s. s\<lparr>es_accepted := Suc (es_accepted s)\<rparr>)
           (if rv_background V then st\<lparr>ig_tasks := ig_tasks st @ [(ep_path e, ev)]\<rparr> else dispatch_event deliver ev st)"
proof -
  define et where "et = (if nonempty (pp_event_type pre) then pp_event_type pre
      else map_option (\<lambda>c. case ep_event_type_prefix e of Some (p # ps) \<Rightarrow> (p # ps) @ ''.'' @ c | _ \<Rightarrow> c)
        (rv_classify V rq e (pp_payload pre)))"
  note emit = assms[unfolded emit_delivery_def Let_def, folded et_def]
  show ?thesis
  proof (cases et)
    case None
    with emit that(1) show ?thesis by (simp split: if_splits)
  next
    case (Some t)
    with emit that show ?thesis by (auto split: if_splits sum.splits)
  qed
qed

lemma emit_delivery_facts:
  assumes "emit_delivery V deliver e rq pre wall st = (rs, st1)"
  shows "ig_cache st1 = ig_cache st \<and> es_call_count (ig_counters st1) = es_call_count (ig_counters st) \<and>
    es_rejected (ig_counters st1) = es_rejected (ig_counters st) \<and> es_duplicates (ig_counters st1) = es_duplicates (ig_counters st) \<and>
    es_accepted (ig_counters st1) = es_accepted (ig_counters st) + (if rs_status rs = 202 then 1 else 0) \<and>
    es_ignored (ig_counters st1) = es_ignored (ig_counters st) + (if rs_status rs = 200 then 1 else 0) \<and>
    rs_status rs \<in> {200, 202, 500} \<and> rs_body rs \<noteq> [(''status'', PStr ''duplicate'')]"
  using assms by (cases rule: emit_delivery_cases) (simp_all add: ignored_def json_response_def json_error_def)

lemma parsed_delivery_facts:
  assumes "parsed_delivery V deliver e rq body wall st = (rs, st1)"
  shows "ig_cache st1 = ig_cache st \<and> es_call_count (ig_counters st1) = es_call_count (ig_counters st) \<and>
    es_rejected (ig_counters st1) = es_rejected (ig_counters st) + (if rs_status rs = 400 then 1 else 0) \<and>
    es_duplicates (ig_counters st1) = es_duplicates (ig_counters st) \<and>
    es_accepted (ig_counters st1) = es_accepted (ig_counters st) + (if rs_status rs = 202 then 1 else 0) \<and>
    es_ignored (ig_counters st1) = es_ignored (ig_counters st) + (if rs_status rs = 200 then 1 else 0) \<and>
    rs_status rs \<in> {200, 202, 400, 500} \<and> rs_body rs \<noteq> [(''status'', PStr ''duplicate'')]"
proof -
  let ?ct = "case header_get (wr_headers rq) ''Content-Type'' of None \<Rightarrow> [] | Some t \<Rightarrow> t"
  show ?thesis
  proof (cases "parse_body (rv_utf8 V) (rv_json V) (rv_parse_qsl V) body ?ct (ep_allow_non_json e)")
    case (Inl x)
    with assms show ?thesis
      by (auto simp: parsed_delivery_def Let_def bump_def rejected_def json_error_def)
  next
    case (Inr pl)
    define pre where "pre = run_preprocessor (ep_preprocessor_fn e) (ep_accepts_ctx e) pl (webhook_ctx e rq ?ct)"
    define st' where "st' = (if dict_get (pp_metadata pre) ''preprocessor_error'' \<noteq> None
      then bump (\<lambda>s. s\<lparr>es_preprocessor_errors := Suc (es_preprocessor_errors s)\<rparr>) st else st)"
    have "emit_delivery V deliver e rq pre wall st' = (rs, st1)"
      using assms by (simp add: parsed_delivery_def Let_def Inr pre_def st'_def)
    from emit_delivery_facts[OF this] show ?thesis
      by (auto simp: st'_def bump_def)
  qed
qed

subsection \<open>The deduplication cache\<close>

text \<open>At most \<open>n\<close> entries were added after the one of \<open>key\<close>, remembered at \<open>t\<close>.\<close>

definition remembered :: "string \<Rightarrow> real \<Rightarrow> nat \<Rightarrow> dedup_cache \<Rightarrow> bool" where
  "remembered key t n cache \<longleftrightarrow> (\<exists>xs ys. cache = xs @ (key, t) # ys \<and> length ys \<le> n)"

lemma remembered_mono: "remembered key t n cache \<Longrightarrow> n \<le> m \<Longrightarrow> remembered key t m cache"
  by (fastforce simp: remembered_def)

lemma prune_remembered:
  "remembered key t n cache \<Longrightarrow> now - t \<le> real_of_int ttl \<Longrightarrow> remembered key t n (prune_cache ttl now cache)"
proof -
  assume "remembered key t n cache" "now - t \<le> real_of_int ttl"
  then obtain xs ys where "cache = xs @ (key, t) # ys" "length ys \<le> n" "now - t \<le> real_of_int ttl"
    by (auto simp: remembered_def)
  then show ?thesis
    by (intro exI[of _ "dropWhile (\<lambda>(k, t). \<not> now - t \<le> real_of_int ttl) xs"] exI[of _ ys]
        remembered_def[THEN iffD2] conjI) (simp_all add: prune_cache_def dropWhile_append)
qed

lemma remember_remembered:
  assumes "remembered key t n cache" and "Suc (Suc n) \<le> cap"
  shows "remembered key t (Suc n) (remember cap k now cache)"
proof -
  obtain xs ys where c: "cache = xs @ (key, t) # ys" "length ys \<le> n"
    using assms by (auto simp: remembered_def)
  let ?d = "drop (length (cache @ [(k, now)]) - cap)"
  have "?d (cache @ [(k, now)]) = ?d xs @ (key, t) # (ys @ [(k, now)])"
    using c assms by (simp add: drop_Cons')
  then show ?thesis
    unfolding remembered_def remember_def Let_def
    using c(2) by (intro exI[of _ "?d xs"] exI[of _ "ys @ [(k, now)]"]) simp
qed

lemma remember_new: "0 < cap \<Longrightarrow> remembered k now 0 (remember cap k now cache)"
  by (auto simp: remembered_def remember_def Let_def drop_append)

lemma check_remembered:
  assumes "remembered key t n cache" and "now - t \<le> real_of_int ttl" and "Suc (Suc n) \<le> cap"
  shows "remembered key t (Suc n) (snd (check_duplicate ttl cap k now cache))"
  using prune_remembered[OF assms(1,2)] assms(3)
  by (auto simp: check_duplicate_def Let_def intro: remember_remembered remembered_mono)

lemma remembered_duplicate:
  "remembered key t n cache \<Longrightarrow> now - t \<le> real_of_int ttl \<Longrightarrow> fst (check_duplicate ttl cap key now cache)"
  using prune_remembered[of key t n cache now ttl]
  by (force simp: check_duplicate_def Let_def remembered_def)

lemma is_duplicate_remembered:
  assumes "remembered key t n cache" and "now - t \<le> real_of_int (rv_dedup_ttl V)" and "Suc (Suc n) \<le> rv_dedup_size V"
  shows "remembered key t (Suc n) (snd (is_duplicate V rq e now cache))"
  using check_remembered[OF assms] remembered_mono[OF assms(1)]
  by (auto simp: is_duplicate_def split: option.split list.split)

lemma ingest_cache:
  "ig_cache (snd (ingest V deliver e rq ck st)) \<in> {ig_cache st, snd (is_duplicate V rq e (ck_now ck) (ig_cache st))}"
proof (cases "\<exists>body. admitted V e rq (ck_epoch ck) body")
  case True
  then obtain body where adm: "admitted V e rq (ck_epoch ck) body" by blast
  obtain d c where dup: "is_duplicate V rq e (ck_now ck) (ig_cache st) = (d, c)" by force
  obtain rs s2 where "parsed_delivery V deliver e rq body (ck_wall ck) ((bump (called ck) st)\<lparr>ig_cache := c\<rparr>) = (rs, s2)"
    by force
  with parsed_delivery_facts[OF this] show ?thesis
    by (cases d) (simp_all add: ingest_admitted[OF adm] dup bump_def)
next
  case False
  from ingest_refused[OF this, of deliver st] show ?thesis by auto
qed

lemma guarded_snd [simp]: "snd (guarded_ingest V deliver e rq ck st) = snd (ingest V deliver e rq ck st)"
  by (auto simp: guarded_ingest_def split: prod.split sum.split)

text \<open>A series of deliveries, each to an endpoint of the same listener.\<close>

definition deliveries ::
    "'ip receiver \<Rightarrow> (hook_event \<Rightarrow> 'w \<Rightarrow> 'w) option \<Rightarrow> ('ip endpoint \<times> webhook_request \<times> clocks) list \<Rightarrow>
     'w ingest_state \<Rightarrow> 'w ingest_state" where
  "deliveries V deliver ds st = fold (\<lambda>(e, rq, ck) s. snd (guarded_ingest V deliver e rq ck s)) ds st"

lemma deliveries_remembered:
  assumes "remembered key t n (ig_cache st)" and "\<forall>(e, rq, ck) \<in> set ds. ck_now ck - t \<le> real_of_int (rv_dedup_ttl V)"
    and "n + length ds < rv_dedup_size V"
  shows "remembered key t (n + length ds) (ig_cache (deliveries V deliver ds st))"
  using assms
proof (induction ds arbitrary: n st)
  case (Cons d ds)
  obtain e rq ck where d: "d = (e, rq, ck)" by (cases d)
  let ?st = "snd (ingest V deliver e rq ck st)"
  have "remembered key t (Suc n) (ig_cache ?st)"
    using ingest_cache[of V deliver e rq ck st] Cons.prems d
      is_duplicate_remembered[of key t n "ig_cache st" "ck_now ck" V rq e] remembered_mono[of key t n _ "Suc n"] by auto
  from Cons.IH[OF this] Cons.prems show ?case by (simp add: deliveries_def d)
qed (simp add: deliveries_def)

end
