(* ===== verification/WebhookProps.thy ===== *)
theory WebhookProps
  imports WebhookFacts
begin

text \<open>
  Properties of the webhook receiver and listener: only admissible deliveries have an effect, every
  delivery is counted once, a remembered delivery is not dispatched again, a failing preprocessor
  does not lose its delivery, and registration, routing and removal agree on paths.
\<close>

subsection \<open>A sample receiver\<close>

definition wh_scheme :: hex_scheme where
  "wh_scheme = \<lparr>hs_name = ''s'', hs_header = ''X-S'', hs_algorithms = [''sha256''], hs_allow_bare = True, hs_emit_prefix = False\<rparr>"

definition wh_receiver :: "nat receiver" where
  "wh_receiver = \<lparr>rv_hook_id = ''h'', rv_hook_type = ''webhook'', rv_metadata = [], rv_target_type = None, rv_target_id = None,
     rv_max_body = 8, rv_background = False, rv_dedup_ttl = 60, rv_dedup_size = 4, rv_hook_types = [''webhook''],
     rv_schemes = [(''s'', HexDigest wh_scheme)],
     rv_hmac = (\<lambda>alg key m. ''ab''), rv_utf8 = Some,
     rv_json = \<lparr>dumps = (\<lambda>v. Inl (TypeError [])), loads = (\<lambda>t. if t = ''1'' then Inr (PDict [(''k'', PInt 1)]) else Inl (ValueError []))\<rparr>,
     rv_parse_qsl = (\<lambda>t. None), rv_ip_address = (\<lambda>t. None), rv_classify = classify_event,
     rv_normalize = (\<lambda>rq e pl et. pl), rv_build_task = (\<lambda>e et pl. None)\<rparr>"

definition wh_endpoint :: "nat endpoint" where
  "wh_endpoint = \<lparr>ep_path = ''/a'', ep_name = None, ep_enabled = True, ep_secret = None, ep_scheme = ''s'',
     ep_signature_header = None, ep_require_signature = False, ep_tolerance = 300, ep_allowed_ips = [], ep_networks = [],
     ep_trust_forwarded = False, ep_event_type = ''t'', ep_event_type_header = None, ep_event_type_prefix = None,
     ep_preprocessor = None, ep_preprocessor_fn = None, ep_accepts_ctx = False, ep_allow_non_json = False, ep_max_body = None,
     ep_dedup_header = Some ''X-Id'', ep_target_type = None, ep_target_id = None, ep_metadata = []\<rparr>"

definition wh_request :: "string \<Rightarrow> webhook_request" where
  "wh_request body = \<lparr>wr_headers = [(''X-Id'', ''d''), (''X-S'', ''ab'')], wr_remote = None, wr_length = None, wr_chunks = [body],
     wr_method = ''POST'', wr_webhook_id = ''a'', wr_token = None\<rparr>"

definition wh_time :: py_datetime where
  "wh_time = \<lparr>dt_year = 2024, dt_month = 5, dt_day = 17, dt_hour = 10, dt_minute = 30, dt_second = 15,
     dt_micro = 250, dt_utcoff = Some 0\<rparr>"

definition wh_clocks :: "real \<Rightarrow> clocks" where
  "wh_clocks t = \<lparr>ck_now = t, ck_epoch = t, ck_wall = wh_time, ck_utc = wh_time\<rparr>"

definition wh_state :: "pydict list ingest_state" where
  "wh_state = \<lparr>ig_counters = endpoint_state_new, ig_cache = [], ig_tasks = [], ig_world = []\<rparr>"

definition wh_deliver :: "(hook_event \<Rightarrow> pydict list \<Rightarrow> pydict list) option" where
  "wh_deliver = Some (\<lambda>ev w. w @ [he_payload ev])"

lemmas wh_defs = wh_receiver_def wh_endpoint_def wh_request_def wh_clocks_def wh_state_def wh_deliver_def

subsection \<open>Admission\<close>

text \<open>C29: A delivery that reaches the application, the background tasks or the deduplication cache, or
  that is answered with success, came to an enabled endpoint from an allowed address, with a body within
  the limit whose signature the scheme of the endpoint verified, when the endpoint has a secret.\<close>

theorem delivery_authenticated:
  assumes "ingest V deliver e rq ck st = (r, st1)"
    and "ig_world st1 \<noteq> ig_world st \<or> ig_tasks st1 \<noteq> ig_tasks st \<or> ig_cache st1 \<noteq> ig_cache st \<or>
         (\<exists>rs. r = Inr rs \<and> rs_status rs < 400)"
  shows "ep_enabled e \<and> ip_allowed (rv_ip_address V) (client_ip rq (ep_trust_forwarded e)) (ep_networks e) \<and>
    read_capped (wr_length rq) (wr_chunks rq) (body_limit V e) = Some (concat (wr_chunks rq)) \<and>
    (ep_secret e \<in> {None, Some []} \<or>
     (\<exists>s. get_signature_scheme (ep_scheme e) (rv_schemes V) = Inr s \<and>
       fst (verify (rv_hmac V) s (the (ep_secret e)) (concat (wr_chunks rq)) (wr_headers rq) (ep_signature_header e)
              (ep_tolerance e) (ck_epoch ck)) = OK))"
proof -
  have "\<exists>body. admitted V e rq (ck_epoch ck) body"
  proof (rule ccontr)
    assume "\<not> ?thesis"
    from ingest_refused[OF this, of deliver st] assms show False by (cases r) auto
  qed
  then obtain body where adm: "admitted V e rq (ck_epoch ck) body" by blast
  with read_capped_body have body: "body = concat (wr_chunks rq)" by (auto simp: admitted_def)
  from adm show ?thesis
    by (auto simp: admitted_def verify_signature_def body bind_r_def split: option.splits list.splits sum.splits)
qed

theorem delivery_authenticated_witness:
  "fst (verify (rv_hmac wh_receiver) (HexDigest wh_scheme)
     ''k'' ''1'' (wr_headers (wh_request ''1'')) None 300 0) = OK"
proof -
  have "ig_world (snd (ingest wh_receiver wh_deliver (wh_endpoint\<lparr>ep_secret := Some ''k''\<rparr>) (wh_request ''1'') (wh_clocks 0) wh_state))
      = [[(''k'', PInt 1)]]"
    unfolding wh_defs by code_simp
  then have "ig_world (snd (ingest wh_receiver wh_deliver (wh_endpoint\<lparr>ep_secret := Some ''k''\<rparr>) (wh_request ''1'') (wh_clocks 0) wh_state))
      \<noteq> ig_world wh_state"
    by (simp add: wh_state_def)
  from delivery_authenticated[OF surjective_pairing disjI1[OF this]] show ?thesis
    by (auto simp: wh_defs get_signature_scheme_def split: if_splits)
qed

subsection \<open>Accounting\<close>

text \<open>Every delivery is counted once as a call and, unless an unexpected exception made it a 500, once as
  what its response says: 202 accepted, 200 ignored or duplicate, any of the refusals rejected.\<close>

theorem delivery_counted:
  assumes "guarded_ingest V deliver e rq ck st = (rs, st1)"
  shows "es_call_count (ig_counters st1) = Suc (es_call_count (ig_counters st)) \<and>
    es_accepted (ig_counters st1) = es_accepted (ig_counters st) + (if rs_status rs = 202 then 1 else 0) \<and>
    es_ignored (ig_counters st1) + es_duplicates (ig_counters st1) =
      es_ignored (ig_counters st) + es_duplicates (ig_counters st) + (if rs_status rs = 200 then 1 else 0) \<and>
    es_rejected (ig_counters st1) =
      es_rejected (ig_counters st) + (if rs_status rs \<in> {400, 401, 403, 413, 503} then 1 else 0) \<and>
    rs_status rs \<in> {200, 202, 400, 401, 403, 413, 500, 503}"
proof (cases "\<exists>body. admitted V e rq (ck_epoch ck) body")
  case False
  then obtain r c where r: "ingest V deliver e rq ck st = (r, st\<lparr>ig_counters := c\<rparr>)"
      "es_call_count c = Suc (es_call_count (ig_counters st))" "es_accepted c = es_accepted (ig_counters st)"
      "es_ignored c = es_ignored (ig_counters st)" "es_duplicates c = es_duplicates (ig_counters st)"
      "case r of Inl x \<Rightarrow> es_rejected c = es_rejected (ig_counters st)
       | Inr rs \<Rightarrow> es_rejected c = Suc (es_rejected (ig_counters st)) \<and> rs_status rs \<in> {400, 401, 403, 413, 503}"
    using ingest_refused[of V e rq ck deliver st] by blast
  show ?thesis
  proof (cases r)
    case (Inl x)
    with r assms have "st1 = st\<lparr>ig_counters := c\<rparr>" "rs_status rs = 500"
      by (auto simp: guarded_ingest_def)
    with r Inl show ?thesis by simp
  next
    case (Inr x)
    with r assms have st1: "st1 = st\<lparr>ig_counters := c\<rparr>" "rs = x"
      by (simp_all add: guarded_ingest_def)
    have "rs_status x \<noteq> 202 \<and> rs_status x \<noteq> 200" using r(6) Inr by auto
    with r Inr st1 show ?thesis by simp blast
  qed
next
  case True
  then obtain body where adm: "admitted V e rq (ck_epoch ck) body" by blast
  obtain d c where dup: "is_duplicate V rq e (ck_now ck) (ig_cache st) = (d, c)" by force
  obtain r2 s2 where p: "parsed_delivery V deliver e rq body (ck_wall ck) ((bump (called ck) st)\<lparr>ig_cache := c\<rparr>) = (r2, s2)"
    by force
  show ?thesis
  proof (cases d)
    case True
    with assms show ?thesis
      by (auto simp: guarded_ingest_def ingest_admitted[OF adm] dup called_def json_response_def)
  next
    case False
    with assms p have "rs = r2" "st1 = s2"
      by (auto simp: guarded_ingest_def ingest_admitted[OF adm] dup)
    with parsed_delivery_facts[OF p] show ?thesis by (auto simp: called_def)
  qed
qed

theorem delivery_counted_witness:
  "es_rejected (ig_counters (snd (guarded_ingest wh_receiver wh_deliver wh_endpoint (wh_request ''x'') (wh_clocks 0) wh_state))) = 1"
proof -
  have "rs_status (fst (guarded_ingest wh_receiver wh_deliver wh_endpoint (wh_request ''x'') (wh_clocks 0) wh_state)) = 400"
    unfolding wh_defs by code_simp
  then show ?thesis
    using delivery_counted[OF surjective_pairing, of wh_receiver wh_deliver wh_endpoint "wh_request ''x''" "wh_clocks 0" wh_state]
    by (simp add: wh_state_def endpoint_state_new_def)
qed

subsection \<open>Redelivery\<close>

text \<open>C30: A delivery that got past the guards and was not itself a duplicate is remembered whatever became of
  it: another admissible request with its delivery id, within the time limit and after fewer other
  deliveries than the cache holds, is answered as a duplicate and dispatched nowhere.\<close>

theorem redelivery_suppressed:
  assumes "guarded_ingest V deliver e rq ck st = (rs, st1)" and "admitted V e rq (ck_epoch ck) body"
    and "rs_body rs \<noteq> [(''status'', PStr ''duplicate'')]"
    and "delivery_id rq e = Some (c # cs)" and "delivery_id rq' e = Some (c # cs)"
    and "length ds < rv_dedup_size V" and "0 < rv_dedup_ttl V"
    and "\<forall>(e2, rq2, ck2) \<in> set ds. ck_now ck2 - ck_now ck \<le> real_of_int (rv_dedup_ttl V)"
    and "ck_now ck' - ck_now ck \<le> real_of_int (rv_dedup_ttl V)" and "admitted V e rq' (ck_epoch ck') body'"
    and "st2 = deliveries V deliver ds st1"
  shows "\<exists>st3. guarded_ingest V deliver e rq' ck' st2 = (json_response 200 [(''status'', PStr ''duplicate'')], st3) \<and>
    ig_world st3 = ig_world st2 \<and> ig_tasks st3 = ig_tasks st2"
proof -
  let ?key = "ep_path e @ '':'' @ c # cs"
  obtain d c1 where dup: "is_duplicate V rq e (ck_now ck) (ig_cache st) = (d, c1)" by force
  have fresh: "\<not> d"
    using assms(1,3) by (auto simp: guarded_ingest_def ingest_admitted[OF assms(2)] dup json_response_def)
  have "c1 = remember (rv_dedup_size V) ?key (ck_now ck) (prune_cache (rv_dedup_ttl V) (ck_now ck) (ig_cache st))"
    using dup fresh assms(4,7) by (auto simp: is_duplicate_def check_duplicate_def Let_def split: if_splits)
  with remember_new[of "rv_dedup_size V"] assms(6) have "remembered ?key (ck_now ck) 0 c1" by force
  moreover obtain r2 s2 where p: "parsed_delivery V deliver e rq body (ck_wall ck) ((bump (called ck) st)\<lparr>ig_cache := c1\<rparr>) = (r2, s2)"
    by force
  then have "ig_cache st1 = c1"
    using assms(1) fresh parsed_delivery_facts[OF p]
    by (auto simp: guarded_ingest_def ingest_admitted[OF assms(2)] dup)
  ultimately have "remembered ?key (ck_now ck) (length ds) (ig_cache st2)"
    using deliveries_remembered[of ?key "ck_now ck" 0 st1 ds V deliver] assms(6,8,11) by simp
  from remembered_duplicate[OF this assms(9)] have "fst (is_duplicate V rq' e (ck_now ck') (ig_cache st2))"
    using assms(5,7) by (simp add: is_duplicate_def)
  then obtain c3 where "is_duplicate V rq' e (ck_now ck') (ig_cache st2) = (True, c3)"
    by (cases "is_duplicate V rq' e (ck_now ck') (ig_cache st2)") auto
  then show ?thesis
    by (simp add: guarded_ingest_def ingest_admitted[OF assms(10)])
qed

text \<open>A delivery refused for its body, and its corrected retry: the retry is answered as a duplicate.\<close>

theorem redelivery_suppressed_witness:
  "rs_status (fst (guarded_ingest wh_receiver wh_deliver wh_endpoint (wh_request ''x'') (wh_clocks 0) wh_state)) = 400 \<and>
   (\<exists>st3. guarded_ingest wh_receiver wh_deliver wh_endpoint (wh_request ''1'') (wh_clocks 5)
      (snd (guarded_ingest wh_receiver wh_deliver wh_endpoint (wh_request ''x'') (wh_clocks 0) wh_state)) =
      (json_response 200 [(''status'', PStr ''duplicate'')], st3) \<and> ig_world st3 = [])"
proof -
  let ?st1 = "snd (guarded_ingest wh_receiver wh_deliver wh_endpoint (wh_request ''x'') (wh_clocks 0) wh_state)"
  have r: "rs_status (fst (guarded_ingest wh_receiver wh_deliver wh_endpoint (wh_request ''x'') (wh_clocks 0) wh_state)) = 400"
    unfolding wh_defs by code_simp
  have b: "rs_body (fst (guarded_ingest wh_receiver wh_deliver wh_endpoint (wh_request ''x'') (wh_clocks 0) wh_state)) \<noteq>
      [(''status'', PStr ''duplicate'')]"
    unfolding wh_defs by code_simp
  have w: "ig_world ?st1 = []"
    unfolding wh_defs by code_simp
  have a: "admitted wh_receiver wh_endpoint (wh_request t) x t" if "length t \<le> 8" for t x
    using that by (auto simp: wh_defs admitted_def ip_allowed_def read_capped_def body_limit_def verify_signature_def)
  have d: "delivery_id (wh_request t) wh_endpoint = Some ''d''" for t
    unfolding wh_defs by code_simp
  have "\<exists>st3. guarded_ingest wh_receiver wh_deliver wh_endpoint (wh_request ''1'') (wh_clocks 5) ?st1 =
      (json_response 200 [(''status'', PStr ''duplicate'')], st3) \<and> ig_world st3 = ig_world ?st1 \<and> ig_tasks st3 = ig_tasks ?st1"
    by (rule redelivery_suppressed[where ds = "[]", OF surjective_pairing a b d d _ _ _ _ a])
      (simp_all add: deliveries_def wh_receiver_def wh_clocks_def)
  with r w show ?thesis by auto
qed

subsection \<open>Preprocessors\<close>

text \<open>A preprocessor that raises does not lose its delivery: the event is dispatched, with the payload as
  the preprocessor left it and the error in its metadata, and the sender gets a 202.\<close>

theorem failing_preprocessor_keeps_delivery:
  assumes "ep_preprocessor_fn e = Some f"
    and "ct = (case header_get (wr_headers rq) ''Content-Type'' of None \<Rightarrow> [] | Some t \<Rightarrow> t)"
    and "parse_body (rv_utf8 V) (rv_json V) (rv_parse_qsl V) body ct (ep_allow_non_json e) = Inr pl"
    and "f pl (if ep_accepts_ctx e then Some (webhook_ctx e rq ct) else None) = (Raised n m, pl')"
    and "rv_classify V = classify_event" and "rv_hook_type V \<in> set (rv_hook_types V)"
  shows "\<exists>ev rs. rs_status rs = 202 \<and> he_payload ev = rv_normalize V rq e pl' (he_event_type ev) \<and>
    dict_get (he_metadata ev) ''preprocessor_error'' = Some (PStr (n @ '': '' @ m)) \<and>
    parsed_delivery V (Some g) e rq body wall st =
      (rs, (if rv_background V then st\<lparr>ig_tasks := ig_tasks st @ [(ep_path e, ev)]\<rparr> else st\<lparr>ig_world := g ev (ig_world st)\<rparr>)
        \<lparr>ig_counters := (ig_counters st)\<lparr>es_preprocessor_errors := Suc (es_preprocessor_errors (ig_counters st)),
                                      es_accepted := Suc (es_accepted (ig_counters st))\<rparr>\<rparr>)"
proof -
  let ?pre = "failed_result pl' n m"
  have "classify_event rq e pl' \<noteq> None"
    unfolding classify_event_def by (simp split: option.split list.split)
  then obtain t where t: "rv_classify V rq e pl' = Some t" by (auto simp: assms(5))
  define et where "et = (case ep_event_type_prefix e of Some (p # ps) \<Rightarrow> (p # ps) @ ''.'' @ t | _ \<Rightarrow> t)"
  define ev where "ev = \<lparr>he_hook_id = rv_hook_id V, he_hook_type = rv_hook_type V, he_event_type = et,
      he_payload = rv_normalize V rq e pl' et, he_metadata = event_metadata V e rq (pp_metadata ?pre), he_timestamp = wall,
      he_target_type = or_opt (ep_target_type e) (rv_target_type V), he_target_id = or_opt (ep_target_id e) (rv_target_id V),
      he_task = or_opt None (rv_build_task V e et (rv_normalize V rq e pl' et))\<rparr>"
  have md: "dict_get (he_metadata ev) ''preprocessor_error'' = Some (PStr (n @ '': '' @ m))"
    by (simp add: ev_def failed_result_def plain_result_def event_metadata_def Let_def dict_setdefault_def
        split: option.split list.split)
  have "hook_event_new (rv_hook_types V) ev = Inr ev"
    using assms(6) by (simp add: hook_event_new_def is_hook_type_def ev_def)
  then have "parsed_delivery V (Some g) e rq body wall st =
      (json_response 202 [(''status'', PStr ''accepted''), (''event_type'', PStr et), (''hook_id'', PStr (rv_hook_id V)),
         (''preprocessor'', PStr ''failed'')],
       (if rv_background V then st\<lparr>ig_tasks := ig_tasks st @ [(ep_path e, ev)]\<rparr> else st\<lparr>ig_world := g ev (ig_world st)\<rparr>)
        \<lparr>ig_counters := (ig_counters st)\<lparr>es_preprocessor_errors := Suc (es_preprocessor_errors (ig_counters st)),
                                      es_accepted := Suc (es_accepted (ig_counters st))\<rparr>\<rparr>)"
    using assms(3,4)
    by (simp add: parsed_delivery_def assms(1) assms(2)[symmetric] run_preprocessor_def emit_delivery_def Let_def bump_def
        failed_result_def plain_result_def ev_def dispatch_event_def t et_def)
  with md show ?thesis
    by (intro exI[of _ ev] exI[of _ "json_response 202 [(''status'', PStr ''accepted''), (''event_type'', PStr et),
      (''hook_id'', PStr (rv_hook_id V)), (''preprocessor'', PStr ''failed'')]"]) (simp add: ev_def json_response_def)
qed

text \<open>A preprocessor that empties its payload and then raises.\<close>

theorem failing_preprocessor_keeps_delivery_witness:
  "ig_world (snd (parsed_delivery wh_receiver wh_deliver
     (wh_endpoint\<lparr>ep_preprocessor_fn := Some (\<lambda>pl ctx. (Raised ''E'' ''m'', []))\<rparr>) (wh_request ''1'') ''1'' wh_time wh_state)) = [[]]"
proof -
  let ?e = "wh_endpoint\<lparr>ep_preprocessor_fn := Some (\<lambda>pl ctx. (Raised ''E'' ''m'', []))\<rparr>"
  have "header_get (wr_headers (wh_request ''1'')) ''Content-Type'' = None"
    unfolding wh_defs by code_simp
  moreover have "parse_body (rv_utf8 wh_receiver) (rv_json wh_receiver) (rv_parse_qsl wh_receiver) ''1'' [] (ep_allow_non_json ?e) =
      Inr [(''k'', PInt 1)]"
    unfolding wh_defs by code_simp
  ultimately show ?thesis
    using failing_preprocessor_keeps_delivery[of ?e "\<lambda>pl ctx. (Raised ''E'' ''m'', [])" "[]" "wh_request ''1''" wh_receiver "''1''"
        "[(''k'', PInt 1)]" "''E''" "''m''" "[]" "\<lambda>ev w. w @ [he_payload ev]" wh_time wh_state]
    by (auto simp: wh_defs)
qed

subsection \<open>Routing\<close>

lemma strip_char_id:
  "t = [] \<or> hd t \<noteq> c \<and> List.last t \<noteq> c \<Longrightarrow> strip_char c t = t"
  by (auto simp: strip_char_def dropWhile_eq_self_iff[THEN iffD2] hd_rev)

lemma strip_char_ends: "strip_char c s = [] \<or> hd (strip_char c s) \<noteq> c \<and> List.last (strip_char c s) \<noteq> c"
proof -
  define t where "t = dropWhile (\<lambda>x. x = c) s"
  define u where "u = dropWhile (\<lambda>x. x = c) (rev t)"
  have "u \<noteq> [] \<Longrightarrow> hd u \<noteq> c" "t \<noteq> [] \<Longrightarrow> hd t \<noteq> c"
    using hd_dropWhile[of "\<lambda>x. x = c"] by (auto simp: t_def u_def)
  moreover have "u \<noteq> [] \<Longrightarrow> List.last u = hd t"
  proof -
    assume "u \<noteq> []"
    then have "List.last u = List.last (rev t)"
      unfolding u_def by (metis last_appendR takeWhile_dropWhile_id)
    with \<open>u \<noteq> []\<close> show ?thesis by (cases t) (auto simp: u_def)
  qed
  moreover have "u \<noteq> [] \<Longrightarrow> t \<noteq> []" by (auto simp: u_def)
  moreover have "strip_char c s = rev u" by (simp add: strip_char_def t_def u_def)
  ultimately show ?thesis by (cases "u = []") (simp_all add: hd_rev last_rev)
qed

lemma normalize_path_slash:
  "normalize_path p = Inr k \<Longrightarrow> \<exists>t. k = CHR ''/'' # strip_char (CHR ''/'') t"
proof -
  assume "normalize_path p = Inr k"
  then have "k = CHR ''/'' # strip_char (CHR ''/'') [] \<or> k = CHR ''/'' # strip_char (CHR ''/'') (py_strip p)"
    unfolding normalize_path_def Let_def by (simp split: if_splits) (simp add: strip_char_def)?
  then show ?thesis by blast
qed

lemma route_key_normalized: "normalize_path p = Inr k \<Longrightarrow> route_key k = k \<and> route_key (tl k) = k"
proof -
  assume "normalize_path p = Inr k"
  from normalize_path_slash[OF this] obtain t where k: "k = CHR ''/'' # strip_char (CHR ''/'') t" ..
  have "strip_char c (c # s) = strip_char c s" for c s by (simp add: strip_char_def)
  moreover have "strip_char c (strip_char c s) = strip_char c s" for c s
    by (rule strip_char_id[OF strip_char_ends])
  ultimately show ?thesis by (simp add: route_key_def k)
qed

lemma endpoint_new_path: "endpoint_new r n i e = Inr e2 \<Longrightarrow> normalize_path (ep_path e) = Inr (ep_path e2)"
  by (auto simp: endpoint_new_def Let_def bind_r_def split: if_splits sum.splits option.splits prod.splits)

text \<open>An endpoint that was registered is found under the path it was registered with and by the route key of
  a request for its path; after it is unregistered it is gone, and requests for it are answered 404.\<close>

theorem endpoint_routing:
  assumes "register_endpoint nets imported path scheme req e L = (Inr e2, L2)"
  shows "get_endpoint path L2 = Inr (Some e2) \<and> route_key (ep_path e2) = ep_path e2 \<and> route_key (tl (ep_path e2)) = ep_path e2 \<and>
    dict_get (ls_endpoints L2) (ep_path e2) = Some e2 \<and>
    (\<exists>L3. unregister_endpoint path L2 = (Inr (Some e2), L3) \<and> get_endpoint path L3 = Inr None \<and>
      (\<forall>deliver rq ck. route_key (wr_webhook_id rq) \<noteq> ep_path e2 \<or>
         handle_webhook deliver rq ck L3 = (json_error 404 ''unknown_endpoint'' [] [(''path'', PStr (ep_path e2))], L3)))"
proof -
  from assms have L2: "L2 = install e2 L" and "normalize_path path = Inr (ep_path e2)"
    by (auto simp: register_endpoint_def Let_def split: sum.splits dest!: endpoint_new_path)
  with route_key_normalized[OF this(2)] show ?thesis
    by (auto simp: get_endpoint_def unregister_endpoint_def install_def handle_webhook_def Let_def)
qed

definition wh_config :: "nat listener_config" where
  "wh_config = \<lparr>lc_name = ''w'', lc_enabled = True, lc_base_path = ''/b'', lc_endpoints = [], lc_max_body = 8, lc_max_inflight = 0,
     lc_background = False, lc_dedup_ttl = 60, lc_dedup_size = 4, lc_expose_list = False, lc_list_token = None,
     lc_default_scheme = ''s'', lc_default_require = False, lc_target_type = None, lc_target_id = None, lc_metadata = []\<rparr>"

definition wh_listener :: "(nat, pydict list) listener" where
  "wh_listener = \<lparr>ls_config = wh_config, ls_receiver = wh_receiver, ls_endpoints = [], ls_states = [], ls_cache = [],
     ls_tasks = [], ls_world = [], ls_inflight = 0\<rparr>"

theorem endpoint_routing_witness:
  "\<exists>e2. ep_path e2 = ''/a'' \<and>
     get_endpoint ''a/'' (snd (register_endpoint (\<lambda>t. None) (\<lambda>t. None) ''a/'' None None wh_endpoint wh_listener)) = Inr (Some e2)"
proof -
  let ?r = "register_endpoint (\<lambda>t. None) (\<lambda>t. None) ''a/'' None None wh_endpoint wh_listener"
  have ok: "\<not> isl (fst ?r)" "ep_path (projr (fst ?r)) = ''/a''"
    unfolding wh_listener_def wh_config_def wh_defs wh_scheme_def by code_simp+
  then have "?r = (Inr (projr (fst ?r)), snd ?r)" by (metis prod.collapse sum.collapse(2))
  from endpoint_routing[OF this] ok show ?thesis by blast
qed

end
