(* ===== verification/KeyedConfig.thy ===== *)
theory KeyedConfig
  imports QueueConfig PyValues
begin

text \<open>
  The models of queues/keyed/config.py: the configuration of a keyed queue with its validators, the
  message as stored in its hash, the outcome of a handler and the report of a drain.
\<close>

subsection \<open>Configuration\<close>

record keyed_config =
  kc_name :: string
  kc_signal :: queue_config
  kc_lock_ttl_ms :: int
  kc_call_timeout_ms :: int
  kc_max_attempts :: int
  kc_max_age_ms :: "int option"
  kc_retry_base_ms :: int
  kc_retry_max_ms :: int
  kc_retry_factor :: real
  kc_promote_batch :: int
  kc_pause_default_ttl_ms :: int
  kc_pause_poll_ms :: int
  kc_recover_interval_ms :: int
  kc_wait_safety_ms :: "int option"
  kc_prefix :: string

definition single_group :: "queue_config \<Rightarrow> bool" where
  "single_group q \<longleftrightarrow> length (qc_groups q) = 1"

definition check_timings :: "keyed_config \<Rightarrow> keyed_config result" where
  "check_timings c =
     (if qc_default_visibility_ms (kc_signal c) \<le> kc_lock_ttl_ms c
      then Inl (ValueError ''signal.default_visibility_timeout_ms must be greater than lock_ttl_ms'')
      else if kc_retry_base_ms c > kc_retry_max_ms c
      then Inl (ValueError ''retry_base_ms must be <= retry_max_ms'')
      else Inr c)"

definition keyed_fields_ok :: "keyed_config \<Rightarrow> bool" where
  "keyed_fields_ok c \<longleftrightarrow>
     kc_lock_ttl_ms c > 0 \<and> kc_call_timeout_ms c > 0 \<and> kc_max_attempts c \<ge> 0 \<and> (\<forall>n \<in> set_option (kc_max_age_ms c). n > 0) \<and>
     kc_retry_base_ms c > 0 \<and> kc_retry_max_ms c > 0 \<and> kc_retry_factor c \<ge> 1 \<and> kc_promote_batch c > 0 \<and>
     kc_pause_default_ttl_ms c > 0 \<and> kc_pause_poll_ms c > 0 \<and> kc_recover_interval_ms c > 0 \<and>
     (\<forall>n \<in> set_option (kc_wait_safety_ms c). n > 0)"

definition keyed_config_new :: "keyed_config \<Rightarrow> keyed_config result" where
  "keyed_config_new c =
     (if \<not> keyed_fields_ok c then Inl (ValueError ''field out of range'')
      else if \<not> single_group (kc_signal c) then Inl (ValueError ''signal queue must declare exactly one group'')
      else check_timings c)"

definition effective_wait_safety_ms :: "keyed_config \<Rightarrow> int" where
  "effective_wait_safety_ms c =
     (case kc_wait_safety_ms c of Some n \<Rightarrow> if n = 0 then kc_lock_ttl_ms c * 10 else n | None \<Rightarrow> kc_lock_ttl_ms c * 10)"

subsection \<open>Messages and outcomes\<close>

record keyed_message =
  km_message_id :: string
  km_key :: string
  km_body :: pydict
  km_order :: real
  km_created_ms :: int
  km_attempts :: int
  km_state :: string
  km_last_error :: "string option"
  km_wait_until_ms :: "int option"
  km_due_ms :: "int option"
  km_gen :: int

datatype outcome_kind = Ack | Retry | Wait | Hold

fun kind_name :: "outcome_kind \<Rightarrow> string" where
  "kind_name Ack = ''ack''" | "kind_name Retry = ''retry''" | "kind_name Wait = ''wait''" | "kind_name Hold = ''hold''"

record keyed_outcome =
  ko_kind :: outcome_kind
  ko_delay_ms :: "int option"
  ko_until_ms :: "int option"
  ko_reason :: "string option"

definition outcome_ack :: keyed_outcome where
  "outcome_ack = \<lparr>ko_kind = Ack, ko_delay_ms = None, ko_until_ms = None, ko_reason = None\<rparr>"

definition outcome_retry :: "int option \<Rightarrow> string option \<Rightarrow> keyed_outcome result" where
  "outcome_retry delay reason =
     (if \<exists>n \<in> set_option delay. n < 0 then Inl (ValueError ''delay_ms'')
      else Inr \<lparr>ko_kind = Retry, ko_delay_ms = delay, ko_until_ms = None, ko_reason = reason\<rparr>)"

definition outcome_wait :: "int option \<Rightarrow> string option \<Rightarrow> keyed_outcome" where
  "outcome_wait until reason = \<lparr>ko_kind = Wait, ko_delay_ms = None, ko_until_ms = until, ko_reason = reason\<rparr>"

definition outcome_hold :: "string \<Rightarrow> keyed_outcome result" where
  "outcome_hold reason =
     (if reason = [] then Inl (ValueError ''hold requires a non-empty reason'')
      else Inr \<lparr>ko_kind = Hold, ko_delay_ms = None, ko_until_ms = None, ko_reason = Some reason\<rparr>)"

record drain_report =
  dr_keys_seen :: nat
  dr_acked :: nat
  dr_retried :: nat
  dr_waited :: nat
  dr_held :: nat
  dr_busy :: nat
  dr_expired :: nat
  dr_stopped_early :: bool

definition drain_report_new :: drain_report where
  "drain_report_new = \<lparr>dr_keys_seen = 0, dr_acked = 0, dr_retried = 0, dr_waited = 0, dr_held = 0, dr_busy = 0,
     dr_expired = 0, dr_stopped_early = False\<rparr>"

end
