(* ===== verification/KeyedDb.thy ===== *)
theory KeyedDb
  imports KeyedConfig Complex_Main "HOL-Library.Product_Lexorder"
begin

text \<open>
  The Redis keys of one keyed queue (\<open>_Keys\<close> of queues/keyed/store.py) and the commands the queue
  sends to them, with \<open>WATCH\<close>/\<open>MULTI\<close>/\<open>EXEC\<close> and the lock of redis-py as the in-memory server of
  tests/queues/_fake_streams.py implements them: a key that is written gets a new version, an
  expired lock is dropped when it is looked at, and \<open>EXEC\<close> refuses when a watched version changed.

  Every key name of \<open>_Keys\<close> is a component of the record.  A hash keeps the values that were written
  into it (\<open>str\<close> of a number is read back by \<open>int(float(...))\<close> as that number); the text of a hold
  is kept as the object it encodes.  The life of a \<open>sig:<k>\<close> key as a whole is left out: its members
  have ended before the key does.
\<close>

subsection \<open>Sorted sets\<close>

type_synonym zset = "(string \<times> real) list"

definition zsorted :: "zset \<Rightarrow> zset" where
  "zsorted z = sort_key (\<lambda>(m, s). (s, m)) z"

definition zhead :: "zset \<Rightarrow> string option" where
  "zhead z = (case zsorted z of [] \<Rightarrow> None | (m, s) # _ \<Rightarrow> Some m)"

definition zrangebyscore :: "real \<Rightarrow> nat \<Rightarrow> zset \<Rightarrow> string list" where
  "zrangebyscore hi num z = take num (map fst (filter (\<lambda>(m, s). s \<le> hi) (zsorted z)))"

definition zremrangebyscore :: "real \<Rightarrow> zset \<Rightarrow> zset" where
  "zremrangebyscore hi z = filter (\<lambda>(m, s). \<not> s \<le> hi) z"

subsection \<open>The keys of a queue\<close>

text \<open>The keys that are watched somewhere.\<close>

datatype watched = LockOf string | MsgOf string | QueueOf string | LastScore

record keyed_db =
  kd_msgs :: "(string \<times> pydict) list"
  kd_queue :: "string \<Rightarrow> zset"
  kd_all :: zset
  kd_keys :: "string list"
  kd_delayed :: zset
  kd_held :: "(string \<times> pydict) list"
  kd_locks :: "(string \<times> string \<times> int) list"
  kd_sig :: "string \<Rightarrow> zset"
  kd_paused :: "(string \<times> int) option"
  kd_recover :: "(string \<times> int) option"
  kd_lastscore :: "real option"
  kd_versions :: "watched \<Rightarrow> nat"

definition keyed_db_new :: keyed_db where
  "keyed_db_new = \<lparr>kd_msgs = [], kd_queue = (\<lambda>_. []), kd_all = [], kd_keys = [], kd_delayed = [], kd_held = [], kd_locks = [],
     kd_sig = (\<lambda>_. []), kd_paused = None, kd_recover = None, kd_lastscore = None, kd_versions = (\<lambda>_. 0)\<rparr>"

definition bump_key :: "watched \<Rightarrow> keyed_db \<Rightarrow> keyed_db" where
  "bump_key w db = db\<lparr>kd_versions := (kd_versions db)(w := Suc (kd_versions db w))\<rparr>"

subsection \<open>Commands\<close>

text \<open>The commands that a transaction queues; also sent alone.\<close>

datatype command =
    HSetMsg string pydict
  | DelMsg string
  | ZAddQueue string string real
  | ZRemQueue string string
  | SAddKeys string
  | SRemKeys string
  | ZAddAll string real
  | ZRemAll string
  | ZAddDelayed string real
  | ZRemDelayed string
  | HSetHeld string pydict
  | HDelHeld string
  | SetLast real

definition hset :: "pydict \<Rightarrow> pydict \<Rightarrow> pydict" where
  "hset m h = fold (\<lambda>(f, v). dict_set f v) m h"

fun run_command :: "command \<Rightarrow> keyed_db \<Rightarrow> keyed_db" where
  "run_command (HSetMsg i m) db =
     bump_key (MsgOf i) (db\<lparr>kd_msgs := dict_set i (hset m (case dict_get (kd_msgs db) i of None \<Rightarrow> [] | Some h \<Rightarrow> h)) (kd_msgs db)\<rparr>)"
| "run_command (DelMsg i) db =
     (if dict_get (kd_msgs db) i = None then db else bump_key (MsgOf i) (db\<lparr>kd_msgs := dict_del i (kd_msgs db)\<rparr>))"
| "run_command (ZAddQueue k i s) db =
     bump_key (QueueOf k) (db\<lparr>kd_queue := (kd_queue db)(k := dict_set i s (kd_queue db k))\<rparr>)"
| "run_command (ZRemQueue k i) db =
     (if dict_get (kd_queue db k) i = None then db
      else bump_key (QueueOf k) (db\<lparr>kd_queue := (kd_queue db)(k := dict_del i (kd_queue db k))\<rparr>))"
| "run_command (SAddKeys k) db = db\<lparr>kd_keys := List.insert k (kd_keys db)\<rparr>"
| "run_command (SRemKeys k) db = db\<lparr>kd_keys := removeAll k (kd_keys db)\<rparr>"
| "run_command (ZAddAll i s) db = db\<lparr>kd_all := dict_set i s (kd_all db)\<rparr>"
| "run_command (ZRemAll i) db = db\<lparr>kd_all := dict_del i (kd_all db)\<rparr>"
| "run_command (ZAddDelayed k s) db = db\<lparr>kd_delayed := dict_set k s (kd_delayed db)\<rparr>"
| "run_command (ZRemDelayed k) db = db\<lparr>kd_delayed := dict_del k (kd_delayed db)\<rparr>"
| "run_command (HSetHeld k m) db = db\<lparr>kd_held := dict_set k m (kd_held db)\<rparr>"
| "run_command (HDelHeld k) db = db\<lparr>kd_held := dict_del k (kd_held db)\<rparr>"
| "run_command (SetLast s) db = bump_key LastScore (db\<lparr>kd_lastscore := Some s\<rparr>)"

definition run_commands :: "command list \<Rightarrow> keyed_db \<Rightarrow> keyed_db" where
  "run_commands cs db = fold run_command cs db"

subsection \<open>Locks\<close>

text \<open>A lock is a string key with its token and the instant it expires at.\<close>

definition expire_lock :: "int \<Rightarrow> string \<Rightarrow> keyed_db \<Rightarrow> keyed_db" where
  "expire_lock now k db =
     (case dict_get (kd_locks db) k of
        Some (_, due) \<Rightarrow> if now \<ge> due then bump_key (LockOf k) (db\<lparr>kd_locks := dict_del k (kd_locks db)\<rparr>) else db
      | None \<Rightarrow> db)"

definition get_lock :: "int \<Rightarrow> string \<Rightarrow> keyed_db \<Rightarrow> string option" where
  "get_lock now k db = map_option fst (dict_get (kd_locks (expire_lock now k db)) k)"

text \<open>\<open>SET lock token NX PX ttl\<close>, and the scripts of \<open>release\<close> and \<open>extend\<close>.\<close>

definition lock_acquire :: "int \<Rightarrow> int \<Rightarrow> string \<Rightarrow> string \<Rightarrow> keyed_db \<Rightarrow> bool \<times> keyed_db" where
  "lock_acquire now ttl token k db =
     (let db1 = expire_lock now k db
      in if dict_get (kd_locks db1) k \<noteq> None then (False, db1)
         else (True, bump_key (LockOf k) (db1\<lparr>kd_locks := dict_set k (token, now + ttl) (kd_locks db1)\<rparr>)))"

definition lock_release :: "int \<Rightarrow> string \<Rightarrow> string \<Rightarrow> keyed_db \<Rightarrow> bool \<times> keyed_db" where
  "lock_release now token k db =
     (let db1 = expire_lock now k db
      in if get_lock now k db \<noteq> Some token then (False, db1)
         else (True, bump_key (LockOf k) (db1\<lparr>kd_locks := dict_del k (kd_locks db1)\<rparr>)))"

definition lock_extend :: "int \<Rightarrow> int \<Rightarrow> string \<Rightarrow> string \<Rightarrow> keyed_db \<Rightarrow> bool \<times> keyed_db" where
  "lock_extend now ttl token k db =
     (let db1 = expire_lock now k db
      in if get_lock now k db \<noteq> Some token then (False, db1)
         else (True, bump_key (LockOf k) (db1\<lparr>kd_locks := dict_set k (token, now + ttl) (kd_locks db1)\<rparr>)))"

subsection \<open>Transactions\<close>

type_synonym snapshot = "(watched \<times> nat) list"

fun expire_watched :: "int \<Rightarrow> watched \<Rightarrow> keyed_db \<Rightarrow> keyed_db" where
  "expire_watched now (LockOf k) db = expire_lock now k db"
| "expire_watched now w db = db"

definition watch :: "int \<Rightarrow> watched list \<Rightarrow> keyed_db \<Rightarrow> snapshot \<times> keyed_db" where
  "watch now ws db = (let db1 = fold (expire_watched now) ws db in (map (\<lambda>w. (w, kd_versions db1 w)) ws, db1))"

text \<open>\<^const>\<open>False\<close> is a \<open>WatchError\<close>.\<close>

definition exec_txn :: "int \<Rightarrow> snapshot \<Rightarrow> command list \<Rightarrow> keyed_db \<Rightarrow> bool \<times> keyed_db" where
  "exec_txn now snap cs db =
     (let db1 = fold (expire_watched now) (map fst snap) db
      in if \<forall>(w, v) \<in> set snap. kd_versions db1 w = v then (True, run_commands cs db1) else (False, db1))"

end
