(* ===== verification/KeyedStore.thy ===== *)
theory KeyedStore
  imports KeyedDb Json Receipts
begin

text \<open>
  The keyed queue of queues/keyed/store.py over its Redis keys (\<open>KeyedDb\<close>) and its signal stream.
  The stream, the dead-letter callback and everything behind them are a state of any type and a
  record of the calls the queue makes on it.  Operations that fence a write with \<open>WATCH\<close> are cut
  there: \<open>..._begin\<close> watches, checks and queues the commands, \<open>..._finish\<close> is the \<open>EXEC\<close> and what
  follows.
\<close>

subsection \<open>Errors and messages\<close>

datatype keyed_exc = LeaseLost string | KeyedRaised py_exc

type_synonym 'a kresult = "keyed_exc + 'a"

definition raised :: "'a result \<Rightarrow> 'a kresult" where
  "raised = map_sum KeyedRaised id"

fun as_int :: "pyval \<Rightarrow> int result" where
  "as_int (PInt n) = Inr n"
| "as_int (PFloat r) = Inr \<lfloor>r\<rfloor>"
| "as_int _ = Inl (ValueError ''could not convert string to float'')"

fun as_real :: "pyval \<Rightarrow> real result" where
  "as_real (PInt n) = Inr (real_of_int n)"
| "as_real (PFloat r) = Inr r"
| "as_real _ = Inl (ValueError ''could not convert string to float'')"

fun as_text :: "pyval \<Rightarrow> string" where
  "as_text (PStr s) = s"
| "as_text (PInt n) = int_str n"
| "as_text _ = []"

fun as_mapping :: "pyval \<Rightarrow> pydict result" where
  "as_mapping (PDict d) = Inr d"
| "as_mapping _ = Inl (ValueError ''body'')"

definition field :: "pydict \<Rightarrow> string \<Rightarrow> pyval \<Rightarrow> pyval" where
  "field h f d = (case dict_get h f of None \<Rightarrow> d | Some v \<Rightarrow> v)"

fun opt_ms :: "pyval option \<Rightarrow> int option result" where
  "opt_ms None = Inr None"
| "opt_ms (Some (PStr [])) = Inr None"
| "opt_ms (Some v) = map_sum id Some (as_int v)"

text \<open>An empty text is no value: the \<open>x or None\<close> of the code.\<close>

definition or_none :: "string \<Rightarrow> string option" where
  "or_none s = (if s = [] then None else Some s)"

definition STATES :: "string list" where
  "STATES = [''pending'', ''leased'', ''waiting'', ''held'']"

definition to_message :: "json_codec \<Rightarrow> pydict \<Rightarrow> string \<Rightarrow> keyed_message result" where
  "to_message J raw message_id =
     bind_r (of_opt (KeyError ''key'') (dict_get raw ''key'')) (\<lambda>k.
     bind_r (loads J (as_text (field raw ''body'' (PStr ''{}'')))) (\<lambda>b.
     bind_r (as_real (field raw ''order'' (PInt 0))) (\<lambda>order.
     bind_r (as_int (field raw ''created_ms'' (PInt 0))) (\<lambda>created.
     bind_r (as_int (field raw ''attempts'' (PInt 0))) (\<lambda>attempts.
     bind_r (opt_ms (dict_get raw ''wait_until_ms'')) (\<lambda>wait_until.
     bind_r (opt_ms (dict_get raw ''due_ms'')) (\<lambda>due.
     bind_r (as_int (field raw ''gen'' (PInt 0))) (\<lambda>g.
     bind_r (as_mapping b) (\<lambda>d.
       if as_text (field raw ''state'' (PStr ''pending'')) \<notin> set STATES then Inl (ValueError ''state'')
       else Inr \<lparr>km_message_id = (if message_id = [] then as_text (field raw ''message_id'' (PStr [])) else message_id),
             km_key = as_text k, km_body = d, km_order = order, km_created_ms = created, km_attempts = attempts,
             km_state = as_text (field raw ''state'' (PStr ''pending'')),
             km_last_error = or_none (as_text (field raw ''last_error'' (PStr []))),
             km_wait_until_ms = wait_until, km_due_ms = due, km_gen = g\<rparr>)))))))))"

subsection \<open>The queue\<close>

text \<open>What the queue asks of its signal stream; errors that the code swallows have no reply.\<close>

record dead_letter =
  dl_topic :: string
  dl_payload :: pydict
  dl_metadata :: pydict
  dl_attempts :: int
  dl_error :: string
  dl_subscriber_id :: string

record group_state =
  gs_name :: string
  gs_lag :: "int option"
  gs_last :: string

record 'w signal_plane =
  sp_send :: "string \<Rightarrow> pydict \<Rightarrow> 'w \<Rightarrow> string result \<times> 'w"
  sp_receive :: "int \<Rightarrow> int \<Rightarrow> 'w \<Rightarrow> (pydict \<times> receipt) list result \<times> 'w"
  sp_delete :: "receipt \<Rightarrow> 'w \<Rightarrow> 'w"
  sp_visibility :: "receipt \<Rightarrow> int \<Rightarrow> 'w \<Rightarrow> bool \<times> 'w"
  sp_pending :: "receipt \<Rightarrow> 'w \<Rightarrow> bool \<times> 'w"
  sp_groups :: "'w \<Rightarrow> group_state list option \<times> 'w"
  sp_entry_after :: "string option \<Rightarrow> 'w \<Rightarrow> bool \<times> 'w"

record 'w keyed_queue =
  kq_config :: keyed_config
  kq_json :: json_codec
  kq_plane :: "'w signal_plane"
  kq_on_dlq :: "(dead_letter \<Rightarrow> 'w \<Rightarrow> 'w) option"
  kq_consumer :: string

definition keyed_queue_new ::
    "keyed_config \<Rightarrow> json_codec \<Rightarrow> 'w signal_plane \<Rightarrow> (dead_letter \<Rightarrow> 'w \<Rightarrow> 'w) option \<Rightarrow> string option \<Rightarrow> string \<Rightarrow>
     'w keyed_queue result" where
  "keyed_queue_new c J P on_dlq consumer_name fresh =
     bind_r (assert_prefixes_disjoint (kc_prefix c) ''evb:stream:'') (\<lambda>_.
     bind_r (assert_prefixes_disjoint (kc_prefix c) DEFAULT_QUEUE_PREFIX) (\<lambda>_.
       Inr \<lparr>kq_config = c, kq_json = J, kq_plane = P, kq_on_dlq = on_dlq,
            kq_consumer = (case consumer_name of Some (x # xs) \<Rightarrow> x # xs | _ \<Rightarrow> fresh)\<rparr>))"

record 'w keyed_state =
  kt_db :: keyed_db
  kt_world :: 'w
  kt_expired :: nat

definition on_db :: "(keyed_db \<Rightarrow> keyed_db) \<Rightarrow> 'w keyed_state \<Rightarrow> 'w keyed_state" where
  "on_db f st = st\<lparr>kt_db := f (kt_db st)\<rparr>"

text \<open>A call that replies and changes one part of the state.\<close>

definition with_db :: "(keyed_db \<Rightarrow> 'a \<times> keyed_db) \<Rightarrow> 'w keyed_state \<Rightarrow> 'a \<times> 'w keyed_state" where
  "with_db f st = (case f (kt_db st) of (x, db) \<Rightarrow> (x, st\<lparr>kt_db := db\<rparr>))"

definition with_world :: "('w \<Rightarrow> 'a \<times> 'w) \<Rightarrow> 'w keyed_state \<Rightarrow> 'a \<times> 'w keyed_state" where
  "with_world f st = (case f (kt_world st) of (x, w) \<Rightarrow> (x, st\<lparr>kt_world := w\<rparr>))"

subsection \<open>Signals\<close>

definition mark_signal :: "'w keyed_queue \<Rightarrow> int \<Rightarrow> string \<Rightarrow> string \<Rightarrow> 'w keyed_state \<Rightarrow> 'w keyed_state" where
  "mark_signal Q now key entry_id =
     on_db (\<lambda>db. db\<lparr>kd_sig := (kd_sig db)(key :=
       dict_set entry_id (real_of_int (now + qc_default_visibility_ms (kc_signal (kq_config Q)))) (kd_sig db key))\<rparr>)"

definition signal :: "'w keyed_queue \<Rightarrow> int \<Rightarrow> string \<Rightarrow> 'w keyed_state \<Rightarrow> unit kresult \<times> 'w keyed_state" where
  "signal Q now key st =
     (case with_world (sp_send (kq_plane Q) (''keyed.'' @ kc_name (kq_config Q) @ ''.signal'') [(''key'', PStr key)]) st of
        (Inl x, st1) \<Rightarrow> (Inl (KeyedRaised x), st1)
      | (Inr i, st1) \<Rightarrow> (Inr (), mark_signal Q now key i st1))"

definition ack_signal :: "'w keyed_queue \<Rightarrow> receipt option \<Rightarrow> string option \<Rightarrow> 'w keyed_state \<Rightarrow> 'w keyed_state" where
  "ack_signal Q rc key st =
     (case rc of
        None \<Rightarrow> st
      | Some r \<Rightarrow>
          (let st1 = st\<lparr>kt_world := sp_delete (kq_plane Q) r (kt_world st)\<rparr>
           in case key of
                None \<Rightarrow> st1
              | Some k \<Rightarrow> on_db (\<lambda>db. db\<lparr>kd_sig := (kd_sig db)(k := dict_del (rc_message_id r) (kd_sig db k))\<rparr>) st1))"

definition has_backlog :: "'w keyed_queue \<Rightarrow> 'w keyed_state \<Rightarrow> bool \<times> 'w keyed_state" where
  "has_backlog Q st =
     (case with_world (sp_groups (kq_plane Q)) st of
        (None, st1) \<Rightarrow> (False, st1)
      | (Some gs, st1) \<Rightarrow>
          (case find (\<lambda>g. gs_name g = qg_name (hd (qc_groups (kc_signal (kq_config Q))))) gs of
             Some g \<Rightarrow>
               if gs_lag g = Some 0 then (False, st1)
               else with_world (sp_entry_after (kq_plane Q) (Some (gs_last g))) st1
           | None \<Rightarrow> with_world (sp_entry_after (kq_plane Q) None) st1))"

definition release_lock :: "int \<Rightarrow> string \<Rightarrow> string \<Rightarrow> 'w keyed_state \<Rightarrow> 'w keyed_state" where
  "release_lock now token key = on_db (\<lambda>db. snd (lock_release now token key db))"

definition handoff_dlq :: "'w keyed_queue \<Rightarrow> keyed_message \<Rightarrow> string \<Rightarrow> 'w keyed_state \<Rightarrow> 'w keyed_state" where
  "handoff_dlq Q m err st =
     (case kq_on_dlq Q of
        None \<Rightarrow> st
      | Some f \<Rightarrow> st\<lparr>kt_world := f \<lparr>dl_topic = ''keyed.'' @ kc_name (kq_config Q) @ ''.dead'', dl_payload = km_body m,
          dl_metadata = [(''key'', PStr (km_key m)), (''message_id'', PStr (km_message_id m)),
                         (''created_ms'', PInt (km_created_ms m))],
          dl_attempts = km_attempts m, dl_error = err, dl_subscriber_id = ''keyed:'' @ kc_name (kq_config Q)\<rparr> (kt_world st)\<rparr>)"

end
