(* ===== verification/KeyedOps.thy ===== *)
theory KeyedOps
  imports KeyedStore
begin

text \<open>
  The operations of \<open>KeyedQueue\<close>: push, lease, apply, expiry, pause and the maintenance passes of
  queues/keyed/store.py.  \<open>now\<close> is \<open>now_ms()\<close>; a token is what redis-py draws for a lock.
\<close>

subsection \<open>Fencing\<close>

definition verify_fence ::
    "json_codec \<Rightarrow> int \<Rightarrow> string \<Rightarrow> string \<Rightarrow> string \<Rightarrow> int option \<Rightarrow> int option \<Rightarrow> keyed_db \<Rightarrow>
     (snapshot \<times> keyed_message) kresult \<times> keyed_db" where
  "verify_fence J now token key mid gen created_ms db =
     (case watch now [LockOf key, MsgOf mid] db of
        (snap, db1) \<Rightarrow>
          (if get_lock now key db1 \<noteq> Some token then (Inl (LeaseLost ''lock no longer owned''), db1)
           else (case dict_get (kd_msgs db1) mid of
                   None \<Rightarrow> (Inl (LeaseLost ''message no longer exists''), db1)
                 | Some [] \<Rightarrow> (Inl (LeaseLost ''message no longer exists''), db1)
                 | Some raw \<Rightarrow>
                     (case to_message J raw mid of
                        Inl x \<Rightarrow> (Inl (KeyedRaised x), db1)
                      | Inr m \<Rightarrow>
                          if \<exists>g \<in> set_option gen. km_gen m \<noteq> g then (Inl (LeaseLost ''message generation changed''), db1)
                          else if \<exists>c \<in> set_option created_ms. km_created_ms m \<noteq> c
                          then (Inl (LeaseLost ''message was recreated''), db1)
                          else (Inr (snap, m), db1)))))"

fun drop_key_tries :: "nat \<Rightarrow> int \<Rightarrow> string \<Rightarrow> keyed_db \<Rightarrow> bool \<times> keyed_db" where
  "drop_key_tries 0 now key db = (False, db)"
| "drop_key_tries (Suc n) now key db =
     (case watch now [QueueOf key] db of
        (snap, db1) \<Rightarrow>
          if kd_queue db1 key \<noteq> [] then (False, db1)
          else (case exec_txn now snap [SRemKeys key, ZRemDelayed key, HDelHeld key] db1 of
                  (True, db2) \<Rightarrow> (True, db2)
                | (False, db2) \<Rightarrow> drop_key_tries n now key db2))"

definition drop_key_if_empty :: "int \<Rightarrow> string \<Rightarrow> 'w keyed_state \<Rightarrow> 'w keyed_state" where
  "drop_key_if_empty now key = on_db (\<lambda>db. snd (drop_key_tries 2 now key db))"

text \<open>The instant a head may not be leased before; zero when it may be now.\<close>

definition head_deadline :: "int \<Rightarrow> bool \<Rightarrow> keyed_message \<Rightarrow> int" where
  "head_deadline now ignore_due m =
     (let wait_until = (case km_wait_until_ms m of None \<Rightarrow> 0 | Some n \<Rightarrow> n);
          due = (case km_due_ms m of None \<Rightarrow> 0 | Some n \<Rightarrow> n);
          deadline = (if km_state m = ''waiting'' \<and> wait_until > now then wait_until else 0)
      in if \<not> ignore_due \<and> due > now then max deadline due else deadline)"

definition reconcile :: "'w keyed_queue \<Rightarrow> int \<Rightarrow> string \<Rightarrow> 'w keyed_state \<Rightarrow> bool kresult \<times> 'w keyed_state" where
  "reconcile Q now key st =
     (case zhead (kd_queue (kt_db st) key) of
        None \<Rightarrow> (Inr False, drop_key_if_empty now key st)
      | Some mid \<Rightarrow>
          (case dict_get (kd_msgs (kt_db st)) mid of
             None \<Rightarrow> apfst (map_sum id (\<lambda>_. True)) (signal Q now key st)
           | Some [] \<Rightarrow> apfst (map_sum id (\<lambda>_. True)) (signal Q now key st)
           | Some raw \<Rightarrow>
               if dict_get (kd_held (kt_db st)) key \<noteq> None then (Inr False, on_db (run_command (ZRemDelayed key)) st)
               else (case to_message (kq_json Q) raw mid of
                       Inl x \<Rightarrow> (Inl (KeyedRaised x), st)
                     | Inr m \<Rightarrow>
                         (let deadline = head_deadline now False m
                          in if deadline \<noteq> 0
                             then (Inr False, on_db (run_command (ZAddDelayed key (real_of_int deadline))) st)
                             else apfst (map_sum id (\<lambda>_. True)) (signal Q now key (on_db (run_command (ZRemDelayed key)) st))))))"

subsection \<open>Push\<close>

datatype push_step = Existing | Write snapshot "command list"

definition push_commands :: "string \<Rightarrow> string \<Rightarrow> string \<Rightarrow> real \<Rightarrow> bool \<Rightarrow> int \<Rightarrow> command list" where
  "push_commands key mid body score explicit now =
     [HSetMsg mid [(''message_id'', PStr mid), (''key'', PStr key), (''body'', PStr body), (''order'', PFloat score),
        (''created_ms'', PInt now), (''attempts'', PInt 0), (''state'', PStr ''pending''), (''gen'', PInt 0)],
      ZAddQueue key mid score, SAddKeys key, ZAddAll mid (real_of_int now)] @
     (if explicit then [] else [SetLast score])"

definition push_begin ::
    "json_codec \<Rightarrow> int \<Rightarrow> string \<Rightarrow> pydict \<Rightarrow> string \<Rightarrow> real option \<Rightarrow> keyed_db \<Rightarrow> push_step kresult \<times> keyed_db" where
  "push_begin J now key body mid order db =
     (case watch now (MsgOf mid # (if order = None then [LastScore] else [])) db of
        (snap, db1) \<Rightarrow>
          (case Option.bind (dict_get (kd_msgs db1) mid) (\<lambda>h. dict_get h ''key'') of
             Some k \<Rightarrow> if as_text k \<noteq> key then (Inl (KeyedRaised (ValueError ''message_id already exists under key'')), db1)
                      else (Inr Existing, db1)
           | None \<Rightarrow>
               (let score = (case order of
                       Some s \<Rightarrow> s
                     | None \<Rightarrow> (case kd_lastscore db1 of
                           None \<Rightarrow> real_of_int now
                         | Some s \<Rightarrow> max (real_of_int now) (s + 1 / 1024)))
                in case dumps J (PDict body) of
                     Inl x \<Rightarrow> (Inl (KeyedRaised x), db1)
                   | Inr t \<Rightarrow> (Inr (Write snap (push_commands key mid t score (order \<noteq> None) now)), db1))))"

fun push_tries ::
    "nat \<Rightarrow> json_codec \<Rightarrow> int \<Rightarrow> string \<Rightarrow> pydict \<Rightarrow> string \<Rightarrow> real option \<Rightarrow> keyed_db \<Rightarrow> unit kresult \<times> keyed_db" where
  "push_tries 0 J now key body mid order db = (Inl (KeyedRaised (RuntimeError ''push lost 64 WATCH races'')), db)"
| "push_tries (Suc n) J now key body mid order db =
     (case push_begin J now key body mid order db of
        (Inl x, db1) \<Rightarrow> (Inl x, db1)
      | (Inr Existing, db1) \<Rightarrow> (Inr (), db1)
      | (Inr (Write snap cs), db1) \<Rightarrow>
          (case exec_txn now snap cs db1 of
             (True, db2) \<Rightarrow> (Inr (), db2)
           | (False, db2) \<Rightarrow> push_tries n J now key body mid order db2))"

definition push ::
    "'w keyed_queue \<Rightarrow> int \<Rightarrow> string \<Rightarrow> string \<Rightarrow> pydict \<Rightarrow> string option \<Rightarrow> real option \<Rightarrow> 'w keyed_state \<Rightarrow>
     string kresult \<times> 'w keyed_state" where
  "push Q now fresh key body message_id order st =
     (let mid = (case message_id of Some (c # cs) \<Rightarrow> c # cs | _ \<Rightarrow> fresh)
      in case with_db (push_tries 64 (kq_json Q) now key body mid order) st of
           (Inl x, st1) \<Rightarrow> (Inl x, st1)
         | (Inr _, st1) \<Rightarrow> apfst (map_sum id (\<lambda>_. mid)) (signal Q now key st1))"

subsection \<open>Expiry\<close>

definition expire_commands :: "string \<Rightarrow> keyed_message \<Rightarrow> keyed_db \<Rightarrow> command list" where
  "expire_commands key m db =
     [ZRemQueue key (km_message_id m), DelMsg (km_message_id m), ZRemAll (km_message_id m)] @
     (case dict_get (kd_held db) key of
        Some h \<Rightarrow> if dict_get h ''message_id'' = Some (PStr (km_message_id m)) then [HDelHeld key] else []
      | None \<Rightarrow> [])"

definition over_age :: "keyed_config \<Rightarrow> int \<Rightarrow> keyed_message \<Rightarrow> bool" where
  "over_age c now m \<longleftrightarrow> (case kc_max_age_ms c of None \<Rightarrow> False | Some age \<Rightarrow> \<not> km_created_ms m + age \<ge> now)"

text \<open>Fence, hand the message over, queue the removal.\<close>

definition expire_begin ::
    "'w keyed_queue \<Rightarrow> int \<Rightarrow> string \<Rightarrow> string \<Rightarrow> keyed_message \<Rightarrow> 'w keyed_state \<Rightarrow>
     (snapshot \<times> command list) kresult \<times> 'w keyed_state" where
  "expire_begin Q now token key m st =
     (case with_db (verify_fence (kq_json Q) now token key (km_message_id m) (Some (km_gen m)) (Some (km_created_ms m))) st of
        (Inl x, st1) \<Rightarrow> (Inl x, st1)
      | (Inr (snap, _), st1) \<Rightarrow>
          (let st2 = handoff_dlq Q m ''expired: max_age_ms exceeded'' st1
           in (Inr (snap, expire_commands key m (kt_db st2)), st2)))"

definition expire_finish :: "int \<Rightarrow> snapshot \<times> command list \<Rightarrow> 'w keyed_state \<Rightarrow> unit kresult \<times> 'w keyed_state" where
  "expire_finish now p st =
     (case with_db (exec_txn now (fst p) (snd p)) st of
        (True, st1) \<Rightarrow> (Inr (), st1)
      | (False, st1) \<Rightarrow> (Inl (LeaseLost ''key changed while expiring''), st1))"

text \<open>With the caller's lock, or one of its own.\<close>

definition expire_locked ::
    "'w keyed_queue \<Rightarrow> int \<Rightarrow> string \<Rightarrow> string \<Rightarrow> keyed_message \<Rightarrow> 'w keyed_state \<Rightarrow> unit kresult \<times> 'w keyed_state" where
  "expire_locked Q now token key m st =
     (case expire_begin Q now token key m st of
        (Inl x, st1) \<Rightarrow> (Inl x, st1)
      | (Inr p, st1) \<Rightarrow> expire_finish now p st1)"

definition expire_head ::
    "'w keyed_queue \<Rightarrow> int \<Rightarrow> string \<Rightarrow> keyed_message \<Rightarrow> string option \<Rightarrow> string \<Rightarrow> 'w keyed_state \<Rightarrow>
     bool kresult \<times> 'w keyed_state" where
  "expire_head Q now key m lock fresh st =
     (if \<not> over_age (kq_config Q) now m then (Inr False, st)
      else (case lock of
              Some token \<Rightarrow>
                (case expire_locked Q now token key m st of
                   (Inl x, st1) \<Rightarrow> (Inl x, st1)
                 | (Inr _, st1) \<Rightarrow> (Inr True, st1\<lparr>kt_expired := Suc (kt_expired st1)\<rparr>))
            | None \<Rightarrow>
                (case with_db (lock_acquire now (kc_lock_ttl_ms (kq_config Q)) fresh key) st of
                   (False, st1) \<Rightarrow> (Inr False, st1)
                 | (True, st1) \<Rightarrow>
                     (case expire_locked Q now fresh key m st1 of
                        (Inl x, st2) \<Rightarrow> (Inl x, release_lock now fresh key st2)
                      | (Inr _, st2) \<Rightarrow>
                          (Inr True, (release_lock now fresh key st2)\<lparr>kt_expired := Suc (kt_expired st2)\<rparr>)))))"

end
