(* ===== verification/KeyedLease.thy ===== *)
theory KeyedLease
  imports KeyedOps
begin

text \<open>
  Leasing the head of a key and applying the outcome: the second half of the core of
  queues/keyed/store.py.
\<close>

subsection \<open>Backoff\<close>

definition backoff_ms :: "int \<Rightarrow> int \<Rightarrow> int \<Rightarrow> real \<Rightarrow> int" where
  "backoff_ms attempts base_ms max_ms factor =
     (if base_ms \<ge> max_ms then max_ms
      else if attempts \<le> 0 \<or> factor \<le> 1 then base_ms
      else if real_of_int attempts \<ge> ln (real_of_int max_ms / real_of_int base_ms) / ln factor then max_ms
      else \<lfloor>min (real_of_int max_ms) (real_of_int base_ms * factor ^ nat attempts)\<rfloor>)"

subsection \<open>The lease of a key\<close>

record keyed_lease =
  kl_key :: string
  kl_message :: keyed_message
  kl_token :: string
  kl_gen :: int
  kl_receipt :: "receipt option"

datatype head_step = Again | Stop string | Granted keyed_message

text \<open>Fence and write the lease into the hash; the message as the lease holds it.\<close>

definition grant_begin ::
    "json_codec \<Rightarrow> int \<Rightarrow> string \<Rightarrow> string \<Rightarrow> string \<Rightarrow> keyed_message \<Rightarrow> keyed_db \<Rightarrow> (snapshot \<times> command list) kresult \<times> keyed_db" where
  "grant_begin J now token key mid m db =
     (case verify_fence J now token key mid (Some (km_gen m)) (Some (km_created_ms m)) db of
        (Inl x, db1) \<Rightarrow> (Inl x, db1)
      | (Inr (snap, _), db1) \<Rightarrow>
          (Inr (snap, [HSetMsg mid [(''gen'', PInt (km_gen m + 1)), (''state'', PStr ''leased''), (''wait_until_ms'', PStr []),
                 (''due_ms'', PStr [])]]), db1))"

definition granted_message :: "keyed_message \<Rightarrow> keyed_message" where
  "granted_message m = m\<lparr>km_gen := km_gen m + 1, km_state := ''leased'', km_wait_until_ms := None, km_due_ms := None\<rparr>"

text \<open>One turn of the loop over the head.\<close>

definition lease_step ::
    "'w keyed_queue \<Rightarrow> int \<Rightarrow> string \<Rightarrow> string \<Rightarrow> bool \<Rightarrow> 'w keyed_state \<Rightarrow> head_step kresult \<times> 'w keyed_state" where
  "lease_step Q now token key ignore_due st =
     (case zhead (kd_queue (kt_db st) key) of
        None \<Rightarrow> (Inr (Stop ''empty''), drop_key_if_empty now key st)
      | Some mid \<Rightarrow>
          (case dict_get (kd_msgs (kt_db st)) mid of
             None \<Rightarrow> (Inr Again, on_db (run_commands [ZRemQueue key mid, ZRemAll mid]) st)
           | Some [] \<Rightarrow> (Inr Again, on_db (run_commands [ZRemQueue key mid, ZRemAll mid]) st)
           | Some raw \<Rightarrow>
               (case to_message (kq_json Q) raw mid of
                  Inl x \<Rightarrow> (Inl (KeyedRaised x), st)
                | Inr m \<Rightarrow>
                    (case expire_head Q now key m (Some token) [] st of
                       (Inl (LeaseLost t), st1) \<Rightarrow> (Inr (Stop ''busy''), st1)
                     | (Inl (KeyedRaised x), st1) \<Rightarrow> (Inl (KeyedRaised x), st1)
                     | (Inr True, st1) \<Rightarrow> (Inr Again, st1)
                     | (Inr False, st1) \<Rightarrow>
                         if dict_get (kd_held (kt_db st1)) key \<noteq> None then (Inr (Stop ''held''), st1)
                         else (let deadline = head_deadline now ignore_due m
                               in if deadline \<noteq> 0
                                  then (Inr (Stop ''waiting''), on_db (run_command (ZAddDelayed key (real_of_int deadline))) st1)
                                  else (case with_db (grant_begin (kq_json Q) now token key mid m) st1 of
                                          (Inl (LeaseLost t), st2) \<Rightarrow> (Inr (Stop ''busy''), st2)
                                        | (Inl (KeyedRaised x), st2) \<Rightarrow> (Inl (KeyedRaised x), st2)
                                        | (Inr (snap, cs), st2) \<Rightarrow>
                                            (case with_db (exec_txn now snap cs) st2 of
                                               (False, st3) \<Rightarrow> (Inr (Stop ''busy''), st3)
                                             | (True, st3) \<Rightarrow> (Inr (Granted (granted_message m)), st3))))))))"

text \<open>A turn that does not end the loop takes a member from the set.\<close>

lemma bump_key_simps [simp]:
  "kd_msgs (bump_key w db) = kd_msgs db" "kd_queue (bump_key w db) = kd_queue db" "kd_all (bump_key w db) = kd_all db"
  "kd_keys (bump_key w db) = kd_keys db" "kd_delayed (bump_key w db) = kd_delayed db" "kd_held (bump_key w db) = kd_held db"
  "kd_locks (bump_key w db) = kd_locks db" "kd_sig (bump_key w db) = kd_sig db" "kd_paused (bump_key w db) = kd_paused db"
  "kd_recover (bump_key w db) = kd_recover db" "kd_lastscore (bump_key w db) = kd_lastscore db"
  by (simp_all add: bump_key_def)

lemma expire_lock_simps [simp]:
  "kd_msgs (expire_lock now k db) = kd_msgs db" "kd_queue (expire_lock now k db) = kd_queue db"
  "kd_all (expire_lock now k db) = kd_all db" "kd_keys (expire_lock now k db) = kd_keys db"
  "kd_delayed (expire_lock now k db) = kd_delayed db" "kd_held (expire_lock now k db) = kd_held db"
  "kd_sig (expire_lock now k db) = kd_sig db" "kd_paused (expire_lock now k db) = kd_paused db"
  "kd_recover (expire_lock now k db) = kd_recover db" "kd_lastscore (expire_lock now k db) = kd_lastscore db"
  by (auto simp: expire_lock_def split: option.split)

lemma expire_lock_idem [simp]: "expire_lock now k (expire_lock now k db) = expire_lock now k db"
  by (auto simp: expire_lock_def split: option.split)

lemma verify_fence_db:
  "snd (verify_fence J now token key mid g c db) = expire_lock now key db"
  by (auto simp: verify_fence_def watch_def Let_def split: option.split list.split sum.split)

lemma verify_fence_snapshot:
  "verify_fence J now token key mid g c db = (Inr (snap, m), db1) \<Longrightarrow>
   db1 = expire_lock now key db \<and> snap = [(LockOf key, kd_versions db1 (LockOf key)), (MsgOf mid, kd_versions db1 (MsgOf mid))]"
  by (auto simp: verify_fence_def watch_def Let_def split: option.splits list.splits sum.splits if_splits)

lemma exec_fence:
  "exec_txn now [(LockOf key, kd_versions (expire_lock now key db) (LockOf key)),
     (MsgOf mid, kd_versions (expire_lock now key db) (MsgOf mid))] cs (expire_lock now key db) =
   (True, run_commands cs (expire_lock now key db))"
  by (simp add: exec_txn_def Let_def)

lemma verify_fence_found:
  "verify_fence J now token key mid g c db = (Inr (snap, m), db1) \<Longrightarrow>
   get_lock now key db = Some token \<and> (\<exists>raw. raw \<noteq> [] \<and> dict_get (kd_msgs db) mid = Some raw \<and> to_message J raw mid = Inr m) \<and>
   (\<forall>x \<in> set_option g. km_gen m = x) \<and> (\<forall>x \<in> set_option c. km_created_ms m = x)"
  by (auto simp: verify_fence_def watch_def Let_def get_lock_def split: option.splits list.splits sum.splits if_splits)

lemma dict_del_none: "dict_get d k = None \<Longrightarrow> dict_del k d = d"
  by (induction d) (auto simp: dict_del_def split: if_splits)

lemma dict_del_length: "length (dict_del k d) \<le> length d"
  by (simp add: dict_del_def)

lemma dict_del_shorter: "dict_get d k \<noteq> None \<Longrightarrow> length (dict_del k d) < length d"
  by (induction d) (auto simp: dict_del_def less_Suc_eq_le split: if_splits)

lemma expire_locked_removes:
  assumes "expire_locked Q now token key m st = (Inr u, st1)"
  shows "kd_queue (kt_db st1) = (kd_queue (kt_db st))(key := dict_del (km_message_id m) (kd_queue (kt_db st) key)) \<and>
    kd_msgs (kt_db st1) = dict_del (km_message_id m) (kd_msgs (kt_db st)) \<and> dict_get (kd_msgs (kt_db st)) (km_message_id m) \<noteq> None"
proof -
  obtain snap m2 db1 where v: "verify_fence (kq_json Q) now token key (km_message_id m) (Some (km_gen m)) (Some (km_created_ms m))
      (kt_db st) = (Inr (snap, m2), db1)"
    using assms by (auto simp: expire_locked_def expire_begin_def with_db_def split: prod.splits sum.splits)
  from verify_fence_snapshot[OF v] verify_fence_found[OF v] assms v show ?thesis
    by (auto simp: expire_locked_def expire_begin_def expire_finish_def with_db_def exec_fence handoff_dlq_def
        expire_commands_def run_commands_def dict_del_none split: option.splits if_splits)
qed

lemma zhead_in: "zhead z = Some m \<Longrightarrow> dict_get z m \<noteq> None"
proof -
  assume "zhead z = Some m"
  then obtain s r where "zsorted z = (m, s) # r"
    by (auto simp: zhead_def split: list.splits)
  then have "(m, s) \<in> set (zsorted z)" by simp
  then show ?thesis by (auto simp: zsorted_def map_of_eq_None_iff intro: rev_image_eqI)
qed

definition lease_measure :: "string \<Rightarrow> 'w keyed_state \<Rightarrow> nat" where
  "lease_measure key st = length (kd_queue (kt_db st) key) + length (kd_msgs (kt_db st))"

lemma lease_step_again:
  assumes "lease_step Q now token key ignore_due st = (Inr Again, st1)"
  shows "lease_measure key st1 < lease_measure key st"
proof -
  obtain mid where z: "zhead (kd_queue (kt_db st) key) = Some mid"
    using assms by (auto simp: lease_step_def split: option.splits)
  show ?thesis
  proof (cases "dict_get (kd_msgs (kt_db st)) mid \<in> {None, Some []}")
    case True
    with z assms zhead_in[OF z] dict_del_shorter[of "kd_queue (kt_db st) key" mid] show ?thesis
      by (auto simp: lease_step_def lease_measure_def on_db_def run_commands_def)
  next
    case False
    then obtain c raw where raw: "dict_get (kd_msgs (kt_db st)) mid = Some (c # raw)"
      by (cases "dict_get (kd_msgs (kt_db st)) mid") (auto simp: neq_Nil_conv)
    obtain m where m: "to_message (kq_json Q) (c # raw) mid = Inr m"
      using assms z raw by (auto simp: lease_step_def split: sum.splits)
    have "expire_head Q now key m (Some token) [] st = (Inr True, st1)"
      using assms by (auto simp: lease_step_def z raw m Let_def split: prod.splits sum.splits bool.splits keyed_exc.splits if_splits)
    then obtain u st2 where "expire_locked Q now token key m st = (Inr u, st2)" "st1 = st2\<lparr>kt_expired := Suc (kt_expired st2)\<rparr>"
      by (auto simp: expire_head_def split: if_splits prod.splits sum.splits)
    with expire_locked_removes[OF this(1)] dict_del_shorter[of "kd_msgs (kt_db st)" "km_message_id m"]
      dict_del_length[of "km_message_id m" "kd_queue (kt_db st) key"]
    show ?thesis by (simp add: lease_measure_def)
  qed
qed

text \<open>The loop, and the lock around it.\<close>

function lease_locked ::
    "'w keyed_queue \<Rightarrow> int \<Rightarrow> string \<Rightarrow> string \<Rightarrow> bool \<Rightarrow> 'w keyed_state \<Rightarrow> (string + keyed_message) kresult \<times> 'w keyed_state" where
  "lease_locked Q now token key ignore_due st =
     (case lease_step Q now token key ignore_due st of
        (Inl x, st1) \<Rightarrow> (Inl x, st1)
      | (Inr Again, st1) \<Rightarrow> lease_locked Q now token key ignore_due st1
      | (Inr (Stop reason), st1) \<Rightarrow> (Inr (Inl reason), st1)
      | (Inr (Granted m), st1) \<Rightarrow> (Inr (Inr m), st1))"
  by pat_completeness auto

termination
  by (relation "measure (\<lambda>(Q, now, token, key, ignore_due, st). lease_measure key st)")
    (simp, auto dest: lease_step_again[OF sym])

declare lease_locked.simps [simp del]

definition lease_key_detailed ::
    "'w keyed_queue \<Rightarrow> int \<Rightarrow> string \<Rightarrow> string \<Rightarrow> receipt option \<Rightarrow> bool \<Rightarrow> 'w keyed_state \<Rightarrow>
     (string + keyed_lease) kresult \<times> 'w keyed_state" where
  "lease_key_detailed Q now token key rc ignore_due st =
     (case with_db (lock_acquire now (kc_lock_ttl_ms (kq_config Q)) token key) st of
        (False, st1) \<Rightarrow> (Inr (Inl ''busy''), ack_signal Q rc (Some key) st1)
      | (True, st1) \<Rightarrow>
          (case lease_locked Q now token key ignore_due st1 of
             (Inl x, st2) \<Rightarrow> (Inl x, release_lock now token key st2)
           | (Inr (Inl reason), st2) \<Rightarrow> (Inr (Inl reason), ack_signal Q rc (Some key) (release_lock now token key st2))
           | (Inr (Inr m), st2) \<Rightarrow>
               (Inr (Inr \<lparr>kl_key = key, kl_message = m, kl_token = token, kl_gen = km_gen m, kl_receipt = rc\<rparr>), st2)))"

definition lease_key ::
    "'w keyed_queue \<Rightarrow> int \<Rightarrow> string \<Rightarrow> string \<Rightarrow> receipt option \<Rightarrow> 'w keyed_state \<Rightarrow>
     keyed_lease option kresult \<times> 'w keyed_state" where
  "lease_key Q now token key rc st =
     apfst (map_sum id (\<lambda>r. case r of Inl _ \<Rightarrow> None | Inr l \<Rightarrow> Some l)) (lease_key_detailed Q now token key rc False st)"

end
