(* ===== verification/KeyedApply.thy ===== *)
theory KeyedApply
  imports KeyedLease
begin

text \<open>
  The rest of \<open>KeyedQueue\<close> (queues/keyed/store.py): the lease over the signal stream, \<open>extend\<close>,
  the outcomes, pause, promotion of due keys, recovery of lost signals, holds and introspection.
\<close>

subsection \<open>Pause\<close>

definition pause :: "'w keyed_queue \<Rightarrow> int \<Rightarrow> int option \<Rightarrow> string \<Rightarrow> 'w keyed_state \<Rightarrow> 'w keyed_state" where
  "pause Q now ttl_ms reason =
     on_db (\<lambda>db. db\<lparr>kd_paused := Some (if reason = [] then ''paused'' else reason,
       now + (case ttl_ms of Some n \<Rightarrow> if n = 0 then kc_pause_default_ttl_ms (kq_config Q) else n
              | None \<Rightarrow> kc_pause_default_ttl_ms (kq_config Q)))\<rparr>)"

definition resume :: "'w keyed_state \<Rightarrow> 'w keyed_state" where
  "resume = on_db (\<lambda>db. db\<lparr>kd_paused := None\<rparr>)"

definition is_paused :: "int \<Rightarrow> 'w keyed_state \<Rightarrow> string option" where
  "is_paused now st = (case kd_paused (kt_db st) of None \<Rightarrow> None | Some (reason, due) \<Rightarrow> if now \<ge> due then None else Some reason)"

subsection \<open>Leasing through the signals\<close>

definition MAX_SIGNALS_PER_LEASE :: nat where
  "MAX_SIGNALS_PER_LEASE = 16"

text \<open>\<open>tokens n\<close> is the token drawn for the n-th signal.\<close>

fun lease_signals ::
    "nat \<Rightarrow> 'w keyed_queue \<Rightarrow> int \<Rightarrow> int \<Rightarrow> (nat \<Rightarrow> string) \<Rightarrow> 'w keyed_state \<Rightarrow> keyed_lease option kresult \<times> 'w keyed_state" where
  "lease_signals 0 Q now wait_ms tokens st = (Inr None, st)"
| "lease_signals (Suc n) Q now wait_ms tokens st =
     (if is_paused now st \<noteq> None then (Inr None, st)
      else (case with_world (sp_receive (kq_plane Q) now wait_ms) st of
              (Inl x, st1) \<Rightarrow> (Inl (KeyedRaised x), st1)
            | (Inr [], st1) \<Rightarrow> (Inr None, st1)
            | (Inr ((body, rc) # _), st1) \<Rightarrow>
                if is_paused now st1 \<noteq> None
                then (Inr None, snd (with_world (sp_visibility (kq_plane Q) rc 0) st1))
                else (let key = as_text (field body ''key'' PNone)
                      in if key = [] then lease_signals n Q now 0 tokens (ack_signal Q (Some rc) None st1)
                         else (case lease_key Q now (tokens n) key (Some rc) (mark_signal Q now key (rc_message_id rc) st1) of
                                 (Inl x, st2) \<Rightarrow> (Inl x, st2)
                               | (Inr (Some l), st2) \<Rightarrow> (Inr (Some l), st2)
                               | (Inr None, st2) \<Rightarrow> lease_signals n Q now 0 tokens st2))))"

definition lease ::
    "'w keyed_queue \<Rightarrow> int \<Rightarrow> int \<Rightarrow> (nat \<Rightarrow> string) \<Rightarrow> 'w keyed_state \<Rightarrow> keyed_lease option kresult \<times> 'w keyed_state" where
  "lease Q now wait_ms tokens st = lease_signals MAX_SIGNALS_PER_LEASE Q now wait_ms tokens st"

definition extend_lease ::
    "'w keyed_queue \<Rightarrow> int \<Rightarrow> int option \<Rightarrow> keyed_lease \<Rightarrow> 'w keyed_state \<Rightarrow> unit kresult \<times> 'w keyed_state" where
  "extend_lease Q now additional_ms l st =
     (let ttl = kc_lock_ttl_ms (kq_config Q); ms = (case additional_ms of None \<Rightarrow> ttl | Some n \<Rightarrow> n)
      in if ms \<le> 0 \<or> ms > ttl then (Inl (KeyedRaised (ValueError ''additional_ms must be in (0, lock_ttl_ms]'')), st)
         else (case with_db (lock_extend now ms (kl_token l) (kl_key l)) st of
                 (False, st1) \<Rightarrow> (Inl (LeaseLost ''lock lost''), st1)
               | (True, st1) \<Rightarrow>
                   (case kl_receipt l of
                      None \<Rightarrow> (Inr (), st1)
                    | Some rc \<Rightarrow>
                        (let sig = kc_signal (kq_config Q);
                             visibility = min (max (ms + (qc_default_visibility_ms sig - ttl)) (ms + 1)) (qc_max_visibility_ms sig)
                         in case with_world (sp_visibility (kq_plane Q) rc visibility) st1 of
                              (False, st2) \<Rightarrow> (Inr (), st2)
                            | (True, st2) \<Rightarrow>
                                (case with_world (sp_pending (kq_plane Q) rc) st2 of
                                   (False, st3) \<Rightarrow> (Inr (), st3)
                                 | (True, st3) \<Rightarrow> (Inr (), mark_signal Q now (kl_key l) (rc_message_id rc) st3))))))"

subsection \<open>Outcomes\<close>

definition or_text :: "string option \<Rightarrow> string \<Rightarrow> string" where
  "or_text r d = (case r of Some (c # cs) \<Rightarrow> c # cs | _ \<Rightarrow> d)"

definition reason_value :: "string option \<Rightarrow> pyval" where
  "reason_value r = (case r of None \<Rightarrow> PNone | Some t \<Rightarrow> PStr t)"

text \<open>What becomes of the outcome: a retry too many is an acknowledgement and a dead letter.\<close>

definition effective_kind :: "keyed_config \<Rightarrow> keyed_outcome \<Rightarrow> keyed_message \<Rightarrow> outcome_kind \<times> (keyed_message \<times> string) option" where
  "effective_kind c out m =
     (if ko_kind out = Retry \<and> kc_max_attempts c > 0 \<and> km_attempts m + 1 > kc_max_attempts c
      then (Ack, Some (m\<lparr>km_attempts := km_attempts m + 1\<rparr>, or_text (ko_reason out) ''max_attempts exceeded''))
      else (ko_kind out, None))"

definition outcome_commands ::
    "keyed_config \<Rightarrow> int \<Rightarrow> string \<Rightarrow> string \<Rightarrow> keyed_outcome \<Rightarrow> keyed_message \<Rightarrow> outcome_kind \<Rightarrow> command list" where
  "outcome_commands c now key mid out m kind =
     (case kind of
        Ack \<Rightarrow> [ZRemQueue key mid, DelMsg mid, ZRemAll mid]
      | Retry \<Rightarrow>
          (let delay = (case ko_delay_ms out of Some d \<Rightarrow> d
                 | None \<Rightarrow> backoff_ms (km_attempts m) (kc_retry_base_ms c) (kc_retry_max_ms c) (kc_retry_factor c));
               due = now + delay
           in [HSetMsg mid [(''attempts'', PInt (km_attempts m + 1)), (''due_ms'', PInt due),
                 (''last_error'', PStr (or_text (ko_reason out) [])), (''state'', PStr ''pending'')],
               ZAddDelayed key (real_of_int due)])
      | Wait \<Rightarrow>
          (let until = (case ko_until_ms out of Some u \<Rightarrow> u | None \<Rightarrow> now + effective_wait_safety_ms c)
           in [HSetMsg mid [(''state'', PStr ''waiting''), (''wait_until_ms'', PInt until),
                 (''last_error'', PStr (or_text (ko_reason out) []))],
               ZAddDelayed key (real_of_int until)])
      | Hold \<Rightarrow>
          [HSetHeld key [(''reason'', reason_value (ko_reason out)), (''since_ms'', PInt now), (''message_id'', PStr mid)],
           HSetMsg mid [(''state'', PStr ''held''), (''last_error'', PStr (or_text (ko_reason out) []))]])"

definition apply_begin ::
    "'w keyed_queue \<Rightarrow> int \<Rightarrow> keyed_lease \<Rightarrow> keyed_outcome \<Rightarrow> 'w keyed_state \<Rightarrow>
     (snapshot \<times> command list \<times> outcome_kind) kresult \<times> 'w keyed_state" where
  "apply_begin Q now l out st =
     (let key = kl_key l; mid = km_message_id (kl_message l)
      in case with_db (verify_fence (kq_json Q) now (kl_token l) key mid (Some (kl_gen l)) None) st of
           (Inl x, st1) \<Rightarrow> (Inl x, st1)
         | (Inr (snap, current), st1) \<Rightarrow>
             (case effective_kind (kq_config Q) out current of
                (kind, dead) \<Rightarrow>
                  (let st2 = (case dead of None \<Rightarrow> st1 | Some (m, err) \<Rightarrow> handoff_dlq Q m err st1)
                   in (Inr (snap, outcome_commands (kq_config Q) now key mid out current kind, kind), st2))))"

definition apply_finish ::
    "'w keyed_queue \<Rightarrow> int \<Rightarrow> keyed_lease \<Rightarrow> snapshot \<times> command list \<times> outcome_kind \<Rightarrow> 'w keyed_state \<Rightarrow>
     unit kresult \<times> 'w keyed_state" where
  "apply_finish Q now l p st =
     (case p of (snap, cs, kind) \<Rightarrow>
       (case with_db (exec_txn now snap cs) st of
          (False, st1) \<Rightarrow> (Inl (LeaseLost ''superseded during apply''), st1)
        | (True, st1) \<Rightarrow>
            (let st2 = release_lock now (kl_token l) (kl_key l) st1
             in case (if kind \<noteq> Hold then reconcile Q now (kl_key l) st2 else (Inr False, st2)) of
                  (Inl x, st3) \<Rightarrow> (Inl x, st3)
                | (Inr _, st3) \<Rightarrow> (Inr (), ack_signal Q (kl_receipt l) (Some (kl_key l)) st3))))"

definition apply_outcome ::
    "'w keyed_queue \<Rightarrow> int \<Rightarrow> keyed_lease \<Rightarrow> keyed_outcome \<Rightarrow> 'w keyed_state \<Rightarrow> unit kresult \<times> 'w keyed_state" where
  "apply_outcome Q now l out st =
     (case apply_begin Q now l out st of
        (Inl x, st1) \<Rightarrow> (Inl x, st1)
      | (Inr p, st1) \<Rightarrow> apply_finish Q now l p st1)"

subsection \<open>Maintenance\<close>

fun promote_keys :: "'w keyed_queue \<Rightarrow> int \<Rightarrow> string list \<Rightarrow> nat \<Rightarrow> 'w keyed_state \<Rightarrow> nat kresult \<times> 'w keyed_state" where
  "promote_keys Q now [] sent st = (Inr sent, st)"
| "promote_keys Q now (k # ks) sent st =
     (if dict_get (kd_delayed (kt_db st)) k = None then promote_keys Q now ks sent st
      else (case signal Q now k (on_db (run_command (ZRemDelayed k)) st) of
              (Inl x, st1) \<Rightarrow> (Inl x, st1)
            | (Inr _, st1) \<Rightarrow> promote_keys Q now ks (Suc sent) st1))"

definition promote_due :: "'w keyed_queue \<Rightarrow> int \<Rightarrow> int option \<Rightarrow> 'w keyed_state \<Rightarrow> nat kresult \<times> 'w keyed_state" where
  "promote_due Q now limit st =
     (let batch = (case limit of Some n \<Rightarrow> if n = 0 then kc_promote_batch (kq_config Q) else n | None \<Rightarrow> kc_promote_batch (kq_config Q))
      in promote_keys Q now (zrangebyscore (real_of_int now) (nat batch) (kd_delayed (kt_db st))) 0 st)"

definition PIPELINE_CHUNK :: nat where
  "PIPELINE_CHUNK = 500"

text \<open>The pipelined checks of a chunk: expired markers go, then live markers and the lock are asked for.\<close>

definition orphan_flags :: "int \<Rightarrow> string list \<Rightarrow> keyed_db \<Rightarrow> (string \<times> bool) list \<times> keyed_db" where
  "orphan_flags now names db =
     (let db1 = db\<lparr>kd_sig := (\<lambda>k. if k \<in> set names then zremrangebyscore (real_of_int now) (kd_sig db k) else kd_sig db k)\<rparr>
      in (map (\<lambda>k. (k, kd_sig db1 k \<noteq> [] \<or> get_lock now k db1 \<noteq> None)) names, fold (expire_lock now) names db1))"

fun reconcile_orphans :: "'w keyed_queue \<Rightarrow> int \<Rightarrow> (string \<times> bool) list \<Rightarrow> nat \<Rightarrow> 'w keyed_state \<Rightarrow> nat kresult \<times> 'w keyed_state" where
  "reconcile_orphans Q now [] sent st = (Inr sent, st)"
| "reconcile_orphans Q now ((k, skip) # ks) sent st =
     (if skip then reconcile_orphans Q now ks sent st
      else (case reconcile Q now k st of
              (Inl x, st1) \<Rightarrow> (Inl x, st1)
            | (Inr b, st1) \<Rightarrow> reconcile_orphans Q now ks (if b then Suc sent else sent) st1))"

fun recover_chunks :: "nat \<Rightarrow> 'w keyed_queue \<Rightarrow> int \<Rightarrow> string list \<Rightarrow> nat \<Rightarrow> 'w keyed_state \<Rightarrow> nat kresult \<times> 'w keyed_state" where
  "recover_chunks 0 Q now names sent st = (Inr sent, st)"
| "recover_chunks (Suc n) Q now names sent st =
     (if names = [] then (Inr sent, st)
      else (case with_db (orphan_flags now (take PIPELINE_CHUNK names)) st of
              (flags, st1) \<Rightarrow>
                (case reconcile_orphans Q now flags sent st1 of
                   (Inl x, st2) \<Rightarrow> (Inl x, st2)
                 | (Inr sent2, st2) \<Rightarrow> recover_chunks n Q now (drop PIPELINE_CHUNK names) sent2 st2)))"

definition recover :: "'w keyed_queue \<Rightarrow> int \<Rightarrow> bool \<Rightarrow> 'w keyed_state \<Rightarrow> nat kresult \<times> 'w keyed_state" where
  "recover Q now force st =
     (if is_paused now st \<noteq> None then (Inr 0, st)
      else (case has_backlog Q st of
              (True, st1) \<Rightarrow> (Inr 0, st1)
            | (False, st1) \<Rightarrow>
                (let throttled = (case kd_recover (kt_db st1) of None \<Rightarrow> False | Some (_, due) \<Rightarrow> now < due);
                     st2 = (if force \<or> throttled then st1
                            else on_db (\<lambda>db. db\<lparr>kd_recover := Some (kq_consumer Q, now + kc_recover_interval_ms (kq_config Q))\<rparr>) st1);
                     names = sort (kd_keys (kt_db st2))
                 in if \<not> force \<and> throttled then (Inr 0, st2)
                    else recover_chunks (length names) Q now names 0 st2)))"

definition release_hold :: "'w keyed_queue \<Rightarrow> int \<Rightarrow> string \<Rightarrow> 'w keyed_state \<Rightarrow> bool kresult \<times> 'w keyed_state" where
  "release_hold Q now key st =
     (if dict_get (kd_held (kt_db st)) key = None then (Inr False, st)
      else (let st1 = on_db (run_command (HDelHeld key)) st;
                st2 = (case zhead (kd_queue (kt_db st1) key) of
                         Some mid \<Rightarrow> if dict_get (kd_msgs (kt_db st1)) mid \<noteq> None
                                    then on_db (run_command (HSetMsg mid [(''state'', PStr ''pending'')])) st1 else st1
                       | None \<Rightarrow> st1)
            in apfst (map_sum id (\<lambda>_. True)) (signal Q now key st2)))"

subsection \<open>Introspection\<close>

fun peek_ids :: "json_codec \<Rightarrow> keyed_db \<Rightarrow> string list \<Rightarrow> keyed_message list kresult" where
  "peek_ids J db [] = Inr []"
| "peek_ids J db (i # is) =
     (case dict_get (kd_msgs db) i of
        None \<Rightarrow> peek_ids J db is
      | Some [] \<Rightarrow> peek_ids J db is
      | Some raw \<Rightarrow>
          (case to_message J raw i of
             Inl x \<Rightarrow> Inl (KeyedRaised x)
           | Inr m \<Rightarrow> map_sum id (\<lambda>ms. m # ms) (peek_ids J db is)))"

definition peek :: "'w keyed_queue \<Rightarrow> string \<Rightarrow> int \<Rightarrow> 'w keyed_state \<Rightarrow> keyed_message list kresult" where
  "peek Q key limit st =
     peek_ids (kq_json Q) (kt_db st) (take (nat (max limit 1)) (map fst (zsorted (kd_queue (kt_db st) key))))"

definition keyed_keys :: "'w keyed_state \<Rightarrow> string list" where
  "keyed_keys st = sort (kd_keys (kt_db st))"

record keyed_info =
  ki_name :: string
  ki_keys :: nat
  ki_messages :: nat
  ki_delayed :: nat
  ki_held :: nat
  ki_paused :: "string option"
  ki_oldest_age_ms :: "int option"

definition keyed_describe :: "'w keyed_queue \<Rightarrow> int \<Rightarrow> 'w keyed_state \<Rightarrow> keyed_info" where
  "keyed_describe Q now st =
     (let db = kt_db st
      in \<lparr>ki_name = kc_name (kq_config Q), ki_keys = length (kd_keys db), ki_messages = length (kd_all db),
          ki_delayed = length (kd_delayed db), ki_held = length (kd_held db), ki_paused = is_paused now st,
          ki_oldest_age_ms = (case zsorted (kd_all db) of [] \<Rightarrow> None | (m, s) # _ \<Rightarrow> Some (max 0 (now - \<lfloor>s\<rfloor>)))\<rparr>)"

end
