(* ===== verification/KeyedFacts.thy ===== *)
theory KeyedFacts
  imports KeyedApply
begin

text \<open>
  How the Redis keys of a keyed queue change: a written key gets a new version, a lock only changes
  hands by being acquired.  Hence what a transaction saw when it watched still holds when its \<open>EXEC\<close>
  succeeds.
\<close>

named_theorems tame_intros "every command is tame"

subsection \<open>Tame changes\<close>

fun same_at :: "watched \<Rightarrow> keyed_db \<Rightarrow> keyed_db \<Rightarrow> bool" where
  "same_at (LockOf k) a b \<longleftrightarrow> dict_get (kd_locks a) k = dict_get (kd_locks b) k"
| "same_at (MsgOf i) a b \<longleftrightarrow> dict_get (kd_msgs a) i = dict_get (kd_msgs b) i"
| "same_at (QueueOf k) a b \<longleftrightarrow> kd_queue a k = kd_queue b k"
| "same_at LastScore a b \<longleftrightarrow> kd_lastscore a = kd_lastscore b"

definition evolves :: "keyed_db \<Rightarrow> keyed_db \<Rightarrow> bool" where
  "evolves a b \<longleftrightarrow> (\<forall>w. kd_versions a w < kd_versions b w \<or> kd_versions a w = kd_versions b w \<and> same_at w a b)"

definition keeps_locks :: "keyed_db \<Rightarrow> keyed_db \<Rightarrow> bool" where
  "keeps_locks a b \<longleftrightarrow> (\<forall>k t d. dict_get (kd_locks b) k = Some (t, d) \<longrightarrow> (\<exists>d'. dict_get (kd_locks a) k = Some (t, d')))"

definition tame :: "keyed_db \<Rightarrow> keyed_db \<Rightarrow> bool" where
  "tame a b \<longleftrightarrow> evolves a b \<and> keeps_locks a b"

lemma same_at_trans: "same_at w a b \<Longrightarrow> same_at w b c \<Longrightarrow> same_at w a c"
  by (cases w) auto

lemma same_at_refl [simp]: "same_at w a a"
  by (cases w) auto

lemma evolves_refl [simp]: "evolves a a"
  by (simp add: evolves_def)

lemma evolves_trans [trans]: "evolves a b \<Longrightarrow> evolves b c \<Longrightarrow> evolves a c"
  unfolding evolves_def by (metis order.strict_trans same_at_trans)

lemma tame_refl [simp]: "tame a a"
  by (simp add: tame_def keeps_locks_def)

lemma tame_trans [trans]: "tame a b \<Longrightarrow> tame b c \<Longrightarrow> tame a c"
  unfolding tame_def keeps_locks_def using evolves_trans by blast

lemma tame_evolves: "tame a b \<Longrightarrow> evolves a b"
  by (simp add: tame_def)

lemma tame_locks: "tame a b \<Longrightarrow> dict_get (kd_locks b) k = Some (t, d) \<Longrightarrow> \<exists>d'. dict_get (kd_locks a) k = Some (t, d')"
  by (auto simp: tame_def keeps_locks_def)

text \<open>A change outside the watched keys, and one of a single watched key.\<close>

lemma tame_unwatched:
  "kd_versions b = kd_versions a \<Longrightarrow> kd_locks b = kd_locks a \<Longrightarrow> kd_msgs b = kd_msgs a \<Longrightarrow> kd_queue b = kd_queue a \<Longrightarrow>
   kd_lastscore b = kd_lastscore a \<Longrightarrow> tame a b"
proof -
  assume *: "kd_versions b = kd_versions a" "kd_locks b = kd_locks a" "kd_msgs b = kd_msgs a" "kd_queue b = kd_queue a"
    "kd_lastscore b = kd_lastscore a"
  then have "same_at w a b" for w by (cases w) simp_all
  with * show "tame a b" by (simp add: tame_def keeps_locks_def evolves_def)
qed

lemma evolves_bump:
  assumes "kd_versions b = kd_versions a" and "\<And>w'. w' \<noteq> w \<Longrightarrow> same_at w' a b"
  shows "evolves a (bump_key w b)"
proof -
  have "same_at w' b (bump_key w b)" for w' by (cases w') (simp_all add: bump_key_def)
  then show ?thesis
    using assms same_at_trans by (fastforce simp: evolves_def bump_key_def)
qed

lemma run_command_evolves: "evolves db (run_command c db)"
proof (cases c)
  case (HSetMsg i m)
  show ?thesis unfolding HSetMsg run_command.simps
  proof (rule evolves_bump)
    show "same_at w' db (db\<lparr>kd_msgs := dict_set i (hset m (case dict_get (kd_msgs db) i of None \<Rightarrow> [] | Some h \<Rightarrow> h)) (kd_msgs db)\<rparr>)"
      if "w' \<noteq> MsgOf i" for w' using that by (cases w') auto
  qed simp
next
  case (DelMsg i)
  have "evolves db (bump_key (MsgOf i) (db\<lparr>kd_msgs := dict_del i (kd_msgs db)\<rparr>))"
  proof (rule evolves_bump)
    show "same_at w' db (db\<lparr>kd_msgs := dict_del i (kd_msgs db)\<rparr>)" if "w' \<noteq> MsgOf i" for w' using that by (cases w') auto
  qed simp
  with DelMsg show ?thesis by simp
next
  case (ZAddQueue k i s)
  show ?thesis unfolding ZAddQueue run_command.simps
  proof (rule evolves_bump)
    show "same_at w' db (db\<lparr>kd_queue := (kd_queue db)(k := dict_set i s (kd_queue db k))\<rparr>)" if "w' \<noteq> QueueOf k" for w'
      using that by (cases w') auto
  qed simp
next
  case (ZRemQueue k i)
  have "evolves db (bump_key (QueueOf k) (db\<lparr>kd_queue := (kd_queue db)(k := dict_del i (kd_queue db k))\<rparr>))"
  proof (rule evolves_bump)
    show "same_at w' db (db\<lparr>kd_queue := (kd_queue db)(k := dict_del i (kd_queue db k))\<rparr>)" if "w' \<noteq> QueueOf k" for w'
      using that by (cases w') auto
  qed simp
  with ZRemQueue show ?thesis by simp
next
  case (SetLast s)
  show ?thesis unfolding SetLast run_command.simps
  proof (rule evolves_bump)
    show "same_at w' db (db\<lparr>kd_lastscore := Some s\<rparr>)" if "w' \<noteq> LastScore" for w' using that by (cases w') auto
  qed simp
qed (simp_all add: tame_unwatched tame_evolves)

lemma run_command_locks [simp]: "kd_locks (run_command c db) = kd_locks db"
  by (cases c) auto

lemma run_command_tame [tame_intros]: "tame db (run_command c db)"
  by (simp add: tame_def keeps_locks_def run_command_evolves)

lemma run_commands_tame [tame_intros]: "tame db (run_commands cs db)"
  unfolding run_commands_def
proof (induction cs arbitrary: db)
  case (Cons c cs)
  from tame_trans[OF run_command_tame Cons.IH] show ?case by simp
qed simp

lemma run_commands_locks [simp]: "kd_locks (run_commands cs db) = kd_locks db"
  unfolding run_commands_def by (induction cs arbitrary: db) auto

lemma same_at_locks:
  "w \<noteq> LockOf k \<Longrightarrow> dict_get l = (dict_get (kd_locks db))(k := x) \<Longrightarrow> same_at w db (db\<lparr>kd_locks := l\<rparr>)"
  by (cases w) auto

lemma bump_lock_evolves: "dict_get l = (dict_get (kd_locks db))(k := x) \<Longrightarrow> evolves db (bump_key (LockOf k) (db\<lparr>kd_locks := l\<rparr>))"
  by (rule evolves_bump) (auto intro: same_at_locks)

lemma dict_get_del_fun: "dict_get (dict_del k d) = (dict_get d)(k := None)"
  by (rule ext) simp

lemma dict_get_set_fun: "dict_get (dict_set k v d) = (dict_get d)(k := Some v)"
  by (rule ext) simp

lemma expire_lock_tame [tame_intros]: "tame db (expire_lock now k db)"
  by (auto simp: expire_lock_def tame_def keeps_locks_def bump_lock_evolves dict_get_del_fun split: option.split if_splits)

lemma lock_release_tame [tame_intros]: "tame db (snd (lock_release now token k db))"
proof -
  let ?d = "expire_lock now k db"
  have "tame ?d (bump_key (LockOf k) (?d\<lparr>kd_locks := dict_del k (kd_locks ?d)\<rparr>))"
    by (auto simp: tame_def keeps_locks_def bump_lock_evolves dict_get_del_fun split: if_splits)
  with tame_trans[OF expire_lock_tame this] show ?thesis
    by (simp add: lock_release_def Let_def expire_lock_tame)
qed

lemma lock_extend_tame [tame_intros]: "tame db (snd (lock_extend now ttl token k db))"
proof -
  let ?d = "expire_lock now k db"
  have "get_lock now k db = Some token \<Longrightarrow> tame ?d (bump_key (LockOf k) (?d\<lparr>kd_locks := dict_set k (token, now + ttl) (kd_locks ?d)\<rparr>))"
    by (auto simp: tame_def keeps_locks_def get_lock_def bump_lock_evolves dict_get_set_fun split: if_splits)
  with tame_trans[OF expire_lock_tame this] show ?thesis
    by (auto simp: lock_extend_def Let_def expire_lock_tame)
qed

lemma lock_acquire_evolves: "evolves db (snd (lock_acquire now ttl token k db))"
proof -
  let ?d = "expire_lock now k db"
  have "evolves ?d (bump_key (LockOf k) (?d\<lparr>kd_locks := dict_set k (token, now + ttl) (kd_locks ?d)\<rparr>))"
    by (rule bump_lock_evolves) (rule dict_get_set_fun)
  with evolves_trans[OF tame_evolves[OF expire_lock_tame] this] show ?thesis
    by (simp add: lock_acquire_def Let_def tame_evolves expire_lock_tame)
qed

lemma expire_watched_tame [tame_intros]: "tame db (expire_watched now w db)"
  by (cases w) (simp_all add: expire_lock_tame)

lemma fold_expire_tame [tame_intros]: "tame db (fold (expire_watched now) ws db)"
proof (induction ws arbitrary: db)
  case (Cons w ws)
  from tame_trans[OF expire_watched_tame Cons.IH] show ?case by simp
qed simp

lemma exec_txn_tame [tame_intros]: "tame db (snd (exec_txn now snap cs db))"
  using tame_trans[OF fold_expire_tame run_commands_tame]
  by (simp add: exec_txn_def Let_def fold_expire_tame)

lemma verify_fence_tame [tame_intros]: "tame db (snd (verify_fence J now token key mid g c db))"
  by (simp add: verify_fence_db expire_lock_tame)

subsection \<open>Fences\<close>

text \<open>What the fence saw holds when the \<open>EXEC\<close> succeeds, whatever ran in between.\<close>

lemma versions_stable:
  assumes "evolves a b" and "kd_versions b w = kd_versions a w"
  shows "same_at w a b"
  using assms by (auto simp: evolves_def dest: spec[of _ w])

lemma get_lock_expired [simp]: "get_lock now k (expire_lock now k db) = get_lock now k db"
  by (simp add: get_lock_def)

lemma fenced_exec:
  assumes v: "verify_fence J now token key mid g c db = (Inr (snap, m), db1)"
    and e: "evolves db1 db2" and x: "exec_txn now2 snap cs db2 = (True, db3)"
  shows "get_lock now2 key db2 = Some token \<and>
    (\<exists>raw. raw \<noteq> [] \<and> dict_get (kd_msgs db2) mid = Some raw \<and> to_message J raw mid = Inr m) \<and>
    (\<forall>n \<in> set_option g. km_gen m = n) \<and> db3 = run_commands cs (expire_lock now2 key db2)"
proof -
  let ?e = "expire_lock now2 key db2"
  from verify_fence_snapshot[OF v] x
  have vs: "kd_versions ?e (LockOf key) = kd_versions db1 (LockOf key)" "kd_versions ?e (MsgOf mid) = kd_versions db1 (MsgOf mid)"
    and db3: "db3 = run_commands cs ?e"
    by (auto simp: exec_txn_def Let_def split: if_splits)
  have ev: "evolves db1 ?e"
    using e tame_evolves[OF expire_lock_tame] evolves_trans by blast
  from versions_stable[OF ev vs(1)] versions_stable[OF ev vs(2)]
  have same: "dict_get (kd_locks ?e) key = dict_get (kd_locks db1) key" "dict_get (kd_msgs db2) mid = dict_get (kd_msgs db1) mid"
    by simp_all
  from verify_fence_found[OF v] verify_fence_snapshot[OF v]
  have "get_lock now key db = Some token" "db1 = expire_lock now key db" by auto
  with same(1) have "get_lock now2 key db2 = Some token" by (simp add: get_lock_def)
  with verify_fence_found[OF v] verify_fence_snapshot[OF v] same(2) db3 show ?thesis by auto
qed

lemma exec_failed: "exec_txn now snap cs db = (False, db1) \<Longrightarrow> db1 = fold (expire_watched now) (map fst snap) db"
  by (auto simp: exec_txn_def Let_def split: if_splits)

subsection \<open>Operations are tame\<close>

abbreviation tame_to :: "'w keyed_state \<Rightarrow> 'w keyed_state \<Rightarrow> bool" where
  "tame_to st st1 \<equiv> tame (kt_db st) (kt_db st1)"

lemma on_db_db [simp]: "kt_db (on_db f st) = f (kt_db st)" "kt_world (on_db f st) = kt_world st"
    "kt_expired (on_db f st) = kt_expired st"
  by (simp_all add: on_db_def)

lemma with_world_db [simp]: "kt_db (snd (with_world f st)) = kt_db st"
  by (simp add: with_world_def split: prod.split)

lemma with_world_eq_db: "with_world f st = (x, st1) \<Longrightarrow> kt_db st1 = kt_db st"
  by (metis snd_conv with_world_db)

lemma mark_signal_tame [tame_intros]: "tame_to st (mark_signal Q now k i st)"
  by (simp add: mark_signal_def tame_unwatched)

lemma signal_tame [tame_intros]: "tame_to st (snd (signal Q now k st))"
  using mark_signal_tame[of "snd (with_world _ st)"]
  by (auto simp: signal_def mark_signal_tame with_world_eq_db[symmetric] split: prod.split sum.split)

lemma ack_signal_tame [tame_intros]: "tame_to st (ack_signal Q rc k st)"
  by (auto simp: ack_signal_def Let_def tame_unwatched split: option.split)

lemma release_tame [tame_intros]: "tame_to st (release_lock now token k st)"
  by (simp add: release_lock_def lock_release_tame)

lemma drop_tries_tame [tame_intros]: "tame db (snd (drop_key_tries n now k db))"
proof (induction n arbitrary: db)
  case (Suc n)
  obtain snap where w: "watch now [QueueOf k] db = (snap, db)" by (simp add: watch_def)
  obtain b db2 where x: "exec_txn now snap [SRemKeys k, ZRemDelayed k, HDelHeld k] db = (b, db2)" by force
  have "tame db db2" using exec_txn_tame[of db now snap] x by (metis snd_conv)
  with Suc.IH[of db2] tame_trans show ?case by (auto simp: w x split: bool.split)
qed simp

lemma drop_key_tame [tame_intros]: "tame_to st (drop_key_if_empty now k st)"
  by (simp add: drop_key_if_empty_def drop_tries_tame del: drop_key_tries.simps)

lemma reconcile_tame [tame_intros]: "tame_to st (snd (reconcile Q now k st))"
proof -
  have s: "tame_to st (snd (signal Q now k (on_db (run_command c) st)))" for c
    using tame_trans[OF run_command_tame] signal_tame[of "on_db (run_command c) st" Q now k] by simp
  show ?thesis
    unfolding reconcile_def Let_def
    by (auto simp: drop_key_tame signal_tame s run_command_tame split: option.split list.split sum.split simp del: run_command.simps)
qed

lemma with_db_tame: "(\<And>db. tame db (snd (f db))) \<Longrightarrow> tame_to st (snd (with_db f st))"
  by (simp add: with_db_def split: prod.split) (metis snd_conv)

lemma handoff_db [simp]: "kt_db (handoff_dlq Q m e st) = kt_db st"
  by (simp add: handoff_dlq_def split: option.split)

lemma push_begin_db: "snd (push_begin J now key body mid order db) = db"
  by (auto simp: push_begin_def watch_def Let_def split: option.split sum.split)

lemma push_tries_tame [tame_intros]: "tame db (snd (push_tries n J now key body mid order db))"
proof (induction n arbitrary: db)
  case (Suc n)
  obtain r where b: "push_begin J now key body mid order db = (r, db)"
    using push_begin_db[of J now key body mid order db] by (metis prod.collapse)
  show ?case
  proof (cases r)
    case (Inr a)
    then show ?thesis
    proof (cases a)
      case (Write snap cs)
      obtain ok db2 where x: "exec_txn now snap cs db = (ok, db2)" by force
      have "tame db db2" using exec_txn_tame[of db now snap cs] x by simp
      with Suc.IH[of db2] tame_trans Inr Write b x show ?thesis by (auto split: bool.split)
    qed (simp add: b)
  qed (simp add: b)
qed simp

lemma push_tame [tame_intros]: "tame_to st (snd (push Q now fresh key body message_id order st))"
proof -
  define mid where "mid = (case message_id of Some (c # cs) \<Rightarrow> c # cs | _ \<Rightarrow> fresh)"
  obtain r st1 where w: "with_db (push_tries 64 (kq_json Q) now key body mid order) st = (r, st1)" by force
  have "tame_to st st1"
    using with_db_tame[of "push_tries 64 (kq_json Q) now key body mid order" st] push_tries_tame w by (metis snd_conv)
  with tame_trans[OF this signal_tame] show ?thesis
    by (simp add: push_def mid_def[symmetric] w split: sum.split)
qed

lemma expire_begin_tame [tame_intros]: "tame_to st (snd (expire_begin Q now token key m st))"
proof -
  define v where "v = with_db (verify_fence (kq_json Q) now token key (km_message_id m) (Some (km_gen m)) (Some (km_created_ms m))) st"
  have "tame_to st (snd v)" unfolding v_def by (rule with_db_tame) (rule verify_fence_tame)
  then show ?thesis
    by (auto simp: expire_begin_def Let_def v_def[symmetric] split: prod.split sum.split)
qed

lemma exec_with_tame: "with_db (exec_txn now snap cs) st = (b, st1) \<Longrightarrow> tame_to st st1"
  using with_db_tame[where f = "exec_txn now snap cs" and st = st] exec_txn_tame by force

lemma expire_finish_tame [tame_intros]: "tame_to st (snd (expire_finish now p st))"
  by (auto simp: expire_finish_def split: prod.split bool.split intro: exec_with_tame)

lemma grant_begin_tame [tame_intros]: "tame db (snd (grant_begin J now token key mid m db))"
  using verify_fence_tame[of db J now token key mid "Some (km_gen m)" "Some (km_created_ms m)"]
  by (auto simp: grant_begin_def split: prod.split sum.split)

lemma apply_begin_tame [tame_intros]: "tame_to st (snd (apply_begin Q now l out st))"
proof -
  define v where "v = with_db (verify_fence (kq_json Q) now (kl_token l) (kl_key l) (km_message_id (kl_message l)) (Some (kl_gen l)) None) st"
  have "tame_to st (snd v)" unfolding v_def by (rule with_db_tame) (rule verify_fence_tame)
  then show ?thesis
    by (auto simp: apply_begin_def Let_def v_def[symmetric] split: prod.split sum.split option.split)
qed

lemma apply_finish_tame [tame_intros]: "tame_to st (snd (apply_finish Q now l p st))"
proof -
  obtain snap cs kind where p: "p = (snap, cs, kind)" by (cases p)
  obtain ok st1 where x: "with_db (exec_txn now snap cs) st = (ok, st1)" by force
  define st2 where "st2 = release_lock now (kl_token l) (kl_key l) st1"
  obtain r st3 where r: "(if kind \<noteq> Hold then reconcile Q now (kl_key l) st2 else (Inr False, st2)) = (r, st3)" by force
  have t2: "tame_to st st2"
    using exec_with_tame[OF x] release_tame tame_trans unfolding st2_def by blast
  have "tame_to st2 st3"
    using r reconcile_tame[of st2 Q now "kl_key l"] by (cases "kind = Hold") auto
  with t2 tame_trans have t3: "tame_to st st3" by blast
  have "tame_to st (ack_signal Q (kl_receipt l) (Some (kl_key l)) st3)"
    using t3 ack_signal_tame tame_trans by blast
  with t3 exec_with_tame[OF x] show ?thesis
    by (simp add: apply_finish_def p x Let_def st2_def[symmetric] r split: bool.split sum.split)
qed

lemma promote_keys_tame [tame_intros]: "tame_to st (snd (promote_keys Q now ks sent st))"
proof (induction Q now ks sent st rule: promote_keys.induct)
  case (2 Q now k ks sent st)
  obtain r st1 where s: "signal Q now k (on_db (run_command (ZRemDelayed k)) st) = (r, st1)" by force
  have "tame_to st st1"
    using tame_trans[OF run_command_tame[of "kt_db st" "ZRemDelayed k"]]
      signal_tame[of "on_db (run_command (ZRemDelayed k)) st" Q now k] s by simp
  with 2 tame_trans show ?case
    by (auto simp: s simp del: run_command.simps split: sum.split)
qed simp

lemma promote_due_tame [tame_intros]: "tame_to st (snd (promote_due Q now limit st))"
  by (simp add: promote_due_def Let_def promote_keys_tame)

lemma has_backlog_db: "kt_db (snd (has_backlog Q st)) = kt_db st"
  by (auto simp: has_backlog_def with_world_eq_db split: prod.split option.split)

lemma fold_expire_lock_tame [tame_intros]: "tame db (fold (expire_lock now) ks db)"
proof (induction ks arbitrary: db)
  case (Cons k ks)
  from tame_trans[OF expire_lock_tame Cons.IH] show ?case by simp
qed simp

lemma orphan_flags_tame [tame_intros]: "tame db (snd (orphan_flags now names db))"
proof -
  define db1 where "db1 = db\<lparr>kd_sig := (\<lambda>k. if k \<in> set names then zremrangebyscore (real_of_int now) (kd_sig db k) else kd_sig db k)\<rparr>"
  have "tame db db1" by (simp add: db1_def tame_unwatched)
  from tame_trans[OF this fold_expire_lock_tame] show ?thesis
    by (simp add: orphan_flags_def db1_def[symmetric])
qed

lemma reconcile_orphans_tame [tame_intros]: "tame_to st (snd (reconcile_orphans Q now ks sent st))"
proof (induction Q now ks sent st rule: reconcile_orphans.induct)
  case (2 Q now k skip ks sent st)
  obtain r st1 where s: "reconcile Q now k st = (r, st1)" by force
  have "tame_to st st1" using reconcile_tame[of st Q now k] s by simp
  with 2 tame_trans show ?case by (auto simp: s split: sum.split)
qed simp

lemma recover_chunks_tame [tame_intros]: "tame_to st (snd (recover_chunks n Q now names sent st))"
proof (induction n arbitrary: names sent st)
  case (Suc n)
  obtain fl st1 where f: "with_db (orphan_flags now (take PIPELINE_CHUNK names)) st = (fl, st1)" by force
  obtain r st2 where r: "reconcile_orphans Q now fl sent st1 = (r, st2)" by force
  have "tame_to st st2"
    using with_db_tame[where f = "orphan_flags now (take PIPELINE_CHUNK names)" and st = st] orphan_flags_tame f
      reconcile_orphans_tame[of st1 Q now fl sent] r tame_trans by (metis snd_conv)
  with Suc.IH tame_trans show ?case by (auto simp: f r split: sum.split)
qed simp

lemma recover_tame [tame_intros]: "tame_to st (snd (recover Q now force st))"
proof -
  obtain b st1 where h: "has_backlog Q st = (b, st1)" by force
  then have db: "kt_db st1 = kt_db st" using has_backlog_db[of Q st] by simp
  define st2 where "st2 = on_db (\<lambda>db. db\<lparr>kd_recover := Some (kq_consumer Q, now + kc_recover_interval_ms (kq_config Q))\<rparr>) st1"
  have "tame_to st st2" by (simp add: st2_def tame_unwatched db)
  with recover_chunks_tame[of st1 _ Q now] recover_chunks_tame[of st2 _ Q now] tame_trans db show ?thesis
    unfolding recover_def h by (auto simp: Let_def st2_def[symmetric] split: bool.split)
qed

lemma release_hold_tame [tame_intros]: "tame_to st (snd (release_hold Q now key st))"
proof -
  have s: "tame_to st (snd (signal Q now key (on_db f st)))" if "tame (kt_db st) (f (kt_db st))" for f
    using tame_trans[OF that] signal_tame[of "on_db f st" Q now key] by simp
  have s2: "tame_to st (snd (signal Q now key (on_db f (on_db g st))))" if "tame (kt_db st) (f (g (kt_db st)))" for f g
    using tame_trans[OF that] signal_tame[of "on_db f (on_db g st)" Q now key] by simp
  show ?thesis
    unfolding release_hold_def Let_def
    by (auto simp: s s2 run_command_tame tame_trans[OF run_command_tame run_command_tame] split: option.split simp del: run_command.simps)
qed

lemma pause_tame [tame_intros]: "tame_to st (pause Q now ttl reason st)" "tame_to st (resume st)"
  by (simp_all add: pause_def resume_def tame_unwatched)

end
