(* ===== verification/KeyedRuns.thy ===== *)
theory KeyedRuns
  imports KeyedFacts
begin

text \<open>
  Consumers of a keyed queue side by side: every operation that fences a write takes two steps, its
  \<open>WATCH\<close> and its \<open>EXEC\<close>, and any steps of the others, and any time, may pass in between.  A log
  records, per key, whose token acquired the lock, was granted a lease, applied an outcome or
  expired a head.
\<close>

subsection \<open>Steps\<close>

text \<open>The operations that do not act for a holder of the lock, or only lengthen or end its time.\<close>

datatype background =
    Push string string pydict "string option" "real option"
  | PromoteDue "int option"
  | Recover bool
  | Reconcile string
  | ReleaseHold string
  | Pause "int option" string
  | Resume
  | Repair string string
  | Extend "int option" keyed_lease
  | Release string string

fun run_background :: "'w keyed_queue \<Rightarrow> int \<Rightarrow> background \<Rightarrow> 'w keyed_state \<Rightarrow> 'w keyed_state" where
  "run_background Q now (Push fresh key body mid order) st = snd (push Q now fresh key body mid order st)"
| "run_background Q now (PromoteDue limit) st = snd (promote_due Q now limit st)"
| "run_background Q now (Recover force) st = snd (recover Q now force st)"
| "run_background Q now (Reconcile key) st = snd (reconcile Q now key st)"
| "run_background Q now (ReleaseHold key) st = snd (release_hold Q now key st)"
| "run_background Q now (Pause ttl reason) st = pause Q now ttl reason st"
| "run_background Q now Resume st = resume st"
| "run_background Q now (Repair key mid) st = on_db (run_commands [ZRemQueue key mid, ZRemAll mid]) st"
| "run_background Q now (Extend ms l) st = snd (extend_lease Q now ms l st)"
| "run_background Q now (Release token key) st = release_lock now token key st"

text \<open>A transaction between its \<open>WATCH\<close> and its \<open>EXEC\<close>.\<close>

datatype flight =
    Granting string string string keyed_message "snapshot \<times> command list"
  | Applying keyed_lease "snapshot \<times> command list \<times> outcome_kind"
  | Expiring string string keyed_message "snapshot \<times> command list"

fun flight_key :: "flight \<Rightarrow> string" where
  "flight_key (Granting key token mid m p) = key" | "flight_key (Applying l p) = kl_key l"
| "flight_key (Expiring key token m p) = key"

fun flight_token :: "flight \<Rightarrow> string" where
  "flight_token (Granting key token mid m p) = token" | "flight_token (Applying l p) = kl_token l"
| "flight_token (Expiring key token m p) = token"

fun flight_txn :: "flight \<Rightarrow> snapshot \<times> command list" where
  "flight_txn (Granting key token mid m p) = p" | "flight_txn (Applying l p) = (fst p, fst (snd p))"
| "flight_txn (Expiring key token m p) = p"

record 'w keyed_system =
  sy_now :: int
  sy_state :: "'w keyed_state"
  sy_flight :: "flight list"
  sy_leases :: "keyed_lease list"
  sy_log :: "(string \<times> string) list"

text \<open>The \<open>EXEC\<close> of a transaction in flight and what its operation does after it.\<close>

fun finish_flight :: "'w keyed_queue \<Rightarrow> int \<Rightarrow> flight \<Rightarrow> 'w keyed_state \<Rightarrow> 'w keyed_state" where
  "finish_flight Q now (Granting key token mid m p) st = snd (with_db (exec_txn now (fst p) (snd p)) st)"
| "finish_flight Q now (Applying l p) st = snd (apply_finish Q now l p st)"
| "finish_flight Q now (Expiring key token m p) st = snd (expire_finish now p st)"

fun new_leases :: "flight \<Rightarrow> keyed_lease list" where
  "new_leases (Granting key token mid m p) =
     [\<lparr>kl_key = key, kl_message = granted_message m, kl_token = token, kl_gen = km_gen m + 1, kl_receipt = None\<rparr>]"
| "new_leases _ = []"

inductive keyed_run :: "'w keyed_queue \<Rightarrow> 'w keyed_system \<Rightarrow> bool" for Q where
  start: "keyed_run Q \<lparr>sy_now = now, sy_state = \<lparr>kt_db = keyed_db_new, kt_world = w, kt_expired = 0\<rparr>, sy_flight = [],
      sy_leases = [], sy_log = []\<rparr>"
| tick: "keyed_run Q s \<Longrightarrow> sy_now s \<le> n \<Longrightarrow> keyed_run Q (s\<lparr>sy_now := n\<rparr>)"
| background: "keyed_run Q s \<Longrightarrow> keyed_run Q (s\<lparr>sy_state := run_background Q (sy_now s) b (sy_state s)\<rparr>)"
| acquire: "keyed_run Q s \<Longrightarrow> token \<notin> snd ` set (sy_log s) \<Longrightarrow>
    with_db (lock_acquire (sy_now s) (kc_lock_ttl_ms (kq_config Q)) token key) (sy_state s) = (ok, st) \<Longrightarrow>
    keyed_run Q (s\<lparr>sy_state := st, sy_log := (if ok then sy_log s @ [(key, token)] else sy_log s)\<rparr>)"
| grant: "keyed_run Q s \<Longrightarrow>
    with_db (grant_begin (kq_json Q) (sy_now s) token key mid m) (sy_state s) = (r, st) \<Longrightarrow>
    keyed_run Q (s\<lparr>sy_state := st,
      sy_flight := (case r of Inl _ \<Rightarrow> sy_flight s | Inr p \<Rightarrow> Granting key token mid m p # sy_flight s)\<rparr>)"
| applying: "keyed_run Q s \<Longrightarrow> l \<in> set (sy_leases s) \<Longrightarrow> apply_begin Q (sy_now s) l out (sy_state s) = (r, st) \<Longrightarrow>
    keyed_run Q (s\<lparr>sy_state := st, sy_flight := (case r of Inl _ \<Rightarrow> sy_flight s | Inr p \<Rightarrow> Applying l p # sy_flight s)\<rparr>)"
| expiring: "keyed_run Q s \<Longrightarrow> expire_begin Q (sy_now s) token key m (sy_state s) = (r, st) \<Longrightarrow>
    keyed_run Q (s\<lparr>sy_state := st,
      sy_flight := (case r of Inl _ \<Rightarrow> sy_flight s | Inr p \<Rightarrow> Expiring key token m p # sy_flight s)\<rparr>)"
| finish: "keyed_run Q s \<Longrightarrow> f \<in> set (sy_flight s) \<Longrightarrow>
    ok = fst (exec_txn (sy_now s) (fst (flight_txn f)) (snd (flight_txn f)) (kt_db (sy_state s))) \<Longrightarrow>
    keyed_run Q (s\<lparr>sy_state := finish_flight Q (sy_now s) f (sy_state s), sy_flight := remove1 f (sy_flight s),
      sy_leases := (if ok then new_leases f @ sy_leases s else sy_leases s),
      sy_log := (if ok then sy_log s @ [(flight_key f, flight_token f)] else sy_log s)\<rparr>)"

subsection \<open>The invariant\<close>

definition owners :: "string \<Rightarrow> (string \<times> string) list \<Rightarrow> string list" where
  "owners key lg = map snd (filter (\<lambda>e. fst e = key) lg)"

text \<open>A transaction in flight once saw its lock, and the keys have only evolved since.\<close>

definition flight_ok :: "'w keyed_queue \<Rightarrow> keyed_db \<Rightarrow> flight \<Rightarrow> bool" where
  "flight_ok Q db f \<longleftrightarrow> (\<exists>now0 mid g c db0 m db1.
     verify_fence (kq_json Q) now0 (flight_token f) (flight_key f) mid g c db0 = (Inr (fst (flight_txn f), m), db1) \<and>
     evolves db1 db)"

definition log_ok :: "keyed_db \<Rightarrow> (string \<times> string) list \<Rightarrow> bool" where
  "log_ok db lg \<longleftrightarrow>
     (\<forall>k t d. dict_get (kd_locks db) k = Some (t, d) \<longrightarrow> owners k lg \<noteq> [] \<and> List.last (owners k lg) = t) \<and>
     (\<forall>k. distinct (remdups_adj (owners k lg)))"

definition system_ok :: "'w keyed_queue \<Rightarrow> 'w keyed_system \<Rightarrow> bool" where
  "system_ok Q s \<longleftrightarrow> (\<forall>f \<in> set (sy_flight s). flight_ok Q (kt_db (sy_state s)) f) \<and> log_ok (kt_db (sy_state s)) (sy_log s)"

lemma remdups_adj_snoc:
  "remdups_adj (xs @ [x]) = (if xs \<noteq> [] \<and> List.last xs = x then remdups_adj xs else remdups_adj xs @ [x])"
  by (induction xs rule: remdups_adj.induct) auto

lemma owners_snoc: "owners k (lg @ [(key, t)]) = owners k lg @ (if key = k then [t] else [])"
  by (simp add: owners_def)

lemma flight_ok_evolves: "flight_ok Q a f \<Longrightarrow> evolves a b \<Longrightarrow> flight_ok Q b f"
  unfolding flight_ok_def using evolves_trans by blast

lemma log_ok_tame: "log_ok a lg \<Longrightarrow> tame a b \<Longrightarrow> log_ok b lg"
  unfolding log_ok_def using tame_locks by metis

lemma system_ok_tame:
  assumes "system_ok Q s" and "tame_to (sy_state s) st" and "\<forall>f \<in> set fs. f \<in> set (sy_flight s) \<or> flight_ok Q (kt_db st) f"
  shows "system_ok Q (s\<lparr>sy_state := st, sy_flight := fs\<rparr>)"
  using assms log_ok_tame flight_ok_evolves tame_evolves by (fastforce simp: system_ok_def)

lemma extend_tame [tame_intros]: "tame_to st (snd (extend_lease Q now ms l st))"
proof -
  define ttl where "ttl = (case ms of None \<Rightarrow> kc_lock_ttl_ms (kq_config Q) | Some n \<Rightarrow> n)"
  obtain b st1 where e: "with_db (lock_extend now ttl (kl_token l) (kl_key l)) st = (b, st1)" by force
  have t1: "tame_to st st1"
    using with_db_tame[where f = "lock_extend now ttl (kl_token l) (kl_key l)" and st = st] lock_extend_tame e by force
  have m: "tame_to st (mark_signal Q now k i st3)" if "kt_db st3 = kt_db st1" for k i st3
    using tame_trans[OF t1] mark_signal_tame[of st3 Q now k i] that by simp
  show ?thesis
    unfolding extend_lease_def Let_def ttl_def[symmetric]
    by (auto simp: e t1 with_world_eq_db intro!: m split: bool.split option.split prod.split)
qed

lemma background_tame [tame_intros]: "tame_to st (run_background Q now b st)"
  by (cases b) (simp_all add: tame_intros del: on_db_db, simp add: run_commands_tame)

lemma finish_flight_tame [tame_intros]: "tame_to st (finish_flight Q now f st)"
  by (cases f) (auto simp: tame_intros intro!: with_db_tame)

subsection \<open>Preservation\<close>

lemma grant_begin_fence:
  "grant_begin J now token key mid m db = (Inr p, db1) \<Longrightarrow>
   \<exists>m2. verify_fence J now token key mid (Some (km_gen m)) (Some (km_created_ms m)) db = (Inr (fst p, m2), db1)"
  by (auto simp: grant_begin_def split: prod.splits sum.splits)

lemma apply_begin_fence:
  assumes "apply_begin Q now l out st = (Inr (snap, cs, kind), st1)"
  shows "\<exists>m db1. verify_fence (kq_json Q) now (kl_token l) (kl_key l) (km_message_id (kl_message l)) (Some (kl_gen l)) None (kt_db st) =
     (Inr (snap, m), db1) \<and> kt_db st1 = db1 \<and> kind = fst (effective_kind (kq_config Q) out m) \<and>
     cs = outcome_commands (kq_config Q) now (kl_key l) (km_message_id (kl_message l)) out m kind"
  using assms by (auto simp: apply_begin_def with_db_def Let_def split: prod.splits sum.splits option.splits)

lemma expire_begin_fence:
  assumes "expire_begin Q now token key m st = (Inr p, st1)"
  shows "\<exists>m2 db1. verify_fence (kq_json Q) now token key (km_message_id m) (Some (km_gen m)) (Some (km_created_ms m)) (kt_db st) =
     (Inr (fst p, m2), db1) \<and> kt_db st1 = db1"
  using assms by (auto simp: expire_begin_def with_db_def Let_def split: prod.splits sum.splits)

lemma fence_flight_ok:
  "verify_fence (kq_json Q) now (flight_token f) (flight_key f) mid g c db0 = (Inr (fst (flight_txn f), m), db1) \<Longrightarrow>
   flight_ok Q db1 f"
  unfolding flight_ok_def using evolves_refl by blast

text \<open>A successful \<open>EXEC\<close> finds the lock with its own token, so it does not change the owner.\<close>

lemma finish_owner:
  assumes "flight_ok Q db f" and "fst (exec_txn now (fst (flight_txn f)) (snd (flight_txn f)) db)"
  shows "\<exists>d. dict_get (kd_locks db) (flight_key f) = Some (flight_token f, d)"
proof -
  obtain now0 mid g c db0 m db1 where
    v: "verify_fence (kq_json Q) now0 (flight_token f) (flight_key f) mid g c db0 = (Inr (fst (flight_txn f), m), db1)" "evolves db1 db"
    using assms(1) by (auto simp: flight_ok_def)
  obtain db3 where "exec_txn now (fst (flight_txn f)) (snd (flight_txn f)) db = (True, db3)"
    using assms(2) by (cases "exec_txn now (fst (flight_txn f)) (snd (flight_txn f)) db") auto
  from fenced_exec[OF v this] have "get_lock now (flight_key f) db = Some (flight_token f)" by simp
  then have "\<exists>d. dict_get (kd_locks (expire_lock now (flight_key f) db)) (flight_key f) = Some (flight_token f, d)"
    by (auto simp: get_lock_def)
  with tame_locks[OF expire_lock_tame] show ?thesis by blast
qed

lemma log_ok_same_owner:
  assumes "log_ok db lg" and "dict_get (kd_locks db) k = Some (t, d)"
  shows "log_ok db (lg @ [(k, t)])"
  using assms by (fastforce simp: log_ok_def owners_snoc remdups_adj_snoc)

lemma log_ok_acquire:
  assumes "log_ok db lg" and "token \<notin> snd ` set lg" and "lock_acquire now ttl token key db = (True, db1)"
  shows "log_ok db1 (lg @ [(key, token)])"
proof -
  have locks: "dict_get (kd_locks db1) = (dict_get (kd_locks (expire_lock now key db)))(key := Some (token, now + ttl))"
    using assms(3) by (auto simp: lock_acquire_def Let_def dict_get_set_fun split: if_splits)
  have "log_ok (expire_lock now key db) lg" using log_ok_tame[OF assms(1) expire_lock_tame] .
  moreover have "token \<notin> set (owners key lg)" using assms(2) by (auto simp: owners_def)
  ultimately show ?thesis
    using locks by (auto simp: log_ok_def owners_snoc remdups_adj_snoc split: if_splits)
qed

lemma keyed_run_ok: "keyed_run Q s \<Longrightarrow> system_ok Q s"
proof (induction rule: keyed_run.induct)
  case (start now w)
  show ?case by (simp add: system_ok_def log_ok_def keyed_db_new_def owners_def)
next
  case (tick s n)
  then show ?case by (simp add: system_ok_def)
next
  case (background s b)
  from system_ok_tame[OF background.IH background_tame, of "sy_flight s"] show ?case by simp
next
  case (acquire s token key ok st)
  obtain db1 where a: "lock_acquire (sy_now s) (kc_lock_ttl_ms (kq_config Q)) token key (kt_db (sy_state s)) = (ok, db1)"
    and st: "st = (sy_state s)\<lparr>kt_db := db1\<rparr>"
    using acquire.hyps(3) by (auto simp: with_db_def split: prod.splits)
  have ev: "evolves (kt_db (sy_state s)) db1" using lock_acquire_evolves[of "kt_db (sy_state s)"] a by (metis snd_conv)
  show ?case
  proof (cases ok)
    case True
    have "log_ok (kt_db (sy_state s)) (sy_log s)" "\<forall>f \<in> set (sy_flight s). flight_ok Q db1 f"
      using acquire.IH ev flight_ok_evolves unfolding system_ok_def by blast+
    with True a acquire.hyps(2) log_ok_acquire st show ?thesis by (simp add: system_ok_def)
  next
    case False
    with a have "db1 = expire_lock (sy_now s) key (kt_db (sy_state s))" by (auto simp: lock_acquire_def Let_def split: if_splits)
    with system_ok_tame[OF acquire.IH, of st "sy_flight s"] st False show ?thesis by (simp add: expire_lock_tame)
  qed
next
  case (grant s token key mid m r st)
  obtain db1 where g: "grant_begin (kq_json Q) (sy_now s) token key mid m (kt_db (sy_state s)) = (r, db1)" and st: "kt_db st = db1"
    using grant.hyps(2) by (auto simp: with_db_def split: prod.splits)
  have t: "tame_to (sy_state s) st" using grant_begin_tame[of "kt_db (sy_state s)"] g st by (metis snd_conv)
  show ?case
  proof (rule system_ok_tame[OF grant.IH t])
    show "\<forall>f \<in> set (case r of Inl _ \<Rightarrow> sy_flight s | Inr p \<Rightarrow> Granting key token mid m p # sy_flight s).
        f \<in> set (sy_flight s) \<or> flight_ok Q (kt_db st) f"
      using g st by (auto dest!: grant_begin_fence intro!: fence_flight_ok split: sum.splits)
  qed
next
  case (applying s l out r st)
  have t: "tame_to (sy_state s) st" using apply_begin_tame[of "sy_state s"] applying.hyps(3) by (metis snd_conv)
  show ?case
  proof (rule system_ok_tame[OF applying.IH t])
    show "\<forall>f \<in> set (case r of Inl _ \<Rightarrow> sy_flight s | Inr p \<Rightarrow> Applying l p # sy_flight s).
        f \<in> set (sy_flight s) \<or> flight_ok Q (kt_db st) f"
      using applying.hyps(3) by (cases r) (auto dest!: apply_begin_fence intro!: fence_flight_ok)
  qed
next
  case (expiring s token key m r st)
  have t: "tame_to (sy_state s) st" using expire_begin_tame[of "sy_state s"] expiring.hyps(2) by (metis snd_conv)
  show ?case
  proof (rule system_ok_tame[OF expiring.IH t])
    show "\<forall>f \<in> set (case r of Inl _ \<Rightarrow> sy_flight s | Inr p \<Rightarrow> Expiring key token m p # sy_flight s).
        f \<in> set (sy_flight s) \<or> flight_ok Q (kt_db st) f"
      using expiring.hyps(2) by (cases r) (auto dest!: expire_begin_fence intro!: fence_flight_ok)
  qed
next
  case (finish s f ok)
  let ?db = "kt_db (sy_state s)"
  have t: "tame_to (sy_state s) (finish_flight Q (sy_now s) f (sy_state s))" by (rule finish_flight_tame)
  have base: "log_ok ?db (if ok then sy_log s @ [(flight_key f, flight_token f)] else sy_log s)"
    using finish finish_owner[of Q ?db f "sy_now s"] log_ok_same_owner by (fastforce simp: system_ok_def)
  have "\<forall>g \<in> set (remove1 f (sy_flight s)). flight_ok Q (kt_db (finish_flight Q (sy_now s) f (sy_state s))) g"
    using finish.IH flight_ok_evolves[OF _ tame_evolves[OF t]] set_remove1_subset[of f "sy_flight s"]
    unfolding system_ok_def by blast
  with log_ok_tame[OF base t] show ?case by (simp add: system_ok_def)
qed

end
