(* ===== verification/KeyedOrder.thy ===== *)
theory KeyedOrder
  imports KeyedRuns
begin

text \<open>
  What single operations do to the keys when nothing intervenes: pushes without an explicit order,
  the grant of a lease, the effect of an outcome.
\<close>

subsection \<open>Pushes\<close>

lemma push_first_try:
  assumes "push_begin J now key body mid order db = (Inr (Write snap cs), db1)"
  shows "push_tries 64 J now key body mid order db = (Inr (), run_commands cs db)"
proof -
  have "db1 = db" using push_begin_db[of J now key body mid order db] assms by simp
  have snap: "\<forall>p \<in> set snap. fst p \<in> {MsgOf mid, LastScore} \<and> snd p = kd_versions db (fst p)"
    using assms by (auto simp: push_begin_def watch_def Let_def split: option.splits sum.splits if_splits)
  have "fold (expire_watched now) ws db = db" if "\<forall>w \<in> set ws. w \<in> {MsgOf mid, LastScore}" for ws
    using that by (induction ws) auto
  from this[of "map fst snap"] snap have "fold (expire_watched now) (map fst snap) db = db" by simp
  with snap have "exec_txn now snap cs db = (True, run_commands cs db)"
    by (simp add: exec_txn_def case_prod_beta)
  then show ?thesis
    using assms \<open>db1 = db\<close> push_tries.simps(2)[of 63 J now key body mid order db] by simp
qed

text \<open>All pushes had the default order: every set is sorted, below the last score, in order of arrival.\<close>

definition arrivals :: "(string \<Rightarrow> string list) \<Rightarrow> keyed_db \<Rightarrow> bool" where
  "arrivals mids db \<longleftrightarrow>
     (\<forall>k. map fst (kd_queue db k) = mids k \<and> sorted_wrt (<) (map snd (kd_queue db k)) \<and>
        (\<forall>s \<in> snd ` set (kd_queue db k). \<exists>l. kd_lastscore db = Some l \<and> s \<le> l)) \<and>
     (\<forall>i. dict_get (kd_msgs db) i \<noteq> None \<longleftrightarrow> (\<exists>k. i \<in> set (mids k)))"

lemma dict_set_new: "k \<notin> fst ` set d \<Longrightarrow> dict_set k v d = d @ [(k, v)]"
  by (induction d) auto

lemma push_arrivals:
  assumes a: "arrivals mids db" and new: "\<forall>k. mid \<notin> set (mids k)" and j: "dumps J (PDict body) = Inr t"
  shows "\<exists>db1. push_tries 64 J now key body mid None db = (Inr (), db1) \<and> arrivals (mids(key := mids key @ [mid])) db1"
proof -
  define score where "score = (case kd_lastscore db of None \<Rightarrow> real_of_int now | Some s \<Rightarrow> max (real_of_int now) (s + 1 / 1024))"
  have none: "dict_get (kd_msgs db) mid = None" using a new by (auto simp: arrivals_def)
  have above: "s < score" if "s \<in> snd ` set (kd_queue db k)" for s k
  proof -
    from a that obtain l where "kd_lastscore db = Some l" "s \<le> l" unfolding arrivals_def by metis
    then show ?thesis by (auto simp: score_def less_max_iff_disj)
  qed
  have b: "push_begin J now key body mid None db =
      (Inr (Write [(MsgOf mid, kd_versions db (MsgOf mid)), (LastScore, kd_versions db LastScore)]
         (push_commands key mid t score False now)), db)"
    by (simp add: push_begin_def watch_def none j score_def Let_def)
  let ?db = "run_commands (push_commands key mid t score False now) db"
  have q: "kd_queue ?db = (kd_queue db)(key := kd_queue db key @ [(mid, score)])"
    "kd_lastscore ?db = Some score" "\<And>i. dict_get (kd_msgs ?db) i \<noteq> None \<longleftrightarrow> i = mid \<or> dict_get (kd_msgs db) i \<noteq> None"
  proof -
    have "mid \<notin> fst ` set (kd_queue db key)" using a new by (metis arrivals_def list.set_map)
    then show "kd_queue ?db = (kd_queue db)(key := kd_queue db key @ [(mid, score)])"
      by (simp add: push_commands_def run_commands_def dict_set_new)
    show "kd_lastscore ?db = Some score" "\<And>i. dict_get (kd_msgs ?db) i \<noteq> None \<longleftrightarrow> i = mid \<or> dict_get (kd_msgs db) i \<noteq> None"
      by (auto simp: push_commands_def run_commands_def)
  qed
  have "arrivals (mids(key := mids key @ [mid])) ?db"
    using a above less_imp_le[OF above] unfolding arrivals_def q
    by (auto simp: sorted_wrt_append) fastforce+
  with push_first_try[OF b] show ?thesis by blast
qed

lemma signal_keeps:
  "kd_queue (kt_db (snd (signal Q now k st))) = kd_queue (kt_db st)" "kd_msgs (kt_db (snd (signal Q now k st))) = kd_msgs (kt_db st)"
  "kd_lastscore (kt_db (snd (signal Q now k st))) = kd_lastscore (kt_db st)" "kd_held (kt_db (snd (signal Q now k st))) = kd_held (kt_db st)"
  "kd_keys (kt_db (snd (signal Q now k st))) = kd_keys (kt_db st)" "kd_locks (kt_db (snd (signal Q now k st))) = kd_locks (kt_db st)"
  "kd_all (kt_db (snd (signal Q now k st))) = kd_all (kt_db st)"
  by (auto simp: signal_def mark_signal_def with_world_eq_db split: prod.split sum.split)

lemma arrivals_sorted: "arrivals mids db \<Longrightarrow> map fst (zsorted (kd_queue db k)) = mids k"
proof -
  assume a: "arrivals mids db"
  then have "sorted_wrt (<) (map snd (kd_queue db k))" by (simp add: arrivals_def)
  then have "sorted (map (\<lambda>(m, s). (s, m)) (kd_queue db k))"
    unfolding sorted_wrt_map by (rule sorted_wrt_mono_rel[rotated]) (auto simp: less_eq_prod_def)
  then have "zsorted (kd_queue db k) = kd_queue db k"
    unfolding zsorted_def by (rule sort_key_id_if_sorted)
  with a show ?thesis by (simp add: arrivals_def)
qed

subsection \<open>The granted lease\<close>

lemma get_lock_cong: "kd_locks a = kd_locks b \<Longrightarrow> get_lock now k a = get_lock now k b"
  by (auto simp: get_lock_def expire_lock_def split: option.split)

definition lease_fields :: "keyed_message \<Rightarrow> pydict" where
  "lease_fields m = [(''gen'', PInt (km_gen m + 1)), (''state'', PStr ''leased''), (''wait_until_ms'', PStr []), (''due_ms'', PStr [])]"

text \<open>What holds when a head has been granted.\<close>

definition head_granted :: "'w keyed_queue \<Rightarrow> int \<Rightarrow> string \<Rightarrow> string \<Rightarrow> bool \<Rightarrow> keyed_message \<Rightarrow> 'w keyed_state \<Rightarrow> bool" where
  "head_granted Q now token key ignore_due m st \<longleftrightarrow>
     (\<exists>mid raw m0. zhead (kd_queue (kt_db st) key) = Some mid \<and> to_message (kq_json Q) raw mid = Inr m0 \<and> m = granted_message m0 \<and>
        dict_get (kd_msgs (kt_db st)) mid = Some (hset (lease_fields m0) raw) \<and> dict_get (kd_held (kt_db st)) key = None \<and>
        head_deadline now ignore_due m0 = 0 \<and> \<not> over_age (kq_config Q) now m0 \<and> get_lock now key (kt_db st) = Some token)"

lemma with_db_eq: "with_db f st = (x, st1) \<longleftrightarrow> (\<exists>db. f (kt_db st) = (x, db) \<and> st1 = st\<lparr>kt_db := db\<rparr>)"
  by (auto simp: with_db_def split: prod.split)

lemma expire_head_false:
  "expire_head Q now key m (Some token) fresh st = (Inr False, st1) \<Longrightarrow> st1 = st \<and> \<not> over_age (kq_config Q) now m"
  by (auto simp: expire_head_def split: if_splits prod.splits sum.splits)

lemma grant_exec:
  assumes "grant_begin J now token key mid m db = (Inr (snap, cs), db1)" and "exec_txn now snap cs db1 = (True, db2)"
    and "dict_get (kd_msgs db) mid = Some raw"
  shows "kd_queue db2 = kd_queue db \<and> kd_held db2 = kd_held db \<and> get_lock now key db2 = Some token \<and>
    dict_get (kd_msgs db2) mid = Some (hset (lease_fields m) raw)"
proof -
  from assms(1) obtain m2 where v: "verify_fence J now token key mid (Some (km_gen m)) (Some (km_created_ms m)) db = (Inr (snap, m2), db1)"
    and cs: "cs = [HSetMsg mid (lease_fields m)]"
    by (auto simp: grant_begin_def lease_fields_def split: prod.splits sum.splits)
  from verify_fence_snapshot[OF v] verify_fence_found[OF v] assms(2)
  have "db2 = run_commands cs (expire_lock now key db)" "get_lock now key db = Some token" by (auto simp: exec_fence)
  moreover from this have "get_lock now key db2 = Some token"
    using get_lock_cong[of db2 "expire_lock now key db"] by simp
  ultimately show ?thesis using assms(3) by (simp add: cs run_commands_def)
qed

lemma lease_step_granted:
  assumes "lease_step Q now token key ignore_due st = (Inr (Granted m), st1)"
  shows "head_granted Q now token key ignore_due m st1"
proof -
  obtain mid where z: "zhead (kd_queue (kt_db st) key) = Some mid"
    using assms by (auto simp: lease_step_def split: option.splits)
  obtain c raw where raw: "dict_get (kd_msgs (kt_db st)) mid = Some (c # raw)"
    using assms z by (auto simp: lease_step_def split: option.splits list.splits)
  obtain m0 where m0: "to_message (kq_json Q) (c # raw) mid = Inr m0"
    using assms z raw by (auto simp: lease_step_def split: sum.splits)
  obtain e st2 where e: "expire_head Q now key m0 (Some token) [] st = (e, st2)" by force
  have ef: "e = Inr False"
    using assms by (auto simp: lease_step_def z raw m0 e split: sum.splits bool.splits keyed_exc.splits)
  from expire_head_false[OF e[unfolded ef]] have st2: "st2 = st" and young: "\<not> over_age (kq_config Q) now m0" by auto
  note step = assms[unfolded lease_step_def, unfolded z option.case raw list.case m0 sum.case e ef st2 prod.case bool.case Let_def]
  have h: "dict_get (kd_held (kt_db st)) key = None" "head_deadline now ignore_due m0 = 0"
    using step by (auto split: if_splits)
  obtain g st3 where g: "with_db (grant_begin (kq_json Q) now token key mid m0) st = (g, st3)" by force
  obtain snap cs where p: "g = Inr (snap, cs)"
    using step h by (auto simp: g split: sum.splits keyed_exc.splits)
  obtain b st4 where x: "with_db (exec_txn now snap cs) st3 = (b, st4)" by force
  have "b = True" "st1 = st4" "m = granted_message m0"
    using step h by (auto simp: g p x split: bool.splits)
  with x have x: "with_db (exec_txn now snap cs) st3 = (True, st1)" and m: "m = granted_message m0" by simp_all
  from g p obtain db1 where g1: "grant_begin (kq_json Q) now token key mid m0 (kt_db st) = (Inr (snap, cs), db1)"
    and st3: "kt_db st3 = db1" by (auto simp: with_db_eq)
  from x have x1: "exec_txn now snap cs db1 = (True, kt_db st1)" by (auto simp: with_db_eq st3)
  note keep = grant_exec[OF g1 x1 raw]
  show ?thesis
    unfolding head_granted_def using keep z m0 m h young by (intro exI[of _ mid] exI[of _ "c # raw"] exI[of _ m0]) simp
qed

lemma lease_locked_granted:
  "lease_locked Q now token key ignore_due st = (Inr (Inr m), st1) \<Longrightarrow> head_granted Q now token key ignore_due m st1"
proof (induction Q now token key ignore_due st rule: lease_locked.induct)
  case (1 Q now token key ignore_due st)
  obtain r st2 where s: "lease_step Q now token key ignore_due st = (r, st2)" by force
  from 1 s show ?case
    by (cases r) (auto simp: lease_locked.simps[of Q now token key ignore_due st] intro: lease_step_granted split: head_step.splits)
qed

subsection \<open>The effect of an outcome\<close>

lemma reconcile_keeps:
  "kd_queue (kt_db (snd (reconcile Q now k st))) = kd_queue (kt_db st)" "kd_msgs (kt_db (snd (reconcile Q now k st))) = kd_msgs (kt_db st)"
  "kd_locks (kt_db (snd (reconcile Q now k st))) = kd_locks (kt_db st)" "kd_all (kt_db (snd (reconcile Q now k st))) = kd_all (kt_db st)"
proof -
  have d: "kd_queue (kt_db (drop_key_if_empty now k st)) = kd_queue (kt_db st) \<and> kd_msgs (kt_db (drop_key_if_empty now k st)) = kd_msgs (kt_db st)
     \<and> kd_locks (kt_db (drop_key_if_empty now k st)) = kd_locks (kt_db st) \<and> kd_all (kt_db (drop_key_if_empty now k st)) = kd_all (kt_db st)"
    by (simp add: drop_key_if_empty_def numeral_2_eq_2 watch_def exec_txn_def run_commands_def Let_def)
  show "kd_queue (kt_db (snd (reconcile Q now k st))) = kd_queue (kt_db st)" "kd_msgs (kt_db (snd (reconcile Q now k st))) = kd_msgs (kt_db st)"
    "kd_locks (kt_db (snd (reconcile Q now k st))) = kd_locks (kt_db st)" "kd_all (kt_db (snd (reconcile Q now k st))) = kd_all (kt_db st)"
    unfolding reconcile_def Let_def
    by (simp_all add: d signal_keeps split: option.split list.split sum.split)
qed

lemma release_gone: "get_lock now k (kt_db (release_lock now token k st)) \<noteq> Some token"
  by (auto simp: release_lock_def lock_release_def Let_def get_lock_def expire_lock_def split: option.splits if_splits)

lemma release_keeps:
  "kd_queue (kt_db (release_lock now token k st)) = kd_queue (kt_db st)" "kd_msgs (kt_db (release_lock now token k st)) = kd_msgs (kt_db st)"
  "kd_all (kt_db (release_lock now token k st)) = kd_all (kt_db st)"
  by (simp_all add: release_lock_def lock_release_def Let_def)

lemma ack_keeps:
  "kd_queue (kt_db (ack_signal Q rc k st)) = kd_queue (kt_db st)" "kd_msgs (kt_db (ack_signal Q rc k st)) = kd_msgs (kt_db st)"
  "kd_locks (kt_db (ack_signal Q rc k st)) = kd_locks (kt_db st)" "kd_all (kt_db (ack_signal Q rc k st)) = kd_all (kt_db st)"
  by (simp_all add: ack_signal_def Let_def split: option.split)

lemma applied_commands:
  assumes "apply_outcome Q now l out st = (Inr (), st1)"
  shows "\<exists>raw m. dict_get (kd_msgs (kt_db st)) (km_message_id (kl_message l)) = Some raw \<and>
    to_message (kq_json Q) raw (km_message_id (kl_message l)) = Inr m \<and> km_gen m = kl_gen l \<and>
    (let db = run_commands (outcome_commands (kq_config Q) now (kl_key l) (km_message_id (kl_message l)) out m
         (fst (effective_kind (kq_config Q) out m))) (kt_db st)
     in kd_queue (kt_db st1) = kd_queue db \<and> kd_msgs (kt_db st1) = kd_msgs db \<and> kd_all (kt_db st1) = kd_all db) \<and>
    get_lock now (kl_key l) (kt_db st) = Some (kl_token l) \<and> get_lock now (kl_key l) (kt_db st1) \<noteq> Some (kl_token l)"
proof -
  obtain snap cs kind st2 where b: "apply_begin Q now l out st = (Inr (snap, cs, kind), st2)"
    and f: "apply_finish Q now l (snap, cs, kind) st2 = (Inr (), st1)"
    using assms by (auto simp: apply_outcome_def split: prod.splits sum.splits)
  from apply_begin_fence[OF b] obtain m where
    v: "verify_fence (kq_json Q) now (kl_token l) (kl_key l) (km_message_id (kl_message l)) (Some (kl_gen l)) None (kt_db st) =
      (Inr (snap, m), kt_db st2)" and kind: "kind = fst (effective_kind (kq_config Q) out m)"
    and cs: "cs = outcome_commands (kq_config Q) now (kl_key l) (km_message_id (kl_message l)) out m kind"
    by blast
  let ?db = "run_commands cs (expire_lock now (kl_key l) (kt_db st))"
  have x: "with_db (exec_txn now snap cs) st2 = (True, st2\<lparr>kt_db := ?db\<rparr>)"
    using verify_fence_snapshot[OF v] by (simp add: with_db_def exec_fence)
  define st3 where "st3 = release_lock now (kl_token l) (kl_key l) (st2\<lparr>kt_db := ?db\<rparr>)"
  obtain r st4 where r: "(if kind \<noteq> Hold then reconcile Q now (kl_key l) st3 else (Inr False, st3)) = (r, st4)" by force
  have "apply_finish Q now l (snap, cs, kind) st2 =
      (case (if kind \<noteq> Hold then reconcile Q now (kl_key l) st3 else (Inr False, st3)) of
         (Inl x, st5) \<Rightarrow> (Inl x, st5)
       | (Inr _, st5) \<Rightarrow> (Inr (), ack_signal Q (kl_receipt l) (Some (kl_key l)) st5))"
    unfolding apply_finish_def st3_def by (simp add: x Let_def)
  with f r have st1: "st1 = ack_signal Q (kl_receipt l) (Some (kl_key l)) st4" by (auto split: sum.splits)
  have k4: "kd_queue (kt_db st4) = kd_queue (kt_db st3)" "kd_msgs (kt_db st4) = kd_msgs (kt_db st3)"
    "kd_locks (kt_db st4) = kd_locks (kt_db st3)" "kd_all (kt_db st4) = kd_all (kt_db st3)"
    using r reconcile_keeps[of Q now "kl_key l" st3] by (auto split: if_splits)
  have parts: "kd_queue (run_commands cs (expire_lock now (kl_key l) (kt_db st))) = kd_queue (run_commands cs (kt_db st)) \<and>
     kd_msgs (run_commands cs (expire_lock now (kl_key l) (kt_db st))) = kd_msgs (run_commands cs (kt_db st)) \<and>
     kd_all (run_commands cs (expire_lock now (kl_key l) (kt_db st))) = kd_all (run_commands cs (kt_db st))"
    unfolding cs outcome_commands_def by (simp add: run_commands_def Let_def dict_del_none split: outcome_kind.split)
  have lock: "get_lock now (kl_key l) (kt_db st1) \<noteq> Some (kl_token l)"
    using release_gone[of now "kl_key l" "kl_token l" "st2\<lparr>kt_db := ?db\<rparr>"] get_lock_cong[of "kt_db st1" "kt_db st3" now "kl_key l"]
    by (simp add: st1 ack_keeps k4 st3_def)
  show ?thesis
    using verify_fence_found[OF v] lock parts kind cs
    by (auto simp: st1 ack_keeps k4 st3_def release_keeps Let_def)
qed

text \<open>The message after the hash was updated.\<close>

lemma to_message_hset:
  assumes "to_message J raw mid = Inr m"
  shows "to_message J (hset [(''attempts'', PInt a), (''due_ms'', PInt d), (''last_error'', PStr e), (''state'', PStr ''pending'')] raw) mid =
      Inr (m\<lparr>km_attempts := a, km_due_ms := Some d, km_state := ''pending'', km_last_error := or_none e\<rparr>)"
    and "to_message J (hset [(''state'', PStr ''waiting''), (''wait_until_ms'', PInt u), (''last_error'', PStr e)] raw) mid =
      Inr (m\<lparr>km_state := ''waiting'', km_wait_until_ms := Some u, km_last_error := or_none e\<rparr>)"
    and "to_message J (hset [(''state'', PStr ''held''), (''last_error'', PStr e)] raw) mid =
      Inr (m\<lparr>km_state := ''held'', km_last_error := or_none e\<rparr>)"
proof -
  from assms obtain k b order created attempts wait_until due g d' where
    parts: "dict_get raw ''key'' = Some k" "loads J (as_text (field raw ''body'' (PStr ''{}''))) = Inr b"
      "as_real (field raw ''order'' (PInt 0)) = Inr order" "as_int (field raw ''created_ms'' (PInt 0)) = Inr created"
      "as_int (field raw ''attempts'' (PInt 0)) = Inr attempts" "opt_ms (dict_get raw ''wait_until_ms'') = Inr wait_until"
      "opt_ms (dict_get raw ''due_ms'') = Inr due" "as_int (field raw ''gen'' (PInt 0)) = Inr g" "as_mapping b = Inr d'"
    and m: "m = \<lparr>km_message_id = (if mid = [] then as_text (field raw ''message_id'' (PStr [])) else mid),
             km_key = as_text k, km_body = d', km_order = order, km_created_ms = created, km_attempts = attempts,
             km_state = as_text (field raw ''state'' (PStr ''pending'')),
             km_last_error = or_none (as_text (field raw ''last_error'' (PStr []))),
             km_wait_until_ms = wait_until, km_due_ms = due, km_gen = g\<rparr>"
    by (auto simp: to_message_def bind_r_Inr_iff of_opt_def split: option.splits if_splits)
  have f: "field (dict_set x v h) y d = (if x = y then v else field h y d)" for x v h y d by (simp add: field_def)
  note s = to_message_def hset_def f parts m STATES_def
  show "to_message J (hset [(''attempts'', PInt a), (''due_ms'', PInt d), (''last_error'', PStr e), (''state'', PStr ''pending'')] raw) mid =
      Inr (m\<lparr>km_attempts := a, km_due_ms := Some d, km_state := ''pending'', km_last_error := or_none e\<rparr>)"
    by (simp add: s)
  show "to_message J (hset [(''state'', PStr ''waiting''), (''wait_until_ms'', PInt u), (''last_error'', PStr e)] raw) mid =
      Inr (m\<lparr>km_state := ''waiting'', km_wait_until_ms := Some u, km_last_error := or_none e\<rparr>)"
    by (simp add: s)
  show "to_message J (hset [(''state'', PStr ''held''), (''last_error'', PStr e)] raw) mid =
      Inr (m\<lparr>km_state := ''held'', km_last_error := or_none e\<rparr>)"
    by (simp add: s)
qed

end
