(* ===== verification/KeyedProps.thy ===== *)
theory KeyedProps
  imports KeyedOrder
begin

text \<open>
  Properties of the keyed queue: the work on a key is serialised by its lock, an outcome is written
  only while the lock is held and the message is the one that was leased, the loop over a head ends,
  and the backoff is the capped exponential.
\<close>

subsection \<open>A sample queue\<close>

text \<open>The signal stream is the list of the keys that were signalled; a body is its text ''1''.\<close>

definition key_plane :: "string list signal_plane" where
  "key_plane = \<lparr>sp_send = (\<lambda>t b w. (Inr ''i'', w @ [as_text (field b ''key'' PNone)])), sp_receive = (\<lambda>now wait w. (Inr [], w)),
     sp_delete = (\<lambda>r w. w), sp_visibility = (\<lambda>r n w. (True, w)), sp_pending = (\<lambda>r w. (True, w)),
     sp_groups = (\<lambda>w. (Some [], w)), sp_entry_after = (\<lambda>i w. (False, w))\<rparr>"

definition key_signal :: queue_config where
  "key_signal = \<lparr>qc_name = ''s'', qc_groups = [], qc_default_visibility_ms = 20, qc_max_visibility_ms = 30, qc_max_receives = 3,
     qc_maxlen = 100, qc_max_body_bytes = 100, qc_strict_ack = True, qc_delete_entries = True, qc_mirror_to_bus = False,
     qc_topic_prefix = None, qc_producer_tokens = [], qc_consumer_tokens = [], qc_admin_tokens = []\<rparr>"

definition key_config :: keyed_config where
  "key_config = \<lparr>kc_name = ''q'', kc_signal = key_signal, kc_lock_ttl_ms = 10, kc_call_timeout_ms = 5, kc_max_attempts = 2,
     kc_max_age_ms = None, kc_retry_base_ms = 4, kc_retry_max_ms = 9, kc_retry_factor = 2, kc_promote_batch = 10,
     kc_pause_default_ttl_ms = 5, kc_pause_poll_ms = 1, kc_recover_interval_ms = 5, kc_wait_safety_ms = None, kc_prefix = ''p:''\<rparr>"

definition key_json :: json_codec where
  "key_json = \<lparr>dumps = (\<lambda>v. Inr ''1''), loads = (\<lambda>t. Inr (PDict [(''n'', PInt 1)]))\<rparr>"

definition key_queue :: "string list keyed_queue" where
  "key_queue = \<lparr>kq_config = key_config, kq_json = key_json, kq_plane = key_plane, kq_on_dlq = None, kq_consumer = ''c''\<rparr>"

definition key_empty :: "string list keyed_state" where
  "key_empty = \<lparr>kt_db = keyed_db_new, kt_world = [], kt_expired = 0\<rparr>"

definition key_hash :: pydict where
  "key_hash = [(''message_id'', PStr ''m''), (''key'', PStr ''k''), (''body'', PStr ''1''), (''order'', PFloat 0),
     (''created_ms'', PInt 0), (''attempts'', PInt 0), (''state'', PStr ''pending''), (''gen'', PInt 0)]"

text \<open>One message, leased under the lock ''t'' at time 0.\<close>

definition key_leased :: "string list keyed_state" where
  "key_leased = key_empty\<lparr>kt_db := keyed_db_new\<lparr>kd_msgs := [(''m'', dict_set ''gen'' (PInt 1) key_hash)],
     kd_queue := (\<lambda>k. if k = ''k'' then [(''m'', 0)] else []), kd_keys := [''k''], kd_all := [(''m'', 0)],
     kd_locks := [(''k'', ''t'', 10)]\<rparr>\<rparr>"

definition key_message :: keyed_message where
  "key_message = \<lparr>km_message_id = ''m'', km_key = ''k'', km_body = [(''n'', PInt 1)], km_order = 0, km_created_ms = 0,
     km_attempts = 0, km_state = ''leased'', km_last_error = None, km_wait_until_ms = None, km_due_ms = None, km_gen = 1\<rparr>"

definition key_lease :: keyed_lease where
  "key_lease = \<lparr>kl_key = ''k'', kl_message = key_message, kl_token = ''t'', kl_gen = 1, kl_receipt = None\<rparr>"

lemmas key_defs = key_plane_def key_signal_def key_config_def key_json_def key_queue_def key_empty_def key_hash_def key_leased_def
  key_message_def key_lease_def

subsection \<open>Serialised work\<close>



subsection \<open>Fenced outcomes\<close>



subsection \<open>The loop over a head\<close>

text \<open>The loop of the lease, at most \<open>n\<close> turns of it.\<close>

fun lease_turns ::
    "nat \<Rightarrow> 'w keyed_queue \<Rightarrow> int \<Rightarrow> string \<Rightarrow> string \<Rightarrow> bool \<Rightarrow> 'w keyed_state \<Rightarrow>
     ((string + keyed_message) kresult \<times> 'w keyed_state) option" where
  "lease_turns 0 Q now token key ignore_due st = None"
| "lease_turns (Suc n) Q now token key ignore_due st =
     (case lease_step Q now token key ignore_due st of
        (Inl x, st1) \<Rightarrow> Some (Inl x, st1)
      | (Inr Again, st1) \<Rightarrow> lease_turns n Q now token key ignore_due st1
      | (Inr (Stop reason), st1) \<Rightarrow> Some (Inr (Inl reason), st1)
      | (Inr (Granted m), st1) \<Rightarrow> Some (Inr (Inr m), st1))"

lemma lease_turns_enough:
  "lease_measure key st < n \<Longrightarrow> lease_turns n Q now token key ignore_due st = Some (lease_locked Q now token key ignore_due st)"
proof (induction n arbitrary: st)
  case (Suc n)
  obtain r st1 where s: "lease_step Q now token key ignore_due st = (r, st1)" by force
  show ?case
  proof (cases "r = Inr Again")
    case True
    with lease_step_again[of Q now token key ignore_due st st1] s Suc.prems have "lease_measure key st1 < n" by simp
    from Suc.IH[OF this] s True show ?thesis by (simp add: lease_locked.simps[of Q now token key ignore_due st])
  next
    case False
    with s show ?thesis
      by (auto simp: lease_locked.simps[of Q now token key ignore_due st] split: sum.split head_step.split)
  qed
qed simp

text \<open>The loop that looks for a leasable head ends: every turn that does not answer takes a dangling member
  out of the set or an expired message out of the queue, so one turn more than there are members and
  messages is enough.\<close>

theorem lease_loop_ends:
  "lease_turns (Suc (length (kd_queue (kt_db st) key) + length (kd_msgs (kt_db st)))) Q now token key ignore_due st =
   Some (lease_locked Q now token key ignore_due st)"
  by (rule lease_turns_enough) (simp add: lease_measure_def)

subsection \<open>Backoff\<close>

text \<open>The delay before a retry is the exponential one, capped: the early exits, which keep the power from
  overflowing, do not change the value.\<close>

theorem backoff_is_capped_exponential:
  assumes "0 < base_ms" and "base_ms \<le> max_ms" and "1 \<le> factor" and "0 \<le> attempts"
  shows "backoff_ms attempts base_ms max_ms factor =
    \<lfloor>min (real_of_int max_ms) (real_of_int base_ms * factor ^ nat attempts)\<rfloor>"
proof -
  have p: "1 \<le> factor ^ nat attempts" using assms(3) by simp
  consider (flat) "base_ms = max_ms" | (first) "base_ms < max_ms" "attempts = 0 \<or> factor = 1"
    | (cap) "base_ms < max_ms" "0 < attempts" "1 < factor" "real_of_int attempts \<ge> ln (real_of_int max_ms / real_of_int base_ms) / ln factor"
    | (grow) "base_ms < max_ms" "0 < attempts" "1 < factor" "\<not> real_of_int attempts \<ge> ln (real_of_int max_ms / real_of_int base_ms) / ln factor"
    using assms by linarith
  then show ?thesis
  proof cases
    case flat
    have "real_of_int max_ms \<le> real_of_int max_ms * factor ^ nat attempts"
      using p assms(1) flat by (simp add: mult_le_cancel_left1)
    with flat show ?thesis by (simp add: backoff_ms_def min_absorb1)
  next
    case first
    then show ?thesis using assms by (auto simp: backoff_ms_def min_absorb2)
  next
    case cap
    have "ln (real_of_int max_ms / real_of_int base_ms) \<le> real (nat attempts) * ln factor"
      using cap by (simp add: pos_divide_le_eq)
    then have "ln (real_of_int max_ms / real_of_int base_ms) \<le> ln (factor ^ nat attempts)"
      using cap by (simp add: ln_realpow)
    then have "real_of_int max_ms / real_of_int base_ms \<le> factor ^ nat attempts"
      using cap assms(1) by (subst (asm) ln_le_cancel_iff) auto
    then have "real_of_int max_ms \<le> real_of_int base_ms * factor ^ nat attempts"
      using assms(1) by (simp add: pos_divide_le_eq mult.commute)
    with cap show ?thesis by (simp add: backoff_ms_def min_absorb1)
  next
    case grow
    then show ?thesis by (simp add: backoff_ms_def)
  qed
qed

theorem backoff_is_capped_exponential_witness:
  "backoff_ms 1 4 9 2 = 8"
  using backoff_is_capped_exponential[of 4 9 2 1] by simp

subsection \<open>Order\<close>

text \<open>A series of pushes without an explicit order: clock, key, id and body.\<close>

definition push_all :: "'w keyed_queue \<Rightarrow> (int \<times> string \<times> string \<times> pydict) list \<Rightarrow> 'w keyed_state \<Rightarrow> 'w keyed_state" where
  "push_all Q ps st = fold (\<lambda>(now, key, mid, body) s. snd (push Q now [] key body (Some mid) None s)) ps st"

lemma push_all_arrivals:
  assumes "arrivals mids (kt_db st)" and "distinct (map (fst \<circ> snd \<circ> snd) ps)"
    and "\<forall>(now, key, mid, body) \<in> set ps. mid \<noteq> [] \<and> (\<forall>k. mid \<notin> set (mids k)) \<and> \<not> isl (dumps (kq_json Q) (PDict body))"
  shows "arrivals (\<lambda>k. mids k @ map (fst \<circ> snd \<circ> snd) (filter (\<lambda>p. fst (snd p) = k) ps)) (kt_db (push_all Q ps st))"
  using assms
proof (induction ps arbitrary: mids st)
  case (Cons p ps)
  obtain now key mid body where p: "p = (now, key, mid, body)" by (cases p)
  obtain t where t: "dumps (kq_json Q) (PDict body) = Inr t"
    using Cons.prems(3) p by (cases "dumps (kq_json Q) (PDict body)") auto
  have new: "\<forall>k. mid \<notin> set (mids k)" and ne: "mid \<noteq> []" using Cons.prems(3) p by auto
  let ?mids = "mids(key := mids key @ [mid])"
  obtain db1 where tries: "push_tries 64 (kq_json Q) now key body mid None (kt_db st) = (Inr (), db1)" and a: "arrivals ?mids db1"
    using push_arrivals[OF Cons.prems(1) new t, of now key] by blast
  have "push Q now [] key body (Some mid) None st =
      apfst (map_sum id (\<lambda>_. mid)) (signal Q now key (st\<lparr>kt_db := db1\<rparr>))"
    using ne tries by (cases mid) (simp_all add: push_def with_db_def)
  then have st: "push_all Q (p # ps) st = push_all Q ps (snd (signal Q now key (st\<lparr>kt_db := db1\<rparr>)))"
    by (simp add: push_all_def p)
  have ar: "arrivals ?mids (kt_db (snd (signal Q now key (st\<lparr>kt_db := db1\<rparr>))))"
    using a by (simp add: arrivals_def signal_keeps)
  have d: "distinct (map (fst \<circ> snd \<circ> snd) ps)" using Cons.prems(2) by (simp add: comp_def)
  have b: "\<forall>(now, key, mid, body) \<in> set ps. mid \<noteq> [] \<and> (\<forall>k. mid \<notin> set (?mids k)) \<and> \<not> isl (dumps (kq_json Q) (PDict body))"
  proof (intro ballI, clarify)
    fix now' key' mid' body'
    assume e: "(now', key', mid', body') \<in> set ps"
    with Cons.prems(2) have "mid' \<noteq> mid" by (force simp: p)
    with e Cons.prems(3) show "mid' \<noteq> [] \<and> (\<forall>k. mid' \<notin> set (?mids k)) \<and> \<not> isl (dumps (kq_json Q) (PDict body'))" by auto
  qed
  from Cons.IH[OF ar d b] show ?case
    unfolding st by (rule back_subst[of "\<lambda>f. arrivals f _"]) (auto simp: p)
qed (simp add: push_all_def)



subsection \<open>Leases\<close>

text \<open>A lease is on the head of its key, the message with the least score (the least id among equals): the key is
  not held, the message is neither waiting nor due later nor over age, its hash now says leased, with the next
  generation, and the lock of the key is the lease's.\<close>

theorem lease_takes_head:
  assumes "lease_key_detailed Q now token key rc ignore_due st = (Inr (Inr l), st1)"
  shows "\<exists>mid raw m. zhead (kd_queue (kt_db st1) key) = Some mid \<and> to_message (kq_json Q) raw mid = Inr m \<and>
    l = \<lparr>kl_key = key, kl_message = granted_message m, kl_token = token, kl_gen = km_gen m + 1, kl_receipt = rc\<rparr> \<and>
    dict_get (kd_msgs (kt_db st1)) mid = Some (hset (lease_fields m) raw) \<and> get_lock now key (kt_db st1) = Some token \<and>
    dict_get (kd_held (kt_db st1)) key = None \<and> head_deadline now ignore_due m = 0 \<and> \<not> over_age (kq_config Q) now m"
proof -
  obtain st2 m where "lease_locked Q now token key ignore_due st2 = (Inr (Inr m), st1)"
    and l: "l = \<lparr>kl_key = key, kl_message = m, kl_token = token, kl_gen = km_gen m, kl_receipt = rc\<rparr>"
    using assms by (auto simp: lease_key_detailed_def split: prod.splits bool.splits sum.splits)
  from lease_locked_granted[OF this(1)] obtain mid raw m0 where h: "zhead (kd_queue (kt_db st1) key) = Some mid"
      "to_message (kq_json Q) raw mid = Inr m0" "m = granted_message m0" "dict_get (kd_msgs (kt_db st1)) mid = Some (hset (lease_fields m0) raw)"
      "dict_get (kd_held (kt_db st1)) key = None" "head_deadline now ignore_due m0 = 0" "\<not> over_age (kq_config Q) now m0"
      "get_lock now key (kt_db st1) = Some token"
    unfolding head_granted_def by blast
  then show ?thesis
    by (intro exI[of _ mid] exI[of _ raw] exI[of _ m0]) (simp add: l granted_message_def)
qed

definition key_pushed :: "string list keyed_state" where
  "key_pushed = key_empty\<lparr>kt_db := keyed_db_new\<lparr>kd_msgs := [(''m'', key_hash)],
     kd_queue := (\<lambda>k. if k = ''k'' then [(''m'', 0)] else []), kd_keys := [''k''], kd_all := [(''m'', 0)]\<rparr>\<rparr>"

lemma key_lock_acquired:
  "with_db (lock_acquire 0 (kc_lock_ttl_ms (kq_config key_queue)) ''t'' ''k'') key_pushed =
     (True, key_pushed\<lparr>kt_db := bump_key (LockOf ''k'') ((kt_db key_pushed)\<lparr>kd_locks := [(''k'', ''t'', 10)]\<rparr>)\<rparr>)"
  by (simp add: with_db_def lock_acquire_def expire_lock_def key_pushed_def key_empty_def keyed_db_new_def key_queue_def key_config_def
      bump_key_def)

lemma key_granted:
  "\<exists>st1. lease_key_detailed key_queue 0 ''t'' ''k'' None False key_pushed = (Inr (Inr key_lease), st1)"
proof -
  define st where "st = key_pushed\<lparr>kt_db := bump_key (LockOf ''k'') ((kt_db key_pushed)\<lparr>kd_locks := [(''k'', ''t'', 10)]\<rparr>)\<rparr>"
  define m0 where "m0 = key_message\<lparr>km_gen := 0, km_state := ''pending''\<rparr>"
  have m: "to_message (kq_json key_queue) key_hash ''m'' = Inr m0"
    by (simp add: to_message_def key_defs field_def STATES_def or_none_def m0_def)
  have z: "zhead (kd_queue (kt_db st) ''k'') = Some ''m''" by (simp add: zhead_def zsorted_def key_pushed_def st_def)
  have h: "dict_get (kd_msgs (kt_db st)) ''m'' = Some key_hash" "dict_get (kd_held (kt_db st)) ''k'' = None"
    by (simp_all add: key_pushed_def keyed_db_new_def st_def)
  have e: "expire_head key_queue 0 ''k'' m0 (Some ''t'') [] st = (Inr False, st)"
    by (simp add: expire_head_def over_age_def key_queue_def key_config_def)
  have d: "head_deadline 0 False m0 = 0" by (simp add: head_deadline_def m0_def key_message_def)
  have x: "expire_lock 0 ''k'' (kt_db st) = kt_db st" by (simp add: expire_lock_def st_def)
  have lk: "dict_get (kd_locks (kt_db st)) ''k'' = Some (''t'', 10)" by (simp add: st_def)
  obtain c hs where ne: "key_hash = c # hs" by (simp add: key_hash_def)
  define snap where "snap = [(LockOf ''k'', kd_versions (kt_db st) (LockOf ''k'')), (MsgOf ''m'', kd_versions (kt_db st) (MsgOf ''m''))]"
  have v: "verify_fence (kq_json key_queue) 0 ''t'' ''k'' ''m'' (Some (km_gen m0)) (Some (km_created_ms m0)) (kt_db st) =
      (Inr (snap, m0), kt_db st)"
    using m h(1) by (simp add: verify_fence_def watch_def x lk get_lock_def ne snap_def Let_def)
  have g: "with_db (grant_begin (kq_json key_queue) 0 ''t'' ''k'' ''m'' m0) st = (Inr (snap, [HSetMsg ''m'' (lease_fields m0)]), st)"
    by (simp add: grant_begin_def v with_db_def lease_fields_def)
  have "fst (with_db (exec_txn 0 snap cs) st)" for cs
    by (simp add: with_db_def exec_txn_def snap_def x Let_def split: prod.split)
  then obtain st1 where "with_db (exec_txn 0 snap [HSetMsg ''m'' (lease_fields m0)]) st = (True, st1)"
    by (metis (full_types) prod.collapse)
  then have s: "lease_step key_queue 0 ''t'' ''k'' False st = (Inr (Granted (granted_message m0)), st1)"
    unfolding lease_step_def z option.case h ne list.case m[unfolded ne] sum.case e prod.case bool.case
    by (simp add: h d g Let_def)
  have "granted_message m0 = key_message" by (simp add: granted_message_def m0_def key_message_def)
  with s show ?thesis
    by (simp add: lease_key_detailed_def key_lock_acquired[folded st_def] lease_locked.simps[of key_queue 0 "''t''" "''k''" False st] key_lease_def
        key_message_def)
qed

theorem lease_takes_head_witness:
  "\<exists>st1. lease_key_detailed key_queue 0 ''t'' ''k'' None False key_pushed = (Inr (Inr key_lease), st1) \<and>
     get_lock 0 ''k'' (kt_db st1) = Some ''t''"
proof -
  from key_granted obtain st1 where l: "lease_key_detailed key_queue 0 ''t'' ''k'' None False key_pushed = (Inr (Inr key_lease), st1)" ..
  from lease_takes_head[OF l] l show ?thesis by blast
qed



end
