(* ===== verification/KeyedDrain.thy ===== *)
theory KeyedDrain
  imports KeyedApply
begin

text \<open>
  The two users of a keyed queue: the worker loop of queues/keyed/consumer.py and the administrative
  flush of queues/keyed/drainer.py.  A handler acts on the world behind the queue; its run takes time,
  so the instant after it is an argument.  The task that keeps a lease extended is \<open>extend_lease\<close>.
\<close>

subsection \<open>Handlers\<close>

datatype handler_result = Returned_outcome keyed_outcome | Returned_other string | Timed_out | Failed string string

type_synonym 'w handler = "keyed_message \<Rightarrow> 'w \<Rightarrow> handler_result \<times> 'w"

definition retry_because :: "string \<Rightarrow> keyed_outcome" where
  "retry_because reason = \<lparr>ko_kind = Retry, ko_delay_ms = None, ko_until_ms = None, ko_reason = Some reason\<rparr>"

fun handler_outcome :: "int \<Rightarrow> handler_result \<Rightarrow> keyed_outcome" where
  "handler_outcome timeout_ms (Returned_outcome out) = out"
| "handler_outcome timeout_ms (Returned_other type_name) =
     retry_because (''TypeError: handler returned '' @ type_name @ '', not Outcome'')"
| "handler_outcome timeout_ms Timed_out = retry_because (''handler timed out after '' @ int_str timeout_ms @ '' ms'')"
| "handler_outcome timeout_ms (Failed type_name msg) = retry_because (type_name @ '': '' @ msg)"

definition run_handler :: "'w handler \<Rightarrow> int \<Rightarrow> keyed_lease \<Rightarrow> 'w keyed_state \<Rightarrow> keyed_outcome \<times> 'w keyed_state" where
  "run_handler h timeout_ms l st =
     (case with_world (h (kl_message l)) st of (r, st1) \<Rightarrow> (handler_outcome timeout_ms r, st1))"

subsection \<open>The consumer\<close>

text \<open>One iteration: the outcome applied, or nothing; \<open>later\<close> is the time when the handler is done.\<close>

definition run_once ::
    "'w keyed_queue \<Rightarrow> int \<Rightarrow> int \<Rightarrow> int \<Rightarrow> (nat \<Rightarrow> string) \<Rightarrow> 'w handler \<Rightarrow> 'w keyed_state \<Rightarrow>
     keyed_outcome option kresult \<times> 'w keyed_state" where
  "run_once Q now later wait_ms tokens h st =
     (if is_paused now st \<noteq> None then (Inr None, st)
      else (case recover Q now False st of
              (Inl x, st1) \<Rightarrow> (Inl x, st1)
            | (Inr _, st1) \<Rightarrow>
                (case promote_due Q now None st1 of
                   (Inl x, st2) \<Rightarrow> (Inl x, st2)
                 | (Inr _, st2) \<Rightarrow>
                     (case lease Q now wait_ms tokens st2 of
                        (Inl x, st3) \<Rightarrow> (Inl x, st3)
                      | (Inr None, st3) \<Rightarrow> (Inr None, st3)
                      | (Inr (Some l), st3) \<Rightarrow>
                          (case run_handler h (kc_call_timeout_ms (kq_config Q)) l st3 of
                             (out, st4) \<Rightarrow>
                               (case apply_outcome Q later l out st4 of
                                  (Inl (LeaseLost t), st5) \<Rightarrow> (Inr None, st5)
                                | (Inl (KeyedRaised x), st5) \<Rightarrow> (Inl (KeyedRaised x), st5)
                                | (Inr _, st5) \<Rightarrow> (Inr (Some out), st5)))))))"

subsection \<open>The drain\<close>

record drain_state =
  ds_report :: drain_report
  ds_consecutive_retries :: nat

text \<open>What an applied outcome counts as; whether the key goes on.\<close>

definition count_outcome :: "nat \<Rightarrow> outcome_kind \<Rightarrow> drain_state \<Rightarrow> bool \<times> drain_state" where
  "count_outcome stop_after kind d =
     (let r = ds_report d
      in case kind of
           Ack \<Rightarrow> (True, d\<lparr>ds_report := r\<lparr>dr_acked := Suc (dr_acked r)\<rparr>, ds_consecutive_retries := 0\<rparr>)
         | Retry \<Rightarrow>
             (let n = Suc (ds_consecutive_retries d)
              in (False, d\<lparr>ds_report := r\<lparr>dr_retried := Suc (dr_retried r),
                      dr_stopped_early := (dr_stopped_early r \<or> n \<ge> stop_after)\<rparr>, ds_consecutive_retries := n\<rparr>))
         | Wait \<Rightarrow> (False, d\<lparr>ds_report := r\<lparr>dr_waited := Suc (dr_waited r)\<rparr>\<rparr>)
         | Hold \<Rightarrow> (False, d\<lparr>ds_report := r\<lparr>dr_held := Suc (dr_held r)\<rparr>\<rparr>))"

definition count_busy :: "drain_state \<Rightarrow> drain_state" where
  "count_busy d = d\<lparr>ds_report := (ds_report d)\<lparr>dr_busy := Suc (dr_busy (ds_report d))\<rparr>\<rparr>"

text \<open>
  One head of a key: lease, handle, apply, count; \<^const>\<open>True\<close> to go on with the next.  An error gives
  the lock back and ends the drain.
\<close>

definition drain_head ::
    "'w keyed_queue \<Rightarrow> int \<Rightarrow> string \<Rightarrow> string \<Rightarrow> 'w handler \<Rightarrow> int \<Rightarrow> nat \<Rightarrow> drain_state \<Rightarrow> 'w keyed_state \<Rightarrow>
     (bool \<times> drain_state) kresult \<times> 'w keyed_state" where
  "drain_head Q now token key h timeout_ms stop_after d st =
     (case lease_key_detailed Q now token key None True st of
        (Inl x, st1) \<Rightarrow> (Inl x, st1)
      | (Inr (Inl reason), st1) \<Rightarrow> (Inr (False, if reason = ''busy'' then count_busy d else d), st1)
      | (Inr (Inr l), st1) \<Rightarrow>
          (case run_handler h timeout_ms l st1 of
             (out, st2) \<Rightarrow>
               (case apply_outcome Q now l out st2 of
                  (Inl (LeaseLost t), st3) \<Rightarrow> (Inr (False, count_busy d), st3)
                | (Inl (KeyedRaised x), st3) \<Rightarrow> (Inl (KeyedRaised x), release_lock now token key st3)
                | (Inr _, st3) \<Rightarrow> (Inr (count_outcome stop_after (ko_kind out) d), st3))))"

text \<open>At most \<open>n\<close> heads of a key; the i-th is leased under the token \<open>tokens i\<close>.\<close>

fun drain_key ::
    "nat \<Rightarrow> 'w keyed_queue \<Rightarrow> int \<Rightarrow> (nat \<Rightarrow> string) \<Rightarrow> string \<Rightarrow> 'w handler \<Rightarrow> int \<Rightarrow> nat \<Rightarrow> drain_state \<Rightarrow> 'w keyed_state \<Rightarrow>
     drain_state option kresult \<times> 'w keyed_state" where
  "drain_key 0 Q now tokens key h timeout_ms stop_after d st = (Inr None, st)"
| "drain_key (Suc n) Q now tokens key h timeout_ms stop_after d st =
     (if dr_stopped_early (ds_report d) then (Inr (Some d), st)
      else (case drain_head Q now (tokens n) key h timeout_ms stop_after d st of
              (Inl x, st1) \<Rightarrow> (Inl x, st1)
            | (Inr (True, d1), st1) \<Rightarrow> drain_key n Q now tokens key h timeout_ms stop_after d1 st1
            | (Inr (False, d1), st1) \<Rightarrow> (Inr (Some d1), st1)))"

text \<open>The keys to drain, in order, and the holds to release first.\<close>

definition drain_candidates :: "string option \<Rightarrow> bool \<Rightarrow> keyed_db \<Rightarrow> string list" where
  "drain_candidates key_prefix include_held db =
     (let names = remdups (kd_keys db @ map fst (kd_delayed db));
          chosen = (case key_prefix of Some (c # cs) \<Rightarrow> filter (\<lambda>n. py_startswith n (c # cs)) names | _ \<Rightarrow> names)
      in filter (\<lambda>k. include_held \<or> dict_get (kd_held db) k = None) (sort chosen))"

fun release_holds :: "'w keyed_queue \<Rightarrow> int \<Rightarrow> string list \<Rightarrow> 'w keyed_state \<Rightarrow> unit kresult \<times> 'w keyed_state" where
  "release_holds Q now [] st = (Inr (), st)"
| "release_holds Q now (k # ks) st =
     (case release_hold Q now k st of
        (Inl x, st1) \<Rightarrow> (Inl x, st1)
      | (Inr _, st1) \<Rightarrow> release_holds Q now ks st1)"

text \<open>The keys one after the other: a concurrency of one.  Draining a key needs one round more than there are messages.\<close>

fun drain_keys ::
    "'w keyed_queue \<Rightarrow> int \<Rightarrow> (string \<Rightarrow> nat \<Rightarrow> string) \<Rightarrow> string list \<Rightarrow> 'w handler \<Rightarrow> int \<Rightarrow> nat \<Rightarrow> drain_state \<Rightarrow> 'w keyed_state \<Rightarrow>
     drain_state kresult \<times> 'w keyed_state" where
  "drain_keys Q now tokens [] h timeout_ms stop_after d st = (Inr d, st)"
| "drain_keys Q now tokens (k # ks) h timeout_ms stop_after d st =
     (case drain_key (Suc (length (kd_msgs (kt_db st)))) Q now (tokens k) k h timeout_ms stop_after d st of
        (Inl x, st1) \<Rightarrow> (Inl x, st1)
      | (Inr None, st1) \<Rightarrow> (Inr d, st1)
      | (Inr (Some d1), st1) \<Rightarrow> drain_keys Q now tokens ks h timeout_ms stop_after d1 st1)"

definition drain ::
    "'w keyed_queue \<Rightarrow> int \<Rightarrow> (string \<Rightarrow> nat \<Rightarrow> string) \<Rightarrow> 'w handler \<Rightarrow> string option \<Rightarrow> int option \<Rightarrow> nat \<Rightarrow> bool \<Rightarrow> bool \<Rightarrow>
     'w keyed_state \<Rightarrow> drain_report kresult \<times> 'w keyed_state" where
  "drain Q now tokens h key_prefix call_timeout_ms stop_after include_held ignore_pause st =
     (if \<not> ignore_pause \<and> is_paused now st \<noteq> None
      then (Inr (drain_report_new\<lparr>dr_stopped_early := True\<rparr>), st)
      else (let timeout = (case call_timeout_ms of Some n \<Rightarrow> if n = 0 then kc_call_timeout_ms (kq_config Q) else n
                   | None \<Rightarrow> kc_call_timeout_ms (kq_config Q));
                candidates = drain_candidates key_prefix include_held (kt_db st);
                held = filter (\<lambda>k. dict_get (kd_held (kt_db st)) k \<noteq> None) candidates
            in case (if include_held then release_holds Q now held st else (Inr (), st)) of
                 (Inl x, st1) \<Rightarrow> (Inl x, st1)
               | (Inr _, st1) \<Rightarrow>
                   (case drain_keys Q now tokens candidates h timeout stop_after
                           \<lparr>ds_report = drain_report_new\<lparr>dr_keys_seen := length candidates\<rparr>, ds_consecutive_retries = 0\<rparr> st1 of
                      (Inl x, st2) \<Rightarrow> (Inl x, st2)
                    | (Inr d, st2) \<Rightarrow> (Inr ((ds_report d)\<lparr>dr_expired := kt_expired st2 - kt_expired st\<rparr>), st2))))"

end
