(* ===== verification/KeyedDrainFacts.thy ===== *)
theory KeyedDrainFacts
  imports KeyedDrain KeyedOrder
begin

text \<open>
  The drain ends: a head that goes on to the next has been removed, and leasing adds no message.
\<close>

subsection \<open>Leasing adds no message\<close>

abbreviation messages :: "'w keyed_state \<Rightarrow> nat" where
  "messages st \<equiv> length (kd_msgs (kt_db st))"

lemma expire_begin_msgs: "kd_msgs (kt_db (snd (expire_begin Q now token key m st))) = kd_msgs (kt_db st)"
proof -
  obtain r db1 where v: "verify_fence (kq_json Q) now token key (km_message_id m) (Some (km_gen m)) (Some (km_created_ms m)) (kt_db st) = (r, db1)"
    by force
  then have "kd_msgs db1 = kd_msgs (kt_db st)" using verify_fence_db[of "kq_json Q" now token key] by (metis expire_lock_simps(1) snd_conv)
  with v show ?thesis by (simp add: expire_begin_def with_db_def Let_def split: sum.split prod.split)
qed

lemma expire_head_msgs: "messages (snd (expire_head Q now key m (Some token) [] st)) \<le> messages st"
proof -
  obtain r st1 where e: "expire_locked Q now token key m st = (r, st1)" by force
  have "messages st1 \<le> messages st"
  proof (cases r)
    case (Inr u)
    with e expire_locked_removes[of Q now token key m st u st1] dict_del_length show ?thesis by metis
  next
    case (Inl x)
    obtain b st2 where b: "expire_begin Q now token key m st = (b, st2)" by force
    with expire_begin_msgs[of Q now token key m st] have m2: "kd_msgs (kt_db st2) = kd_msgs (kt_db st)" by simp
    show ?thesis
    proof (cases b)
      case (Inr p)
      obtain ok st3 where x: "with_db (exec_txn now (fst p) (snd p)) st2 = (ok, st3)" by force
      have expired: "kd_msgs (fold (expire_watched now) ws db) = kd_msgs db" for ws db
      proof (induction ws arbitrary: db)
        case (Cons w ws)
        show ?case using Cons.IH[of "expire_watched now w db"] by (cases w) simp_all
      qed simp
      have "ok = False" "st1 = st3" using e Inl b Inr x by (auto simp: expire_locked_def expire_finish_def split: bool.splits)
      with x m2 show ?thesis by (auto simp: with_db_eq dest!: exec_failed simp: expired)
    qed (use e b m2 in \<open>simp add: expire_locked_def\<close>)
  qed
  with e show ?thesis by (simp add: expire_head_def split: sum.split)
qed

lemma drop_key_msgs: "kd_msgs (kt_db (drop_key_if_empty now k st)) = kd_msgs (kt_db st)"
  by (simp add: drop_key_if_empty_def numeral_2_eq_2 watch_def exec_txn_def run_commands_def Let_def)

lemma dict_set_length: "dict_get d k \<noteq> None \<Longrightarrow> length (dict_set k v d) = length d"
  by (induction d) (auto split: if_splits)

lemma grant_msgs:
  assumes "with_db (grant_begin J now token key mid m) st = (r, st1)"
  shows "kd_msgs (kt_db st1) = kd_msgs (kt_db st)"
proof -
  obtain v db1 where v: "verify_fence J now token key mid (Some (km_gen m)) (Some (km_created_ms m)) (kt_db st) = (v, db1)" by force
  then have "kd_msgs db1 = kd_msgs (kt_db st)" using verify_fence_db[of J now token key] by (metis expire_lock_simps(1) snd_conv)
  with v assms show ?thesis by (auto simp: with_db_eq grant_begin_def split: sum.splits prod.splits)
qed

lemma exec_grant_msgs:
  assumes "grant_begin J now token key mid m db = (Inr (snap, cs), db1)" and "exec_txn now snap cs db1 = (ok, db2)"
  shows "length (kd_msgs db2) = length (kd_msgs db)"
proof -
  from assms(1) obtain m2 where v: "verify_fence J now token key mid (Some (km_gen m)) (Some (km_created_ms m)) db = (Inr (snap, m2), db1)"
    and cs: "cs = [HSetMsg mid (lease_fields m)]"
    by (auto simp: grant_begin_def lease_fields_def split: prod.splits sum.splits)
  from verify_fence_snapshot[OF v] verify_fence_found[OF v] assms(2) show ?thesis
    by (auto simp: exec_fence cs run_commands_def dict_set_length)
qed

lemma lease_step_msgs: "messages (snd (lease_step Q now token key ignore_due st)) \<le> messages st"
proof (cases "zhead (kd_queue (kt_db st) key)")
  case None
  then show ?thesis by (simp add: lease_step_def drop_key_msgs)
next
  case (Some mid)
  note z = Some
  show ?thesis
  proof (cases "dict_get (kd_msgs (kt_db st)) mid \<in> {None, Some []}")
    case True
    with z show ?thesis by (auto simp: lease_step_def run_commands_def)
  next
    case False
    then obtain c raw where raw: "dict_get (kd_msgs (kt_db st)) mid = Some (c # raw)"
      by (cases "dict_get (kd_msgs (kt_db st)) mid") (auto simp: neq_Nil_conv)
    show ?thesis
    proof (cases "to_message (kq_json Q) (c # raw) mid")
      case (Inl x)
      then show ?thesis by (simp add: lease_step_def z raw)
    next
      case (Inr m)
      obtain e st1 where e: "expire_head Q now key m (Some token) [] st = (e, st1)" by force
      have le: "messages st1 \<le> messages st" using expire_head_msgs[of Q now key m token st] e by simp
      obtain g st2 where g: "with_db (grant_begin (kq_json Q) now token key mid m) st1 = (g, st2)" by force
      have l2: "messages st2 \<le> messages st" using grant_msgs[OF g] le by simp
      have l3: "messages st3 \<le> messages st" if "g = Inr (snap, cs)" "with_db (exec_txn now snap cs) st2 = (ok, st3)" for snap cs ok st3
        using that g exec_grant_msgs[of "kq_json Q" now token key mid m "kt_db st1" snap cs] le by (auto simp: with_db_eq)
      show ?thesis
        using le l2 l3 unfolding lease_step_def z option.case raw list.case Inr sum.case e prod.case g Let_def
        by (auto split: sum.split keyed_exc.split bool.split prod.split)
    qed
  qed
qed

lemma lease_locked_msgs: "messages (snd (lease_locked Q now token key ignore_due st)) \<le> messages st"
proof (induction Q now token key ignore_due st rule: lease_locked.induct)
  case (1 Q now token key ignore_due st)
  obtain r st1 where s: "lease_step Q now token key ignore_due st = (r, st1)" by force
  have "messages st1 \<le> messages st" using lease_step_msgs[of Q now token key ignore_due st] s by simp
  with 1[OF s[symmetric]] s show ?case
    by (auto simp: lease_locked.simps[of Q now token key ignore_due st] split: sum.split head_step.split intro: order_trans)
qed

lemma lease_key_msgs: "messages (snd (lease_key_detailed Q now token key rc ignore_due st)) \<le> messages st"
proof -
  obtain b st1 where a: "with_db (lock_acquire now (kc_lock_ttl_ms (kq_config Q)) token key) st = (b, st1)" by force
  then have m: "kd_msgs (kt_db st1) = kd_msgs (kt_db st)"
    by (auto simp: with_db_eq lock_acquire_def Let_def split: if_splits)
  obtain r st2 where l: "lease_locked Q now token key ignore_due st1 = (r, st2)" by force
  have "messages st2 \<le> messages st" using lease_locked_msgs[of Q now token key ignore_due st1] l m by simp
  with a l m show ?thesis
    by (auto simp: lease_key_detailed_def ack_keeps release_keeps split: bool.split sum.split)
qed

subsection \<open>A head that goes on is gone\<close>

lemma drain_head_removes:
  assumes "drain_head Q now token key h timeout_ms stop_after d st = (Inr (True, d1), st1)"
  shows "messages st1 < messages st"
proof -
  obtain l st2 where l: "lease_key_detailed Q now token key None True st = (Inr (Inr l), st2)"
    using assms by (auto simp: drain_head_def split: prod.splits sum.splits if_splits)
  obtain out st3 where r: "run_handler h timeout_ms l st2 = (out, st3)" by force
  have a: "apply_outcome Q now l out st3 = (Inr (), st1)" and k: "fst (count_outcome stop_after (ko_kind out) d)"
    using assms by (auto simp: drain_head_def l r split: prod.splits sum.splits keyed_exc.splits)
  from k have kind: "ko_kind out = Ack" by (auto simp: count_outcome_def Let_def split: outcome_kind.splits)
  from applied_commands[OF a] obtain raw where raw: "dict_get (kd_msgs (kt_db st3)) (km_message_id (kl_message l)) = Some raw"
    and "kd_msgs (kt_db st1) = dict_del (km_message_id (kl_message l)) (kd_msgs (kt_db st3))"
    by (auto simp: Let_def effective_kind_def kind outcome_commands_def run_commands_def dict_del_none split: if_splits)
  with dict_del_shorter[of "kd_msgs (kt_db st3)"] have "messages st1 < messages st3" by simp
  moreover have "kt_db st3 = kt_db st2" using r by (auto simp: run_handler_def with_world_eq_db split: prod.splits)
  moreover have "messages st2 \<le> messages st" using lease_key_msgs[of Q now token key None True st] l by simp
  ultimately show ?thesis by simp
qed

section \<open>Properties\<close>

text \<open>
  The administrative flush of a key ends: the rounds the model gives it, one more than the stored
  messages, are never used up.
\<close>

lemma drain_key_enough:
  "messages st < n \<Longrightarrow> fst (drain_key n Q now tokens key h timeout_ms stop_after d st) \<noteq> Inr None"
proof (induction n arbitrary: d st)
  case (Suc n)
  obtain r st1 where s: "drain_head Q now (tokens n) key h timeout_ms stop_after d st = (r, st1)" by force
  show ?case
  proof (cases "\<exists>d1. r = Inr (True, d1)")
    case True
    then obtain d1 where r: "r = Inr (True, d1)" by auto
    with s drain_head_removes[of Q now "tokens n" key h timeout_ms stop_after d st d1 st1] Suc.prems
    have "messages st1 < n" by simp
    from Suc.IH[OF this] show ?thesis by (simp add: s r)
  qed (auto simp: s split: sum.split bool.split)
qed simp


end
