(* ===== verification/StreamsBackend.thy ===== *)
theory StreamsBackend
  imports QueueStore
begin

text \<open>
  The durable transport of backends/redis_streams.py: one stream per topic class, a consumer group
  with deduplication and reclaim of stale entries, or group-less broadcast.  The server answers the
  commands of \<open>RedisStreams\<close> and the ones below; its string keys, which no stream command touches,
  are a state of their own.  A callback acts on the world behind it and returns or raises.
\<close>

subsection \<open>Commands\<close>

text \<open>
  \<open>XADD\<close> without trimming, \<open>XREADGROUP\<close> on several streams at \<open>>\<close>, \<open>XTRIM MINID\<close>, the keys of \<open>SCAN\<close>
  with a pattern, the id of \<open>XREVRANGE COUNT 1\<close>, and \<open>XREAD\<close> from a cursor per stream.
\<close>

record 'r stream_ops =
  so_xadd :: "string \<Rightarrow> fields \<Rightarrow> 'r \<Rightarrow> (string + string) \<times> 'r"
  so_xreadgroup :: "string \<Rightarrow> string \<Rightarrow> string list \<Rightarrow> nat \<Rightarrow> int \<Rightarrow> 'r \<Rightarrow> (string + (string \<times> entry list) list) \<times> 'r"
  so_xtrim_minid :: "string \<Rightarrow> string \<Rightarrow> 'r \<Rightarrow> (string + int) \<times> 'r"
  so_scan :: "string \<Rightarrow> 'r \<Rightarrow> (string + string list) \<times> 'r"
  so_xrevrange1 :: "string \<Rightarrow> 'r \<Rightarrow> (string + string option) \<times> 'r"
  so_xread :: "(string \<times> string) list \<Rightarrow> nat \<Rightarrow> int \<Rightarrow> 'r \<Rightarrow> (string + (string \<times> entry list) list) \<times> 'r"

text \<open>\<open>GET\<close> and \<open>SET EX\<close> at an instant of the clock of the server.\<close>

record 'k key_ops =
  key_get :: "int \<Rightarrow> string \<Rightarrow> 'k \<Rightarrow> (string + string option) \<times> 'k"
  key_set :: "int \<Rightarrow> string \<Rightarrow> string \<Rightarrow> int \<Rightarrow> 'k \<Rightarrow> (string + unit) \<times> 'k"

subsection \<open>The backend\<close>

datatype delivery = By_group | By_broadcast

type_synonym 'w callback = "envelope \<Rightarrow> 'w \<Rightarrow> bool \<times> 'w"

record 'w streams_backend =
  sb_group :: string
  sb_consumer :: string
  sb_stream_prefix :: string
  sb_dedup_prefix :: string
  sb_dedup_ttl :: int
  sb_block_ms :: int
  sb_batch_count :: nat
  sb_min_idle_ms :: int
  sb_maxlen :: int
  sb_reconnect_base :: real
  sb_reconnect_max :: real
  sb_delivery :: delivery
  sb_wire :: wire_codec
  sb_stream_key_fn :: "(string \<Rightarrow> string) option"
  sb_explicit :: "string list option"
  sb_retention_ms :: "int option"
  sb_max_deliveries :: "int option"
  sb_on_dlq :: "(dlq_call \<Rightarrow> 'w \<Rightarrow> 'w) option"

definition DEFAULT_STREAM_PREFIX :: string where "DEFAULT_STREAM_PREFIX = ''evb:stream:''"
definition DEFAULT_DEDUP_PREFIX :: string where "DEFAULT_DEDUP_PREFIX = ''evb:events:dedup:''"
definition DEFAULT_GROUP :: string where "DEFAULT_GROUP = ''evb-bus''"

text \<open>The arguments of the constructor that it checks or defaults; the rest of the configuration is taken as it is.\<close>

definition or_default :: "string option \<Rightarrow> string \<Rightarrow> string" where
  "or_default x d = (case x of Some (c # cs) \<Rightarrow> c # cs | _ \<Rightarrow> d)"

definition streams_backend_new ::
    "bool \<Rightarrow> bool \<Rightarrow> string \<Rightarrow> string option \<Rightarrow> string option \<Rightarrow> string option \<Rightarrow> string option \<Rightarrow> string \<Rightarrow>
     'w streams_backend \<Rightarrow> 'w streams_backend result" where
  "streams_backend_new has_url has_client delivery_name grp consumer stream_prefix dedup_prefix host_pid B =
     (if \<not> has_url \<and> \<not> has_client
      then Inl (ValueError ''RedisStreamsBackend requires a redis_url or an injected client'')
      else if delivery_name \<notin> {''group'', ''broadcast''} then Inl (ValueError ''delivery must be group or broadcast'')
      else if delivery_name = ''broadcast'' \<and> sb_max_deliveries B \<noteq> None
      then Inl (ValueError ''max_deliveries is not supported with delivery=broadcast'')
      else Inr (B\<lparr>sb_stream_prefix := or_default stream_prefix DEFAULT_STREAM_PREFIX,
             sb_dedup_prefix := or_default dedup_prefix DEFAULT_DEDUP_PREFIX, sb_group := or_default grp DEFAULT_GROUP,
             sb_consumer := or_default consumer host_pid,
             sb_delivery := (if delivery_name = ''broadcast'' then By_broadcast else By_group)\<rparr>))"

record ('r, 'k, 'w) backend_state =
  bt_redis :: 'r
  bt_keys :: 'k
  bt_world :: 'w
  bt_streams :: "string list"
  bt_groups_ready :: "string list"
  bt_last_ids :: "(string \<times> string) list"

definition on_redis :: "('r \<Rightarrow> 'a \<times> 'r) \<Rightarrow> ('r, 'k, 'w) backend_state \<Rightarrow> 'a \<times> ('r, 'k, 'w) backend_state" where
  "on_redis f st = (case f (bt_redis st) of (x, r) \<Rightarrow> (x, st\<lparr>bt_redis := r\<rparr>))"

definition on_keys :: "('k \<Rightarrow> 'a \<times> 'k) \<Rightarrow> ('r, 'k, 'w) backend_state \<Rightarrow> 'a \<times> ('r, 'k, 'w) backend_state" where
  "on_keys f st = (case f (bt_keys st) of (x, k) \<Rightarrow> (x, st\<lparr>bt_keys := k\<rparr>))"

definition backend_ack :: "'r redis_ops \<Rightarrow> 'w streams_backend \<Rightarrow> string \<Rightarrow> string \<Rightarrow> ('r, 'k, 'w) backend_state \<Rightarrow> ('r, 'k, 'w) backend_state" where
  "backend_ack R B s i st = st\<lparr>bt_redis := ack_quiet R s (sb_group B) i (bt_redis st)\<rparr>"

subsection \<open>Streams and groups\<close>

definition stream_of_topic :: "'w streams_backend \<Rightarrow> string \<Rightarrow> string" where
  "stream_of_topic B t =
     (case sb_stream_key_fn B of
        Some f \<Rightarrow> f t
      | None \<Rightarrow> sb_stream_prefix B @ takeWhile (\<lambda>c. c \<noteq> CHR ''.'') t)"

definition ensure_backend_group ::
    "'r redis_ops \<Rightarrow> 'w streams_backend \<Rightarrow> string \<Rightarrow> ('r, 'k, 'w) backend_state \<Rightarrow> (string + unit) \<times> ('r, 'k, 'w) backend_state" where
  "ensure_backend_group R B s st =
     (if s \<in> set (bt_groups_ready st) then (Inr (), st)
      else (case on_redis (ensure_group R s (sb_group B)) st of
              (Inl x, st1) \<Rightarrow> (Inl x, st1)
            | (Inr _, st1) \<Rightarrow> (Inr (), st1\<lparr>bt_groups_ready := List.insert s (bt_groups_ready st1),
                  bt_streams := List.insert s (bt_streams st1)\<rparr>)))"

definition streams_publish ::
    "'r redis_ops \<Rightarrow> 'r stream_ops \<Rightarrow> 'w streams_backend \<Rightarrow> envelope \<Rightarrow> ('r, 'k, 'w) backend_state \<Rightarrow>
     string result \<times> ('r, 'k, 'w) backend_state" where
  "streams_publish R X B e st =
     (let s = stream_of_topic B (topic e)
      in case (if sb_delivery B = By_broadcast then (Inr (), st) else ensure_backend_group R B s st) of
           (Inl x, st1) \<Rightarrow> (Inl (OtherError x), st1)
         | (Inr _, st1) \<Rightarrow>
             (case wc_encode (sb_wire B) e of
                Inl x \<Rightarrow> (Inl x, st1)
              | Inr f \<Rightarrow>
                  apfst lift_err (on_redis (if sb_retention_ms B = None then xadd R s f (sb_maxlen B) else so_xadd X s f) st1)))"

text \<open>The streams a \<open>SCAN\<close> finds join the group; an explicit set of streams is never refreshed.\<close>

fun join_streams ::
    "'r redis_ops \<Rightarrow> 'w streams_backend \<Rightarrow> string list \<Rightarrow> ('r, 'k, 'w) backend_state \<Rightarrow> (string + unit) \<times> ('r, 'k, 'w) backend_state" where
  "join_streams R B [] st = (Inr (), st)"
| "join_streams R B (s # ss) st =
     (if s \<in> set (bt_streams st) then join_streams R B ss st
      else (case ensure_backend_group R B s st of
              (Inl x, st1) \<Rightarrow> (Inl x, st1)
            | (Inr _, st1) \<Rightarrow> join_streams R B ss st1))"

definition refresh_streams ::
    "'r redis_ops \<Rightarrow> 'r stream_ops \<Rightarrow> 'w streams_backend \<Rightarrow> ('r, 'k, 'w) backend_state \<Rightarrow> (string + unit) \<times> ('r, 'k, 'w) backend_state" where
  "refresh_streams R X B st =
     (if sb_explicit B \<noteq> None then (Inr (), st)
      else (case on_redis (so_scan X (sb_stream_prefix B @ ''*'')) st of
              (Inl x, st1) \<Rightarrow> (Inl x, st1)
            | (Inr names, st1) \<Rightarrow> join_streams R B names st1))"

subsection \<open>One entry\<close>

text \<open>Decode an entry, or drop it: in group mode it is acknowledged away.\<close>

definition decode_or_ack ::
    "'r redis_ops \<Rightarrow> 'w streams_backend \<Rightarrow> bool \<Rightarrow> string \<Rightarrow> string \<Rightarrow> fields \<Rightarrow> ('r, 'k, 'w) backend_state \<Rightarrow>
     envelope option \<times> ('r, 'k, 'w) backend_state" where
  "decode_or_ack R B ack s i f st =
     (case wc_decode (sb_wire B) f of
        Inr e \<Rightarrow> (Some e, st)
      | Inl _ \<Rightarrow> (None, if ack then backend_ack R B s i st else st))"

definition dedup_key :: "'w streams_backend \<Rightarrow> envelope \<Rightarrow> string" where
  "dedup_key B e = sb_dedup_prefix B @ event_id e"

text \<open>
  An entry is handled in three steps between which other consumers act and a crash may fall: decode it
  and look its event up among the processed ones, dispatch it, then mark it processed and acknowledge it.
\<close>

definition begin_message ::
    "'r redis_ops \<Rightarrow> 'k key_ops \<Rightarrow> 'w streams_backend \<Rightarrow> int \<Rightarrow> string \<Rightarrow> string \<Rightarrow> fields \<Rightarrow> ('r, 'k, 'w) backend_state \<Rightarrow>
     (string + envelope option) \<times> ('r, 'k, 'w) backend_state" where
  "begin_message R K B now s i f st =
     (case decode_or_ack R B True s i f st of
        (None, st1) \<Rightarrow> (Inr None, st1)
      | (Some e, st1) \<Rightarrow>
          (case on_keys (key_get K now (dedup_key B e)) st1 of
             (Inl x, st2) \<Rightarrow> (Inl x, st2)
           | (Inr (Some (c # cs)), st2) \<Rightarrow> (Inr None, backend_ack R B s i st2)
           | (Inr _, st2) \<Rightarrow> (Inr (Some e), st2)))"

definition call_back :: "'w callback \<Rightarrow> envelope \<Rightarrow> ('r, 'k, 'w) backend_state \<Rightarrow> bool \<times> ('r, 'k, 'w) backend_state" where
  "call_back cb e st = (case cb e (bt_world st) of (ok, w) \<Rightarrow> (ok, st\<lparr>bt_world := w\<rparr>))"

definition finish_message ::
    "'r redis_ops \<Rightarrow> 'k key_ops \<Rightarrow> 'w streams_backend \<Rightarrow> int \<Rightarrow> string \<Rightarrow> string \<Rightarrow> envelope \<Rightarrow> ('r, 'k, 'w) backend_state \<Rightarrow>
     ('r, 'k, 'w) backend_state" where
  "finish_message R K B now s i e st =
     backend_ack R B s i (snd (on_keys (key_set K now (dedup_key B e) ''1'' (sb_dedup_ttl B)) st))"

definition handle_message ::
    "'r redis_ops \<Rightarrow> 'k key_ops \<Rightarrow> 'w streams_backend \<Rightarrow> int \<Rightarrow> 'w callback \<Rightarrow> string \<Rightarrow> string \<Rightarrow> fields \<Rightarrow>
     ('r, 'k, 'w) backend_state \<Rightarrow> (string + unit) \<times> ('r, 'k, 'w) backend_state" where
  "handle_message R K B now cb s i f st =
     (case begin_message R K B now s i f st of
        (Inl x, st1) \<Rightarrow> (Inl x, st1)
      | (Inr None, st1) \<Rightarrow> (Inr (), st1)
      | (Inr (Some e), st1) \<Rightarrow>
          (case call_back cb e st1 of
             (False, st2) \<Rightarrow> (Inr (), st2)
           | (True, st2) \<Rightarrow> (Inr (), finish_message R K B now s i e st2)))"

fun handle_entries ::
    "'r redis_ops \<Rightarrow> 'k key_ops \<Rightarrow> 'w streams_backend \<Rightarrow> int \<Rightarrow> 'w callback \<Rightarrow> (string \<times> entry) list \<Rightarrow>
     ('r, 'k, 'w) backend_state \<Rightarrow> (string + unit) \<times> ('r, 'k, 'w) backend_state" where
  "handle_entries R K B now cb [] st = (Inr (), st)"
| "handle_entries R K B now cb ((s, i, f) # es) st =
     (case handle_message R K B now cb s i f st of
        (Inl x, st1) \<Rightarrow> (Inl x, st1)
      | (Inr _, st1) \<Rightarrow> handle_entries R K B now cb es st1)"

definition reply_entries :: "(string \<times> entry list) list \<Rightarrow> (string \<times> entry) list" where
  "reply_entries rep = concat (map (\<lambda>(s, es). map (Pair s) es) rep)"

subsection \<open>The consumer\<close>

text \<open>
  One pass of a loop: its result, and whether the server was read.  An error leaves the pass: the groups
  are no longer known to exist, and the next pass comes after a delay that doubles up to its cap and
  starts anew with every successful read.
\<close>

definition consumer_pass ::
    "'r redis_ops \<Rightarrow> 'r stream_ops \<Rightarrow> 'k key_ops \<Rightarrow> 'w streams_backend \<Rightarrow> int \<Rightarrow> bool \<Rightarrow> 'w callback \<Rightarrow>
     ('r, 'k, 'w) backend_state \<Rightarrow> ((string + unit) \<times> bool) \<times> ('r, 'k, 'w) backend_state" where
  "consumer_pass R X K B now refresh_due cb st =
     (case (if bt_streams st = [] \<or> refresh_due then refresh_streams R X B st else (Inr (), st)) of
        (Inl x, st1) \<Rightarrow> ((Inl x, False), st1)
      | (Inr _, st1) \<Rightarrow>
          (if bt_streams st1 = [] then ((Inr (), False), st1)
           else (case on_redis (so_xreadgroup X (sb_group B) (sb_consumer B) (bt_streams st1) (sb_batch_count B) (sb_block_ms B)) st1 of
                   (Inl x, st2) \<Rightarrow> ((Inl x, False), st2)
                 | (Inr rep, st2) \<Rightarrow> (case handle_entries R K B now cb (reply_entries rep) st2 of (x, st3) \<Rightarrow> ((x, True), st3)))))"

text \<open>The delay before the pass after this one.\<close>

definition next_delay :: "'w streams_backend \<Rightarrow> (string + unit) \<times> bool \<Rightarrow> real \<Rightarrow> real" where
  "next_delay B res delay =
     (let d = (if snd res then sb_reconnect_base B else delay)
      in if isl (fst res) then min (d * 2) (sb_reconnect_max B) else d)"

definition consumer_turn ::
    "'r redis_ops \<Rightarrow> 'r stream_ops \<Rightarrow> 'k key_ops \<Rightarrow> 'w streams_backend \<Rightarrow> int \<Rightarrow> bool \<Rightarrow> 'w callback \<Rightarrow>
     real \<times> ('r, 'k, 'w) backend_state \<Rightarrow> real \<times> ('r, 'k, 'w) backend_state" where
  "consumer_turn R X K B now refresh_due cb s =
     (case consumer_pass R X K B now refresh_due cb (snd s) of
        (res, st1) \<Rightarrow> (next_delay B res (fst s), if isl (fst res) then st1\<lparr>bt_groups_ready := []\<rparr> else st1))"

subsection \<open>The sweeper\<close>

definition dlq_call_of :: "'w streams_backend \<Rightarrow> string \<Rightarrow> int \<Rightarrow> envelope \<Rightarrow> dlq_call" where
  "dlq_call_of B s n e = \<lparr>dc_envelope = e, dc_attempts = n,
     dc_error = ''exceeded max_deliveries='' @ int_str (case sb_max_deliveries B of Some m \<Rightarrow> m | None \<Rightarrow> 0) @ '' without ack'',
     dc_subscriber_id = s @ '':'' @ sb_group B\<rparr>"

definition park_entry ::
    "'r redis_ops \<Rightarrow> 'w streams_backend \<Rightarrow> string \<Rightarrow> string \<Rightarrow> fields \<Rightarrow> int \<Rightarrow> ('r, 'k, 'w) backend_state \<Rightarrow> ('r, 'k, 'w) backend_state" where
  "park_entry R B s i f n st =
     (case decode_or_ack R B True s i f st of
        (None, st1) \<Rightarrow> st1
      | (Some e, st1) \<Rightarrow>
          backend_ack R B s i (case sb_on_dlq B of
              Some h \<Rightarrow> st1\<lparr>bt_world := h (dlq_call_of B s n e) (bt_world st1)\<rparr>
            | None \<Rightarrow> st1))"

fun handle_reclaimed ::
    "'r redis_ops \<Rightarrow> 'k key_ops \<Rightarrow> 'w streams_backend \<Rightarrow> int \<Rightarrow> 'w callback \<Rightarrow> string \<Rightarrow> (string \<times> int) list \<Rightarrow> entry list \<Rightarrow>
     ('r, 'k, 'w) backend_state \<Rightarrow> (string + unit) \<times> ('r, 'k, 'w) backend_state" where
  "handle_reclaimed R K B now cb s over [] st = (Inr (), st)"
| "handle_reclaimed R K B now cb s over ((i, f) # es) st =
     (case dict_get over i of
        Some n \<Rightarrow> handle_reclaimed R K B now cb s over es (park_entry R B s i f n st)
      | None \<Rightarrow>
          (case handle_message R K B now cb s i f st of
             (Inl x, st1) \<Rightarrow> (Inl x, st1)
           | (Inr _, st1) \<Rightarrow> handle_reclaimed R K B now cb s over es st1))"

text \<open>The entries of a stream delivered too often, then all that are stale.\<close>

definition over_threshold ::
    "'r redis_ops \<Rightarrow> 'w streams_backend \<Rightarrow> string \<Rightarrow> 'r \<Rightarrow> (string + (string \<times> int) list) \<times> 'r" where
  "over_threshold R B s r =
     (case sb_max_deliveries B of
        None \<Rightarrow> (Inr [], r)
      | Some m \<Rightarrow>
          apfst (map_sum id (\<lambda>ps. seen_counts (filter (\<lambda>(_, n). n > m) ps)))
            (xpending_range R s (sb_group B) ''-'' ''+'' (sb_batch_count B) (Some (sb_min_idle_ms B)) r))"

definition sweep_stream ::
    "'r redis_ops \<Rightarrow> 'k key_ops \<Rightarrow> 'w streams_backend \<Rightarrow> int \<Rightarrow> 'w callback \<Rightarrow> string \<Rightarrow> ('r, 'k, 'w) backend_state \<Rightarrow>
     (string + unit) \<times> ('r, 'k, 'w) backend_state" where
  "sweep_stream R K B now cb s st =
     (case on_redis (over_threshold R B s) st of
        (Inl x, st1) \<Rightarrow> (Inl x, st1)
      | (Inr over, st1) \<Rightarrow>
          (case on_redis (xautoclaim R s (sb_group B) (sb_consumer B) (sb_min_idle_ms B) (sb_batch_count B)) st1 of
             (Inl x, st2) \<Rightarrow> (Inl x, st2)
           | (Inr es, st2) \<Rightarrow> handle_reclaimed R K B now cb s over es st2))"

fun sweep_streams ::
    "'r redis_ops \<Rightarrow> 'k key_ops \<Rightarrow> 'w streams_backend \<Rightarrow> int \<Rightarrow> 'w callback \<Rightarrow> string list \<Rightarrow> ('r, 'k, 'w) backend_state \<Rightarrow>
     (string + unit) \<times> ('r, 'k, 'w) backend_state" where
  "sweep_streams R K B now cb [] st = (Inr (), st)"
| "sweep_streams R K B now cb (s # ss) st =
     (case sweep_stream R K B now cb s st of
        (Inl x, st1) \<Rightarrow> (Inl x, st1)
      | (Inr _, st1) \<Rightarrow> sweep_streams R K B now cb ss st1)"

definition sweep ::
    "'r redis_ops \<Rightarrow> 'k key_ops \<Rightarrow> 'w streams_backend \<Rightarrow> int \<Rightarrow> 'w callback \<Rightarrow> ('r, 'k, 'w) backend_state \<Rightarrow>
     (string + unit) \<times> ('r, 'k, 'w) backend_state" where
  "sweep R K B now cb st = sweep_streams R K B now cb (bt_streams st) st"

text \<open>A pass of the retention trimmer, at a time in milliseconds.\<close>

fun trim_streams ::
    "'r stream_ops \<Rightarrow> string \<Rightarrow> string list \<Rightarrow> ('r, 'k, 'w) backend_state \<Rightarrow> (string + unit) \<times> ('r, 'k, 'w) backend_state" where
  "trim_streams X minid [] st = (Inr (), st)"
| "trim_streams X minid (s # ss) st =
     (case on_redis (so_xtrim_minid X s minid) st of
        (Inl x, st1) \<Rightarrow> (Inl x, st1)
      | (Inr _, st1) \<Rightarrow> trim_streams X minid ss st1)"

definition retention_pass ::
    "'r stream_ops \<Rightarrow> 'w streams_backend \<Rightarrow> int \<Rightarrow> ('r, 'k, 'w) backend_state \<Rightarrow> (string + unit) \<times> ('r, 'k, 'w) backend_state" where
  "retention_pass X B now_ms st =
     (case sb_retention_ms B of
        None \<Rightarrow> (Inr (), st)
      | Some n \<Rightarrow> trim_streams X (int_str (now_ms - n) @ ''-0'') (bt_streams st) st)"

subsection \<open>Broadcast\<close>

text \<open>
  A stream is read from its end at the time of its discovery: the id of its last entry, or \<open>0-0\<close> when it
  is empty, or the moving end where the server cannot tell.
\<close>

definition resolve_tail_id :: "'r stream_ops \<Rightarrow> string \<Rightarrow> 'r \<Rightarrow> string \<times> 'r" where
  "resolve_tail_id X s r =
     (case so_xrevrange1 X s r of
        (Inl _, r1) \<Rightarrow> (''$'', r1)
      | (Inr (Some i), r1) \<Rightarrow> (i, r1)
      | (Inr None, r1) \<Rightarrow> (''0-0'', r1))"

definition attach_stream :: "'r stream_ops \<Rightarrow> string \<Rightarrow> ('r, 'k, 'w) backend_state \<Rightarrow> ('r, 'k, 'w) backend_state" where
  "attach_stream X s st =
     (if s \<in> set (bt_streams st) then st
      else (case on_redis (resolve_tail_id X s) (st\<lparr>bt_streams := List.insert s (bt_streams st)\<rparr>) of
              (i, st1) \<Rightarrow> st1\<lparr>bt_last_ids := dict_set s i (bt_last_ids st1)\<rparr>))"

definition refresh_streams_broadcast ::
    "'r stream_ops \<Rightarrow> 'w streams_backend \<Rightarrow> ('r, 'k, 'w) backend_state \<Rightarrow> (string + unit) \<times> ('r, 'k, 'w) backend_state" where
  "refresh_streams_broadcast X B st =
     (if sb_explicit B \<noteq> None then (Inr (), st)
      else (case on_redis (so_scan X (sb_stream_prefix B @ ''*'')) st of
              (Inl x, st1) \<Rightarrow> (Inl x, st1)
            | (Inr names, st1) \<Rightarrow> (Inr (), fold (attach_stream X) names st1)))"

definition dispatch_broadcast_entry ::
    "'r redis_ops \<Rightarrow> 'w streams_backend \<Rightarrow> 'w callback \<Rightarrow> string \<Rightarrow> string \<Rightarrow> fields \<Rightarrow> ('r, 'k, 'w) backend_state \<Rightarrow>
     ('r, 'k, 'w) backend_state" where
  "dispatch_broadcast_entry R B cb s i f st =
     (case decode_or_ack R B False s i f st of
        (None, st1) \<Rightarrow> st1
      | (Some e, st1) \<Rightarrow> snd (call_back cb e st1))"

definition broadcast_entry ::
    "'r redis_ops \<Rightarrow> 'w streams_backend \<Rightarrow> 'w callback \<Rightarrow> string \<times> entry \<Rightarrow> ('r, 'k, 'w) backend_state \<Rightarrow>
     ('r, 'k, 'w) backend_state" where
  "broadcast_entry R B cb m st =
     (case m of (s, i, f) \<Rightarrow> dispatch_broadcast_entry R B cb s i f (st\<lparr>bt_last_ids := dict_set s i (bt_last_ids st)\<rparr>))"

definition broadcast_pass ::
    "'r redis_ops \<Rightarrow> 'r stream_ops \<Rightarrow> 'w streams_backend \<Rightarrow> bool \<Rightarrow> 'w callback \<Rightarrow> ('r, 'k, 'w) backend_state \<Rightarrow>
     ((string + unit) \<times> bool) \<times> ('r, 'k, 'w) backend_state" where
  "broadcast_pass R X B refresh_due cb st =
     (case (if bt_streams st = [] \<or> refresh_due then refresh_streams_broadcast X B st else (Inr (), st)) of
        (Inl x, st1) \<Rightarrow> ((Inl x, False), st1)
      | (Inr _, st1) \<Rightarrow>
          (if bt_streams st1 = [] then ((Inr (), False), st1)
           else if \<exists>s \<in> set (bt_streams st1). dict_get (bt_last_ids st1) s = None then ((Inl ''KeyError'', False), st1)
           else (case on_redis (so_xread X (map (\<lambda>s. (s, the (dict_get (bt_last_ids st1) s))) (bt_streams st1))
                     (sb_batch_count B) (sb_block_ms B)) st1 of
                   (Inl x, st2) \<Rightarrow> ((Inl x, False), st2)
                 | (Inr rep, st2) \<Rightarrow> ((Inr (), True), fold (broadcast_entry R B cb) (reply_entries rep) st2))))"

definition broadcast_turn ::
    "'r redis_ops \<Rightarrow> 'r stream_ops \<Rightarrow> 'w streams_backend \<Rightarrow> bool \<Rightarrow> 'w callback \<Rightarrow>
     real \<times> ('r, 'k, 'w) backend_state \<Rightarrow> real \<times> ('r, 'k, 'w) backend_state" where
  "broadcast_turn R X B refresh_due cb s =
     (case broadcast_pass R X B refresh_due cb (snd s) of (res, st1) \<Rightarrow> (next_delay B res (fst s), st1))"

subsection \<open>Starting\<close>

fun ensure_explicit ::
    "'r redis_ops \<Rightarrow> 'w streams_backend \<Rightarrow> string list \<Rightarrow> ('r, 'k, 'w) backend_state \<Rightarrow> (string + unit) \<times> ('r, 'k, 'w) backend_state" where
  "ensure_explicit R B [] st = (Inr (), st)"
| "ensure_explicit R B (s # ss) st =
     (case ensure_backend_group R B s st of
        (Inl x, st1) \<Rightarrow> (Inl x, st1)
      | (Inr _, st1) \<Rightarrow> ensure_explicit R B ss st1)"

definition start_streams ::
    "'r redis_ops \<Rightarrow> 'r stream_ops \<Rightarrow> 'w streams_backend \<Rightarrow> ('r, 'k, 'w) backend_state \<Rightarrow> (string + unit) \<times> ('r, 'k, 'w) backend_state" where
  "start_streams R X B st =
     (case sb_explicit B of
        Some (s # ss) \<Rightarrow>
          (if sb_delivery B = By_broadcast then (Inr (), fold (attach_stream X) (s # ss) st) else ensure_explicit R B (s # ss) st)
      | _ \<Rightarrow> (Inr (), st))"

section \<open>The composite backend\<close>

text \<open>
  The composite transport of backends/composite.py: several delivery channels over one connection, one
  of which publishes and one of which feeds the bus.  The connection itself and its closing are left out.
\<close>

subsection \<open>Channels\<close>

record 'w channel =
  ch_name :: string
  ch_delivery :: delivery
  ch_on_envelope :: "'w callback"
  ch_streams :: "string list option"
  ch_max_deliveries :: "int option"
  ch_on_dlq :: "(dlq_call \<Rightarrow> 'w \<Rightarrow> 'w) option"
  ch_codec :: "wire_codec option"

definition channel_new :: "'w channel \<Rightarrow> 'w channel result" where
  "channel_new c =
     (if ch_delivery c = By_broadcast \<and> ch_max_deliveries c \<noteq> None
      then Inl (ValueError ''max_deliveries is not supported with delivery=broadcast'')
      else Inr c)"

text \<open>The keyword arguments common to all channels are a backend whose group is ignored.\<close>

record 'w composite =
  cp_channels :: "'w channel list"
  cp_codec :: "wire_codec option"
  cp_stream_key_fn :: "(string \<Rightarrow> string) option"
  cp_streams :: "string list option"
  cp_retention_ms :: "int option"
  cp_publish_via :: string
  cp_common :: "'w streams_backend"

definition broadcast_names :: "'w channel list \<Rightarrow> string list" where
  "broadcast_names cs = map ch_name (filter (\<lambda>c. ch_delivery c = By_broadcast) cs)"

definition composite_new ::
    "bool \<Rightarrow> bool \<Rightarrow> 'w channel list \<Rightarrow> wire_codec option \<Rightarrow> (string \<Rightarrow> string) option \<Rightarrow> string list option \<Rightarrow> int option \<Rightarrow>
     string option \<Rightarrow> 'w streams_backend \<Rightarrow> 'w composite result" where
  "composite_new has_url has_client cs codec key_fn streams retention publish_via common =
     (if \<not> has_url \<and> \<not> has_client
      then Inl (ValueError ''CompositeBackend requires a redis_url or an injected client'')
      else case cs of
             [] \<Rightarrow> Inl (ValueError ''CompositeBackend requires at least one channel'')
           | c0 # _ \<Rightarrow>
               (if \<not> distinct (map ch_name cs)
                then Inl (ValueError ''Channel names must be unique within a CompositeBackend'')
                else if length (broadcast_names cs) > 1
                then Inl (ValueError ''CompositeBackend supports at most one broadcast channel'')
                else let publisher = or_default publish_via (ch_name c0)
                     in if publisher \<notin> ch_name ` set cs
                        then Inl (ValueError ''publish_via does not match any channel name'')
                        else Inr \<lparr>cp_channels = cs, cp_codec = codec, cp_stream_key_fn = key_fn, cp_streams = streams,
                               cp_retention_ms = retention, cp_publish_via = publisher, cp_common = common\<rparr>))"

subsection \<open>Backends\<close>

text \<open>The value of the channel, else the one of the composite, else the default of the backend.\<close>

definition first_of :: "'a option \<Rightarrow> 'a option \<Rightarrow> 'a option" where
  "first_of x y = (case x of Some _ \<Rightarrow> x | None \<Rightarrow> y)"

definition group_dedup_prefix :: "string \<Rightarrow> string" where
  "group_dedup_prefix g = ''evb:events:dedup:'' @ g @ '':''"

definition build_backend :: "'w composite \<Rightarrow> 'w channel \<Rightarrow> 'w streams_backend" where
  "build_backend P c =
     (let common = cp_common P;
          B = common\<lparr>
            sb_wire := (case first_of (ch_codec c) (cp_codec P) of Some w \<Rightarrow> w | None \<Rightarrow> sb_wire common),
            sb_stream_key_fn := cp_stream_key_fn P,
            sb_explicit := (case ch_streams c of Some (s # ss) \<Rightarrow> Some (s # ss) | _ \<Rightarrow> cp_streams P),
            sb_retention_ms := cp_retention_ms P,
            sb_delivery := ch_delivery c\<rparr>
      in if ch_delivery c = By_group
         then B\<lparr>sb_group := or_default (Some (ch_name c)) DEFAULT_GROUP, sb_dedup_prefix := group_dedup_prefix (ch_name c),
                sb_max_deliveries := first_of (ch_max_deliveries c) (sb_max_deliveries common),
                sb_on_dlq := first_of (ch_on_dlq c) (sb_on_dlq common)\<rparr>
         else B\<lparr>sb_group := DEFAULT_GROUP, sb_max_deliveries := None, sb_on_dlq := None\<rparr>)"

definition ensure_backends :: "'w composite \<Rightarrow> (string \<times> 'w streams_backend) list" where
  "ensure_backends P = map (\<lambda>c. (ch_name c, build_backend P c)) (cp_channels P)"

text \<open>Only the publisher channel publishes.\<close>

definition composite_publish ::
    "'r redis_ops \<Rightarrow> 'r stream_ops \<Rightarrow> 'w composite \<Rightarrow> envelope \<Rightarrow> ('r, 'k, 'w) backend_state \<Rightarrow>
     string result \<times> ('r, 'k, 'w) backend_state" where
  "composite_publish R X P e st =
     (case dict_get (ensure_backends P) (cp_publish_via P) of
        None \<Rightarrow> (Inl (KeyError (cp_publish_via P)), st)
      | Some B \<Rightarrow> streams_publish R X B e st)"

subsection \<open>Consuming\<close>

text \<open>Both callbacks of the feeder channel, in order; the second is not reached when the first raises.\<close>

definition chain_feeder_callback :: "'w callback \<Rightarrow> 'w channel \<Rightarrow> 'w callback" where
  "chain_feeder_callback transport c e w =
     (case transport e w of
        (False, w1) \<Rightarrow> (False, w1)
      | (True, w1) \<Rightarrow> ch_on_envelope c e w1)"

definition feeder_name :: "'w composite \<Rightarrow> string" where
  "feeder_name P = (case broadcast_names (cp_channels P) of n # _ \<Rightarrow> or_default (Some n) (cp_publish_via P) | [] \<Rightarrow> cp_publish_via P)"

definition channel_callback :: "'w composite \<Rightarrow> 'w callback \<Rightarrow> 'w channel \<Rightarrow> 'w callback" where
  "channel_callback P transport c =
     (if ch_name c = feeder_name P then chain_feeder_callback transport c else ch_on_envelope c)"

text \<open>
  Every channel is started with its callback; one that fails to start is skipped.  The list holds the
  channels that were started and those that failed, in order.
\<close>

fun start_channels ::
    "'w composite \<Rightarrow> 'w callback \<Rightarrow> ('w streams_backend \<Rightarrow> 'w callback \<Rightarrow> 's \<Rightarrow> bool \<times> 's) \<Rightarrow> 'w channel list \<Rightarrow> 's \<Rightarrow>
     (string list \<times> string list) \<times> 's" where
  "start_channels P transport start [] s = (([], []), s)"
| "start_channels P transport start (c # cs) s =
     (case start (build_backend P c) (channel_callback P transport c) s of
        (ok, s1) \<Rightarrow>
          (case start_channels P transport start cs s1 of
             ((started, failed), s2) \<Rightarrow>
               (if ok then (ch_name c # started, failed) else (started, ch_name c # failed), s2)))"

definition composite_start ::
    "'w composite \<Rightarrow> 'w callback \<Rightarrow> ('w streams_backend \<Rightarrow> 'w callback \<Rightarrow> 's \<Rightarrow> bool \<times> 's) \<Rightarrow> 's \<Rightarrow>
     (string list \<times> string list) \<times> 's" where
  "composite_start P transport start s = start_channels P transport start (cp_channels P) s"

subsection \<open>Facts\<close>

lemma composite_new_ok:
  assumes "composite_new u c cs codec kf ss ret via common = Inr P"
  shows "cp_channels P = cs" "distinct (map ch_name cs)" "length (broadcast_names cs) \<le> 1" "cp_publish_via P \<in> ch_name ` set cs"
  using assms by (auto simp: composite_new_def Let_def split: if_splits list.splits)

lemma feeder_is_channel:
  assumes "composite_new u c cs codec kf ss ret via common = Inr P"
  shows "feeder_name P \<in> ch_name ` set cs"
proof -
  note ok = composite_new_ok[OF assms]
  show ?thesis
  proof (cases "broadcast_names cs")
    case (Cons n ns)
    then have "n \<in> ch_name ` set cs" by (auto simp: broadcast_names_def map_eq_Cons_conv filter_eq_Cons_iff)
    moreover have "feeder_name P \<in> {n, cp_publish_via P}" using ok Cons by (simp add: feeder_name_def or_default_def split: list.split)
    ultimately show ?thesis using ok(4) by auto
  qed (use ok in \<open>simp add: feeder_name_def\<close>)
qed

end
