(* ===== verification/StreamsRun.thy ===== *)
theory StreamsRun
  imports StreamsBackend FakeRedis
begin

text \<open>
  The consumers of one group side by side: each reads, claims, begins, dispatches, finishes or parks
  entries, any of them may crash between two steps, the processed marks may expire, entries may be
  trimmed and other backends may publish.  The invariant is that no entry leaves the group unprocessed.
\<close>

subsection \<open>The server\<close>

text \<open>What the documentation says of the commands of \<open>stream_ops\<close> and \<open>key_ops\<close>, as far as safety needs it.\<close>

definition ids :: "group_view \<Rightarrow> string set" where
  "ids gv = fst ` set (gv_pend gv) \<union> fst ` set (gv_fresh gv)"

text \<open>The entries of the group that are neither pending nor still to be delivered.\<close>

definition gone :: "string \<Rightarrow> redis_view \<Rightarrow> (string \<times> entry) set" where
  "gone g v = {(s, i, f). \<exists>gv. rv_grp v (s, g) = Some gv \<and> (i, f) \<in> set (rv_log v s) \<and> i \<notin> ids gv}"

text \<open>A step of the server for the group: no group vanishes, ids are never reused, and of the entries only the ones in \<open>A\<close> leave.\<close>

definition server_step :: "string \<Rightarrow> (string \<times> string) set \<Rightarrow> redis_view \<Rightarrow> redis_view \<Rightarrow> bool" where
  "server_step g A v v' \<longleftrightarrow>
     (\<forall>s. rv_grp v (s, g) \<noteq> None \<longrightarrow> rv_grp v' (s, g) \<noteq> None) \<and>
     (\<forall>s. rv_minted v s \<subseteq> rv_minted v' s) \<and>
     (\<forall>s. \<forall>(i, f) \<in> set (rv_log v' s). (i, f) \<in> set (rv_log v s) \<or> i \<notin> rv_minted v s) \<and>
     (\<forall>(s, i, f) \<in> gone g v'. (s, i, f) \<in> gone g v \<or> (s, i) \<in> A)"

locale streams_server = clocked_streams R view inv adv
  for R :: "'r redis_ops" and view inv adv +
  fixes X :: "'r stream_ops" and K :: "'k key_ops" and marked :: "'k \<Rightarrow> string set"
  assumes many: "inv r \<Longrightarrow> 0 < n \<Longrightarrow> so_xreadgroup X g c ss n block r = (rep, r') \<Longrightarrow> inv r' \<and> server_step g {} (view r) (view r') \<and>
      (\<forall>es. rep = Inr es \<longrightarrow> (\<forall>(s, i, f) \<in> set (reply_entries es). (i, f) \<in> set (rv_log (view r') s) \<and> rv_grp (view r') (s, g) \<noteq> None))"
    and untrimmed: "inv r \<Longrightarrow> so_xadd X s f r = (res, r') \<Longrightarrow> inv r' \<and> server_step g {} (view r) (view r')"
    and trimmed: "inv r \<Longrightarrow> so_xtrim_minid X s minid r = (lost, r') \<Longrightarrow> inv r' \<and> server_step g {} (view r) (view r')"
    and ack_nogroup: "inv r \<Longrightarrow> rv_grp (view r) (s, g) = None \<Longrightarrow> xack R s g i r = (a, r') \<Longrightarrow> isl a \<and> inv r' \<and> view r' = view r"
    and claim_nogroup: "inv r \<Longrightarrow> rv_grp (view r) (s, g) = None \<Longrightarrow> xautoclaim R s g c idle n r = (b, r') \<Longrightarrow>
      isl b \<and> inv r' \<and> view r' = view r"
    and get_marked: "key_get K now key k = (x, k') \<Longrightarrow> marked k' \<subseteq> marked k \<and> (\<forall>t. x = Inr (Some t) \<longrightarrow> key \<in> marked k)"
    and set_marked: "key_set K now key t ttl k = (y, k') \<Longrightarrow> marked k' \<subseteq> insert key (marked k)"
    and set_get: "key_set K now key t ttl k = (Inr (), k') \<Longrightarrow> now \<le> later \<Longrightarrow> later < now + 1000 * ttl \<Longrightarrow>
      fst (key_get K later key k') = Inr (Some t)"

subsection \<open>The system\<close>

record handling =
  hg_stream :: string
  hg_id :: string
  hg_event :: envelope
  hg_done :: bool

record ('r, 'k, 'w) streams_system =
  ss_redis :: 'r
  ss_keys :: 'k
  ss_world :: 'w
  ss_delivered :: "(string \<times> entry) set"
  ss_flights :: "handling set"
  ss_processed :: "string set"
  ss_parked :: "(string \<times> string) set"

text \<open>What an instance sees: the server, the world, and what it knows of the streams.\<close>

type_synonym known = "string list \<times> string list \<times> (string \<times> string) list"

definition seen_by :: "known \<Rightarrow> ('r, 'k, 'w) streams_system \<Rightarrow> ('r, 'k, 'w) backend_state" where
  "seen_by L s = \<lparr>bt_redis = ss_redis s, bt_keys = ss_keys s, bt_world = ss_world s, bt_streams = fst L,
     bt_groups_ready = fst (snd L), bt_last_ids = snd (snd L)\<rparr>"

definition put_back :: "('r, 'k, 'w) backend_state \<Rightarrow> ('r, 'k, 'w) streams_system \<Rightarrow> ('r, 'k, 'w) streams_system" where
  "put_back st s = s\<lparr>ss_redis := bt_redis st, ss_keys := bt_keys st, ss_world := bt_world st\<rparr>"

inductive streams_run ::
    "'r redis_ops \<Rightarrow> (int \<Rightarrow> 'r \<Rightarrow> 'r) \<Rightarrow> 'r stream_ops \<Rightarrow> 'k key_ops \<Rightarrow> 'w streams_backend \<Rightarrow> 'r \<Rightarrow> 'k \<Rightarrow>
     ('r, 'k, 'w) streams_system \<Rightarrow> bool"
  for R adv X K B r0 k0 where
  start: "streams_run R adv X K B r0 k0 \<lparr>ss_redis = r0, ss_keys = k0, ss_world = w, ss_delivered = {}, ss_flights = {},
     ss_processed = {}, ss_parked = {}\<rparr>"
| clock: "streams_run R adv X K B r0 k0 s \<Longrightarrow> 0 \<le> d \<Longrightarrow> streams_run R adv X K B r0 k0 (s\<lparr>ss_redis := adv d (ss_redis s)\<rparr>)"
| publishes: "streams_run R adv X K B r0 k0 s \<Longrightarrow> 0 < sb_maxlen C \<Longrightarrow> streams_publish R X C e (seen_by L s) = (res, st) \<Longrightarrow>
     streams_run R adv X K B r0 k0 (put_back st s)"
| joins: "streams_run R adv X K B r0 k0 s \<Longrightarrow> ensure_backend_group R C t (seen_by L s) = (res, st) \<Longrightarrow>
     streams_run R adv X K B r0 k0 (put_back st s)"
| trims: "streams_run R adv X K B r0 k0 s \<Longrightarrow> retention_pass X C now (seen_by L s) = (res, st) \<Longrightarrow>
     streams_run R adv X K B r0 k0 (put_back st s)"
| reads: "streams_run R adv X K B r0 k0 s \<Longrightarrow> 0 < n \<Longrightarrow> so_xreadgroup X (sb_group B) c ss n block (ss_redis s) = (Inr rep, r) \<Longrightarrow>
     streams_run R adv X K B r0 k0 (s\<lparr>ss_redis := r, ss_delivered := ss_delivered s \<union> set (reply_entries rep)\<rparr>)"
| claims: "streams_run R adv X K B r0 k0 s \<Longrightarrow> xautoclaim R t (sb_group B) c idle n (ss_redis s) = (Inr es, r) \<Longrightarrow>
     streams_run R adv X K B r0 k0 (s\<lparr>ss_redis := r, ss_delivered := ss_delivered s \<union> Pair t ` set es\<rparr>)"
| begins: "streams_run R adv X K B r0 k0 s \<Longrightarrow> (t, i, f) \<in> ss_delivered s \<Longrightarrow>
     begin_message R K (B\<lparr>sb_consumer := c\<rparr>) now t i f (seen_by L s) = (res, st) \<Longrightarrow>
     streams_run R adv X K B r0 k0 ((put_back st s)\<lparr>ss_flights := ss_flights s \<union>
       (case res of Inr (Some e) \<Rightarrow> {\<lparr>hg_stream = t, hg_id = i, hg_event = e, hg_done = False\<rparr>} | _ \<Rightarrow> {})\<rparr>)"
| dispatches: "streams_run R adv X K B r0 k0 s \<Longrightarrow> x \<in> ss_flights s \<Longrightarrow> call_back cb (hg_event x) (seen_by L s) = (ok, st) \<Longrightarrow>
     streams_run R adv X K B r0 k0 ((put_back st s)\<lparr>ss_flights := ss_flights s - {x} \<union> (if ok then {x\<lparr>hg_done := True\<rparr>} else {}),
       ss_processed := ss_processed s \<union> (if ok then {event_id (hg_event x)} else {})\<rparr>)"
| finishes: "streams_run R adv X K B r0 k0 s \<Longrightarrow> x \<in> ss_flights s \<Longrightarrow> hg_done x \<Longrightarrow>
     finish_message R K (B\<lparr>sb_consumer := c\<rparr>) now (hg_stream x) (hg_id x) (hg_event x) (seen_by L s) = st \<Longrightarrow>
     streams_run R adv X K B r0 k0 ((put_back st s)\<lparr>ss_flights := ss_flights s - {x}\<rparr>)"
| parks: "streams_run R adv X K B r0 k0 s \<Longrightarrow> (t, i, f) \<in> ss_delivered s \<Longrightarrow> sb_max_deliveries B = Some m \<Longrightarrow> m < n \<Longrightarrow>
     park_entry R (B\<lparr>sb_consumer := c\<rparr>) t i f n (seen_by L s) = st \<Longrightarrow>
     streams_run R adv X K B r0 k0 ((put_back st s)\<lparr>ss_parked := insert (t, i) (ss_parked s)\<rparr>)"
| crashes: "streams_run R adv X K B r0 k0 s \<Longrightarrow> F \<subseteq> ss_flights s \<Longrightarrow> streams_run R adv X K B r0 k0 (s\<lparr>ss_flights := F\<rparr>)"

subsection \<open>Server steps\<close>

lemma server_step_refl [simp]: "server_step g A v v"
  by (auto simp: server_step_def)

lemma server_step_trans: "server_step g A v v1 \<Longrightarrow> server_step g A' v1 v2 \<Longrightarrow> server_step g (A \<union> A') v v2"
  unfolding server_step_def by (intro conjI) (blast | force)+

lemma server_step_mono: "server_step g A v v' \<Longrightarrow> A \<subseteq> A' \<Longrightarrow> server_step g A' v v'"
  unfolding server_step_def by blast

lemma server_step_now: "server_step g {} v (v\<lparr>rv_now := n\<rparr>)"
  by (auto simp: server_step_def gone_def)

text \<open>A step that replaces the view of one group.\<close>

lemma server_step_set:
  assumes "rv_grp v (s, h) = Some gv" and "\<And>i. h = g \<Longrightarrow> i \<in> ids gv \<Longrightarrow> i \<notin> ids gw \<Longrightarrow> (s, i) \<in> A \<or> \<not> in_stream v s i"
  shows "server_step g A v (set_grp s h gw v)"
  using assms unfolding server_step_def gone_def in_stream_def
  by (auto simp: image_iff split: if_splits) (metis fst_conv)+


lemma server_step_same: "view' = v \<Longrightarrow> server_step g A v view'"
  by simp

definition entry_ok :: "redis_view \<Rightarrow> string \<Rightarrow> entry \<Rightarrow> bool" where
  "entry_ok v s m \<longleftrightarrow> fst m \<in> rv_minted v s \<and> (\<forall>f. (fst m, f) \<in> set (rv_log v s) \<longrightarrow> f = snd m)"

lemma wf_fresh: "wf_view v \<Longrightarrow> rv_grp v (s, g) = Some gv \<Longrightarrow> set (gv_fresh gv) \<subseteq> set (rv_log v s)"
  unfolding wf_view_def wf_group_def by blast

lemma entry_ok_step: "entry_ok v s m \<Longrightarrow> server_step g A v v' \<Longrightarrow> entry_ok v' s m"
  unfolding entry_ok_def server_step_def by blast

lemma entry_ok_in: "wf_view v \<Longrightarrow> (i, f) \<in> set (rv_log v s) \<Longrightarrow> entry_ok v s (i, f)"
proof -
  assume w: "wf_view v" and m: "(i, f) \<in> set (rv_log v s)"
  from w have d: "distinct (map fst (rv_log v s))" and k: "fst ` set (rv_log v s) \<subseteq> rv_minted v s" by (auto simp: wf_view_def)
  from k imageI[OF m, of fst] have "i \<in> rv_minted v s" by auto
  with m eq_key_imp_eq_value[OF d] show ?thesis by (auto simp: entry_ok_def)
qed

context redis_streams
begin

lemma add_step:
  assumes "inv r" and "0 < m" and "xadd R s f m r = (res, r')"
  shows "inv r' \<and> server_step g {} (view r) (view r')"
proof -
  from add[OF assms(1,2), of s f] assms(3) obtain i k where a: "inv r'" "i \<notin> rv_minted (view r) s"
    "i \<in> rv_minted (view r') s" "\<forall>t. rv_minted (view r) t \<subseteq> rv_minted (view r') t"
    "rv_log (view r') = (rv_log (view r))(s := drop k (rv_log (view r) s @ [(i, f)]))"
    and g: "\<forall>t g. rv_grp (view r') (t, g) =
             (if t = s then map_option (\<lambda>gv. gv\<lparr>gv_fresh := filter (\<lambda>x. x \<in> set (rv_log (view r') s)) (gv_fresh gv @ [(i, f)])\<rparr>)
                (rv_grp (view r) (t, g)) else rv_grp (view r) (t, g))"
    by auto
  have "gone g (view r') \<subseteq> gone g (view r)"
  proof (clarify)
    fix t j h
    assume "(t, j, h) \<in> gone g (view r')"
    then obtain gv' where gv': "rv_grp (view r') (t, g) = Some gv'" "(j, h) \<in> set (rv_log (view r') t)" "j \<notin> ids gv'"
      by (auto simp: gone_def)
    show "(t, j, h) \<in> gone g (view r)"
    proof (cases "t = s")
      case True
      from gv'(1) g True obtain gv where gv: "rv_grp (view r) (s, g) = Some gv"
        "gv' = gv\<lparr>gv_fresh := filter (\<lambda>x. x \<in> set (rv_log (view r') s)) (gv_fresh gv @ [(i, f)])\<rparr>" by auto
      let ?F = "filter (\<lambda>x. x \<in> set (rv_log (view r') s)) (gv_fresh gv @ [(i, f)])"
      from gv'(3) gv(2) have "j \<notin> fst ` set (gv_pend gv)" and nF: "j \<notin> fst ` set ?F" by (simp_all add: ids_def del: filter_append)
      have "(j, h) \<notin> set (gv_fresh gv @ [(i, f)])"
      proof
        assume "(j, h) \<in> set (gv_fresh gv @ [(i, f)])"
        with gv'(2) True have "(j, h) \<in> set ?F" by (simp del: filter_append)
        then have "fst (j, h) \<in> fst ` set ?F" by (rule imageI)
        with nF show False by simp
      qed
      note nf = this \<open>j \<notin> fst ` set (gv_pend gv)\<close>
      with gv'(2) a(5) True have jl: "(j, h) \<in> set (rv_log (view r) s)" by (auto dest: in_set_dropD)
      have "j \<notin> fst ` set (gv_fresh gv)"
      proof
        assume "j \<in> fst ` set (gv_fresh gv)"
        then obtain h' where h': "(j, h') \<in> set (gv_fresh gv)" by auto
        with wf_fresh[OF wf[OF assms(1)] gv(1)] have "(j, h') \<in> set (rv_log (view r) s)" by blast
        with jl entry_ok_in[OF wf[OF assms(1)] jl] have "h' = h" by (simp add: entry_ok_def)
        with h' nf show False by simp
      qed
      with jl nf gv(1) True show ?thesis by (auto simp: gone_def ids_def)
    next
      case False
      with gv' g a(5) show ?thesis by (auto simp: gone_def)
    qed
  qed
  moreover have "(j, h) \<in> set (rv_log (view r) t) \<or> j \<notin> rv_minted (view r) t" if "(j, h) \<in> set (rv_log (view r') t)" for t j h
    using that a(2,5) by (auto dest!: in_set_dropD split: if_splits)
  moreover have "rv_grp (view r') (t, g) \<noteq> None" if "rv_grp (view r) (t, g) \<noteq> None" for t
    using that g by auto
  ultimately show ?thesis using a(1,4) unfolding server_step_def by blast
qed

lemma read_step:
  assumes "inv r" and "rv_grp (view r) (s, g) = Some gv" and "0 < n" and "xreadgroup R s g c n None r = (Inr rep, r')"
  shows "inv r' \<and> server_step h {} (view r) (view r') \<and> rv_grp (view r') (s, g) \<noteq> None \<and>
    (\<forall>m \<in> set (concat (map snd rep)). m \<in> set (rv_log (view r') s))"
proof -
  from readgroup[OF assms(1-3), of None c] assms(4) have r: "inv r'" "concat (map snd rep) = take n (gv_fresh gv)"
    and v: "view r' = set_grp s g \<lparr>gv_pend = gv_pend gv @
              map (\<lambda>(i, _). (i, \<lparr>pe_consumer = c, pe_delivered_at = rv_now (view r), pe_times = 1\<rparr>)) (take n (gv_fresh gv)),
              gv_fresh = drop n (gv_fresh gv)\<rparr> (view r)" by auto
  have "fst ` set (gv_fresh gv) = fst ` set (take n (gv_fresh gv)) \<union> fst ` set (drop n (gv_fresh gv))"
    by (metis append_take_drop_id image_Un set_append)
  then have st: "server_step h {} (view r) (view r')"
    unfolding v by (intro server_step_set[OF assms(2)]) (force simp: ids_def image_image case_prod_beta)
  with r wf_fresh[OF wf[OF assms(1)] assms(2)] show ?thesis by (auto simp: v dest!: in_set_takeD)
qed

end

context streams_server
begin

lemma ack_step:
  assumes "inv r"
  shows "inv (ack_quiet R s g i r)" "server_step g {(s, i)} (view r) (view (ack_quiet R s g i r))"
proof -
  have "inv (ack_quiet R s g i r) \<and> server_step g {(s, i)} (view r) (view (ack_quiet R s g i r))"
  proof (cases "rv_grp (view r) (s, g)")
    case None
    obtain a r' where "xack R s g i r = (a, r')" by force
    with ack_nogroup[OF assms None this] show ?thesis by (simp add: ack_quiet_def)
  next
    case (Some gv)
    from ack_quiet_spec[OF assms Some, of i] show ?thesis
      by (simp, intro server_step_set[OF Some]) (auto simp: ids_def forget_def image_iff)
  qed
  then show "inv (ack_quiet R s g i r)" "server_step g {(s, i)} (view r) (view (ack_quiet R s g i r))" by simp_all
qed

lemma claim_step:
  assumes "inv r" and "xautoclaim R s g c idle n r = (res, r')"
  shows "inv r' \<and> server_step g {} (view r) (view r') \<and> (\<forall>es. res = Inr es \<longrightarrow> (\<forall>m \<in> set es. entry_ok (view r') s m))"
proof (cases "rv_grp (view r) (s, g)")
  case None
  with claim_nogroup[OF assms(1) None assms(2)] show ?thesis by (auto simp: isl_def)
next
  case (Some gv)
  from autoclaim[OF assms(1) Some, where c = c and idle = idle and n = n] assms(2) obtain D ids' where
    ids': "ids' = map fst (take_count n (expired_live (view r) s idle gv))"
    and res: "res = Inr (map (\<lambda>i. (i, fields_of (view r) s i)) ids')" and r': "inv r'" and D: "\<forall>i \<in> D. \<not> in_stream (view r) s i"
    and v: "view r' = set_grp s g (gv\<lparr>gv_pend := touch (set ids')
              (\<lambda>p. \<lparr>pe_consumer = c, pe_delivered_at = rv_now (view r), pe_times = pe_times p + 1\<rparr>) (forget D (gv_pend gv))\<rparr>) (view r)"
    by auto
  have step: "server_step g {} (view r) (view r')"
    unfolding v by (rule server_step_set[OF Some]) (use D in \<open>auto simp: ids_def forget_def image_iff\<close>)
  have "entry_ok (view r') s (i, fields_of (view r) s i)" if "i \<in> set ids'" for i
  proof -
    from that have "in_stream (view r) s i"
      by (auto simp: ids' expired_live_def take_count_def split: if_splits dest!: in_set_takeD)
    then obtain f where f: "(i, f) \<in> set (rv_log (view r) s)" by (auto simp: in_stream_def)
    with wf[OF assms(1)] have "map_of (rv_log (view r) s) i = Some f" by (auto simp: wf_view_def intro: map_of_is_SomeI)
    with f entry_ok_in[OF wf[OF assms(1)] f] entry_ok_step[OF _ step] show ?thesis by (simp add: fields_of_def)
  qed
  with r' step res show ?thesis by auto
qed

lemma create_step:
  assumes "inv r" and "ensure_group R s h r = (res, r')"
  shows "inv r' \<and> server_step g {} (view r) (view r')"
proof -
  obtain r1 where e: "ensure_group R s h r = (Inr (), r1)" "inv r1" "view r1 = set_grp s h (ensured s h (view r)) (view r)"
    using ensure_group_spec[OF assms(1)] by metis
  have "server_step g {} (view r) (set_grp s h (ensured s h (view r)) (view r))"
  proof (cases "rv_grp (view r) (s, h)")
    case None
    then show ?thesis by (force simp: server_step_def gone_def ensured_def ids_def split: if_splits)
  next
    case (Some gv)
    then show ?thesis by (simp add: ensured_def set_grp_id)
  qed
  with e assms(2) show ?thesis by simp
qed

subsection \<open>Nothing is lost\<close>

definition streams_ok :: "'w streams_backend \<Rightarrow> ('r, 'k, 'w) streams_system \<Rightarrow> bool" where
  "streams_ok B s \<longleftrightarrow> inv (ss_redis s) \<and>
     (\<forall>(t, i, f) \<in> gone (sb_group B) (view (ss_redis s)). \<forall>e. wc_decode (sb_wire B) f = Inr e \<longrightarrow>
        event_id e \<in> ss_processed s \<or> (t, i) \<in> ss_parked s) \<and>
     (\<forall>x. sb_dedup_prefix B @ x \<in> marked (ss_keys s) \<longrightarrow> x \<in> ss_processed s) \<and>
     (\<forall>(t, m) \<in> ss_delivered s. entry_ok (view (ss_redis s)) t m) \<and>
     (\<forall>x \<in> ss_flights s. (\<exists>f. entry_ok (view (ss_redis s)) (hg_stream x) (hg_id x, f) \<and> wc_decode (sb_wire B) f = Inr (hg_event x)) \<and>
        (hg_done x \<longrightarrow> event_id (hg_event x) \<in> ss_processed s))"

text \<open>A step of the server that takes entries out for a reason keeps the invariant.\<close>

lemma streams_ok_step:
  assumes "streams_ok B s" and "inv r" and step: "server_step (sb_group B) A (view (ss_redis s)) (view r)"
    and "\<And>t i f e. (t, i) \<in> A \<Longrightarrow> (i, f) \<in> set (rv_log (view r) t) \<Longrightarrow> wc_decode (sb_wire B) f = Inr e \<Longrightarrow>
      event_id e \<in> ss_processed s' \<or> (t, i) \<in> ss_parked s'"
    and "ss_redis s' = r" and "\<And>x. sb_dedup_prefix B @ x \<in> marked (ss_keys s') \<Longrightarrow> x \<in> ss_processed s'"
    and "ss_processed s \<subseteq> ss_processed s'" and "ss_parked s \<subseteq> ss_parked s'"
    and "\<And>t m. (t, m) \<in> ss_delivered s' \<Longrightarrow> (t, m) \<in> ss_delivered s \<or> entry_ok (view r) t m"
    and "\<And>x. x \<in> ss_flights s' \<Longrightarrow> x \<in> ss_flights s \<or>
      (\<exists>f. entry_ok (view r) (hg_stream x) (hg_id x, f) \<and> wc_decode (sb_wire B) f = Inr (hg_event x)) \<and>
        (hg_done x \<longrightarrow> event_id (hg_event x) \<in> ss_processed s')"
  shows "streams_ok B s'"
proof -
  have out: "(t, i, f) \<in> gone (sb_group B) (view (ss_redis s)) \<or> (t, i) \<in> A \<and> (i, f) \<in> set (rv_log (view r) t)"
    if "(t, i, f) \<in> gone (sb_group B) (view r)" for t i f
  proof -
    from that have "(i, f) \<in> set (rv_log (view r) t)" by (auto simp: gone_def)
    with that step show ?thesis unfolding server_step_def by blast
  qed
  have "event_id e \<in> ss_processed s' \<or> (t, i) \<in> ss_parked s'"
    if g: "(t, i, f) \<in> gone (sb_group B) (view r)" and e: "wc_decode (sb_wire B) f = Inr e" for t i f e
    using out[OF g]
  proof
    assume "(t, i, f) \<in> gone (sb_group B) (view (ss_redis s))"
    with assms(1) e have "event_id e \<in> ss_processed s \<or> (t, i) \<in> ss_parked s" unfolding streams_ok_def by blast
    with assms(7,8) show ?thesis by blast
  next
    assume "(t, i) \<in> A \<and> (i, f) \<in> set (rv_log (view r) t)"
    with assms(4) e show ?thesis by blast
  qed
  moreover have "entry_ok (view r) t m" if "(t, m) \<in> ss_delivered s'" for t m
    using assms(9)[OF that]
  proof
    assume "(t, m) \<in> ss_delivered s"
    with assms(1) have "entry_ok (view (ss_redis s)) t m" unfolding streams_ok_def by blast
    then show ?thesis by (rule entry_ok_step[OF _ step])
  qed
  moreover have "(\<exists>f. entry_ok (view r) (hg_stream x) (hg_id x, f) \<and> wc_decode (sb_wire B) f = Inr (hg_event x)) \<and>
        (hg_done x \<longrightarrow> event_id (hg_event x) \<in> ss_processed s')" if "x \<in> ss_flights s'" for x
    using assms(10)[OF that]
  proof
    assume "x \<in> ss_flights s"
    with assms(1) obtain f where "entry_ok (view (ss_redis s)) (hg_stream x) (hg_id x, f)" "wc_decode (sb_wire B) f = Inr (hg_event x)"
      "hg_done x \<longrightarrow> event_id (hg_event x) \<in> ss_processed s" unfolding streams_ok_def by blast
    with entry_ok_step[OF _ step] assms(7) show ?thesis by blast
  qed
  ultimately show ?thesis using assms(2,5,6) unfolding streams_ok_def by blast
qed

lemma begin_cases:
  assumes "begin_message R K B now t i f st = (res, st1)"
  obtains (bad) x where "wc_decode (sb_wire B) f = Inl x" "res = Inr None" "bt_redis st1 = ack_quiet R t (sb_group B) i (bt_redis st)" "bt_keys st1 = bt_keys st"
  | (dup) e where "wc_decode (sb_wire B) f = Inr e" "res = Inr None" "bt_redis st1 = ack_quiet R t (sb_group B) i (bt_redis st)"
      "marked (bt_keys st1) \<subseteq> marked (bt_keys st)" "dedup_key B e \<in> marked (bt_keys st)"
  | (new) e where "wc_decode (sb_wire B) f = Inr e" "res = Inr (Some e)" "bt_redis st1 = bt_redis st" "marked (bt_keys st1) \<subseteq> marked (bt_keys st)"
  | (err) x where "res = Inl x" "bt_redis st1 = bt_redis st" "marked (bt_keys st1) \<subseteq> marked (bt_keys st)"
proof (cases "wc_decode (sb_wire B) f")
  case (Inl x)
  with assms bad show ?thesis by (auto simp: begin_message_def decode_or_ack_def backend_ack_def)
next
  case (Inr e)
  obtain y k where k: "key_get K now (dedup_key B e) (bt_keys st) = (y, k)" by force
  note m = get_marked[OF k]
  show ?thesis
  proof (cases y)
    case (Inl x)
    with Inr k m assms err show ?thesis by (auto simp: begin_message_def decode_or_ack_def on_keys_def)
  next
    case y: (Inr v)
    show ?thesis
    proof (cases "v = None \<or> v = Some []")
      case True
      with Inr y k m assms new show ?thesis by (auto simp: begin_message_def decode_or_ack_def on_keys_def)
    next
      case False
      then obtain c cs where "v = Some (c # cs)" by (cases v) (auto simp: neq_Nil_conv)
      with Inr y k m assms dup show ?thesis by (auto simp: begin_message_def decode_or_ack_def on_keys_def backend_ack_def)
    qed
  qed
qed

lemma ensure_backend_step:
  assumes "inv (bt_redis st)" and "ensure_backend_group R C t st = (res, st1)"
  shows "inv (bt_redis st1) \<and> server_step g {} (view (bt_redis st)) (view (bt_redis st1)) \<and> bt_keys st1 = bt_keys st"
proof -
  obtain x r where e: "ensure_group R t (sb_group C) (bt_redis st) = (x, r)" by force
  from create_step[OF assms(1) e, of g] assms e show ?thesis
    by (auto simp: ensure_backend_group_def on_redis_def split: if_splits sum.splits)
qed

lemma publish_step:
  assumes "inv (bt_redis st)" and "0 < sb_maxlen C" and "streams_publish R X C e st = (res, st1)"
  shows "inv (bt_redis st1) \<and> server_step g {} (view (bt_redis st)) (view (bt_redis st1)) \<and> bt_keys st1 = bt_keys st"
proof -
  define t where "t = stream_of_topic C (topic e)"
  obtain x st2 where x: "(if sb_delivery C = By_broadcast then (Inr (), st) else ensure_backend_group R C t st) = (x, st2)" by force
  have s2: "inv (bt_redis st2)" "server_step g {} (view (bt_redis st)) (view (bt_redis st2))" "bt_keys st2 = bt_keys st"
    using x ensure_backend_step[OF assms(1), of C t x st2 g] assms(1) by (auto split: if_splits)
  note p = assms(3)[unfolded streams_publish_def t_def[symmetric] Let_def x prod.case]
  show ?thesis
  proof (cases "isl x \<or> isl (wc_encode (sb_wire C) e)")
    case True
    with p s2 show ?thesis by (auto simp: isl_def split: sum.splits)
  next
    case False
    then obtain f where f: "wc_encode (sb_wire C) e = Inr f" and u: "x = Inr ()" by (cases x; cases "wc_encode (sb_wire C) e") auto
    obtain y r where y: "(if sb_retention_ms C = None then xadd R t f (sb_maxlen C) else so_xadd X t f) (bt_redis st2) = (y, r)" by force
    have "inv r \<and> server_step g {} (view (bt_redis st2)) (view r)"
      using y add_step[OF s2(1) assms(2), of t f y r g] untrimmed[OF s2(1), of t f y r g] by (auto split: if_splits)
    with p f u y s2 server_step_trans[of g "{}" "view (bt_redis st)" "view (bt_redis st2)" "{}" "view r"] show ?thesis
      by (auto simp: on_redis_def)
  qed
qed

lemma trim_streams_step:
  assumes "inv (bt_redis st)" and "trim_streams X minid ts st = (res, st1)"
  shows "inv (bt_redis st1) \<and> server_step g {} (view (bt_redis st)) (view (bt_redis st1)) \<and> bt_keys st1 = bt_keys st"
  using assms
proof (induction ts arbitrary: st)
  case (Cons t ts)
  obtain x r where x: "so_xtrim_minid X t minid (bt_redis st) = (x, r)" by force
  note s = trimmed[OF Cons.prems(1) x, of g]
  show ?case
  proof (cases x)
    case (Inl a)
    with Cons.prems x s show ?thesis by (auto simp: on_redis_def)
  next
    case (Inr a)
    with Cons.prems x have "trim_streams X minid ts (st\<lparr>bt_redis := r\<rparr>) = (res, st1)" by (simp add: on_redis_def)
    with Cons.IH[of "st\<lparr>bt_redis := r\<rparr>"] s server_step_trans[of g "{}" "view (bt_redis st)" "view r" "{}"] show ?thesis by auto
  qed
qed simp

lemma retention_step:
  assumes "inv (bt_redis st)" and "retention_pass X C now st = (res, st1)"
  shows "inv (bt_redis st1) \<and> server_step g {} (view (bt_redis st)) (view (bt_redis st1)) \<and> bt_keys st1 = bt_keys st"
  using assms trim_streams_step[OF assms(1)] by (auto simp: retention_pass_def split: option.splits)

lemma finish_step:
  assumes "inv (bt_redis st)" and "finish_message R K B now t i e st = st1"
  shows "inv (bt_redis st1) \<and> server_step (sb_group B) {(t, i)} (view (bt_redis st)) (view (bt_redis st1)) \<and>
    marked (bt_keys st1) \<subseteq> insert (dedup_key B e) (marked (bt_keys st))"
proof -
  obtain y k where k: "key_set K now (dedup_key B e) ''1'' (sb_dedup_ttl B) (bt_keys st) = (y, k)" by force
  from set_marked[OF k] ack_step[OF assms(1), where s = t and g = "sb_group B" and i = i] assms(2) k show ?thesis
    by (auto simp: finish_message_def backend_ack_def on_keys_def)
qed

lemma park_step:
  assumes "inv (bt_redis st)" and "park_entry R B t i f n st = st1"
  shows "inv (bt_redis st1) \<and> server_step (sb_group B) {(t, i)} (view (bt_redis st)) (view (bt_redis st1)) \<and> bt_keys st1 = bt_keys st"
  using assms ack_step[OF assms(1), where s = t and g = "sb_group B" and i = i]
  by (auto simp: park_entry_def decode_or_ack_def backend_ack_def split: sum.splits option.splits)

lemma seen_by_simps [simp]:
  "bt_redis (seen_by L s) = ss_redis s" "bt_keys (seen_by L s) = ss_keys s" "bt_world (seen_by L s) = ss_world s"
  by (simp_all add: seen_by_def)

lemma put_back_simps [simp]:
  "ss_redis (put_back st s) = bt_redis st" "ss_keys (put_back st s) = bt_keys st" "ss_delivered (put_back st s) = ss_delivered s"
  "ss_flights (put_back st s) = ss_flights s" "ss_processed (put_back st s) = ss_processed s" "ss_parked (put_back st s) = ss_parked s"
  by (simp_all add: put_back_def)

text \<open>A step of which the group notices nothing.\<close>

lemma streams_ok_quiet:
  assumes "streams_ok B s" and "inv (bt_redis st) \<and> server_step (sb_group B) {} (view (ss_redis s)) (view (bt_redis st)) \<and> bt_keys st = ss_keys s"
  shows "streams_ok B (put_back st s)"
proof (rule streams_ok_step[OF assms(1), of "bt_redis st" "{}"])
  show "x \<in> ss_processed (put_back st s)" if "sb_dedup_prefix B @ x \<in> marked (ss_keys (put_back st s))" for x
    using that assms unfolding streams_ok_def by simp
qed (use assms(2) in auto)

lemma reads_entries:
  assumes "inv r'" and "\<forall>(s, i, f) \<in> E. (i, f) \<in> set (rv_log (view r') s) \<and> rv_grp (view r') (s, g) \<noteq> None" and "(t, m) \<in> E"
  shows "entry_ok (view r') t m"
proof -
  from assms(2,3) have "(fst m, snd m) \<in> set (rv_log (view r') t)" by (cases m) auto
  from entry_ok_in[OF wf[OF assms(1)] this] show ?thesis by simp
qed

lemma streams_run_ok:
  assumes "streams_run R adv X K B r0 k0 s" and "inv r0" and "\<And>t. rv_grp (view r0) (t, sb_group B) = None" and "marked k0 = {}"
  shows "streams_ok B s"
  using assms(1)
proof (induction rule: streams_run.induct)
  case (start w)
  then show ?case using assms(2-4) by (auto simp: streams_ok_def gone_def)
next
  case (clock s d)
  then have i: "inv (ss_redis s)" by (simp add: streams_ok_def)
  from tick[OF i clock.hyps(2)] have t: "inv (adv d (ss_redis s))"
    "server_step (sb_group B) {} (view (ss_redis s)) (view (adv d (ss_redis s)))" by (simp_all add: server_step_now)
  show ?case
    by (rule streams_ok_step[OF clock.IH t]) (use clock.IH in \<open>auto simp: streams_ok_def\<close>)
next
  case (publishes s C e L res st)
  have "inv (bt_redis (seen_by L s))" using publishes.IH by (simp add: streams_ok_def)
  from publish_step[OF this publishes.hyps(2,3), of "sb_group B"] streams_ok_quiet[OF publishes.IH] show ?case by simp
next
  case (joins s C t L res st)
  have "inv (bt_redis (seen_by L s))" using joins.IH by (simp add: streams_ok_def)
  from ensure_backend_step[OF this joins.hyps(2), of "sb_group B"] streams_ok_quiet[OF joins.IH] show ?case by simp
next
  case (trims s C now L res st)
  have "inv (bt_redis (seen_by L s))" using trims.IH by (simp add: streams_ok_def)
  from retention_step[OF this trims.hyps(2), of "sb_group B"] streams_ok_quiet[OF trims.IH] show ?case by simp
next
  case (reads s n c ss block rep r)
  then have i: "inv (ss_redis s)" by (simp add: streams_ok_def)
  note m = many[OF i reads.hyps(2,3)]
  then have ir: "inv r" and st: "server_step (sb_group B) {} (view (ss_redis s)) (view r)" by simp_all
  show ?case
    by (rule streams_ok_step[OF reads.IH ir st])
      (use reads.IH m reads_entries[OF ir, of "set (reply_entries rep)" "sb_group B"] in \<open>auto simp: streams_ok_def\<close>)
next
  case (claims s t c idle n es r)
  then have i: "inv (ss_redis s)" by (simp add: streams_ok_def)
  note m = claim_step[OF i claims.hyps(2)]
  then have ir: "inv r" and st: "server_step (sb_group B) {} (view (ss_redis s)) (view r)" by simp_all
  show ?case
    by (rule streams_ok_step[OF claims.IH ir st]) (use claims.IH m in \<open>auto simp: streams_ok_def\<close>)
next
  case (begins s t i f c now L res st)
  then have ir: "inv (ss_redis s)" and mk: "\<And>x. sb_dedup_prefix B @ x \<in> marked (ss_keys s) \<Longrightarrow> x \<in> ss_processed s"
    and ok: "entry_ok (view (ss_redis s)) t (i, f)" by (auto simp: streams_ok_def)
  note ak = ack_step[OF ir, where s = t and g = "sb_group B" and i = i]
  have same: "f' = f" if "(i, f') \<in> set (rv_log (view (ack_quiet R t (sb_group B) i (ss_redis s))) t)" for f'
    using entry_ok_step[OF ok ak(2)] that by (simp add: entry_ok_def)
  from begins.hyps(3) show ?case
  proof (cases rule: begin_cases)
    case (bad x)
    then show ?thesis
      by (intro streams_ok_step[OF begins.IH ak]) (use mk in \<open>auto dest: same\<close>)
  next
    case (dup e)
    then have "event_id e \<in> ss_processed s" using mk by (auto simp: dedup_key_def)
    with dup show ?thesis
      by (intro streams_ok_step[OF begins.IH ak]) (use mk in \<open>auto dest: same\<close>)
  next
    case (new e)
    with ok show ?thesis
      by (intro streams_ok_step[OF begins.IH ir server_step_refl[of _ "{}"]]) (use mk in auto)
  next
    case (err x)
    then show ?thesis
      by (intro streams_ok_step[OF begins.IH ir server_step_refl[of _ "{}"]]) (use mk in auto)
  qed
next
  case (dispatches s x cb L ok st)
  then have ir: "inv (ss_redis s)" and mk: "\<And>x. sb_dedup_prefix B @ x \<in> marked (ss_keys s) \<Longrightarrow> x \<in> ss_processed s"
    by (auto simp: streams_ok_def)
  obtain f where f: "entry_ok (view (ss_redis s)) (hg_stream x) (hg_id x, f)" "wc_decode (sb_wire B) f = Inr (hg_event x)"
    using dispatches.IH dispatches.hyps(2) by (auto simp: streams_ok_def)
  have st: "bt_redis st = ss_redis s" "bt_keys st = ss_keys s"
    using dispatches.hyps(3) by (auto simp: call_back_def split: prod.splits)
  show ?case
    by (rule streams_ok_step[OF dispatches.IH ir server_step_refl[of _ "{}"]]) (use mk f st in auto)
next
  case (finishes s x c now L st)
  then have ir: "inv (bt_redis (seen_by L s))" and mk: "\<And>x. sb_dedup_prefix B @ x \<in> marked (ss_keys s) \<Longrightarrow> x \<in> ss_processed s"
    and d: "event_id (hg_event x) \<in> ss_processed s" by (auto simp: streams_ok_def)
  obtain f where f: "entry_ok (view (ss_redis s)) (hg_stream x) (hg_id x, f)" "wc_decode (sb_wire B) f = Inr (hg_event x)"
    using finishes.IH finishes.hyps(2) by (auto simp: streams_ok_def)
  from finish_step[OF ir finishes.hyps(4)] have i2: "inv (bt_redis st)"
    and st: "server_step (sb_group B) {(hg_stream x, hg_id x)} (view (ss_redis s)) (view (bt_redis st))"
    and k: "marked (bt_keys st) \<subseteq> insert (dedup_key B (hg_event x)) (marked (ss_keys s))" by (simp_all add: dedup_key_def)
  have same: "f' = f" if "(hg_id x, f') \<in> set (rv_log (view (bt_redis st)) (hg_stream x))" for f'
    using entry_ok_step[OF f(1) st] that by (simp add: entry_ok_def)
  show ?case
    by (rule streams_ok_step[OF finishes.IH i2 st]) (use mk d f k in \<open>auto simp: dedup_key_def dest: same\<close>)
next
  case (parks s t i f m n c L st)
  then have ir: "inv (bt_redis (seen_by L s))" and mk: "\<And>x. sb_dedup_prefix B @ x \<in> marked (ss_keys s) \<Longrightarrow> x \<in> ss_processed s"
    by (auto simp: streams_ok_def)
  from park_step[OF ir parks.hyps(5)] have i2: "inv (bt_redis st)"
    and st: "server_step (sb_group B) {(t, i)} (view (ss_redis s)) (view (bt_redis st))" and k: "bt_keys st = ss_keys s" by simp_all
  show ?case
    by (rule streams_ok_step[OF parks.IH i2 st]) (use mk k in auto)
next
  case (crashes s F)
  then have ir: "inv (ss_redis s)" by (simp add: streams_ok_def)
  show ?case
    by (rule streams_ok_step[OF crashes.IH ir server_step_refl[of _ "{}"]]) (use crashes in \<open>auto simp: streams_ok_def\<close>)
qed

end

section \<open>The server of the tests\<close>

text \<open>
  The commands of the streams backend on the in-memory servers of the tests: several streams read at
  once and the string keys as in tests/queues/_fake_streams.py, trimming by id, discovery and free
  reads as in tests/test_backends_streams.py.  They keep the contract.
\<close>

subsection \<open>Commands\<close>

fun fake_xreadgroup_many ::
    "string \<Rightarrow> string \<Rightarrow> string list \<Rightarrow> nat \<Rightarrow> int \<Rightarrow> fake_redis \<Rightarrow> (string + (string \<times> entry list) list) \<times> fake_redis" where
  "fake_xreadgroup_many g c [] n block st = (Inr [], st)"
| "fake_xreadgroup_many g c (s # ss) n block st =
     (case fake_xreadgroup s g c n (Some block) st of
        (Inl x, st1) \<Rightarrow> (Inl x, st1)
      | (Inr rep, st1) \<Rightarrow> apfst (map_sum id (\<lambda>rest. rep @ rest)) (fake_xreadgroup_many g c ss n block st1))"

definition entry_seq :: "string \<Rightarrow> int" where
  "entry_seq i = fst (id_key i)"

definition fake_xtrim_minid :: "string \<Rightarrow> string \<Rightarrow> fake_redis \<Rightarrow> (string + int) \<times> fake_redis" where
  "fake_xtrim_minid s minid st =
     (case dict_get (fr_streams st) s of
        None \<Rightarrow> (Inr 0, st)
      | Some es \<Rightarrow>
          (let kept = filter (\<lambda>e. entry_seq (fst e) \<ge> entry_seq minid) es
           in (Inr (int (length es) - int (length kept)), set_entries s kept st)))"

definition fake_scan :: "string \<Rightarrow> fake_redis \<Rightarrow> (string + string list) \<times> fake_redis" where
  "fake_scan pat st =
     (let prefix = rev (dropWhile (\<lambda>c. c = CHR ''*'') (rev pat))
      in (Inr (filter (\<lambda>name. py_startswith name prefix) (map fst (fr_streams st))), st))"

definition fake_xrevrange1 :: "string \<Rightarrow> fake_redis \<Rightarrow> (string + string option) \<times> fake_redis" where
  "fake_xrevrange1 s st =
     (let es = fake_entries st s in (Inr (if es = [] then None else Some (fst (List.last es))), st))"

definition read_after :: "fake_redis \<Rightarrow> nat \<Rightarrow> string \<times> string \<Rightarrow> (string \<times> entry list) list" where
  "read_after st n c =
     (let es = fake_entries st (fst c);
          threshold = (if snd c = ''$'' then if es = [] then - 1 else entry_seq (fst (List.last es)) else entry_seq (snd c));
          fresh = take_count n (filter (\<lambda>e. entry_seq (fst e) > threshold) es)
      in if fresh = [] then [] else [(fst c, fresh)])"

definition fake_xread ::
    "(string \<times> string) list \<Rightarrow> nat \<Rightarrow> int \<Rightarrow> fake_redis \<Rightarrow> (string + (string \<times> entry list) list) \<times> fake_redis" where
  "fake_xread cs n block st = (Inr (concat (map (read_after st n) cs)), st)"

definition fake_stream_ops :: "fake_redis stream_ops" where
  "fake_stream_ops = \<lparr>so_xadd = (\<lambda>s f. fake_xadd s f (- 1)), so_xreadgroup = fake_xreadgroup_many,
     so_xtrim_minid = fake_xtrim_minid, so_scan = fake_scan, so_xrevrange1 = fake_xrevrange1, so_xread = fake_xread\<rparr>"

type_synonym fake_keys = "(string \<times> string \<times> int) list"

definition fake_get :: "int \<Rightarrow> string \<Rightarrow> fake_keys \<Rightarrow> (string + string option) \<times> fake_keys" where
  "fake_get now key k =
     (let k1 = (case dict_get k key of Some (_, due) \<Rightarrow> if due \<le> now then dict_del key k else k | None \<Rightarrow> k)
      in (Inr (map_option fst (dict_get k1 key)), k1))"

definition fake_set :: "int \<Rightarrow> string \<Rightarrow> string \<Rightarrow> int \<Rightarrow> fake_keys \<Rightarrow> (string + unit) \<times> fake_keys" where
  "fake_set now key v ttl k = (Inr (), dict_set key (v, now + ttl * 1000) k)"

definition fake_key_ops :: "fake_keys key_ops" where
  "fake_key_ops = \<lparr>key_get = fake_get, key_set = fake_set\<rparr>"

lemma fake_extra_simps [simp]:
  "so_xadd fake_stream_ops = (\<lambda>s f. fake_xadd s f (- 1))" "so_xreadgroup fake_stream_ops = fake_xreadgroup_many"
  "so_xtrim_minid fake_stream_ops = fake_xtrim_minid" "so_scan fake_stream_ops = fake_scan"
  "so_xrevrange1 fake_stream_ops = fake_xrevrange1" "so_xread fake_stream_ops = fake_xread"
  "key_get fake_key_ops = fake_get" "key_set fake_key_ops = fake_set"
  by (simp_all add: fake_stream_ops_def fake_key_ops_def)

subsection \<open>The contract\<close>

lemma fake_many:
  assumes "fake_inv r" and "0 < n" and "fake_xreadgroup_many g c ss n block r = (rep, r')"
  shows "fake_inv r' \<and> server_step g {} (fake_view r) (fake_view r') \<and>
    (\<forall>es. rep = Inr es \<longrightarrow> (\<forall>(s, m) \<in> set (reply_entries es). m \<in> set (rv_log (fake_view r') s) \<and> rv_grp (fake_view r') (s, g) \<noteq> None))"
  using assms(1,3)
proof (induction ss arbitrary: r rep)
  case (Cons s ss)
  show ?case
  proof (cases "rv_grp (fake_view r) (s, g)")
    case None
    then have "fake_xreadgroup s g c n (Some block) r = (Inl ''NOGROUP No such consumer group'', r)"
      by (simp add: fake_xreadgroup_def with_group_def fake_view_def)
    with Cons.prems show ?thesis by auto
  next
    case (Some gv)
    obtain res r1 where x: "fake_xreadgroup s g c n None r = (res, r1)" by force
    with fake_readgroup[OF Cons.prems(1) Some assms(2), of c None] obtain es where es: "fake_xreadgroup s g c n None r = (Inr es, r1)" by auto
    have one: "fst ` set es \<subseteq> {s}"
      using es by (auto simp: fake_xreadgroup_def with_group_def Let_def split: option.splits if_splits)
    from fake.read_step[OF Cons.prems(1) Some assms(2), of c es r1 g] es
    have st: "fake_inv r1" "server_step g {} (fake_view r) (fake_view r1)" "rv_grp (fake_view r1) (s, g) \<noteq> None"
      "\<forall>m \<in> set (concat (map snd es)). m \<in> set (rv_log (fake_view r1) s)" by auto
    have xs: "fake_xreadgroup s g c n (Some block) r = (Inr es, r1)" using es by (simp add: fake_xreadgroup_def)
    obtain rest r2 where m: "fake_xreadgroup_many g c ss n block r1 = (rest, r2)" by force
    from Cons.prems(2) have rep: "rep = map_sum id (\<lambda>rest. es @ rest) rest" and r': "r' = r2" by (simp_all add: xs m)
    note IH = Cons.IH[OF st(1) m[folded r']]
    have later: "m \<in> set (rv_log (fake_view r') s) \<and> rv_grp (fake_view r') (s, g) \<noteq> None" if "m \<in> set (concat (map snd es))" for m
    proof -
      have logs: "rv_log (fake_view r') = rv_log (fake_view r1)"
      proof -
        have "fake_xreadgroup_many g c ss n block q = (a, q') \<Longrightarrow> fake_entries q' = fake_entries q" for q a q' n ss
        proof (induction ss arbitrary: q a)
          case (Cons u us)
          obtain a1 q1 where a1: "fake_xreadgroup u g c n (Some block) q = (a1, q1)" by force
          then have "fake_entries q1 = fake_entries q"
            by (auto simp: fake_xreadgroup_def with_group_def Let_def fun_eq_iff split: option.splits if_splits)
          with Cons a1 show ?case by (cases a1; cases "fake_xreadgroup_many g c us n block q1") auto
        qed simp
        from this[OF m] show ?thesis by (simp add: r')
      qed
      with st(3,4) that IH show ?thesis by (auto simp: server_step_def)
    qed
    have "m \<in> set (rv_log (fake_view r') t) \<and> rv_grp (fake_view r') (t, g) \<noteq> None"
      if "rep = Inr out" "(t, m) \<in> set (reply_entries out)" for out t m
    proof -
      from that rep obtain rest' where rest: "rest = Inr rest'" "out = es @ rest'" by (cases rest) auto
      from that(2) rest(2) consider b where "(t, b) \<in> set es" "m \<in> set b" | "(t, m) \<in> set (reply_entries rest')"
        by (auto simp: reply_entries_def)
      then have "t = s \<and> m \<in> set (concat (map snd es)) \<or> (t, m) \<in> set (reply_entries rest')"
        using one by cases (force, simp)
      with later IH rest show ?thesis by blast
    qed
    moreover have "server_step g {} (fake_view r) (fake_view r')"
      using IH server_step_trans[OF st(2), of "{}" "fake_view r'"] by simp
    ultimately show ?thesis using IH by blast
  qed
qed (simp add: reply_entries_def)

lemma server_step_shrunk:
  assumes "fake_inv st"
  shows "fake_inv (set_entries s (filter P (fake_entries st s)) st)"
    "server_step g {} (fake_view st) (fake_view (set_entries s (filter P (fake_entries st s)) st))"
proof -
  note sh = shrink_entries[OF assms refl, where s = s and P = P]
  show "fake_inv (set_entries s (filter P (fake_entries st s)) st)" by (rule sh(1))
  have "(j, h) \<in> set (rv_log (fake_view st) t)" if "(j, h) \<in> set (rv_log (fake_view (set_entries s (filter P (fake_entries st s)) st)) t)" for t j h
    using that unfolding sh(4) by (auto split: if_splits)
  moreover have "(t, j, h) \<in> gone g (fake_view st)" if g: "(t, j, h) \<in> gone g (fake_view (set_entries s (filter P (fake_entries st s)) st))" for t j h
  proof (cases "t = s")
    case True
    from g[unfolded gone_def sh(4,5)] True obtain gv where gv: "rv_grp (fake_view st) (s, g) = Some gv"
      "(j, h) \<in> set (fake_entries st s)" "P (j, h)" "j \<notin> ids (gv\<lparr>gv_fresh := filter P (gv_fresh gv)\<rparr>)" by auto
    have "j \<notin> fst ` set (gv_fresh gv)"
    proof
      assume "j \<in> fst ` set (gv_fresh gv)"
      then obtain h' where h': "(j, h') \<in> set (gv_fresh gv)" by auto
      have "set (gv_fresh gv) \<subseteq> set (fake_entries st s)" using wf_fresh[OF fake_wf[OF assms] gv(1)] by simp
      have "entry_ok (fake_view st) s (j, h)" using gv(2) by (intro entry_ok_in[OF fake_wf[OF assms]]) simp
      with h' \<open>set (gv_fresh gv) \<subseteq> set (fake_entries st s)\<close> have "h' = h" by (auto simp: entry_ok_def)
      with h' gv(3) have "(j, h) \<in> set (filter P (gv_fresh gv))" by simp
      then have "fst (j, h) \<in> fst ` set (filter P (gv_fresh gv))" by (rule imageI)
      with gv(4) show False by (simp add: ids_def)
    qed
    with gv True show ?thesis by (auto simp: gone_def ids_def)
  next
    case False
    with g[unfolded gone_def sh(4,5)] show ?thesis by (auto simp: gone_def)
  qed
  moreover have "rv_grp (fake_view (set_entries s (filter P (fake_entries st s)) st)) (t, g) \<noteq> None"
    if "rv_grp (fake_view st) (t, g) \<noteq> None" for t
    using that unfolding sh(5) by auto
  ultimately show "server_step g {} (fake_view st) (fake_view (set_entries s (filter P (fake_entries st s)) st))"
    unfolding server_step_def sh(3) by blast
qed

interpretation streams: streams_server fake_ops fake_view fake_inv fake_advance fake_stream_ops fake_key_ops "\<lambda>k. fst ` set k"
proof (unfold_locales, goal_cases)
  case (1 r n g c ss block rep r')
  then show ?case using fake_many[OF 1(1,2), of g c ss block rep r'] by fastforce
next
  case (2 r s f res r' g)
  have "fake_xadd s f (- 1) r = fake_xadd s f (int (length (fake_entries r s)) + 1) r" by (simp add: fake_xadd_def)
  with 2 fake.add_step[OF 2(1), of "int (length (fake_entries r s)) + 1" s f res r' g] show ?case by simp
next
  case (3 r s minid res r' g)
  have "dict_get (fr_streams r) s = Some es \<Longrightarrow> es = fake_entries r s" for es by (simp add: fake_entries_def)
  with 3 server_step_shrunk(1)[OF 3(1), where s = s] server_step_shrunk(2)[OF 3(1), where s = s and g = g] show ?case
    by (auto simp: fake_xtrim_minid_def Let_def split: option.splits)
next
  case (4 r s g i a r')
  then show ?case by (auto simp: fake_xack_def with_group_def fake_view_def)
next
  case (5 r s g c idle n b r')
  then show ?case by (auto simp: fake_xautoclaim_def with_group_def fake_view_def)
next
  case (6 now key k x k')
  then have "set k' \<subseteq> set k" and x: "x = Inr (map_option fst (dict_get k' key))"
    by (auto simp: fake_get_def Let_def dict_del_def split: option.splits if_splits)
  then have sub: "fst ` set k' \<subseteq> fst ` set k" by blast
  have "key \<in> fst ` set k" if "x = Inr (Some t)" for t
  proof -
    from that x obtain y where "dict_get k' key = Some y" by auto
    from imageI[OF map_of_SomeD[OF this], of fst] sub show ?thesis by auto
  qed
  with sub show ?case by blast
next
  case (7 now key t ttl k y k')
  have "fst ` set (dict_set key (t, now + ttl * 1000) k) = insert key (fst ` set k)" by (rule keys_dict_set)
  with 7 show ?case by (simp add: fake_set_def)
next
  case (8 now key t ttl k k' later)
  then show ?case by (auto simp: fake_set_def fake_get_def)
qed

end
