(* ===== verification/StreamsProps.thy ===== *)
theory StreamsProps
  imports StreamsRun StreamsBackend Samples
begin

text \<open>
  Properties of the streams transport: no entry of a group is lost, the marks of processed events, the
  group that is not joined again after it was lost, and the channels of the composite transport.
\<close>

subsection \<open>A sample\<close>

definition job_wire :: wire_codec where
  "job_wire = \<lparr>wc_encode = (\<lambda>e. Inr [(''id'', event_id e)]),
     wc_decode = (\<lambda>f. case f of [(_, i)] \<Rightarrow> Inr (sample_event i ''t'' NORMAL) | _ \<Rightarrow> Inl (TypeError ''''))\<rparr>"

definition job_backend :: "string list streams_backend" where
  "job_backend = \<lparr>sb_group = ''g'', sb_consumer = ''c'', sb_stream_prefix = ''p:'', sb_dedup_prefix = ''d:'', sb_dedup_ttl = 10,
     sb_block_ms = 1, sb_batch_count = 5, sb_min_idle_ms = 10, sb_maxlen = 100, sb_reconnect_base = 1, sb_reconnect_max = 4,
     sb_delivery = By_group, sb_wire = job_wire, sb_stream_key_fn = None, sb_explicit = None, sb_retention_ms = None,
     sb_max_deliveries = Some 2, sb_on_dlq = None\<rparr>"

text \<open>A callback that notes the event; another that raises.\<close>

definition job_callback :: "string list callback" where
  "job_callback e w = (True, w @ [event_id e])"

definition job_failing :: "string list callback" where
  "job_failing e w = (False, w @ [event_id e])"

definition job_state :: "(fake_redis, fake_keys, string list) backend_state" where
  "job_state = \<lparr>bt_redis = fake_new 0, bt_keys = [], bt_world = [], bt_streams = [], bt_groups_ready = [], bt_last_ids = []\<rparr>"

lemmas job_defs = job_wire_def job_backend_def job_callback_def job_failing_def job_state_def sample_defs

subsection \<open>No entry is lost\<close>


text \<open>An entry published, read, handled and acknowledged.\<close>

definition job_published :: "(fake_redis, fake_keys, string list) backend_state" where
  "job_published = snd (streams_publish fake_ops fake_stream_ops job_backend (sample_event ''a'' ''t'' NORMAL) job_state)"

definition job_read :: fake_redis where
  "job_read = snd (fake_xreadgroup_many ''g'' ''c'' [''p:t''] 5 1 (bt_redis job_published))"

definition job_done :: "(fake_redis, fake_keys, string list) backend_state" where
  "job_done = finish_message fake_ops fake_key_ops job_backend 0 ''p:t'' ''1-0'' (sample_event ''a'' ''t'' NORMAL)
     (job_state\<lparr>bt_redis := job_read, bt_world := [''a'']\<rparr>)"

lemma job_reads: "fst (fake_xreadgroup_many ''g'' ''c'' [''p:t''] 5 1 (bt_redis job_published)) = Inr [(''p:t'', [(''1-0'', [(''id'', ''a'')])])]"
  unfolding job_published_def job_defs by code_simp

lemma job_ends: "rv_log (fake_view (bt_redis job_done)) ''p:t'' = [(''1-0'', [(''id'', ''a'')])]"
  "map_option gv_pend (rv_grp (fake_view (bt_redis job_done)) (''p:t'', ''g'')) = Some []"
  "map_option gv_fresh (rv_grp (fake_view (bt_redis job_done)) (''p:t'', ''g'')) = Some []"
  unfolding job_done_def job_read_def job_published_def job_defs by code_simp+


subsection \<open>Marks\<close>

lemma handled_marks:
  assumes "begin_message fake_ops fake_key_ops B now s i f st = (Inr (Some e), st0)"
    and "handle_message fake_ops fake_key_ops B now cb s i f st = (Inr (), st1)"
  shows "wc_decode (sb_wire B) f = Inr e" "bt_redis st0 = bt_redis st" "bt_world st0 = bt_world st"
    "dict_get (bt_keys st0) (dedup_key B e) = None \<or> (\<exists>d. dict_get (bt_keys st0) (dedup_key B e) = Some ([], d))"
    "fst (cb e (bt_world st)) \<Longrightarrow> bt_keys st1 = dict_set (dedup_key B e) (''1'', now + sb_dedup_ttl B * 1000) (bt_keys st0)"
    "\<not> fst (cb e (bt_world st)) \<Longrightarrow> bt_redis st1 = bt_redis st \<and> bt_keys st1 = bt_keys st0"
proof -
  obtain y k where g: "fake_get now (dedup_key B e) (bt_keys st) = (y, k)" by force
  from assms(1) show d: "wc_decode (sb_wire B) f = Inr e" "bt_redis st0 = bt_redis st" "bt_world st0 = bt_world st"
    by (auto simp: begin_message_def decode_or_ack_def on_keys_def split: sum.splits option.splits list.splits prod.splits)
  from assms(1) d(1) g have b: "y = Inr None \<or> y = Inr (Some [])" "st0 = st\<lparr>bt_keys := k\<rparr>"
    by (auto simp: begin_message_def decode_or_ack_def on_keys_def split: sum.splits option.splits list.splits)
  from g have y: "y = Inr (map_option fst (dict_get k (dedup_key B e)))" by (auto simp: fake_get_def Let_def)
  with b show "dict_get (bt_keys st0) (dedup_key B e) = None \<or> (\<exists>d. dict_get (bt_keys st0) (dedup_key B e) = Some ([], d))"
    by auto
  obtain ok w where c: "cb e (bt_world st) = (ok, w)" by force
  from assms c d(3) show "bt_keys st1 = dict_set (dedup_key B e) (''1'', now + sb_dedup_ttl B * 1000) (bt_keys st0)"
    if "fst (cb e (bt_world st))"
    using that by (auto simp: handle_message_def call_back_def finish_message_def backend_ack_def on_keys_def fake_set_def)
  from assms c d(2,3) show "bt_redis st1 = bt_redis st \<and> bt_keys st1 = bt_keys st0" if "\<not> fst (cb e (bt_world st))"
    using that by (auto simp: handle_message_def call_back_def)
qed

text \<open>An event that was dispatched is marked exactly when its callback returned.  Then, as long as the mark
  lasts, every entry that carries the event, of whatever stream, is acknowledged without being
  dispatched.  When the callback raised, the entry stays pending and is dispatched again by the next
  delivery, whenever it comes.\<close>

theorem processed_event_not_dispatched_again:
  assumes "begin_message fake_ops fake_key_ops B now s i f st = (Inr (Some e), st0)"
    and "handle_message fake_ops fake_key_ops B now cb s i f st = (Inr (), st1)"
  shows "if fst (cb e (bt_world st))
    then wc_decode (sb_wire B) f' = Inr e' \<longrightarrow> event_id e' = event_id e \<longrightarrow> later < now + 1000 * sb_dedup_ttl B \<longrightarrow>
      handle_message fake_ops fake_key_ops B later cb' s' i' f' st1 = (Inr (), backend_ack fake_ops B s' i' st1)
    else bt_redis st1 = bt_redis st \<and>
      bt_world (snd (handle_message fake_ops fake_key_ops B later cb' s i f st1)) = snd (cb' e (bt_world st1))"
proof (cases "fst (cb e (bt_world st))")
  case True
  note k = handled_marks(5)[OF assms True]
  have "handle_message fake_ops fake_key_ops B later cb' s' i' f' st1 = (Inr (), backend_ack fake_ops B s' i' st1)"
    if "wc_decode (sb_wire B) f' = Inr e'" "event_id e' = event_id e" "later < now + 1000 * sb_dedup_ttl B"
  proof -
    from that(2) have "dedup_key B e' = dedup_key B e" by (simp add: dedup_key_def)
    moreover from that(3) k have "fake_get later (dedup_key B e) (bt_keys st1) = (Inr (Some ''1''), bt_keys st1)"
      by (simp add: fake_get_def)
    ultimately show ?thesis using that(1)
      by (simp add: handle_message_def begin_message_def decode_or_ack_def on_keys_def)
  qed
  with True show ?thesis by simp
next
  case False
  note h = handled_marks[OF assms]
  have k: "bt_keys st1 = bt_keys st0" and r: "bt_redis st1 = bt_redis st" using h(6)[OF False] by simp_all
  obtain y k2 where g: "fake_get later (dedup_key B e) (bt_keys st1) = (y, k2)" by force
  with h(4) k have "y = Inr None \<or> y = Inr (Some [])" by (auto simp: fake_get_def Let_def split: if_splits)
  with g h(1) have b: "begin_message fake_ops fake_key_ops B later s i f st1 = (Inr (Some e), st1\<lparr>bt_keys := k2\<rparr>)"
    by (auto simp: begin_message_def decode_or_ack_def on_keys_def)
  obtain ok w where "cb' e (bt_world st1) = (ok, w)" by force
  with b have "bt_world (snd (handle_message fake_ops fake_key_ops B later cb' s i f st1)) = snd (cb' e (bt_world st1))"
    by (cases ok) (simp_all add: handle_message_def call_back_def finish_message_def backend_ack_def on_keys_def split: prod.split)
  with False r show ?thesis by simp
qed

theorem processed_event_not_dispatched_again_witness:
  "let e = sample_event ''a'' ''t'' NORMAL;
       st = job_state\<lparr>bt_redis := job_read\<rparr>;
       st1 = snd (handle_message fake_ops fake_key_ops job_backend 0 job_callback ''p:t'' ''1-0'' [(''id'', ''a'')] st);
       st2 = snd (handle_message fake_ops fake_key_ops job_backend 0 job_failing ''p:t'' ''1-0'' [(''id'', ''a'')] st)
   in bt_world (snd (handle_message fake_ops fake_key_ops job_backend 9999 job_callback ''p:t'' ''2-0'' [(''id'', ''a'')] st1)) = [''a''] \<and>
      bt_world (snd (handle_message fake_ops fake_key_ops job_backend 9999 job_callback ''p:t'' ''1-0'' [(''id'', ''a'')] st2)) = [''a'', ''a'']"
proof -
  let ?e = "sample_event ''a'' ''t'' NORMAL" and ?f = "[(''id'', ''a'')]"
  define st where "st = job_state\<lparr>bt_redis := job_read\<rparr>"
  have b: "begin_message fake_ops fake_key_ops job_backend 0 ''p:t'' ''1-0'' ?f st = (Inr (Some ?e), st)"
    by (simp add: begin_message_def decode_or_ack_def on_keys_def fake_get_def st_def job_state_def job_backend_def job_wire_def)
  have w: "bt_world st = []" by (simp add: st_def job_state_def)
  define st1 where "st1 = finish_message fake_ops fake_key_ops job_backend 0 ''p:t'' ''1-0'' ?e (st\<lparr>bt_world := [''a'']\<rparr>)"
  have h1: "handle_message fake_ops fake_key_ops job_backend 0 job_callback ''p:t'' ''1-0'' ?f st = (Inr (), st1)"
    by (simp add: handle_message_def b call_back_def job_callback_def st1_def w)
  have w1: "bt_world st1 = [''a'']" by (simp add: st1_def finish_message_def backend_ack_def on_keys_def split: prod.split)
  define st2 where "st2 = st\<lparr>bt_world := [''a'']\<rparr>"
  have h2: "handle_message fake_ops fake_key_ops job_backend 0 job_failing ''p:t'' ''1-0'' ?f st = (Inr (), st2)"
    by (simp add: handle_message_def b call_back_def job_failing_def st2_def w)
  have w2: "bt_world st2 = [''a'']" by (simp add: st2_def)
  have "handle_message fake_ops fake_key_ops job_backend 9999 job_callback ''p:t'' ''2-0'' ?f st1 =
      (Inr (), backend_ack fake_ops job_backend ''p:t'' ''2-0'' st1)"
    using processed_event_not_dispatched_again[OF b h1, of ?f ?e 9999 job_callback "''p:t''" "''2-0''"]
    by (simp add: job_callback_def job_backend_def job_wire_def)
  moreover have "bt_world (snd (handle_message fake_ops fake_key_ops job_backend 9999 job_callback ''p:t'' ''1-0'' ?f st2)) = [''a'', ''a'']"
    using processed_event_not_dispatched_again[OF b h2, of ?f ?e 9999 job_callback] w2 by (simp add: job_failing_def job_callback_def)
  ultimately show ?thesis using h1 h2 w1 by (simp add: st_def[symmetric] Let_def backend_ack_def)
qed

subsection \<open>A lost group\<close>

lemma many_missing:
  assumes "t \<in> set ss" and "dict_get (fr_groups r) (t, g) = None"
  shows "\<exists>x r'. fake_xreadgroup_many g c ss n block r = (Inl x, r') \<and> fr_streams r' = fr_streams r \<and> dict_get (fr_groups r') (t, g) = None"
  using assms
proof (induction ss arbitrary: r)
  case (Cons s ss)
  obtain x r1 where x: "fake_xreadgroup s g c n (Some block) r = (x, r1)" by force
  then have keep: "fr_streams r1 = fr_streams r" "dict_get (fr_groups r1) (t, g) = None" "s = t \<Longrightarrow> isl x"
    using Cons.prems(2) by (auto simp: fake_xreadgroup_def with_group_def Let_def set_group_def split: option.splits if_splits)
  show ?case
  proof (cases x)
    case (Inr rep)
    with keep(3) Cons.prems(1) have "t \<in> set ss" by auto
    from Cons.IH[OF this keep(2)] x Inr keep(1) show ?thesis by (auto simp: apfst_def map_prod_def)
  qed (use x keep in simp)
qed simp

lemma join_known: "set names \<subseteq> set (bt_streams st) \<Longrightarrow> join_streams R B names st = (Inr (), st)"
  by (induction names) auto

lemma refresh_known:
  assumes "fst ` set (fr_streams (bt_redis st)) \<subseteq> set (bt_streams st)"
  shows "refresh_streams fake_ops fake_stream_ops B st = (Inr (), st)"
proof -
  have "set (filter P (map fst (fr_streams (bt_redis st)))) \<subseteq> set (bt_streams st)" for P using assms by auto
  from join_known[OF this] show ?thesis
    by (simp add: refresh_streams_def on_redis_def fake_scan_def Let_def)
qed

lemma lost_turn:
  assumes "t \<in> set (bt_streams st)" and "dict_get (fr_groups (bt_redis st)) (t, sb_group B) = None"
    and "fst ` set (fr_streams (bt_redis st)) \<subseteq> set (bt_streams st)"
  shows "\<exists>d r. consumer_turn fake_ops fake_stream_ops K B now due cb (delay, st) = (d, st\<lparr>bt_redis := r, bt_groups_ready := []\<rparr>) \<and>
    fr_streams r = fr_streams (bt_redis st) \<and> dict_get (fr_groups r) (t, sb_group B) = None"
proof -
  from assms(1) have "bt_streams st \<noteq> []" by auto
  moreover have "(if bt_streams st = [] \<or> due then refresh_streams fake_ops fake_stream_ops B st else (Inr (), st)) = (Inr (), st)"
    using refresh_known[OF assms(3)] by auto
  moreover obtain x r where "fake_xreadgroup_many (sb_group B) (sb_consumer B) (bt_streams st) (sb_batch_count B) (sb_block_ms B) (bt_redis st) =
      (Inl x, r)" "fr_streams r = fr_streams (bt_redis st)" "dict_get (fr_groups r) (t, sb_group B) = None"
    using many_missing[OF assms(1,2)] by blast
  ultimately show ?thesis
    by (intro exI[of _ "next_delay B (Inl x, False) delay"] exI[of _ r]) (simp add: consumer_turn_def consumer_pass_def on_redis_def)
qed



subsection \<open>Channels\<close>

lemma last_colon:
  assumes "CHR '':'' \<notin> set e1" "CHR '':'' \<notin> set e2" "g1 @ CHR '':'' # e1 = g2 @ CHR '':'' # e2"
  shows "g1 = g2 \<and> e1 = e2"
proof -
  have "takeWhile (\<lambda>c. c \<noteq> CHR '':'') (rev (g @ CHR '':'' # e)) = rev e" if "CHR '':'' \<notin> set e" for g e :: string
    using that by (simp, subst takeWhile_append2) auto
  from this[OF assms(1), of g1] this[OF assms(2), of g2] assms(3) have "rev e1 = rev e2" by simp
  with assms(3) show ?thesis by simp
qed

text \<open>The group channels of a composite deduplicate apart: the mark of an event processed by one channel is
  never the mark of the same or another event in a second channel, for event ids without a colon such as
  the generated ones.\<close>

theorem channels_dedup_apart:
  assumes "composite_new u cl cs codec kf ss ret via common = Inr P" and "c1 \<in> set cs" and "c2 \<in> set cs"
    and "ch_delivery c1 = By_group" and "ch_delivery c2 = By_group"
    and "CHR '':'' \<notin> set (event_id e1)" and "CHR '':'' \<notin> set (event_id e2)"
    and "dedup_key (build_backend P c1) e1 = dedup_key (build_backend P c2) e2"
  shows "c1 = c2 \<and> event_id e1 = event_id e2"
proof -
  have "ch_name c1 @ CHR '':'' # event_id e1 = ch_name c2 @ CHR '':'' # event_id e2"
    using assms(4,5,8) by (simp add: dedup_key_def build_backend_def group_dedup_prefix_def Let_def)
  from last_colon[OF assms(6,7) this] composite_new_ok(2)[OF assms(1)] assms(2,3) show ?thesis
    by (simp add: distinct_map inj_on_def)
qed

definition job_channel :: "string \<Rightarrow> delivery \<Rightarrow> string list channel" where
  "job_channel n d = \<lparr>ch_name = n, ch_delivery = d, ch_on_envelope = job_callback, ch_streams = None, ch_max_deliveries = None,
     ch_on_dlq = None, ch_codec = None\<rparr>"

definition job_composite :: "string list composite" where
  "job_composite = \<lparr>cp_channels = [job_channel ''a'' By_group, job_channel ''b'' By_group, job_channel ''ws'' By_broadcast], cp_codec = None,
     cp_stream_key_fn = None, cp_streams = None, cp_retention_ms = None, cp_publish_via = ''a'', cp_common = job_backend\<rparr>"

lemma job_composite_new:
  "composite_new True False (cp_channels job_composite) None None None None None job_backend = Inr job_composite"
  by (simp add: composite_new_def job_composite_def broadcast_names_def job_channel_def or_default_def Let_def)

theorem channels_dedup_apart_witness:
  "dedup_key (build_backend job_composite (job_channel ''a'' By_group)) (sample_event ''x'' ''t'' NORMAL) \<noteq>
   dedup_key (build_backend job_composite (job_channel ''b'' By_group)) (sample_event ''x'' ''t'' NORMAL)"
proof
  assume "dedup_key (build_backend job_composite (job_channel ''a'' By_group)) (sample_event ''x'' ''t'' NORMAL) =
   dedup_key (build_backend job_composite (job_channel ''b'' By_group)) (sample_event ''x'' ''t'' NORMAL)"
  from channels_dedup_apart[OF job_composite_new _ _ _ _ _ _ this] show False
    by (simp add: job_composite_def job_channel_def)
qed

text \<open>Exactly one channel of a composite feeds the bus: the broadcast channel when there is one, the publishing
  channel otherwise.  Every other channel calls its own callback alone; the feeder calls the bus and then,
  unless the bus raised, its own callback too.\<close>

theorem composite_feeds_bus_once:
  assumes "composite_new u cl cs codec kf ss ret via common = Inr P" and "[] \<notin> ch_name ` set cs"
  shows "\<exists>c \<in> set cs. (if \<exists>b \<in> set cs. ch_delivery b = By_broadcast then ch_delivery c = By_broadcast else ch_name c = cp_publish_via P) \<and>
    (\<forall>d \<in> set cs. channel_callback P transport d = (if d = c then chain_feeder_callback transport d else ch_on_envelope d))"
proof -
  note ok = composite_new_ok[OF assms(1)]
  obtain c where c: "c \<in> set cs" "ch_name c = feeder_name P" using feeder_is_channel[OF assms(1)] by auto
  have uniq: "d = c" if "d \<in> set cs" "ch_name d = feeder_name P" for d
    using that c ok(2) by (simp add: distinct_map inj_on_def)
  have which: "if \<exists>b \<in> set cs. ch_delivery b = By_broadcast then ch_delivery c = By_broadcast else ch_name c = cp_publish_via P"
  proof (cases "broadcast_names cs")
    case Nil
    then show ?thesis using c(2) ok(1) by (auto simp: broadcast_names_def feeder_name_def filter_empty_conv)
  next
    case (Cons n ns)
    then have "n \<in> ch_name ` {b \<in> set cs. ch_delivery b = By_broadcast}"
      by (metis broadcast_names_def list.set_intros(1) list.set_map set_filter)
    then obtain b where b: "b \<in> set cs" "ch_delivery b = By_broadcast" "ch_name b = n" by auto
    with assms(2) have "n \<noteq> []" by force
    with Cons ok(1) have "feeder_name P = n" by (simp add: feeder_name_def or_default_def split: list.split)
    with b c ok(2) have "b = c" by (simp add: distinct_map inj_on_def)
    with b show ?thesis by auto
  qed
  have "channel_callback P transport d = (if d = c then chain_feeder_callback transport d else ch_on_envelope d)" if "d \<in> set cs" for d
  proof (cases "d = c")
    case True
    with c(2) show ?thesis by (simp add: channel_callback_def)
  next
    case False
    with uniq[OF that] have "ch_name d \<noteq> feeder_name P" by blast
    with False show ?thesis by (simp add: channel_callback_def)
  qed
  with c(1) which show ?thesis by blast
qed

theorem composite_feeds_bus_once_witness:
  "\<exists>c \<in> set (cp_channels job_composite). ch_delivery c = By_broadcast \<and>
     channel_callback job_composite job_failing c = chain_feeder_callback job_failing c"
proof -
  have "\<exists>b \<in> set (cp_channels job_composite). ch_delivery b = By_broadcast" by (simp add: job_composite_def job_channel_def)
  then show ?thesis using composite_feeds_bus_once[OF job_composite_new, of job_failing]
    by (auto simp: job_composite_def job_channel_def)
qed

end
