(* ===== verification/Lifecycle.thy ===== *)
theory Lifecycle
  imports Envelope Json
begin

text \<open>
  Lifecycle events and their trace contexts: lifecycle/trace.py, lifecycle/base.py and lifecycle/meta.py.
  The random ids are arguments.
\<close>

subsection \<open>Trace contexts\<close>

record lc_trace =
  tc_trace_id :: string
  tc_span_id :: string
  tc_flags :: int
  tc_state :: string
  tc_parent :: "string option"

definition new_root :: "string \<Rightarrow> string \<Rightarrow> lc_trace" where
  "new_root trace_id span_id =
     \<lparr>tc_trace_id = trace_id, tc_span_id = span_id, tc_flags = 1, tc_state = [], tc_parent = None\<rparr>"

definition child_of :: "string \<Rightarrow> lc_trace \<Rightarrow> lc_trace" where
  "child_of span_id c = c\<lparr>tc_span_id := span_id, tc_parent := Some (tc_span_id c)\<rparr>"

definition lower_hex :: "string \<Rightarrow> bool" where
  "lower_hex s \<longleftrightarrow> (\<forall>c \<in> set s. c \<in> set ''0123456789abcdef'')"

definition hex_field :: "nat \<Rightarrow> string \<Rightarrow> bool" where
  "hex_field n s \<longleftrightarrow> length s = n \<and> lower_hex s"

definition from_traceparent_header :: "string \<Rightarrow> lc_trace result" where
  "from_traceparent_header h =
     (if h = [] then Inl (ValueError ''Invalid traceparent header: empty string'')
      else case py_split (CHR ''-'') h of
             [version, trace_id, span_id, flags] \<Rightarrow>
               (if version \<noteq> ''00'' then Inl (ValueError ''unsupported version'')
                else if \<not> hex_field 32 trace_id then Inl (ValueError ''trace_id must be 32 lowercase hex chars'')
                else if \<not> hex_field 16 span_id then Inl (ValueError ''span_id must be 16 lowercase hex chars'')
                else if \<not> hex_field 2 flags then Inl (ValueError ''trace-flags must be 2 lowercase hex chars'')
                else (case py_int 16 flags of
                        None \<Rightarrow> Inl (ValueError ''invalid literal for int() with base 16'')
                      | Some n \<Rightarrow> Inr \<lparr>tc_trace_id = trace_id, tc_span_id = span_id, tc_flags = n, tc_state = [], tc_parent = None\<rparr>))
           | _ \<Rightarrow> Inl (ValueError ''expected 4 dash-separated fields''))"

text \<open>\<open>{n:02x}\<close>.\<close>

definition format_02x :: "int \<Rightarrow> string" where
  "format_02x n =
     (if n < 0 then CHR ''-'' # nat_digits 16 (nat (- n))
      else if n < 16 then CHR ''0'' # nat_digits 16 (nat n)
      else nat_digits 16 (nat n))"

definition to_traceparent_header :: "lc_trace \<Rightarrow> string" where
  "to_traceparent_header c = ''00-'' @ tc_trace_id c @ ''-'' @ tc_span_id c @ ''-'' @ format_02x (tc_flags c)"

definition trace_dict :: "lc_trace \<Rightarrow> pydict" where
  "trace_dict c =
     [(''trace_id'', PStr (tc_trace_id c)), (''span_id'', PStr (tc_span_id c)), (''trace_flags'', PInt (tc_flags c)),
      (''trace_state'', PStr (tc_state c)), (''parent_span_id'', opt_str (tc_parent c))]"

fun as_flags :: "pyval \<Rightarrow> int result" where
  "as_flags (PInt n) = Inr n"
| "as_flags v = Inl (TypeError ''trace_flags'')"

definition trace_from_dict :: "pydict \<Rightarrow> lc_trace result" where
  "trace_from_dict d =
     bind_r (bind_r (item d ''trace_id'') (as_str ''trace_id'')) (\<lambda>t.
     bind_r (bind_r (item d ''span_id'') (as_str ''span_id'')) (\<lambda>s.
     bind_r (as_flags (get_or d ''trace_flags'' (PInt 1))) (\<lambda>n.
     bind_r (as_str ''trace_state'' (get_or d ''trace_state'' (PStr []))) (\<lambda>st.
     bind_r (as_opt_str ''parent_span_id'' (get_or d ''parent_span_id'' PNone)) (\<lambda>p.
     Inr \<lparr>tc_trace_id = t, tc_span_id = s, tc_flags = n, tc_state = st, tc_parent = p\<rparr>)))))"

subsection \<open>Events\<close>

text \<open>The concrete class of an event is its name; the fields a subclass adds are a dictionary.\<close>

record lc_event =
  le_class :: string
  le_trace :: lc_trace
  le_event_id :: string
  le_timestamp :: py_datetime
  le_source_type :: string
  le_source_name :: string
  le_fields :: pydict

fun plain_field :: "pyval \<Rightarrow> pyval" where
  "plain_field (PDate d) = PStr (isoformat d)"
| "plain_field v = v"

definition le_items :: "lc_event \<Rightarrow> pydict" where
  "le_items e =
     dict_set ''event_class'' (PStr (le_class e))
       ([(''trace_context'', PDict (trace_dict (le_trace e))), (''event_id'', PStr (le_event_id e)),
         (''timestamp'', PStr (isoformat (le_timestamp e))), (''source_type'', PStr (le_source_type e)),
         (''source_name'', PStr (le_source_name e))] @ map (apsnd plain_field) (le_fields e))"

text \<open>\<open>str.splitlines\<close>: a carriage return and a line feed together end one line; no line follows the last end.\<close>

definition is_line_end :: "char \<Rightarrow> bool" where
  "is_line_end c \<longleftrightarrow> (of_char c :: nat) \<in> {10, 11, 12, 13, 28, 29, 30, 133}"

fun split_lines :: "string \<Rightarrow> string \<Rightarrow> string list" where
  "split_lines acc [] = (if acc = [] then [] else [acc])"
| "split_lines acc (c # cs) =
     (if is_line_end c
      then acc # (if c = CHR 0x0D \<and> cs \<noteq> [] \<and> hd cs = CHR 0x0A then split_lines [] (tl cs) else split_lines [] cs)
      else split_lines (acc @ [c]) cs)"

definition last_lines :: "nat \<Rightarrow> string \<Rightarrow> string" where
  "last_lines n s =
     (let ls = split_lines [] s
      in if length ls > n then py_join [CHR 0x0A] (drop (length ls - n) ls) else s)"

text \<open>\<open>to_dict\<close>: the items, provided that JSON takes them; an error event keeps only the end of its traceback.\<close>

definition le_to_dict :: "json_codec \<Rightarrow> lc_event \<Rightarrow> pydict result" where
  "le_to_dict J e =
     (case dumps J (PDict (le_items e)) of
        Inl x \<Rightarrow> Inl x
      | Inr _ \<Rightarrow>
          Inr (if le_class e = ''SubscriberErrorEvent''
               then (case dict_get (le_items e) ''traceback'' of
                       Some (PStr (c # cs)) \<Rightarrow> dict_set ''traceback'' (PStr (last_lines 20 (c # cs))) (le_items e)
                     | _ \<Rightarrow> le_items e)
               else le_items e))"

text \<open>The meta event of a subscriber that raised: its type, message and traceback.\<close>

type_synonym exc_info = "string \<times> string \<times> string"

definition subscriber_error_event :: "string \<Rightarrow> py_datetime \<Rightarrow> lc_event \<Rightarrow> string \<Rightarrow> exc_info \<Rightarrow> lc_event" where
  "subscriber_error_event u now e callback x =
     \<lparr>le_class = ''SubscriberErrorEvent'', le_trace = le_trace e, le_event_id = u, le_timestamp = now, le_source_type = [],
      le_source_name = [],
      le_fields = [(''failed_subscriber'', PStr callback), (''original_event_class'', PStr (le_class e)),
        (''error_type'', PStr (fst x)), (''error_message'', PStr (fst (snd x))), (''traceback'', PStr (snd (snd x)))]\<rparr>"

end
