(* ===== verification/Registry.thy ===== *)
theory Registry
  imports Lifecycle
begin

text \<open>
  The registry of lifecycle subscribers of lifecycle/registry.py and the global registry behind it.  A
  callback acts on the world behind it and returns or raises.  What the code schedules as a task is a
  value of the queue that runs later; the class hierarchy, as far as \<open>issubclass\<close> tells it, is an
  argument.  There is a running event loop throughout.
\<close>

subsection \<open>State\<close>

type_synonym hierarchy = "string \<Rightarrow> string \<Rightarrow> bool"

type_synonym 'w lc_callback = "lc_event \<Rightarrow> 'w \<Rightarrow> exc_info option \<times> 'w"

type_synonym bus_serializer = "lc_event \<Rightarrow> pydict option result"

record 'w lc_subscription =
  ls_id :: string
  ls_type :: string
  ls_name :: string
  ls_callback :: "'w lc_callback"
  ls_where :: "(lc_event \<Rightarrow> bool result) option"
  ls_forward :: bool
  ls_order :: nat
  ls_serializer :: "bus_serializer option"

record 'w lifecycle_registry =
  rg_subs :: "'w lc_subscription list"
  rg_bus :: bool
  rg_prefix :: string
  rg_to_global :: bool
  rg_serializer :: "bus_serializer option"
  rg_counter :: nat

definition registry_new :: "bool \<Rightarrow> string \<Rightarrow> bool \<Rightarrow> bus_serializer option \<Rightarrow> 'w lifecycle_registry" where
  "registry_new has_bus channel_prefix forward_to_global ser =
     \<lparr>rg_subs = [], rg_bus = has_bus, rg_prefix = channel_prefix, rg_to_global = forward_to_global, rg_serializer = ser,
      rg_counter = 0\<rparr>"

text \<open>The global registry, built on its first use.\<close>

definition get_global_registry :: "'w lifecycle_registry option \<Rightarrow> 'w lifecycle_registry" where
  "get_global_registry g = (case g of Some r \<Rightarrow> r | None \<Rightarrow> registry_new False ''lifecycle'' False None)"

subsection \<open>Subscriptions\<close>

record 'w subscribe_call =
  sc_type :: string
  sc_name :: string
  sc_callback :: "'w lc_callback"
  sc_where :: "(lc_event \<Rightarrow> bool result) option"
  sc_forward :: bool
  sc_serializer :: "bus_serializer option"

definition lc_subscribe :: "string \<Rightarrow> 'w subscribe_call \<Rightarrow> 'w lifecycle_registry \<Rightarrow> string \<times> 'w lifecycle_registry" where
  "lc_subscribe u c r =
     (u, r\<lparr>rg_subs := rg_subs r @ [\<lparr>ls_id = u, ls_type = sc_type c, ls_name = sc_name c, ls_callback = sc_callback c,
            ls_where = sc_where c, ls_forward = sc_forward c, ls_order = rg_counter r, ls_serializer = sc_serializer c\<rparr>],
          rg_counter := Suc (rg_counter r)\<rparr>)"

definition lc_unsubscribe :: "string \<Rightarrow> 'w lifecycle_registry \<Rightarrow> bool \<times> 'w lifecycle_registry" where
  "lc_unsubscribe u r =
     (let subs = filter (\<lambda>s. ls_id s \<noteq> u) (rg_subs r)
      in (length subs < length (rg_subs r), r\<lparr>rg_subs := subs\<rparr>))"

definition attach_bus :: "string option \<Rightarrow> bus_serializer option \<Rightarrow> 'w lifecycle_registry \<Rightarrow> 'w lifecycle_registry" where
  "attach_bus channel_prefix ser r =
     r\<lparr>rg_bus := True, rg_prefix := (case channel_prefix of Some p \<Rightarrow> p | None \<Rightarrow> rg_prefix r),
       rg_serializer := (case ser of Some s \<Rightarrow> Some s | None \<Rightarrow> rg_serializer r)\<rparr>"

definition detach_bus :: "'w lifecycle_registry \<Rightarrow> 'w lifecycle_registry" where
  "detach_bus r = r\<lparr>rg_bus := False\<rparr>"

definition has_subscribers :: "hierarchy \<Rightarrow> string \<Rightarrow> 'w lifecycle_registry \<Rightarrow> bool" where
  "has_subscribers sub t r \<longleftrightarrow> (\<exists>s \<in> set (rg_subs r). sub t (ls_type s) \<or> sub (ls_type s) t)"

text \<open>A provider subscribes what it likes; the ids that are new after it ran are returned.\<close>

definition add_provider :: "('w lifecycle_registry \<Rightarrow> 'w lifecycle_registry) option \<Rightarrow> 'w lifecycle_registry \<Rightarrow> string list result \<times> 'w lifecycle_registry" where
  "add_provider provider r =
     (case provider of
        None \<Rightarrow> (Inl (TypeError ''not an EventProvider (missing register(registry) method)''), r)
      | Some reg \<Rightarrow>
          (let before_ids = map ls_id (rg_subs r); r1 = reg r
           in (Inr (filter (\<lambda>u. u \<notin> set before_ids) (map ls_id (rg_subs r1))), r1)))"

subsection \<open>Dispatch\<close>

text \<open>
  The tasks an emission schedules.  The flag of a task is the recursion guard it inherits: whether it was
  scheduled while a meta event was being emitted.
\<close>

datatype lc_task = Bus_emit string pydict | Meta_emit bool lc_event | Forward_emit bool lc_event

definition bus_payload :: "json_codec \<Rightarrow> 'w lifecycle_registry \<Rightarrow> 'w lc_subscription \<Rightarrow> lc_event \<Rightarrow> pydict option result" where
  "bus_payload J r s e =
     (case (case ls_serializer s of Some f \<Rightarrow> Some f | None \<Rightarrow> rg_serializer r) of
        None \<Rightarrow> map_sum id Some (le_to_dict J e)
      | Some f \<Rightarrow> (case f e of Inl _ \<Rightarrow> Inr None | Inr p \<Rightarrow> Inr p))"

text \<open>The matching subscriptions; a predicate that raises ends the emission.\<close>

fun matching_subs :: "hierarchy \<Rightarrow> lc_event \<Rightarrow> 'w lc_subscription list \<Rightarrow> 'w lc_subscription list result" where
  "matching_subs sub e [] = Inr []"
| "matching_subs sub e (s # ss) =
     (if sub (le_class e) (ls_type s)
      then (case ls_where s of
              None \<Rightarrow> map_sum id (Cons s) (matching_subs sub e ss)
            | Some p \<Rightarrow>
                (case p e of
                   Inl x \<Rightarrow> Inl x
                 | Inr b \<Rightarrow> if b then map_sum id (Cons s) (matching_subs sub e ss) else matching_subs sub e ss))
      else matching_subs sub e ss)"

definition reverse_order :: "string \<Rightarrow> bool" where
  "reverse_order cls \<longleftrightarrow> py_startswith cls ''After'' \<or> sublist ''Failed'' cls"

definition error_tasks :: "bool \<Rightarrow> string \<times> py_datetime \<Rightarrow> lc_event \<Rightarrow> 'w lc_subscription \<Rightarrow> exc_info option \<Rightarrow> lc_task list" where
  "error_tasks guard g e s x =
     (case x of None \<Rightarrow> [] | Some i \<Rightarrow> [Meta_emit guard (subscriber_error_event (fst g) (snd g) e (ls_name s) i)])"

definition forwards :: "'w lifecycle_registry \<Rightarrow> 'w lc_subscription \<Rightarrow> bool" where
  "forwards r s \<longleftrightarrow> ls_forward s \<and> rg_bus r"

definition bus_tasks :: "'w lifecycle_registry \<Rightarrow> lc_event \<Rightarrow> pydict option \<Rightarrow> lc_task list" where
  "bus_tasks r e p = (case p of None \<Rightarrow> [] | Some d \<Rightarrow> [Bus_emit (rg_prefix r @ ''.'' @ le_class e) d])"

text \<open>
  The loop over the matching subscribers; \<open>gen\<close> gives the id and the time of an error event.  A payload
  that cannot be built raises out of the loop, with the tasks scheduled so far.
\<close>

fun dispatch_subs ::
    "json_codec \<Rightarrow> 'w lifecycle_registry \<Rightarrow> bool \<Rightarrow> ('w lc_subscription \<Rightarrow> string \<times> py_datetime) \<Rightarrow> lc_event \<Rightarrow> 'w lc_subscription list \<Rightarrow> 'w \<Rightarrow>
     unit result \<times> 'w \<times> lc_task list" where
  "dispatch_subs J r guard gen e [] w = (Inr (), w, [])"
| "dispatch_subs J r guard gen e (s # ss) w =
     (case ls_callback s e w of
        (x, w1) \<Rightarrow>
          (let errs = error_tasks guard (gen s) e s x
           in case (if forwards r s then bus_payload J r s e else Inr None) of
                Inl y \<Rightarrow> (Inl y, w1, errs)
              | Inr p \<Rightarrow>
                  (case dispatch_subs J r guard gen e ss w1 of
                     (res, w2, ts) \<Rightarrow> (res, w2, errs @ bus_tasks r e p @ ts))))"

text \<open>Forwarding to the global registry, when somebody listens there; the global registry itself does not.\<close>

definition forward_tasks :: "hierarchy \<Rightarrow> bool \<Rightarrow> bool \<Rightarrow> 'w lifecycle_registry \<Rightarrow> lc_event \<Rightarrow> lc_task list" where
  "forward_tasks sub is_global guard glob e =
     (if is_global \<or> \<not> has_subscribers sub (le_class e) glob then [] else [Forward_emit guard e])"

definition lc_emit ::
    "hierarchy \<Rightarrow> json_codec \<Rightarrow> bool \<Rightarrow> 'w lifecycle_registry \<Rightarrow> bool \<Rightarrow> ('w lc_subscription \<Rightarrow> string \<times> py_datetime) \<Rightarrow> 'w lifecycle_registry \<Rightarrow> lc_event \<Rightarrow>
     'w \<Rightarrow> unit result \<times> 'w \<times> lc_task list" where
  "lc_emit sub J is_global glob guard gen r e w =
     (let fwd = (if rg_to_global r then forward_tasks sub is_global guard glob e else [])
      in case matching_subs sub e (rg_subs r) of
           Inl x \<Rightarrow> (Inl x, w, [])
         | Inr [] \<Rightarrow> (Inr (), w, fwd)
         | Inr (s # ss) \<Rightarrow>
             (case dispatch_subs J r guard gen e (if reverse_order (le_class e) then rev (s # ss) else s # ss) w of
                (Inl x, w1, ts) \<Rightarrow> (Inl x, w1, ts)
              | (Inr _, w1, ts) \<Rightarrow> (Inr (), w1, ts @ fwd)))"

definition emit_meta ::
    "hierarchy \<Rightarrow> json_codec \<Rightarrow> bool \<Rightarrow> ('w lc_subscription \<Rightarrow> string \<times> py_datetime) \<Rightarrow> 'w lifecycle_registry \<Rightarrow> lc_event \<Rightarrow> 'w \<Rightarrow>
     unit result \<times> 'w \<times> lc_task list" where
  "emit_meta sub J guard gen glob e w =
     (if guard then (Inr (), w, []) else lc_emit sub J True glob True gen glob e w)"

subsection \<open>The tasks run\<close>

text \<open>
  One task, on the global registry; what it raises is only logged.  The payloads handed to the bus are
  collected.
\<close>

definition run_lc_task ::
    "hierarchy \<Rightarrow> json_codec \<Rightarrow> ('w lc_subscription \<Rightarrow> string \<times> py_datetime) \<Rightarrow> 'w lifecycle_registry \<Rightarrow> lc_task \<Rightarrow> 'w \<Rightarrow>
     (string \<times> pydict) list \<times> 'w \<times> lc_task list" where
  "run_lc_task sub J gen glob t w =
     (case t of
        Bus_emit ch d \<Rightarrow> ([(ch, d)], w, [])
      | Meta_emit guard e \<Rightarrow> ([], snd (emit_meta sub J guard gen glob e w))
      | Forward_emit guard e \<Rightarrow> ([], snd (lc_emit sub J True glob guard gen glob e w)))"

text \<open>The work a task can still cause: a meta event schedules no meta event that is not dropped.\<close>

fun lc_weight :: "nat \<Rightarrow> lc_task \<Rightarrow> nat" where
  "lc_weight n (Bus_emit ch d) = 1"
| "lc_weight n (Meta_emit guard e) = (if guard then 1 else 1 + 2 * n)"
| "lc_weight n (Forward_emit guard e) = 1 + n * (2 + 2 * n)"

definition lc_weights :: "nat \<Rightarrow> lc_task list \<Rightarrow> nat" where
  "lc_weights n ts = sum_list (map (lc_weight n) ts)"

lemma lc_weights_simps [simp]: "lc_weights n [] = 0" "lc_weights n (t # ts) = lc_weight n t + lc_weights n ts"
  "lc_weights n (xs @ ys) = lc_weights n xs + lc_weights n ys"
  by (simp_all add: lc_weights_def)

definition receives :: "hierarchy \<Rightarrow> lc_event \<Rightarrow> 'w lc_subscription \<Rightarrow> bool" where
  "receives sub e s \<longleftrightarrow> sub (le_class e) (ls_type s) \<and> (case ls_where s of None \<Rightarrow> True | Some p \<Rightarrow> p e = Inr True)"

lemma matching_subs_filter: "matching_subs sub e ss = Inr ms \<Longrightarrow> ms = filter (receives sub e) ss"
proof (induction ss arbitrary: ms)
  case (Cons s ss)
  then show ?case
    by (cases "matching_subs sub e ss") (auto simp: receives_def[of sub e s] split: if_splits option.splits sum.splits)
qed simp

lemma matching_subs_length: "matching_subs sub e ss = Inr ms \<Longrightarrow> length ms \<le> length ss"
  by (auto dest: matching_subs_filter)

lemma dispatch_subs_weight:
  "dispatch_subs J r guard gen e ss w = (res, w1, ts) \<Longrightarrow>
     lc_weights n ts \<le> length ss * (if guard then 2 else 2 + 2 * n)"
proof (induction ss arbitrary: w res w1 ts)
  case (Cons s ss)
  obtain x w2 where x: "ls_callback s e w = (x, w2)" by force
  have errs: "lc_weights n (error_tasks guard (gen s) e s x) \<le> (if guard then 1 else 1 + 2 * n)"
    by (simp add: error_tasks_def split: option.split)
  have bus: "lc_weights n (bus_tasks r e p) \<le> 1" for p by (simp add: bus_tasks_def split: option.split)
  show ?case
  proof (cases "if forwards r s then bus_payload J r s e else Inr None")
    case (Inl y)
    then show ?thesis using Cons.prems x errs by (auto simp: Let_def split: if_splits)
  next
    case (Inr p)
    obtain res2 w3 us where d: "dispatch_subs J r guard gen e ss w2 = (res2, w3, us)" by (metis prod_cases3)
    with Cons.prems x Inr have "ts = error_tasks guard (gen s) e s x @ bus_tasks r e p @ us" by (simp add: Let_def)
    then show ?thesis using Cons.IH[OF d] errs bus[of p] by (simp split: if_splits)
  qed
qed simp

lemma global_emit_weight:
  assumes "lc_emit sub J True glob guard gen glob e w = (res, w1, ts)"
  shows "lc_weights n ts \<le> length (rg_subs glob) * (if guard then 2 else 2 + 2 * n)"
proof (cases "matching_subs sub e (rg_subs glob)")
  case (Inr ms)
  show ?thesis
  proof (cases ms)
    case (Cons m ms')
    define qs where "qs = (if reverse_order (le_class e) then rev ms else ms)"
    obtain res2 w2 us where d: "dispatch_subs J glob guard gen e qs w = (res2, w2, us)" by (metis prod_cases3)
    from assms Inr Cons d have "ts = us"
      by (auto simp: lc_emit_def Let_def qs_def forward_tasks_def split: sum.splits if_splits)
    moreover have "length qs \<le> length (rg_subs glob)" using matching_subs_length[OF Inr] by (simp add: qs_def)
    ultimately show ?thesis using dispatch_subs_weight[OF d, of n] by (meson le_trans mult_le_mono1)
  qed (use assms Inr in \<open>auto simp: lc_emit_def forward_tasks_def\<close>)
qed (use assms in \<open>simp add: lc_emit_def\<close>)

lemma run_lc_task_weight:
  assumes "run_lc_task sub J gen glob t w = (out, w1, ts)"
  shows "lc_weights (length (rg_subs glob)) ts < lc_weight (length (rg_subs glob)) t"
proof (cases t)
  case (Meta_emit guard e)
  then show ?thesis
    using assms global_emit_weight[of sub J glob True gen e w _ w1 ts "length (rg_subs glob)"]
    by (cases "lc_emit sub J True glob True gen glob e w") (auto simp: run_lc_task_def emit_meta_def split: if_splits)
next
  case (Forward_emit guard e)
  let ?n = "length (rg_subs glob)"
  obtain res where "lc_emit sub J True glob guard gen glob e w = (res, w1, ts)"
    using assms Forward_emit by (cases "lc_emit sub J True glob guard gen glob e w") (simp add: run_lc_task_def)
  from global_emit_weight[OF this, of ?n] have "lc_weights ?n ts \<le> ?n * (2 + 2 * ?n)"
    by (cases guard) (auto intro: order_trans)
  then show ?thesis using Forward_emit by simp
qed (use assms in \<open>simp add: run_lc_task_def\<close>)

text \<open>All tasks, in the order they were scheduled.\<close>

function run_lc_tasks ::
    "hierarchy \<Rightarrow> json_codec \<Rightarrow> ('w lc_subscription \<Rightarrow> string \<times> py_datetime) \<Rightarrow> 'w lifecycle_registry \<Rightarrow> lc_task list \<Rightarrow> 'w \<Rightarrow>
     (string \<times> pydict) list \<times> 'w" where
  "run_lc_tasks sub J gen glob [] w = ([], w)"
| "run_lc_tasks sub J gen glob (t # ts) w =
     (case run_lc_task sub J gen glob t w of
        (out, w1, new) \<Rightarrow> (case run_lc_tasks sub J gen glob (ts @ new) w1 of (outs, w2) \<Rightarrow> (out @ outs, w2)))"
  by pat_completeness auto
termination
  by (relation "measure (\<lambda>(sub, J, gen, glob, ts, w). lc_weights (length (rg_subs glob)) ts)")
    (auto dest: run_lc_task_weight[OF sym])

end
