(* ===== verification/LifecycleProps.thy ===== *)
theory LifecycleProps
  imports Registry Samples
begin

text \<open>
  Properties of lifecycle events: the traceparent header is parsed exactly, an emission reaches its
  subscribers whatever they raise, what can still raise out of it, error events do not cascade, and an
  event keeps its identity on its way to the bus.
\<close>

subsection \<open>The traceparent header\<close>

lemma hex_digit_list: "map digit_char [0..<16] = ''0123456789abcdef''"
  by code_simp

lemma hex_digits: "set ''0123456789abcdef'' = digit_char ` {..<16}"
  unfolding hex_digit_list[symmetric] set_map by (simp add: atLeast0LessThan)

lemma lower_hex_plain: "lower_hex s \<longleftrightarrow> set s \<subseteq> digit_char ` {..<16}"
  unfolding lower_hex_def hex_digits by auto

lemma format_flags: "n < 256 \<Longrightarrow> format_02x (int n) = fixed_digits 16 2 n"
proof (cases "n < 16")
  case True
  moreover have "digit_char 0 = CHR ''0''" by code_simp
  ultimately show ?thesis by (simp add: format_02x_def nat_digits.simps[of 16 n] numeral_2_eq_2)
next
  case False
  assume "n < 256"
  then have "n div 16 < 16" by simp
  with False show ?thesis
    by (simp add: format_02x_def nat_digits.simps[of 16 n] nat_digits.simps[of 16 "n div 16"] numeral_2_eq_2)
qed

lemma flag_bytes:
  assumes "n < 256"
  shows "py_int 16 (format_02x (int n)) = Some (int n)" "hex_field 2 (format_02x (int n))"
proof -
  have p: "plain_digits 16 (fixed_digits 16 2 n)" by simp
  show "py_int 16 (format_02x (int n)) = Some (int n)"
    using digits_val_fixed_id[of 16 n 2] assms by (simp add: format_flags[OF assms] py_int_plain[OF p])
  show "hex_field 2 (format_02x (int n))"
    using p by (simp add: format_flags[OF assms] hex_field_def lower_hex_plain plain_digits_def)
qed

lemma flag_field:
  assumes "hex_field 2 f"
  shows "\<exists>n < 256. f = format_02x (int n)"
proof -
  from assms obtain a b where f: "f = [a, b]" by (auto simp: hex_field_def length_Suc_conv numeral_2_eq_2)
  with assms obtain x y where "x < 16" "y < 16" "a = digit_char x" "b = digit_char y"
    by (auto simp: hex_field_def lower_hex_plain)
  then have "x * 16 + y < 256" "f = fixed_digits 16 2 (x * 16 + y)" by (simp_all add: f numeral_2_eq_2)
  then show ?thesis using format_flags by metis
qed

lemma hex_dash_free: "CHR ''-'' \<notin> set ''0123456789abcdef''"
  by simp

lemma hex_no_dash: "hex_field n s \<Longrightarrow> CHR ''-'' \<notin> set s"
  unfolding hex_field_def lower_hex_def by (metis (full_types) hex_dash_free)

lemma split_joined: "py_split c s = ps \<Longrightarrow> s = py_join [c] ps"
proof (induction s arbitrary: ps)
  case (Cons d s)
  obtain q qs where q: "py_split c s = q # qs" by (cases "py_split c s") auto
  have "s = py_join [c] (q # qs)" by (rule Cons.IH[OF q])
  with Cons.prems q show ?case by (cases qs) auto
qed auto

text \<open>The traceparent header is parsed exactly: the headers accepted are those written from a context with a
  32 digit trace id, a 16 digit span id and flags of one byte, and each is read back as that context,
  less the state and the parent, which the header does not carry.\<close>

theorem traceparent_exact:
  "from_traceparent_header h = Inr c \<longleftrightarrow>
     h = to_traceparent_header c \<and> hex_field 32 (tc_trace_id c) \<and> hex_field 16 (tc_span_id c) \<and> 0 \<le> tc_flags c \<and> tc_flags c < 256 \<and>
     tc_state c = [] \<and> tc_parent c = None"
proof
  assume p: "from_traceparent_header h = Inr c"
  then obtain v t s f where sp: "py_split (CHR ''-'') h = [v, t, s, f]" and v: "v = ''00''" and fs: "hex_field 32 t" "hex_field 16 s" "hex_field 2 f"
    and c: "py_int 16 f = Some (tc_flags c)" "tc_trace_id c = t" "tc_span_id c = s" "tc_state c = []" "tc_parent c = None"
    by (auto simp: from_traceparent_header_def split: if_splits list.splits option.splits)
  from flag_field[OF fs(3)] obtain n where n: "n < 256" "f = format_02x (int n)" by blast
  with flag_bytes(1)[OF n(1)] c(1) have "tc_flags c = int n" by simp
  with split_joined[OF sp] v n fs c show "h = to_traceparent_header c \<and> hex_field 32 (tc_trace_id c) \<and> hex_field 16 (tc_span_id c) \<and>
     0 \<le> tc_flags c \<and> tc_flags c < 256 \<and> tc_state c = [] \<and> tc_parent c = None" by (simp add: to_traceparent_header_def)
next
  assume h: "h = to_traceparent_header c \<and> hex_field 32 (tc_trace_id c) \<and> hex_field 16 (tc_span_id c) \<and> 0 \<le> tc_flags c \<and>
     tc_flags c < 256 \<and> tc_state c = [] \<and> tc_parent c = None"
  then obtain n where n: "tc_flags c = int n" "n < 256" by (metis nat_0_le of_nat_less_iff of_nat_numeral)
  note b = flag_bytes[OF n(2)]
  have "CHR ''-'' \<notin> set (tc_trace_id c)" "CHR ''-'' \<notin> set (tc_span_id c)" "CHR ''-'' \<notin> set (format_02x (int n))"
    using h hex_no_dash b(2) by blast+
  then have "py_split (CHR ''-'') h = [''00'', tc_trace_id c, tc_span_id c, format_02x (int n)]"
    using h n(1) py_split_append[of "CHR ''-''" "''00''"] py_split_append[of "CHR ''-''" "tc_trace_id c"]
      py_split_append[of "CHR ''-''" "tc_span_id c"] py_split_no_sep[of "CHR ''-''" "format_02x (int n)"]
    by (simp add: to_traceparent_header_def)
  then show "from_traceparent_header h = Inr c"
    using h b n(1) by (simp add: from_traceparent_header_def to_traceparent_header_def)
qed

subsection \<open>Emission\<close>

text \<open>What the subscribers called one after the other return: each with its exception, if any.\<close>

fun visits :: "lc_event \<Rightarrow> 'w lc_subscription list \<Rightarrow> 'w \<Rightarrow> ('w lc_subscription \<times> exc_info option) list" where
  "visits e [] w = []"
| "visits e (s # ss) w = (s, fst (ls_callback s e w)) # visits e ss (snd (ls_callback s e w))"

definition payload_of :: "json_codec \<Rightarrow> 'w lifecycle_registry \<Rightarrow> 'w lc_subscription \<Rightarrow> lc_event \<Rightarrow> pydict option" where
  "payload_of J r s e = (if forwards r s then (case bus_payload J r s e of Inr p \<Rightarrow> p | Inl _ \<Rightarrow> None) else None)"

definition visit_order :: "hierarchy \<Rightarrow> lc_event \<Rightarrow> 'w lifecycle_registry \<Rightarrow> 'w lc_subscription list" where
  "visit_order sub e r =
     (let ms = filter (receives sub e) (rg_subs r) in if reverse_order (le_class e) then rev ms else ms)"

definition failing :: "json_codec \<Rightarrow> 'w lifecycle_registry \<Rightarrow> lc_event \<Rightarrow> 'w lc_subscription \<Rightarrow> bool" where
  "failing J r e s \<longleftrightarrow> forwards r s \<and> isl (bus_payload J r s e)"

lemma dispatch_subs_visits:
  "(\<forall>s \<in> set ss. \<not> failing J r e s) \<Longrightarrow>
   dispatch_subs J r guard gen e ss w =
     (Inr (), fold (\<lambda>s w. snd (ls_callback s e w)) ss w,
      concat (map (\<lambda>(s, x). error_tasks guard (gen s) e s x @ bus_tasks r e (payload_of J r s e)) (visits e ss w)))"
proof (induction ss arbitrary: w)
  case (Cons s ss)
  obtain x w1 where x: "ls_callback s e w = (x, w1)" by force
  have "(if forwards r s then bus_payload J r s e else Inr None) = Inr (payload_of J r s e)"
    using Cons.prems by (auto simp: failing_def payload_of_def isl_def split: sum.split)
  with Cons x show ?case by (simp add: Let_def)
qed simp

lemma dispatch_subs_raises:
  "isl (fst (dispatch_subs J r guard gen e ss w)) \<longleftrightarrow> list_ex (failing J r e) ss"
proof (induction ss arbitrary: w)
  case (Cons s ss)
  obtain x w1 where x: "ls_callback s e w = (x, w1)" by force
  obtain res w2 ts where d: "dispatch_subs J r guard gen e ss w1 = (res, w2, ts)" by (metis prod_cases3)
  show ?case
  proof (cases "if forwards r s then bus_payload J r s e else Inr None")
    case (Inl y)
    then show ?thesis using x by (simp add: failing_def Let_def split: if_splits)
  next
    case (Inr p)
    then have "\<not> failing J r e s" by (auto simp: failing_def split: if_splits)
    then show ?thesis using Cons.IH[of w1] x d Inr by (simp add: Let_def)
  qed
qed simp

lemma lc_emit_dispatch:
  assumes "matching_subs sub e (rg_subs r) = Inr ms"
  shows "lc_emit sub J is_global glob guard gen r e w =
    (case dispatch_subs J r guard gen e (visit_order sub e r) w of
       (Inl x, w1, ts) \<Rightarrow> (Inl x, w1, ts)
     | (Inr _, w1, ts) \<Rightarrow> (Inr (), w1, ts @ (if rg_to_global r then forward_tasks sub is_global guard glob e else [])))"
proof -
  have o: "visit_order sub e r = (if reverse_order (le_class e) then rev ms else ms)"
    by (simp add: visit_order_def matching_subs_filter[OF assms] Let_def)
  show ?thesis
  proof (cases ms)
    case Nil
    then show ?thesis unfolding o lc_emit_def Let_def assms sum.case by simp
  next
    case (Cons s ss)
    then show ?thesis unfolding o lc_emit_def Let_def assms sum.case by simp
  qed
qed

text \<open>C18: An emission calls every subscriber whose class and predicate take the event exactly once, in the order of
  their registration, or in the reverse order for the \<open>After\<close> and \<open>Failed\<close> events, whatever any of them
  raises.  For each one that raised an error event is scheduled, and the payload of each one that asked for
  it goes to the bus, even when its callback raised.\<close>

theorem emission_exact:
  assumes "\<not> isl (matching_subs sub e (rg_subs r))" and "\<forall>s \<in> set (visit_order sub e r). \<not> failing J r e s"
  shows "lc_emit sub J is_global glob guard gen r e w =
    (Inr (), fold (\<lambda>s w. snd (ls_callback s e w)) (visit_order sub e r) w,
     concat (map (\<lambda>(s, x). error_tasks guard (gen s) e s x @ bus_tasks r e (payload_of J r s e)) (visits e (visit_order sub e r) w)) @
     (if rg_to_global r then forward_tasks sub is_global guard glob e else []))"
proof -
  obtain ms where "matching_subs sub e (rg_subs r) = Inr ms" using assms(1) by (cases "matching_subs sub e (rg_subs r)") auto
  from lc_emit_dispatch[OF this] show ?thesis by (simp add: dispatch_subs_visits[OF assms(2)])
qed

text \<open>Two subscribers of every event, the first of which raises and forwards.\<close>

definition any_class :: hierarchy where
  "any_class a b \<longleftrightarrow> b \<in> {a, ''LifecycleEvent''}"

definition lc_json :: json_codec where
  "lc_json = \<lparr>dumps = (\<lambda>v. Inr []), loads = (\<lambda>t. Inr PNone)\<rparr>"

definition lc_sample :: "string \<Rightarrow> lc_event" where
  "lc_sample cls = \<lparr>le_class = cls, le_trace = new_root ''t'' ''s'', le_event_id = ''e'', le_timestamp = sample_time, le_source_type = [],
     le_source_name = [], le_fields = []\<rparr>"

definition lc_sub :: "string \<Rightarrow> bool \<Rightarrow> string list lc_subscription" where
  "lc_sub n raises = \<lparr>ls_id = n, ls_type = ''LifecycleEvent'', ls_name = n,
     ls_callback = (\<lambda>e w. (if raises then Some (''ValueError'', [], []) else None, w @ [n])), ls_where = None, ls_forward = raises,
     ls_order = 0, ls_serializer = None\<rparr>"

definition lc_registry :: "string list lc_subscription list \<Rightarrow> string list lifecycle_registry" where
  "lc_registry ss = (registry_new True ''lifecycle'' False None)\<lparr>rg_subs := ss\<rparr>"

lemmas lc_defs = any_class_def lc_json_def lc_sample_def lc_sub_def lc_registry_def registry_new_def

theorem emission_exact_witness:
  "fst (snd (lc_emit any_class lc_json False (lc_registry []) False (\<lambda>s. (''u'', sample_time)) (lc_registry [lc_sub ''a'' True, lc_sub ''b'' False])
     (lc_sample ''AfterCall'') [])) = [''b'', ''a'']"
proof -
  let ?r = "lc_registry [lc_sub ''a'' True, lc_sub ''b'' False]" and ?e = "lc_sample ''AfterCall''"
  have m: "\<not> isl (matching_subs any_class ?e (rg_subs ?r))" by (simp add: lc_defs)
  have o: "visit_order any_class ?e ?r = [lc_sub ''b'' False, lc_sub ''a'' True]"
    by (simp add: visit_order_def receives_def reverse_order_def lc_defs)
  have "\<forall>s \<in> set (visit_order any_class ?e ?r). \<not> failing lc_json ?r ?e s"
    unfolding o by (simp add: failing_def forwards_def bus_payload_def le_to_dict_def lc_defs)
  from emission_exact[OF m this] show ?thesis unfolding o by (simp add: lc_sub_def)
qed

text \<open>An emission raises exactly when the predicate of a subscriber of the class raises, or when none does and
  a subscriber that takes the event forwards it to an attached bus without a serializer and the event is not
  JSON.  The callbacks themselves never make it raise.\<close>

theorem emission_raises:
  "isl (fst (lc_emit sub J is_global glob guard gen r e w)) \<longleftrightarrow>
     isl (matching_subs sub e (rg_subs r)) \<or> list_ex (failing J r e) (filter (receives sub e) (rg_subs r))"
proof (cases "matching_subs sub e (rg_subs r)")
  case (Inr ms)
  obtain res w1 ts where d: "dispatch_subs J r guard gen e (visit_order sub e r) w = (res, w1, ts)" by (metis prod_cases3)
  have "isl (fst (lc_emit sub J is_global glob guard gen r e w)) = isl res"
    by (cases res) (simp_all add: lc_emit_dispatch[OF Inr] d)
  also have "\<dots> \<longleftrightarrow> list_ex (failing J r e) (filter (receives sub e) (rg_subs r))"
    using dispatch_subs_raises[of J r guard gen e "visit_order sub e r" w] d by (simp add: visit_order_def Let_def list_ex_iff split: if_splits)
  finally show ?thesis using Inr by simp
qed (simp add: lc_emit_def)

subsection \<open>The way to the bus\<close>

lemma trace_roundtrip: "trace_from_dict (trace_dict c) = Inr c"
  by (simp add: trace_from_dict_def trace_dict_def item_def get_or_def)

lemma le_to_dict_get:
  assumes "le_to_dict J e = Inr d"
  shows "dict_get d ''event_class'' = Some (PStr (le_class e))" "dict_get d ''event_id'' = Some (PStr (le_event_id e))"
    "dict_get d ''timestamp'' = Some (PStr (isoformat (le_timestamp e)))" "dict_get d ''source_type'' = Some (PStr (le_source_type e))"
    "dict_get d ''source_name'' = Some (PStr (le_source_name e))" "dict_get d ''trace_context'' = Some (PDict (trace_dict (le_trace e)))"
proof -
  have "d = le_items e \<or> (\<exists>v. d = dict_set ''traceback'' v (le_items e))"
    using assms by (auto simp: le_to_dict_def split: sum.splits if_splits option.splits pyval.splits list.splits)
  then have "dict_get d k = dict_get (le_items e) k" if "k \<noteq> ''traceback''" for k using that by auto
  then show "dict_get d ''event_class'' = Some (PStr (le_class e))" "dict_get d ''event_id'' = Some (PStr (le_event_id e))"
    "dict_get d ''timestamp'' = Some (PStr (isoformat (le_timestamp e)))" "dict_get d ''source_type'' = Some (PStr (le_source_type e))"
    "dict_get d ''source_name'' = Some (PStr (le_source_name e))" "dict_get d ''trace_context'' = Some (PDict (trace_dict (le_trace e)))"
    by (simp_all add: le_items_def)
qed

text \<open>A lifecycle event keeps its identity on its way to the bus: the envelope made of its dictionary has its
  class in the topic, its id, its time as an aware one, its source and its trace context, from which the
  trace is read back as it was.\<close>

theorem lifecycle_event_on_bus:
  assumes "le_to_dict J e = Inr d" and "valid_dt (le_timestamp e)"
  shows "\<exists>env. from_lifecycle_dict u now d sev = Inr env \<and> topic env = ''lifecycle.'' @ le_class e \<and> event_id env = le_event_id e \<and>
    timestamp env = ensure_aware_utc (le_timestamp e) \<and> severity env = sev \<and>
    source env = (let parts = filter (\<lambda>p. p \<noteq> []) [le_source_type e, le_source_name e] in if parts = [] then None else Some (py_join '':'' parts)) \<and>
    (case trace_context env of PDict t \<Rightarrow> trace_from_dict t = Inr (le_trace e) | _ \<Rightarrow> False)"
proof -
  note g = le_to_dict_get[OF assms(1)]
  have "dt_aware (ensure_aware_utc (le_timestamp e))" by (simp add: ensure_aware_utc_def dt_aware_def)
  then show ?thesis
    by (auto simp: from_lifecycle_dict_def get_or_def g fromisoformat_isoformat[OF assms(2)] str_or_empty_def Let_def post_init_def
        trace_roundtrip)
qed

theorem lifecycle_event_on_bus_witness:
  "\<exists>env. bind_r (le_to_dict lc_json (lc_sample ''AfterCall'')) (\<lambda>d. from_lifecycle_dict ''u'' sample_time d INFO) = Inr env \<and>
     topic env = ''lifecycle.AfterCall'' \<and> event_id env = ''e'' \<and> timestamp env = sample_time"
proof -
  obtain d where d: "le_to_dict lc_json (lc_sample ''AfterCall'') = Inr d" by (simp add: le_to_dict_def lc_json_def lc_sample_def)
  have v: "valid_dt (le_timestamp (lc_sample ''AfterCall''))" by (simp add: lc_sample_def sample_time_def valid_dt_def days_in_month_def)
  have "ensure_aware_utc sample_time = sample_time" by (simp add: ensure_aware_utc_def dt_aware_def sample_time_def)
  with lifecycle_event_on_bus[OF d v, of "''u''" sample_time INFO] d show ?thesis by (auto simp: lc_sample_def)
qed

subsection \<open>Error events do not cascade\<close>

fun lc_turns ::
    "nat \<Rightarrow> hierarchy \<Rightarrow> json_codec \<Rightarrow> ('w lc_subscription \<Rightarrow> string \<times> py_datetime) \<Rightarrow> 'w lifecycle_registry \<Rightarrow> lc_task list \<Rightarrow> 'w \<Rightarrow>
     ((string \<times> pydict) list \<times> 'w) option" where
  "lc_turns n sub J gen glob [] w = Some ([], w)"
| "lc_turns 0 sub J gen glob (t # ts) w = None"
| "lc_turns (Suc n) sub J gen glob (t # ts) w =
     (case run_lc_task sub J gen glob t w of
        (out, w1, new) \<Rightarrow> map_option (apfst ((@) out)) (lc_turns n sub J gen glob (ts @ new) w1))"

lemma lc_weight_pos: "0 < lc_weight n t"
  by (cases t) simp_all

lemma lc_turns_enough:
  "lc_weights (length (rg_subs glob)) ts \<le> n \<Longrightarrow> lc_turns n sub J gen glob ts w = Some (run_lc_tasks sub J gen glob ts w)"
proof (induction n arbitrary: ts w)
  case 0
  then show ?case using lc_weight_pos[of "length (rg_subs glob)" "hd ts"] by (cases ts) simp_all
next
  case (Suc n)
  show ?case
  proof (cases ts)
    case (Cons t us)
    obtain out w1 new where r: "run_lc_task sub J gen glob t w = (out, w1, new)" by (metis prod_cases3)
    from run_lc_task_weight[OF r] Suc.prems Cons have "lc_weights (length (rg_subs glob)) (us @ new) \<le> n" by simp
    from Suc.IH[OF this] Cons r show ?thesis by (simp add: apfst_def map_prod_def split: prod.split)
  qed simp
qed

text \<open>The tasks an emission schedules come to an end, however the subscribers of the global registry fail: an
  error event raised while an error event is dispatched is dropped.  With \<open>n\<close> global subscribers a
  forwarded event costs at most \<open>1 + n (2 + 2 n)\<close> tasks, an error event \<open>1 + 2 n\<close>.\<close>

theorem lifecycle_tasks_end:
  "lc_turns (lc_weights (length (rg_subs glob)) ts) sub J gen glob ts w = Some (run_lc_tasks sub J gen glob ts w)"
  by (rule lc_turns_enough) simp

end
