(* ===== verification/Delivery.thy ===== *)
theory Delivery
  imports QueueFeeder BusOps Signatures Registry
begin

text \<open>
  Outbound HTTP delivery: the retrying POST of subscribers/_delivery.py, the bus subscriber of
  subscribers/webhook.py that signs, buffers and delivers envelopes, and the lifecycle subscriber of
  lifecycle/subscribers/webhook.py.  The endpoint at the other end is a function over the world; what
  \<open>random.uniform\<close> draws is an argument.
\<close>

subsection \<open>One POST with retries\<close>

text \<open>
  What one request came to: a status, a \<open>ClientError\<close> or a timeout with its text, or any other exception.
\<close>

datatype http_reply = Answered int | Client_error string | Timed_out string | Escaped string

type_synonym 'w http_peer = "string \<Rightarrow> string \<Rightarrow> headers \<Rightarrow> 'w \<Rightarrow> http_reply \<times> 'w"

record delivery_outcome =
  dv_delivered :: bool
  dv_attempts :: nat
  dv_status :: "int option"
  dv_error :: "string option"

record http_delivery =
  dl_url :: string
  dl_timeout :: real
  dl_max_attempts :: nat
  dl_base :: real
  dl_max :: real
  dl_jitter :: bool
  dl_retry :: "int list"

text \<open>An empty set of statuses is falsy, so it reads as the standard one.\<close>

definition http_delivery_new :: "string \<Rightarrow> real \<Rightarrow> int \<Rightarrow> real \<Rightarrow> real \<Rightarrow> bool \<Rightarrow> int list option \<Rightarrow> http_delivery" where
  "http_delivery_new url timeout attempts base most jitter retry =
     \<lparr>dl_url = url, dl_timeout = timeout, dl_max_attempts = nat (max 1 attempts), dl_base = base, dl_max = most,
      dl_jitter = jitter, dl_retry = (case retry of Some (x # xs) \<Rightarrow> x # xs | _ \<Rightarrow> [429])\<rparr>"

definition should_retry :: "http_delivery \<Rightarrow> int \<Rightarrow> bool" where
  "should_retry D status \<longleftrightarrow> 500 \<le> status \<or> status \<in> set (dl_retry D)"

text \<open>The power becomes a float: from \<open>2 ** 1024\<close> on that raises \<open>OverflowError\<close>.\<close>

definition delay_for :: "http_delivery \<Rightarrow> real \<Rightarrow> nat \<Rightarrow> real result" where
  "delay_for D u attempt =
     (if 1024 < attempt then Inl (OtherError ''OverflowError'')
      else let delay = min (dl_max D) (dl_base D * 2 ^ (attempt - 1)) in Inr (if dl_jitter D then u * delay else delay))"

text \<open>The outcome a reply ends the loop with, if it does.\<close>

definition settle :: "http_delivery \<Rightarrow> nat \<Rightarrow> http_reply \<Rightarrow> delivery_outcome result option" where
  "settle D attempt r =
     (case r of
        Escaped x \<Rightarrow> Some (Inl (OtherError x))
      | Client_error t \<Rightarrow> None
      | Timed_out t \<Rightarrow> None
      | Answered s \<Rightarrow>
          if 200 \<le> s \<and> s < 300
          then Some (Inr \<lparr>dv_delivered = True, dv_attempts = attempt, dv_status = Some s, dv_error = None\<rparr>)
          else if \<not> should_retry D s
          then Some (Inr \<lparr>dv_delivered = False, dv_attempts = attempt, dv_status = Some s, dv_error = Some ''permanent''\<rparr>)
          else None)"

fun note_status :: "http_reply \<Rightarrow> int option \<Rightarrow> int option" where
  "note_status (Answered s) st = Some s"
| "note_status r st = st"

fun note_error :: "http_reply \<Rightarrow> string option \<Rightarrow> string option" where
  "note_error (Client_error t) err = Some t"
| "note_error (Timed_out t) err = Some t"
| "note_error r err = err"

definition gave_up :: "http_delivery \<Rightarrow> int option \<Rightarrow> string option \<Rightarrow> delivery_outcome" where
  "gave_up D st err =
     \<lparr>dv_delivered = False, dv_attempts = dl_max_attempts D, dv_status = st,
      dv_error = Some (case err of Some (c # cs) \<Rightarrow> c # cs | _ \<Rightarrow> ''exhausted'')\<rparr>"

text \<open>The loop from an attempt on; also the durations slept.\<close>

fun post_loop ::
    "http_delivery \<Rightarrow> 'w http_peer \<Rightarrow> (nat \<Rightarrow> real) \<Rightarrow> string \<Rightarrow> headers \<Rightarrow> nat \<Rightarrow> nat \<Rightarrow> int option \<Rightarrow> string option \<Rightarrow> 'w \<Rightarrow>
     delivery_outcome result \<times> real list \<times> 'w" where
  "post_loop D P rnd body hs a 0 st err w = (Inr (gave_up D st err), [], w)"
| "post_loop D P rnd body hs a (Suc k) st err w =
     (case P (dl_url D) body hs w of
        (r, w1) \<Rightarrow>
          (case settle D a r of
             Some out \<Rightarrow> (out, [], w1)
           | None \<Rightarrow>
               if k = 0 then post_loop D P rnd body hs (Suc a) k (note_status r st) (note_error r err) w1
               else (case delay_for D (rnd a) a of
                       Inl x \<Rightarrow> (Inl x, [], w1)
                     | Inr d \<Rightarrow>
                         (case post_loop D P rnd body hs (Suc a) k (note_status r st) (note_error r err) w1 of
                            (out, ds, w2) \<Rightarrow> (out, d # ds, w2)))))"

definition post ::
    "http_delivery \<Rightarrow> 'w http_peer \<Rightarrow> (nat \<Rightarrow> real) \<Rightarrow> string \<Rightarrow> headers \<Rightarrow> 'w \<Rightarrow> delivery_outcome result \<times> real list \<times> 'w" where
  "post D P rnd body hs w = post_loop D P rnd body hs 1 (dl_max_attempts D) None None w"

subsection \<open>Configuration of the bus subscriber\<close>

text \<open>
  \<open>urlparse\<close> as far as it is used: the scheme and the host part of a URL.  Whether a bracketed host is an
  IP literal is an argument.
\<close>

definition is_url_junk :: "char \<Rightarrow> bool" where
  "is_url_junk c \<longleftrightarrow> (of_char c :: nat) \<le> 32"

definition is_ascii_alpha :: "char \<Rightarrow> bool" where
  "is_ascii_alpha c \<longleftrightarrow> (let n = (of_char c :: nat) in 65 \<le> n \<and> n \<le> 90 \<or> 97 \<le> n \<and> n \<le> 122)"

definition is_scheme_char :: "char \<Rightarrow> bool" where
  "is_scheme_char c \<longleftrightarrow> is_ascii_alpha c \<or> c \<in> set ''0123456789+-.''"

definition url_scheme_rest :: "string \<Rightarrow> string \<times> string" where
  "url_scheme_rest url =
     (case py_partition (CHR '':'') url of
        (c # cs, True, rest) \<Rightarrow>
          if is_ascii_alpha c \<and> (\<forall>x \<in> set cs. is_scheme_char x) then (py_lower (c # cs), rest) else ([], url)
      | _ \<Rightarrow> ([], url))"

definition urlparse :: "(string \<Rightarrow> bool) \<Rightarrow> string \<Rightarrow> (string \<times> string) result" where
  "urlparse ip_literal value =
     (let url = filter (\<lambda>c. c \<notin> {CHR 0x09, CHR 0x0A, CHR 0x0D}) (dropWhile is_url_junk value)
      in case url_scheme_rest url of
           (sch, rest) \<Rightarrow>
             (let netloc = (if py_startswith rest ''//'' then takeWhile (\<lambda>c. c \<notin> set ''/?#'') (drop 2 rest) else [])
              in if (CHR ''['' \<in> set netloc) \<noteq> (CHR '']'' \<in> set netloc) then Inl (ValueError ''Invalid IPv6 URL'')
                 else if CHR ''['' \<in> set netloc \<and> \<not> ip_literal netloc then Inl (ValueError ''Invalid IPv6 URL'')
                 else Inr (sch, netloc)))"

record delivery_config =
  wc_name :: string
  wc_url :: string
  wc_patterns :: "string list"
  wc_min_severity :: severity
  wc_exclude_internal :: bool
  wc_secret :: "string option"
  wc_scheme :: string
  wc_signature_header :: "string option"
  wc_headers :: headers
  wc_timeout :: real
  wc_max_attempts :: int
  wc_base :: real
  wc_max :: real
  wc_jitter :: bool
  wc_retry :: "int list"
  wc_queue_size :: int
  wc_concurrency :: int
  wc_transform :: "string option"
  wc_transform_fn :: "(envelope \<Rightarrow> pyval result) option"
  wc_emit_failure :: bool

text \<open>The validators; \<open>imported\<close> resolves an import string to a callable.\<close>

definition supported_url :: "(string \<Rightarrow> bool) \<Rightarrow> string \<Rightarrow> unit result" where
  "supported_url ip_literal url =
     bind_r (urlparse ip_literal url) (\<lambda>(sch, netloc).
       if sch \<notin> {''https'', ''http''} then Inl (ValueError ''Unsupported URL scheme'')
       else if netloc = [] then Inl (ValueError ''URL has no host'')
       else Inr ())"

definition delivery_config_new ::
    "registry \<Rightarrow> (string \<Rightarrow> bool) \<Rightarrow> (string \<Rightarrow> (envelope \<Rightarrow> pyval result) option) \<Rightarrow> delivery_config \<Rightarrow> delivery_config result" where
  "delivery_config_new schemes ip_literal imported c =
     (if wc_timeout c \<le> 0 \<or> wc_max_attempts c < 1 \<or> wc_base c \<le> 0 \<or> wc_max c \<le> 0 \<or> wc_queue_size c \<le> 0 \<or> wc_concurrency c < 1
      then Inl (ValueError ''WebhookDeliveryConfig'')
      else bind_r (supported_url ip_literal (wc_url c)) (\<lambda>_.
        if isl (get_signature_scheme (wc_scheme c) schemes) then Inl (ValueError ''unknown signature scheme'')
        else (case (wc_transform_fn c, wc_transform c) of
                (None, Some (x # xs)) \<Rightarrow>
                  (case imported (x # xs) of
                     None \<Rightarrow> Inl (ValueError ''transform'')
                   | Some f \<Rightarrow> Inr (c\<lparr>wc_transform_fn := Some f\<rparr>))
              | _ \<Rightarrow> Inr c)))"

subsection \<open>The bus subscriber\<close>

text \<open>
  \<open>wd_unfinished\<close> is the count behind \<open>queue.join\<close>; \<open>wd_busy\<close> the envelopes the workers are delivering.
\<close>

record delivery_sub =
  wd_config :: delivery_config
  wd_sig :: scheme
  wd_http :: http_delivery
  wd_queue :: "envelope list"
  wd_unfinished :: nat
  wd_busy :: "envelope list"
  wd_workers :: nat
  wd_sub_ids :: "string list"
  wd_attached :: bool
  wd_closed :: bool
  wd_delivered :: nat
  wd_failed :: nat
  wd_dropped :: nat
  wd_retries :: nat

definition delivery_sub_new :: "registry \<Rightarrow> delivery_config \<Rightarrow> delivery_sub result" where
  "delivery_sub_new schemes c =
     bind_r (get_signature_scheme (wc_scheme c) schemes) (\<lambda>s.
       Inr \<lparr>wd_config = c, wd_sig = s,
            wd_http = http_delivery_new (wc_url c) (wc_timeout c) (wc_max_attempts c) (wc_base c) (wc_max c) (wc_jitter c)
                        (Some (wc_retry c)),
            wd_queue = [], wd_unfinished = 0, wd_busy = [], wd_workers = 0, wd_sub_ids = [], wd_attached = False,
            wd_closed = False, wd_delivered = 0, wd_failed = 0, wd_dropped = 0, wd_retries = 0\<rparr>)"

definition wd_accepts :: "delivery_config \<Rightarrow> envelope \<Rightarrow> bool" where
  "wd_accepts c e \<longleftrightarrow> \<not> (wc_exclude_internal c \<and> py_startswith (topic e) ''bus.'')"

definition wd_sub :: "delivery_config \<Rightarrow> (nat \<Rightarrow> envelope \<Rightarrow> exn option) \<Rightarrow> string \<Rightarrow> string \<Rightarrow> subscription" where
  "wd_sub c h pattern i =
     \<lparr>sub_pattern = pattern, sub_id = i, sub_priority = 0, sub_filter = Some (\<lambda>e. Some (wd_accepts c e)),
      sub_min_severity = Some (wc_min_severity c), sub_handler = h\<rparr>"

fun wd_subscribe :: "delivery_config \<Rightarrow> (nat \<Rightarrow> envelope \<Rightarrow> exn option) \<Rightarrow> gen \<Rightarrow> string list \<Rightarrow> 'o bus \<Rightarrow> string list \<times> 'o bus" where
  "wd_subscribe c h G [] b = ([], b)"
| "wd_subscribe c h G (p # ps) b =
     (case subscribe (wd_sub c h p (uuid4 G (b_draws b))) (b\<lparr>b_draws := Suc (b_draws b)\<rparr>) of
        (i, b1) \<Rightarrow> (case wd_subscribe c h G ps b1 of (ids, b2) \<Rightarrow> (i # ids, b2)))"

text \<open>Attaching starts the workers, unless they run already.\<close>

definition wd_attach ::
    "(nat \<Rightarrow> envelope \<Rightarrow> exn option) \<Rightarrow> gen \<Rightarrow> delivery_sub \<Rightarrow> 'o bus \<Rightarrow> string list \<times> delivery_sub \<times> 'o bus" where
  "wd_attach h G s b =
     (case wd_subscribe (wd_config s) h G (wc_patterns (wd_config s)) b of
        (ids, b1) \<Rightarrow>
          (wd_sub_ids s @ ids,
           s\<lparr>wd_attached := True, wd_closed := False, wd_sub_ids := wd_sub_ids s @ ids,
             wd_workers := (if wd_workers s = 0 then nat (wc_concurrency (wd_config s)) else wd_workers s)\<rparr>, b1))"

definition wd_detach :: "delivery_sub \<Rightarrow> 'o bus \<Rightarrow> nat \<times> delivery_sub \<times> 'o bus" where
  "wd_detach s b = (case unsubscribe_all (wd_sub_ids s) b of (n, b1) \<Rightarrow> (n, s\<lparr>wd_sub_ids := []\<rparr>, b1))"

text \<open>\<open>put_nowait\<close>: \<^const>\<open>None\<close> is \<open>QueueFull\<close>.\<close>

definition wd_put :: "envelope \<Rightarrow> delivery_sub \<Rightarrow> delivery_sub option" where
  "wd_put e s =
     (if 0 < wc_queue_size (wd_config s) \<and> wc_queue_size (wd_config s) \<le> int (length (wd_queue s)) then None
      else Some (s\<lparr>wd_queue := wd_queue s @ [e], wd_unfinished := Suc (wd_unfinished s)\<rparr>))"

definition wd_drop_oldest :: "delivery_sub \<Rightarrow> delivery_sub" where
  "wd_drop_oldest s =
     (case wd_queue s of
        [] \<Rightarrow> s
      | old # q \<Rightarrow> s\<lparr>wd_queue := q, wd_unfinished := wd_unfinished s - 1, wd_dropped := Suc (wd_dropped s)\<rparr>)"

definition wd_on_envelope :: "envelope \<Rightarrow> delivery_sub \<Rightarrow> delivery_sub" where
  "wd_on_envelope e s =
     (if wd_closed s then s
      else (case wd_put e s of
              Some s1 \<Rightarrow> s1
            | None \<Rightarrow>
                (let s1 = wd_drop_oldest s
                 in case wd_put e s1 of
                      Some s2 \<Rightarrow> s2
                    | None \<Rightarrow> s1\<lparr>wd_dropped := Suc (wd_dropped s1)\<rparr>)))"

text \<open>A free worker takes the oldest envelope.\<close>

definition wd_take :: "delivery_sub \<Rightarrow> delivery_sub option" where
  "wd_take s =
     (case wd_queue s of
        e # q \<Rightarrow> if length (wd_busy s) < wd_workers s then Some (s\<lparr>wd_queue := q, wd_busy := wd_busy s @ [e]\<rparr>) else None
      | [] \<Rightarrow> None)"

text \<open>
  The request: what \<open>json.dumps(..., default=str)\<close> makes of the payload, signed under the own header or the
  one the operator chose.
\<close>

definition rekeyed :: "string option \<Rightarrow> headers \<Rightarrow> headers result" where
  "rekeyed chosen signed =
     (case chosen of
        Some (c # cs) \<Rightarrow>
          (case signed of [(n, v)] \<Rightarrow> Inr [(c # cs, v)] | _ \<Rightarrow> Inl (ValueError ''values to unpack''))
      | _ \<Rightarrow> Inr signed)"

definition merge_headers :: "headers \<Rightarrow> headers \<Rightarrow> headers" where
  "merge_headers new old = fold (\<lambda>(k, v). dict_set k v) new old"

definition build_request :: "json_codec \<Rightarrow> hmac \<Rightarrow> real \<Rightarrow> delivery_sub \<Rightarrow> envelope \<Rightarrow> (string \<times> headers) result" where
  "build_request J mac now s e =
     (let c = wd_config s
      in bind_r (case wc_transform_fn c of Some f \<Rightarrow> f e | None \<Rightarrow> Inr (PDict (to_dict e))) (\<lambda>pl.
         bind_r (dumps J pl) (\<lambda>body.
           let hs = merge_headers (wc_headers c) [(''Content-Type'', ''application/json'')]
           in case wc_secret c of
                Some (k # ks) \<Rightarrow>
                  bind_r (rekeyed (wc_signature_header c) (sign mac (wd_sig s) (k # ks) body now)) (\<lambda>signed.
                    Inr (body, merge_headers signed hs))
              | _ \<Rightarrow> Inr (body, hs))))"

definition DELIVERY_FAILED_TOPIC :: string where
  "DELIVERY_FAILED_TOPIC = ''bus.webhook_delivery_failed''"

definition opt_status :: "int option \<Rightarrow> pyval" where
  "opt_status x = (case x of None \<Rightarrow> PNone | Some n \<Rightarrow> PInt n)"

definition failure_envelope :: "string \<Rightarrow> py_datetime \<Rightarrow> delivery_config \<Rightarrow> envelope \<Rightarrow> delivery_outcome \<Rightarrow> envelope" where
  "failure_envelope u now c e out =
     \<lparr>topic = DELIVERY_FAILED_TOPIC,
      payload = PDict [(''subscriber'', PStr (wc_name c)), (''url'', PStr (wc_url c)), (''topic'', PStr (topic e)),
        (''event_id'', PStr (event_id e)), (''attempts'', PInt (int (dv_attempts out))), (''status'', opt_status (dv_status out)),
        (''error'', opt_str (dv_error out))],
      event_id = u, timestamp = now, source = Some (wc_name c), severity = ERROR, priority = NORMAL, correlation_id = None,
      trace_context = PNone, metadata = PDict [], schema_version = ENVELOPE_SCHEMA_VERSION\<rparr>"

text \<open>
  Delivering: the answer (an exception is logged by the worker), and the failure event to publish, whose
  own failure is only logged.
\<close>

definition wd_deliver ::
    "json_codec \<Rightarrow> hmac \<Rightarrow> 'w http_peer \<Rightarrow> (nat \<Rightarrow> real) \<Rightarrow> real \<Rightarrow> string \<Rightarrow> py_datetime \<Rightarrow> envelope \<Rightarrow> delivery_sub \<Rightarrow> 'w \<Rightarrow>
     bool result \<times> envelope option \<times> delivery_sub \<times> 'w" where
  "wd_deliver J mac P rnd now u wall e s w =
     (case build_request J mac now s e of
        Inl x \<Rightarrow> (Inl x, None, s, w)
      | Inr (body, hs) \<Rightarrow>
          (case post (wd_http s) P rnd body hs w of
             (Inl x, ds, w1) \<Rightarrow> (Inl x, None, s, w1)
           | (Inr out, ds, w1) \<Rightarrow>
               (let s1 = s\<lparr>wd_retries := wd_retries s + (dv_attempts out - 1)\<rparr>
                in if dv_delivered out then (Inr True, None, s1\<lparr>wd_delivered := Suc (wd_delivered s1)\<rparr>, w1)
                   else (Inr False,
                         if wc_emit_failure (wd_config s) \<and> wd_attached s
                         then Some (failure_envelope u wall (wd_config s) e out) else None,
                         s1\<lparr>wd_failed := Suc (wd_failed s1)\<rparr>, w1))))"

definition emit_failure :: "gen \<Rightarrow> 'o outbox_ops \<Rightarrow> bool \<Rightarrow> real \<Rightarrow> envelope option \<Rightarrow> 'o bus \<Rightarrow> 'o bus" where
  "emit_failure G ops in_meta now f b = (case f of None \<Rightarrow> b | Some e \<Rightarrow> snd (publish G ops in_meta now e b))"

text \<open>The turn of a worker ends, also after an exception.\<close>

definition wd_done :: "envelope \<Rightarrow> delivery_sub \<Rightarrow> delivery_sub" where
  "wd_done e s = s\<lparr>wd_busy := remove1 e (wd_busy s), wd_unfinished := wd_unfinished s - 1\<rparr>"

definition wd_work ::
    "json_codec \<Rightarrow> hmac \<Rightarrow> 'w http_peer \<Rightarrow> (nat \<Rightarrow> real) \<Rightarrow> real \<Rightarrow> string \<Rightarrow> py_datetime \<Rightarrow> envelope \<Rightarrow> delivery_sub \<Rightarrow> 'w \<Rightarrow>
     bool result \<times> envelope option \<times> delivery_sub \<times> 'w" where
  "wd_work J mac P rnd now u wall e s w =
     (case wd_deliver J mac P rnd now u wall e s w of (r, f, s1, w1) \<Rightarrow> (r, f, wd_done e s1, w1))"

text \<open>
  Closing: no more envelopes are taken; when the queue is joined or the budget is over, the workers are
  cancelled with what they were delivering.
\<close>

definition wd_drain_budget :: "delivery_sub \<Rightarrow> real" where
  "wd_drain_budget s = wc_timeout (wd_config s) * real_of_int (wc_max_attempts (wd_config s)) + 1"

definition wd_close_begin :: "delivery_sub \<Rightarrow> delivery_sub" where
  "wd_close_begin s = s\<lparr>wd_closed := True\<rparr>"

definition wd_close_end :: "delivery_sub \<Rightarrow> delivery_sub" where
  "wd_close_end s = s\<lparr>wd_workers := 0, wd_busy := [], wd_unfinished := wd_unfinished s - length (wd_busy s)\<rparr>"

definition wd_stats :: "delivery_sub \<Rightarrow> (string \<times> nat) list" where
  "wd_stats s = [(''delivered'', wd_delivered s), (''failed'', wd_failed s), (''dropped'', wd_dropped s),
     (''retries'', wd_retries s), (''queued'', length (wd_queue s))]"

subsection \<open>The lifecycle subscriber\<close>

text \<open>
  Its own loop retries on any status outside 2xx and 4xx and on a \<open>ClientError\<close>; a timeout is not one, and
  leaves the loop like every other exception.
\<close>

record lc_webhook =
  lw_url :: string
  lw_secret :: "string option"
  lw_classes :: "string list"
  lw_max_attempts :: int
  lw_forward :: bool

definition lc_webhook_new ::
    "(string \<Rightarrow> bool) \<Rightarrow> string \<Rightarrow> string option \<Rightarrow> string list \<Rightarrow> int \<Rightarrow> bool \<Rightarrow> lc_webhook result" where
  "lc_webhook_new ip_literal url secret classes attempts forward =
     bind_r (urlparse ip_literal url) (\<lambda>(sch, netloc).
       if sch \<notin> {''https'', ''http''} then Inl (ValueError ''unsupported URL scheme'')
       else Inr \<lparr>lw_url = url, lw_secret = (case secret of Some (c # cs) \<Rightarrow> Some (c # cs) | _ \<Rightarrow> None),
                 lw_classes = (if classes = [] then [''LifecycleEvent''] else classes), lw_max_attempts = attempts,
                 lw_forward = forward\<rparr>)"

definition lw_settle :: "http_reply \<Rightarrow> unit result option" where
  "lw_settle r =
     (case r of
        Answered s \<Rightarrow> if 200 \<le> s \<and> s < 300 \<or> 400 \<le> s \<and> s < 500 then Some (Inr ()) else None
      | Client_error t \<Rightarrow> None
      | Timed_out t \<Rightarrow> Some (Inl (OtherError ''TimeoutError''))
      | Escaped x \<Rightarrow> Some (Inl (OtherError x)))"

fun lw_loop :: "string \<Rightarrow> 'w http_peer \<Rightarrow> string \<Rightarrow> headers \<Rightarrow> nat \<Rightarrow> real \<Rightarrow> 'w \<Rightarrow> unit result \<times> real list \<times> 'w" where
  "lw_loop url P body hs 0 delay w = (Inr (), [], w)"
| "lw_loop url P body hs (Suc k) delay w =
     (case P url body hs w of
        (r, w1) \<Rightarrow>
          (case lw_settle r of
             Some out \<Rightarrow> (out, [], w1)
           | None \<Rightarrow>
               if k = 0 then (Inr (), [], w1)
               else (case lw_loop url P body hs k (delay * 2) w1 of (out, ds, w2) \<Rightarrow> (out, delay # ds, w2))))"

definition lw_on_event ::
    "json_codec \<Rightarrow> hmac \<Rightarrow> 'w http_peer \<Rightarrow> lc_webhook \<Rightarrow> lc_event \<Rightarrow> 'w \<Rightarrow> unit result \<times> real list \<times> 'w" where
  "lw_on_event J mac P s e w =
     (case bind_r (le_to_dict J e) (\<lambda>d. dumps J (PDict d)) of
        Inl x \<Rightarrow> (Inl x, [], w)
      | Inr body \<Rightarrow>
          lw_loop (lw_url s) P body
            ([(''Content-Type'', ''application/json'')] @
             (case lw_secret s of None \<Rightarrow> [] | Some k \<Rightarrow> [(''X-Parrot-Signature'', ''sha256='' @ mac ''sha256'' k body)]))
            (nat (lw_max_attempts s)) (1 / 2) w)"

text \<open>Registering subscribes for every class; \<open>h\<close> runs \<open>_on_event\<close>, the ids are drawn one after the other.\<close>

fun lw_register :: "'w lc_callback \<Rightarrow> bool \<Rightarrow> (string \<times> string) list \<Rightarrow> 'w lifecycle_registry \<Rightarrow> 'w lifecycle_registry" where
  "lw_register h forward [] r = r"
| "lw_register h forward ((cls, i) # cs) r =
     lw_register h forward cs
       (snd (lc_subscribe i \<lparr>sc_type = cls, sc_name = ''WebhookSubscriber._on_event'', sc_callback = h, sc_where = None,
                            sc_forward = forward, sc_serializer = None\<rparr> r))"

end
