(* ===== verification/LossyBuffer.thy ===== *)
theory LossyBuffer
  imports Main
begin

text \<open>
  The contract of the bounded buffers that never push back: a full buffer gives up its oldest item for the
  new one and counts it.  The webhook and the audit subscribers both promise it.
\<close>

locale lossy_buffer =
  fixes put :: "'e \<Rightarrow> 's \<Rightarrow> 's"
    and items :: "'s \<Rightarrow> 'a list"
    and lost :: "'s \<Rightarrow> nat"
    and room :: "'s \<Rightarrow> nat"
    and item_of :: "'e \<Rightarrow> 'a"
    and takes :: "'s \<Rightarrow> 'e \<Rightarrow> bool"
  assumes put_items: "takes s e \<Longrightarrow> 0 < room s \<Longrightarrow> length (items s) \<le> room s \<Longrightarrow>
      items (put e s) = (if length (items s) < room s then items s @ [item_of e] else tl (items s) @ [item_of e])"
    and put_lost: "takes s e \<Longrightarrow> 0 < room s \<Longrightarrow> length (items s) \<le> room s \<Longrightarrow>
      lost (put e s) = (if length (items s) < room s then lost s else Suc (lost s))"
    and put_room: "room (put e s) = room s"
    and put_takes: "takes (put e s) e' = takes s e'"
begin

text \<open>So it always holds the newest items, as many as fit, in order, and has counted exactly the others.\<close>

lemma newest_kept:
  assumes "list_all (takes s) es" "0 < room s" "length (items s) \<le> room s"
  shows "items (fold put es s) = drop (length (items s) + length es - room s) (items s @ map item_of es) \<and>
    lost (fold put es s) = lost s + (length (items s) + length es - room s) \<and>
    room (fold put es s) = room s"
  using assms
proof (induction es arbitrary: s)
  case (Cons e es)
  have t: "takes s e" and all: "list_all (takes (put e s)) es"
    using Cons.prems(1) by (simp_all add: list_all_iff put_takes)
  have len: "length (items (put e s)) = min (room s) (Suc (length (items s)))"
    using put_items[OF t Cons.prems(2,3)] Cons.prems(2,3) by (auto simp: min_def)
  have IH: "items (fold put es (put e s)) =
        drop (length (items (put e s)) + length es - room s) (items (put e s) @ map item_of es) \<and>
      lost (fold put es (put e s)) = lost (put e s) + (length (items (put e s)) + length es - room s) \<and>
      room (fold put es (put e s)) = room s"
    using Cons.IH[OF all] Cons.prems(2) len by (simp add: put_room)
  show ?case
  proof (cases "length (items s) < room s")
    case True
    then show ?thesis using IH len put_items[OF t Cons.prems(2,3)] put_lost[OF t Cons.prems(2,3)] by simp
  next
    case False
    then have full: "length (items s) = room s" using Cons.prems(3) by simp
    then obtain x xs where x: "items s = x # xs" using Cons.prems(2) by (cases "items s") auto
    have r: "room s = Suc (length xs)" using full x by simp
    have "drop (length es - length xs) (item_of e # map item_of es) =
        drop (length es - length xs) [item_of e] @ drop (length es - room s) (map item_of es)"
      using drop_append[of "length es - length xs" "[item_of e]" "map item_of es"] r by simp
    then show ?thesis using IH len full x put_items[OF t Cons.prems(2,3)] put_lost[OF t Cons.prems(2,3)] by simp
  qed
qed simp

lemma bounded:
  assumes "list_all (takes s) es" "0 < room s" "length (items s) \<le> room s"
  shows "length (items (fold put es s)) \<le> room (fold put es s)"
  using newest_kept[OF assms] by simp

end

end
