(* ===== verification/AuditTrail.thy ===== *)
theory AuditTrail
  imports Delivery LossyBuffer Epoch
begin

text \<open>
  The audit trail of subscribers/audit.py and the in-process counters of subscribers/metrics.py.  A flush
  is cut at its awaits: it takes its batch, and later writes it; the database is an argument.
\<close>

subsection \<open>Audit state\<close>

record audit_row =
  aw_event_id :: string
  aw_topic :: string
  aw_payload :: string
  aw_severity :: int
  aw_priority :: int
  aw_source :: "string option"
  aw_correlation :: "string option"
  aw_trace :: "string option"
  aw_metadata :: string
  aw_ts :: py_datetime

text \<open>
  The flush task: not started, created and not yet run, waiting for its event or the interval, or writing
  the batch it took.
\<close>

datatype flusher = No_task | Created | Waiting | Writing "audit_row list"

record audit_sub =
  au_dsn :: "string option"
  au_driver :: string
  au_pattern :: string
  au_internal :: bool
  au_batch :: nat
  au_interval :: real
  au_size :: int
  au_buffer :: "audit_row list"
  au_wakeup :: bool
  au_flusher :: flusher
  au_table_ready :: bool
  au_running :: bool
  au_sub_id :: "string option"
  au_dropped :: nat
  au_persisted :: nat

text \<open>The same derivation as that of the dead letter queue.\<close>

definition audit_default_dsn :: "(string \<Rightarrow> string option) \<Rightarrow> string option" where
  "audit_default_dsn nav = navconfig_default_dsn nav"

definition audit_new ::
    "(string \<Rightarrow> string option) \<Rightarrow> string option \<Rightarrow> string \<Rightarrow> string \<Rightarrow> bool \<Rightarrow> int \<Rightarrow> real \<Rightarrow> int \<Rightarrow> audit_sub" where
  "audit_new nav dsn driver pattern include_internal batch_size interval queue_size =
     \<lparr>au_dsn = (case dsn of None \<Rightarrow> audit_default_dsn nav | Some d \<Rightarrow> Some d), au_driver = driver, au_pattern = pattern,
      au_internal = include_internal, au_batch = nat (max 1 batch_size), au_interval = interval, au_size = queue_size,
      au_buffer = [], au_wakeup = False, au_flusher = No_task, au_table_ready = False, au_running = False, au_sub_id = None,
      au_dropped = 0, au_persisted = 0\<rparr>"

definition enabled_dsn :: "audit_sub \<Rightarrow> bool" where
  "enabled_dsn s \<longleftrightarrow> au_dsn s \<noteq> None \<and> au_dsn s \<noteq> Some []"

definition audit_attach ::
    "(nat \<Rightarrow> envelope \<Rightarrow> exn option) \<Rightarrow> string \<Rightarrow> audit_sub \<Rightarrow> 'o bus \<Rightarrow> string option \<times> audit_sub \<times> 'o bus" where
  "audit_attach h u s b =
     (if \<not> enabled_dsn s then (None, s, b)
      else (case subscribe \<lparr>sub_pattern = au_pattern s, sub_id = u, sub_priority = 0, sub_filter = None,
                            sub_min_severity = None, sub_handler = h\<rparr> b of
              (i, b1) \<Rightarrow>
                (Some i,
                 s\<lparr>au_running := True, au_flusher := (if au_flusher s = No_task then Created else au_flusher s),
                   au_sub_id := Some i\<rparr>, b1)))"

definition audit_detach :: "audit_sub \<Rightarrow> 'o bus \<Rightarrow> bool \<times> audit_sub \<times> 'o bus" where
  "audit_detach s b =
     (case au_sub_id s of
        None \<Rightarrow> (False, s, b)
      | Some i \<Rightarrow> (case unsubscribe i b of (r, b1) \<Rightarrow> (r, s\<lparr>au_sub_id := None\<rparr>, b1)))"

subsection \<open>Buffering\<close>

definition row_for :: "json_codec \<Rightarrow> envelope \<Rightarrow> audit_row result" where
  "row_for J e =
     bind_r (dumps J (payload e)) (\<lambda>pl.
     bind_r (case trace_context e of PNone \<Rightarrow> Inr None | t \<Rightarrow> map_sum id Some (dumps J t)) (\<lambda>tc.
     bind_r (dumps J (metadata e)) (\<lambda>md.
     Inr \<lparr>aw_event_id = event_id e, aw_topic = topic e, aw_payload = pl, aw_severity = severity_value (severity e),
          aw_priority = priority_value (priority e), aw_source = source e, aw_correlation = correlation_id e,
          aw_trace = tc, aw_metadata = md, aw_ts = timestamp e\<rparr>)))"

definition audited :: "audit_sub \<Rightarrow> envelope \<Rightarrow> bool" where
  "audited s e \<longleftrightarrow> au_internal s \<or> \<not> py_startswith (topic e) ''bus.''"

text \<open>Dropping the oldest row of an empty buffer raises; what is raised is only logged.\<close>

definition audit_on_envelope :: "json_codec \<Rightarrow> envelope \<Rightarrow> audit_sub \<Rightarrow> audit_sub" where
  "audit_on_envelope J e s =
     (if \<not> audited s e then s
      else if au_size s \<le> int (length (au_buffer s)) \<and> au_buffer s = [] then s
      else (let s1 = (if au_size s \<le> int (length (au_buffer s))
                      then s\<lparr>au_buffer := tl (au_buffer s), au_dropped := Suc (au_dropped s)\<rparr> else s)
            in case row_for J e of
                 Inl _ \<Rightarrow> s1
               | Inr row \<Rightarrow>
                   s1\<lparr>au_buffer := au_buffer s1 @ [row],
                      au_wakeup := (au_wakeup s1 \<or> au_batch s1 \<le> Suc (length (au_buffer s1)))\<rparr>))"

subsection \<open>Flushing\<close>

text \<open>The database: opening a connection, the DDL, one insertion; each may fail.\<close>

record 'd audit_db =
  ad_connect :: "'d \<Rightarrow> bool \<times> 'd"
  ad_ddl :: "'d \<Rightarrow> bool \<times> 'd"
  ad_insert :: "audit_row \<Rightarrow> 'd \<Rightarrow> bool \<times> 'd"

definition ensure_table :: "'d audit_db \<Rightarrow> audit_sub \<Rightarrow> 'd \<Rightarrow> bool \<times> audit_sub \<times> 'd" where
  "ensure_table D s d =
     (if au_table_ready s then (True, s, d)
      else (case ad_connect D d of
              (False, d1) \<Rightarrow> (False, s, d1)
            | (True, d1) \<Rightarrow>
                (case ad_ddl D d1 of
                   (False, d2) \<Rightarrow> (False, s, d2)
                 | (True, d2) \<Rightarrow> (True, s\<lparr>au_table_ready := True\<rparr>, d2))))"

fun insert_rows :: "'d audit_db \<Rightarrow> audit_row list \<Rightarrow> 'd \<Rightarrow> bool \<times> 'd" where
  "insert_rows D [] d = (True, d)"
| "insert_rows D (r # rs) d = (case ad_insert D r d of (False, d1) \<Rightarrow> (False, d1) | (True, d1) \<Rightarrow> insert_rows D rs d1)"

text \<open>\<^const>\<open>None\<close> when there is nothing to flush.\<close>

definition flush_begin :: "audit_sub \<Rightarrow> (audit_row list \<times> audit_sub) option" where
  "flush_begin s =
     (if au_buffer s = [] \<or> \<not> enabled_dsn s then None
      else Some (take (au_batch s) (au_buffer s), s\<lparr>au_buffer := drop (au_batch s) (au_buffer s)\<rparr>))"

definition write_rows :: "'d audit_db \<Rightarrow> audit_row list \<Rightarrow> audit_sub \<Rightarrow> 'd \<Rightarrow> bool \<times> audit_sub \<times> 'd" where
  "write_rows D rows s d =
     (case ensure_table D s d of
        (False, s1, d1) \<Rightarrow> (False, s1, d1)
      | (True, s1, d1) \<Rightarrow>
          (case ad_connect D d1 of
             (False, d2) \<Rightarrow> (False, s1, d2)
           | (True, d2) \<Rightarrow> (case insert_rows D rows d2 of (ok, d3) \<Rightarrow> (ok, s1, d3))))"

definition flush_end :: "'d audit_db \<Rightarrow> audit_row list \<Rightarrow> audit_sub \<Rightarrow> 'd \<Rightarrow> audit_sub \<times> 'd" where
  "flush_end D rows s d =
     (case write_rows D rows s d of
        (ok, s1, d1) \<Rightarrow>
          (let s2 = (if ok then s1\<lparr>au_persisted := au_persisted s1 + length rows\<rparr> else s1)
           in (if au_batch s2 \<le> length (au_buffer s2) then s2\<lparr>au_wakeup := True\<rparr> else s2, d1)))"

definition flush :: "'d audit_db \<Rightarrow> audit_sub \<Rightarrow> 'd \<Rightarrow> audit_sub \<times> 'd" where
  "flush D s d = (case flush_begin s of None \<Rightarrow> (s, d) | Some (rows, s1) \<Rightarrow> flush_end D rows s1 d)"

text \<open>
  The flush task: after its wait it clears the event and takes a batch; having written it, it waits again
  while the subscriber runs, and ends otherwise.
\<close>

definition flusher_next :: "audit_sub \<Rightarrow> audit_sub" where
  "flusher_next s = s\<lparr>au_flusher := (if au_running s then Waiting else No_task)\<rparr>"

definition flusher_wakes :: "audit_sub \<Rightarrow> audit_sub" where
  "flusher_wakes s =
     (let s1 = s\<lparr>au_wakeup := False\<rparr>
      in case flush_begin s1 of
           None \<Rightarrow> flusher_next s1
         | Some (rows, s2) \<Rightarrow> s2\<lparr>au_flusher := Writing rows\<rparr>)"

definition flusher_writes :: "'d audit_db \<Rightarrow> audit_sub \<Rightarrow> 'd \<Rightarrow> audit_sub \<times> 'd" where
  "flusher_writes D s d =
     (case au_flusher s of
        Writing rows \<Rightarrow> apfst flusher_next (flush_end D rows s d)
      | _ \<Rightarrow> (s, d))"

text \<open>Closing: the task is woken and awaited, then one more flush; no envelope arrives in between.\<close>

definition audit_close :: "'d audit_db \<Rightarrow> audit_sub \<Rightarrow> 'd \<Rightarrow> audit_sub \<times> 'd" where
  "audit_close D s d =
     (let s1 = s\<lparr>au_running := False, au_wakeup := True\<rparr>;
          (s2, d2) = (case au_flusher s1 of
              Waiting \<Rightarrow> flusher_writes D (flusher_wakes s1) d
            | Writing rows \<Rightarrow> flusher_writes D s1 d
            | _ \<Rightarrow> (s1, d))
      in flush D (s2\<lparr>au_flusher := No_task\<rparr>) d2)"

definition audit_stats :: "audit_sub \<Rightarrow> (string \<times> nat) list" where
  "audit_stats s = [(''persisted'', au_persisted s), (''dropped'', au_dropped s), (''buffered'', length (au_buffer s))]"

subsection \<open>Metrics\<close>

type_synonym counter = "(string \<times> nat) list"

definition count_up :: "string \<Rightarrow> counter \<Rightarrow> counter" where
  "count_up k c = dict_set k (Suc (case dict_get c k of None \<Rightarrow> 0 | Some n \<Rightarrow> n)) c"

definition LATENCY_BUCKETS :: "(real \<times> string) list" where
  "LATENCY_BUCKETS =
     [(1 / 1000, ''0.001''), (5 / 1000, ''0.005''), (1 / 100, ''0.01''), (5 / 100, ''0.05''), (1 / 10, ''0.1''),
      (5 / 10, ''0.5''), (1, ''1.0''), (5, ''5.0'')]"

record metrics =
  mt_class :: counter
  mt_severity :: counter
  mt_failed :: counter
  mt_buckets :: counter
  mt_count :: nat
  mt_sum :: real
  mt_max :: real
  mt_ids :: "string list"

definition metrics_new :: metrics where
  "metrics_new = \<lparr>mt_class = [], mt_severity = [], mt_failed = [], mt_buckets = [], mt_count = 0, mt_sum = 0, mt_max = 0,
     mt_ids = []\<rparr>"

definition metrics_sub :: "(nat \<Rightarrow> envelope \<Rightarrow> exn option) \<Rightarrow> string \<Rightarrow> string \<Rightarrow> subscription" where
  "metrics_sub h pattern u =
     \<lparr>sub_pattern = pattern, sub_id = u, sub_priority = 0, sub_filter = None, sub_min_severity = None, sub_handler = h\<rparr>"

definition metrics_attach ::
    "(nat \<Rightarrow> envelope \<Rightarrow> exn option) \<Rightarrow> (nat \<Rightarrow> envelope \<Rightarrow> exn option) \<Rightarrow> string \<Rightarrow> string \<Rightarrow> metrics \<Rightarrow> 'o bus \<Rightarrow>
     string list \<times> metrics \<times> 'o bus" where
  "metrics_attach on_envelope on_error u1 u2 m b =
     (case subscribe (metrics_sub on_envelope ''*'' u1) b of
        (i1, b1) \<Rightarrow>
          (case subscribe (metrics_sub on_error ''bus.subscriber_error'' u2) b1 of
             (i2, b2) \<Rightarrow> ([i1, i2], m\<lparr>mt_ids := [i1, i2]\<rparr>, b2)))"

definition metrics_detach :: "metrics \<Rightarrow> 'o bus \<Rightarrow> nat \<times> metrics \<times> 'o bus" where
  "metrics_detach m b = (case unsubscribe_all (mt_ids m) b of (n, b1) \<Rightarrow> (n, m\<lparr>mt_ids := []\<rparr>, b1))"

fun severity_name :: "severity \<Rightarrow> string" where
  "severity_name DEBUG = ''DEBUG''"
| "severity_name INFO = ''INFO''"
| "severity_name WARNING = ''WARNING''"
| "severity_name ERROR = ''ERROR''"
| "severity_name CRITICAL_SEV = ''CRITICAL''"

definition topic_class :: "string \<Rightarrow> string" where
  "topic_class t = hd (py_split (CHR ''.'') t)"

definition bucket_of :: "real \<Rightarrow> string" where
  "bucket_of latency =
     (case find (\<lambda>(bound, _). latency \<le> bound) LATENCY_BUCKETS of
        Some (_, name) \<Rightarrow> ''le_'' @ name
      | None \<Rightarrow> ''le_inf'')"

definition observe_latency :: "py_datetime \<Rightarrow> envelope \<Rightarrow> metrics \<Rightarrow> metrics" where
  "observe_latency now e m =
     (let latency = max (real_of_int (dt_instant now - dt_instant (timestamp e)) / 1000000) 0
      in m\<lparr>mt_count := Suc (mt_count m), mt_sum := mt_sum m + latency, mt_max := max (mt_max m) latency,
           mt_buckets := count_up (bucket_of latency) (mt_buckets m)\<rparr>)"

definition metrics_on_envelope :: "py_datetime \<Rightarrow> envelope \<Rightarrow> metrics \<Rightarrow> metrics" where
  "metrics_on_envelope now e m =
     (if topic e = ''bus.subscriber_error'' then m
      else observe_latency now e
             (m\<lparr>mt_class := count_up (topic_class (topic e)) (mt_class m),
                mt_severity := count_up (severity_name (severity e)) (mt_severity m)\<rparr>))"

text \<open>A payload that is no mapping, or an original topic that is no text, raises, which is only logged.\<close>

definition metrics_on_error :: "envelope \<Rightarrow> metrics \<Rightarrow> metrics" where
  "metrics_on_error e m =
     (case payload e of
        PDict d \<Rightarrow>
          (case get_or d ''original_topic'' (PStr ''unknown'') of
             PStr t \<Rightarrow> m\<lparr>mt_failed := count_up (topic_class t) (mt_failed m)\<rparr>
           | _ \<Rightarrow> m)
      | _ \<Rightarrow> m)"

definition metric_dict :: "counter \<Rightarrow> pyval" where
  "metric_dict c = PDict (map (apsnd (\<lambda>n. PInt (int n))) c)"

definition metrics_snapshot :: "metrics \<Rightarrow> pydict" where
  "metrics_snapshot m =
     [(''delivered'', metric_dict (mt_class m)), (''by_severity'', metric_dict (mt_severity m)),
      (''failed'', metric_dict (mt_failed m)),
      (''latency'', PDict [(''buckets'', metric_dict (mt_buckets m)),
        (''bucket_bounds_seconds'', PList (map (\<lambda>(x, _). PFloat x) LATENCY_BUCKETS)), (''count'', PInt (int (mt_count m))),
        (''sum_seconds'', PFloat (mt_sum m)),
        (''avg_seconds'', PFloat (if mt_count m = 0 then 0 else mt_sum m / real (mt_count m))),
        (''max_seconds'', PFloat (mt_max m))])]"

definition metrics_reset :: "metrics \<Rightarrow> metrics" where
  "metrics_reset m =
     m\<lparr>mt_class := [], mt_severity := [], mt_failed := [], mt_buckets := [], mt_count := 0, mt_sum := 0, mt_max := 0\<rparr>"

end
