(* ===== verification/SubscriberProps.thy ===== *)
theory SubscriberProps
  imports AuditTrail WebhookFacts SignatureProps Samples
begin

text \<open>
  Properties of the outbound subscribers: what a POST with retries does, that the receiver of this package
  verifies what its sender signs, the accounting of the delivery and the audit buffers, what closing the
  audit leaves unwritten, and the consistency of the metrics.
\<close>

subsection \<open>Retries\<close>

fun exchange :: "'w http_peer \<Rightarrow> string \<Rightarrow> string \<Rightarrow> headers \<Rightarrow> nat \<Rightarrow> 'w \<Rightarrow> http_reply list \<times> 'w" where
  "exchange P url body hs 0 w = ([], w)"
| "exchange P url body hs (Suc n) w =
     (case P url body hs w of (r, w1) \<Rightarrow> (case exchange P url body hs n w1 of (rs, w2) \<Rightarrow> (r # rs, w2)))"

definition transient :: "http_delivery \<Rightarrow> http_reply \<Rightarrow> bool" where
  "transient D r \<longleftrightarrow> settle D 0 r = None"

lemma transient_settle: "settle D a r = None \<longleftrightarrow> transient D r"
  by (auto simp: transient_def settle_def split: http_reply.splits if_splits)

definition slept :: "http_delivery \<Rightarrow> (nat \<Rightarrow> real) \<Rightarrow> nat \<Rightarrow> real" where
  "slept D rnd i = (if dl_jitter D then rnd i else 1) * min (dl_max D) (dl_base D * 2 ^ (i - 1))"

lemma delay_for_slept: "i \<le> 1024 \<Longrightarrow> delay_for D (rnd i) i = Inr (slept D rnd i)"
  by (simp add: delay_for_def slept_def Let_def)

definition verdict_on :: "http_delivery \<Rightarrow> nat \<Rightarrow> http_reply list \<Rightarrow> int option \<Rightarrow> string option \<Rightarrow> delivery_outcome result" where
  "verdict_on D a rs st err =
     (case settle D a (List.last rs) of
        Some out \<Rightarrow> out
      | None \<Rightarrow> Inr (gave_up D (fold note_status rs st) (fold note_error rs err)))"

lemma verdict_on_Cons: "rs \<noteq> [] \<Longrightarrow> verdict_on D n (x # rs) st err = verdict_on D n rs (note_status x st) (note_error x err)"
  by (simp add: verdict_on_def split: option.split)

lemma post_loop_exact:
  assumes "post_loop D P rnd body hs a k st err w = (r, ds, w1)" "0 < k" "a + k \<le> 1026" "0 < a"
  shows "\<exists>rs. exchange P (dl_url D) body hs (length rs) w = (rs, w1) \<and> rs \<noteq> [] \<and> length rs \<le> k \<and>
    list_all (transient D) (butlast rs) \<and> (length rs < k \<longrightarrow> \<not> transient D (List.last rs)) \<and>
    r = verdict_on D (a + length rs - 1) rs st err \<and> ds = map (slept D rnd) [a ..< a + length rs - 1]"
  using assms
proof (induction k arbitrary: a st err w r ds)
  case (Suc k)
  obtain x w2 where x: "P (dl_url D) body hs w = (x, w2)" by force
  show ?case
  proof (cases "settle D a x")
    case (Some out)
    then have "\<not> transient D x" using transient_settle[of D a x] by simp
    then show ?thesis using Some x Suc.prems(1) by (intro exI[of _ "[x]"]) (simp add: verdict_on_def)
  next
    case None
    then have t: "transient D x" using transient_settle by blast
    show ?thesis
    proof (cases "k = 0")
      case True
      then show ?thesis using None x t Suc.prems(1) by (intro exI[of _ "[x]"]) (simp add: verdict_on_def)
    next
      case False
      have d: "delay_for D (rnd a) a = Inr (slept D rnd a)" by (rule delay_for_slept) (use Suc.prems(3) False in simp)
      obtain r2 ds2 w3 where p: "post_loop D P rnd body hs (Suc a) k (note_status x st) (note_error x err) w2 = (r2, ds2, w3)"
        by (metis prod_cases3)
      have eq: "r = r2" "ds = slept D rnd a # ds2" "w1 = w3" using Suc.prems(1) x None False d p by auto
      from Suc.IH[OF p[folded eq(3)]] False Suc.prems(3) obtain rs where
        rs: "exchange P (dl_url D) body hs (length rs) w2 = (rs, w1)" "rs \<noteq> []" "length rs \<le> k"
          "list_all (transient D) (butlast rs)" "length rs < k \<longrightarrow> \<not> transient D (List.last rs)"
          "r2 = verdict_on D (Suc a + length rs - 1) rs (note_status x st) (note_error x err)"
          "ds2 = map (slept D rnd) [Suc a ..< Suc a + length rs - 1]" by auto
      have "ds = map (slept D rnd) [a ..< a + length (x # rs) - 1]"
        using eq(2) rs(7) upt_conv_Cons[of a "a + length rs"] rs(2) by simp
      then show ?thesis
        using rs x t eq(1) by (intro exI[of _ "x # rs"]) (simp add: verdict_on_Cons)
    qed
  qed
qed simp

text \<open>C21: A delivery makes its attempts one after the other, all but the last of them met with a reply worth
  retrying, and stops early exactly at one that is not; its outcome says whether the last reply was a
  success and how many attempts there were, and it slept the capped exponential, scaled by the jitter,
  between them.  With more than 1025 attempts the power can leave the range of a float.\<close>

theorem post_exact:
  assumes "post D P rnd body hs w = (r, ds, w1)" "0 < dl_max_attempts D" "dl_max_attempts D \<le> 1025"
  shows "\<exists>rs. exchange P (dl_url D) body hs (length rs) w = (rs, w1) \<and> rs \<noteq> [] \<and> length rs \<le> dl_max_attempts D \<and>
    list_all (transient D) (butlast rs) \<and> (length rs < dl_max_attempts D \<longrightarrow> \<not> transient D (List.last rs)) \<and>
    ds = map (slept D rnd) [1 ..< length rs] \<and>
    (case r of
       Inl x \<Rightarrow> List.last rs \<in> range Escaped
     | Inr out \<Rightarrow> dv_attempts out = length rs \<and> (dv_delivered out \<longleftrightarrow> (\<exists>s. List.last rs = Answered s \<and> 200 \<le> s \<and> s < 300)))"
proof -
  from post_loop_exact[OF assms(1)[unfolded post_def] assms(2)] assms(3) obtain rs where
    rs: "exchange P (dl_url D) body hs (length rs) w = (rs, w1)" "rs \<noteq> []" "length rs \<le> dl_max_attempts D"
      "list_all (transient D) (butlast rs)" "length rs < dl_max_attempts D \<longrightarrow> \<not> transient D (List.last rs)"
      "r = verdict_on D (length rs) rs None None" "ds = map (slept D rnd) [1 ..< length rs]" by auto
  have full: "length rs = dl_max_attempts D" if "transient D (List.last rs)" using rs(3,5) that by (cases "length rs < dl_max_attempts D") auto
  have "case r of
       Inl x \<Rightarrow> List.last rs \<in> range Escaped
     | Inr out \<Rightarrow> dv_attempts out = length rs \<and> (dv_delivered out \<longleftrightarrow> (\<exists>s. List.last rs = Answered s \<and> 200 \<le> s \<and> s < 300))"
  proof (cases "transient D (List.last rs)")
    case True
    then show ?thesis
      using rs(6) full[OF True] transient_settle[of D "length rs" "List.last rs"]
      by (auto simp: verdict_on_def gave_up_def transient_def settle_def split: http_reply.splits if_splits)
  next
    case False
    then show ?thesis
      using rs(6) by (auto simp: verdict_on_def transient_def settle_def split: http_reply.splits if_splits)
  qed
  with rs show ?thesis by blast
qed

definition peer_script :: "http_reply list \<Rightarrow> nat http_peer" where
  "peer_script rs url body hs n = (if n < length rs then rs ! n else Answered 200, Suc n)"

definition sample_http :: http_delivery where
  "sample_http = http_delivery_new ''http://h'' 5 3 (1/2) 30 False None"

theorem post_exact_witness:
  "post sample_http (peer_script [Answered 429, Timed_out ''t'', Answered 404]) (\<lambda>_. 1) ''b'' [] 0 =
     (Inr \<lparr>dv_delivered = False, dv_attempts = 3, dv_status = Some 404, dv_error = Some ''permanent''\<rparr>, [1/2, 1], 3) \<and>
   (\<exists>rs. exchange (peer_script [Answered 429, Timed_out ''t'', Answered 404]) ''http://h'' ''b'' [] (length rs) 0 = (rs, 3) \<and>
      length rs \<le> 3)"
proof -
  have p: "post sample_http (peer_script [Answered 429, Timed_out ''t'', Answered 404]) (\<lambda>_. 1) ''b'' [] 0 =
     (Inr \<lparr>dv_delivered = False, dv_attempts = 3, dv_status = Some 404, dv_error = Some ''permanent''\<rparr>, [1/2, 1], 3)"
    by (simp add: post_def sample_http_def http_delivery_new_def peer_script_def numeral_3_eq_3 settle_def should_retry_def
        delay_for_def Let_def)
  from post_exact[OF p] show ?thesis
    using p by (auto simp: sample_http_def http_delivery_new_def)
qed

text \<open>In the lifecycle subscriber a timeout is not retried: it leaves the loop as an exception.\<close>

theorem lifecycle_timeout_escapes:
  assumes "P url body hs w = (Timed_out t, w1)"
  shows "lw_loop url P body hs (Suc k) delay w = (Inl (OtherError ''TimeoutError''), [], w1)"
  using assms by (simp add: lw_settle_def)

subsection \<open>Signed deliveries\<close>

lemma sign_one_header: "\<exists>v. sign mac s k body now = [(scheme_header s, v)]"
  using hexs.one_header[of "(mac, _)"] stripe.one_header[of "(mac, _)"] by (cases s) (auto simp: scheme_header_def)

lemma merge_one: "merge_headers [(n, v)] hs = dict_set n v hs"
  by (simp add: merge_headers_def)

lemma read_header_own:
  assumes "dict_get hs (case ov of Some (c # cs) \<Rightarrow> c # cs | _ \<Rightarrow> own) = Some v"
  shows "read_header own hs ov = Some v"
  using assms by (simp add: read_header_def Let_def)

text \<open>C19: What the delivery subscriber builds, its signature included, the webhook receiver of this package
  verifies, whatever the payload, the extra headers and the scheme, provided that both are configured with
  the same secret, scheme and header: a delivery is admitted by an endpoint that is enabled for its address
  and takes bodies of its size.\<close>

theorem delivered_request_admitted:
  assumes "build_request J (rv_hmac V) now s e = Inr (body, hs)" "wc_secret (wd_config s) = Some (k # ks)"
    "scheme_usable (rv_hmac V) (wd_sig s)" "get_signature_scheme (ep_scheme ep) (rv_schemes V) = Inr (wd_sig s)"
    "ep_secret ep = wc_secret (wd_config s)" "ep_signature_header ep = wc_signature_header (wd_config s)"
    "wr_headers rq = hs" "read_capped (wr_length rq) (wr_chunks rq) (body_limit V ep) = Some body"
    "ep_enabled ep" "ip_allowed (rv_ip_address V) (client_ip rq (ep_trust_forwarded ep)) (ep_networks ep)"
  shows "admitted V ep rq now body"
proof -
  let ?ov = "wc_signature_header (wd_config s)" and ?own = "scheme_header (wd_sig s)"
  obtain v where v: "sign (rv_hmac V) (wd_sig s) (k # ks) body now = [(?own, v)]" using sign_one_header by blast
  let ?name = "case ?ov of Some (c # cs) \<Rightarrow> c # cs | _ \<Rightarrow> ?own"
  have "rekeyed ?ov (sign (rv_hmac V) (wd_sig s) (k # ks) body now) = Inr [(?name, v)]"
    unfolding v by (auto simp: rekeyed_def split: option.split list.split)
  then have "hs = dict_set ?name v (merge_headers (wc_headers (wd_config s)) [(''Content-Type'', ''application/json'')])"
    using assms(1,2) by (auto simp: build_request_def Let_def bind_r_Inr_iff merge_one)
  then have "read_header ?own hs ?ov = Some v" by (intro read_header_own) simp
  then have "read_header ?own hs ?ov = read_header ?own (sign (rv_hmac V) (wd_sig s) (k # ks) body now) None"
    unfolding v by simp
  then have "fst (verify (rv_hmac V) (wd_sig s) (k # ks) body hs ?ov (ep_tolerance ep) now) = OK"
    using hexs.signed_delivery_verifies[of "(rv_hmac V, _)"] stripe.signed_delivery_verifies[of "(rv_hmac V, _)"] assms(3)
    by (cases "wd_sig s") (auto simp: scheme_header_def scheme_usable_def)
  then show ?thesis using assms(2,4-10) by (simp add: admitted_def verify_signature_def)
qed

definition wd_json :: json_codec where
  "wd_json = \<lparr>dumps = (\<lambda>v. Inr ''{}''), loads = (\<lambda>t. Inr PNone)\<rparr>"

definition wd_receiver :: "nat receiver" where
  "wd_receiver = \<lparr>rv_hook_id = ''h'', rv_hook_type = ''webhook'', rv_metadata = [], rv_target_type = None, rv_target_id = None,
     rv_max_body = 8, rv_background = False, rv_dedup_ttl = 60, rv_dedup_size = 4, rv_hook_types = [''webhook''],
     rv_schemes = builtin_schemes, rv_hmac = tiny_mac, rv_utf8 = Some, rv_json = wd_json,
     rv_parse_qsl = (\<lambda>t. None), rv_ip_address = (\<lambda>t. None), rv_classify = classify_event,
     rv_normalize = (\<lambda>rq e pl et. pl), rv_build_task = (\<lambda>e et pl. None)\<rparr>"

definition wd_endpoint :: "nat endpoint" where
  "wd_endpoint = \<lparr>ep_path = ''/a'', ep_name = None, ep_enabled = True, ep_secret = Some ''k'', ep_scheme = ''stripe'',
     ep_signature_header = Some ''X-S'', ep_require_signature = True, ep_tolerance = 300, ep_allowed_ips = [], ep_networks = [],
     ep_trust_forwarded = False, ep_event_type = ''t'', ep_event_type_header = None, ep_event_type_prefix = None,
     ep_preprocessor = None, ep_preprocessor_fn = None, ep_accepts_ctx = False, ep_allow_non_json = False, ep_max_body = None,
     ep_dedup_header = None, ep_target_type = None, ep_target_id = None, ep_metadata = []\<rparr>"

definition wd_sample_config :: delivery_config where
  "wd_sample_config = \<lparr>wc_name = ''n'', wc_url = ''http://h'', wc_patterns = [''*''], wc_min_severity = INFO,
     wc_exclude_internal = True, wc_secret = Some ''k'', wc_scheme = ''stripe'', wc_signature_header = Some ''X-S'',
     wc_headers = [(''X-A'', ''1'')], wc_timeout = 5, wc_max_attempts = 3, wc_base = 1, wc_max = 30, wc_jitter = False,
     wc_retry = [429], wc_queue_size = 2, wc_concurrency = 1, wc_transform = None, wc_transform_fn = None,
     wc_emit_failure = True\<rparr>"

definition wd_sample :: delivery_sub where
  "wd_sample = projr (delivery_sub_new builtin_schemes wd_sample_config)"

lemma stripe_registered: "get_signature_scheme ''stripe'' builtin_schemes = Inr (Stripe default_stripe)"
  by (simp add: get_signature_scheme_def builtin_schemes_def register_signature_scheme_def github_scheme_def jira_scheme_def
      generic_scheme_def default_stripe_def)

lemma wd_sample_eq: "wd_sig wd_sample = Stripe default_stripe" "wd_config wd_sample = wd_sample_config"
  by (simp_all add: wd_sample_def delivery_sub_new_def stripe_registered wd_sample_config_def)

theorem delivered_request_admitted_witness:
  "\<exists>body hs. build_request wd_json tiny_mac 7 wd_sample (sample_event ''i'' ''t'' NORMAL) = Inr (body, hs) \<and>
     (\<forall>rq. wr_headers rq = hs \<and> wr_length rq = None \<and> wr_chunks rq = [body] \<longrightarrow> admitted wd_receiver wd_endpoint rq 7 body)"
proof -
  obtain hs where b: "build_request wd_json tiny_mac 7 wd_sample (sample_event ''i'' ''t'' NORMAL) = Inr (''{}'', hs)"
    by (simp add: build_request_def Let_def wd_sample_eq wd_sample_config_def wd_json_def rekeyed_def stripe_sign_def)
  have "admitted wd_receiver wd_endpoint rq 7 ''{}''" if "wr_headers rq = hs" "wr_length rq = None" "wr_chunks rq = [''{}'']" for rq
    by (rule delivered_request_admitted[where J = wd_json and s = wd_sample and e = "sample_event ''i'' ''t'' NORMAL" and hs = hs and k = "CHR ''k''" and ks = "[]"])
      (use b that in \<open>simp_all add: wd_receiver_def wd_endpoint_def wd_sample_eq wd_sample_config_def stripe_registered
        scheme_usable_def stripe_usable_def tiny_mac_ok read_capped_def body_limit_def ip_allowed_def\<close>)
  with b show ?thesis by blast
qed

subsection \<open>The buffers\<close>

interpretation outbound: lossy_buffer wd_on_envelope wd_queue wd_dropped "\<lambda>s. nat (wc_queue_size (wd_config s))" "\<lambda>e. e"
    "\<lambda>s e. \<not> wd_closed s"
  by unfold_locales
    (auto simp: wd_on_envelope_def wd_put_def wd_drop_oldest_def Let_def split: option.splits list.splits if_splits)

interpretation audit: lossy_buffer "audit_on_envelope J" au_buffer au_dropped "\<lambda>s. nat (au_size s)" "\<lambda>e. projr (row_for J e)"
    "\<lambda>s e. audited s e \<and> \<not> isl (row_for J e)" for J
proof (unfold_locales, goal_cases)
  case (1 s e)
  then show ?case by (cases "row_for J e") (auto simp: audit_on_envelope_def Let_def)
next
  case (2 s e)
  then show ?case by (cases "row_for J e") (auto simp: audit_on_envelope_def Let_def)
next
  case (3 e s)
  then show ?case by (cases "row_for J e") (auto simp: audit_on_envelope_def Let_def)
next
  case (4 e s e')
  have "au_internal (audit_on_envelope J e s) = au_internal s"
    by (cases "row_for J e") (auto simp: audit_on_envelope_def Let_def)
  then show ?case by (simp add: audited_def)
qed

text \<open>Without a delivery in between, a buffer that takes a series of envelopes ends up with the newest of what
  it held and took, as many as fit and in order, and has counted exactly the rest as dropped; the bus is
  never held up.\<close>

theorem outbound_buffer_newest:
  assumes "\<not> wd_closed s" "0 < wc_queue_size (wd_config s)" "int (length (wd_queue s)) \<le> wc_queue_size (wd_config s)"
  shows "wd_queue (fold wd_on_envelope es s) = drop (length (wd_queue s) + length es - nat (wc_queue_size (wd_config s))) (wd_queue s @ es) \<and>
    wd_dropped (fold wd_on_envelope es s) = wd_dropped s + (length (wd_queue s) + length es - nat (wc_queue_size (wd_config s)))"
  using outbound.newest_kept[of s es] assms by (simp add: list_all_iff)

theorem audit_buffer_newest:
  assumes "list_all (\<lambda>e. audited s e \<and> \<not> isl (row_for J e)) es" "0 < au_size s" "int (length (au_buffer s)) \<le> au_size s"
  shows "au_buffer (fold (audit_on_envelope J) es s) =
      drop (length (au_buffer s) + length es - nat (au_size s)) (au_buffer s @ map (\<lambda>e. projr (row_for J e)) es) \<and>
    au_dropped (fold (audit_on_envelope J) es s) = au_dropped s + (length (au_buffer s) + length es - nat (au_size s))"
  using audit.newest_kept[of s J es] assms by simp

subsection \<open>Accounting of the deliveries\<close>

text \<open>What happened to the envelopes besides the counters: taken, lost to an exception, cancelled on closing.\<close>

record ledger =
  lg_taken :: nat
  lg_raised :: nat
  lg_cancelled :: nat

inductive delivery_run ::
    "json_codec \<Rightarrow> hmac \<Rightarrow> 'w http_peer \<Rightarrow> delivery_sub \<Rightarrow> delivery_sub \<Rightarrow> ledger \<Rightarrow> bool" for J mac P s0 where
  dr_new: "delivery_run J mac P s0 s0 \<lparr>lg_taken = 0, lg_raised = 0, lg_cancelled = 0\<rparr>"
| dr_envelope: "delivery_run J mac P s0 s l \<Longrightarrow>
    delivery_run J mac P s0 (wd_on_envelope e s) (if wd_closed s then l else l\<lparr>lg_taken := Suc (lg_taken l)\<rparr>)"
| dr_take: "delivery_run J mac P s0 s l \<Longrightarrow> wd_take s = Some s1 \<Longrightarrow> delivery_run J mac P s0 s1 l"
| dr_work: "delivery_run J mac P s0 s l \<Longrightarrow> e \<in> set (wd_busy s) \<Longrightarrow> wd_work J mac P rnd now u wall e s w = (r, f, s1, w1) \<Longrightarrow>
    delivery_run J mac P s0 s1 (if isl r then l\<lparr>lg_raised := Suc (lg_raised l)\<rparr> else l)"
| dr_attach: "delivery_run J mac P s0 s l \<Longrightarrow> wd_attach h G s (b :: unit bus) = (ids, s1, b1) \<Longrightarrow> delivery_run J mac P s0 s1 l"
| dr_detach: "delivery_run J mac P s0 s l \<Longrightarrow> wd_detach s (b :: unit bus) = (n, s1, b1) \<Longrightarrow> delivery_run J mac P s0 s1 l"
| dr_close: "delivery_run J mac P s0 s l \<Longrightarrow> delivery_run J mac P s0 (wd_close_begin s) l"
| dr_closed: "delivery_run J mac P s0 s l \<Longrightarrow>
    delivery_run J mac P s0 (wd_close_end s) (l\<lparr>lg_cancelled := lg_cancelled l + length (wd_busy s)\<rparr>)"

definition accounted :: "delivery_sub \<Rightarrow> ledger \<Rightarrow> bool" where
  "accounted s l \<longleftrightarrow>
     lg_taken l = length (wd_queue s) + length (wd_busy s) + wd_delivered s + wd_failed s + wd_dropped s + lg_raised l + lg_cancelled l \<and>
     wd_unfinished s = length (wd_queue s) + length (wd_busy s) \<and>
     int (length (wd_queue s)) \<le> wc_queue_size (wd_config s) \<and> length (wd_busy s) \<le> wd_workers s \<and> 0 < wc_queue_size (wd_config s)"

lemma work_effect:
  assumes "wd_work J mac P rnd now u wall e s w = (r, f, s1, w1)"
  shows "wd_queue s1 = wd_queue s \<and> wd_busy s1 = remove1 e (wd_busy s) \<and> wd_unfinished s1 = wd_unfinished s - 1 \<and>
    wd_dropped s1 = wd_dropped s \<and> wd_config s1 = wd_config s \<and> wd_workers s1 = wd_workers s \<and>
    wd_delivered s1 + wd_failed s1 = wd_delivered s + wd_failed s + (if isl r then 0 else 1)"
  using assms
  by (auto simp: wd_work_def wd_deliver_def wd_done_def Let_def split: sum.splits prod.splits if_splits)

text \<open>C22: Whatever envelopes arrive, workers do, attach and close: every envelope taken is waiting, in the hands of
  a worker, delivered, failed, dropped, lost to an exception or cancelled, and is counted once; the buffer is
  never over its size; and what closing waits for is exactly what is waiting or in the hands of a worker.\<close>

theorem deliveries_accounted:
  assumes "delivery_sub_new schemes c = Inr s0" "0 < wc_queue_size c" "delivery_run J mac P s0 s l"
  shows "lg_taken l = length (wd_queue s) + length (wd_busy s) + wd_delivered s + wd_failed s + wd_dropped s + lg_raised l + lg_cancelled l \<and>
    wd_unfinished s = length (wd_queue s) + length (wd_busy s) \<and> int (length (wd_queue s)) \<le> wc_queue_size c \<and>
    length (wd_busy s) \<le> wd_workers s"
proof -
  have "accounted s l \<and> wd_config s = c"
    using assms(3)
  proof (induction rule: delivery_run.induct)
    case dr_new
    then show ?case using assms(1,2) by (auto simp: delivery_sub_new_def accounted_def bind_r_Inr_iff)
  next
    case (dr_envelope s l e)
    then show ?case
      by (auto simp: accounted_def wd_on_envelope_def wd_put_def wd_drop_oldest_def Let_def split: option.splits list.splits if_splits)
  next
    case (dr_take s l s1)
    then show ?case by (auto simp: accounted_def wd_take_def split: list.splits if_splits)
  next
    case (dr_work s l e rnd now u wall w r f s1 w1)
    obtain n where "length (wd_busy s) = Suc n" using dr_work.hyps(2) by (cases "wd_busy s") auto
    then show ?case using dr_work work_effect[OF dr_work.hyps(3)] by (auto simp: accounted_def length_remove1)
  next
    case (dr_attach s l h G b ids s1 b1)
    then show ?case by (auto simp: accounted_def wd_attach_def split: prod.splits)
  next
    case (dr_detach s l b n s1 b1)
    then show ?case by (auto simp: accounted_def wd_detach_def split: prod.splits)
  qed (auto simp: accounted_def wd_close_begin_def wd_close_end_def)
  then show ?thesis by (auto simp: accounted_def)
qed

theorem deliveries_accounted_witness:
  "\<exists>s l. delivery_run wd_json tiny_mac (peer_script []) wd_sample s l \<and> lg_taken l = 3 \<and> wd_dropped s = 1 \<and> wd_unfinished s = 2"
proof -
  let ?e = "\<lambda>i. sample_event i ''t'' NORMAL"
  let ?s = "wd_on_envelope (?e ''3'') (wd_on_envelope (?e ''2'') (wd_on_envelope (?e ''1'') wd_sample))"
  have new: "delivery_sub_new builtin_schemes wd_sample_config = Inr wd_sample"
    by (simp add: wd_sample_def delivery_sub_new_def stripe_registered wd_sample_config_def)
  have start: "\<not> wd_closed wd_sample" "wd_queue wd_sample = []" "wd_dropped wd_sample = 0" "wd_busy wd_sample = []"
    by (simp_all add: wd_sample_def delivery_sub_new_def stripe_registered wd_sample_config_def)
  have still: "wd_closed (wd_on_envelope e s) = wd_closed s" "wd_busy (wd_on_envelope e s) = wd_busy s" for e s
    by (auto simp: wd_on_envelope_def wd_put_def wd_drop_oldest_def Let_def split: option.splits list.splits if_splits)
  have run: "delivery_run wd_json tiny_mac (peer_script []) wd_sample ?s \<lparr>lg_taken = 3, lg_raised = 0, lg_cancelled = 0\<rparr>"
    using dr_envelope[OF dr_envelope[OF dr_envelope[OF dr_new]], of wd_json tiny_mac "peer_script []" wd_sample "?e ''3''" "?e ''2''" "?e ''1''"]
    by (simp add: still start numeral_3_eq_3)
  have q: "wd_queue ?s = [?e ''2'', ?e ''3''] \<and> wd_dropped ?s = 1"
    using outbound_buffer_newest[of wd_sample "[?e ''1'', ?e ''2'', ?e ''3'']"] start by (simp add: wd_sample_eq wd_sample_config_def)
  from deliveries_accounted[OF new _ run] q show ?thesis
    using run by (intro exI[of _ ?s] exI[of _ "\<lparr>lg_taken = 3, lg_raised = 0, lg_cancelled = 0\<rparr>"]) (simp add: still start wd_sample_config_def)
qed

subsection \<open>Accounting of the audit\<close>

text \<open>What became of the envelopes to audit besides the counters.\<close>

record audit_ledger =
  ag_seen :: nat
  ag_unreadable :: nat
  ag_lost :: nat

definition unreadable :: "json_codec \<Rightarrow> audit_sub \<Rightarrow> envelope \<Rightarrow> bool" where
  "unreadable J s e \<longleftrightarrow> isl (row_for J e) \<or> au_size s \<le> int (length (au_buffer s)) \<and> au_buffer s = []"

definition in_writing :: "audit_sub \<Rightarrow> audit_row list" where
  "in_writing s = (case au_flusher s of Writing rows \<Rightarrow> rows | _ \<Rightarrow> [])"

inductive audit_run :: "json_codec \<Rightarrow> 'd audit_db \<Rightarrow> audit_sub \<Rightarrow> audit_sub \<Rightarrow> audit_ledger \<Rightarrow> bool" for J D s0 where
  ag_new: "audit_run J D s0 s0 \<lparr>ag_seen = 0, ag_unreadable = 0, ag_lost = 0\<rparr>"
| ag_envelope: "audit_run J D s0 s l \<Longrightarrow> audited s e \<Longrightarrow>
    audit_run J D s0 (audit_on_envelope J e s)
      (l\<lparr>ag_seen := Suc (ag_seen l), ag_unreadable := ag_unreadable l + of_bool (unreadable J s e)\<rparr>)"
| ag_attach: "audit_run J D s0 s l \<Longrightarrow> audit_attach h u s (b :: unit bus) = (r, s1, b1) \<Longrightarrow> audit_run J D s0 s1 l"
| ag_start: "audit_run J D s0 s l \<Longrightarrow> au_flusher s = Created \<Longrightarrow> audit_run J D s0 (flusher_next s) l"
| ag_wake: "audit_run J D s0 s l \<Longrightarrow> au_flusher s = Waiting \<Longrightarrow> audit_run J D s0 (flusher_wakes s) l"
| ag_write: "audit_run J D s0 s l \<Longrightarrow> au_flusher s = Writing rows \<Longrightarrow> write_rows D rows s d = (ok, s1, d1) \<Longrightarrow>
    flusher_writes D s d = (s2, d2) \<Longrightarrow> audit_run J D s0 s2 (if ok then l else l\<lparr>ag_lost := ag_lost l + length rows\<rparr>)"

definition audit_accounted :: "audit_sub \<Rightarrow> audit_ledger \<Rightarrow> bool" where
  "audit_accounted s l \<longleftrightarrow>
     ag_seen l = au_persisted s + au_dropped s + ag_lost l + ag_unreadable l + length (au_buffer s) + length (in_writing s) \<and>
     length (au_buffer s) \<le> nat (au_size s)"

lemma write_rows_frame:
  "write_rows D rows s d = (ok, s1, d1) \<Longrightarrow>
     au_buffer s1 = au_buffer s \<and> au_persisted s1 = au_persisted s \<and> au_dropped s1 = au_dropped s \<and> au_size s1 = au_size s \<and>
     au_batch s1 = au_batch s \<and> au_flusher s1 = au_flusher s \<and> au_running s1 = au_running s \<and> au_dsn s1 = au_dsn s"
  by (auto simp: write_rows_def ensure_table_def split: if_splits prod.splits bool.splits)

text \<open>Every envelope that is to be audited ends in exactly one place: persisted, dropped for a newer one, lost
  with a failed flush, without a row, buffered, or in the batch being written; and the buffer is never over
  its size.\<close>

theorem audit_rows_accounted:
  assumes "audit_run J D (audit_new nav dsn driver pattern inc batch itv cap) s l"
  shows "ag_seen l = au_persisted s + au_dropped s + ag_lost l + ag_unreadable l + length (au_buffer s) + length (in_writing s) \<and>
    length (au_buffer s) \<le> nat cap"
proof -
  have "audit_accounted s l \<and> au_size s = cap"
    using assms
  proof (induction rule: audit_run.induct)
    case ag_new
    then show ?case by (simp add: audit_accounted_def audit_new_def in_writing_def)
  next
    case (ag_envelope s l e)
    show ?case
    proof (cases "row_for J e")
      case (Inl x)
      then show ?thesis
        using ag_envelope by (cases "au_buffer s") (auto simp: audit_accounted_def audit_on_envelope_def unreadable_def in_writing_def Let_def)
    next
      case (Inr row)
      then show ?thesis
        using ag_envelope by (cases "au_buffer s") (auto simp: audit_accounted_def audit_on_envelope_def unreadable_def in_writing_def Let_def)
    qed
  next
    case (ag_attach s l h u b r s1 b1)
    then show ?case by (auto simp: audit_accounted_def audit_attach_def in_writing_def subscribe_def split: if_splits prod.splits)
  next
    case (ag_start s l)
    then show ?case by (auto simp: audit_accounted_def flusher_next_def in_writing_def)
  next
    case (ag_wake s l)
    then show ?case
      by (auto simp: audit_accounted_def flusher_wakes_def flusher_next_def flush_begin_def in_writing_def Let_def split: option.splits if_splits)
  next
    case (ag_write s l rows d ok s1 d1 s2 d2)
    then show ?case
      using write_rows_frame[OF ag_write.hyps(3)]
      by (auto simp: audit_accounted_def flusher_writes_def flush_end_def flusher_next_def in_writing_def Let_def split: if_splits)
  qed
  then show ?thesis by (auto simp: audit_accounted_def)
qed

text \<open>Closing writes at most two more batches: whatever is buffered beyond them is neither written nor counted,
  although the rest of the buffer is promised.\<close>

theorem audit_close_leaves_rows:
  assumes "au_flusher s = Waiting" "enabled_dsn s" "audit_close D s d = (s1, d1)"
  shows "au_buffer s1 = drop (2 * au_batch s) (au_buffer s) \<and> au_dropped s1 = au_dropped s \<and>
    au_persisted s1 \<le> au_persisted s + length (take (2 * au_batch s) (au_buffer s))"
proof -
  have fl: "au_buffer t1 = drop (au_batch t) (au_buffer t) \<and> au_dropped t1 = au_dropped t \<and> au_batch t1 = au_batch t \<and>
      au_dsn t1 = au_dsn t \<and> au_persisted t1 \<le> au_persisted t + length (take (au_batch t) (au_buffer t))"
    if "flush D t e = (t1, e1)" "enabled_dsn t" for t t1 e e1
    using that by (auto simp: flush_def flush_begin_def flush_end_def Let_def split: if_splits prod.splits dest!: write_rows_frame)
  let ?s = "s\<lparr>au_running := False, au_wakeup := True\<rparr>"
  obtain s2 d2 where w: "flusher_writes D (flusher_wakes ?s) d = (s2, d2)" by force
  have s2: "au_buffer s2 = drop (au_batch s) (au_buffer s) \<and> au_dropped s2 = au_dropped s \<and> au_batch s2 = au_batch s \<and>
      au_dsn s2 = au_dsn s \<and> au_persisted s2 \<le> au_persisted s + length (take (au_batch s) (au_buffer s))"
    using w assms(1,2) by (auto simp: flusher_wakes_def flusher_writes_def flush_begin_def flush_end_def flusher_next_def enabled_dsn_def
        Let_def split: if_splits prod.splits dest!: write_rows_frame)
  have "flush D (s2\<lparr>au_flusher := No_task\<rparr>) d2 = (s1, d1)" using assms(1,3) w by (simp add: audit_close_def Let_def)
  from fl[OF this] s2 assms(2) have f: "au_buffer s1 = drop (au_batch s) (drop (au_batch s) (au_buffer s))"
    "au_dropped s1 = au_dropped s" "au_persisted s1 \<le> au_persisted s2 + length (take (au_batch s) (drop (au_batch s) (au_buffer s)))"
    by (simp_all add: enabled_dsn_def)
  have "length (take (au_batch s) (au_buffer s)) + length (take (au_batch s) (drop (au_batch s) (au_buffer s)))
      = length (take (2 * au_batch s) (au_buffer s))" by (simp only: length_take length_drop)
  then have "au_persisted s1 \<le> au_persisted s + length (take (2 * au_batch s) (au_buffer s))" using f(3) s2 by linarith
  with f show ?thesis by (simp add: mult_2)
qed

definition audit_json :: json_codec where
  "audit_json = \<lparr>dumps = (\<lambda>v. Inr ''{}''), loads = (\<lambda>t. Inr PNone)\<rparr>"

definition sample_audit :: audit_sub where
  "sample_audit = (audit_new (\<lambda>_. None) (Some ''d'') ''pg'' ''*'' False 1 1 5)"

definition sample_table :: "nat audit_db" where
  "sample_table = \<lparr>ad_connect = (\<lambda>d. (True, d)), ad_ddl = (\<lambda>d. (True, d)), ad_insert = (\<lambda>r d. (True, Suc d))\<rparr>"

lemma audit_fold_frame:
  "au_batch (fold (audit_on_envelope J) es s) = au_batch s \<and> au_dsn (fold (audit_on_envelope J) es s) = au_dsn s"
proof (induction es arbitrary: s)
  case (Cons e es)
  have "au_batch (audit_on_envelope J e s) = au_batch s \<and> au_dsn (audit_on_envelope J e s) = au_dsn s"
    by (cases "row_for J e") (auto simp: audit_on_envelope_def Let_def)
  then show ?case using Cons by simp
qed simp

theorem audit_close_leaves_rows_witness:
  "length (au_buffer (fst (audit_close sample_table
     ((fold (audit_on_envelope audit_json) (replicate 4 (sample_event ''i'' ''t'' NORMAL)) sample_audit)\<lparr>au_flusher := Waiting\<rparr>) 0))) = 2"
proof -
  let ?s = "fold (audit_on_envelope audit_json) (replicate 4 (sample_event ''i'' ''t'' NORMAL)) sample_audit"
  have "\<not> isl (row_for audit_json (sample_event ''i'' ''t'' NORMAL))"
    by (simp add: row_for_def audit_json_def sample_event_def)
  then have "length (au_buffer ?s) = 4"
    using audit_buffer_newest[of sample_audit audit_json "replicate 4 (sample_event ''i'' ''t'' NORMAL)"]
    by (simp add: list_all_iff audited_def sample_audit_def audit_new_def)
  then have b: "length (au_buffer ?s) = 4 \<and> au_batch ?s = 1 \<and> enabled_dsn ?s"
    using audit_fold_frame[of audit_json "replicate 4 (sample_event ''i'' ''t'' NORMAL)" sample_audit]
    by (simp add: enabled_dsn_def sample_audit_def audit_new_def)
  let ?c = "audit_close sample_table (?s\<lparr>au_flusher := Waiting\<rparr>) 0"
  have "?c = (fst ?c, snd ?c)" by simp
  from audit_close_leaves_rows[OF _ _ this] b show ?thesis by (simp add: enabled_dsn_def)
qed

lemma audit_run_two:
  assumes "row_for audit_json e = Inr row" "\<not> py_startswith (topic e) ''bus.''"
  shows "audit_run audit_json sample_table sample_audit (audit_on_envelope audit_json e sample_audit)
    \<lparr>ag_seen = 1, ag_unreadable = 0, ag_lost = 0\<rparr>"
  using ag_envelope[OF ag_new, of sample_audit e audit_json sample_table] assms
  by (simp add: audited_def unreadable_def sample_audit_def audit_new_def)

theorem audit_rows_accounted_witness:
  "audit_run audit_json sample_table sample_audit (audit_on_envelope audit_json (sample_event ''i'' ''t'' NORMAL) sample_audit)
     \<lparr>ag_seen = 1, ag_unreadable = 0, ag_lost = 0\<rparr> \<and>
   length (au_buffer (audit_on_envelope audit_json (sample_event ''i'' ''t'' NORMAL) sample_audit)) \<le> 5"
proof -
  obtain row where "row_for audit_json (sample_event ''i'' ''t'' NORMAL) = Inr row"
    by (simp add: row_for_def audit_json_def sample_event_def)
  then have r: "audit_run audit_json sample_table sample_audit
     (audit_on_envelope audit_json (sample_event ''i'' ''t'' NORMAL) sample_audit) \<lparr>ag_seen = 1, ag_unreadable = 0, ag_lost = 0\<rparr>"
    by (rule audit_run_two) simp
  from audit_rows_accounted[OF r[unfolded sample_audit_def]] r show ?thesis by (simp add: sample_audit_def)
qed

subsection \<open>Metrics\<close>

definition total :: "counter \<Rightarrow> nat" where
  "total c = sum_list (map snd c)"

lemma total_count_up: "total (count_up k c) = Suc (total c)"
  unfolding total_def count_up_def
proof (induction c)
  case (Cons p c)
  obtain a n where p: "p = (a, n)" by force
  show ?case
  proof (cases "a = k")
    case False
    then show ?thesis using Cons p by (simp split: option.splits)
  qed (simp add: p)
qed simp

fun observe :: "py_datetime \<times> envelope \<Rightarrow> metrics \<Rightarrow> metrics" where
  "observe (now, e) m = (if topic e = ''bus.subscriber_error'' then metrics_on_error e (metrics_on_envelope now e m)
                         else metrics_on_envelope now e m)"

text \<open>After any envelopes, in any order and with any clock, the counts by topic class and by severity, the
  histogram and the number of latencies agree: each counts every envelope but the failure events once; the
  sum of the latencies is between 0 and their number times the greatest, so the average is a latency
  between 0 and the maximum.\<close>

theorem metrics_consistent:
  shows "total (mt_class (fold observe ds metrics_new)) = length (filter (\<lambda>(_, e). topic e \<noteq> ''bus.subscriber_error'') ds) \<and>
    total (mt_severity (fold observe ds metrics_new)) = total (mt_class (fold observe ds metrics_new)) \<and>
    total (mt_buckets (fold observe ds metrics_new)) = total (mt_class (fold observe ds metrics_new)) \<and>
    mt_count (fold observe ds metrics_new) = total (mt_class (fold observe ds metrics_new)) \<and>
    0 \<le> mt_sum (fold observe ds metrics_new) \<and>
    mt_sum (fold observe ds metrics_new) \<le> real (mt_count (fold observe ds metrics_new)) * mt_max (fold observe ds metrics_new)"
proof (induction ds rule: rev_induct)
  case Nil
  then show ?case by (simp add: metrics_new_def total_def)
next
  case (snoc d ds)
  obtain now e where d: "d = (now, e)" by force
  define m where "m = fold observe ds metrics_new"
  define n where "n = length (filter (\<lambda>(_, e). topic e \<noteq> ''bus.subscriber_error'') ds)"
  have IH: "total (mt_class m) = n" "total (mt_severity m) = n" "total (mt_buckets m) = n" "mt_count m = n" "0 \<le> mt_sum m"
    "mt_sum m \<le> real n * mt_max m"
    using snoc unfolding m_def n_def by auto
  show ?case
  proof (cases "topic e = ''bus.subscriber_error''")
    case True
    have "observe d m = metrics_on_error e m" using True d by (simp add: metrics_on_envelope_def)
    moreover have "mt_class (metrics_on_error e m) = mt_class m" "mt_severity (metrics_on_error e m) = mt_severity m"
      "mt_buckets (metrics_on_error e m) = mt_buckets m" "mt_count (metrics_on_error e m) = mt_count m"
      "mt_sum (metrics_on_error e m) = mt_sum m" "mt_max (metrics_on_error e m) = mt_max m"
      by (auto simp: metrics_on_error_def split: pyval.splits)
    ultimately show ?thesis using IH True d by (simp add: m_def[symmetric] n_def[symmetric])
  next
    case False
    define x where "x = max (real_of_int (dt_instant now - dt_instant (timestamp e)) / 1000000) 0"
    have o: "observe d m = observe_latency now e (m\<lparr>mt_class := count_up (topic_class (topic e)) (mt_class m),
        mt_severity := count_up (severity_name (severity e)) (mt_severity m)\<rparr>)"
      using False d by (simp add: metrics_on_envelope_def)
    have "real n * mt_max m \<le> real n * max (mt_max m) x" by (simp add: mult_left_mono)
    then have bound: "mt_sum m + x \<le> real (Suc n) * max (mt_max m) x" using IH(6) by (simp add: algebra_simps)
    have pos: "0 \<le> mt_sum m + x" using IH(5) by (simp add: x_def)
    have obs: "mt_class (observe d m) = count_up (topic_class (topic e)) (mt_class m)"
      "mt_severity (observe d m) = count_up (severity_name (severity e)) (mt_severity m)"
      "mt_buckets (observe d m) = count_up (bucket_of x) (mt_buckets m)" "mt_count (observe d m) = Suc (mt_count m)"
      "mt_sum (observe d m) = mt_sum m + x" "mt_max (observe d m) = max (mt_max m) x"
      unfolding o by (simp_all add: observe_latency_def Let_def x_def)
    have f: "fold observe (ds @ [d]) metrics_new = observe d m" by (simp add: m_def)
    show ?thesis
      unfolding f obs using IH bound pos False d by (simp add: total_count_up n_def[symmetric])
  qed
qed

end
