(* ===== verification/Alerts.thy ===== *)
theory Alerts
  imports AuditTrail
begin

text \<open>
  The alerting subscriber of subscribers/notification.py: threshold and sliding-window rules,
  deduplication, the throttle of a channel with its digest, and the storm guard.  \<open>clk n\<close> is the n-th
  reading of the event loop's clock; what a step did beyond its state is a list of effects.
\<close>

subsection \<open>Rules and configuration\<close>

datatype recipients = One string | Many "string list"

record alert_rule =
  ar_id :: string
  ar_pattern :: string
  ar_min :: severity
  ar_window :: "real option"
  ar_count :: "int option"
  ar_provider :: string
  ar_recipients :: recipients
  ar_subject :: "string option"

definition is_window_rule :: "alert_rule \<Rightarrow> bool" where
  "is_window_rule r \<longleftrightarrow> ar_window r \<noteq> None \<and> ar_count r \<noteq> None"

record alerts_config =
  ac_dedup :: real
  ac_max :: int
  ac_window :: real
  ac_storm :: int
  ac_storm_window :: real
  ac_internal :: bool
  ac_rules :: "alert_rule list"

definition alerts_config_new :: alerts_config where
  "alerts_config_new = \<lparr>ac_dedup = 300, ac_max = 10, ac_window = 60, ac_storm = 25, ac_storm_window = 30, ac_internal = False,
     ac_rules = []\<rparr>"

text \<open>A value that cannot be cast keeps the standard one; \<open>pf\<close> is Python's \<open>float\<close> on a string.\<close>

definition knob :: "(string \<Rightarrow> string option) \<Rightarrow> string \<Rightarrow> 'a \<Rightarrow> (string \<Rightarrow> 'a option) \<Rightarrow> 'a" where
  "knob nav key fallback cast_to =
     (case nav key of
        None \<Rightarrow> fallback
      | Some v \<Rightarrow> (case cast_to v of None \<Rightarrow> fallback | Some x \<Rightarrow> x))"

definition alerts_from_navconfig :: "(string \<Rightarrow> real option) \<Rightarrow> (string \<Rightarrow> string option) \<Rightarrow> alerts_config" where
  "alerts_from_navconfig pf nav =
     \<lparr>ac_dedup = knob nav ''BUS_ALERTS_DEDUP_WINDOW'' 300 pf, ac_max = knob nav ''BUS_ALERTS_CHANNEL_THROTTLE'' 10 (py_int 10),
      ac_window = knob nav ''BUS_ALERTS_THROTTLE_WINDOW'' 60 pf, ac_storm = knob nav ''BUS_ALERTS_STORM_THRESHOLD'' 25 (py_int 10),
      ac_storm_window = knob nav ''BUS_ALERTS_STORM_WINDOW'' 30 pf, ac_internal = False, ac_rules = []\<rparr>"

subsection \<open>State\<close>

text \<open>The digest task of a channel: asleep until a time, or delivering.\<close>

datatype digest = Sleeping real recipients | Sending

record notifier =
  nt_config :: alerts_config
  nt_rules :: "alert_rule list"
  nt_times :: "(string \<times> real list) list"
  nt_dedup :: "((string \<times> string) \<times> (real \<times> nat)) list"
  nt_sent :: "(string \<times> real list) list"
  nt_overflow :: "(string \<times> string list) list"
  nt_digests :: "(string \<times> digest) list"
  nt_errors :: "real list"
  nt_storm :: bool
  nt_sub_id :: "string option"
  nt_reads :: nat

record alert =
  al_provider :: string
  al_recipients :: recipients
  al_subject :: string
  al_message :: string

text \<open>
  A deduplication window was opened for a rule and topic class; a delivery task was created (under the
  throttle or past it); an alert was folded into the digest of its channel.
\<close>

datatype alert_effect =
    Opened "string \<times> string" real
  | Sent bool real alert
  | Folded string string

definition notifier_new :: "alert_rule list option \<Rightarrow> alerts_config option \<Rightarrow> notifier" where
  "notifier_new rules config =
     (let c = (case config of None \<Rightarrow> alerts_config_new | Some c \<Rightarrow> c);
          rs = ac_rules c @ (case rules of None \<Rightarrow> [] | Some rs \<Rightarrow> rs)
      in \<lparr>nt_config = c, nt_rules = rs, nt_times = fold (\<lambda>r. dict_set (ar_id r) []) rs [], nt_dedup = [], nt_sent = [],
          nt_overflow = [], nt_digests = [], nt_errors = [], nt_storm = False, nt_sub_id = None, nt_reads = 0\<rparr>)"

text \<open>One subscription for everything, floored at the lowest severity of the rules.\<close>

definition notifier_attach ::
    "(nat \<Rightarrow> envelope \<Rightarrow> exn option) \<Rightarrow> string \<Rightarrow> notifier \<Rightarrow> 'o bus \<Rightarrow> string option \<times> notifier \<times> 'o bus" where
  "notifier_attach h u s b =
     (case map ar_min (nt_rules s) of
        [] \<Rightarrow> (None, s, b)
      | m # ms \<Rightarrow>
          (case subscribe \<lparr>sub_pattern = ''*'', sub_id = u, sub_priority = 0, sub_filter = None,
                           sub_min_severity = Some (fold min ms m), sub_handler = h\<rparr> b of
             (i, b1) \<Rightarrow> (Some i, s\<lparr>nt_sub_id := Some i\<rparr>, b1)))"

definition notifier_detach :: "notifier \<Rightarrow> 'o bus \<Rightarrow> bool \<times> notifier \<times> 'o bus" where
  "notifier_detach s b =
     (case nt_sub_id s of
        None \<Rightarrow> (False, s, b)
      | Some i \<Rightarrow> (case unsubscribe i b of (r, b1) \<Rightarrow> (r, s\<lparr>nt_sub_id := None\<rparr>, b1)))"

subsection \<open>Delivery\<close>

text \<open>\<open>{x:.0f}\<close>: to the nearest integer, ties to the even one.\<close>

definition round_even :: "real \<Rightarrow> int" where
  "round_even x =
     (let f = \<lfloor>x\<rfloor>; d = x - real_of_int f
      in if d < 1 / 2 then f else if d > 1 / 2 then f + 1 else if even f then f else f + 1)"

definition format_0f :: "real \<Rightarrow> string" where
  "format_0f x = (if x < 0 \<and> round_even x = 0 then ''-0'' else int_str (round_even x))"

text \<open>What is older than the window is dropped from the left.\<close>

definition prune_times :: "real \<Rightarrow> real \<Rightarrow> real list \<Rightarrow> real list" where
  "prune_times now window ts = dropWhile (\<lambda>t. t < now - window) ts"

definition list_of :: "(string \<times> 'a list) list \<Rightarrow> string \<Rightarrow> 'a list" where
  "list_of d k = (case dict_get d k of None \<Rightarrow> [] | Some xs \<Rightarrow> xs)"

definition read_clock :: "(nat \<Rightarrow> real) \<Rightarrow> notifier \<Rightarrow> real \<times> notifier" where
  "read_clock clk s = (clk (nt_reads s), s\<lparr>nt_reads := Suc (nt_reads s)\<rparr>)"

text \<open>
  The throttle of the channel.  The answer is whether it returned: with nothing sent and no room at all,
  the first digest finds no oldest time and raises.
\<close>

definition schedule_delivery :: "(nat \<Rightarrow> real) \<Rightarrow> bool \<Rightarrow> alert \<Rightarrow> notifier \<Rightarrow> bool \<times> alert_effect list \<times> notifier" where
  "schedule_delivery clk bypass a s0 =
     (case read_clock clk s0 of
        (now, s) \<Rightarrow>
          (let p = al_provider a; window = ac_window (nt_config s); sent = prune_times now window (list_of (nt_sent s) p);
               s1 = s\<lparr>nt_sent := dict_set p sent (nt_sent s)\<rparr>
           in if \<not> bypass \<and> ac_max (nt_config s) \<le> int (length sent) then
                (let s2 = s1\<lparr>nt_overflow := dict_set p (list_of (nt_overflow s) p @ [al_message a]) (nt_overflow s)\<rparr>;
                     eff = [Folded p (al_message a)]
                 in if dict_get (nt_digests s) p \<noteq> None then (True, eff, s2)
                    else (case sent of
                            [] \<Rightarrow> (False, eff, s2)
                          | t # ts \<Rightarrow>
                              (True, eff,
                               s2\<lparr>nt_digests := dict_set p (Sleeping (now + max (t + window - now) (1 / 100)) (al_recipients a))
                                                 (nt_digests s)\<rparr>)))
              else (True, [Sent (\<not> bypass) now a], s1\<lparr>nt_sent := dict_set p (sent @ [now]) (nt_sent s)\<rparr>)))"

text \<open>The digest task: it wakes and sends what was folded, or finds nothing; when the delivery is over it is gone.\<close>

definition digest_alert :: "alerts_config \<Rightarrow> string \<Rightarrow> recipients \<Rightarrow> string list \<Rightarrow> alert" where
  "digest_alert c p rcp msgs =
     \<lparr>al_provider = p, al_recipients = rcp, al_subject = ''navigator-eventbus alert digest'',
      al_message = ''[DIGEST] '' @ int_str (int (length msgs)) @ '' alert(s) throttled on channel '' @ [CHR 0x27] @ p @ [CHR 0x27] @
        '' (max '' @ int_str (ac_max c) @ '' per '' @ format_0f (ac_window c) @ ''s):'' @ [CHR 0x0A] @ ''- '' @
        py_join ([CHR 0x0A] @ ''- '') msgs\<rparr>"

definition digest_wakes :: "(nat \<Rightarrow> real) \<Rightarrow> string \<Rightarrow> notifier \<Rightarrow> alert_effect list \<times> notifier" where
  "digest_wakes clk p s =
     (case dict_get (nt_digests s) p of
        Some (Sleeping wake rcp) \<Rightarrow>
          (let msgs = list_of (nt_overflow s) p; s1 = s\<lparr>nt_overflow := dict_del p (nt_overflow s)\<rparr>
           in if msgs = [] then ([], s1\<lparr>nt_digests := dict_del p (nt_digests s1)\<rparr>)
              else (case read_clock clk s1 of
                      (now, s2) \<Rightarrow>
                        ([Sent False now (digest_alert (nt_config s) p rcp msgs)],
                         s2\<lparr>nt_sent := dict_set p (list_of (nt_sent s2) p @ [now]) (nt_sent s2),
                            nt_digests := dict_set p Sending (nt_digests s2)\<rparr>)))
      | _ \<Rightarrow> ([], s))"

definition digest_ends :: "string \<Rightarrow> notifier \<Rightarrow> notifier" where
  "digest_ends p s =
     (if dict_get (nt_digests s) p = Some Sending then s\<lparr>nt_digests := dict_del p (nt_digests s)\<rparr> else s)"

text \<open>The delivery itself; what the sender raises is only logged.\<close>

definition deliver_alert :: "(alert \<Rightarrow> 'w \<Rightarrow> exn option \<times> 'w) \<Rightarrow> alert \<Rightarrow> 'w \<Rightarrow> 'w" where
  "deliver_alert sender a w = snd (sender a w)"

text \<open>The standard sender: the provider's module and class, and the actors it writes to.\<close>

definition notify_provider :: "string \<Rightarrow> string \<times> string" where
  "notify_provider p =
     (if p = ''slack'' then (''notify.providers.slack'', ''Slack'')
      else if p = ''telegram'' then (''notify.providers.telegram'', ''Telegram'')
      else if p = ''teams'' then (''notify.providers.teams'', ''Teams'')
      else (''notify.providers.email'', ''Email''))"

definition parse_recipients :: "recipients \<Rightarrow> (string \<times> string) list" where
  "parse_recipients rcp =
     map (\<lambda>i. (if CHR ''@'' \<in> set i then hd (py_split (CHR ''@'') i) else ''user'', i))
       (case rcp of One i \<Rightarrow> [i] | Many items \<Rightarrow> items)"

subsection \<open>Evaluation\<close>

definition repeat_note :: "alerts_config \<Rightarrow> nat \<Rightarrow> string" where
  "repeat_note c n =
     (if n = 0 then []
      else '' ('' @ int_str (int n) @ '' identical alert(s) suppressed in the previous '' @ format_0f (ac_dedup c) @ ''s window)'')"

definition headline :: "bool \<Rightarrow> alert_rule \<Rightarrow> envelope \<Rightarrow> string" where
  "headline windowed r e =
     (let quoted = [CHR 0x27] @ ar_id r @ [CHR 0x27]
      in if windowed
         then ''['' @ severity_name (severity e) @ ''] rule '' @ quoted @ '': '' @
              int_str (case ar_count r of None \<Rightarrow> 0 | Some n \<Rightarrow> n) @ ''+ events >= '' @ severity_name (ar_min r) @ '' within '' @
              format_0f (case ar_window r of None \<Rightarrow> 0 | Some x \<Rightarrow> x) @ ''s (last: '' @ topic e @ '')''
         else ''['' @ severity_name (severity e) @ ''] '' @ topic e @ '' (rule '' @ quoted @ '', event '' @ event_id e @ '')'')"

definition rule_alert :: "alerts_config \<Rightarrow> bool \<Rightarrow> alert_rule \<Rightarrow> envelope \<Rightarrow> nat \<Rightarrow> alert" where
  "rule_alert c windowed r e suppressed =
     \<lparr>al_provider = ar_provider r, al_recipients = ar_recipients r,
      al_subject = (case ar_subject r of Some (x # xs) \<Rightarrow> x # xs | _ \<Rightarrow> ''navigator-eventbus alert: '' @ topic e),
      al_message = headline windowed r e @ repeat_note c suppressed\<rparr>"

definition fire ::
    "(nat \<Rightarrow> real) \<Rightarrow> alert_rule \<Rightarrow> envelope \<Rightarrow> real \<Rightarrow> bool \<Rightarrow> notifier \<Rightarrow> bool \<times> alert_effect list \<times> notifier" where
  "fire clk r e now windowed s =
     (let key = (ar_id r, topic_class (topic e)); entry = dict_get (nt_dedup s) key
      in case entry of
           Some (first, n) \<Rightarrow>
             if now - first < ac_dedup (nt_config s)
             then (True, [], s\<lparr>nt_dedup := dict_set key (first, Suc n) (nt_dedup s)\<rparr>)
             else (case schedule_delivery clk False (rule_alert (nt_config s) windowed r e n)
                          (s\<lparr>nt_dedup := dict_set key (now, 0) (nt_dedup s)\<rparr>) of
                     (ok, effs, s1) \<Rightarrow> (ok, Opened key now # effs, s1))
         | None \<Rightarrow>
             (case schedule_delivery clk False (rule_alert (nt_config s) windowed r e 0)
                     (s\<lparr>nt_dedup := dict_set key (now, 0) (nt_dedup s)\<rparr>) of
                (ok, effs, s1) \<Rightarrow> (ok, Opened key now # effs, s1)))"

text \<open>A window rule fires when its window holds enough events, and starts afresh.\<close>

definition rule_step ::
    "(nat \<Rightarrow> real) \<Rightarrow> real \<Rightarrow> envelope \<Rightarrow> alert_rule \<Rightarrow> notifier \<Rightarrow> bool \<times> alert_effect list \<times> notifier" where
  "rule_step clk now e r s =
     (case (ar_window r, ar_count r) of
        (Some window, Some n) \<Rightarrow>
          (let hits = prune_times now window (list_of (nt_times s) (ar_id r) @ [now])
           in if n \<le> int (length hits)
              then fire clk r e now True (s\<lparr>nt_times := dict_set (ar_id r) [] (nt_times s)\<rparr>)
              else (True, [], s\<lparr>nt_times := dict_set (ar_id r) hits (nt_times s)\<rparr>))
      | _ \<Rightarrow> fire clk r e now False s)"

definition rule_applies :: "envelope \<Rightarrow> alert_rule \<Rightarrow> bool" where
  "rule_applies e r \<longleftrightarrow> \<not> severity e < ar_min r \<and> fnmatch (topic e) (ar_pattern r)"

fun run_rules ::
    "(nat \<Rightarrow> real) \<Rightarrow> real \<Rightarrow> envelope \<Rightarrow> alert_rule list \<Rightarrow> notifier \<Rightarrow> bool \<times> alert_effect list \<times> notifier" where
  "run_rules clk now e [] s = (True, [], s)"
| "run_rules clk now e (r # rs) s =
     (if rule_applies e r
      then (case rule_step clk now e r s of
              (False, effs, s1) \<Rightarrow> (False, effs, s1)
            | (True, effs, s1) \<Rightarrow>
                (case run_rules clk now e rs s1 of (ok, effs2, s2) \<Rightarrow> (ok, effs @ effs2, s2)))
      else run_rules clk now e rs s)"

definition storm_alert :: "notifier \<Rightarrow> envelope \<Rightarrow> alert" where
  "storm_alert s e =
     \<lparr>al_provider = (case nt_rules s of [] \<Rightarrow> ''email'' | r # rs \<Rightarrow> ar_provider r),
      al_recipients = (case nt_rules s of [] \<Rightarrow> Many [] | r # rs \<Rightarrow> ar_recipients r),
      al_subject = ''Event storm detected'',
      al_message = ''[CRITICAL] Event storm: >'' @ int_str (ac_storm (nt_config s)) @ '' ERROR+ events in '' @
        format_0f (ac_storm_window (nt_config s)) @ ''s (last topic: '' @ topic e @
        ''). Individual alerts suppressed until the rate drops.''\<rparr>"

definition evaluate :: "(nat \<Rightarrow> real) \<Rightarrow> envelope \<Rightarrow> notifier \<Rightarrow> bool \<times> alert_effect list \<times> notifier" where
  "evaluate clk e s0 =
     (if py_startswith (topic e) ''bus.'' \<and> \<not> ac_internal (nt_config s0) then (True, [], s0)
      else (case read_clock clk s0 of
              (now, s) \<Rightarrow>
                (let errors = prune_times now (ac_storm_window (nt_config s))
                                (if ERROR \<le> severity e then nt_errors s @ [now] else nt_errors s);
                     s1 = s\<lparr>nt_errors := errors\<rparr>
                 in if ac_storm (nt_config s) < int (length errors) then
                      (if nt_storm s then (True, [], s1)
                       else schedule_delivery clk True (storm_alert s e) (s1\<lparr>nt_storm := True\<rparr>))
                    else run_rules clk now e (nt_rules s) (s1\<lparr>nt_storm := False\<rparr>))))"

text \<open>What the evaluation raises is only logged.\<close>

definition alert_on_envelope :: "(nat \<Rightarrow> real) \<Rightarrow> envelope \<Rightarrow> notifier \<Rightarrow> alert_effect list \<times> notifier" where
  "alert_on_envelope clk e s = snd (evaluate clk e s)"

subsection \<open>Interleavings\<close>

text \<open>
  Envelopes and the turns of the digest tasks, in any order, with the effects so far; a digest sleeps at
  least until its time.
\<close>

inductive alert_run :: "(nat \<Rightarrow> real) \<Rightarrow> notifier \<Rightarrow> alert_effect list \<Rightarrow> notifier \<Rightarrow> bool" for clk s0 where
  run_start: "alert_run clk s0 [] s0"
| run_envelope: "alert_run clk s0 tr s \<Longrightarrow> alert_on_envelope clk e s = (effs, s1) \<Longrightarrow> alert_run clk s0 (tr @ effs) s1"
| run_wake: "alert_run clk s0 tr s \<Longrightarrow> digest_wakes clk p s = (effs, s1) \<Longrightarrow> alert_run clk s0 (tr @ effs) s1"
| run_end: "alert_run clk s0 tr s \<Longrightarrow> alert_run clk s0 tr (digest_ends p s)"

end
