(* ===== verification/AlertProps.thy ===== *)
theory AlertProps
  imports Alerts Samples
begin

text \<open>
  Properties of the alerting subscriber over every interleaving of envelopes and digest tasks: the
  throttle of a channel, the deduplication of a rule, and the alerts a digest under delivery leaves behind.
\<close>

subsection \<open>Projections of a run\<close>

fun direct_of :: "string \<Rightarrow> alert_effect \<Rightarrow> real list" where
  "direct_of p (Sent True t a) = (if al_provider a = p then [t] else [])"
| "direct_of p x = []"

fun opened_of :: "string \<times> string \<Rightarrow> alert_effect \<Rightarrow> real list" where
  "opened_of k (Opened k' t) = (if k' = k then [t] else [])"
| "opened_of k x = []"

definition direct :: "string \<Rightarrow> alert_effect list \<Rightarrow> real list" where
  "direct p tr = concat (map (direct_of p) tr)"

definition opened :: "string \<times> string \<Rightarrow> alert_effect list \<Rightarrow> real list" where
  "opened k tr = concat (map (opened_of k) tr)"

lemma direct_simps [simp]: "direct p [] = []" "direct p (x # tr) = direct_of p x @ direct p tr"
    "direct p (tr @ us) = direct p tr @ direct p us"
  by (simp_all add: direct_def)

lemma opened_simps [simp]: "opened k [] = []" "opened k (x # tr) = opened_of k x @ opened k tr"
    "opened k (tr @ us) = opened k tr @ opened k us"
  by (simp_all add: opened_def)

definition no_less :: "real \<Rightarrow> real list \<Rightarrow> nat" where
  "no_less c ts = length (filter (\<lambda>t. c \<le> t) ts)"

lemma no_less_simps [simp]: "no_less c [] = 0" "no_less c (ts @ us) = no_less c ts + no_less c us"
    "no_less c [t] = (if c \<le> t then 1 else 0)"
  by (simp_all add: no_less_def)

lemma no_less_prune: "now - w \<le> c \<Longrightarrow> no_less c (prune_times now w ts) = no_less c ts"
  unfolding prune_times_def no_less_def by (induction ts) auto

lemma no_less_length: "no_less c ts \<le> length ts"
  by (simp add: no_less_def)

lemma list_of_set [simp]: "list_of (dict_set k xs d) j = (if j = k then xs else list_of d j)"
  by (simp add: list_of_def)

lemma list_of_del [simp]: "list_of (dict_del k d) j = (if j = k then [] else list_of d j)"
  by (simp add: list_of_def)

subsection \<open>The throttle\<close>

text \<open>
  What a run keeps: in any window the direct deliveries of a channel stay within the limit, all of them lie
  in the past, and those young enough to matter are remembered.
\<close>

definition within_limit :: "alerts_config \<Rightarrow> real list \<Rightarrow> bool" where
  "within_limit c ts \<longleftrightarrow> (\<forall>x. length (filter (\<lambda>t. x \<le> t \<and> t \<le> x + ac_window c) ts) \<le> nat (ac_max c))"

definition throttled :: "(nat \<Rightarrow> real) \<Rightarrow> notifier \<Rightarrow> alert_effect list \<Rightarrow> bool" where
  "throttled clk s tr \<longleftrightarrow> (\<forall>p. within_limit (nt_config s) (direct p tr) \<and>
     (\<forall>t \<in> set (direct p tr). t \<le> clk (nt_reads s)) \<and>
     (\<forall>c \<ge> clk (nt_reads s) - ac_window (nt_config s). no_less c (direct p tr) \<le> no_less c (list_of (nt_sent s) p)))"

lemma throttledI:
  assumes "\<And>p. within_limit (nt_config s) (direct p tr)" "\<And>p t. t \<in> set (direct p tr) \<Longrightarrow> t \<le> clk (nt_reads s)"
    "\<And>p c. clk (nt_reads s) - ac_window (nt_config s) \<le> c \<Longrightarrow> no_less c (direct p tr) \<le> no_less c (list_of (nt_sent s) p)"
  shows "throttled clk s tr"
  using assms by (simp add: throttled_def)

lemma throttledD:
  assumes "throttled clk s tr"
  shows "within_limit (nt_config s) (direct p tr)" "t \<in> set (direct p tr) \<Longrightarrow> t \<le> clk (nt_reads s)"
    "clk (nt_reads s) - ac_window (nt_config s) \<le> c \<Longrightarrow> no_less c (direct p tr) \<le> no_less c (list_of (nt_sent s) p)"
  using assms by (auto simp: throttled_def)

text \<open>A step that sends nothing directly and forgets nothing keeps it.\<close>

lemma throttled_quiet:
  assumes "throttled clk s tr" "mono clk" "nt_reads s \<le> nt_reads s1" "nt_config s1 = nt_config s" "\<And>p. direct p effs = []"
    "\<And>p c. clk (nt_reads s) - ac_window (nt_config s) \<le> c \<Longrightarrow> no_less c (list_of (nt_sent s) p) \<le> no_less c (list_of (nt_sent s1) p)"
  shows "throttled clk s1 (tr @ effs)"
proof (rule throttledI)
  have le: "clk (nt_reads s) \<le> clk (nt_reads s1)" using assms(2,3) by (rule monoD)
  fix p
  show "within_limit (nt_config s1) (direct p (tr @ effs))" using throttledD(1)[OF assms(1)] assms(4,5) by simp
  show "t \<le> clk (nt_reads s1)" if "t \<in> set (direct p (tr @ effs))" for t
    using throttledD(2)[OF assms(1)] that assms(5) le by force
  show "no_less c (direct p (tr @ effs)) \<le> no_less c (list_of (nt_sent s1) p)"
    if "clk (nt_reads s1) - ac_window (nt_config s1) \<le> c" for c
  proof -
    have c: "clk (nt_reads s) - ac_window (nt_config s) \<le> c" using that le unfolding assms(4) by linarith
    show ?thesis using throttledD(3)[OF assms(1) c, of p] assms(6)[OF c, of p] assms(5)[of p] by simp
  qed
qed

lemma throttled_same:
  assumes "throttled clk s tr" "nt_sent s1 = nt_sent s" "nt_reads s1 = nt_reads s" "nt_config s1 = nt_config s"
  shows "throttled clk s1 tr"
  using assms by (simp add: throttled_def)

text \<open>A direct delivery now, when the pruned list has room.\<close>

lemma within_limit_snoc:
  assumes "within_limit c ts" "\<forall>t \<in> set ts. t \<le> now" "\<And>x. now - ac_window c \<le> x \<Longrightarrow> no_less x ts < nat (ac_max c)"
  shows "within_limit c (ts @ [now])"
  unfolding within_limit_def
proof
  fix x
  show "length (filter (\<lambda>t. x \<le> t \<and> t \<le> x + ac_window c) (ts @ [now])) \<le> nat (ac_max c)"
  proof (cases "x \<le> now \<and> now \<le> x + ac_window c")
    case True
    have "length (filter (\<lambda>t. x \<le> t \<and> t \<le> x + ac_window c) ts) \<le> no_less x ts"
      unfolding no_less_def by (induction ts) auto
    with assms(3)[of x] True show ?thesis by simp
  next
    case False
    then show ?thesis using assms(1) by (auto simp: within_limit_def)
  qed
qed

lemma schedule_throttled:
  assumes m: "mono clk" and tr: "throttled clk s tr" and sch: "schedule_delivery clk bypass a s = (ok, effs, s1)"
  shows "throttled clk s1 (tr @ effs)"
proof -
  define now where "now = clk (nt_reads s)"
  define w where "w = ac_window (nt_config s)"
  define sent where "sent = prune_times now w (list_of (nt_sent s) (al_provider a))"
  have keep: "no_less c sent = no_less c (list_of (nt_sent s) (al_provider a))" if "now - w \<le> c" for c
    using no_less_prune[OF that] by (simp add: sent_def)
  have later: "now \<le> clk (Suc (nt_reads s))" using m by (simp add: now_def monoD)
  show ?thesis
  proof (cases "\<not> bypass \<and> ac_max (nt_config s) \<le> int (length sent)")
    case True
    then have "nt_reads s1 = Suc (nt_reads s) \<and> nt_config s1 = nt_config s \<and>
        nt_sent s1 = dict_set (al_provider a) sent (nt_sent s) \<and> effs = [Folded (al_provider a) (al_message a)]"
      using sch by (auto simp: schedule_delivery_def read_clock_def Let_def now_def w_def sent_def split: if_splits list.splits)
    then show ?thesis using keep by (intro throttled_quiet[OF tr m]) (auto simp: now_def w_def)
  next
    case False
    then have s1: "nt_reads s1 = Suc (nt_reads s)" "nt_config s1 = nt_config s"
      "nt_sent s1 = dict_set (al_provider a) (sent @ [now]) (dict_set (al_provider a) sent (nt_sent s)) \<or>
       nt_sent s1 = dict_set (al_provider a) (sent @ [now]) (nt_sent s)" "effs = [Sent (\<not> bypass) now a]"
      using sch by (auto simp: schedule_delivery_def read_clock_def Let_def now_def w_def sent_def split: if_splits)
    have sent1: "list_of (nt_sent s1) p = (if p = al_provider a then sent @ [now] else list_of (nt_sent s) p)" for p
      using s1(3) by auto
    show ?thesis
    proof (cases bypass)
      case True
      then show ?thesis using s1 keep sent1 by (intro throttled_quiet[OF tr m]) (auto simp: now_def w_def)
    next
      case False
      with \<open>\<not> (\<not> bypass \<and> _)\<close> have room: "length sent < nat (ac_max (nt_config s))" by simp
      show ?thesis
      proof (rule throttledI)
        fix p
        show "within_limit (nt_config s1) (direct p (tr @ effs))"
        proof (cases "p = al_provider a")
          case True
          have "no_less x (direct p tr) < nat (ac_max (nt_config s))" if "now - w \<le> x" for x
            using throttledD(3)[OF tr, of x p] that keep[OF that] no_less_length[of x sent] room True
            by (simp add: now_def w_def)
          then show ?thesis
            using within_limit_snoc[OF throttledD(1)[OF tr, of p], of now] throttledD(2)[OF tr, of _ p] True False s1
            by (simp add: now_def w_def)
        qed (use throttledD(1)[OF tr] s1 False in auto)
        show "t \<le> clk (nt_reads s1)" if "t \<in> set (direct p (tr @ effs))" for t
          using that throttledD(2)[OF tr, of t p] later s1 False by (auto simp: now_def split: if_splits)
        show "no_less c (direct p (tr @ effs)) \<le> no_less c (list_of (nt_sent s1) p)"
          if "clk (nt_reads s1) - ac_window (nt_config s1) \<le> c" for c
          using that throttledD(3)[OF tr, of c p] keep[of c] later s1 False sent1[of p] by (auto simp: now_def w_def)
      qed
    qed
  qed
qed

text \<open>Scheduling leaves the configuration and everything but the channels alone.\<close>

lemma schedule_frame:
  assumes "schedule_delivery clk bypass a s = (ok, effs, s1)"
  shows "nt_config s1 = nt_config s" "nt_dedup s1 = nt_dedup s" "nt_rules s1 = nt_rules s" "nt_storm s1 = nt_storm s"
    "opened k effs = []" "nt_reads s1 = Suc (nt_reads s)"
  using assms by (auto simp: schedule_delivery_def read_clock_def Let_def split: if_splits list.splits)

text \<open>What firing does: nothing but a count inside the window of its key, else open the window and schedule.\<close>

lemma fire_cases:
  assumes "fire clk r e now windowed s = (ok, effs, s1)"
  obtains (suppressed) t n where "dict_get (nt_dedup s) (ar_id r, topic_class (topic e)) = Some (t, n)" "now < t + ac_dedup (nt_config s)"
      "ok" "effs = []" "s1 = s\<lparr>nt_dedup := dict_set (ar_id r, topic_class (topic e)) (t, Suc n) (nt_dedup s)\<rparr>"
  | (opened) a effs1 where "\<forall>t n. dict_get (nt_dedup s) (ar_id r, topic_class (topic e)) = Some (t, n) \<longrightarrow> t + ac_dedup (nt_config s) \<le> now"
      "schedule_delivery clk False a (s\<lparr>nt_dedup := dict_set (ar_id r, topic_class (topic e)) (now, 0) (nt_dedup s)\<rparr>) = (ok, effs1, s1)"
      "effs = Opened (ar_id r, topic_class (topic e)) now # effs1"
proof (cases "\<exists>t n. dict_get (nt_dedup s) (ar_id r, topic_class (topic e)) = Some (t, n) \<and> now < t + ac_dedup (nt_config s)")
  case True
  then show ?thesis using assms that(1) by (auto simp: fire_def Let_def)
next
  case False
  define a where "a = rule_alert (nt_config s) windowed r e
    (case dict_get (nt_dedup s) (ar_id r, topic_class (topic e)) of None \<Rightarrow> 0 | Some (t, n) \<Rightarrow> n)"
  obtain o1 effs1 s2 where sch: "schedule_delivery clk False a
      (s\<lparr>nt_dedup := dict_set (ar_id r, topic_class (topic e)) (now, 0) (nt_dedup s)\<rparr>) = (o1, effs1, s2)" by (metis prod_cases3)
  have "ok = o1 \<and> effs = Opened (ar_id r, topic_class (topic e)) now # effs1 \<and> s1 = s2"
    using assms False sch by (auto simp: fire_def Let_def a_def split: option.splits if_splits)
  with sch False show ?thesis using that(2) by force
qed

text \<open>
  A property of state and effects that scheduling, opening a window and the silent updates keep holds after
  every run.
\<close>

locale run_property =
  fixes clk :: "nat \<Rightarrow> real" and I :: "notifier \<Rightarrow> alert_effect list \<Rightarrow> bool"
  assumes keeps_fire: "I s tr \<Longrightarrow> fire clk r e now windowed s = (ok, effs, s1) \<Longrightarrow> I s1 (tr @ effs)"
    and keeps_storm: "I s tr \<Longrightarrow> schedule_delivery clk True a s = (ok, effs, s1) \<Longrightarrow> I s1 (tr @ effs)"
    and keeps_wake: "I s tr \<Longrightarrow> digest_wakes clk p s = (effs, s1) \<Longrightarrow> I s1 (tr @ effs)"
    and keeps_end: "I s tr \<Longrightarrow> I (digest_ends p s) tr"
    and keeps_read: "I s tr \<Longrightarrow> I (snd (read_clock clk s)) tr"
    and keeps_times: "I s tr \<Longrightarrow> I (s\<lparr>nt_times := x\<rparr>) tr"
    and keeps_errors: "I s tr \<Longrightarrow> I (s\<lparr>nt_errors := y\<rparr>) tr"
    and keeps_flag: "I s tr \<Longrightarrow> I (s\<lparr>nt_storm := z\<rparr>) tr"
begin

lemma rule_step_keeps:
  assumes "I s tr" "rule_step clk now e r s = (ok, effs, s1)"
  shows "I s1 (tr @ effs)"
proof (cases "is_window_rule r")
  case True
  then obtain w n where wn: "ar_window r = Some w" "ar_count r = Some n" by (auto simp: is_window_rule_def)
  let ?ts = "prune_times now w (list_of (nt_times s) (ar_id r) @ [now])"
  show ?thesis
  proof (cases "n \<le> int (length ?ts)")
    case True
    then have "fire clk r e now True (s\<lparr>nt_times := dict_set (ar_id r) [] (nt_times s)\<rparr>) = (ok, effs, s1)"
      using assms(2) wn by (simp add: rule_step_def Let_def)
    then show ?thesis by (rule keeps_fire[OF keeps_times[OF assms(1)]])
  next
    case False
    then show ?thesis using assms(2) wn keeps_times[OF assms(1)] by (auto simp: rule_step_def Let_def)
  qed
next
  case False
  then have "fire clk r e now False s = (ok, effs, s1)"
    using assms(2) by (auto simp: rule_step_def is_window_rule_def split: option.splits)
  then show ?thesis by (rule keeps_fire[OF assms(1)])
qed

lemma run_rules_keeps:
  "I s tr \<Longrightarrow> run_rules clk now e rs s = (ok, effs, s1) \<Longrightarrow> I s1 (tr @ effs)"
proof (induction rs arbitrary: s tr ok effs s1)
  case (Cons r rs)
  show ?case
  proof (cases "rule_applies e r")
    case True
    obtain o1 effs1 s2 where st: "rule_step clk now e r s = (o1, effs1, s2)" by (metis prod_cases3)
    note I1 = rule_step_keeps[OF Cons.prems(1) st]
    show ?thesis
    proof (cases o1)
      case True
      obtain o2 effs2 s3 where rr: "run_rules clk now e rs s2 = (o2, effs2, s3)" by (metis prod_cases3)
      have "effs = effs1 @ effs2" "s1 = s3" using Cons.prems(2) st rr \<open>rule_applies e r\<close> True by simp_all
      then show ?thesis using Cons.IH[OF I1 rr] by simp
    qed (use Cons.prems(2) st True I1 in simp)
  qed (use Cons in simp)
qed simp

lemma evaluate_keeps:
  assumes "I s tr" "evaluate clk e s = (ok, effs, s1)"
  shows "I s1 (tr @ effs)"
proof (cases "py_startswith (topic e) ''bus.'' \<and> \<not> ac_internal (nt_config s)")
  case False
  obtain now s2 where rd: "read_clock clk s = (now, s2)" by force
  define errs where "errs = prune_times now (ac_storm_window (nt_config s2)) (if ERROR \<le> severity e then nt_errors s2 @ [now] else nt_errors s2)"
  have I2: "I (s2\<lparr>nt_errors := errs\<rparr>) tr" using keeps_errors keeps_read[OF assms(1)] rd by simp
  show ?thesis
  proof (cases "ac_storm (nt_config s2) < int (length errs)")
    case True
    show ?thesis
    proof (cases "nt_storm s2")
      case True
      then show ?thesis using assms(2) False rd I2 \<open>ac_storm _ < _\<close> by (auto simp: evaluate_def Let_def errs_def)
    next
      case False
      then have "schedule_delivery clk True (storm_alert s2 e) (s2\<lparr>nt_errors := errs, nt_storm := True\<rparr>) = (ok, effs, s1)"
        using assms(2) \<open>\<not> (_ \<and> _)\<close> rd True by (auto simp: evaluate_def Let_def errs_def)
      then show ?thesis by (rule keeps_storm[OF keeps_flag[OF I2]])
    qed
  next
    case False
    then have "run_rules clk now e (nt_rules s2) (s2\<lparr>nt_errors := errs, nt_storm := False\<rparr>) = (ok, effs, s1)"
      using assms(2) \<open>\<not> (_ \<and> _)\<close> rd by (auto simp: evaluate_def Let_def errs_def)
    then show ?thesis by (rule run_rules_keeps[OF keeps_flag[OF I2]])
  qed
qed (use assms in \<open>simp add: evaluate_def\<close>)

lemma run_keeps: "alert_run clk s0 tr s \<Longrightarrow> I s0 [] \<Longrightarrow> I s tr"
proof (induction rule: alert_run.induct)
  case (run_envelope tr s e effs s1)
  then obtain ok where "evaluate clk e s = (ok, effs, s1)" by (cases "evaluate clk e s") (simp add: alert_on_envelope_def)
  then show ?case by (rule evaluate_keeps[OF run_envelope.IH[OF run_envelope.prems]])
qed (auto intro: keeps_wake keeps_end)

end

lemma opened_window_frame: "nt_config (s\<lparr>nt_dedup := d\<rparr>) = nt_config s" "nt_sent (s\<lparr>nt_dedup := d\<rparr>) = nt_sent s"
  by simp_all

lemma throttled_Opened: "throttled clk s tr \<Longrightarrow> throttled clk s (tr @ [Opened k t])"
  by (simp add: throttled_def)

lemma throttled_fire:
  assumes "mono clk" "throttled clk s tr" "fire clk r e now windowed s = (ok, effs, s1)"
  shows "throttled clk s1 (tr @ effs)"
  using assms(3)
proof (cases rule: fire_cases)
  case (suppressed t n)
  then show ?thesis using throttled_same[OF assms(2)] by simp
next
  case (opened a effs1)
  let ?s = "s\<lparr>nt_dedup := dict_set (ar_id r, topic_class (topic e)) (now, 0) (nt_dedup s)\<rparr>"
  have "throttled clk ?s (tr @ [Opened (ar_id r, topic_class (topic e)) now])"
    by (rule throttled_Opened[OF throttled_same[OF assms(2)]]) simp_all
  from schedule_throttled[OF assms(1) this opened(2)] show ?thesis using opened(3) by simp
qed

lemma throttled_wake:
  assumes "mono clk" "throttled clk s tr" "digest_wakes clk p s = (effs, s1)"
  shows "throttled clk s1 (tr @ effs)"
proof (rule throttled_quiet[OF assms(2,1)])
  show "nt_reads s \<le> nt_reads s1" "nt_config s1 = nt_config s" "\<And>p. direct p effs = []"
    using assms(3) by (auto simp: digest_wakes_def Let_def read_clock_def split: option.splits digest.splits if_splits)
  show "no_less c (list_of (nt_sent s) q) \<le> no_less c (list_of (nt_sent s1) q)" for c q
    using assms(3) by (auto simp: digest_wakes_def Let_def read_clock_def split: option.splits digest.splits if_splits)
qed

lemma throttled_read: "mono clk \<Longrightarrow> throttled clk s tr \<Longrightarrow> throttled clk (snd (read_clock clk s)) tr"
  using throttled_quiet[of clk s tr "snd (read_clock clk s)" "[]"] by (simp add: read_clock_def)

interpretation throttle: run_property clk "\<lambda>s tr. mono clk \<longrightarrow> throttled clk s tr" for clk
proof (unfold_locales, goal_cases)
  case (1 s tr r e now windowed ok effs s1)
  then show ?case using throttled_fire by blast
next
  case (2 s tr a ok effs s1)
  then show ?case using schedule_throttled by blast
next
  case (3 s tr p effs s1)
  then show ?case using throttled_wake by blast
next
  case (4 s tr p)
  then show ?case using throttled_same[of clk s tr "digest_ends p s"] by (simp add: digest_ends_def)
next
  case (5 s tr)
  then show ?case using throttled_read by blast
qed (auto intro: throttled_same)

text \<open>C32: Whatever the order of envelopes and digest tasks, the alerts delivered directly on one channel within
  any window of the throttle are at most the configured number, provided that the clock never goes back.
  The storm alert and the digests come on top: they pass the throttle.\<close>

theorem channel_throttled:
  assumes "mono clk" "alert_run clk (notifier_new rules config) tr s"
  shows "length (filter (\<lambda>t. x \<le> t \<and> t \<le> x + ac_window (nt_config s)) (direct p tr)) \<le> nat (ac_max (nt_config s))"
proof -
  have "throttled clk (notifier_new rules config) []" by (simp add: throttled_def within_limit_def no_less_def)
  then have "throttled clk s tr" using throttle.run_keeps[OF assms(2)] assms(1) by blast
  then show ?thesis by (simp add: throttled_def within_limit_def)
qed

subsection \<open>Deduplication\<close>

text \<open>The windows opened for a key are a window apart, and the last one is the entry of the table.\<close>

definition deduplicated :: "notifier \<Rightarrow> alert_effect list \<Rightarrow> bool" where
  "deduplicated s tr \<longleftrightarrow> (\<forall>k. successively (\<lambda>t u. t + ac_dedup (nt_config s) \<le> u) (opened k tr) \<and>
     (case dict_get (nt_dedup s) k of
        None \<Rightarrow> opened k tr = []
      | Some (t, n) \<Rightarrow> opened k tr \<noteq> [] \<and> List.last (opened k tr) = t))"

fun is_opened :: "alert_effect \<Rightarrow> bool" where
  "is_opened (Opened k t) = True"
| "is_opened x = False"

fun is_rule_alert :: "alert_effect \<Rightarrow> bool" where
  "is_rule_alert (Sent b t a) = b"
| "is_rule_alert (Folded p m) = True"
| "is_rule_alert x = False"

definition one_alert_each :: "alert_effect list \<Rightarrow> bool" where
  "one_alert_each tr \<longleftrightarrow> length (filter is_rule_alert tr) = length (filter is_opened tr)"

lemma schedule_effect:
  assumes "schedule_delivery clk bypass a s = (ok, effs, s1)"
  shows "(effs = [Folded (al_provider a) (al_message a)] \<and> \<not> bypass) \<or> effs = [Sent (\<not> bypass) (clk (nt_reads s)) a]"
  using assms by (auto simp: schedule_delivery_def read_clock_def Let_def split: if_splits list.splits)

lemma deduplicatedD:
  assumes "deduplicated s tr"
  shows "successively (\<lambda>t u. t + ac_dedup (nt_config s) \<le> u) (opened k tr)"
    "dict_get (nt_dedup s) k = None \<Longrightarrow> opened k tr = []"
    "dict_get (nt_dedup s) k = Some (t, n) \<Longrightarrow> opened k tr \<noteq> [] \<and> List.last (opened k tr) = t"
  using assms[unfolded deduplicated_def, rule_format, of k] by (auto split: option.splits)

lemma deduplicated_same:
  assumes "deduplicated s tr" "nt_dedup s1 = nt_dedup s" "nt_config s1 = nt_config s" "\<And>k. opened k effs = []"
  shows "deduplicated s1 (tr @ effs)"
  unfolding deduplicated_def
proof (rule allI, goal_cases)
  case (1 k)
  then show ?case using deduplicatedD[OF assms(1), of k] assms(2-4) by (auto split: option.split)
qed

lemma deduplicated_open:
  assumes "deduplicated s tr" "\<forall>t n. dict_get (nt_dedup s) k = Some (t, n) \<longrightarrow> t + ac_dedup (nt_config s) \<le> now"
  shows "deduplicated (s\<lparr>nt_dedup := dict_set k (now, 0) (nt_dedup s)\<rparr>) (tr @ [Opened k now])"
  unfolding deduplicated_def
proof (rule allI, goal_cases)
  case (1 j)
  have "List.last (opened k tr) + ac_dedup (nt_config s) \<le> now" if "opened k tr \<noteq> []"
    using deduplicatedD(2,3)[OF assms(1), of k] assms(2) that by (cases "dict_get (nt_dedup s) k") auto
  then have "successively (\<lambda>t u. t + ac_dedup (nt_config s) \<le> u) (opened k tr @ [now])"
    using deduplicatedD(1)[OF assms(1), of k] by (auto simp: successively_append_iff)
  then show ?case
    using deduplicatedD[OF assms(1), of j] by (auto split: option.split)
qed

lemma deduplicated_count:
  assumes "deduplicated s tr" "dict_get (nt_dedup s) k = Some (t, n)"
  shows "deduplicated (s\<lparr>nt_dedup := dict_set k (t, m) (nt_dedup s)\<rparr>) tr"
  unfolding deduplicated_def
proof (rule allI, goal_cases)
  case (1 j)
  then show ?case using deduplicatedD[OF assms(1), of j] assms(2) by (auto split: option.split)
qed

lemma one_alert_each_append: "one_alert_each tr \<Longrightarrow> one_alert_each effs \<Longrightarrow> one_alert_each (tr @ effs)"
  by (simp add: one_alert_each_def)

interpretation dedup: run_property clk "\<lambda>s tr. deduplicated s tr \<and> one_alert_each tr" for clk
proof (unfold_locales, goal_cases)
  case (1 s tr r e now windowed ok effs s1)
  from 1(2) show ?case
  proof (cases rule: fire_cases)
    case (suppressed t n)
    then show ?thesis using 1(1) deduplicated_count[OF _ suppressed(1)] by simp
  next
    case (opened a effs1)
    let ?k = "(ar_id r, topic_class (topic e))"
    note f = schedule_frame[OF opened(2)]
    have "deduplicated s1 ((tr @ [Opened ?k now]) @ effs1)"
      by (rule deduplicated_same[OF deduplicated_open[OF conjunct1[OF 1(1)] opened(1)]]) (use f in simp_all)
    moreover have "one_alert_each (Opened ?k now # effs1)"
      using schedule_effect[OF opened(2)] by (auto simp: one_alert_each_def)
    ultimately show ?thesis using 1(1) one_alert_each_append opened(3) by simp
  qed
next
  case (2 s tr a ok effs s1)
  note f = schedule_frame[OF 2(2)]
  have "one_alert_each effs" using schedule_effect[OF 2(2)] by (auto simp: one_alert_each_def)
  then show ?case using 2(1) one_alert_each_append deduplicated_same[of s tr s1 effs] f by auto
next
  case (3 s tr p effs s1)
  then have "nt_dedup s1 = nt_dedup s" "nt_config s1 = nt_config s" "\<And>k. opened k effs = []" "one_alert_each effs"
    by (auto simp: digest_wakes_def Let_def read_clock_def one_alert_each_def split: option.splits digest.splits if_splits)
  then show ?case using 3(1) one_alert_each_append deduplicated_same[of s tr s1 effs] by auto
qed (use deduplicated_same[of _ _ _ "[]"] in \<open>auto simp: digest_ends_def read_clock_def\<close>)

text \<open>C20: Of one rule and topic class two consecutive alerts are never closer than the deduplication window,
  whatever arrives and in whatever order the digest tasks run: each alert sent or folded for a rule comes
  with the opening of a window of its key, and the openings of a key are a window apart.\<close>

theorem alerts_deduplicated:
  assumes "alert_run clk (notifier_new rules config) tr s"
  shows "successively (\<lambda>t u. t + ac_dedup (nt_config s) \<le> u) (opened k tr) \<and>
    length (filter is_rule_alert tr) = length (filter is_opened tr)"
proof -
  have "deduplicated (notifier_new rules config) [] \<and> one_alert_each []"
    by (simp add: deduplicated_def notifier_new_def one_alert_each_def Let_def)
  from dedup.run_keeps[OF assms this] show ?thesis
    using deduplicatedD(1)[of s tr k] by (simp add: one_alert_each_def)
qed

subsection \<open>Alerts a digest leaves behind\<close>

definition quiet_channel :: "string \<Rightarrow> string list \<Rightarrow> notifier \<Rightarrow> alert_effect list \<Rightarrow> bool" where
  "quiet_channel p ms s tr \<longleftrightarrow>
     ((\<forall>m. Folded p m \<notin> set tr) \<longrightarrow> list_of (nt_overflow s) p = ms \<and> dict_get (nt_digests s) p = None)"

lemma schedule_unfolded:
  assumes "schedule_delivery clk bypass a s = (ok, effs, s1)" "\<forall>m. Folded p m \<notin> set effs"
  shows "list_of (nt_overflow s1) p = list_of (nt_overflow s) p" "dict_get (nt_digests s1) p = dict_get (nt_digests s) p"
  using assms by (auto simp: schedule_delivery_def read_clock_def Let_def split: if_splits list.splits)

lemma quiet_channel_step:
  assumes "quiet_channel p ms s tr"
    "\<forall>m. Folded p m \<notin> set effs \<Longrightarrow> list_of (nt_overflow s1) p = list_of (nt_overflow s) p \<and> dict_get (nt_digests s1) p = dict_get (nt_digests s) p"
  shows "quiet_channel p ms s1 (tr @ effs)"
  using assms by (auto simp: quiet_channel_def)

interpretation quiet: run_property clk "quiet_channel p ms" for clk p ms
proof (unfold_locales, goal_cases)
  case (1 s tr r e now windowed ok effs s1)
  from 1(2) show ?case
  proof (cases rule: fire_cases)
    case (opened a effs1)
    then show ?thesis using schedule_unfolded[OF opened(2), of p] by (intro quiet_channel_step[OF 1(1)]) auto
  qed (use 1(1) in \<open>simp add: quiet_channel_def\<close>)
next
  case (2 s tr a ok effs s1)
  then show ?case using schedule_unfolded[OF 2(2), of p] by (intro quiet_channel_step[OF 2(1)]) auto
next
  case (3 s tr q effs s1)
  show ?case
  proof (cases "q = p")
    case True
    then show ?thesis
      using 3 by (auto simp: quiet_channel_def digest_wakes_def Let_def read_clock_def split: option.splits digest.splits if_splits)
  next
    case False
    then have "list_of (nt_overflow s1) p = list_of (nt_overflow s) p \<and> dict_get (nt_digests s1) p = dict_get (nt_digests s) p"
      using 3(2) by (auto simp: digest_wakes_def Let_def read_clock_def split: option.splits digest.splits if_splits)
    then show ?thesis by (rule quiet_channel_step[OF 3(1)])
  qed
qed (auto simp: quiet_channel_def digest_ends_def read_clock_def)

text \<open>An alert folded while the digest of its channel is being delivered is left behind: once that delivery
  ends, no task is there for it, and none comes, whatever else happens, until the throttle folds another
  alert of the channel.\<close>

theorem digest_strands_alerts:
  assumes "dict_get (nt_digests s) (al_provider a) = Some Sending"
    "ac_max (nt_config s) \<le> int (length (prune_times (clk (nt_reads s)) (ac_window (nt_config s)) (list_of (nt_sent s) (al_provider a))))"
    "schedule_delivery clk False a s = (ok, effs, s1)" "alert_run clk (digest_ends (al_provider a) s1) tr s2"
    "\<forall>m. Folded (al_provider a) m \<notin> set tr"
  shows "al_message a \<in> set (list_of (nt_overflow s2) (al_provider a)) \<and> dict_get (nt_digests s2) (al_provider a) = None \<and>
    digest_wakes clk (al_provider a) s2 = ([], s2)"
proof -
  let ?ms = "list_of (nt_overflow s) (al_provider a) @ [al_message a]"
  have "list_of (nt_overflow s1) (al_provider a) = ?ms" "nt_digests s1 = nt_digests s"
    using assms(1-3) by (auto simp: schedule_delivery_def read_clock_def Let_def split: if_splits)
  then have "quiet_channel (al_provider a) ?ms (digest_ends (al_provider a) s1) []"
    using assms(1) by (simp add: quiet_channel_def digest_ends_def)
  from quiet.run_keeps[OF assms(4) this] assms(5)
  have "list_of (nt_overflow s2) (al_provider a) = ?ms" "dict_get (nt_digests s2) (al_provider a) = None"
    by (auto simp: quiet_channel_def)
  then show ?thesis by (simp add: digest_wakes_def)
qed

subsection \<open>The storm guard\<close>

lemma fire_storm: "fire clk r e now windowed s = (ok, effs, s1) \<Longrightarrow> nt_storm s1 = nt_storm s"
  by (erule fire_cases) (auto dest: schedule_frame(4))

lemma run_rules_storm: "run_rules clk now e rs s = (ok, effs, s1) \<Longrightarrow> nt_storm s1 = nt_storm s"
proof (induction rs arbitrary: s ok effs s1)
  case (Cons r rs)
  obtain o1 effs1 s2 where st: "rule_step clk now e r s = (o1, effs1, s2)" by (metis prod_cases3)
  obtain o2 effs2 s3 where rr: "run_rules clk now e rs s2 = (o2, effs2, s3)" by (metis prod_cases3)
  have "nt_storm s2 = nt_storm s"
    using st by (auto simp: rule_step_def Let_def dest: fire_storm split: option.splits if_splits)
  then show ?case using Cons st rr Cons.IH[OF rr] by (cases o1) (auto split: if_splits)
qed simp

definition recent_errors :: "(nat \<Rightarrow> real) \<Rightarrow> envelope \<Rightarrow> notifier \<Rightarrow> real list" where
  "recent_errors clk e s = prune_times (clk (nt_reads s)) (ac_storm_window (nt_config s))
     (if ERROR \<le> severity e then nt_errors s @ [clk (nt_reads s)] else nt_errors s)"

text \<open>While the recent errors exceed the threshold nothing goes out but one alert at the beginning of the
  storm; the guard is up exactly after an envelope that found the threshold exceeded.\<close>

theorem storm_guard:
  assumes "\<not> (py_startswith (topic e) ''bus.'' \<and> \<not> ac_internal (nt_config s))" "evaluate clk e s = (ok, effs, s1)"
  shows "(nt_storm s1 \<longleftrightarrow> ac_storm (nt_config s) < int (length (recent_errors clk e s))) \<and>
    (ac_storm (nt_config s) < int (length (recent_errors clk e s)) \<longrightarrow>
       effs = (if nt_storm s then [] else [Sent False (clk (Suc (nt_reads s))) (storm_alert s e)]))"
proof (cases "ac_storm (nt_config s) < int (length (recent_errors clk e s))")
  case True
  have st: "storm_alert (s\<lparr>nt_reads := Suc (nt_reads s)\<rparr>) e = storm_alert s e" by (simp add: storm_alert_def)
  from True show ?thesis
    using assms by (cases "nt_storm s") (auto simp: evaluate_def read_clock_def recent_errors_def schedule_delivery_def Let_def st split: if_splits)
next
  case False
  then show ?thesis
    using assms by (auto simp: evaluate_def read_clock_def recent_errors_def Let_def dest: run_rules_storm split: if_splits)
qed

subsection \<open>Witnesses\<close>

definition alert_config :: alerts_config where
  "alert_config = \<lparr>ac_dedup = 1, ac_max = 1, ac_window = 10, ac_storm = 5, ac_storm_window = 1, ac_internal = False, ac_rules = []\<rparr>"

definition alert_rule_one :: alert_rule where
  "alert_rule_one = \<lparr>ar_id = ''r'', ar_pattern = ''*'', ar_min = ERROR, ar_window = None, ar_count = None, ar_provider = ''c'',
     ar_recipients = One ''x'', ar_subject = Some ''s''\<rparr>"

definition alert_event :: "string \<Rightarrow> envelope" where
  "alert_event t = \<lparr>topic = t, payload = PNone, event_id = ''i'', timestamp = sample_time, source = None, severity = ERROR,
     priority = NORMAL, correlation_id = None, trace_context = PNone, metadata = PDict [], schema_version = 1\<rparr>"

definition alerter :: notifier where
  "alerter = notifier_new (Some [alert_rule_one]) (Some alert_config)"

lemmas alert_defs = alerter_def notifier_new_def alert_config_def alert_rule_one_def alert_event_def

lemma alert_event_fires:
  "alert_on_envelope (\<lambda>n. real n) (alert_event ''a'') alerter =
     ([Opened (''r'', ''a'') 0, Sent True 1 (rule_alert alert_config False alert_rule_one (alert_event ''a'') 0)],
      alerter\<lparr>nt_reads := 2, nt_dedup := [((''r'', ''a''), (0, 0))], nt_sent := [(''c'', [1])], nt_errors := [0]\<rparr>)"
proof -
  have c: "topic_class ''a'' = ''a''" "fnmatch ''a'' ''*''" by code_simp+
  then show ?thesis
    by (simp add: alert_on_envelope_def evaluate_def read_clock_def prune_times_def list_of_def schedule_delivery_def fire_def
        rule_step_def rule_applies_def Let_def alert_defs rule_alert_def)
qed

lemma alert_run_one:
  "alert_run (\<lambda>n. real n) alerter (fst (alert_on_envelope (\<lambda>n. real n) (alert_event ''a'') alerter))
     (snd (alert_on_envelope (\<lambda>n. real n) (alert_event ''a'') alerter))"
  using alert_run.run_envelope[OF alert_run.run_start surjective_pairing, of "\<lambda>n. real n" alerter "alert_event ''a''"] by simp

theorem channel_throttled_witness:
  "length (filter (\<lambda>t. 1 \<le> t \<and> t \<le> 1 + 10)
     (direct ''c'' (fst (alert_on_envelope (\<lambda>n. real n) (alert_event ''a'') alerter)))) \<le> (1::nat)"
proof -
  have "nt_config (snd (alert_on_envelope (\<lambda>n. real n) (alert_event ''a'') alerter)) = alert_config"
    unfolding alert_event_fires by (simp add: alerter_def notifier_new_def)
  then show ?thesis
    using channel_throttled[OF _ alert_run_one[unfolded alerter_def], folded alerter_def, of 1 "''c''"]
    by (simp add: mono_def alert_config_def)
qed

theorem alerts_deduplicated_witness:
  "opened (''r'', ''a'') (fst (alert_on_envelope (\<lambda>n. real n) (alert_event ''a'') alerter)) = [0] \<and>
   length (filter is_rule_alert (fst (alert_on_envelope (\<lambda>n. real n) (alert_event ''a'') alerter))) = 1"
  using alerts_deduplicated[OF alert_run_one[unfolded alerter_def], folded alerter_def]
  unfolding alert_event_fires by simp

definition stranding :: notifier where
  "stranding = alerter\<lparr>nt_sent := [(''c'', [0])], nt_digests := [(''c'', Sending)]\<rparr>"

theorem digest_strands_alerts_witness:
  "digest_wakes (\<lambda>n. real n) ''c''
     (digest_ends ''c'' (snd (snd (schedule_delivery (\<lambda>n. real n) False
        (rule_alert alert_config False alert_rule_one (alert_event ''a'') 0) stranding)))) =
   ([], digest_ends ''c'' (snd (snd (schedule_delivery (\<lambda>n. real n) False
        (rule_alert alert_config False alert_rule_one (alert_event ''a'') 0) stranding))))"
proof -
  let ?a = "rule_alert alert_config False alert_rule_one (alert_event ''a'') 0"
  let ?s = "schedule_delivery (\<lambda>n. real n) False ?a stranding"
  have "dict_get (nt_digests stranding) (al_provider ?a) = Some Sending" "al_provider ?a = ''c''"
    "ac_max (nt_config stranding) \<le> int (length (prune_times (real (nt_reads stranding)) (ac_window (nt_config stranding))
        (list_of (nt_sent stranding) (al_provider ?a))))"
    by (simp_all add: stranding_def alert_defs rule_alert_def prune_times_def list_of_def)
  moreover have "?s = (fst ?s, fst (snd ?s), snd (snd ?s))" by simp
  ultimately show ?thesis
    using digest_strands_alerts[of stranding ?a "\<lambda>n. real n" "fst ?s" "fst (snd ?s)" "snd (snd ?s)" "[]", OF _ _ _ alert_run.run_start] by simp
qed

end
