(* ===== verification/Bridge.thy ===== *)
theory Bridge
  imports Rabbit
begin

text \<open>
  The bridge of brokers/rabbitmq/bridge.py: envelopes of devices that arrive over MQTT are validated,
  deduplicated in Redis and republished on the domain exchange.  JSON of the standard library and the
  conditional \<open>SET\<close> of Redis are arguments.
\<close>

record bridge =
  br_ttl :: int
  br_versions :: "int list"
  br_max_batch :: int
  br_enforce :: bool
  br_exchange :: string
  br_redis :: bool

definition bridge_new :: "int \<Rightarrow> int list option \<Rightarrow> int list \<Rightarrow> int \<Rightarrow> bool \<Rightarrow> string \<Rightarrow> bridge" where
  "bridge_new ttl versions accepted max_batch enforce ex =
     \<lparr>br_ttl = ttl, br_versions = (case versions of None \<Rightarrow> accepted | Some vs \<Rightarrow> vs), br_max_batch = max_batch,
      br_enforce = enforce, br_exchange = ex, br_redis = False\<rparr>"

text \<open>What the bridge runs on: its channel, the codecs, and \<open>SET key 1 EX ttl NX\<close>, which may raise.\<close>

record ('o, 'w) bridge_env =
  be_amqp :: "'w amqp"
  be_codec :: "'o mq_codec"
  be_json :: "string \<Rightarrow> pyval result"
  be_set_nx :: "string \<Rightarrow> int \<Rightarrow> 'w \<Rightarrow> bool result \<times> 'w"

definition TYPE_TO_ROUTING_KEY :: "(string \<times> string) list" where
  "TYPE_TO_ROUTING_KEY =
     [(''status'', ''employee.status.updated''), (''events.check-in'', ''employee.checkin.recorded''),
      (''events/check-in'', ''employee.checkin.recorded''), (''events.incidents'', ''employee.incident.created''),
      (''events/incidents'', ''employee.incident.created'')]"

definition DLQ_EXCHANGE_PREFIX :: string where
  "DLQ_EXCHANGE_PREFIX = ''employee.events.dlq''"

text \<open>\<open>connects\<close>: the Redis client could be made; without it the bridge fails open.\<close>

definition bridge_start :: "('o, 'w) bridge_env \<Rightarrow> bool \<Rightarrow> bridge \<Rightarrow> 'w \<Rightarrow> unit result \<times> bridge \<times> 'w" where
  "bridge_start E connects B w =
     (let B1 = B\<lparr>br_redis := (br_redis B \<or> connects)\<rparr>; A = be_amqp E
      in case then_w (am_ensure A w) (\<lambda>w.
              then_w (ensure_exchange A (br_exchange B) ''topic'' w)
                (subscribe_to_events A ''amq.topic'' ''employee.events.ingest'' ''employees.#'' ''topic'' True 1 [])) of
           (r, w1) \<Rightarrow> (r, B1, w1))"

text \<open>Whether the key was new; without Redis, or when it raises, every key is.\<close>

definition dedup_set :: "('o, 'w) bridge_env \<Rightarrow> bridge \<Rightarrow> string \<Rightarrow> 'w \<Rightarrow> bool \<times> 'w" where
  "dedup_set E B key w =
     (if \<not> br_redis B then (True, w)
      else (case be_set_nx E key (br_ttl B) w of
              (Inl x, w1) \<Rightarrow> (True, w1)
            | (Inr fresh, w1) \<Rightarrow> (fresh, w1)))"

text \<open>What the dead-letter publication raises is only logged.\<close>

definition to_dlq :: "('o, 'w) bridge_env \<Rightarrow> pyval \<Rightarrow> string \<Rightarrow> string \<Rightarrow> 'w \<Rightarrow> 'w" where
  "to_dlq E body reason kind w =
     (let A = be_amqp E; ex = DLQ_EXCHANGE_PREFIX @ ''.'' @ kind;
          b = (case body of PDict d \<Rightarrow> PDict d | v \<Rightarrow> PDict [(''raw'', PStr (py_text (mq_repr (be_codec E)) v))])
      in snd (then_w (ensure_exchange A ex ''direct'' w)
           (publish_message A (be_codec E) (Value b) (Some ex) (Some []) [(''headers'', PDict [(''rejection_reason'', PStr reason)])])))"

definition dead_lettered :: "('o, 'w) bridge_env \<Rightarrow> pyval \<Rightarrow> string \<Rightarrow> string \<Rightarrow> 'w \<Rightarrow> mq_reply \<times> 'w" where
  "dead_lettered E body reason kind w = (Processed, to_dlq E body reason kind w)"

definition replied :: "unit result \<times> 'w \<Rightarrow> mq_reply \<times> 'w" where
  "replied p = (case p of (Inl x, w) \<Rightarrow> (Failed x, w) | (Inr u, w) \<Rightarrow> (Processed, w))"

text \<open>\<open>int(schema_version)\<close>; what cannot be converted is \<open>-1\<close>.\<close>

definition schema_int :: "pyval \<Rightarrow> int" where
  "schema_int v =
     (case v of
        PInt i \<Rightarrow> i
      | PBool b \<Rightarrow> (if b then 1 else 0)
      | PFloat x \<Rightarrow> (if 0 \<le> x then \<lfloor>x\<rfloor> else \<lceil>x\<rceil>)
      | PStr t \<Rightarrow> (case py_int 10 t of None \<Rightarrow> -1 | Some i \<Rightarrow> i)
      | _ \<Rightarrow> -1)"

definition event_key :: "('o, 'w) bridge_env \<Rightarrow> pyval \<Rightarrow> string" where
  "event_key E event_id = ''mqtt:dedup:'' @ py_text (mq_repr (be_codec E)) event_id"

definition position_key :: "('o, 'w) bridge_env \<Rightarrow> pyval \<Rightarrow> nat \<Rightarrow> string" where
  "position_key E event_id idx = event_key E event_id @ '':'' @ int_str (int idx)"

definition position_body :: "pydict \<Rightarrow> string \<Rightarrow> pydict \<Rightarrow> pydict" where
  "position_body body employee position =
     [(''employeeId'', PStr employee), (''lat'', get_or position ''lat'' PNone), (''lng'', get_or position ''lng'' PNone),
      (''ts'', get_or position ''ts'' PNone)] @
     (let tenant = get_or body ''tenantId'' PNone in if truthy_val tenant then [(''tenantId'', tenant)] else [])"

definition position_headers :: "pydict \<Rightarrow> pyval \<Rightarrow> nat \<Rightarrow> nat \<Rightarrow> pydict" where
  "position_headers body event_id idx batch_size =
     [(''eventId'', event_id), (''positionIndex'', PInt (int idx)), (''batchSize'', PInt (int batch_size))] @
     (let tenant = get_or body ''tenantId'' PNone in if truthy_val tenant then [(''tenantId'', tenant)] else [])"

text \<open>The positions from an index on; a position that is no dictionary raises after its key was set.\<close>

fun publish_positions ::
    "('o, 'w) bridge_env \<Rightarrow> bridge \<Rightarrow> pydict \<Rightarrow> pyval \<Rightarrow> string \<Rightarrow> nat \<Rightarrow> nat \<Rightarrow> pyval list \<Rightarrow> 'w \<Rightarrow> mq_reply \<times> 'w" where
  "publish_positions E B body event_id employee n idx [] w = (Processed, w)"
| "publish_positions E B body event_id employee n idx (p # ps) w =
     (case dedup_set E B (position_key E event_id idx) w of
        (False, w1) \<Rightarrow> publish_positions E B body event_id employee n (Suc idx) ps w1
      | (True, w1) \<Rightarrow>
          (case p of
             PDict d \<Rightarrow>
               (case publish_message (be_amqp E) (be_codec E) (Value (PDict (position_body body employee d)))
                       (Some (br_exchange B)) (Some ''employee.location.updated'')
                       [(''headers'', PDict (position_headers body event_id idx n))] w1 of
                  (Inl x, w2) \<Rightarrow> (Failed x, w2)
                | (Inr u, w2) \<Rightarrow> publish_positions E B body event_id employee n (Suc idx) ps w2)
           | _ \<Rightarrow> (Failed (OtherError ''AttributeError''), w1)))"

definition handle_location_batch ::
    "('o, 'w) bridge_env \<Rightarrow> bridge \<Rightarrow> pydict \<Rightarrow> pyval \<Rightarrow> string \<Rightarrow> pyval \<Rightarrow> 'w \<Rightarrow> mq_reply \<times> 'w" where
  "handle_location_batch E B body event_id employee positions w =
     (case positions of
        PList (p # ps) \<Rightarrow>
          if br_max_batch B < int (length (p # ps))
          then dead_lettered E (PDict body)
                 (''batch too large: '' @ int_str (int (length (p # ps))) @ '' > '' @ int_str (br_max_batch B)) ''batch_size'' w
          else publish_positions E B body event_id employee (length (p # ps)) 0 (p # ps) w
      | _ \<Rightarrow> dead_lettered E (PDict body) ''empty positions array'' ''empty_batch'' w)"

definition republish ::
    "('o, 'w) bridge_env \<Rightarrow> bridge \<Rightarrow> pydict \<Rightarrow> pyval \<Rightarrow> string \<Rightarrow> pyval \<Rightarrow> 'w \<Rightarrow> mq_reply \<times> 'w" where
  "republish E B body event_id employee kind w =
     (if (case kind of PList xs \<Rightarrow> True | PDict d \<Rightarrow> True | _ \<Rightarrow> False) then (Failed (TypeError ''unhashable type''), w)
      else (case (case kind of PStr t \<Rightarrow> dict_get TYPE_TO_ROUTING_KEY t | _ \<Rightarrow> None) of
              None \<Rightarrow> dead_lettered E (PDict body) (''unknown type='' @ py_text (mq_repr (be_codec E)) kind) ''unknown_type'' w
            | Some rk \<Rightarrow>
                replied (publish_message (be_amqp E) (be_codec E)
                  (Value (PDict [(''employeeId'', PStr employee), (''type'', kind), (''payload'', get_or body ''payload'' PNone),
                                 (''timestamp'', get_or body ''timestamp'' PNone)]))
                  (Some (br_exchange B)) (Some rk) [(''headers'', PDict [(''eventId'', event_id)])] w)))"

text \<open>The checks of an envelope, in order: the reason and kind of its dead letter, if one fails.\<close>

definition rejection :: "('o, 'w) bridge_env \<Rightarrow> bridge \<Rightarrow> amqp_message \<Rightarrow> pydict \<Rightarrow> (string \<times> string) option" where
  "rejection E B m body =
     (let rep = mq_repr (be_codec E); event_id = get_or body ''eventId'' PNone;
          employee = py_text rep (get_or body ''employeeId'' (PStr [])); kind = get_or body ''type'' PNone;
          version = get_or body ''schemaVersion'' PNone;
          user = (case ms_props m of None \<Rightarrow> None | Some p \<Rightarrow> pr_user_id p)
      in if \<not> truthy_val event_id \<or> employee = [] \<or> \<not> truthy_val kind \<or> version = PNone
         then Some (''missing required fields'', ''envelope'')
         else if schema_int version \<notin> set (br_versions B)
         then Some (''unsupported schemaVersion='' @ py_text rep version, ''schema'')
         else (case user of
                 Some u \<Rightarrow>
                   if br_enforce B \<and> u \<noteq> employee
                   then Some (''employeeId mismatch: mqtt='' @ u @ '' envelope='' @ employee, ''employee_id_mismatch'')
                   else None
               | None \<Rightarrow> None))"

definition handle_dict :: "('o, 'w) bridge_env \<Rightarrow> bridge \<Rightarrow> amqp_message \<Rightarrow> pydict \<Rightarrow> 'w \<Rightarrow> mq_reply \<times> 'w" where
  "handle_dict E B m body w =
     (let event_id = get_or body ''eventId'' PNone; kind = get_or body ''type'' PNone;
          employee = py_text (mq_repr (be_codec E)) (get_or body ''employeeId'' (PStr []))
      in case rejection E B m body of
           Some (reason, kd) \<Rightarrow> dead_lettered E (PDict body) reason kd w
         | None \<Rightarrow>
             (case dedup_set E B (event_key E event_id) w of
                (fresh, w1) \<Rightarrow>
                  if \<not> fresh \<and> kind \<noteq> PStr ''location.batch'' then (Processed, w1)
                  else if kind = PStr ''location.batch''
                  then handle_location_batch E B body event_id employee (get_or body ''positions'' (PList [])) w1
                  else republish E B body event_id employee kind w1))"

text \<open>A text is read as JSON; what it holds must be a dictionary, or its reading raises.\<close>

definition handle_envelope :: "('o, 'w) bridge_env \<Rightarrow> bridge \<Rightarrow> ('o, 'w) mq_callback" where
  "handle_envelope E B m body w =
     (case body of
        Value (PDict d) \<Rightarrow> handle_dict E B m d w
      | Value (PStr t) \<Rightarrow>
          (case be_json E t of
             Inl x \<Rightarrow> dead_lettered E (PStr t) ''non-json body'' ''envelope'' w
           | Inr (PDict d) \<Rightarrow> handle_dict E B m d w
           | Inr v \<Rightarrow> (Failed (OtherError ''AttributeError''), w))
      | _ \<Rightarrow> handle_dict E B m [] w)"

text \<open>A delivery of the bridge: its handler in the wrapper of the connection, with its three retries.\<close>

definition bridge_delivery :: "('o, 'w) bridge_env \<Rightarrow> bridge \<Rightarrow> amqp_message \<Rightarrow> 'w \<Rightarrow> unit result \<times> 'w" where
  "bridge_delivery E B m w = wrapped_callback (be_amqp E) (be_codec E) (handle_envelope E B) 3 m w"

section \<open>Properties\<close>

text \<open>
  Properties of the bridge: nothing is published twice, a batch is fanned out exactly, an event whose
  publication failed is never published, and what happens on a driver without a \<open>headers\<close> argument.
\<close>

subsection \<open>The environment\<close>

text \<open>
  \<open>keys\<close> are the keys set in Redis, \<open>sent\<close> the publications that were accepted: Redis sets a key exactly when
  it is new, and nothing else touches the keys; a publication is sent exactly when it does not raise.
\<close>

definition publishes :: "amqp_command \<Rightarrow> bool" where
  "publishes c \<longleftrightarrow> (case c of Basic_publish b ex rk p kw \<Rightarrow> True | _ \<Rightarrow> False)"

definition bridge_laws :: "('o, 'w) bridge_env \<Rightarrow> ('w \<Rightarrow> string set) \<Rightarrow> ('w \<Rightarrow> amqp_command list) \<Rightarrow> bool" where
  "bridge_laws E keys sent \<longleftrightarrow>
     (\<forall>w. keys (snd (am_ensure (be_amqp E) w)) = keys w \<and> sent (snd (am_ensure (be_amqp E) w)) = sent w) \<and>
     (\<forall>c w. keys (snd (am_run (be_amqp E) c w)) = keys w \<and>
        sent (snd (am_run (be_amqp E) c w)) =
          sent w @ (if publishes c \<and> \<not> isl (fst (am_run (be_amqp E) c w)) then [c] else [])) \<and>
     (\<forall>k ttl w. fst (be_set_nx E k ttl w) = Inr (k \<notin> keys w) \<and> keys (snd (be_set_nx E k ttl w)) = insert k (keys w) \<and>
        sent (snd (be_set_nx E k ttl w)) = sent w)"

lemma laws_frame:
  assumes "bridge_laws E keys sent"
  shows "keys (snd (am_ensure (be_amqp E) w)) = keys w" "sent (snd (am_ensure (be_amqp E) w)) = sent w"
    "keys (snd (am_run (be_amqp E) c w)) = keys w"
    "sent (snd (am_run (be_amqp E) c w)) = sent w @ (if publishes c \<and> \<not> isl (fst (am_run (be_amqp E) c w)) then [c] else [])"
  using assms by (simp_all add: bridge_laws_def)

lemma ensure_exchange_frame:
  assumes "bridge_laws E keys sent" "ensure_exchange (be_amqp E) ex kind w = (r, w1)"
  shows "r = Inr ()" "keys w1 = keys w" "sent w1 = sent w"
  using assms(2) laws_frame[OF assms(1)]
  by (auto simp: ensure_exchange_def create_exchange_def logged_def publishes_def split: if_splits)

text \<open>A publication that the driver accepted although it has a \<open>headers\<close> argument.\<close>

definition accepted :: "('o, 'w) bridge_env \<Rightarrow> amqp_command \<Rightarrow> bool" where
  "accepted E c \<longleftrightarrow> (\<exists>b ex rk p kw w. c = Basic_publish b ex rk p kw \<and> ''headers'' \<in> fst ` set kw \<and>
     \<not> isl (fst (am_run (be_amqp E) c w)))"

text \<open>What a publication with headers comes to: nothing, or one accepted command with these headers.\<close>

lemma publish_effect:
  assumes "bridge_laws E keys sent"
    "publish_message (be_amqp E) C body (Some ex) (Some rk) [(''headers'', PDict h)] w = (r, w1)"
  shows "keys w1 = keys w \<and> (sent w1 = sent w \<or>
    (\<exists>t ct kw. let c = Basic_publish t ex rk (publish_props ct (dict_setdefault ''x-retry'' (PStr ''0'') h)) kw
       in sent w1 = sent w @ [c] \<and> accepted E c))"
proof -
  obtain r0 w0 where e: "am_ensure (be_amqp E) w = (r0, w0)" by force
  have w0: "keys w0 = keys w" "sent w0 = sent w" using laws_frame(1,2)[OF assms(1), of w] e by simp_all
  show ?thesis
  proof (cases r0)
    case (Inl x)
    then show ?thesis using assms(2) e w0 by (simp add: publish_message_def)
  next
    case (Inr u)
    obtain r2 w2 where x: "ensure_exchange (be_amqp E) ex ''topic'' w0 = (r2, w2)" by force
    have w2: "r2 = Inr ()" "keys w2 = keys w" "sent w2 = sent w" using ensure_exchange_frame[OF assms(1) x] w0 by simp_all
    show ?thesis
    proof (cases "encode_body C body")
      case (Inl y)
      then show ?thesis using assms(2) e x w2 Inr by (simp add: publish_message_def get_or_def Let_def)
    next
      case enc: (Inr p)
      obtain t ct where p: "p = (t, ct)" by force
      let ?hs = "dict_setdefault ''x-retry'' (PStr ''0'') h"
      let ?c = "Basic_publish (mq_to_utf8 C t) ex rk (publish_props ct ?hs) (publish_args ?hs [(''headers'', PDict h)])"
      have "w1 = w2 \<or> w1 = snd (am_run (be_amqp E) ?c w2)"
        using assms(2) e x w2 Inr enc p
        by (auto simp: publish_message_def get_or_def Let_def logged_def require_channel_def split: if_splits)
      then show ?thesis
      proof
        assume "w1 = snd (am_run (be_amqp E) ?c w2)"
        then show ?thesis
          using laws_frame(3,4)[OF assms(1), of ?c w2] w2 by (auto simp: Let_def accepted_def publish_args_def publishes_def)
      qed (use w2 in simp)
    qed
  qed
qed

subsection \<open>At most once\<close>

text \<open>The deduplication key a publication stands for, if it carries an event id.\<close>

definition publication_key :: "('o, 'w) bridge_env \<Rightarrow> amqp_command \<Rightarrow> string option" where
  "publication_key E c =
     (case c of
        Basic_publish b ex rk p kw \<Rightarrow>
          (case dict_get (pr_headers p) ''eventId'' of
             Some (Val v) \<Rightarrow>
               Some (case dict_get (pr_headers p) ''positionIndex'' of
                       Some (Val (PInt i)) \<Rightarrow> position_key E v (nat i)
                     | _ \<Rightarrow> event_key E v)
           | _ \<Rightarrow> None)
      | _ \<Rightarrow> None)"

abbreviation keys_of :: "('o, 'w) bridge_env \<Rightarrow> amqp_command list \<Rightarrow> string list" where
  "keys_of E cs \<equiv> List.map_filter (publication_key E) cs"

lemma keys_of_append [simp]: "keys_of E (xs @ ys) = keys_of E xs @ keys_of E ys"
  by (simp add: List.map_filter_def)

lemma keys_of_Nil [simp]: "keys_of E [] = []" by (simp add: List.map_filter_simps)

lemma keys_of_single: "keys_of E [c] = (case publication_key E c of None \<Rightarrow> [] | Some k \<Rightarrow> [k])"
  by (simp add: List.map_filter_simps split: option.split)

text \<open>A step only sets keys, and publishes only under keys that are set by it, each once.\<close>

definition grows :: "('o, 'w) bridge_env \<Rightarrow> ('w \<Rightarrow> string set) \<Rightarrow> ('w \<Rightarrow> amqp_command list) \<Rightarrow> 'w \<Rightarrow> 'w \<Rightarrow> bool" where
  "grows E keys sent w w1 \<longleftrightarrow> keys w \<subseteq> keys w1 \<and>
     (\<exists>e. sent w1 = sent w @ e \<and> distinct (keys_of E e) \<and> set (keys_of E e) \<inter> keys w = {} \<and> set (keys_of E e) \<subseteq> keys w1 \<and>
        list_all (accepted E) e)"

lemma grows_quiet: "keys w \<subseteq> keys w1 \<Longrightarrow> sent w1 = sent w \<Longrightarrow> grows E keys sent w w1"
  by (auto simp: grows_def)

lemma grows_trans: "grows E keys sent w w1 \<Longrightarrow> grows E keys sent w1 w2 \<Longrightarrow> grows E keys sent w w2"
proof -
  assume "grows E keys sent w w1" "grows E keys sent w1 w2"
  then obtain e1 e2 where
    "keys w \<subseteq> keys w1" "sent w1 = sent w @ e1" "distinct (keys_of E e1)" "set (keys_of E e1) \<inter> keys w = {}" "set (keys_of E e1) \<subseteq> keys w1" "list_all (accepted E) e1"
    "keys w1 \<subseteq> keys w2" "sent w2 = sent w1 @ e2" "distinct (keys_of E e2)" "set (keys_of E e2) \<inter> keys w1 = {}" "set (keys_of E e2) \<subseteq> keys w2" "list_all (accepted E) e2"
    unfolding grows_def by blast
  then show ?thesis unfolding grows_def by (intro conjI exI[of _ "e1 @ e2"]) auto
qed

lemma published_header: "dict_get (pr_headers (publish_props ct h)) k = map_option Val (dict_get h k)"
  unfolding publish_props_def by (induction h) auto

lemma publish_keyless_grows:
  assumes "bridge_laws E keys sent" "dict_get h ''eventId'' = None"
    "publish_message (be_amqp E) C body (Some ex) (Some rk) [(''headers'', PDict h)] w = (r, w1)"
  shows "grows E keys sent w w1"
proof -
  have "publication_key E (Basic_publish t ex rk (publish_props ct (dict_setdefault ''x-retry'' (PStr ''0'') h)) kw) = None" for t ct kw
    using assms(2) by (simp add: publication_key_def published_header)
  with publish_effect[OF assms(1,3)] show ?thesis by (auto simp: grows_def keys_of_single Let_def)
qed

lemma to_dlq_grows:
  assumes "bridge_laws E keys sent"
  shows "grows E keys sent w (to_dlq E b reason kind w)"
proof -
  let ?ex = "DLQ_EXCHANGE_PREFIX @ ''.'' @ kind"
  obtain r2 w2 where x: "ensure_exchange (be_amqp E) ?ex ''direct'' w = (r2, w2)" by force
  note f = ensure_exchange_frame[OF assms x]
  let ?p = "publish_message (be_amqp E) (be_codec E)
    (Value (case b of PDict d \<Rightarrow> PDict d | v \<Rightarrow> PDict [(''raw'', PStr (py_text (mq_repr (be_codec E)) v))]))
    (Some ?ex) (Some []) [(''headers'', PDict [(''rejection_reason'', PStr reason)])] w2"
  have "grows E keys sent w2 (snd ?p)"
    by (rule publish_keyless_grows[OF assms, where r = "fst ?p"]) auto
  then show ?thesis
    using grows_trans[OF grows_quiet[of keys w w2 sent E]] f x by (simp add: to_dlq_def Let_def)
qed

lemma dedup_set_effect:
  assumes "bridge_laws E keys sent" "br_redis B" "dedup_set E B k w = (fresh, w1)"
  shows "fresh \<longleftrightarrow> k \<notin> keys w" "keys w1 = insert k (keys w)" "sent w1 = sent w"
proof -
  have "fst (be_set_nx E k (br_ttl B) w) = Inr (k \<notin> keys w)" "keys (snd (be_set_nx E k (br_ttl B) w)) = insert k (keys w)"
    "sent (snd (be_set_nx E k (br_ttl B) w)) = sent w"
    using assms(1) by (simp_all add: bridge_laws_def)
  then show "fresh \<longleftrightarrow> k \<notin> keys w" "keys w1 = insert k (keys w)" "sent w1 = sent w"
    using assms(2,3) by (auto simp: dedup_set_def split: prod.splits)
qed

lemma keyed_publish_grows:
  assumes "bridge_laws E keys sent" "br_redis B" "dedup_set E B k w = (True, w1)"
    "publish_message (be_amqp E) C body (Some ex) (Some rk) [(''headers'', PDict h)] w1 = (r, w2)"
    "\<And>t ct kw. publication_key E (Basic_publish t ex rk (publish_props ct (dict_setdefault ''x-retry'' (PStr ''0'') h)) kw) = Some k"
  shows "grows E keys sent w w2"
  using publish_effect[OF assms(1,4)] dedup_set_effect[OF assms(1-3)] assms(5)
  by (auto simp: grows_def keys_of_single Let_def)

lemma event_publication_key:
  "publication_key E (Basic_publish t ex rk (publish_props ct (dict_setdefault ''x-retry'' (PStr ''0'') [(''eventId'', v)])) kw) = Some (event_key E v)"
  by (simp add: publication_key_def published_header)

lemma position_publication_key:
  "publication_key E (Basic_publish t ex rk
     (publish_props ct (dict_setdefault ''x-retry'' (PStr ''0'') (position_headers body v idx n))) kw) = Some (position_key E v idx)"
  by (simp add: publication_key_def published_header position_headers_def Let_def)

lemma positions_grow:
  assumes "bridge_laws E keys sent" "br_redis B"
  shows "grows E keys sent w (snd (publish_positions E B body v employee n idx ps w))"
proof (induction ps arbitrary: idx w)
  case (Cons p ps)
  obtain fresh w1 where d: "dedup_set E B (position_key E v idx) w = (fresh, w1)" by force
  note f = dedup_set_effect[OF assms d]
  have g1: "grows E keys sent w w1" using f by (intro grows_quiet) auto
  show ?case
  proof (cases "fresh \<and> (\<exists>d. p = PDict d)")
    case True
    then obtain q where p: "fresh" "p = PDict q" by auto
    let ?pub = "publish_message (be_amqp E) (be_codec E) (Value (PDict (position_body body employee q)))
      (Some (br_exchange B)) (Some ''employee.location.updated'') [(''headers'', PDict (position_headers body v idx n))] w1"
    obtain r w2 where u: "?pub = (r, w2)" by force
    have "grows E keys sent w w2"
      by (rule keyed_publish_grows[OF assms _ u]) (use d p in \<open>simp_all add: position_publication_key\<close>)
    then show ?thesis
      using d p u grows_trans[OF _ Cons.IH[of w2 "Suc idx"]] by (cases r) auto
  next
    case False
    then show ?thesis using d g1 grows_trans[OF g1 Cons.IH[of w1 "Suc idx"]] by (cases fresh; cases p) auto
  qed
qed (auto intro: grows_quiet)

lemma dead_lettered_grows: "bridge_laws E keys sent \<Longrightarrow> grows E keys sent w (snd (dead_lettered E b reason kind w))"
  by (simp add: dead_lettered_def to_dlq_grows)

lemma batch_grows:
  assumes "bridge_laws E keys sent" "br_redis B"
  shows "grows E keys sent w (snd (handle_location_batch E B body v employee ps w))"
  using dead_lettered_grows[OF assms(1)] positions_grow[OF assms]
  by (auto simp: handle_location_batch_def simp del: publish_positions.simps split: pyval.split list.split)

lemma republish_grows:
  assumes "bridge_laws E keys sent" "br_redis B" "dedup_set E B (event_key E v) w = (True, w1)"
  shows "grows E keys sent w (snd (republish E B body v employee kind w1))"
proof -
  have g: "grows E keys sent w w1" using dedup_set_effect[OF assms] by (intro grows_quiet) auto
  show ?thesis
  proof (cases "\<exists>rk. (case kind of PStr t \<Rightarrow> dict_get TYPE_TO_ROUTING_KEY t | _ \<Rightarrow> None) = Some rk")
    case True
    then obtain t rk where k: "kind = PStr t" "dict_get TYPE_TO_ROUTING_KEY t = Some rk" by (auto split: pyval.splits)
    obtain r w2 where u: "publish_message (be_amqp E) (be_codec E)
        (Value (PDict [(''employeeId'', PStr employee), (''type'', kind), (''payload'', get_or body ''payload'' PNone),
                       (''timestamp'', get_or body ''timestamp'' PNone)]))
        (Some (br_exchange B)) (Some rk) [(''headers'', PDict [(''eventId'', v)])] w1 = (r, w2)" by force
    have "grows E keys sent w w2" by (rule keyed_publish_grows[OF assms u event_publication_key])
    then show ?thesis using u k by (cases r) (simp_all add: republish_def replied_def)
  next
    case False
    then have "snd (republish E B body v employee kind w1) = w1 \<or>
        (\<exists>reason. republish E B body v employee kind w1 = dead_lettered E (PDict body) reason ''unknown_type'' w1)"
      by (auto simp: republish_def split: pyval.splits option.splits)
    then show ?thesis using g grows_trans[OF g dead_lettered_grows[OF assms(1)]] by metis
  qed
qed

lemma republish_keys:
  assumes "bridge_laws E keys sent"
  shows "keys w \<subseteq> keys (snd (republish E B body v employee kind w))"
proof -
  have "keys w \<subseteq> keys (snd (dead_lettered E b reason kd w))" for b reason kd
    using dead_lettered_grows[OF assms] by (simp add: grows_def)
  moreover have "keys w \<subseteq> keys (snd (replied (publish_message (be_amqp E) (be_codec E) c (Some ex) (Some rk) [(''headers'', PDict h)] w)))"
    for c ex rk h
    using publish_effect[OF assms, of "be_codec E" c ex rk h w]
    by (cases "publish_message (be_amqp E) (be_codec E) c (Some ex) (Some rk) [(''headers'', PDict h)] w")
      (auto simp: replied_def split: sum.split)
  ultimately show ?thesis by (auto simp: republish_def split: option.split)
qed

lemma handle_dict_grows:
  assumes "bridge_laws E keys sent" "br_redis B"
  shows "grows E keys sent w (snd (handle_dict E B m body w))"
proof -
  let ?v = "get_or body ''eventId'' PNone"
  obtain fresh w1 where d: "dedup_set E B (event_key E ?v) w = (fresh, w1)" by force
  have g: "grows E keys sent w w1" using dedup_set_effect[OF assms d] by (intro grows_quiet) auto
  show ?thesis
    using g dead_lettered_grows[OF assms(1)] grows_trans[OF g batch_grows[OF assms]] republish_grows[OF assms, of ?v w w1] d
    by (auto simp: handle_dict_def Let_def split: option.split)
qed

lemma handle_envelope_grows:
  assumes "bridge_laws E keys sent" "br_redis B"
  shows "grows E keys sent w (snd (handle_envelope E B m b w))"
proof -
  note g = handle_dict_grows[OF assms] dead_lettered_grows[OF assms(1)] grows_quiet[of keys w w sent E]
  show ?thesis
  proof (cases b)
    case (Value v)
    show ?thesis
    proof (cases v)
      case (PStr t)
      show ?thesis
      proof (cases "be_json E t")
        case (Inr u)
        then show ?thesis using Value PStr g by (cases u) (simp_all add: handle_envelope_def)
      qed (use Value PStr g in \<open>simp add: handle_envelope_def\<close>)
    qed (use Value g in \<open>simp_all add: handle_envelope_def\<close>)
  qed (use g in \<open>simp_all add: handle_envelope_def\<close>)
qed

text \<open>The messages of a series of deliveries, redeliveries included, handled one after the other.\<close>

definition handle_all :: "('o, 'w) bridge_env \<Rightarrow> bridge \<Rightarrow> (amqp_message \<times> 'o mq_body) list \<Rightarrow> 'w \<Rightarrow> 'w" where
  "handle_all E B ms w = fold (\<lambda>(m, b) w. snd (handle_envelope E B m b w)) ms w"

lemma handle_all_grows:
  assumes "bridge_laws E keys sent" "br_redis B"
  shows "grows E keys sent w (handle_all E B ms w)"
  unfolding handle_all_def
proof (induction ms arbitrary: w)
  case (Cons p ms)
  obtain m b where p: "p = (m, b)" by force
  show ?case using grows_trans[OF handle_envelope_grows[OF assms, of w m b] Cons.IH] by (simp add: p)
qed (simp add: grows_quiet)

text \<open>C23: However often messages are delivered and whatever they hold, as long as the keys are kept and Redis
  answers, no two publications stand for the same event or the same position of a batch.\<close>

theorem bridge_publishes_once:
  assumes "bridge_laws E keys sent" "br_redis B" "sent w = []"
  shows "distinct (keys_of E (sent (handle_all E B ms w)))"
  using handle_all_grows[OF assms(1,2), of w ms] assms(3) by (auto simp: grows_def)

subsection \<open>Lost events\<close>

lemma rejection_of_user:
  "map_option pr_user_id (ms_props m) = map_option pr_user_id (ms_props m') \<Longrightarrow> rejection E B m body = rejection E B m' body"
  by (cases "ms_props m"; cases "ms_props m'") (auto simp: rejection_def Let_def)

text \<open>When publishing an event raises, the wrapper publishes its message again; but its key is set already, so
  that the redelivered message is skipped as a duplicate and acknowledged: the event is lost.\<close>

theorem failed_event_skipped_on_retry:
  assumes "bridge_laws E keys sent" "br_redis B" "get_or body ''type'' PNone \<noteq> PStr ''location.batch''"
    "handle_envelope E B m (Value (PDict body)) w = (Failed x, w1)" "keys w1 \<subseteq> keys w2"
    "map_option pr_user_id (ms_props m') = map_option pr_user_id (ms_props m)"
  shows "\<exists>w3. handle_envelope E B m' (Value (PDict body)) w2 = (Processed, w3) \<and> sent w3 = sent w2"
proof -
  let ?v = "get_or body ''eventId'' PNone" and ?kind = "get_or body ''type'' PNone"
  let ?employee = "py_text (mq_repr (be_codec E)) (get_or body ''employeeId'' (PStr []))"
  have rej: "rejection E B m body = None"
  proof (cases "rejection E B m body")
    case (Some p)
    obtain reason kd where "p = (reason, kd)" by force
    then show ?thesis using assms(4) Some by (simp add: handle_envelope_def handle_dict_def Let_def dead_lettered_def)
  qed
  obtain fresh w0 where d: "dedup_set E B (event_key E ?v) w = (fresh, w0)" by force
  then have fresh: "fresh" and "snd (republish E B body ?v ?employee ?kind w0) = w1"
    using assms(3,4) rej by (auto simp: handle_envelope_def handle_dict_def Let_def split: if_splits)
  then have "event_key E ?v \<in> keys w2"
    using republish_keys[OF assms(1), of w0 B body ?v ?employee ?kind] dedup_set_effect[OF assms(1,2) d] assms(5) by auto
  moreover obtain f3 w3 where d3: "dedup_set E B (event_key E ?v) w2 = (f3, w3)" by force
  ultimately show ?thesis
    using dedup_set_effect[OF assms(1,2) d3] assms(3) rej rejection_of_user[OF assms(6), of E B body]
    by (simp add: handle_envelope_def handle_dict_def Let_def)
qed

text \<open>aiormq's \<open>basic_publish\<close> has no parameter \<open>headers\<close>: a call with one raises.\<close>

definition refuses_headers :: "'w amqp \<Rightarrow> bool" where
  "refuses_headers A \<longleftrightarrow>
     (\<forall>b ex rk p kw w. ''headers'' \<in> fst ` set kw \<longrightarrow> isl (fst (am_run A (Basic_publish b ex rk p kw) w)))"

text \<open>The connection is there and JSON has a form for what is published.\<close>

definition connected_and_encodes :: "('o, 'w) bridge_env \<Rightarrow> bool" where
  "connected_and_encodes E \<longleftrightarrow>
     (\<forall>w. fst (am_ensure (be_amqp E) w) = Inr () \<and> am_channel (be_amqp E) w) \<and>
     (\<forall>v. \<not> isl (dumps (mq_json (be_codec E)) v))"

lemma ensure_exchange_reply: "fst (ensure_exchange A ex kind w) = Inr ()"
  by (simp add: ensure_exchange_def create_exchange_def)

lemma publish_reply:
  assumes "connected_and_encodes E"
  shows "fst (publish_message (be_amqp E) (be_codec E) (Value (PDict d)) (Some ex) (Some rk) [(''headers'', PDict h)] w) = Inr ()"
proof -
  obtain w0 where "am_ensure (be_amqp E) w = (Inr (), w0)"
    using assms unfolding connected_and_encodes_def by (metis prod.collapse)
  moreover obtain w1 where "ensure_exchange (be_amqp E) ex ''topic'' w0 = (Inr (), w1)"
    using ensure_exchange_reply by (metis prod.collapse)
  moreover obtain t where "dumps (mq_json (be_codec E)) (PDict d) = Inr t"
    using assms unfolding connected_and_encodes_def by (metis isl_def sum.exhaust)
  ultimately show ?thesis by (simp add: publish_message_def get_or_def Let_def encode_body_def)
qed

text \<open>C33: On a driver without a \<open>headers\<close> argument the bridge never publishes anything, neither an event nor a dead
  letter: its publications name the headers once as properties and once more as an argument.  The exception
  is only logged, so an accepted event of a known type is answered as processed, and is acknowledged.\<close>

theorem bridge_never_publishes:
  assumes "bridge_laws E keys sent" "br_redis B" "refuses_headers (be_amqp E)" "connected_and_encodes E"
  shows "sent (snd (handle_envelope E B m b w)) = sent w \<and>
    (rejection E B m body = None \<and> get_or body ''type'' PNone = PStr t \<and> dict_get TYPE_TO_ROUTING_KEY t = Some rk \<longrightarrow>
      fst (handle_envelope E B m (Value (PDict body)) w) = Processed)"
proof (intro conjI impI)
  have "\<not> accepted E c" for c using assms(3) by (auto simp: accepted_def refuses_headers_def)
  then show "sent (snd (handle_envelope E B m b w)) = sent w"
    using handle_envelope_grows[OF assms(1,2), of w m b] by (cases "sent (snd (handle_envelope E B m b w))") (auto simp: grows_def list_all_iff)
next
  assume b: "rejection E B m body = None \<and> get_or body ''type'' PNone = PStr t \<and> dict_get TYPE_TO_ROUTING_KEY t = Some rk"
  then have "t \<noteq> ''location.batch''" by (auto simp: TYPE_TO_ROUTING_KEY_def)
  moreover have "fst (replied p) = Processed" if "fst p = Inr ()" for p :: "unit result \<times> 'b"
    using that by (cases p) (simp add: replied_def)
  ultimately show "fst (handle_envelope E B m (Value (PDict body)) w) = Processed"
    using b by (simp add: handle_envelope_def handle_dict_def Let_def republish_def publish_reply[OF assms(4)] split: prod.split)
qed

subsection \<open>Batches\<close>

text \<open>A driver that accepts everything, and the publication of one position.\<close>

definition accepting :: "'w amqp \<Rightarrow> bool" where
  "accepting A \<longleftrightarrow> (\<forall>c w. \<not> isl (fst (am_run A c w)))"

definition position_publication :: "('o, 'w) bridge_env \<Rightarrow> bridge \<Rightarrow> pydict \<Rightarrow> pyval \<Rightarrow> string \<Rightarrow> nat \<Rightarrow> nat \<times> pydict \<Rightarrow> amqp_command" where
  "position_publication E B body v employee n p =
     (let hs = dict_setdefault ''x-retry'' (PStr ''0'') (position_headers body v (fst p) n)
      in Basic_publish (mq_to_utf8 (be_codec E) (projr (dumps (mq_json (be_codec E)) (PDict (position_body body employee (snd p))))))
           (br_exchange B) ''employee.location.updated'' (publish_props ''application/json'' hs)
           (publish_args hs [(''headers'', PDict (position_headers body v (fst p) n))]))"

lemma publish_message_command:
  assumes "am_ensure A w = (Inr (), w0)" "ensure_exchange A ex ''topic'' w0 = (Inr (), w2)" "am_channel A w2"
    "dumps (mq_json C) (PDict d) = Inr t"
  shows "publish_message A C (Value (PDict d)) (Some ex) (Some rk) [(''headers'', PDict h)] w =
    (let hs = dict_setdefault ''x-retry'' (PStr ''0'') h
     in (Inr (), snd (am_run A (Basic_publish (mq_to_utf8 C t) ex rk (publish_props ''application/json'' hs)
          (publish_args hs [(''headers'', PDict h)])) w2)))"
  using assms by (simp add: publish_message_def get_or_def Let_def encode_body_def logged_def require_channel_def)

lemma publish_accepted:
  assumes "bridge_laws E keys sent" "connected_and_encodes E" "accepting (be_amqp E)"
  shows "\<exists>w1. publish_message (be_amqp E) (be_codec E) (Value (PDict (position_body body employee d))) (Some (br_exchange B))
      (Some ''employee.location.updated'') [(''headers'', PDict (position_headers body v i n))] w = (Inr (), w1) \<and>
    keys w1 = keys w \<and> sent w1 = sent w @ [position_publication E B body v employee n (i, d)]"
proof -
  let ?b = "PDict (position_body body employee d)" and ?ex = "br_exchange B"
  let ?c = "position_publication E B body v employee n (i, d)"
  obtain w0 where e: "am_ensure (be_amqp E) w = (Inr (), w0)"
    using assms(2) unfolding connected_and_encodes_def by (metis prod.collapse)
  then have w0: "keys w0 = keys w" "sent w0 = sent w" using laws_frame(1,2)[OF assms(1), of w] by simp_all
  obtain w2 where x: "ensure_exchange (be_amqp E) ?ex ''topic'' w0 = (Inr (), w2)"
    using ensure_exchange_reply by (metis prod.collapse)
  have w2: "keys w2 = keys w" "sent w2 = sent w" using ensure_exchange_frame[OF assms(1) x] w0 by simp_all
  obtain t where t: "dumps (mq_json (be_codec E)) ?b = Inr t"
    using assms(2) unfolding connected_and_encodes_def by (metis isl_def sum.exhaust)
  have ch: "am_channel (be_amqp E) w2" using assms(2) unfolding connected_and_encodes_def by blast
  have "publish_message (be_amqp E) (be_codec E) (Value ?b) (Some ?ex) (Some ''employee.location.updated'')
      [(''headers'', PDict (position_headers body v i n))] w = (Inr (), snd (am_run (be_amqp E) ?c w2))"
    unfolding position_publication_def Let_def fst_conv snd_conv t sum.sel
    by (rule publish_message_command[OF e x ch t, unfolded Let_def])
  moreover have "publishes ?c" by (simp add: publishes_def position_publication_def Let_def)
  ultimately show ?thesis using laws_frame(3,4)[OF assms(1), of ?c w2] w2 assms(3) by (simp add: accepting_def)
qed

lemma position_key_inject: "position_key E v i = position_key E v j \<longleftrightarrow> i = j"
proof
  assume "position_key E v i = position_key E v j"
  then have "int_str (int i) = int_str (int j)" by (simp add: position_key_def)
  then show "i = j" by (metis py_int_int_str option.inject of_nat_eq_iff)
qed simp

lemma positions_published:
  assumes "bridge_laws E keys sent" "connected_and_encodes E" "accepting (be_amqp E)" "br_redis B"
  shows "\<exists>w1. publish_positions E B body v employee n i (map PDict ds) w = (Processed, w1) \<and>
    sent w1 = sent w @ map (position_publication E B body v employee n)
      (filter (\<lambda>(j, d). position_key E v j \<notin> keys w) (enumerate i ds))"
proof (induction ds arbitrary: i w)
  case (Cons d ds)
  obtain fresh w1 where s: "dedup_set E B (position_key E v i) w = (fresh, w1)" by force
  note f = dedup_set_effect[OF assms(1,4) s]
  have later: "filter (\<lambda>(j, d). position_key E v j \<notin> keys u) (enumerate (Suc i) ds) =
      filter (\<lambda>(j, d). position_key E v j \<notin> keys w) (enumerate (Suc i) ds)" if "keys u = insert (position_key E v i) (keys w)" for u
    by (rule filter_cong) (auto simp: that position_key_inject in_set_enumerate_eq)
  show ?case
  proof (cases fresh)
    case True
    obtain w2 where p: "publish_message (be_amqp E) (be_codec E) (Value (PDict (position_body body employee d))) (Some (br_exchange B))
      (Some ''employee.location.updated'') [(''headers'', PDict (position_headers body v i n))] w1 = (Inr (), w2)"
      "keys w2 = keys w1" "sent w2 = sent w1 @ [position_publication E B body v employee n (i, d)]"
      using publish_accepted[OF assms(1-3), of body employee d B v i n w1] by blast
    from Cons.IH[of "Suc i" w2] show ?thesis using s f True p later[of w2] by auto
  next
    case False
    from Cons.IH[of "Suc i" w1] show ?thesis using s f False later[of w1] by auto
  qed
qed simp


subsection \<open>A concrete environment\<close>

text \<open>
  Redis as the list of its keys, the broker as the list of what it accepted: \<open>up\<close> says whether there is a
  connection, \<open>strict\<close> whether the driver refuses headers.
\<close>

definition sample_amqp :: "bool \<Rightarrow> bool \<Rightarrow> (string list \<times> amqp_command list) amqp" where
  "sample_amqp up strict =
     \<lparr>am_ensure = (\<lambda>w. (if up then Inr () else Inl (RuntimeError ''down''), w)), am_channel = (\<lambda>w. True),
      am_run = (\<lambda>c w. case c of
         Basic_publish b ex rk p kw \<Rightarrow>
           if strict \<and> ''headers'' \<in> fst ` set kw then (Inl (TypeError ''headers''), w) else (Inr (), (fst w, snd w @ [c]))
       | _ \<Rightarrow> (Inr (), w))\<rparr>"

definition sample_env :: "bool \<Rightarrow> bool \<Rightarrow> (unit, string list \<times> amqp_command list) bridge_env" where
  "sample_env up strict =
     \<lparr>be_amqp = sample_amqp up strict, be_codec = sample_mq_codec, be_json = (\<lambda>t. Inr PNone),
      be_set_nx = (\<lambda>k ttl w. (Inr (k \<notin> set (fst w)), (k # fst w, snd w)))\<rparr>"

definition sample_bridge :: bridge where
  "sample_bridge = (bridge_new 600 None [1] 200 True ''employee.events'')\<lparr>br_redis := True\<rparr>"

definition sample_status :: pydict where
  "sample_status = [(''eventId'', PStr ''1''), (''employeeId'', PStr ''e''), (''type'', PStr ''status''), (''schemaVersion'', PInt 1)]"

definition sample_batch :: pydict where
  "sample_batch = [(''eventId'', PStr ''1''), (''employeeId'', PStr ''e''), (''type'', PStr ''location.batch''), (''schemaVersion'', PInt 1),
     (''positions'', PList [PDict [], PDict [(''lat'', PInt 4)]])]"

lemma sample_laws: "bridge_laws (sample_env up strict) (\<lambda>w. set (fst w)) snd"
  by (auto simp: bridge_laws_def sample_env_def sample_amqp_def publishes_def split: amqp_command.split)

lemma sample_connected: "connected_and_encodes (sample_env True strict)"
  by (simp add: connected_and_encodes_def sample_env_def sample_amqp_def sample_mq_codec_def)

lemma sample_redis: "br_redis sample_bridge" by (simp add: sample_bridge_def)

lemma sample_status_accepted: "rejection (sample_env up strict) sample_bridge sample_delivery sample_status = None"
  by (simp add: rejection_def sample_status_def sample_bridge_def bridge_new_def sample_delivery_def get_or_def schema_int_def)

lemma sample_batch_accepted: "rejection (sample_env up strict) sample_bridge sample_delivery sample_batch = None"
  by (simp add: rejection_def sample_batch_def sample_bridge_def bridge_new_def sample_delivery_def get_or_def schema_int_def)

theorem bridge_publishes_once_witness:
  "distinct (keys_of (sample_env True False)
     (snd (handle_all (sample_env True False) sample_bridge (replicate 3 (sample_delivery, Value (PDict sample_status))) ([], []))))"
  by (rule bridge_publishes_once[OF sample_laws sample_redis]) simp

theorem bridge_never_publishes_witness:
  "snd (snd (handle_envelope (sample_env True True) sample_bridge sample_delivery (Value (PDict sample_status)) ([], []))) = [] \<and>
   fst (handle_envelope (sample_env True True) sample_bridge sample_delivery (Value (PDict sample_status)) ([], [])) = Processed"
proof -
  have "refuses_headers (be_amqp (sample_env True True))"
    by (simp add: refuses_headers_def sample_env_def sample_amqp_def)
  from bridge_never_publishes[OF sample_laws sample_redis this sample_connected, of sample_delivery "Value (PDict sample_status)" "([], [])"
      sample_status "''status''"] show ?thesis
    by (simp add: sample_status_accepted) (simp add: sample_status_def get_or_def TYPE_TO_ROUTING_KEY_def)
qed

theorem failed_event_skipped_on_retry_witness:
  "\<exists>w1 w3. handle_envelope (sample_env False False) sample_bridge sample_delivery (Value (PDict sample_status)) ([], []) =
       (Failed (RuntimeError ''down''), w1) \<and>
     handle_envelope (sample_env False False) sample_bridge sample_delivery (Value (PDict sample_status)) w1 = (Processed, w3) \<and>
     snd w3 = []"
proof -
  let ?w1 = "([''mqtt:dedup:1''], [])"
  have f: "handle_envelope (sample_env False False) sample_bridge sample_delivery (Value (PDict sample_status)) ([], []) =
      (Failed (RuntimeError ''down''), ?w1)"
    by (simp add: handle_envelope_def handle_dict_def Let_def sample_status_accepted)
      (simp add: sample_status_def get_or_def dedup_set_def sample_redis event_key_def sample_env_def republish_def TYPE_TO_ROUTING_KEY_def
        publish_message_def sample_amqp_def replied_def)
  have k: "get_or sample_status ''type'' PNone \<noteq> PStr ''location.batch''" by (simp add: sample_status_def get_or_def)
  from failed_event_skipped_on_retry[OF sample_laws sample_redis k f, of ?w1 sample_delivery] f show ?thesis by auto
qed


end
