(* ===== verification/BrokerProducer.thy ===== *)
theory BrokerProducer
  imports Rabbit Http
begin

text \<open>
  The buffered producer of brokers/producer.py: the queue its HTTP endpoint fills, the workers that publish
  from it with retries, the guard of the endpoint, and the downlink publisher of rabbitmq/downlink.py.  The
  connection's \<open>publish_message\<close> and the resolver of sessions are arguments.
\<close>

subsection \<open>State\<close>

text \<open>\<open>bp_userid\<close> is the attribute the guard writes; a resolver that is not configured is \<^const>\<open>None\<close>.\<close>

record broker_producer =
  bp_queue_size :: int
  bp_queue :: "pydict list"
  bp_unfinished :: nat
  bp_num_workers :: int
  bp_service :: string
  bp_endpoint :: "string option"
  bp_userid :: pyval

definition broker_producer_new :: "int \<Rightarrow> int option \<Rightarrow> int option \<Rightarrow> string \<Rightarrow> string option \<Rightarrow> broker_producer" where
  "broker_producer_new fallback size_arg workers service path =
     \<lparr>bp_queue_size = (case size_arg of None \<Rightarrow> fallback | Some n \<Rightarrow> if n = 0 then fallback else n),
      bp_queue = [], bp_unfinished = 0,
      bp_num_workers = (case workers of None \<Rightarrow> 4 | Some n \<Rightarrow> if n = 0 then 4 else n),
      bp_service = service, bp_endpoint = path, bp_userid = PNone\<rparr>"

definition publish_path :: "broker_producer \<Rightarrow> string" where
  "publish_path s =
     (case bp_endpoint s of
        Some (c # cs) \<Rightarrow> c # cs
      | _ \<Rightarrow> ''/api/v1/broker/'' @ bp_service s @ ''/publish_event'')"

subsection \<open>Queueing\<close>

definition event_dict :: "pyval \<Rightarrow> pyval \<Rightarrow> pyval \<Rightarrow> pydict \<Rightarrow> pydict" where
  "event_dict body queue_name routing_key kw =
     fold (\<lambda>(k, v). dict_set k v) kw [(''body'', body), (''queue_name'', queue_name), (''routing_key'', routing_key)]"

text \<open>\<^const>\<open>None\<close> is \<open>QueueFull\<close>.\<close>

definition queue_event :: "pyval \<Rightarrow> pyval \<Rightarrow> pyval \<Rightarrow> pydict \<Rightarrow> broker_producer \<Rightarrow> broker_producer option" where
  "queue_event body queue_name routing_key kw s =
     (if 0 < bp_queue_size s \<and> bp_queue_size s \<le> int (length (bp_queue s)) then None
      else Some (s\<lparr>bp_queue := bp_queue s @ [event_dict body queue_name routing_key kw], bp_unfinished := Suc (bp_unfinished s)\<rparr>))"

definition publish_to_employee :: "string \<Rightarrow> string \<Rightarrow> pydict \<Rightarrow> broker_producer \<Rightarrow> broker_producer option" where
  "publish_to_employee employee tpc pl s =
     queue_event (PDict pl) (PStr ''amq.topic'') (PStr (''employees.'' @ employee @ ''.'' @ tpc)) [] s"

subsection \<open>The endpoint\<close>

text \<open>An answer, or an exception: \<open>HTTPUnauthorized\<close>, or any other, which the server answers 500.\<close>

datatype guarded = Answer response | Unauthorized string | Escapes py_exc

definition get_userid :: "pydict \<Rightarrow> pyval result" where
  "get_userid session = of_opt (RuntimeError ''User ID is not found in the session.'') (dict_get session ''user_id'')"

text \<open>
  \<open>service_auth\<close>: the resolver answers a session, empty when there is none, or raises.  The user id is kept in
  the attribute of the producer; an empty session leaves it as it was.
\<close>

definition service_auth ::
    "('q \<Rightarrow> pydict result) option \<Rightarrow> 'q \<Rightarrow> (broker_producer \<Rightarrow> guarded \<times> broker_producer) \<Rightarrow> broker_producer \<Rightarrow>
     guarded \<times> broker_producer" where
  "service_auth auth rq fn s =
     (case auth of
        None \<Rightarrow> (Unauthorized ''No authentication configured'', s)
      | Some resolve \<Rightarrow>
          (case resolve rq of
             Inl (ValueError t) \<Rightarrow> (Unauthorized t, s)
           | Inl (RuntimeError t) \<Rightarrow> (Unauthorized t, s)
           | Inl x \<Rightarrow> (Escapes x, s)
           | Inr session \<Rightarrow>
               (case (if session = [] then Inr (bp_userid s) else get_userid session) of
                  Inl x \<Rightarrow> (Escapes x, s)
                | Inr uid \<Rightarrow>
                    if \<not> truthy_val uid then (Unauthorized ''User ID not found in session'', s\<lparr>bp_userid := uid\<rparr>)
                    else fn (s\<lparr>bp_userid := uid\<rparr>))))"

definition broker_error :: "int \<Rightarrow> string \<Rightarrow> guarded" where
  "broker_error status msg = Answer (json_response status [(''status'', PStr ''error''), (''message'', PStr msg)])"

text \<open>
  \<open>event_publisher\<close> on the decoded body; \<open>rep\<close> is \<open>str\<close> of the values it names.  What is left of the body
  becomes keyword arguments of \<open>queue_event\<close>.
\<close>

definition event_publisher :: "(pyval \<Rightarrow> string) \<Rightarrow> pyval result \<Rightarrow> broker_producer \<Rightarrow> guarded \<times> broker_producer" where
  "event_publisher rep json s =
     (case json of
        Inl x \<Rightarrow> (Escapes x, s)
      | Inr (PDict d) \<Rightarrow>
          (let qs = get_or d ''queue_name'' (PStr ''navigator''); rk = get_or d ''routing_key'' PNone;
               d2 = dict_del ''routing_key'' (dict_del ''queue_name'' d)
           in if \<not> truthy_val rk then (broker_error 422 ''routing_key is required.'', s)
              else (case dict_get d2 ''body'' of
                      None \<Rightarrow> (Escapes (KeyError ''body''), s)
                    | Some body \<Rightarrow>
                        if \<not> truthy_val body then (broker_error 422 ''Message Body for Broker is required.'', s)
                        else if ''self'' \<in> fst ` set d2 then (Escapes (TypeError ''multiple values for argument''), s)
                        else (case queue_event body qs rk (dict_del ''body'' d2) s of
                                None \<Rightarrow> (broker_error 429 ''Event queue is full. Please try again later.'', s)
                              | Some s1 \<Rightarrow>
                                  (Answer (json_response 200 [(''status'', PStr ''success''),
                                     (''message'', PStr (''Event '' @ py_text rep qs @ ''.'' @ py_text rep rk @ '' Published Successfully.''))]), s1))))
      | Inr (PList xs) \<Rightarrow> (Escapes (TypeError ''pop expected at most 1 argument''), s)
      | Inr v \<Rightarrow> (Escapes (OtherError ''AttributeError''), s))"

definition publish_endpoint ::
    "('q \<Rightarrow> pydict result) option \<Rightarrow> ('q \<Rightarrow> pyval result) \<Rightarrow> (pyval \<Rightarrow> string) \<Rightarrow> 'q \<Rightarrow> broker_producer \<Rightarrow> guarded \<times> broker_producer" where
  "publish_endpoint auth json rep rq s = service_auth auth rq (event_publisher rep (json rq)) s"

subsection \<open>Workers\<close>

text \<open>\<open>retry_count >= max_retries\<close>; a bound that is no number raises, which ends the event.\<close>

definition retries_over :: "pyval \<Rightarrow> nat \<Rightarrow> bool result" where
  "retries_over bound n =
     (case bound of
        PInt i \<Rightarrow> Inr (i \<le> int n)
      | PBool b \<Rightarrow> Inr ((if b then 1 else 0) \<le> n)
      | PFloat x \<Rightarrow> Inr (x \<le> real n)
      | _ \<Rightarrow> Inl (TypeError ''not supported between instances''))"

text \<open>
  The retry loop of one event after some failures, with its delays; \<open>pub\<close> is the publication.  The loop ends
  because the bound is a number (or raises): its measure is what is left to the bound.
\<close>

definition rounds_left :: "pyval \<Rightarrow> nat \<Rightarrow> nat" where
  "rounds_left bound n =
     (case bound of PInt i \<Rightarrow> nat (i - int n) | PBool b \<Rightarrow> 1 - n | PFloat x \<Rightarrow> nat (\<lceil>x\<rceil> - int n) | _ \<Rightarrow> 0)"

function retry_publish ::
    "('w \<Rightarrow> unit result \<times> 'w) \<Rightarrow> pyval \<Rightarrow> nat \<Rightarrow> nat \<Rightarrow> 'w \<Rightarrow> bool \<times> nat list \<times> 'w" where
  "retry_publish pub bound n delay w =
     (case pub w of
        (Inr u, w1) \<Rightarrow> (True, [], w1)
      | (Inl x, w1) \<Rightarrow>
          (if retries_over bound (Suc n) \<noteq> Inr False then (False, [], w1)
           else (case retry_publish pub bound (Suc n) (delay * 2) w1 of (ok, ds, w2) \<Rightarrow> (ok, delay # ds, w2))))"
  by pat_completeness auto
termination
  by (relation "measure (\<lambda>(pub, bound, n, delay, w). rounds_left bound n)")
    (auto simp: retries_over_def rounds_left_def less_ceiling_iff split: pyval.splits if_splits)

declare retry_publish.simps [simp del]

text \<open>
  One event: its keyword arguments are what is left of its dictionary.  A key that is missing raises, which
  is logged; in every case the event is done.
\<close>

definition run_event ::
    "(pyval \<Rightarrow> pyval \<Rightarrow> pyval \<Rightarrow> pydict \<Rightarrow> 'w \<Rightarrow> unit result \<times> 'w) \<Rightarrow> pydict \<Rightarrow> 'w \<Rightarrow> bool \<times> nat list \<times> 'w" where
  "run_event pub ev w =
     (case (dict_get ev ''routing_key'', dict_get ev ''queue_name'', dict_get ev ''body'') of
        (Some rk, Some q, Some body) \<Rightarrow>
          (let kw = filter (\<lambda>(k, v). k \<notin> {''routing_key'', ''queue_name'', ''body'', ''max_retries''}) ev
           in retry_publish (pub body q rk kw) (get_or ev ''max_retries'' (PInt 5)) 0 1 w)
      | _ \<Rightarrow> (False, [], w))"

text \<open>A worker takes the oldest event; when the event is done it says so.\<close>

definition take_event :: "broker_producer \<Rightarrow> (pydict \<times> broker_producer) option" where
  "take_event s = (case bp_queue s of [] \<Rightarrow> None | ev # q \<Rightarrow> Some (ev, s\<lparr>bp_queue := q\<rparr>))"

definition event_done :: "broker_producer \<Rightarrow> broker_producer" where
  "event_done s = s\<lparr>bp_unfinished := bp_unfinished s - 1\<rparr>"

text \<open>\<open>stop\<close> waits for this before it cancels the workers.\<close>

definition producer_drained :: "broker_producer \<Rightarrow> bool" where
  "producer_drained s \<longleftrightarrow> bp_unfinished s = 0"

text \<open>
  The publication of a RabbitMQ producer; queue name and routing key are texts or
  absent, a value of another type is outside the model.
\<close>

definition rabbit_publish ::
    "'w amqp \<Rightarrow> 'o mq_codec \<Rightarrow> pyval \<Rightarrow> pyval \<Rightarrow> pyval \<Rightarrow> pydict \<Rightarrow> 'w \<Rightarrow> unit result \<times> 'w" where
  "rabbit_publish A C body q rk kw w =
     (case (as_opt_str ''queue_name'' q, as_opt_str ''routing_key'' rk) of
        (Inr q1, Inr rk1) \<Rightarrow> publish_message A C (Value body) q1 rk1 kw w
      | _ \<Rightarrow> (Inl (TypeError ''queue_name and routing_key''), w))"

section \<open>Properties\<close>

text \<open>
  Properties of the buffered producer: the attempts of a worker and what it takes for a success, and whom the
  guard of the endpoint lets in.
\<close>

subsection \<open>Attempts\<close>

definition after_tries :: "('w \<Rightarrow> unit result \<times> 'w) \<Rightarrow> nat \<Rightarrow> 'w \<Rightarrow> 'w" where
  "after_tries pub n w = ((snd \<circ> pub) ^^ n) w"

lemma after_tries_simps [simp]: "after_tries pub 0 w = w" "after_tries pub (Suc n) w = after_tries pub n (snd (pub w))"
  by (simp_all add: after_tries_def funpow_swap1)

lemma retry_publish_exact:
  "retry_publish pub (PInt k) n d w = (ok, ds, w1) \<Longrightarrow>
     \<exists>m. w1 = after_tries pub (Suc m) w \<and> (\<forall>i < m. isl (fst (pub (after_tries pub i w)))) \<and>
       (ok \<longleftrightarrow> \<not> isl (fst (pub (after_tries pub m w)))) \<and> ds = map (\<lambda>i. d * 2 ^ i) [0 ..< m] \<and>
       (0 < m \<longrightarrow> int (n + m) < k) \<and> (\<not> ok \<longrightarrow> k \<le> int (Suc (n + m)))"
proof (induction "nat (k - int n)" arbitrary: n d w ok ds w1 rule: less_induct)
  case less
  obtain r w2 where p: "pub w = (r, w2)" by force
  show ?case
  proof (cases "isl r \<and> int (Suc n) < k")
    case False
    then have "ds = [] \<and> w1 = w2 \<and> (ok \<longleftrightarrow> \<not> isl r) \<and> (\<not> ok \<longrightarrow> k \<le> int (Suc n))"
      using less.prems retry_publish.simps[of pub "PInt k" n d w] p by (cases r) (auto simp: retries_over_def)
    then show ?thesis using p by (intro exI[of _ 0]) simp
  next
    case True
    obtain ok2 ds2 w3 where rec: "retry_publish pub (PInt k) (Suc n) (d * 2) w2 = (ok2, ds2, w3)" by (metis prod_cases3)
    then have e: "ok = ok2" "ds = d # ds2" "w1 = w3"
      using less.prems retry_publish.simps[of pub "PInt k" n d w] p True by (auto simp: retries_over_def isl_def)
    have "nat (k - int (Suc n)) < nat (k - int n)" using True by simp
    from less.hyps[OF this rec] obtain m where
      m: "w3 = after_tries pub (Suc m) w2" "\<forall>i < m. isl (fst (pub (after_tries pub i w2)))"
        "ok2 \<longleftrightarrow> \<not> isl (fst (pub (after_tries pub m w2)))" "ds2 = map (\<lambda>i. d * 2 * 2 ^ i) [0 ..< m]"
        "0 < m \<longrightarrow> int (Suc n + m) < k" "\<not> ok2 \<longrightarrow> k \<le> int (Suc (Suc n + m))" by blast
    have "\<forall>i < Suc m. isl (fst (pub (after_tries pub i w)))"
    proof (intro allI impI)
      fix i assume "i < Suc m"
      then show "isl (fst (pub (after_tries pub i w)))" using m(2) p True by (cases i) auto
    qed
    moreover have "d # ds2 = map (\<lambda>i. d * 2 ^ i) [0 ..< Suc m]"
      by (simp add: m(4) upt_conv_Cons map_Suc_upt[symmetric] del: upt_Suc)
    ultimately show ?thesis using m e p True by (intro exI[of _ "Suc m"]) (auto simp del: upt_Suc)
  qed
qed

text \<open>A worker tries an event until a publication does not raise, at most as often as the bound says and at least
  once, sleeping twice as long after each failure; it reports a success exactly when the last attempt did
  not raise.\<close>

theorem worker_retries_exact:
  assumes "retry_publish pub (PInt k) 0 1 w = (ok, ds, w1)"
  shows "\<exists>n. 0 < n \<and> int n \<le> max 1 k \<and> w1 = after_tries pub n w \<and> (\<forall>i < n - 1. isl (fst (pub (after_tries pub i w)))) \<and>
    (ok \<longleftrightarrow> \<not> isl (fst (pub (after_tries pub (n - 1) w)))) \<and> (\<not> ok \<longrightarrow> int n = max 1 k) \<and> ds = map (\<lambda>i. 2 ^ i) [0 ..< n - 1]"
proof -
  from retry_publish_exact[OF assms] obtain m where
    m: "w1 = after_tries pub (Suc m) w" "\<forall>i < m. isl (fst (pub (after_tries pub i w)))"
      "ok \<longleftrightarrow> \<not> isl (fst (pub (after_tries pub m w)))" "ds = map (\<lambda>i. 2 ^ i) [0 ..< m]"
      "0 < m \<longrightarrow> int m < k" "\<not> ok \<longrightarrow> k \<le> int (Suc m)" by auto
  then show ?thesis by (intro exI[of _ "Suc m"]) (auto simp: max_def)
qed

definition flaky :: "nat \<Rightarrow> unit result \<times> nat" where
  "flaky i = (if i < 2 then Inl (OtherError ''x'') else Inr (), Suc i)"

theorem worker_retries_exact_witness:
  "\<exists>n. 0 < n \<and> int n \<le> 3 \<and> retry_publish flaky (PInt 3) 0 1 0 = (True, [1, 2], after_tries flaky n 0)"
proof -
  have r: "retry_publish flaky (PInt 3) 0 1 0 = (True, [1, 2], 3)"
    by (simp add: retry_publish.simps flaky_def retries_over_def numeral_2_eq_2 numeral_3_eq_3)
  from worker_retries_exact[OF r] show ?thesis unfolding r by auto
qed

text \<open>Over RabbitMQ the retries never happen: once there is a connection and the body can be encoded, a
  publication that the driver refuses is only logged, so that the worker reports it as published after its
  first attempt, and nobody learns that it was lost.\<close>

theorem refused_publication_reported_published:
  assumes "\<And>w. fst (am_ensure A w) = Inr ()" "\<not> isl (encode_body C (Value body))"
  shows "\<exists>w1. run_event (rabbit_publish A C) (event_dict body (PStr q) (PStr rk) []) w = (True, [], w1)"
proof -
  obtain w0 where "am_ensure A w = (Inr (), w0)" using assms(1) by (metis prod.collapse)
  moreover obtain w2 where "ensure_exchange A q ''topic'' w0 = (Inr (), w2)"
    by (metis create_exchange_def ensure_exchange_def logged_def)
  moreover obtain t ct where "encode_body C (Value body) = Inr (t, ct)"
    using assms(2) by (metis isl_def sum.exhaust prod.exhaust)
  ultimately have "\<exists>w1. rabbit_publish A C body (PStr q) (PStr rk) [] w = (Inr (), w1)"
    by (simp add: rabbit_publish_def publish_message_def get_or_def Let_def logged_def)
  then show ?thesis
    by (auto simp: run_event_def event_dict_def get_or_def retry_publish.simps)
qed

definition broken_amqp :: "nat amqp" where
  "broken_amqp = \<lparr>am_ensure = (\<lambda>w. (Inr (), w)), am_channel = (\<lambda>w. True), am_run = (\<lambda>c w. (Inl (OtherError ''gone''), Suc w))\<rparr>"

theorem refused_publication_reported_published_witness:
  "\<exists>w1. run_event (rabbit_publish broken_amqp sample_mq_codec) (event_dict (PStr ''b'') (PStr ''q'') (PStr ''r'') []) 0 = (True, [], w1)"
  by (rule refused_publication_reported_published) (simp_all add: broken_amqp_def encode_body_def)

subsection \<open>The guard\<close>

lemma event_publisher_userid: "bp_userid (snd (event_publisher rep j s)) = bp_userid s"
  by (auto simp: event_publisher_def queue_event_def broker_error_def Let_def split: sum.split pyval.split option.split)

text \<open>C36: The guard forgets nobody: after one request with a user, a request whose session is empty is served as if
  it were that user's, while a producer that has seen nobody yet refuses it.\<close>

theorem stale_user_admits_anonymous:
  assumes "resolve rq1 = Inr session" "session \<noteq> []" "dict_get session ''user_id'' = Some uid" "truthy_val uid"
    "resolve rq2 = Inr []"
  shows "let s1 = snd (publish_endpoint (Some resolve) json rep rq1 s)
     in publish_endpoint (Some resolve) json rep rq2 s1 = event_publisher rep (json rq2) s1 \<and>
       fst (publish_endpoint (Some resolve) json rep rq2 (broker_producer_new fallback n k svc path)) = Unauthorized ''User ID not found in session''"
proof -
  let ?s1 = "snd (publish_endpoint (Some resolve) json rep rq1 s)"
  have "bp_userid ?s1 = uid"
    using assms(1-4) event_publisher_userid[of rep "json rq1" "s\<lparr>bp_userid := uid\<rparr>"]
    by (simp add: publish_endpoint_def service_auth_def get_userid_def)
  then have "?s1\<lparr>bp_userid := bp_userid ?s1\<rparr> = ?s1" "truthy_val (bp_userid ?s1)" using assms(4) by simp_all
  then show ?thesis
    using assms(5) by (simp add: publish_endpoint_def service_auth_def broker_producer_new_def Let_def)
qed

definition sample_resolver :: "bool \<Rightarrow> pydict result" where
  "sample_resolver known = Inr (if known then [(''user_id'', PInt 1)] else [])"

theorem stale_user_admits_anonymous_witness:
  "let s1 = snd (publish_endpoint (Some sample_resolver) (\<lambda>rq. Inr PNone) (\<lambda>v. []) True (broker_producer_new 4 None None ''m'' None))
   in publish_endpoint (Some sample_resolver) (\<lambda>rq. Inr PNone) (\<lambda>v. []) False s1 = event_publisher (\<lambda>v. []) (Inr PNone) s1"
  using stale_user_admits_anonymous[of sample_resolver True "[(''user_id'', PInt 1)]" "PInt 1" False "\<lambda>rq. Inr PNone" "\<lambda>v. []"
    "broker_producer_new 4 None None ''m'' None"]
  by (simp add: sample_resolver_def Let_def)

text \<open>Without a resolver, with one that refuses, or with a session that names no user, a request changes no
  queue.\<close>

theorem unresolved_request_queues_nothing:
  assumes "auth = None \<or> (\<exists>resolve. auth = Some resolve \<and>
     (isl (resolve rq) \<or> (\<exists>session. resolve rq = Inr session \<and> session \<noteq> [] \<and>
        \<not> (\<exists>uid. dict_get session ''user_id'' = Some uid \<and> truthy_val uid))))"
  shows "bp_queue (snd (publish_endpoint auth json rep rq s)) = bp_queue s \<and> fst (publish_endpoint auth json rep rq s) \<notin> range Answer"
  using assms
  by (auto simp: publish_endpoint_def service_auth_def get_userid_def of_opt_def isl_def split: py_exc.splits option.splits if_splits)

theorem unresolved_request_queues_nothing_witness:
  "bp_queue (snd (publish_endpoint (Some (\<lambda>rq. Inl (ValueError ''no''))) (\<lambda>rq. Inr PNone) (\<lambda>v. []) True
     (broker_producer_new 4 None None ''m'' None))) = []"
  using unresolved_request_queues_nothing[of "Some (\<lambda>rq. Inl (ValueError ''no''))" True "\<lambda>rq. Inr PNone" "\<lambda>v. []"
    "broker_producer_new 4 None None ''m'' None"] by (simp add: broker_producer_new_def)

end
