(* ===== verification/BrokerManager.thy ===== *)
theory BrokerManager
  imports BrokerProducer
begin

text \<open>
  The managers of brokers/manager.py and brokers/rabbitmq/manager.py, which produce and consume over one
  connection: start, shutdown, and the deliveries in flight.  The parts a concrete manager inherits are
  arguments; waiting for the queue of the producer is one of them.
\<close>

subsection \<open>Start and shutdown\<close>

record 'w manager_ops =
  mo_connect :: "'w \<Rightarrow> unit result \<times> 'w"
  mo_start_workers :: "'w \<Rightarrow> 'w"
  mo_subscribe :: "'w \<Rightarrow> unit result \<times> 'w"
  mo_stop_consuming :: "'w \<Rightarrow> unit result \<times> 'w"
  mo_join :: "'w \<Rightarrow> 'w"
  mo_cancel_workers :: "'w \<Rightarrow> 'w"
  mo_disconnect :: "'w \<Rightarrow> unit result \<times> 'w"

text \<open>\<open>stop\<close> of the producer, after that of the consumer, whose exception is only logged.\<close>

definition producer_stop :: "'w manager_ops \<Rightarrow> 'w \<Rightarrow> unit result \<times> 'w" where
  "producer_stop M w = mo_disconnect M (mo_cancel_workers M (mo_join M w))"

definition manager_stop :: "'w manager_ops \<Rightarrow> 'w \<Rightarrow> unit result \<times> 'w" where
  "manager_stop M w = producer_stop M (snd (logged (mo_stop_consuming M w)))"

text \<open>A subscription that fails shuts the manager down and is raised again, unless shutting down raises.\<close>

definition manager_start :: "'w manager_ops \<Rightarrow> bool \<Rightarrow> 'w \<Rightarrow> unit result \<times> 'w" where
  "manager_start M auto_subscribe w =
     then_w (mo_connect M w) (\<lambda>w1.
       (let w2 = mo_start_workers M w1
        in if \<not> auto_subscribe then (Inr (), w2)
           else (case mo_subscribe M w2 of
                   (Inr u, w3) \<Rightarrow> (Inr (), w3)
                 | (Inl x, w3) \<Rightarrow> then_w (manager_stop M w3) (\<lambda>w4. (Inl x, w4)))))"

subsection \<open>Deliveries in flight\<close>

record rmq_manager =
  rq_inflight :: int
  rq_idle :: bool
  rq_tags :: "string list"

definition rmq_manager_new :: rmq_manager where
  "rmq_manager_new = \<lparr>rq_inflight = 0, rq_idle = True, rq_tags = []\<rparr>"

definition track_begin :: "rmq_manager \<Rightarrow> rmq_manager" where
  "track_begin s = s\<lparr>rq_inflight := rq_inflight s + 1, rq_idle := False\<rparr>"

definition track_end :: "rmq_manager \<Rightarrow> rmq_manager" where
  "track_end s = s\<lparr>rq_inflight := rq_inflight s - 1, rq_idle := (rq_idle s \<or> rq_inflight s = 1)\<rparr>"

text \<open>The consumers are cancelled, whatever that raises, and the deliveries in flight waited for: the result
  says whether they finished in time, which \<open>in_time\<close> decides when there are any.\<close>

definition cancel_tag :: "'w amqp \<Rightarrow> string \<Rightarrow> 'w \<Rightarrow> 'w" where
  "cancel_tag A t w = (if am_channel A w then snd (am_run A (Basic_cancel t) w) else w)"

definition rmq_stop_consuming :: "'w amqp \<Rightarrow> bool \<Rightarrow> rmq_manager \<Rightarrow> 'w \<Rightarrow> bool \<times> rmq_manager \<times> 'w" where
  "rmq_stop_consuming A in_time s w =
     (rq_idle s \<or> in_time, s\<lparr>rq_tags := []\<rparr>, fold (cancel_tag A) (rq_tags s) w)"

subsection \<open>Properties\<close>

text \<open>Deliveries begin and end in any order; each has an identity, ends once and only after it began.\<close>

inductive tracking :: "nat set \<Rightarrow> rmq_manager \<Rightarrow> bool" where
  Idle: "tracking {} rmq_manager_new"
| Begins: "tracking D s \<Longrightarrow> i \<notin> D \<Longrightarrow> tracking (insert i D) (track_begin s)"
| Ends: "tracking D s \<Longrightarrow> i \<in> D \<Longrightarrow> tracking (D - {i}) (track_end s)"

text \<open>The counter is the number of deliveries in flight, and shutdown waits exactly while there is one.\<close>

lemma inflight_counted:
  assumes "tracking D s"
  shows "finite D \<and> rq_inflight s = int (card D) \<and> (rq_idle s \<longleftrightarrow> D = {})"
  using assms
proof induction
  case (Ends D s i)
  have "0 < card D" using Ends.hyps(2) Ends.IH by (auto simp: card_gt_0_iff)
  have "card D = 1 \<longleftrightarrow> D - {i} = {}"
    using Ends.hyps(2) Ends.IH by (auto simp: card_1_singleton_iff)
  moreover have "int (card (D - {i})) = int (card D) - 1"
    using Ends.hyps(2) \<open>0 < card D\<close> by (simp add: of_nat_diff)
  ultimately show ?case using Ends.IH Ends.hyps(2) by (auto simp: track_end_def)
qed (auto simp: rmq_manager_new_def track_begin_def)

text \<open>On an open channel, shutting down cancels every consumer once, in the order they subscribed.\<close>

lemma consumers_cancelled:
  assumes "journaled_channel A cmds"
  shows "cmds (snd (snd (rmq_stop_consuming A in_time s w))) = cmds w @ map Basic_cancel (rq_tags s)"
proof -
  have "cmds (fold (cancel_tag A) ts w) = cmds w @ map Basic_cancel ts" for ts
    using assms by (induction ts arbitrary: w) (simp_all add: cancel_tag_def journaled_channel_def)
  then show ?thesis by (simp add: rmq_stop_consuming_def)
qed

text \<open>A start whose subscription fails reports that failure, after the connection was released.\<close>

lemma failed_start_released:
  assumes "mo_connect M w = (Inr (), w1)" "mo_subscribe M (mo_start_workers M w1) = (Inl x, w2)"
    "mo_stop_consuming M w2 = (r, w3)" "mo_disconnect M (mo_cancel_workers M (mo_join M w3)) = (Inr (), w4)"
  shows "manager_start M True w = (Inl x, w4)"
  using assms by (simp add: manager_start_def manager_stop_def producer_stop_def Let_def)

end
