(* ===== verification/RedisBroker.thy ===== *)
theory RedisBroker
  imports RedisStreams Rabbit QueueSamples
begin

text \<open>
  The Redis Streams broker of brokers/redis/connection.py and consumer.py, over the commands of
  \<open>RedisStreams\<close>, and the queues and the settlement of brokers/sqs/connection.py.  A callback is a function over its own
  world, so that it cannot touch the server.
\<close>

subsection \<open>Connection\<close>

record redis_broker =
  rk_group :: string
  rk_consumer :: string
  rk_queue :: string
  rk_uses_group :: bool

definition redis_broker_new :: "string option \<Rightarrow> string option \<Rightarrow> string option \<Rightarrow> bool \<Rightarrow> redis_broker" where
  "redis_broker_new grp con q uses =
     \<lparr>rk_group = (case grp of None \<Rightarrow> ''default_group'' | Some g \<Rightarrow> g),
      rk_consumer = (case con of None \<Rightarrow> ''default_consumer'' | Some c \<Rightarrow> c),
      rk_queue = (case q of None \<Rightarrow> ''message_stream'' | Some s \<Rightarrow> s), rk_uses_group = uses\<rparr>"

text \<open>The commands no other part of the program uses.\<close>

record 'r broker_cmds =
  bc_exists :: "string \<Rightarrow> 'r \<Rightarrow> (string + bool) \<times> 'r"
  bc_add :: "string \<Rightarrow> fields \<Rightarrow> 'r \<Rightarrow> (string + unit) \<times> 'r"
  bc_createconsumer :: "string \<Rightarrow> string \<Rightarrow> string \<Rightarrow> 'r \<Rightarrow> (string + unit) \<times> 'r"
  bc_trim_before :: "string \<Rightarrow> int \<Rightarrow> 'r \<Rightarrow> (string + unit) \<times> 'r"

definition group_exists_error :: "string \<Rightarrow> bool" where
  "group_exists_error e \<longleftrightarrow> sublist ''BUSYGROUP Consumer Group name already exists'' e"

text \<open>The stream, with a first message when it is new, and the group.\<close>

definition create_stream_group :: "'r redis_ops \<Rightarrow> 'r broker_cmds \<Rightarrow> redis_broker \<Rightarrow> 'r \<Rightarrow> (string + unit) \<times> 'r" where
  "create_stream_group R X s r =
     (case bc_exists X (rk_queue s) r of
        (Inl e, r1) \<Rightarrow> (Inl e, r1)
      | (Inr found, r1) \<Rightarrow>
          (case (if found then (Inr (), r1) else bc_add X (rk_queue s) [(''initial'', ''message'')] r1) of
             (Inl e, r2) \<Rightarrow> (Inl e, r2)
           | (Inr u, r2) \<Rightarrow> xgroup_create R (rk_queue s) (rk_group s) ''0'' r2))"

definition ensure_group_exists :: "'r redis_ops \<Rightarrow> 'r broker_cmds \<Rightarrow> redis_broker \<Rightarrow> 'r \<Rightarrow> (string + unit) \<times> 'r" where
  "ensure_group_exists R X s r =
     (case create_stream_group R X s r of
        (reply, r1) \<Rightarrow>
          (case reply of
             Inl e \<Rightarrow> if group_exists_error e then bc_createconsumer X (rk_queue s) (rk_group s) (rk_consumer s) r1 else (Inl e, r1)
           | Inr u \<Rightarrow> bc_createconsumer X (rk_queue s) (rk_group s) (rk_consumer s) r1))"

subsection \<open>Bodies\<close>

text \<open>The further codecs: msgpack, and the pickle of any object.\<close>

record 'o stream_codec =
  st_codec :: "'o mq_codec"
  st_pack :: "pyval \<Rightarrow> string result"
  st_unpack :: "string \<Rightarrow> 'o mq_body result"
  st_pickle :: "'o mq_body \<Rightarrow> string result"

definition pack_body :: "'o stream_codec \<Rightarrow> 'o mq_body \<Rightarrow> (string \<times> string) result" where
  "pack_body C body =
     (case body of
        Value v \<Rightarrow>
          (case v of
             PDict d \<Rightarrow> map_sum id (\<lambda>t. (t, ''application/json'')) (dumps (mq_json (st_codec C)) v)
           | PList xs \<Rightarrow> map_sum id (\<lambda>t. (t, ''application/json'')) (dumps (mq_json (st_codec C)) v)
           | PStr t \<Rightarrow> Inr (t, ''text/plain'')
           | PDate d \<Rightarrow> map_sum id (\<lambda>t. (t, ''application/cloudpickle'')) (st_pickle C body)
           | _ \<Rightarrow> map_sum id (\<lambda>t. (t, ''application/msgpack'')) (st_pack C v))
      | _ \<Rightarrow> map_sum id (\<lambda>t. (t, ''application/cloudpickle'')) (st_pickle C body))"

text \<open>\<open>queue_name or self._queue_name\<close>.\<close>

definition stream_or_own :: "redis_broker \<Rightarrow> string option \<Rightarrow> string" where
  "stream_or_own s q = (case q of Some (c # cs) \<Rightarrow> c # cs | _ \<Rightarrow> rk_queue s)"

text \<open>A codec's exception and an error reply are both raised.\<close>

definition stream_publish ::
    "'r broker_cmds \<Rightarrow> 'o stream_codec \<Rightarrow> redis_broker \<Rightarrow> 'o mq_body \<Rightarrow> string option \<Rightarrow> 'r \<Rightarrow> unit result \<times> 'r" where
  "stream_publish X C s body q r =
     (case pack_body C body of
        Inl x \<Rightarrow> (Inl x, r)
      | Inr (t, ct) \<Rightarrow>
          (case bc_add X (stream_or_own s q) [(''body'', t), (''ContentType'', ct)] r of
             (Inl e, r1) \<Rightarrow> (Inl (OtherError e), r1)
           | (Inr u, r1) \<Rightarrow> (Inr (), r1)))"

text \<open>No codec's exception escapes: the raw body is returned instead.\<close>

definition unpack_body :: "'o stream_codec \<Rightarrow> string \<Rightarrow> string \<Rightarrow> 'o mq_body" where
  "unpack_body C ct t =
     (if ct = ''application/json'' then or_raw t (map_sum id Value (loads (mq_json (st_codec C)) t))
      else if ct = ''application/msgpack'' then or_raw t (st_unpack C t)
      else if ct = ''application/jsonpickle'' then or_raw t (mq_decode (st_codec C) t)
      else if ct = ''application/cloudpickle'' then or_raw t (mq_unserialize (st_codec C) t)
      else Value (PStr t))"

definition stream_message :: "'o stream_codec \<Rightarrow> fields \<Rightarrow> 'o mq_body" where
  "stream_message C fs =
     (case dict_get fs ''body'' of
        None \<Rightarrow> Value PNone
      | Some t \<Rightarrow> unpack_body C (case dict_get fs ''ContentType'' of None \<Rightarrow> ''text/plain'' | Some ct \<Rightarrow> ct) t)"

subsection \<open>Consuming\<close>

text \<open>A callback gets the id, the fields and the decoded body; the exception it raises, if any.\<close>

type_synonym ('o, 'c) stream_callback = "string \<Rightarrow> fields \<Rightarrow> 'o mq_body \<Rightarrow> 'c \<Rightarrow> py_exc option \<times> 'c"

text \<open>
  One entry of a reply: it is acknowledged when the callback returned; what that or the acknowledgement
  raises is only logged.
\<close>

definition consume_entry ::
    "'r redis_ops \<Rightarrow> 'o stream_codec \<Rightarrow> redis_broker \<Rightarrow> ('o, 'c) stream_callback \<Rightarrow> string \<Rightarrow> entry \<Rightarrow> 'r \<times> 'c \<Rightarrow> 'r \<times> 'c" where
  "consume_entry R C s cb stream x st =
     (case cb (fst x) (snd x) (stream_message C (snd x)) (snd st) of
        (None, c1) \<Rightarrow> (snd (xack R stream (rk_group s) (fst x) (fst st)), c1)
      | (Some e, c1) \<Rightarrow> (fst st, c1))"

text \<open>One pass of the loop; \<^const>\<open>Inl\<close> when it ends with an exception.\<close>

definition consume_pass ::
    "'r redis_ops \<Rightarrow> 'o stream_codec \<Rightarrow> redis_broker \<Rightarrow> ('o, 'c) stream_callback \<Rightarrow> string option \<Rightarrow> string option \<Rightarrow> nat \<Rightarrow> int \<Rightarrow>
     'r \<times> 'c \<Rightarrow> unit result \<times> 'r \<times> 'c" where
  "consume_pass R C s cb q con n block st =
     (if \<not> rk_uses_group s then (Inl (RuntimeError ''consume_messages() requires consumer_group=True.''), st)
      else (let stream = stream_or_own s q
            in case xreadgroup R stream (rk_group s) (case con of None \<Rightarrow> rk_consumer s | Some c \<Rightarrow> c) n (Some block) (fst st) of
                 (Inl e, r1) \<Rightarrow> (Inl (OtherError e), r1, snd st)
               | (Inr rep, r1) \<Rightarrow> (Inr (), fold (consume_entry R C s cb stream) (concat (map snd rep)) (r1, snd st))))"

text \<open>The clean-up before the loop: entries older than a week; an error is only logged.\<close>

definition cleanup_old_messages :: "'r broker_cmds \<Rightarrow> int \<Rightarrow> string \<Rightarrow> 'r \<Rightarrow> 'r" where
  "cleanup_old_messages X now_ms stream r = snd (bc_trim_before X stream (now_ms - 7 * 24 * 60 * 60 * 1000) r)"

text \<open>\<open>wrap_callback\<close> of the consumer, which \<open>event_subscribe\<close> applies: what the callback raises is only logged.\<close>

definition wrap_stream_callback :: "('o, 'c) stream_callback \<Rightarrow> ('o, 'c) stream_callback" where
  "wrap_stream_callback cb i fs body c = (None, snd (cb i fs body c))"

definition event_subscribe_pass ::
    "'r redis_ops \<Rightarrow> 'o stream_codec \<Rightarrow> redis_broker \<Rightarrow> ('o, 'c) stream_callback \<Rightarrow> string option \<Rightarrow> nat \<Rightarrow> int \<Rightarrow> 'r \<times> 'c \<Rightarrow>
     unit result \<times> 'r \<times> 'c" where
  "event_subscribe_pass R C s cb q n block st = consume_pass R C s (wrap_stream_callback cb) q None n block st"

text \<open>
  The redelivery of stuck entries: every claimed entry is handed to the callback, until one raises, which
  escapes; nothing is acknowledged.
\<close>

fun redeliver :: "'o stream_codec \<Rightarrow> ('o, 'c) stream_callback \<Rightarrow> entry list \<Rightarrow> 'c \<Rightarrow> unit result \<times> 'c" where
  "redeliver C cb [] c = (Inr (), c)"
| "redeliver C cb (x # xs) c =
     (case cb (fst x) (snd x) (stream_message C (snd x)) c of
        (None, c1) \<Rightarrow> redeliver C cb xs c1
      | (Some e, c1) \<Rightarrow> (Inl e, c1))"

definition reclaim_pending_messages ::
    "'r redis_ops \<Rightarrow> 'o stream_codec \<Rightarrow> redis_broker \<Rightarrow> ('o, 'c) stream_callback \<Rightarrow> string \<Rightarrow> int \<Rightarrow> nat \<Rightarrow> 'r \<times> 'c \<Rightarrow>
     nat result \<times> 'r \<times> 'c" where
  "reclaim_pending_messages R C s cb stream idle n st =
     (case xautoclaim R stream (rk_group s) (rk_consumer s) idle n (fst st) of
        (Inl e, r1) \<Rightarrow> (Inr 0, r1, snd st)
      | (Inr xs, r1) \<Rightarrow>
          (case redeliver C cb xs (snd st) of
             (Inl x, c1) \<Rightarrow> (Inl x, r1, c1)
           | (Inr u, c1) \<Rightarrow> (Inr (length xs), r1, c1)))"

subsection \<open>SQS\<close>

text \<open>
  A message is deleted when its callback returned; what is raised, also by the deletion, is only logged.  The
  world holds what the callback does and what the service was asked to delete.
\<close>

definition sqs_body :: "'o stream_codec \<Rightarrow> (string \<times> string) list \<Rightarrow> string \<Rightarrow> 'o mq_body" where
  "sqs_body C attrs t = unpack_body C (case dict_get attrs ''ContentType'' of None \<Rightarrow> ''text/plain'' | Some ct \<Rightarrow> ct) t"

definition sqs_wrapped ::
    "(string \<Rightarrow> 'w \<Rightarrow> unit result \<times> 'w) \<Rightarrow> 'o stream_codec \<Rightarrow> (string \<Rightarrow> 'o mq_body \<Rightarrow> 'w \<Rightarrow> unit result \<times> 'w) \<Rightarrow>
     string \<times> (string \<times> string) list \<times> string \<Rightarrow> 'w \<Rightarrow> 'w" where
  "sqs_wrapped delete C cb m w =
     (case m of (i, attrs, t) \<Rightarrow> snd (then_w (cb i (sqs_body C attrs t) w) (delete i)))"

text \<open>The messages of one poll are handled one after the other.\<close>

definition sqs_poll ::
    "(string \<Rightarrow> 'w \<Rightarrow> unit result \<times> 'w) \<Rightarrow> 'o stream_codec \<Rightarrow> (string \<Rightarrow> 'o mq_body \<Rightarrow> 'w \<Rightarrow> unit result \<times> 'w) \<Rightarrow>
     (string \<times> (string \<times> string) list \<times> string) list \<Rightarrow> 'w \<Rightarrow> 'w" where
  "sqs_poll delete C cb ms w = fold (sqs_wrapped delete C cb) ms w"

text \<open>\<open>consume_message\<close> takes one message, and raises what goes wrong.\<close>

definition sqs_consume_one ::
    "(string \<Rightarrow> 'w \<Rightarrow> unit result \<times> 'w) \<Rightarrow> 'o stream_codec \<Rightarrow> ('o mq_body \<Rightarrow> string \<Rightarrow> 'w \<Rightarrow> unit result \<times> 'w) option \<Rightarrow>
     (string \<times> (string \<times> string) list \<times> string) list \<Rightarrow> 'w \<Rightarrow> 'o mq_body option result \<times> 'w" where
  "sqs_consume_one delete C cb ms w =
     (case ms of
        [] \<Rightarrow> (Inr None, w)
      | (i, attrs, t) # rest \<Rightarrow>
          (let b = sqs_body C attrs t
           in then_w (case cb of None \<Rightarrow> (Inr (), w) | Some f \<Rightarrow> f b t w) (\<lambda>w.
              then_w (delete i w) (\<lambda>w. (Inr (Some b), w)))))"

text \<open>The bodies SQS publishes are classified like those of Redis; the queue is created first where it is
  missing (\<open>ensure\<close>), also for a body that then cannot be packed.\<close>

definition sqs_publish ::
    "(string \<Rightarrow> 'w \<Rightarrow> unit result \<times> 'w) \<Rightarrow> (string \<Rightarrow> string \<Rightarrow> (string \<times> string) list \<Rightarrow> 'w \<Rightarrow> unit result \<times> 'w) \<Rightarrow>
     'o stream_codec \<Rightarrow> 'o mq_body \<Rightarrow> string option \<Rightarrow> (string \<times> string) list \<Rightarrow> 'w \<Rightarrow> unit result \<times> 'w" where
  "sqs_publish ensure put_msg C body q attrs w =
     (case q of
        None \<Rightarrow> (Inl (ValueError ''publish_message() requires queue_name''), w)
      | Some name \<Rightarrow>
          then_w (ensure name w) (\<lambda>w.
            case pack_body C body of
              Inl x \<Rightarrow> (Inl x, w)
            | Inr (t, ct) \<Rightarrow> put_msg name t (dict_set ''ContentType'' ct attrs) w))"

subsection \<open>Connections\<close>

text \<open>
  \<open>connect\<close>: the client is kept before the group is ensured, also when that raises.  \<open>is_dict\<close> tells whether
  the credentials are a dictionary.
\<close>

definition redis_connect ::
    "'r redis_ops \<Rightarrow> 'r broker_cmds \<Rightarrow> bool \<Rightarrow> redis_broker \<Rightarrow> bool \<Rightarrow> 'r \<Rightarrow> unit result \<times> bool \<times> 'r" where
  "redis_connect R X is_dict s has_client r =
     (if has_client then (Inr (), True, r)
      else if \<not> is_dict then (Inl (TypeError ''RedisConnection expects a credentials dict''), False, r)
      else if \<not> rk_uses_group s then (Inr (), True, r)
      else (case ensure_group_exists R X s r of
              (Inl e, r1) \<Rightarrow> (Inl (OtherError e), True, r1)
            | (Inr u, r1) \<Rightarrow> (Inr (), True, r1)))"

text \<open>A read without a group connects first and passes the command on.\<close>

definition free_read ::
    "('r \<Rightarrow> unit result \<times> bool \<times> 'r) \<Rightarrow> ('r \<Rightarrow> (string + 'a) \<times> 'r) \<Rightarrow> 'r \<Rightarrow> 'a result \<times> bool \<times> 'r" where
  "free_read con cmd r =
     (case con r of
        (Inl x, c, r1) \<Rightarrow> (Inl x, c, r1)
      | (Inr u, c, r1) \<Rightarrow> (case cmd r1 of (Inl e, r2) \<Rightarrow> (Inl (OtherError e), c, r2) | (Inr y, r2) \<Rightarrow> (Inr y, c, r2)))"

definition redis_xread where
  "redis_xread XREAD con streams count block r = free_read con (XREAD (streams :: (string \<times> string) list) count block) r"

definition redis_xrange where
  "redis_xrange XRANGE con s stream lo hi count r = free_read con (XRANGE (stream_or_own s stream) lo hi count) r"

definition redis_xrevrange where
  "redis_xrevrange XREVRANGE con s stream hi lo count r = free_read con (XREVRANGE (stream_or_own s stream) hi lo count) r"

definition redis_xinfo_stream where
  "redis_xinfo_stream XINFO con s stream r = free_read con (XINFO (stream_or_own s stream)) r"

definition redis_xlen where
  "redis_xlen XLEN con s stream r = free_read con (XLEN (stream_or_own s stream)) r"

text \<open>SQS: the resource, and the queues that were looked up or created, which are kept when it is given up.\<close>

record 'h sqs =
  sq_connected :: bool
  sq_queues :: "(string \<times> 'h) list"

definition sqs_connect :: "(bool \<times> ('w \<Rightarrow> unit result \<times> 'w)) \<Rightarrow> 'h sqs \<Rightarrow> 'w \<Rightarrow> unit result \<times> 'h sqs \<times> 'w" where
  "sqs_connect how s w =
     (if sq_connected s then (Inr (), s, w)
      else if \<not> fst how then (Inl (TypeError ''SQSConnection expects a credentials dict''), s, w)
      else (case snd how w of
              (Inl x, w1) \<Rightarrow> (Inl x, s, w1)
            | (Inr u, w1) \<Rightarrow> (Inr (), s\<lparr>sq_connected := True\<rparr>, w1)))"

definition sqs_disconnect :: "'h sqs \<Rightarrow> 'h sqs" where
  "sqs_disconnect s = s\<lparr>sq_connected := False\<rparr>"

definition sqs_create_queue :: "(string \<Rightarrow> 'w \<Rightarrow> 'h result \<times> 'w) \<Rightarrow> string \<Rightarrow> 'h sqs \<Rightarrow> 'w \<Rightarrow> 'h result \<times> 'h sqs \<times> 'w" where
  "sqs_create_queue create q s w =
     (if \<not> sq_connected s then (Inl (RuntimeError ''SQS resource is not connected''), s, w)
      else (case create q w of
              (Inl x, w1) \<Rightarrow> (Inl x, s, w1)
            | (Inr h, w1) \<Rightarrow> (Inr h, s\<lparr>sq_queues := dict_set q h (sq_queues s)\<rparr>, w1)))"

text \<open>\<open>find\<close> answers \<^const>\<open>None\<close> for a queue that does not exist.\<close>

definition sqs_ensure_queue ::
    "(string \<Rightarrow> 'w \<Rightarrow> 'h option result \<times> 'w) \<Rightarrow> (string \<Rightarrow> 'w \<Rightarrow> 'h result \<times> 'w) \<Rightarrow> string \<Rightarrow> 'h sqs \<Rightarrow> 'w \<Rightarrow>
     'h result \<times> 'h sqs \<times> 'w" where
  "sqs_ensure_queue find_queue create q s w =
     (case dict_get (sq_queues s) q of
        Some h \<Rightarrow> (Inr h, s, w)
      | None \<Rightarrow>
          if \<not> sq_connected s then (Inl (RuntimeError ''SQS resource is not connected''), s, w)
          else (case find_queue q w of
                  (Inl x, w1) \<Rightarrow> (Inl x, s, w1)
                | (Inr (Some h), w1) \<Rightarrow> (Inr h, s\<lparr>sq_queues := dict_set q h (sq_queues s)\<rparr>, w1)
                | (Inr None, w1) \<Rightarrow> sqs_create_queue create q s w1))"

section \<open>Properties\<close>

text \<open>A connection whose group could not be created is taken for connected: connecting again does nothing, so
  that the group stays missing.\<close>

lemma failed_connect_kept:
  assumes "redis_connect R X True s False r = (Inl x, c, r1)"
  shows "c \<and> redis_connect R X True s c r2 = (Inr (), True, r2)"
  using assms by (auto simp: redis_connect_def split: if_splits prod.splits sum.splits)

text \<open>A queue is looked up once: afterwards its handle is answered from the cache, without a command, also when
  the connection the handle came from has been given up.\<close>

lemma ensured_queue_cached:
  assumes "sqs_ensure_queue find_queue create q s w = (Inr h, s1, w1)"
  shows "sqs_ensure_queue find_queue create q s1 w2 = (Inr h, s1, w2) \<and>
    sqs_ensure_queue find_queue create q (sqs_disconnect s1) w2 = (Inr h, sqs_disconnect s1, w2)"
  using assms
  by (auto simp: sqs_ensure_queue_def sqs_create_queue_def sqs_disconnect_def split: option.splits if_splits prod.splits sum.splits)

text \<open>
  Properties of the Redis Streams broker, on every server that keeps the contract of \<open>RedisStreams\<close> and then
  on the server of the tests: which entries a pass acknowledges, that a subscription acknowledges the entries
  its callback failed on, and that redelivered entries stay pending for ever.
\<close>

text \<open>The ids of the entries the callback raises on, in a series.\<close>

fun failed_ids :: "'o stream_codec \<Rightarrow> ('o, 'c) stream_callback \<Rightarrow> entry list \<Rightarrow> 'c \<Rightarrow> string list" where
  "failed_ids C cb [] c = []"
| "failed_ids C cb (x # xs) c =
     (case cb (fst x) (snd x) (stream_message C (snd x)) c of
        (None, c1) \<Rightarrow> failed_ids C cb xs c1
      | (Some e, c1) \<Rightarrow> fst x # failed_ids C cb xs c1)"

lemma failing_subset: "set (failed_ids C cb xs c) \<subseteq> fst ` set xs"
proof (induction xs arbitrary: c)
  case (Cons x xs)
  obtain q c1 where "cb (fst x) (snd x) (stream_message C (snd x)) c = (q, c1)" by force
  then show ?case using Cons.IH[of c1] by (cases q) auto
qed simp

lemma failing_wrapped: "failed_ids C (wrap_stream_callback cb) xs c = []"
  by (induction xs arbitrary: c) (simp_all add: wrap_stream_callback_def)

lemma forget_map_fst: "map fst (forget D ps) = filter (\<lambda>i. i \<notin> D) (map fst ps)"
  by (induction ps) (auto simp: forget_def)

context redis_streams
begin

lemma consume_entries_ack:
  assumes "inv r" "rv_grp (view r) (stream, rk_group s) = Some gv" "distinct (map fst xs)"
    "fold (consume_entry R C s cb stream) xs (r, c) = (r1, c1)"
  shows "\<exists>gv1. inv r1 \<and> rv_grp (view r1) (stream, rk_group s) = Some gv1 \<and> gv_fresh gv1 = gv_fresh gv \<and>
    map fst (gv_pend gv1) = filter (\<lambda>i. i \<in> fst ` set xs \<longrightarrow> i \<in> set (failed_ids C cb xs c)) (map fst (gv_pend gv))"
  using assms
proof (induction xs arbitrary: r c gv)
  case (Cons x xs)
  obtain q c2 where cb: "cb (fst x) (snd x) (stream_message C (snd x)) c = (q, c2)" by force
  have new: "fst x \<notin> fst ` set xs" "distinct (map fst xs)" using Cons.prems(3) by auto
  have nf: "fst x \<notin> set (failed_ids C cb xs c2)" using new(1) failing_subset[of C cb xs c2] by blast
  have nb: "\<And>b. (fst x, b) \<notin> set xs" using new(1) by (metis fst_conv image_eqI)
  show ?case
  proof (cases q)
    case None
    obtain k r2 where a: "xack R stream (rk_group s) (fst x) r = (Inr k, r2)" "inv r2"
      "view r2 = set_grp stream (rk_group s) (gv\<lparr>gv_pend := forget {fst x} (gv_pend gv)\<rparr>) (view r)"
      using ack[OF Cons.prems(1,2)] by blast
    have step: "consume_entry R C s cb stream x (r, c) = (r2, c2)" using cb None a(1) by (simp add: consume_entry_def)
    have "fold (consume_entry R C s cb stream) xs (r2, c2) = (r1, c1)" using Cons.prems(4) step by simp
    from Cons.IH[OF a(2) _ new(2) this, of "gv\<lparr>gv_pend := forget {fst x} (gv_pend gv)\<rparr>"] a(3)
    show ?thesis using cb None new failing_subset[of C cb xs c2] by (auto simp: forget_map_fst intro!: filter_cong)
  next
    case (Some e)
    have step: "consume_entry R C s cb stream x (r, c) = (r, c2)" using cb Some by (simp add: consume_entry_def)
    have rest: "fold (consume_entry R C s cb stream) xs (r, c2) = (r1, c1)"
      using Cons.prems(4) step by simp
    from Cons.IH[OF Cons.prems(1,2) new(2) rest] show ?thesis
      using cb Some nb by (auto intro!: filter_cong)
  qed
qed auto

text \<open>A pass that has something to read hands out the next entries and leaves pending, besides what was
  pending, exactly those its callback raised on.\<close>

lemma consume_pass_effect:
  assumes "inv r" "rv_grp (view r) (stream_or_own s q, rk_group s) = Some gv" "gv_fresh gv \<noteq> []" "0 < n" "rk_uses_group s"
    "consume_pass R C s cb q con n block (r, c) = (x, r1, c1)"
  shows "x = Inr () \<and> inv r1 \<and> (\<exists>gv1. rv_grp (view r1) (stream_or_own s q, rk_group s) = Some gv1 \<and>
    gv_fresh gv1 = drop n (gv_fresh gv) \<and>
    map fst (gv_pend gv1) = map fst (gv_pend gv) @
      filter (\<lambda>i. i \<in> set (failed_ids C cb (take n (gv_fresh gv)) c)) (map fst (take n (gv_fresh gv))))"
proof -
  let ?st = "stream_or_own s q" and ?con = "case con of None \<Rightarrow> rk_consumer s | Some c \<Rightarrow> c" and ?es = "take n (gv_fresh gv)"
  have wfg: "wf_group (rv_log (view r) ?st) gv" using wf[OF assms(1)] assms(2) by (auto simp: wf_view_def)
  obtain rep r2 where rd: "xreadgroup R ?st (rk_group s) ?con n (Some block) r = (Inr rep, r2)" "concat (map snd rep) = ?es" "inv r2"
    "view r2 = set_grp ?st (rk_group s) \<lparr>gv_pend = gv_pend gv @
       map (\<lambda>(i, _). (i, \<lparr>pe_consumer = ?con, pe_delivered_at = rv_now (view r), pe_times = 1\<rparr>)) ?es,
       gv_fresh = drop n (gv_fresh gv)\<rparr> (view r)"
    using readgroup[OF assms(1,2,4), of "Some block" ?con] assms(3) by blast
  let ?gv = "\<lparr>gv_pend = gv_pend gv @
       map (\<lambda>(i, _). (i, \<lparr>pe_consumer = ?con, pe_delivered_at = rv_now (view r), pe_times = 1\<rparr>)) ?es,
       gv_fresh = drop n (gv_fresh gv)\<rparr>"
  have d: "distinct (map fst ?es)" using wfg by (simp add: wf_group_def take_map[symmetric])
  have apart: "fst ` set (gv_pend gv) \<inter> fst ` set ?es = {}" using wfg by (auto simp: wf_group_def dest: in_set_takeD)
  have x: "x = Inr ()" and f: "fold (consume_entry R C s cb ?st) ?es (r2, c) = (r1, c1)"
    using assms(5,6) rd(1,2) by (simp_all add: consume_pass_def Let_def)
  have g2: "rv_grp (view r2) (?st, rk_group s) = Some ?gv" using rd(4) by simp
  from consume_entries_ack[OF rd(3) g2 d f] obtain gv1 where
    g1: "inv r1" "rv_grp (view r1) (?st, rk_group s) = Some gv1" "gv_fresh gv1 = drop n (gv_fresh gv)"
      "map fst (gv_pend gv1) = filter (\<lambda>i. i \<in> fst ` set ?es \<longrightarrow> i \<in> set (failed_ids C cb ?es c)) (map fst (gv_pend ?gv))" by auto
  have "filter (\<lambda>i. i \<in> fst ` set ?es \<longrightarrow> i \<in> set (failed_ids C cb ?es c)) (map fst (gv_pend ?gv)) =
      map fst (gv_pend gv) @ filter (\<lambda>i. i \<in> set (failed_ids C cb ?es c)) (map fst ?es)"
  proof -
    have "filter (\<lambda>i. i \<in> fst ` set ?es \<longrightarrow> i \<in> set (failed_ids C cb ?es c)) (map fst (gv_pend gv)) = map fst (gv_pend gv)"
      using apart by (intro filter_True) auto
    moreover have m: "map (fst \<circ> (\<lambda>(i, _). (i, e))) ?es = map fst ?es" for e :: pending_entry by (rule map_cong) auto
    moreover have "filter (\<lambda>i. i \<in> fst ` set ?es \<longrightarrow> i \<in> set (failed_ids C cb ?es c)) (map fst ?es) =
        filter (\<lambda>i. i \<in> set (failed_ids C cb ?es c)) (map fst ?es)" by (intro filter_cong) auto
    ultimately show ?thesis by (simp only: group_view.simps map_append filter_append map_map m)
  qed
  then show ?thesis using x g1 by metis
qed

lemma reclaimed_pending:
  assumes "inv r" "rv_grp (view r) (stream, rk_group s) = Some gv"
    "reclaim_pending_messages R C s cb stream idle n (r, c) = (x, r1, c1)"
  shows "inv r1 \<and> (\<exists>gv1. rv_grp (view r1) (stream, rk_group s) = Some gv1 \<and> gv_fresh gv1 = gv_fresh gv \<and>
    {i \<in> fst ` set (gv_pend gv). in_stream (view r) stream i} \<subseteq> fst ` set (gv_pend gv1) \<and>
    (\<forall>k. x = Inr k \<longrightarrow> k = length (take_count n (expired_live (view r) stream idle gv))))"
proof -
  obtain r2 D ids where a: "ids = map fst (take_count n (expired_live (view r) stream idle gv))"
    "xautoclaim R stream (rk_group s) (rk_consumer s) idle n r = (Inr (map (\<lambda>i. (i, fields_of (view r) stream i)) ids), r2)" "inv r2"
    "\<forall>i \<in> D. \<not> in_stream (view r) stream i"
    "view r2 = set_grp stream (rk_group s) (gv\<lparr>gv_pend := touch (set ids)
       (\<lambda>p. \<lparr>pe_consumer = rk_consumer s, pe_delivered_at = rv_now (view r), pe_times = pe_times p + 1\<rparr>) (forget D (gv_pend gv))\<rparr>) (view r)"
    using autoclaim[OF assms(1,2), where c = "rk_consumer s" and idle = idle and n = n] by blast
  have "r1 = r2" using assms(3) a(2) by (auto simp: reclaim_pending_messages_def split: prod.splits sum.splits)
  moreover have "\<forall>k. x = Inr k \<longrightarrow> k = length ids"
    using assms(3) a(2) by (auto simp: reclaim_pending_messages_def split: prod.splits sum.splits)
  moreover have "{i \<in> fst ` set (gv_pend gv). in_stream (view r) stream i} \<subseteq> fst ` set (forget D (gv_pend gv))"
    using a(4) by (auto simp: forget_def intro!: rev_image_eqI)
  ultimately show ?thesis using a(1,3,5) by simp
qed

end

subsection \<open>On the server of the tests\<close>

text \<open>One pass of the consumer leaves pending exactly the entries its callback raised on, besides what was
  pending before, and acknowledges the rest; what it took is no longer to be delivered.\<close>

theorem consumed_entries_acknowledged:
  assumes "fake_inv r" "rv_grp (fake_view r) (stream_or_own s q, rk_group s) = Some gv" "gv_fresh gv \<noteq> []" "0 < n" "rk_uses_group s"
    "consume_pass fake_ops C s cb q con n block (r, c) = (x, r1, c1)"
  shows "x = Inr () \<and> (\<exists>gv1. rv_grp (fake_view r1) (stream_or_own s q, rk_group s) = Some gv1 \<and>
    gv_fresh gv1 = drop n (gv_fresh gv) \<and>
    map fst (gv_pend gv1) = map fst (gv_pend gv) @
      filter (\<lambda>i. i \<in> set (failed_ids C cb (take n (gv_fresh gv)) c)) (map fst (take n (gv_fresh gv))))"
  using redis_streams.consume_pass_effect[OF fake.redis_streams_axioms assms] by blast

text \<open>C35: A subscription by \<open>event_subscribe\<close> acknowledges every entry it reads, also those its callback raised on:
  its wrapper swallows the exception before the consumer sees it, so that a failed entry is neither pending
  nor delivered again.\<close>

theorem subscription_acknowledges_failures:
  assumes "fake_inv r" "rv_grp (fake_view r) (stream_or_own s q, rk_group s) = Some gv" "gv_fresh gv \<noteq> []" "0 < n" "rk_uses_group s"
    "event_subscribe_pass fake_ops C s cb q n block (r, c) = (x, r1, c1)"
  shows "\<exists>gv1. rv_grp (fake_view r1) (stream_or_own s q, rk_group s) = Some gv1 \<and>
    map fst (gv_pend gv1) = map fst (gv_pend gv) \<and> gv_fresh gv1 = drop n (gv_fresh gv)"
  using redis_streams.consume_pass_effect[OF fake.redis_streams_axioms assms(1-5) assms(6)[unfolded event_subscribe_pass_def]]
  by (auto simp: failing_wrapped)

text \<open>Redelivering the stuck entries acknowledges none of them, whatever the callback does: every entry that is
  still in its stream stays pending, so that each sweep hands it out again.\<close>

theorem reclaimed_entries_stay_pending:
  assumes "fake_inv r" "rv_grp (fake_view r) (stream, rk_group s) = Some gv"
    "reclaim_pending_messages fake_ops C s cb stream idle n (r, c) = (x, r1, c1)"
  shows "\<exists>gv1. rv_grp (fake_view r1) (stream, rk_group s) = Some gv1 \<and>
    {i \<in> fst ` set (gv_pend gv). in_stream (fake_view r) stream i} \<subseteq> fst ` set (gv_pend gv1)"
  using redis_streams.reclaimed_pending[OF fake.redis_streams_axioms assms] by blast

subsection \<open>Witnesses\<close>

definition sample_broker :: redis_broker where
  "sample_broker = \<lparr>rk_group = ''g'', rk_consumer = ''w'', rk_queue = ''s:q'', rk_uses_group = True\<rparr>"

definition sample_stream_codec :: "unit stream_codec" where
  "sample_stream_codec = \<lparr>st_codec = sample_mq_codec, st_pack = (\<lambda>v. Inr ''p''), st_unpack = (\<lambda>t. Inr (Value PNone)),
     st_pickle = (\<lambda>b. Inr ''w'')\<rparr>"

definition refusing :: "(unit, nat) stream_callback" where
  "refusing i fs b n = (Some (OtherError ''x''), Suc n)"

text \<open>One entry is pending, one was never delivered.\<close>

lemma sample_group_view:
  obtains gv where "rv_grp (fake_view (q_redis sample_state)) (''s:q'', ''g'') = Some gv" "map fst (gv_pend gv) = [mint 1]"
    "gv_fresh gv = [(mint 2, [(''envelope'', ''b'')])]"
proof -
  have "map_option (\<lambda>gv. (map fst (gv_pend gv), gv_fresh gv)) (rv_grp (fake_view (q_redis sample_state)) (''s:q'', ''g'')) =
      Some ([mint 1], [(mint 2, [(''envelope'', ''b'')])])" by code_simp
  then show thesis using that by (cases "rv_grp (fake_view (q_redis sample_state)) (''s:q'', ''g'')") auto
qed

lemma sample_own_stream: "stream_or_own sample_broker None = ''s:q''" "rk_group sample_broker = ''g''" "rk_uses_group sample_broker"
  by (simp_all add: stream_or_own_def sample_broker_def)

theorem consumed_entries_acknowledged_witness:
  "\<exists>r1 c1 gv1. consume_pass fake_ops sample_stream_codec sample_broker refusing None None 1 1000 (q_redis sample_state, 0) = (Inr (), r1, c1) \<and>
     rv_grp (fake_view r1) (''s:q'', ''g'') = Some gv1 \<and> map fst (gv_pend gv1) = [mint 1, mint 2] \<and> gv_fresh gv1 = []"
proof -
  obtain gv where gv: "rv_grp (fake_view (q_redis sample_state)) (''s:q'', ''g'') = Some gv" "map fst (gv_pend gv) = [mint 1]"
    "gv_fresh gv = [(mint 2, [(''envelope'', ''b'')])]" by (rule sample_group_view)
  obtain x r1 c1 where p: "consume_pass fake_ops sample_stream_codec sample_broker refusing None None 1 1000 (q_redis sample_state, 0) = (x, r1, c1)"
    by (metis prod_cases3)
  from consumed_entries_acknowledged[OF sample_state_inv _ _ _ sample_own_stream(3) p, unfolded sample_own_stream, OF gv(1)] gv
  show ?thesis using p by (auto simp: refusing_def)
qed

theorem subscription_acknowledges_failures_witness:
  "\<exists>x r1 c1 gv1. event_subscribe_pass fake_ops sample_stream_codec sample_broker refusing None 1 1000 (q_redis sample_state, 0) = (x, r1, c1) \<and>
     rv_grp (fake_view r1) (''s:q'', ''g'') = Some gv1 \<and> map fst (gv_pend gv1) = [mint 1] \<and> gv_fresh gv1 = []"
proof -
  obtain gv where gv: "rv_grp (fake_view (q_redis sample_state)) (''s:q'', ''g'') = Some gv" "map fst (gv_pend gv) = [mint 1]"
    "gv_fresh gv = [(mint 2, [(''envelope'', ''b'')])]" by (rule sample_group_view)
  obtain x r1 c1 where p: "event_subscribe_pass fake_ops sample_stream_codec sample_broker refusing None 1 1000 (q_redis sample_state, 0) = (x, r1, c1)"
    by (metis prod_cases3)
  from subscription_acknowledges_failures[OF sample_state_inv _ _ _ sample_own_stream(3) p, unfolded sample_own_stream, OF gv(1)] gv
  show ?thesis using p by auto
qed

theorem reclaimed_entries_stay_pending_witness:
  "\<exists>r1 gv1. fst (snd (reclaim_pending_messages fake_ops sample_stream_codec sample_broker refusing ''s:q'' 1 10 (q_redis sample_state, 0))) = r1 \<and>
     rv_grp (fake_view r1) (''s:q'', ''g'') = Some gv1 \<and> mint 1 \<in> fst ` set (gv_pend gv1)"
proof -
  obtain gv where gv: "rv_grp (fake_view (q_redis sample_state)) (''s:q'', ''g'') = Some gv" "map fst (gv_pend gv) = [mint 1]"
    by (rule sample_group_view)
  obtain x r1 c1 where p: "reclaim_pending_messages fake_ops sample_stream_codec sample_broker refusing ''s:q'' 1 10 (q_redis sample_state, 0) = (x, r1, c1)"
    by (metis prod_cases3)
  have "in_stream (fake_view (q_redis sample_state)) ''s:q'' (mint 1)" by code_simp
  moreover have "mint 1 \<in> fst ` set (gv_pend gv)" by (metis gv(2) list.set_intros(1) set_map)
  ultimately show ?thesis
    using reclaimed_entries_stay_pending[OF sample_state_inv _ p, unfolded sample_own_stream, OF gv(1)] p by auto
qed

end
