(* ===== verification/Ingress.thy ===== *)
theory Ingress
  imports Facade IngressModel Json Samples
begin

text \<open>
  The WebSocket ingress of ingress/websocket.py and the gRPC ingress of ingress/grpc.py: the shared token,
  validation at the boundary model, publication through the facade, and the answers.  The bus is a state
  with an \<open>emit\<close>; JSON and pydantic are arguments, \<open>u\<close> and \<open>now\<close> what the boundary model draws; the text
  of a validation error is pydantic's.
\<close>

subsection \<open>Authorisation\<close>

definition ingress_token :: "(string \<Rightarrow> string option) \<Rightarrow> string option \<Rightarrow> string option" where
  "ingress_token nav given = (case given of Some t \<Rightarrow> Some t | None \<Rightarrow> nav ''BUS_INGRESS_TOKEN'')"

definition token_matches :: "string \<Rightarrow> string option \<Rightarrow> bool" where
  "token_matches tok candidate \<longleftrightarrow> candidate = Some tok"

text \<open>The values of the \<open>Authorization\<close> and \<open>X-API-Key\<close> headers and of the query parameter, where present.\<close>

definition ws_authorized :: "string option \<Rightarrow> string option \<Rightarrow> string option \<Rightarrow> string option \<Rightarrow> bool" where
  "ws_authorized token auth key query \<longleftrightarrow>
     (case token of
        Some (c # cs) \<Rightarrow>
          (let a = (case auth of None \<Rightarrow> [] | Some a \<Rightarrow> a)
           in py_startswith a ''Bearer '' \<and> token_matches (c # cs) (Some (drop 7 a)) \<or> token_matches (c # cs) key \<or> token_matches (c # cs) query)
      | _ \<Rightarrow> False)"

text \<open>The gRPC metadata, with its last entry for a key.\<close>

definition grpc_authorized :: "string option \<Rightarrow> (string \<times> string) list \<Rightarrow> bool" where
  "grpc_authorized token md \<longleftrightarrow>
     ws_authorized token (dict_get (rev md) ''authorization'') (dict_get (rev md) ''x-api-key'') None"

subsection \<open>Publishing\<close>

definition ingress_kwargs :: "string \<Rightarrow> string \<Rightarrow> ingress_envelope \<Rightarrow> emit_kwargs" where
  "ingress_kwargs kind hook_id g =
     \<lparr>ek_event_id = Some (ig_event_id g), ek_timestamp = Some (ig_timestamp g),
      ek_source = Some (case ig_source g of Some (c # cs) \<Rightarrow> c # cs | _ \<Rightarrow> kind @ '':'' @ hook_id),
      ek_priority = Some (ig_priority g), ek_correlation_id = ig_correlation_id g, ek_metadata = Some (ig_metadata g),
      ek_severity = Some (ig_severity g)\<rparr>"

definition ingress_publish :: "'b bus_emit \<Rightarrow> string \<Rightarrow> string \<Rightarrow> ingress_envelope \<Rightarrow> 'b \<Rightarrow> py_exc option \<times> 'b" where
  "ingress_publish bus kind hook_id g b = bus (ig_topic g) (PDict (ig_payload g)) (ingress_kwargs kind hook_id g) b"

subsection \<open>WebSocket\<close>

record ws_ingress =
  wi_url :: string
  wi_token :: "string option"
  wi_hook_id :: string
  wi_sockets :: "nat list"

definition ws_ingress_new :: "(string \<Rightarrow> string option) \<Rightarrow> string \<Rightarrow> string option \<Rightarrow> string \<Rightarrow> ws_ingress" where
  "ws_ingress_new nav url token hook_id =
     \<lparr>wi_url = url, wi_token = ingress_token nav token, wi_hook_id = hook_id, wi_sockets = []\<rparr>"

text \<open>\<open>why\<close> is the text of what validation raised on a frame.\<close>

definition ws_rejected :: "string \<Rightarrow> pydict" where
  "ws_rejected why = [(''status'', PStr ''rejected''), (''error'', PStr why)]"

definition process_frame ::
    "json_codec \<Rightarrow> pydantic \<Rightarrow> (string \<Rightarrow> string) \<Rightarrow> 'b bus_emit \<Rightarrow> string \<Rightarrow> string \<Rightarrow> py_datetime \<Rightarrow> string \<Rightarrow> 'b \<Rightarrow> pydict \<times> 'b" where
  "process_frame J P why bus hook_id u now raw b =
     (case loads J raw of
        Inl x \<Rightarrow> (ws_rejected (why raw), b)
      | Inr v \<Rightarrow>
          (case ingress_validate P u now v of
             None \<Rightarrow> (ws_rejected (why raw), b)
           | Some g \<Rightarrow>
               (case ingress_publish bus ''ws'' hook_id g b of
                  (Some x, b1) \<Rightarrow> ([(''status'', PStr ''error''), (''error'', PStr ''internal publish failure'')], b1)
                | (None, b1) \<Rightarrow> ([(''status'', PStr ''accepted''), (''event_id'', PStr (ig_event_id g))], b1))))"

text \<open>A frame with what the boundary model draws for it; an error frame ends the session.\<close>

datatype ws_frame = Text_frame string string py_datetime | Error_frame | Other_frame

fun ws_frames ::
    "json_codec \<Rightarrow> pydantic \<Rightarrow> (string \<Rightarrow> string) \<Rightarrow> 'b bus_emit \<Rightarrow> string \<Rightarrow> ws_frame list \<Rightarrow> 'b \<Rightarrow> pydict list \<times> 'b" where
  "ws_frames J P why bus hook_id [] b = ([], b)"
| "ws_frames J P why bus hook_id (Error_frame # fs) b = ([], b)"
| "ws_frames J P why bus hook_id (Other_frame # fs) b = ws_frames J P why bus hook_id fs b"
| "ws_frames J P why bus hook_id (Text_frame raw u now # fs) b =
     (case process_frame J P why bus hook_id u now raw b of
        (reply, b1) \<Rightarrow> (case ws_frames J P why bus hook_id fs b1 of (replies, b2) \<Rightarrow> (reply # replies, b2)))"

text \<open>A connection: refused with 401 (\<^const>\<open>None\<close>), or the answers of its session; the set of sockets is
  as before when it is over.\<close>

definition handle_ws ::
    "json_codec \<Rightarrow> pydantic \<Rightarrow> (string \<Rightarrow> string) \<Rightarrow> 'b bus_emit \<Rightarrow> string option \<Rightarrow> string option \<Rightarrow> string option \<Rightarrow> ws_frame list \<Rightarrow>
     ws_ingress \<Rightarrow> 'b \<Rightarrow> pydict list option \<times> 'b" where
  "handle_ws J P why bus auth key query fs s b =
     (if \<not> ws_authorized (wi_token s) auth key query then (None, b)
      else apfst Some (ws_frames J P why bus (wi_hook_id s) fs b))"

definition ws_connected :: "nat \<Rightarrow> ws_ingress \<Rightarrow> ws_ingress" where
  "ws_connected i s = s\<lparr>wi_sockets := List.insert i (wi_sockets s)\<rparr>"

definition ws_disconnected :: "nat \<Rightarrow> ws_ingress \<Rightarrow> ws_ingress" where
  "ws_disconnected i s = s\<lparr>wi_sockets := removeAll i (wi_sockets s)\<rparr>"

definition ws_stop :: "ws_ingress \<Rightarrow> ws_ingress" where
  "ws_stop s = s\<lparr>wi_sockets := []\<rparr>"

subsection \<open>gRPC\<close>

text \<open>A request; a text is empty when it is not set.\<close>

record publish_request =
  gq_topic :: string
  gq_payload :: string
  gq_event_id :: string
  gq_timestamp :: string
  gq_source :: string
  gq_severity :: "int option"
  gq_priority :: "int option"
  gq_correlation_id :: string
  gq_metadata :: string
  gq_trace :: string

definition json_field :: "json_codec \<Rightarrow> string \<Rightarrow> pydict option result" where
  "json_field J raw =
     (if raw = [] then Inr None
      else (case loads J raw of
              Inl x \<Rightarrow> Inl (ValueError ''invalid JSON field'')
            | Inr (PDict d) \<Rightarrow> Inr (Some d)
            | Inr v \<Rightarrow> Inl (ValueError ''invalid JSON field'')))"

definition text_item :: "string \<Rightarrow> string \<Rightarrow> pydict" where
  "text_item k v = (if v = [] then [] else [(k, PStr v)])"

definition int_item :: "string \<Rightarrow> int option \<Rightarrow> pydict" where
  "int_item k v = (case v of None \<Rightarrow> [] | Some i \<Rightarrow> [(k, PInt i)])"

text \<open>The dictionary that is validated; \<open>fiso\<close> is \<open>datetime.fromisoformat\<close>.\<close>

definition request_dict :: "json_codec \<Rightarrow> (string \<Rightarrow> py_datetime option) \<Rightarrow> publish_request \<Rightarrow> pydict result" where
  "request_dict J fiso q =
     bind_r (json_field J (gq_payload q)) (\<lambda>pl.
     bind_r (json_field J (gq_metadata q)) (\<lambda>md.
     bind_r (json_field J (gq_trace q)) (\<lambda>tc.
     bind_r (if gq_timestamp q = [] then Inr []
             else map_sum id (\<lambda>d. [(''timestamp'', PDate d)]) (of_opt (ValueError ''invalid timestamp'') (fiso (gq_timestamp q)))) (\<lambda>ts.
     Inr ([(''topic'', PStr (gq_topic q)), (''payload'', PDict (case pl of None \<Rightarrow> [] | Some d \<Rightarrow> d)),
           (''metadata'', PDict (case md of None \<Rightarrow> [] | Some d \<Rightarrow> d))] @
          (case tc of None \<Rightarrow> [] | Some d \<Rightarrow> [(''trace_context'', PDict d)]) @
          text_item ''event_id'' (gq_event_id q) @ ts @ text_item ''source'' (gq_source q) @
          int_item ''severity'' (gq_severity q) @ int_item ''priority'' (gq_priority q) @
          text_item ''correlation_id'' (gq_correlation_id q))))))"

definition validate_publish_request ::
    "json_codec \<Rightarrow> pydantic \<Rightarrow> (string \<Rightarrow> py_datetime option) \<Rightarrow> string \<Rightarrow> py_datetime \<Rightarrow> publish_request \<Rightarrow> ingress_envelope result" where
  "validate_publish_request J P fiso u now q =
     bind_r (request_dict J fiso q) (\<lambda>d. of_opt (ValueError ''ValidationError'') (ingress_validate P u now (PDict d)))"

text \<open>The call is aborted, answered, or fails with what the bus raised.\<close>

datatype grpc_reply = Unauthenticated | Published string | Rejected_request py_exc | Grpc_failed py_exc

definition grpc_publish ::
    "json_codec \<Rightarrow> pydantic \<Rightarrow> (string \<Rightarrow> py_datetime option) \<Rightarrow> 'b bus_emit \<Rightarrow> string option \<Rightarrow> string \<Rightarrow> string \<Rightarrow> py_datetime \<Rightarrow>
     (string \<times> string) list \<Rightarrow> publish_request \<Rightarrow> 'b \<Rightarrow> grpc_reply \<times> 'b" where
  "grpc_publish J P fiso bus token hook_id u now md q b =
     (if \<not> grpc_authorized token md then (Unauthenticated, b)
      else (case validate_publish_request J P fiso u now q of
              Inl x \<Rightarrow> (Rejected_request x, b)
            | Inr g \<Rightarrow>
                (case ingress_publish bus ''grpc'' hook_id g b of
                   (Some x, b1) \<Rightarrow> (Grpc_failed x, b1)
                 | (None, b1) \<Rightarrow> (Published (ig_event_id g), b1))))"

section \<open>Properties\<close>

text \<open>The properties of the two ingresses: what a WebSocket session puts on the bus, and which envelope a
  validated event becomes.\<close>

subsection \<open>A WebSocket session\<close>

text \<open>The text frames a session reads: those before the first error frame.\<close>

definition frames_read :: "ws_frame list \<Rightarrow> ws_frame list" where
  "frames_read fs = filter (\<lambda>f. f \<noteq> Other_frame) (takeWhile (\<lambda>f. f \<noteq> Error_frame) fs)"

definition validated_frame :: "json_codec \<Rightarrow> pydantic \<Rightarrow> ws_frame \<Rightarrow> ingress_envelope option" where
  "validated_frame J P f =
     (case f of
        Text_frame raw u now \<Rightarrow> (case loads J raw of Inl x \<Rightarrow> None | Inr v \<Rightarrow> ingress_validate P u now v)
      | _ \<Rightarrow> None)"

text \<open>The bus after the validated events of the frames have been published in turn.\<close>

definition publish_all :: "'b bus_emit \<Rightarrow> string \<Rightarrow> ingress_envelope list \<Rightarrow> 'b \<Rightarrow> 'b" where
  "publish_all bus h gs b = fold (\<lambda>g b. snd (ingress_publish bus ''ws'' h g b)) gs b"

lemma process_frame_bus:
  "snd (process_frame J P why bus h u now raw b) =
     publish_all bus h (List.map_filter (validated_frame J P) [Text_frame raw u now]) b"
  by (auto simp: process_frame_def publish_all_def validated_frame_def List.map_filter_simps
      split: sum.split option.split prod.split)

lemma frames_read_simps [simp]:
  "frames_read [] = []" "frames_read (Error_frame # fs) = []" "frames_read (Other_frame # fs) = frames_read fs"
  "frames_read (Text_frame raw u now # fs) = Text_frame raw u now # frames_read fs"
  by (simp_all add: frames_read_def)

lemma ws_frames_bus:
  "ws_frames J P why bus h fs b = (replies, b1) \<Longrightarrow>
     length replies = length (frames_read fs)
     \<and> b1 = publish_all bus h (List.map_filter (validated_frame J P) (frames_read fs)) b"
proof (induction fs arbitrary: b replies b1)
  case (Cons f fs)
  show ?case
  proof (cases f)
    case (Text_frame raw u now)
    obtain r b2 where p: "process_frame J P why bus h u now raw b = (r, b2)" by force
    obtain rs b3 where q: "ws_frames J P why bus h fs b2 = (rs, b3)" by force
    have out: "replies = r # rs" "b1 = b3" using Cons.prems by (simp_all add: Text_frame p q)
    have "b2 = publish_all bus h (List.map_filter (validated_frame J P) [Text_frame raw u now]) b"
      using process_frame_bus[of J P why bus h u now raw b] p by simp
    then show ?thesis using Cons.IH[OF q] out
      by (simp add: Text_frame publish_all_def List.map_filter_simps split: option.split)
  qed (use Cons in \<open>simp_all add: publish_all_def List.map_filter_simps\<close>)
qed (simp add: publish_all_def List.map_filter_simps)

text \<open>C27: a WebSocket connection without the shared token leaves the bus alone, and with it the bus is
  what publishing the validated frames, in their order and each once, makes of it: a frame that is no JSON or
  does not validate is answered and skipped, a failed publication does not end the session, and every text frame
  before an error frame gets exactly one answer.\<close>

theorem ws_session_exact:
  assumes "handle_ws J P why bus auth key query fs s b = (r, b1)"
  shows "(r = None \<and> \<not> ws_authorized (wi_token s) auth key query \<and> b1 = b) \<or>
    (ws_authorized (wi_token s) auth key query \<and> b1 = publish_all bus (wi_hook_id s) (List.map_filter (validated_frame J P) (frames_read fs)) b
      \<and> (\<exists>replies. r = Some replies \<and> length replies = length (frames_read fs)))"
proof (cases "ws_authorized (wi_token s) auth key query")
  case True
  obtain replies b2 where w: "ws_frames J P why bus (wi_hook_id s) fs b = (replies, b2)" by force
  show ?thesis using assms True ws_frames_bus[OF w] by (auto simp: handle_ws_def w)
qed (use assms in \<open>auto simp: handle_ws_def\<close>)

definition topic_json :: json_codec where
  "topic_json = \<lparr>dumps = (\<lambda>v. Inr []), loads = (\<lambda>s. if s = [] then Inl (ValueError []) else Inr (PDict [(''topic'', PStr s)]))\<rparr>"

definition strict_pydantic :: pydantic where
  "strict_pydantic = \<lparr>pd_int = (\<lambda>v. None), pd_datetime = (\<lambda>v. None), pd_severity = (\<lambda>v. None), pd_priority = (\<lambda>v. None)\<rparr>"

definition topics_bus :: "string list bus_emit" where
  "topics_bus t pl k w = (if t = ''full'' then Some BusClosedError else None, w @ [t])"

lemma topic_frame:
  "validated_frame topic_json strict_pydantic (Text_frame (c # cs) u now) = Some
     \<lparr>ig_topic = c # cs, ig_payload = [], ig_event_id = u, ig_timestamp = now, ig_source = None, ig_severity = INFO,
      ig_priority = NORMAL, ig_correlation_id = None, ig_trace_context = None, ig_metadata = [], ig_schema_version = 1\<rparr>"
  by (simp add: validated_frame_def topic_json_def ingress_validate_def forbid_extra_def INGRESS_KEYS_def required_def
      defaulted_def nonempty_str_def strict_pydantic_def)

lemma empty_frame: "validated_frame topic_json strict_pydantic (Text_frame [] u now) = None"
  by (simp add: validated_frame_def topic_json_def)

text \<open>Two events, one of which the bus refuses, an invalid frame, and one after an error frame.\<close>

definition sample_frames :: "ws_frame list" where
  "sample_frames = [Text_frame ''full'' ''1'' sample_time, Text_frame [] ''2'' sample_time, Other_frame,
     Text_frame ''b'' ''3'' sample_time, Error_frame, Text_frame ''c'' ''4'' sample_time]"

definition open_ingress :: ws_ingress where
  "open_ingress = ws_ingress_new (\<lambda>k. Some ''tok'') ''/ws'' None ''h''"

lemma ws_session_exact_witness:
  "\<exists>replies. handle_ws topic_json strict_pydantic id topics_bus None (Some ''tok'') None sample_frames open_ingress [] =
     (Some replies, [''full'', ''b'']) \<and> length replies = 3"
proof -
  obtain r b1 where h: "handle_ws topic_json strict_pydantic id topics_bus None (Some ''tok'') None sample_frames open_ingress [] = (r, b1)"
    by force
  have a: "ws_authorized (wi_token open_ingress) None (Some ''tok'') None"
    by (simp add: open_ingress_def ws_ingress_new_def ingress_token_def ws_authorized_def token_matches_def)
  show ?thesis using ws_session_exact[OF h] h a
    by (auto simp: sample_frames_def topic_frame empty_frame publish_all_def ingress_publish_def topics_bus_def List.map_filter_simps)
qed

subsection \<open>The published envelope\<close>

text \<open>What the source of an event is when the model has none, and the fields \<open>emit\<close> does not carry.\<close>

definition as_published :: "string \<Rightarrow> string \<Rightarrow> envelope \<Rightarrow> envelope" where
  "as_published kind h e =
     e\<lparr>source := Some (case source e of Some (c # cs) \<Rightarrow> c # cs | _ \<Rightarrow> kind @ '':'' @ h),
       trace_context := PNone, schema_version := ENVELOPE_SCHEMA_VERSION\<rparr>"

text \<open>C28: an event validated at the boundary is published as its envelope \<open>to_envelope\<close> with the
  source defaulted to the ingress; but the trace context and the schema version the boundary accepted are lost,
  whatever they were, since \<open>emit\<close> has no argument for them.\<close>

theorem ingress_event_exact:
  assumes "ingress_validate P u now v = Some g" "dt_aware now"
  shows "\<exists>e ev. to_envelope g = Inr e \<and> from_legacy_event ev (ig_severity g) = Inr (as_published kind h e) \<and>
    (case facade_publish G ops m t ev (Some (ig_severity g)) (f\<lparr>fc_core := (fc_core f)\<lparr>b_draws := Suc (b_draws (fc_core f))\<rparr>\<rparr>) of
       (Inl x, f') \<Rightarrow> ingress_publish (facade_emit G ops m t) kind h g f = (Some x, f')
     | (Inr y, f') \<Rightarrow> ingress_publish (facade_emit G ops m t) kind h g f = (None, f'))"
proof -
  have aw: "dt_aware (ig_timestamp g)" by (rule ingress_facts(1)[OF assms])
  define e where "e = \<lparr>topic = ig_topic g, payload = PDict (ig_payload g), event_id = ig_event_id g, timestamp = ig_timestamp g,
      source = ig_source g, severity = ig_severity g, priority = ig_priority g, correlation_id = ig_correlation_id g,
      trace_context = (case ig_trace_context g of None \<Rightarrow> PNone | Some d \<Rightarrow> PDict d),
      metadata = PDict (ig_metadata g), schema_version = ig_schema_version g\<rparr>"
  define ev where "ev = emit_event (uuid4 G (b_draws (fc_core f))) (utcnow G (b_draws (fc_core f))) (ig_topic g) (PDict (ig_payload g)) (ingress_kwargs kind h g)"
  have e: "to_envelope g = Inr e" using aw by (simp add: to_envelope_def e_def post_init_def)
  have ev: "from_legacy_event ev (ig_severity g) = Inr (as_published kind h e)"
    using aw by (simp add: ev_def e_def as_published_def from_legacy_event_def emit_event_def ingress_kwargs_def opt_or_def bind_r_def
        post_init_def ensure_aware_utc_def)
  have k: "ek_severity (ingress_kwargs kind h g) = Some (ig_severity g)" by (simp add: ingress_kwargs_def)
  show ?thesis
    by (intro exI conjI, rule e, rule ev)
      (auto simp: ingress_publish_def facade_emit_def emit_def Let_def k ev_def[symmetric] split: prod.split sum.split)
qed

text \<open>A traced event: its trace context does not reach the bus.\<close>

definition traced_event :: pyval where
  "traced_event = PDict [(''topic'', PStr ''t''), (''trace_context'', PDict [(''traceparent'', PStr ''00-1'')])]"

lemma ingress_event_exact_witness:
  "\<exists>g e ev. ingress_validate strict_pydantic ''u'' sample_time traced_event = Some g \<and> to_envelope g = Inr e
     \<and> trace_context e = PDict [(''traceparent'', PStr ''00-1'')]
     \<and> from_legacy_event ev (ig_severity g) = Inr (e\<lparr>source := Some ''grpc:h'', trace_context := PNone\<rparr>)"
proof -
  define g where "g = \<lparr>ig_topic = ''t'', ig_payload = [], ig_event_id = ''u'', ig_timestamp = sample_time, ig_source = None,
      ig_severity = INFO, ig_priority = NORMAL, ig_correlation_id = None,
      ig_trace_context = Some [(''traceparent'', PStr ''00-1'')], ig_metadata = [], ig_schema_version = 1\<rparr>"
  have v: "ingress_validate strict_pydantic ''u'' sample_time traced_event = Some g"
    by (simp add: g_def traced_event_def ingress_validate_def forbid_extra_def INGRESS_KEYS_def required_def
      defaulted_def nonempty_str_def strict_pydantic_def)
  have aw: "dt_aware sample_time" by (simp add: dt_aware_def sample_time_def)
  obtain e ev where e: "to_envelope g = Inr e" "from_legacy_event ev (ig_severity g) = Inr (as_published ''grpc'' ''h'' e)"
    using ingress_event_exact[OF v aw, where kind = "''grpc''" and h = "''h''"] by blast
  have p: "source e = None" "schema_version e = 1" "trace_context e = PDict [(''traceparent'', PStr ''00-1'')]"
    using e(1) aw by (auto simp: g_def to_envelope_def post_init_def)
  have "as_published ''grpc'' ''h'' e = e\<lparr>source := Some ''grpc:h'', trace_context := PNone\<rparr>"
    using p by (simp add: as_published_def ENVELOPE_SCHEMA_VERSION_def)
  then show ?thesis using v e p(3) by (metis)
qed

end
