(* ===== verification/PubSub.thy ===== *)
theory PubSub
  imports Facade Json Samples
begin

text \<open>
  The transports without persistence: the loopback of backends/memory.py and the Redis pub/sub of
  backends/redis_pubsub.py.  A consumer is a callback over the world that may raise; the commands of the
  Redis client and JSON are arguments.
\<close>

type_synonym 'w on_envelope = "envelope \<Rightarrow> 'w \<Rightarrow> py_exc option \<times> 'w"

subsection \<open>Memory\<close>

text \<open>The backend is its registered consumer.\<close>

definition memory_publish :: "'w on_envelope option \<Rightarrow> envelope \<Rightarrow> 'w \<Rightarrow> py_exc option \<times> 'w" where
  "memory_publish consumer e w = (case consumer of None \<Rightarrow> (None, w) | Some f \<Rightarrow> f e w)"

definition memory_start_consumer :: "'w on_envelope \<Rightarrow> 'w on_envelope option \<Rightarrow> 'w on_envelope option" where
  "memory_start_consumer f consumer = Some f"

definition memory_close :: "'w on_envelope option \<Rightarrow> 'w on_envelope option" where
  "memory_close consumer = None"

subsection \<open>Redis\<close>

record pubsub =
  ps_injected :: bool
  ps_prefix :: string
  ps_connected :: bool
  ps_running :: bool
  ps_base :: real
  ps_most :: real

definition pubsub_new :: "string option \<Rightarrow> bool \<Rightarrow> string option \<Rightarrow> real \<Rightarrow> real \<Rightarrow> pubsub result" where
  "pubsub_new url client_given pre base most =
     (if url = None \<and> \<not> client_given then Inl (ValueError ''requires a redis_url or an injected client'')
      else Inr \<lparr>ps_injected = client_given, ps_prefix = (case or_str pre None of None \<Rightarrow> DEFAULT_CHANNEL_PREFIX | Some p \<Rightarrow> p),
                ps_connected = False, ps_running = False, ps_base = base, ps_most = most\<rparr>)"

text \<open>An injected client is there; another is made by \<open>from_url\<close>, which may raise.\<close>

definition pubsub_connect :: "('w \<Rightarrow> unit result \<times> 'w) \<Rightarrow> pubsub \<Rightarrow> 'w \<Rightarrow> unit result \<times> pubsub \<times> 'w" where
  "pubsub_connect from_url s w =
     (if ps_connected s then (Inr (), s, w)
      else if ps_injected s then (Inr (), s\<lparr>ps_connected := True\<rparr>, w)
      else (case from_url w of
              (Inl x, w1) \<Rightarrow> (Inl x, s, w1)
            | (Inr u, w1) \<Rightarrow> (Inr (), s\<lparr>ps_connected := True\<rparr>, w1)))"

definition pubsub_publish ::
    "json_codec \<Rightarrow> ('w \<Rightarrow> unit result \<times> 'w) \<Rightarrow> (string \<Rightarrow> string \<Rightarrow> 'w \<Rightarrow> unit result \<times> 'w) \<Rightarrow> envelope \<Rightarrow> pubsub \<Rightarrow> 'w \<Rightarrow>
     unit result \<times> pubsub \<times> 'w" where
  "pubsub_publish J from_url PUBLISH e s w =
     (case pubsub_connect from_url s w of
        (Inl x, s1, w1) \<Rightarrow> (Inl x, s1, w1)
      | (Inr u, s1, w1) \<Rightarrow>
          (case dumps J (PDict (to_dict e)) of
             Inl x \<Rightarrow> (Inl x, s1, w1)
           | Inr t \<Rightarrow> (case PUBLISH (ps_prefix s1 @ topic e) t w1 of (r, w2) \<Rightarrow> (r, s1, w2))))"

text \<open>A message that does not decode is dropped, and what the consumer raises is only logged.\<close>

definition pubsub_handle :: "json_codec \<Rightarrow> string \<Rightarrow> 'w on_envelope \<Rightarrow> string \<Rightarrow> 'w \<Rightarrow> 'w" where
  "pubsub_handle J u f t w =
     (case loads J t of
        Inr (PDict d) \<Rightarrow> (case from_dict u d of Inl x \<Rightarrow> w | Inr e \<Rightarrow> snd (f e w))
      | _ \<Rightarrow> w)"

text \<open>
  A round of the consumer: no subscription could be made, or it listened to messages, each with its type and
  the id its envelope may need, until the listening raised or ended.  The result is how long it then sleeps,
  if it does, and the next delay.
\<close>

datatype pubsub_round = Unreachable | Listened "(string \<times> string \<times> string) list" bool

definition pubsub_listen :: "json_codec \<Rightarrow> 'w on_envelope \<Rightarrow> (string \<times> string \<times> string) list \<Rightarrow> 'w \<Rightarrow> 'w" where
  "pubsub_listen J f ms w = fold (\<lambda>(ty, u, t) w. if ty \<noteq> ''pmessage'' then w else pubsub_handle J u f t w) ms w"

definition reconnect_after :: "real \<Rightarrow> real \<Rightarrow> real option \<times> real" where
  "reconnect_after most delay = (Some delay, min (delay * 2) most)"

definition consumer_round :: "json_codec \<Rightarrow> 'w on_envelope \<Rightarrow> pubsub \<Rightarrow> pubsub_round \<Rightarrow> real \<Rightarrow> 'w \<Rightarrow> (real option \<times> real) \<times> 'w" where
  "consumer_round J f s x delay w =
     (case x of
        Unreachable \<Rightarrow> (reconnect_after (ps_most s) delay, w)
      | Listened ms raised \<Rightarrow>
          ((if raised then reconnect_after (ps_most s) (ps_base s) else (None, ps_base s)), pubsub_listen J f ms w))"

fun consumer_rounds :: "json_codec \<Rightarrow> 'w on_envelope \<Rightarrow> pubsub \<Rightarrow> pubsub_round list \<Rightarrow> real \<Rightarrow> 'w \<Rightarrow> real list \<times> 'w" where
  "consumer_rounds J f s [] delay w = ([], w)"
| "consumer_rounds J f s (x # xs) delay w =
     (case consumer_round J f s x delay w of
        ((sleep, delay1), w1) \<Rightarrow>
          (case consumer_rounds J f s xs delay1 w1 of (ds, w2) \<Rightarrow> ((case sleep of None \<Rightarrow> ds | Some d \<Rightarrow> d # ds), w2)))"

definition pubsub_start_consumer :: "pubsub \<Rightarrow> pubsub" where
  "pubsub_start_consumer s = s\<lparr>ps_running := True\<rparr>"

definition pubsub_close :: "pubsub \<Rightarrow> pubsub" where
  "pubsub_close s = s\<lparr>ps_running := False, ps_connected := False\<rparr>"

text \<open>After an error the client is made anew, unless it was injected.\<close>

definition pubsub_failed :: "pubsub \<Rightarrow> pubsub" where
  "pubsub_failed s = s\<lparr>ps_connected := (ps_connected s \<and> ps_injected s)\<rparr>"

subsection \<open>Facts\<close>

lemma min_doubled: "0 \<le> (b :: real) \<Longrightarrow> 0 \<le> m \<Longrightarrow> min (min b m * 2) m = min (b * 2) m"
  by (auto simp: min_def)

text \<open>As long as Redis cannot be reached, the delays double up to the most.\<close>

lemma unreachable_delays:
  assumes "0 \<le> b" "0 \<le> ps_most s"
  shows "consumer_rounds J f s (replicate n Unreachable) (min b (ps_most s)) w =
    (map (\<lambda>i. min (b * 2 ^ i) (ps_most s)) [0 ..< n], w)"
  using assms(1)
proof (induction n arbitrary: b)
  case (Suc n)
  have "[0 ..< Suc n] = 0 # map Suc [0 ..< n]" by (simp add: map_Suc_upt upt_conv_Cons del: upt_Suc)
  then show ?case using Suc.IH[of "b * 2"] Suc.prems assms(2)
    by (simp add: consumer_round_def reconnect_after_def min_doubled comp_def mult.assoc del: upt_Suc)
qed simp

text \<open>With a codec that reads what it wrote, the text that \<open>publish\<close> puts on the channel of an envelope's topic
  makes the consumer see that very envelope, and the messages around it do not matter.\<close>

theorem pubsub_roundtrip:
  assumes "codec_ok J" "wf_envelope e" "schema_version e = ENVELOPE_SCHEMA_VERSION"
    "pubsub_publish J from_url (\<lambda>c t w. (Inr (), w @ [(c, t)])) e s [] = (Inr (), s1, [(c, t)])"
  shows "c = ps_prefix s1 @ topic e \<and> pubsub_handle J u f t w = snd (f e w)"
proof -
  obtain s2 w2 where con: "pubsub_connect from_url s [] = (Inr (), s2, w2)"
    using assms(4) by (auto simp: pubsub_publish_def split: prod.splits sum.splits)
  obtain t2 where d: "dumps J (PDict (to_dict e)) = Inr t2"
    using assms(4) con by (auto simp: pubsub_publish_def split: sum.splits)
  have out: "c = ps_prefix s1 @ topic e" "t = t2" using assms(4) by (auto simp: pubsub_publish_def con d append_eq_Cons_conv)
  have "loads J t = Inr (PDict (to_dict e))" using assms(1) d out(2) by (simp add: codec_ok_def)
  then show ?thesis using out(1) from_dict_to_dict[OF assms(2), of u] assms(3) by (simp add: pubsub_handle_def)
qed

definition envelope_json :: "envelope \<Rightarrow> json_codec" where
  "envelope_json e = \<lparr>dumps = (\<lambda>v. if v = PDict (to_dict e) then Inr ''e'' else Inl (TypeError [])),
     loads = (\<lambda>t. if t = ''e'' then Inr (PDict (to_dict e)) else Inl (ValueError []))\<rparr>"

theorem pubsub_roundtrip_witness:
  "pubsub_handle (envelope_json (sample_event ''a'' ''t'' LOW)) ''u'' (\<lambda>e w. (None, w @ [topic e])) ''e'' [] = [''t'']"
proof -
  define e where "e = sample_event ''a'' ''t'' LOW"
  obtain s where s: "pubsub_new (Some ''redis://'') True None 1 2 = Inr s" by (simp add: pubsub_new_def)
  have ok: "codec_ok (envelope_json e)" by (simp add: codec_ok_def envelope_json_def)
  have wf: "wf_envelope e" "schema_version e = ENVELOPE_SCHEMA_VERSION"
    by (simp_all add: e_def sample_wf) (simp add: sample_event_def ENVELOPE_SCHEMA_VERSION_def)
  have t: "topic e = ''t''" by (simp add: e_def sample_event_def)
  have i: "ps_injected s" "\<not> ps_connected s" "ps_prefix s = ''evb:events:''" using s by (auto simp: pubsub_new_def or_str_def DEFAULT_CHANNEL_PREFIX_def)
  have "pubsub_publish (envelope_json e) (\<lambda>w. (Inr (), w)) (\<lambda>c t w. (Inr (), w @ [(c, t)])) e s []
      = (Inr (), s\<lparr>ps_connected := True\<rparr>, [(''evb:events:t'', ''e'')])"
    using i t by (simp add: pubsub_publish_def pubsub_connect_def envelope_json_def)
  from pubsub_roundtrip[OF ok wf this, of "''u''" "\<lambda>e w. (None, w @ [topic e])" "[]"] t
  show ?thesis by (simp add: e_def)
qed

end
