(* ===== verification/LifecycleSetup.thy ===== *)
theory LifecycleSetup
  imports Registry "HOL-Library.List_Lexorder" "HOL-Library.Char_ord"
begin

text \<open>
  The set-up of lifecycle events: the declarative subscribers of lifecycle/yaml_loader.py, the mixin of
  lifecycle/mixin.py, the logging subscriber of lifecycle/subscribers/logging.py, and the references to
  Python objects of _imports.py.  Importing a module is an argument.
\<close>

subsection \<open>References\<close>

text \<open>A module gives its attributes by name; \<open>attr\<close> those of an object.\<close>

type_synonym 'x importer = "string \<Rightarrow> (string \<Rightarrow> 'x option) result"

definition ImportError :: "string \<Rightarrow> py_exc" where
  "ImportError msg = OtherError (''ImportError: '' @ msg)"

text \<open>\<open>lazy_import\<close>: the message names what to install.\<close>

definition lazy_import :: "(string \<Rightarrow> 'x option) \<Rightarrow> string \<Rightarrow> string option \<Rightarrow> string option \<Rightarrow> 'x result" where
  "lazy_import modules path package extra =
     (case modules path of
        Some x \<Rightarrow> Inr x
      | None \<Rightarrow>
          (let pkg = (case package of Some (c # cs) \<Rightarrow> c # cs | _ \<Rightarrow> fst (py_partition (CHR ''.'') path));
               what = (case extra of Some (c # cs) \<Rightarrow> ''navigator-eventbus['' @ (c # cs) @ '']'' | _ \<Rightarrow> pkg)
           in Inl (ImportError (pkg @ '' is required but not installed. Install it with: pip install '' @ what))))"

text \<open>The first module that is missing is reported.\<close>

fun require_extra :: "(string \<Rightarrow> 'x option) \<Rightarrow> string \<Rightarrow> string list \<Rightarrow> unit result" where
  "require_extra modules extra [] = Inr ()"
| "require_extra modules extra (m # ms) = bind_r (lazy_import modules m None (Some extra)) (\<lambda>x. require_extra modules extra ms)"

text \<open>\<open>s.rpartition(c)\<close>.\<close>

definition py_rpartition :: "char \<Rightarrow> string \<Rightarrow> string \<times> bool \<times> string" where
  "py_rpartition c s =
     (case py_partition c (rev s) of (a, found, b) \<Rightarrow> if found then (rev b, True, rev a) else ([], False, s))"

fun attr_path :: "('x \<Rightarrow> string \<Rightarrow> 'x option) \<Rightarrow> 'x \<Rightarrow> string list \<Rightarrow> 'x result" where
  "attr_path attr x [] = Inr x"
| "attr_path attr x (p # ps) =
     (case attr x p of None \<Rightarrow> Inl (ValueError ''has no attribute path'') | Some y \<Rightarrow> attr_path attr y ps)"

definition split_ref :: "string \<Rightarrow> string \<times> string" where
  "split_ref r =
     (case (if CHR '':'' \<in> set r then py_partition (CHR '':'') r else py_rpartition (CHR ''.'') r) of
        (m, sep, a) \<Rightarrow> (py_strip m, py_strip a))"

definition resolve_callable ::
    "(string \<Rightarrow> 'x option) \<Rightarrow> ('x \<Rightarrow> string \<Rightarrow> 'x option) \<Rightarrow> ('x \<Rightarrow> bool) \<Rightarrow> string \<Rightarrow> 'x result" where
  "resolve_callable modules attr is_callable ref =
     (let r = py_strip ref
      in if r = [] then Inl (ValueError ''requires a non-empty str reference'')
         else (case split_ref r of
                 (m, a) \<Rightarrow>
                   if m = [] \<or> a = [] then Inl (ValueError ''Invalid callable reference'')
                   else (case modules m of
                           None \<Rightarrow> Inl (ValueError ''Cannot import module'')
                         | Some x \<Rightarrow>
                             bind_r (attr_path attr x (py_split (CHR ''.'') a)) (\<lambda>y.
                             if is_callable y then Inr y else Inl (TypeError ''non-callable'')))))"

text \<open>The kinds of the parameters of a signature; \<^const>\<open>None\<close> when it cannot be read.\<close>

datatype param_kind = Positional_only | Positional_or_keyword | Var_positional | Keyword_only | Var_keyword

definition accepts_two_positionals :: "param_kind list option \<Rightarrow> bool" where
  "accepts_two_positionals sig =
     (case sig of
        None \<Rightarrow> False
      | Some ps \<Rightarrow> Var_positional \<in> set ps \<or> 2 \<le> length (filter (\<lambda>k. k \<in> {Positional_only, Positional_or_keyword}) ps))"

subsection \<open>Declarative subscribers\<close>

text \<open>Python's equality of values: numbers and truth values by number, dictionaries in any order.\<close>

fun eq_form :: "pyval \<Rightarrow> pyval" where
  "eq_form (PBool b) = PFloat (if b then 1 else 0)"
| "eq_form (PInt i) = PFloat (real_of_int i)"
| "eq_form (PList vs) = PList (map eq_form vs)"
| "eq_form (PDict d) = PDict (sort_key fst (map (\<lambda>(k, v). (k, eq_form v)) d))"
| "eq_form v = v"

definition py_equal :: "pyval \<Rightarrow> pyval \<Rightarrow> bool" where
  "py_equal a b \<longleftrightarrow> eq_form a = eq_form b"

text \<open>\<open>EVENT_CLASSES\<close>: the classes by the names applications registered.\<close>

type_synonym event_names = "(string \<times> string) list"

definition EVENT_CLASSES :: event_names where
  "EVENT_CLASSES = [(''LifecycleEvent'', ''LifecycleEvent'')]"

definition register_event_names :: "event_names \<Rightarrow> event_names \<Rightarrow> event_names" where
  "register_event_names mapping classes = fold (\<lambda>(k, v). dict_set k v) mapping classes"

text \<open>
  What references resolve to: the callback of a handler with its name, or a provider class, which is called
  with its configuration.
\<close>

record ('x, 'w) yaml_env =
  ye_import :: "'x importer"
  ye_handler :: "'x \<Rightarrow> 'w lc_callback \<times> string"
  ye_build :: "'x \<Rightarrow> pydict \<Rightarrow> ('w lifecycle_registry \<Rightarrow> 'w lifecycle_registry) option result"
  ye_fresh :: "nat \<Rightarrow> string"

definition resolve_ref :: "'x importer \<Rightarrow> string \<Rightarrow> 'x result" where
  "resolve_ref imp dotted =
     (if CHR '':'' \<notin> set dotted then Inl (ValueError ''Bad dotted path'')
      else (case py_partition (CHR '':'') dotted of
              (m, sep, a) \<Rightarrow> bind_r (imp m) (\<lambda>attrs. of_opt (ImportError ''has no attribute'') (attrs a))))"

text \<open>The value of a field of an event; one that is no YAML value equals none.\<close>

definition event_field :: "lc_event \<Rightarrow> string \<Rightarrow> pyval option" where
  "event_field e k =
     (if k \<in> {''trace_context'', ''to_dict''} then None
      else if k = ''event_id'' then Some (PStr (le_event_id e))
      else if k = ''timestamp'' then Some (PDate (le_timestamp e))
      else if k = ''source_type'' then Some (PStr (le_source_type e))
      else if k = ''source_name'' then Some (PStr (le_source_name e))
      else Some (get_or (le_fields e) k PNone))"

definition where_allows :: "pyval option \<Rightarrow> pyval \<Rightarrow> bool" where
  "where_allows v allowed =
     (case v of
        None \<Rightarrow> False
      | Some x \<Rightarrow> (case allowed of PList ys \<Rightarrow> list_ex (py_equal x) ys | y \<Rightarrow> py_equal x y))"

definition make_where :: "pyval \<Rightarrow> lc_event \<Rightarrow> bool result" where
  "make_where w e =
     (case w of
        PDict d \<Rightarrow> Inr (list_all (\<lambda>(k, allowed). where_allows (event_field e k) allowed) d)
      | _ \<Rightarrow> Inl (OtherError ''AttributeError''))"

text \<open>The names of the entry, as iterating over them gives them.\<close>

definition iterated :: "pyval \<Rightarrow> pyval list result" where
  "iterated v =
     (case v of
        PList xs \<Rightarrow> Inr xs
      | PStr s \<Rightarrow> Inr (map (\<lambda>c. PStr [c]) s)
      | PDict d \<Rightarrow> Inr (map (\<lambda>(k, v). PStr k) d)
      | _ \<Rightarrow> Inl (TypeError ''not iterable''))"

fun event_classes :: "event_names \<Rightarrow> pyval list \<Rightarrow> string list result" where
  "event_classes classes [] = Inr []"
| "event_classes classes (n # ns) =
     (case n of
        PStr s \<Rightarrow>
          (case dict_get classes s of
             None \<Rightarrow> Inl (ValueError ''Unknown event class name'')
           | Some c \<Rightarrow> map_sum id (Cons c) (event_classes classes ns))
      | PList xs \<Rightarrow> Inl (TypeError ''unhashable type'')
      | PDict d \<Rightarrow> Inl (TypeError ''unhashable type'')
      | _ \<Rightarrow> Inl (ValueError ''Unknown event class name''))"

definition wired_classes :: "event_names \<Rightarrow> pydict \<Rightarrow> string list result" where
  "wired_classes classes sub =
     (let raw = get_or sub ''events'' (PList [])
      in if truthy_val raw then bind_r (iterated raw) (event_classes classes) else Inr [''LifecycleEvent''])"

definition subscribe_all :: "(nat \<Rightarrow> string) \<Rightarrow> 'w subscribe_call list \<Rightarrow> 'w lifecycle_registry \<Rightarrow> 'w lifecycle_registry" where
  "subscribe_all fresh cs r = fold (\<lambda>c r. snd (lc_subscribe (fresh (rg_counter r)) c r)) cs r"

text \<open>A reference is a text; any other value is refused like a malformed one.\<close>

definition wire_handler :: "('x, 'w) yaml_env \<Rightarrow> event_names \<Rightarrow> pyval \<Rightarrow> pydict \<Rightarrow> 'w lifecycle_registry \<Rightarrow> unit result \<times> 'w lifecycle_registry" where
  "wire_handler E classes ref sub r =
     (case bind_r (as_str ''handler'' ref) (resolve_ref (ye_import E)) of
        Inl x \<Rightarrow> (Inl x, r)
      | Inr h \<Rightarrow>
          (case wired_classes classes sub of
             Inl x \<Rightarrow> (Inl x, r)
           | Inr cs \<Rightarrow>
               (let wh = get_or sub ''where'' PNone; p = (if truthy_val wh then Some (make_where wh) else None)
                in (Inr (), subscribe_all (ye_fresh E)
                     (map (\<lambda>c. \<lparr>sc_type = c, sc_name = snd (ye_handler E h), sc_callback = fst (ye_handler E h), sc_where = p,
                                sc_forward = truthy_val (get_or sub ''forward_to_bus'' (PBool False)), sc_serializer = None\<rparr>) cs) r))))"

definition config_kwargs :: "pydict \<Rightarrow> pydict result" where
  "config_kwargs sub =
     (let c = get_or sub ''config'' (PDict [])
      in if \<not> truthy_val c then Inr [] else (case c of PDict d \<Rightarrow> Inr d | _ \<Rightarrow> Inl (TypeError ''argument after ** must be a mapping'')))"

definition wire_provider :: "('x, 'w) yaml_env \<Rightarrow> pyval \<Rightarrow> pydict \<Rightarrow> 'w lifecycle_registry \<Rightarrow> unit result \<times> 'w lifecycle_registry" where
  "wire_provider E ref sub r =
     (case bind_r (bind_r (as_str ''provider'' ref) (resolve_ref (ye_import E)))
             (\<lambda>cls. bind_r (config_kwargs sub) (ye_build E cls)) of
        Inl x \<Rightarrow> (Inl x, r)
      | Inr provider \<Rightarrow> (case add_provider provider r of (Inl x, r1) \<Rightarrow> (Inl x, r1) | (Inr ids, r1) \<Rightarrow> (Inr (), r1)))"

text \<open>An entry that is no dictionary raises in one way or another.\<close>

definition wire_entry :: "('x, 'w) yaml_env \<Rightarrow> event_names \<Rightarrow> pyval \<Rightarrow> 'w lifecycle_registry \<Rightarrow> unit result \<times> 'w lifecycle_registry" where
  "wire_entry E classes entry r =
     (case entry of
        PDict sub \<Rightarrow>
          (case dict_get sub ''handler'' of
             Some ref \<Rightarrow> wire_handler E classes ref sub r
           | None \<Rightarrow>
               (case dict_get sub ''provider'' of
                  Some ref \<Rightarrow> wire_provider E ref sub r
                | None \<Rightarrow> (Inl (ValueError ''Subscriber entry must have 'handler' or 'provider' key''), r)))
      | _ \<Rightarrow> (Inl (TypeError ''subscriber entry''), r))"

fun wire_entries :: "('x, 'w) yaml_env \<Rightarrow> event_names \<Rightarrow> pyval list \<Rightarrow> 'w lifecycle_registry \<Rightarrow> unit result \<times> 'w lifecycle_registry" where
  "wire_entries E classes [] r = (Inr (), r)"
| "wire_entries E classes (x # xs) r =
     (case wire_entry E classes x r of
        (Inl e, r1) \<Rightarrow> (Inl e, r1)
      | (Inr u, r1) \<Rightarrow> wire_entries E classes xs r1)"

definition wire_events ::
    "('x, 'w) yaml_env \<Rightarrow> event_names \<Rightarrow> pydict option \<Rightarrow> 'w lifecycle_registry option \<Rightarrow> unit result \<times> 'w lifecycle_registry option" where
  "wire_events E classes block reg =
     (case (block, reg) of
        (Some (b # bs), Some r) \<Rightarrow>
          (case iterated (get_or (b # bs) ''subscribers'' (PList [])) of
             Inl x \<Rightarrow> (Inl x, reg)
           | Inr xs \<Rightarrow> apsnd Some (wire_entries E classes xs r))
      | _ \<Rightarrow> (Inr (), reg))"

subsection \<open>The mixin\<close>

text \<open>An object has a registry once it asked for one; the bootstrap hook acts on the world and may raise,
  which is only logged.\<close>

definition init_events :: "('v \<Rightarrow> unit result \<times> 'v) option \<Rightarrow> bool \<Rightarrow> bool \<Rightarrow> 'w lifecycle_registry option \<Rightarrow> 'v \<Rightarrow> 'w lifecycle_registry option \<times> 'v" where
  "init_events hook has_bus forward_to_global reg v =
     (Some (registry_new has_bus ''lifecycle'' forward_to_global None), (case hook of None \<Rightarrow> v | Some f \<Rightarrow> snd (f v)))"

definition mixin_events :: "'w lifecycle_registry option \<Rightarrow> 'w lifecycle_registry" where
  "mixin_events reg = (case reg of Some r \<Rightarrow> r | None \<Rightarrow> registry_new False ''lifecycle'' True None)"

subsection \<open>Logging\<close>

definition dash :: "string \<Rightarrow> string" where
  "dash s = (if s = [] then ''-'' else s)"

definition log_line :: "lc_event \<Rightarrow> string" where
  "log_line e =
     ''lifecycle '' @ le_class e @ '' source='' @ dash (le_source_type e) @ ''/'' @ dash (le_source_name e) @
     '' trace='' @ tc_trace_id (le_trace e)"

text \<open>The records of a logger, with their levels.\<close>

definition log_on_event :: "int \<Rightarrow> (int \<times> string) list lc_callback" where
  "log_on_event level e w = (None, w @ [(level, log_line e)])"

definition logging_register :: "string \<Rightarrow> int \<Rightarrow> (int \<times> string) list lifecycle_registry \<Rightarrow> (int \<times> string) list lifecycle_registry" where
  "logging_register u level r =
     snd (lc_subscribe u \<lparr>sc_type = ''LifecycleEvent'', sc_name = ''LoggingSubscriber._on_event'', sc_callback = log_on_event level,
       sc_where = None, sc_forward = False, sc_serializer = None\<rparr> r)"

section \<open>Properties\<close>

lemma subscribe_all_subs:
  "rg_subs (subscribe_all fresh cs r) = rg_subs r @
     map2 (\<lambda>c i. \<lparr>ls_id = fresh i, ls_type = sc_type c, ls_name = sc_name c, ls_callback = sc_callback c, ls_where = sc_where c,
                 ls_forward = sc_forward c, ls_order = i, ls_serializer = sc_serializer c\<rparr>) cs [rg_counter r ..< rg_counter r + length cs]
   \<and> rg_counter (subscribe_all fresh cs r) = rg_counter r + length cs"
proof (induction cs arbitrary: r)
  case (Cons c cs)
  let ?r = "snd (lc_subscribe (fresh (rg_counter r)) c r)"
  have s: "subscribe_all fresh (c # cs) r = subscribe_all fresh cs ?r" by (simp add: subscribe_all_def)
  have "[rg_counter r ..< rg_counter r + length (c # cs)] = rg_counter r # [Suc (rg_counter r) ..< Suc (rg_counter r) + length cs]"
    using upt_conv_Cons[of "rg_counter r" "rg_counter r + length (c # cs)"] by (simp del: upt_Suc)
  then show ?case using Cons.IH[of ?r] by (simp add: s lc_subscribe_def del: upt_Suc)
qed (simp add: subscribe_all_def)

text \<open>A handler entry that is wired adds one subscription per class it names, in their order, each with the
  entry's callback, predicate and forwarding; a handler entry that is not wired adds none.\<close>

lemma handler_wired_exact:
  assumes "wire_handler E classes ref sub r = (res, r1)"
  shows "case res of
      Inl x \<Rightarrow> r1 = r
    | Inr u \<Rightarrow> (\<exists>cs h. wired_classes classes sub = Inr cs \<and> bind_r (as_str ''handler'' ref) (resolve_ref (ye_import E)) = Inr h \<and>
        map ls_type (rg_subs r1) = map ls_type (rg_subs r) @ cs \<and>
        (\<exists>new. rg_subs r1 = rg_subs r @ new \<and> list_all (\<lambda>s. ls_callback s = fst (ye_handler E h) \<and>
           ls_forward s = truthy_val (get_or sub ''forward_to_bus'' (PBool False)) \<and>
           (ls_where s = None \<longleftrightarrow> \<not> truthy_val (get_or sub ''where'' PNone))) new))"
proof (cases "bind_r (as_str ''handler'' ref) (resolve_ref (ye_import E))")
  case (Inr h)
  show ?thesis
  proof (cases "wired_classes classes sub")
    case (Inr cs)
    let ?p = "if truthy_val (get_or sub ''where'' PNone) then Some (make_where (get_or sub ''where'' PNone)) else None"
    let ?calls = "map (\<lambda>c. \<lparr>sc_type = c, sc_name = snd (ye_handler E h), sc_callback = fst (ye_handler E h), sc_where = ?p,
      sc_forward = truthy_val (get_or sub ''forward_to_bus'' (PBool False)), sc_serializer = None\<rparr>) cs"
    have r1: "res = Inr ()" "r1 = subscribe_all (ye_fresh E) ?calls r"
      using assms Inr \<open>bind_r _ _ = Inr h\<close> by (simp_all add: wire_handler_def Let_def)
    have types: "map ls_type (rg_subs r1) = map ls_type (rg_subs r) @ cs"
      unfolding r1(2) by (simp add: subscribe_all_subs comp_def case_prod_beta map_snd_zip_take zip_map1)
    show ?thesis using r1 Inr \<open>bind_r _ _ = Inr h\<close> types subscribe_all_subs[of "ye_fresh E" ?calls r]
      by (auto simp: list_all_iff set_zip)
  qed (use assms Inr in \<open>auto simp: wire_handler_def\<close>)
qed (use assms in \<open>auto simp: wire_handler_def\<close>)

lemma wire_entry_raises:
  assumes "wire_entry E classes x r = (Inl e, r1)"
  shows "r1 = r"
  using assms
  by (auto simp: wire_entry_def wire_handler_def wire_provider_def add_provider_def Let_def split: pyval.splits option.splits sum.splits)

text \<open>Wiring stops at the first entry that raises: the registry is then what the entries before it made, it
  is not rolled back, and the entries after it are not read.\<close>

lemma wiring_stops_at_error:
  assumes "wire_entries E classes xs r = (res, r1)"
  shows "\<exists>k \<le> length xs. wire_entries E classes (take k xs) r = (Inr (), r1) \<and>
    (case res of Inr u \<Rightarrow> k = length xs | Inl e \<Rightarrow> k < length xs \<and> wire_entry E classes (xs ! k) r1 = (Inl e, r1))"
  using assms
proof (induction xs arbitrary: r)
  case (Cons x xs)
  obtain q r2 where w: "wire_entry E classes x r = (q, r2)" by force
  show ?case
  proof (cases q)
    case (Inl e)
    then have "res = Inl e" "r1 = r" "r2 = r" using Cons.prems w wire_entry_raises[of E classes x r e r2] by auto
    then show ?thesis using w Inl by (intro exI[of _ 0]) simp
  next
    case (Inr u)
    then have "wire_entries E classes xs r2 = (res, r1)" using Cons.prems w by simp
    from Cons.IH[OF this] obtain k where k: "k \<le> length xs" "wire_entries E classes (take k xs) r2 = (Inr (), r1)"
      "case res of Inr u \<Rightarrow> k = length xs | Inl e \<Rightarrow> k < length xs \<and> wire_entry E classes (xs ! k) r1 = (Inl e, r1)" by blast
    then show ?thesis using w Inr by (intro exI[of _ "Suc k"]) (auto split: sum.splits)
  qed
qed auto

text \<open>A function of a module is resolved alike in both spellings, with a colon and with a dot.\<close>

lemma split_colon: "CHR '':'' \<notin> set m \<Longrightarrow> split_ref (m @ '':'' @ a) = (py_strip m, py_strip a)"
  using py_partition_sep[of "CHR '':''" m a] by (simp add: split_ref_def)

lemma split_dot:
  assumes "CHR '':'' \<notin> set m" "CHR '':'' \<notin> set a" "CHR ''.'' \<notin> set a"
  shows "split_ref (m @ ''.'' @ a) = (py_strip m, py_strip a)"
  using assms py_partition_sep[of "CHR ''.''" "rev a" "rev m"] by (simp add: split_ref_def py_rpartition_def)

lemma spellings_agree:
  assumes "CHR '':'' \<notin> set m" "CHR '':'' \<notin> set a" "CHR ''.'' \<notin> set a"
    "py_strip (m @ '':'' @ a) = m @ '':'' @ a" "py_strip (m @ ''.'' @ a) = m @ ''.'' @ a"
  shows "resolve_callable modules attr is_callable (m @ '':'' @ a) = resolve_callable modules attr is_callable (m @ ''.'' @ a)"
  using assms(4,5) unfolding resolve_callable_def Let_def
  by (simp only: split_colon[OF assms(1)] split_dot[OF assms(1-3)]) simp

end
