(* ===== verification/Spec2Isabelle.thy ===== *)
theory Spec2Isabelle
  imports BusProps OutboxProps FacadeProps DlqProps SignatureProps ReceiptProps QueueProps QueueApiProps
    HookAdapters WebhookProps KeyedProps KeyedDrainFacts StreamsProps LifecycleProps SubscriberProps AlertProps
    Rabbit Bridge BrokerProducer BrokerManager RedisBroker Ingress PubSub LifecycleSetup
begin

text \<open>
  A model of navigator-eventbus (src/src/navigator_eventbus), an event bus with durable delivery,
  pull queues, webhook ingestion and lifecycle events.  Paths below are relative to that directory.

  Conventions.  A Python object is a record and its methods are functions that take and return the
  record; an exception is the left side of a sum; a dictionary is an association list in insertion
  order; a string is a list of characters, which stands for a text of code points below 256 or for
  bytes.  Integers are unbounded, as in Python.  Times and random ids are arguments.  Code between
  two \<open>await\<close> points is one step: an asyncio program switches only there, so an interleaving is a
  sequence of such steps, and an operation that others may observe halfway is cut there into several
  definitions.  Code that is not in the repository (Redis, PostgreSQL's driver, aiohttp, pydantic's
  coercions, JSON, HMAC, parsers of networks and forms) is an argument, with what the code relies on
  as the assumptions of a locale; each locale is interpreted on a model of the repository's own
  code: its SQLite outbox, its signature schemes, the in-memory servers its tests run on.

  The parts and how they call each other:

  \<^item> The event contract.  \<open>Envelope\<close> has the envelope, severities, priorities, the legacy event and the
    converters (envelope.py, evb.py, converters.py), \<open>Datetime\<close> and \<open>Epoch\<close> the time stamps,
    \<open>PyValues\<close> and \<open>Json\<close> the values in payloads.  \<open>FacadeProps\<close>: what is written is read back, and
    what is read is well formed.

  \<^item> The bus core (core.py).  \<open>BusCore\<close> has subscriptions with the patterns of \<open>Glob\<close>, the bounded
    priority queues, dispatch with retries and dead letters; \<open>BusOps\<close> the operations that append to the
    outbox, publish, receive from the transport and relay; \<open>BusRun\<close> their interleavings as a step
    relation and its invariants.  \<open>BusProps\<close>: the invariants of every reachable bus, the exact retries,
    dead letters, queue policies, echo suppression, write-ahead and relay.

  \<^item> The durable outbox (outbox.py).  \<open>OutboxStore\<close> is the protocol as a locale, \<open>SqliteOutbox\<close> its
    implementation and interpretation, \<open>Relay\<close> and \<open>OutboxProps\<close> what the bus and the store promise.

  \<^item> Facade, producer and dead letters.  \<open>Facade\<close> is the \<open>EventBus\<close> in front of the core and the producer
    (evb.py, producers.py), \<open>Dlq\<close> the handler that stores dead letters in a table and replays them
    (dlq.py).  \<open>FacadeProps\<close> and \<open>DlqProps\<close> say what a publication reports and that replay is exact.

  \<^item> The streams transport (backends/redis_streams.py).  \<open>StreamsBackend\<close> has publishing, the consumer,
    the sweeper, the retention trimmer and broadcast reading, one pass each, and the channels of
    backends/composite.py over it.  \<open>StreamsRun\<close> lets the consumers of a group interleave and crash,
    over the server of the tests; \<open>StreamsProps\<close>: no entry is lost, an event is marked exactly when it
    was processed, a lost group is never joined again, what a composite feeds to the bus.

  \<^item> Pull queues (queues/).  \<open>QueueConfig\<close> has the configuration, \<open>RedisStreams\<close> the commands with their
    documented laws as a locale over a view of the server, \<open>QueueStore\<close> the engine, \<open>Receipts\<close> the signed
    handles.  \<open>QueueLeases\<close>, \<open>QueueFacts\<close> and \<open>QueueRuns\<close> prove the engine against the view,
    \<open>FakeRedis\<close> is the server of the tests and the interpretation.  \<open>IngressModel\<close>, \<open>Http\<close>,
    \<open>QueueApi\<close> and \<open>QueueHandlers\<close> are the HTTP surface, \<open>QueueFeeder\<close> the subscription that fills a
    queue from the bus.  \<open>QueueProps\<close>, \<open>ReceiptProps\<close> and \<open>QueueApiProps\<close>: a receive
    refines its specification, leases exclude, a handle deletes exactly its message, no request without
    its token has an effect, and no interleaving of long polls exceeds its limit.

  \<^item> Keyed queues (queues/keyed/).  \<open>KeyedConfig\<close> has the configuration and outcomes; \<open>KeyedDb\<close> the keys
    of one queue with WATCH, EXEC and the lock; \<open>KeyedStore\<close>, \<open>KeyedOps\<close>, \<open>KeyedLease\<close> and \<open>KeyedApply\<close> the
    operations of \<open>KeyedQueue\<close>; \<open>KeyedDrain\<close> the consumer and the drain.  A transaction is begun by one
    definition and executed by another.  \<open>KeyedFacts\<close> says how keys and versions evolve, \<open>KeyedRuns\<close>
    interleaves any number of consumers, \<open>KeyedOrder\<close> follows single operations.  \<open>KeyedProps\<close> and
    \<open>KeyedDrainFacts\<close>: work on a key is serialised, outcomes are fenced, order is kept, the lease is on
    the head, the effect of each outcome, and the loops end.

  \<^item> Hooks and webhooks (hooks/).  \<open>Hooks\<close> has the types, events and the manager; \<open>Signatures\<close> the schemes of
    webhook_signatures.py; \<open>Webhook\<close> the ingest pipeline, \<open>WebhookListener\<close> the listener and the provider
    hook, \<open>WebhookFacts\<close> their lemmas.  \<open>HookAdapters\<close>, \<open>SignatureProps\<close> and \<open>WebhookProps\<close>: signatures verify
    and are required, deliveries are counted and not repeated, every hook follows the manager.

  \<^item> Lifecycle events (lifecycle/).  \<open>Lifecycle\<close> has trace contexts and events, \<open>Registry\<close> the registry with
    its emission, the tasks it schedules and the global registry.  \<open>LifecycleProps\<close>: the traceparent
    header is parsed exactly, emission is ordered and isolated, what still raises, error events do not
    cascade, an event keeps its identity on the bus.  \<open>LifecycleSetup\<close> has the
    subscribers declared in YAML, the references to Python objects, the mixin and the logging subscriber.

  \<^item> Subscribers (subscribers/, lifecycle/subscribers/webhook.py).  \<open>Delivery\<close> has the retrying POST, the
    subscriber that signs, buffers and delivers envelopes and the lifecycle subscriber, \<open>AuditTrail\<close> the audit
    trail and the metrics, \<open>Alerts\<close> the alert rules with deduplication, throttle, digests and storm guard.
    \<open>LossyBuffer\<close> is the contract of a buffer that drops its oldest entry, which the delivery queue and the
    audit buffer both keep.  \<open>SubscriberProps\<close> and \<open>AlertProps\<close>: the attempts of a POST and their delays,
    what is sent is what the receiver of this package admits, every envelope is accounted for in one place,
    alerts are deduplicated and throttled in every interleaving, and what a digest leaves behind.

  \<^item> Brokers (brokers/).  \<open>Rabbit\<close> has the RabbitMQ connection: dialling with its reconnections, declarations,
    publishing, decoding and the wrapper that settles a delivery, with the codecs of serializers.py; \<open>Bridge\<close>
    the bridge that validates, deduplicates and republishes the events of devices; \<open>BrokerProducer\<close> the
    buffered producer, its endpoint and its workers; \<open>RedisBroker\<close> the Redis Streams broker over the commands
    of \<open>RedisStreams\<close>, and the settlement of SQS; \<open>BrokerManager\<close> the start and shutdown of a manager.
    Each ends with its properties: a delivery is settled once, a failing message comes back a bounded
    number of times, the bridge publishes nothing twice, and what is lost: events whose publication failed, entries whose
    callback failed, the identity a request should have had.

  \<^item> Ingress and adapters (ingress/, hooks/brokers/, hooks/file_watchdog.py, hooks/scheduler.py,
    hooks/mixins.py).  \<open>Ingress\<close> has the WebSocket and the gRPC ingress, \<open>HookAdapters\<close> the hooks over
    brokers, files and schedules.  What a session puts on the bus; an event is
    published as its envelope but for its trace context; dispatches are debounced, a creation
    swallows the next modification, a failed hook event is acknowledged.

  \<^item> \<open>PubSub\<close>: the loopback and the Redis pub/sub transports (backends/memory.py, backends/redis_pubsub.py), with
    the delays of the reconnecting consumer and the round trip of an envelope.

  \<open>Prelude\<close> holds the exceptions, dictionaries, strings and integers all theories share; the theories
  called \<open>Samples\<close> hold the concrete values of the witnesses.

  Fuel and measures.  Loops are recursive on their data or have a measure, but for these: the rounds of
  \<open>drain_key\<close>, of which one more than the messages is proved enough; the 64 attempts of a push, which is
  the bound of the code; \<open>lease_turns\<close> and \<open>lc_turns\<close>, which only serve to state that the loops end, with
  their bounds.  \<open>connect\<close> to RabbitMQ may never end and is a partial function.  A long poll and the loops of the workers, the consumers and the sweepers do not end: one
  pass of each is a definition, and a run is any sequence of passes.

  Not modelled, and why.
  \<^item> brokers/: the abstract bases and constructors, the tasks of the Redis and SQS consumers, and
    wrapper.py, which holds a coroutine and its arguments.
  \<^item> The servers and routes of ingress/ and the generated code of ingress/proto.
  \<^item> The senders of notify's providers and the HTTP sessions of the subscribers.
  \<^item> The configuration models of the hook providers, which are declarations for pydantic.
  \<^item> Connections, logging and the starting and cancelling of tasks everywhere; scripts/ and sdd/, which are
    tooling around the repository.
\<close>

end
